(* ===== verification/Prelude.thy ===== *)
theory Prelude
  imports Main "HOL-Library.Word" "HOL-Library.Signed_Division"
begin

text \<open>
  The prelude of the development.  It fixes how a C run that does not return normally is
  represented (the type \<open>error\<close> and the result type \<open>'a res\<close>), the sequencing of
  such runs (\<open>bind_res\<close>), the names of the machine integers the sources use, and the
  generic facts on results, words, bytes and lists the component theories share.
\<close>

unbundle bit_operations_syntax

subsection \<open>How a run can fail\<close>

text \<open>
  \<open>Panic\<close> is \<open>panic(..)\<close> or a failed \<open>Assert(..)\<close> with its message,
  \<open>Assertion\<close> a failed \<open>assert(..)\<close>.  \<open>Out_of_bounds\<close> is an access outside the C
  object that is accessed (undefined behaviour that the sources do not check),
  \<open>Div_trap\<close> an integer division the host traps on, \<open>Signed_overflow\<close> a signed
  computation whose result does not fit its type, \<open>Bad_shift\<close> a shift by at least the
  width of the operand, \<open>Null_deref\<close> the use of a null
  pointer, \<open>Use_after_free\<close> the use of a released block, \<open>Exit\<close> a call of
  \<open>exit(..)\<close>, and \<open>Diverges\<close> a loop over a linked structure that has no end (the
  loops that may do so carry a bound, and running out of it is this error).
\<close>

datatype error =
    Panic string
  | Assertion
  | Out_of_bounds
  | Div_trap
  | Signed_overflow
  | Bad_shift
  | Null_deref
  | Use_after_free
  | Exit int
  | Diverges

type_synonym 'a res = "error + 'a"

type_synonym byte = "8 word"
type_synonym u16 = "16 word"
type_synonym u32 = "32 word"
type_synonym u64 = "64 word"

definition bind_res :: "'a res \<Rightarrow> ('a \<Rightarrow> 'b res) \<Rightarrow> 'b res" where
  "bind_res r f = (case r of Inl e \<Rightarrow> Inl e | Inr x \<Rightarrow> f x)"

definition assert_res :: "error \<Rightarrow> bool \<Rightarrow> unit res" where
  "assert_res e b = (if b then Inr () else Inl e)"

named_theorems res_simps \<open>sequencing of results\<close>
named_theorems byte_simps \<open>splitting words into bytes and joining them again\<close>

lemma bind_res_Inl [simp, res_simps]: "bind_res (Inl e) f = Inl e"
  by (simp add: bind_res_def)

lemma bind_res_Inr [simp, res_simps]: "bind_res (Inr x) f = f x"
  by (simp add: bind_res_def)

lemma bind_res_eq_Inr_iff [res_simps]:
  "bind_res r f = Inr y \<longleftrightarrow> (\<exists>x. r = Inr x \<and> f x = Inr y)"
  by (cases r) auto

lemma bind_res_eq_Inl_iff:
  "bind_res r f = Inl e \<longleftrightarrow> r = Inl e \<or> (\<exists>x. r = Inr x \<and> f x = Inl e)"
  by (cases r) auto

lemma bind_resE:
  assumes "bind_res r f = Inr y"
  obtains x where "r = Inr x" and "f x = Inr y"
  using assms by (auto simp: bind_res_eq_Inr_iff)

lemma bind_res_assoc: "bind_res (bind_res r f) g = bind_res r (\<lambda>x. bind_res (f x) g)"
  by (cases r) auto

lemma bind_res_cong [fundef_cong]:
  assumes "r = r'" and "\<And>x. r' = Inr x \<Longrightarrow> f x = f' x"
  shows "bind_res r f = bind_res r' f'"
  using assms by (cases r') auto

lemma assert_res_simps [simp, res_simps]:
  "assert_res e True = Inr ()"
  "assert_res e False = Inl e"
  by (simp_all add: assert_res_def)

lemma assert_res_eq_Inr [simp, res_simps]: "assert_res e b = Inr u \<longleftrightarrow> b"
  by (simp add: assert_res_def)

lemma assert_res_eq_Inl [simp, res_simps]: "assert_res e b = Inl e' \<longleftrightarrow> \<not> b \<and> e' = e"
  by (auto simp: assert_res_def)

subsection \<open>C truth values\<close>

text \<open>A comparison used as a value: \<open>1\<close> or \<open>0\<close>.\<close>

definition of_truth :: "bool \<Rightarrow> 'a::len word" where
  "of_truth b = (if b then 1 else 0)"

lemma of_truth_simps [simp]: "of_truth True = 1" "of_truth False = 0"
  by (simp_all add: of_truth_def)

lemma of_truth_eq_0 [simp]: "of_truth b = 0 \<longleftrightarrow> \<not> b"
  by (simp add: of_truth_def)

subsection \<open>Rounding and narrowing\<close>

lemma and_not_mask: "w AND NOT (mask n) = push_bit n (drop_bit n w)" for w :: "'a::len word"
  by (rule bit_word_eqI) (auto simp: bit_simps)

lemma uint_and_not_mask: "uint (w AND NOT (mask n)) = uint w div 2 ^ n * 2 ^ n" for w :: "'a::len word"
proof -
  have "uint w div 2 ^ n * 2 ^ n \<le> uint w"
    using minus_mod_eq_div_mult [of "uint w" "2 ^ n"] pos_mod_sign [OF zero_less_power [of 2 n], of "uint w"] by linarith
  then have "uint w div 2 ^ n * 2 ^ n < 2 ^ LENGTH('a)"
    using uint_lt2p [of w] by linarith
  moreover have "0 \<le> uint w div 2 ^ n * 2 ^ n" by (simp add: pos_imp_zdiv_nonneg_iff)
  ultimately show ?thesis
    by (simp add: and_not_mask unsigned_push_bit_eq unsigned_drop_bit_eq take_bit_int_eq_self
        push_bit_eq_mult [where 'a = int] drop_bit_eq_div [where 'a = int])
qed

lemma sint_ucast_small:
  assumes "uint w < 2 ^ (LENGTH('b) - 1)"
  shows "sint (ucast w :: 'b::len word) = uint w" 
proof -
  have "uint w < 2 ^ LENGTH('b)"
    using assms by (rule less_le_trans) (simp add: power_increasing)
  then have "uint (ucast w :: 'b word) = uint w"
    by (simp add: unsigned_ucast_eq take_bit_int_eq_self)
  moreover have "- (2 ^ (LENGTH('b) - 1)) \<le> uint w"
    by (rule order_trans [of _ 0]) simp_all
  ultimately show ?thesis
    using assms by (simp add: sint_uint signed_take_bit_int_eq_self)
qed

lemma bit_double_word:
  "bit (w * 2) i \<longleftrightarrow> 0 < i \<and> i < LENGTH('a) \<and> bit w (i - 1)" for w :: "'a::len word"
  by (auto simp: mult.commute [of w 2] bit_double_iff)

subsection \<open>Bytes of a word\<close>

lemma take_bit_32 [simp]: "take_bit 32 (w :: u32) = w"
  using take_bit_length_eq [of w] by simp

text \<open>The \<open>k\<close>-th byte of a 32-bit value, least significant first (the host is
  little-endian), and the value of four, two and one consecutive bytes.\<close>

definition byte_of :: "u32 \<Rightarrow> nat \<Rightarrow> byte" where
  "byte_of w k = ucast (drop_bit (8 * k) w)"

definition join2 :: "byte \<Rightarrow> byte \<Rightarrow> u32" where
  "join2 b0 b1 = ucast b0 OR push_bit 8 (ucast b1)"

definition join4 :: "byte \<Rightarrow> byte \<Rightarrow> byte \<Rightarrow> byte \<Rightarrow> u32" where
  "join4 b0 b1 b2 b3 =
     ucast b0 OR push_bit 8 (ucast b1) OR push_bit 16 (ucast b2) OR push_bit 24 (ucast b3)"

lemma join4_byte_of [byte_simps, simp]:
  "join4 (byte_of w 0) (byte_of w (Suc 0)) (byte_of w 2) (byte_of w 3) = w"
proof (rule bit_word_eqI)
  fix n assume n: "n < LENGTH(32)"
  consider "n < 8" | "8 \<le> n" "n < 16" | "16 \<le> n" "n < 24" | "24 \<le> n" "n < 32"
    using n by fastforce
  then show "bit (join4 (byte_of w 0) (byte_of w (Suc 0)) (byte_of w 2) (byte_of w 3)) n = bit w n"
    by cases (auto simp: join4_def byte_of_def bit_simps)
qed

lemma join2_byte_of [byte_simps, simp]:
  "join2 (byte_of w 0) (byte_of w (Suc 0)) = take_bit 16 w"
proof (rule bit_word_eqI)
  fix n assume n: "n < LENGTH(32)"
  consider "n < 8" | "8 \<le> n" "n < 16" | "16 \<le> n"
    by fastforce
  then show "bit (join2 (byte_of w 0) (byte_of w (Suc 0))) n = bit (take_bit 16 w) n"
    using n by cases (auto simp: join2_def byte_of_def bit_simps)
qed

lemma join1_byte_of [byte_simps, simp]: "(ucast (byte_of w 0) :: u32) = take_bit 8 w"
  by (rule bit_word_eqI) (auto simp: byte_of_def bit_simps)

lemma byte_of_join4 [byte_simps]:
  "byte_of (join4 b0 b1 b2 b3) 0 = b0"
  "byte_of (join4 b0 b1 b2 b3) (Suc 0) = b1"
  "byte_of (join4 b0 b1 b2 b3) 2 = b2"
  "byte_of (join4 b0 b1 b2 b3) 3 = b3"
  by (rule bit_word_eqI; auto simp: join4_def byte_of_def bit_simps dest: bit_imp_le_length)+

end
