(* ===== verification/Config.thy ===== *)
theory Config
  imports Prelude
begin

text \<open>
  The build configuration of NEMU.  The sources read it from
  \<open>generated/autoconf.h\<close>, which the build writes from \<open>nemu/Kconfig\<close>; here it is a
  record that every definition takes as an argument.  A boolean field says whether the
  macro of that name is defined, a word field is the macro's value.  The word size is
  that of \<open>riscv32\<close> (\<open>CONFIG_ISA64\<close> and \<open>PMEM64\<close> undefined): \<open>word_t\<close>,
  \<open>vaddr_t\<close> and \<open>paddr_t\<close> are 32 bits wide.
\<close>

record config =
  CONFIG_MBASE :: u32
  CONFIG_MSIZE :: u32
  CONFIG_PC_RESET_OFFSET :: u32
  CONFIG_RVE :: bool
  CONFIG_RT_CHECK :: bool
  CONFIG_DEVICE :: bool
  CONFIG_DIFFTEST :: bool
  CONFIG_WATCHPOINT :: bool
  CONFIG_HAS_SERIAL :: bool
  CONFIG_HAS_TIMER :: bool
  CONFIG_HAS_KEYBOARD :: bool
  CONFIG_HAS_VGA :: bool
  CONFIG_HAS_AUDIO :: bool
  CONFIG_HAS_SDCARD :: bool
  CONFIG_SERIAL_MMIO :: u32
  CONFIG_RTC_MMIO :: u32
  CONFIG_I8042_DATA_MMIO :: u32
  CONFIG_VGA_CTL_MMIO :: u32
  CONFIG_FB_ADDR :: u32
  CONFIG_VGA_SIZE_800x600 :: bool
  CONFIG_VGA_SHOW_SCREEN :: bool
  CONFIG_AUDIO_CTL_MMIO :: u32
  CONFIG_SB_ADDR :: u32
  CONFIG_SB_SIZE :: u32
  CONFIG_SDCARD_CTL_MMIO :: u32

text \<open>
  The values \<open>nemu/Kconfig\<close>, \<open>nemu/src/memory/Kconfig\<close> and
  \<open>nemu/src/device/Kconfig\<close> give by default for the riscv32 guest, with devices
  switched on.  It is the configuration the concrete examples run on.
\<close>

definition default_config :: config where
  "default_config =
    \<lparr> CONFIG_MBASE = 0x80000000, CONFIG_MSIZE = 0x8000000, CONFIG_PC_RESET_OFFSET = 0,
      CONFIG_RVE = False, CONFIG_RT_CHECK = True, CONFIG_DEVICE = True,
      CONFIG_DIFFTEST = False, CONFIG_WATCHPOINT = False,
      CONFIG_HAS_SERIAL = True, CONFIG_HAS_TIMER = True, CONFIG_HAS_KEYBOARD = True,
      CONFIG_HAS_VGA = True, CONFIG_HAS_AUDIO = True, CONFIG_HAS_SDCARD = False,
      CONFIG_SERIAL_MMIO = 0xa00003f8, CONFIG_RTC_MMIO = 0xa0000048,
      CONFIG_I8042_DATA_MMIO = 0xa0000060, CONFIG_VGA_CTL_MMIO = 0xa0000100,
      CONFIG_FB_ADDR = 0xa1000000, CONFIG_VGA_SIZE_800x600 = False,
      CONFIG_VGA_SHOW_SCREEN = True,
      CONFIG_AUDIO_CTL_MMIO = 0xa0000200, CONFIG_SB_ADDR = 0xa1200000,
      CONFIG_SB_SIZE = 0x10000, CONFIG_SDCARD_CTL_MMIO = 0xa3000000 \<rparr>"

lemma default_config_simps [simp]:
  "CONFIG_MBASE default_config = 0x80000000"
  "CONFIG_MSIZE default_config = 0x8000000"
  "CONFIG_PC_RESET_OFFSET default_config = 0"
  "CONFIG_RVE default_config = False"
  "CONFIG_RT_CHECK default_config = True"
  "CONFIG_DEVICE default_config = True"
  "CONFIG_DIFFTEST default_config = False"
  "CONFIG_WATCHPOINT default_config = False"
  "CONFIG_HAS_SERIAL default_config = True"
  "CONFIG_HAS_TIMER default_config = True"
  "CONFIG_HAS_KEYBOARD default_config = True"
  "CONFIG_HAS_VGA default_config = True"
  "CONFIG_HAS_AUDIO default_config = True"
  "CONFIG_HAS_SDCARD default_config = False"
  "CONFIG_SERIAL_MMIO default_config = 0xa00003f8"
  "CONFIG_RTC_MMIO default_config = 0xa0000048"
  "CONFIG_I8042_DATA_MMIO default_config = 0xa0000060"
  "CONFIG_VGA_CTL_MMIO default_config = 0xa0000100"
  "CONFIG_FB_ADDR default_config = 0xa1000000"
  "CONFIG_VGA_SIZE_800x600 default_config = False"
  "CONFIG_VGA_SHOW_SCREEN default_config = True"
  "CONFIG_AUDIO_CTL_MMIO default_config = 0xa0000200"
  "CONFIG_SB_ADDR default_config = 0xa1200000"
  "CONFIG_SB_SIZE default_config = 0x10000"
  "CONFIG_SDCARD_CTL_MMIO default_config = 0xa3000000"
  by (simp_all add: default_config_def)

end
