(* ===== verification/Hostmem.thy ===== *)
theory Hostmem
  imports Config
begin

text \<open>
  Byte objects of the host and the two accessors of \<open>nemu/include/memory/host.h\<close>.
  A host object of \<open>sz\<close> bytes is a function from offsets to bytes; an offset is an
  integer because the sources compute it by pointer subtraction.  An access that leaves
  the object is \<open>Out_of_bounds\<close>.
\<close>

type_synonym bytes = "int \<Rightarrow> byte"

definition in_object :: "int \<Rightarrow> int \<Rightarrow> int \<Rightarrow> bool" where
  "in_object sz a n \<longleftrightarrow> 0 \<le> a \<and> a + n \<le> sz"

definition host_read :: "config \<Rightarrow> int \<Rightarrow> bytes \<Rightarrow> int \<Rightarrow> int \<Rightarrow> u32 res" where
  "host_read c sz m a len =
     (if len = 1 then
        bind_res (assert_res Out_of_bounds (in_object sz a 1)) (\<lambda>_. Inr (ucast (m a)))
      else if len = 2 then
        bind_res (assert_res Out_of_bounds (in_object sz a 2))
          (\<lambda>_. Inr (join2 (m a) (m (a + 1))))
      else if len = 4 then
        bind_res (assert_res Out_of_bounds (in_object sz a 4))
          (\<lambda>_. Inr (join4 (m a) (m (a + 1)) (m (a + 2)) (m (a + 3))))
      else if CONFIG_RT_CHECK c then Inl Assertion
      else Inr 0)"

definition host_write :: "config \<Rightarrow> int \<Rightarrow> bytes \<Rightarrow> int \<Rightarrow> int \<Rightarrow> u32 \<Rightarrow> bytes res" where
  "host_write c sz m a len data =
     (if len = 1 then
        bind_res (assert_res Out_of_bounds (in_object sz a 1))
          (\<lambda>_. Inr (m(a := byte_of data 0)))
      else if len = 2 then
        bind_res (assert_res Out_of_bounds (in_object sz a 2))
          (\<lambda>_. Inr (m(a := byte_of data 0, a + 1 := byte_of data 1)))
      else if len = 4 then
        bind_res (assert_res Out_of_bounds (in_object sz a 4))
          (\<lambda>_. Inr (m(a := byte_of data 0, a + 1 := byte_of data 1,
                      a + 2 := byte_of data 2, a + 3 := byte_of data 3)))
      else if CONFIG_RT_CHECK c then Inl Assertion
      else Inr m)"

definition access_len :: "int \<Rightarrow> bool" where
  "access_len len \<longleftrightarrow> len = 1 \<or> len = 2 \<or> len = 4"

subsection \<open>Facts\<close>

lemma host_read_ok:
  assumes "access_len len"
  shows "(\<exists>v. host_read c sz m a len = Inr v) \<longleftrightarrow> in_object sz a len"
  using assms by (auto simp: host_read_def access_len_def assert_res_def)

lemma host_write_ok:
  assumes "access_len len"
  shows "(\<exists>m'. host_write c sz m a len d = Inr m') \<longleftrightarrow> in_object sz a len"
  using assms by (auto simp: host_write_def access_len_def assert_res_def)

text \<open>A write changes no byte outside the \<open>len\<close> bytes it names.\<close>

lemma host_write_frame:
  assumes "host_write c sz m a len d = Inr m'" and "x < a \<or> a + len \<le> x" and "0 \<le> len"
  shows "m' x = m x"
  using assms by (auto simp: host_write_def assert_res_def split: if_splits)

lemma host_read_after_write:
  assumes "access_len len" and "host_write c sz m a len d = Inr m'"
  shows "host_read c sz m' a len = Inr (take_bit (8 * nat len) d)"
  using assms
  by (auto simp: host_read_def host_write_def access_len_def assert_res_def split: if_splits)

lemma host_read_cong:
  assumes "access_len len" and "\<And>x. a \<le> x \<Longrightarrow> x < a + len \<Longrightarrow> m x = m' x"
  shows "host_read c sz m a len = host_read c sz m' a len"
  using assms by (auto simp: host_read_def access_len_def)

text \<open>A read of bytes a write does not touch sees the old contents.\<close>

lemma host_read_write_disjoint:
  assumes "access_len len" and "access_len len'"
    and "host_write c sz m a len d = Inr m'"
    and "b + len' \<le> a \<or> a + len \<le> b"
  shows "host_read c sz m' b len' = host_read c sz m b len'"
proof (rule host_read_cong [OF assms(2)])
  fix x assume "b \<le> x" "x < b + len'"
  with assms(4) have "x < a \<or> a + len \<le> x" by auto
  moreover have "0 \<le> len" using assms(1) by (auto simp: access_len_def)
  ultimately show "m' x = m x" using assms(3) host_write_frame by blast
qed

text \<open>Only a legal length succeeds when the runtime checks are compiled in.\<close>

lemma host_read_len_checked:
  assumes "CONFIG_RT_CHECK c" and "host_read c sz m a len = Inr v"
  shows "access_len len"
  using assms by (auto simp: host_read_def access_len_def split: if_splits)

lemma host_write_len_checked:
  assumes "CONFIG_RT_CHECK c" and "host_write c sz m a len d = Inr m'"
  shows "access_len len"
  using assms by (auto simp: host_write_def access_len_def split: if_splits)

end
