(* ===== verification/Iomap.thy ===== *)
theory Iomap
  imports Hostmem
begin

text \<open>
  The I/O spaces of NEMU: \<open>nemu/include/device/map.h\<close>, \<open>nemu/src/device/io/map.c\<close>,
  \<open>nemu/src/device/io/mmio.c\<close> and \<open>nemu/src/device/io/port-io.c\<close>, with
  \<open>in_pmem\<close> of \<open>nemu/include/memory/paddr.h\<close>, the run state of
  \<open>nemu/include/utils.h\<close> and the skip flags of \<open>nemu/src/cpu/difftest/dut.c\<close> that a
  lookup of an I/O address sets.

  A pointer into the buffer \<open>io_space\<close> is its offset in that buffer.  The array
  \<open>maps\<close> with its counter \<open>nr_map\<close> is the list of the entries in use.  A function
  pointer of type \<open>io_callback_t\<close> is one of the handlers the devices register; calling
  through it is the argument \<open>cb\<close> of \<open>map_read\<close> and \<open>map_write\<close>.
\<close>

subsection \<open>Run state and the difftest skip flags\<close>

datatype run_state = NEMU_RUNNING | NEMU_STOP | NEMU_END | NEMU_ABORT | NEMU_QUIT

record NEMUState =
  st_state :: run_state
  halt_pc :: u32
  halt_ret :: u32

record monitor =
  nemu_state :: NEMUState
  is_skip_ref :: bool
  skip_dut_nr_inst :: int

definition difftest_skip_ref :: "config \<Rightarrow> 'a monitor_scheme \<Rightarrow> 'a monitor_scheme" where
  "difftest_skip_ref c s =
     (if CONFIG_DIFFTEST c then s\<lparr>is_skip_ref := True, skip_dut_nr_inst := 0\<rparr> else s)"

subsection \<open>Maps\<close>

datatype io_callback =
    rtc_handler | serial_handler | i8042_handler | audio_handler | sdcard_handler

record IOMap =
  map_name :: string
  map_low :: u32
  map_high :: u32
  map_space :: int
  map_callback :: "io_callback option"

record io = monitor +
  io_space :: bytes
  p_space :: int
  mmio_maps :: "IOMap list"
  pio_maps :: "IOMap list"

definition IO_SPACE_MAX :: int where
  "IO_SPACE_MAX = 2 * 1024 * 1024"

definition NR_MAP :: nat where
  "NR_MAP = 16"

definition PAGE_SIZE :: u64 where
  "PAGE_SIZE = push_bit 12 1"

definition PAGE_MASK :: u64 where
  "PAGE_MASK = PAGE_SIZE - 1"

definition in_pmem :: "config \<Rightarrow> u32 \<Rightarrow> bool" where
  "in_pmem c a \<longleftrightarrow> a - CONFIG_MBASE c < CONFIG_MSIZE c"

definition map_inside :: "IOMap \<Rightarrow> u32 \<Rightarrow> bool" where
  "map_inside m a \<longleftrightarrow> map_low m \<le> a \<and> a \<le> map_high m"

text \<open>The loop of \<open>find_mapid_by_addr\<close>: the index of the first map that holds the
  address, counted from \<open>i\<close>, or \<open>-1\<close>.\<close>

fun find_mapid_from :: "IOMap list \<Rightarrow> int \<Rightarrow> u32 \<Rightarrow> int" where
  "find_mapid_from [] i a = -1"
| "find_mapid_from (m # ms) i a = (if map_inside m a then i else find_mapid_from ms (i + 1) a)"

definition find_mapid_by_addr ::
  "config \<Rightarrow> IOMap list \<Rightarrow> u32 \<Rightarrow> 'a io_scheme \<Rightarrow> int \<times> 'a io_scheme" where
  "find_mapid_by_addr c maps a s =
     (let i = find_mapid_from maps 0 a
      in (i, if i = -1 then s else difftest_skip_ref c s))"

subsection \<open>map.c\<close>

text \<open>\<open>init_map\<close>: a fresh buffer, whose contents \<open>malloc\<close> leaves arbitrary.\<close>

definition init_map :: "bytes \<Rightarrow> 'a io_scheme \<Rightarrow> 'a io_scheme" where
  "init_map fresh s = s\<lparr>io_space := fresh, p_space := 0\<rparr>"

text \<open>The rounding is done in \<open>unsigned long\<close> and the result stored back in an
  \<open>int\<close>.\<close>

definition page_round :: "int \<Rightarrow> int" where
  "page_round sz =
     sint (ucast ((word_of_int sz + (PAGE_SIZE - 1)) AND NOT PAGE_MASK :: u64) :: u32)"

definition new_space :: "int \<Rightarrow> 'a io_scheme \<Rightarrow> (int \<times> 'a io_scheme) res" where
  "new_space sz s =
     (let p = p_space s; p' = p + page_round sz
      in bind_res (assert_res Assertion (p' < IO_SPACE_MAX))
           (\<lambda>_. Inr (p, s\<lparr>p_space := p'\<rparr>)))"

definition check_bound :: "IOMap option \<Rightarrow> u32 \<Rightarrow> IOMap res" where
  "check_bound mo a =
     (case mo of
        None \<Rightarrow> Inl (Panic ''address is out of bound'')
      | Some m \<Rightarrow>
          if a \<le> map_high m \<and> map_low m \<le> a then Inr m
          else Inl (Panic ''address is out of bound''))"

definition invoke_callback ::
  "(io_callback \<Rightarrow> u32 \<Rightarrow> int \<Rightarrow> bool \<Rightarrow> 'a io_scheme \<Rightarrow> 'a io_scheme res) \<Rightarrow>
   io_callback option \<Rightarrow> u32 \<Rightarrow> int \<Rightarrow> bool \<Rightarrow> 'a io_scheme \<Rightarrow> 'a io_scheme res" where
  "invoke_callback cb h offset len is_write s =
     (case h of None \<Rightarrow> Inr s | Some f \<Rightarrow> cb f offset len is_write s)"

definition map_read ::
  "config \<Rightarrow> (io_callback \<Rightarrow> u32 \<Rightarrow> int \<Rightarrow> bool \<Rightarrow> 'a io_scheme \<Rightarrow> 'a io_scheme res) \<Rightarrow>
   u32 \<Rightarrow> int \<Rightarrow> IOMap option \<Rightarrow> 'a io_scheme \<Rightarrow> (u32 \<times> 'a io_scheme) res" where
  "map_read c cb a len mo s =
     bind_res (assert_res Assertion (1 \<le> len \<and> len \<le> 8)) (\<lambda>_.
     bind_res (check_bound mo a) (\<lambda>m.
     let offset = a - map_low m in
     bind_res (invoke_callback cb (map_callback m) offset len False s) (\<lambda>s'.
     bind_res (host_read c IO_SPACE_MAX (io_space s') (map_space m + uint offset) len) (\<lambda>v.
     Inr (v, s')))))"

definition map_write ::
  "config \<Rightarrow> (io_callback \<Rightarrow> u32 \<Rightarrow> int \<Rightarrow> bool \<Rightarrow> 'a io_scheme \<Rightarrow> 'a io_scheme res) \<Rightarrow>
   u32 \<Rightarrow> int \<Rightarrow> u32 \<Rightarrow> IOMap option \<Rightarrow> 'a io_scheme \<Rightarrow> 'a io_scheme res" where
  "map_write c cb a len data mo s =
     bind_res (assert_res Assertion (1 \<le> len \<and> len \<le> 8)) (\<lambda>_.
     bind_res (check_bound mo a) (\<lambda>m.
     let offset = a - map_low m in
     bind_res (host_write c IO_SPACE_MAX (io_space s) (map_space m + uint offset) len data) (\<lambda>bs.
     invoke_callback cb (map_callback m) offset len True (s\<lparr>io_space := bs\<rparr>))))"

subsection \<open>mmio.c\<close>

definition fetch_mmio_map ::
  "config \<Rightarrow> u32 \<Rightarrow> 'a io_scheme \<Rightarrow> IOMap option \<times> 'a io_scheme" where
  "fetch_mmio_map c a s =
     (case find_mapid_by_addr c (mmio_maps s) a s of
        (mapid, s') \<Rightarrow> (if mapid = -1 then None else Some (mmio_maps s ! nat mapid), s'))"

definition overlaps :: "u32 \<Rightarrow> u32 \<Rightarrow> IOMap \<Rightarrow> bool" where
  "overlaps left right m \<longleftrightarrow> left \<le> map_high m \<and> map_low m \<le> right"

definition add_mmio_map ::
  "config \<Rightarrow> string \<Rightarrow> u32 \<Rightarrow> int \<Rightarrow> u32 \<Rightarrow> io_callback option \<Rightarrow> 'a io_scheme \<Rightarrow> 'a io_scheme res"
where
  "add_mmio_map c name a space len callback s =
     bind_res (assert_res Assertion (length (mmio_maps s) < NR_MAP)) (\<lambda>_.
     let left = a; right = a + len - 1 in
     if in_pmem c left \<or> in_pmem c right then Inl (Panic ''MMIO region is overlapped with pmem'')
     else if list_ex (overlaps left right) (mmio_maps s) then Inl (Panic ''MMIO region is overlapped'')
     else Inr (s\<lparr>mmio_maps := mmio_maps s @
            [\<lparr>map_name = name, map_low = a, map_high = a + len - 1,
              map_space = space, map_callback = callback\<rparr>]\<rparr>))"

definition mmio_read ::
  "config \<Rightarrow> (io_callback \<Rightarrow> u32 \<Rightarrow> int \<Rightarrow> bool \<Rightarrow> 'a io_scheme \<Rightarrow> 'a io_scheme res) \<Rightarrow>
   u32 \<Rightarrow> int \<Rightarrow> 'a io_scheme \<Rightarrow> (u32 \<times> 'a io_scheme) res" where
  "mmio_read c cb a len s =
     (case fetch_mmio_map c a s of (m, s') \<Rightarrow> map_read c cb a len m s')"

definition mmio_write ::
  "config \<Rightarrow> (io_callback \<Rightarrow> u32 \<Rightarrow> int \<Rightarrow> bool \<Rightarrow> 'a io_scheme \<Rightarrow> 'a io_scheme res) \<Rightarrow>
   u32 \<Rightarrow> int \<Rightarrow> u32 \<Rightarrow> 'a io_scheme \<Rightarrow> 'a io_scheme res" where
  "mmio_write c cb a len data s =
     (case fetch_mmio_map c a s of (m, s') \<Rightarrow> map_write c cb a len data m s')"

subsection \<open>port-io.c\<close>

definition PORT_IO_SPACE_MAX :: int where
  "PORT_IO_SPACE_MAX = 65535"

definition add_pio_map ::
  "string \<Rightarrow> u16 \<Rightarrow> int \<Rightarrow> u32 \<Rightarrow> io_callback option \<Rightarrow> 'a io_scheme \<Rightarrow> 'a io_scheme res"
where
  "add_pio_map name a space len callback s =
     bind_res (assert_res Assertion (length (pio_maps s) < NR_MAP)) (\<lambda>_.
     bind_res (assert_res Assertion (uint (ucast a + len :: u32) \<le> PORT_IO_SPACE_MAX)) (\<lambda>_.
     Inr (s\<lparr>pio_maps := pio_maps s @
            [\<lparr>map_name = name, map_low = ucast a, map_high = ucast a + len - 1,
              map_space = space, map_callback = callback\<rparr>]\<rparr>)))"

definition pio_read ::
  "config \<Rightarrow> (io_callback \<Rightarrow> u32 \<Rightarrow> int \<Rightarrow> bool \<Rightarrow> 'a io_scheme \<Rightarrow> 'a io_scheme res) \<Rightarrow>
   u16 \<Rightarrow> int \<Rightarrow> 'a io_scheme \<Rightarrow> (u32 \<times> 'a io_scheme) res" where
  "pio_read c cb a len s =
     bind_res (assert_res Assertion (uint a + len - 1 < PORT_IO_SPACE_MAX)) (\<lambda>_.
     case find_mapid_by_addr c (pio_maps s) (ucast a) s of (mapid, s') \<Rightarrow>
     bind_res (assert_res Assertion (mapid \<noteq> -1)) (\<lambda>_.
     map_read c cb (ucast a) len (Some (pio_maps s ! nat mapid)) s'))"

definition pio_write ::
  "config \<Rightarrow> (io_callback \<Rightarrow> u32 \<Rightarrow> int \<Rightarrow> bool \<Rightarrow> 'a io_scheme \<Rightarrow> 'a io_scheme res) \<Rightarrow>
   u16 \<Rightarrow> int \<Rightarrow> u32 \<Rightarrow> 'a io_scheme \<Rightarrow> 'a io_scheme res" where
  "pio_write c cb a len data s =
     bind_res (assert_res Assertion (uint a + len - 1 < PORT_IO_SPACE_MAX)) (\<lambda>_.
     case find_mapid_by_addr c (pio_maps s) (ucast a) s of (mapid, s') \<Rightarrow>
     bind_res (assert_res Assertion (mapid \<noteq> -1)) (\<lambda>_.
     map_write c cb (ucast a) len data (Some (pio_maps s ! nat mapid)) s'))"

subsection \<open>Facts: lookup\<close>

definition maps_disjoint :: "IOMap list \<Rightarrow> bool" where
  "maps_disjoint ms \<longleftrightarrow>
     (\<forall>i < length ms. \<forall>j < length ms. \<forall>a.
        map_inside (ms ! i) a \<and> map_inside (ms ! j) a \<longrightarrow> i = j)"

lemma maps_disjoint_Nil [simp]: "maps_disjoint []"
  by (simp add: maps_disjoint_def)

lemma maps_disjointD:
  "maps_disjoint ms \<Longrightarrow> i < length ms \<Longrightarrow> j < length ms \<Longrightarrow> map_inside (ms ! i) a \<Longrightarrow>
   map_inside (ms ! j) a \<Longrightarrow> i = j"
  by (auto simp: maps_disjoint_def)

lemma maps_disjoint_snoc:
  assumes "maps_disjoint ms" and "\<And>m' a. m' \<in> set ms \<Longrightarrow> map_inside m' a \<Longrightarrow> \<not> map_inside m a"
  shows "maps_disjoint (ms @ [m])"
  using assms(1) unfolding maps_disjoint_def
  by (auto simp: nth_append less_Suc_eq dest: assms(2) [OF nth_mem])

lemma overlaps_complete:
  assumes "map_inside m a" and "left \<le> a" and "a \<le> right"
  shows "overlaps left right m"
  using assms by (auto simp: overlaps_def map_inside_def)

lemma find_mapid_from_neg:
  "0 \<le> i \<Longrightarrow> find_mapid_from ms i a = -1 \<longleftrightarrow> (\<forall>m \<in> set ms. \<not> map_inside m a)"
  by (induction ms i a rule: find_mapid_from.induct) auto

lemma find_mapid_from_Some:
  assumes "find_mapid_from ms i a = k" and "k \<noteq> -1" and "0 \<le> i"
  shows "i \<le> k \<and> k < i + int (length ms) \<and> map_inside (ms ! nat (k - i)) a"
  using assms
proof (induction ms i a rule: find_mapid_from.induct)
  case (2 m ms i a)
  show ?case
  proof (cases "map_inside m a")
    case False
    with 2 have "i + 1 \<le> k \<and> k < i + 1 + int (length ms) \<and> map_inside (ms ! nat (k - (i + 1))) a"
      by simp
    moreover from this have "nat (k - i) = Suc (nat (k - (i + 1)))" by linarith
    ultimately show ?thesis by simp
  qed (use 2 in simp)
qed simp

lemma find_mapid_unique:
  assumes "maps_disjoint ms" and "i < length ms" and "map_inside (ms ! i) a"
  shows "find_mapid_from ms 0 a = int i"
proof -
  have ne: "find_mapid_from ms 0 a \<noteq> -1"
    using assms(2,3) find_mapid_from_neg [of 0 ms a] nth_mem by fastforce
  then have "0 \<le> find_mapid_from ms 0 a" "nat (find_mapid_from ms 0 a) < length ms"
      "map_inside (ms ! nat (find_mapid_from ms 0 a)) a"
    using find_mapid_from_Some [of ms 0 a] by auto
  with assms show ?thesis
    by (metis int_nat_eq maps_disjointD)
qed

lemma difftest_skip_ref_frame [simp]:
  "nemu_state (difftest_skip_ref c s) = nemu_state s"
  "io_space (difftest_skip_ref c r) = io_space r"
  "p_space (difftest_skip_ref c r) = p_space r"
  "mmio_maps (difftest_skip_ref c r) = mmio_maps r"
  "pio_maps (difftest_skip_ref c r) = pio_maps r"
  by (simp_all add: difftest_skip_ref_def)

lemma fetch_mmio_map_frame:
  assumes "fetch_mmio_map c a s = (m, s')"
  shows "io_space s' = io_space s \<and> p_space s' = p_space s \<and> mmio_maps s' = mmio_maps s \<and>
    pio_maps s' = pio_maps s \<and> nemu_state s' = nemu_state s"
  using assms by (auto simp: fetch_mmio_map_def find_mapid_by_addr_def Let_def split: if_splits)

lemma fetch_mmio_map_unique:
  assumes "maps_disjoint (mmio_maps s)" and "m \<in> set (mmio_maps s)" and "map_inside m a"
  shows "fetch_mmio_map c a s = (Some m, difftest_skip_ref c s)"
proof -
  from assms(2) obtain i where "i < length (mmio_maps s)" "mmio_maps s ! i = m"
    by (auto simp: in_set_conv_nth)
  with assms find_mapid_unique [of "mmio_maps s" i a] show ?thesis
    by (simp add: fetch_mmio_map_def find_mapid_by_addr_def Let_def)
qed

lemma fetch_mmio_map_Some:
  assumes "fetch_mmio_map c a s = (Some m, s')"
  shows "m \<in> set (mmio_maps s) \<and> map_inside m a"
proof -
  let ?k = "find_mapid_from (mmio_maps s) 0 a"
  from assms have "?k \<noteq> -1" and m: "m = mmio_maps s ! nat ?k"
    by (auto simp: fetch_mmio_map_def find_mapid_by_addr_def Let_def split: if_splits)
  then show ?thesis
    using find_mapid_from_Some [of "mmio_maps s" 0 a ?k] by auto
qed

subsection \<open>Facts: allocation and registration\<close>

lemma page_round_eq:
  assumes "0 \<le> sz" and "sz < 2 ^ 31 - 4096"
  shows "page_round sz = (sz + 4095) div 4096 * 4096"
proof -
  let ?w = "word_of_int (sz + 4095) :: u64"
  have w: "word_of_int sz + (PAGE_SIZE - 1) = ?w"
    by (simp add: PAGE_SIZE_def)
  have u: "uint ?w = sz + 4095"
    using assms by (simp only: uint_word_of_int_eq) (simp add: take_bit_int_eq_self)
  have m: "PAGE_MASK = mask 12"
    by (simp add: PAGE_MASK_def PAGE_SIZE_def mask_eq_exp_minus_1)
  have "uint (?w AND NOT PAGE_MASK) = (sz + 4095) div 4096 * 4096"
    using u by (simp add: m uint_and_not_mask)
  moreover have "(sz + 4095) div 4096 * 4096 < 2 ^ 31"
    using assms by linarith
  ultimately show ?thesis
    by (simp add: page_round_def w sint_ucast_small)
qed

lemma new_space_spec:
  assumes "new_space sz s = Inr (p, s')" and "0 \<le> sz" and "sz < 2 ^ 31 - 4096"
  shows "p = p_space s" and "p + sz \<le> p_space s'" and "p_space s' < p + sz + 4096"
    and "p_space s' < IO_SPACE_MAX" and "4096 dvd p_space s' - p"
    and "s' = s\<lparr>p_space := p_space s'\<rparr>"
  using assms by (auto simp: new_space_def Let_def page_round_eq bind_res_eq_Inr_iff)

text \<open>The invariant of the I/O space: registered maps do not overlap and each is backed by
  allocated bytes of the buffer.\<close>

definition map_backed :: "int \<Rightarrow> IOMap \<Rightarrow> bool" where
  "map_backed lim m \<longleftrightarrow>
     map_low m \<le> map_high m \<and> 0 \<le> map_space m \<and>
     map_space m + uint (map_high m - map_low m) < lim"

definition io_wf :: "'a io_scheme \<Rightarrow> bool" where
  "io_wf s \<longleftrightarrow>
     0 \<le> p_space s \<and> p_space s < IO_SPACE_MAX \<and> length (mmio_maps s) \<le> NR_MAP \<and>
     maps_disjoint (mmio_maps s) \<and> (\<forall>m \<in> set (mmio_maps s). map_backed (p_space s) m)"

lemma map_backed_mono: "map_backed lim m \<Longrightarrow> lim \<le> lim' \<Longrightarrow> map_backed lim' m"
  by (auto simp: map_backed_def)

lemma init_map_wf: "mmio_maps s = [] \<Longrightarrow> io_wf (init_map fresh s)"
  by (simp add: io_wf_def init_map_def IO_SPACE_MAX_def)

lemma new_space_wf:
  assumes "io_wf s" and "new_space sz s = Inr (p, s')" and "0 \<le> sz" and "sz < 2 ^ 31 - 4096"
  shows "io_wf s'"
proof -
  note sp = new_space_spec [OF assms(2-4)]
  have ms: "mmio_maps s' = mmio_maps s"
    by (subst sp(6)) simp
  have "p_space s \<le> p_space s'" using sp(1,2) assms(3) by simp
  with assms(1) sp(4) ms show ?thesis
    by (auto simp: io_wf_def intro: map_backed_mono)
qed

lemma add_mmio_map_disjoint:
  assumes "add_mmio_map c nm a sp len h s = Inr s'" and "maps_disjoint (mmio_maps s)"
  shows "maps_disjoint (mmio_maps s')"
proof -
  let ?m = "\<lparr>map_name = nm, map_low = a, map_high = a + len - 1, map_space = sp, map_callback = h\<rparr>"
  from assms(1) have s': "mmio_maps s' = mmio_maps s @ [?m]"
    and no: "\<not> list_ex (overlaps a (a + len - 1)) (mmio_maps s)"
    by (auto simp: add_mmio_map_def Let_def bind_res_eq_Inr_iff split: if_splits)
  show ?thesis
    unfolding s'
  proof (rule maps_disjoint_snoc [OF assms(2)])
    fix m' x assume "m' \<in> set (mmio_maps s)" "map_inside m' x"
    with no show "\<not> map_inside ?m x"
      using overlaps_complete [of m' x a "a + len - 1"]
      by (auto simp: list_ex_iff map_inside_def)
  qed
qed

lemma add_mmio_map_wf:
  assumes "add_mmio_map c nm a sp len h s = Inr s'" and "io_wf s"
    and "a \<le> a + len - 1" and "0 \<le> sp" and "sp + uint (len - 1) < p_space s"
  shows "io_wf s'"
proof -
  have "maps_disjoint (mmio_maps s')"
    using add_mmio_map_disjoint [OF assms(1)] assms(2) by (simp add: io_wf_def)
  with assms show ?thesis
    by (auto simp: io_wf_def add_mmio_map_def Let_def bind_res_eq_Inr_iff map_backed_def
        split: if_splits)
qed

subsection \<open>The interface the I/O layer asks of the device handlers\<close>

text \<open>
  A handler is called through a function pointer and may change the buffer and the
  device's own state; it may not register maps or allocate space.
\<close>

locale io_dispatch =
  fixes cb :: "io_callback \<Rightarrow> u32 \<Rightarrow> int \<Rightarrow> bool \<Rightarrow> 'a io_scheme \<Rightarrow> 'a io_scheme res"
  assumes cb_maps: "cb h off len w s = Inr s' \<Longrightarrow> mmio_maps s' = mmio_maps s"
    and cb_pio: "cb h off len w s = Inr s' \<Longrightarrow> pio_maps s' = pio_maps s"
    and cb_space: "cb h off len w s = Inr s' \<Longrightarrow> p_space s' = p_space s"
begin

lemma invoke_callback_frame:
  assumes "invoke_callback cb h off len w s = Inr s'"
  shows "mmio_maps s' = mmio_maps s \<and> pio_maps s' = pio_maps s \<and> p_space s' = p_space s"
  using assms by (auto simp: invoke_callback_def cb_maps cb_pio cb_space split: option.splits)

lemma io_wf_cong:
  "mmio_maps s' = mmio_maps s \<Longrightarrow> p_space s' = p_space s \<Longrightarrow> io_wf s' = io_wf s"
  by (simp add: io_wf_def)

lemma map_read_frame:
  assumes "map_read c cb a len mo s = Inr (v, s')"
  shows "mmio_maps s' = mmio_maps s \<and> pio_maps s' = pio_maps s \<and> p_space s' = p_space s"
  using assms
  by (auto simp: map_read_def Let_def bind_res_eq_Inr_iff dest: invoke_callback_frame)

lemma map_write_frame:
  assumes "map_write c cb a len d mo s = Inr s'"
  shows "mmio_maps s' = mmio_maps s \<and> pio_maps s' = pio_maps s \<and> p_space s' = p_space s"
  using assms
  by (auto simp: map_write_def Let_def bind_res_eq_Inr_iff dest: invoke_callback_frame)

lemma mmio_read_wf:
  assumes "mmio_read c cb a len s = Inr (v, s')" and "io_wf s"
  shows "io_wf s'"
  using assms
  by (auto simp: mmio_read_def io_wf_def dest!: map_read_frame fetch_mmio_map_frame
      split: prod.splits)

lemma mmio_write_wf:
  assumes "mmio_write c cb a len d s = Inr s'" and "io_wf s"
  shows "io_wf s'"
  using assms
  by (auto simp: mmio_write_def io_wf_def dest!: map_write_frame fetch_mmio_map_frame
      split: prod.splits)

text \<open>An access that stays inside its map stays inside the buffer.\<close>

lemma map_access_in_space:
  assumes "io_wf s" and "m \<in> set (mmio_maps s)" and "map_inside m a" and "1 \<le> len"
    and "uint (a - map_low m) + len - 1 \<le> uint (map_high m - map_low m)"
  shows "in_object IO_SPACE_MAX (map_space m + uint (a - map_low m)) len"
proof -
  from assms(1,2) have "map_backed (p_space s) m" "p_space s < IO_SPACE_MAX"
    by (auto simp: io_wf_def)
  with assms(4,5) show ?thesis
    by (auto simp: map_backed_def in_object_def)
qed

text \<open>Memory without a handler (the frame buffer, the sound buffer) holds what is
  written to it.\<close>

lemma plain_map_roundtrip:
  assumes wf: "io_wf s" and m: "m \<in> set (mmio_maps s)" "map_callback m = None"
    and a: "map_inside m a" and len: "access_len len"
    and w: "mmio_write c cb a len d s = Inr s'"
  shows "\<exists>s''. mmio_read c cb a len s' = Inr (take_bit (8 * nat len) d, s'')"
proof -
  let ?off = "map_space m + uint (a - map_low m)"
  have dj: "maps_disjoint (mmio_maps s)" using wf by (simp add: io_wf_def)
  have cbm: "check_bound (Some m) a = Inr m" using a by (simp add: check_bound_def map_inside_def)
  from w obtain bs where
    bs: "host_write c IO_SPACE_MAX (io_space s) ?off len d = Inr bs"
    and s': "s' = (difftest_skip_ref c s)\<lparr>io_space := bs\<rparr>"
    by (auto simp: mmio_write_def fetch_mmio_map_unique [OF dj m(1) a] map_write_def cbm Let_def
        invoke_callback_def m(2) bind_res_eq_Inr_iff)
  have "fetch_mmio_map c a s' = (Some m, difftest_skip_ref c s')"
    by (rule fetch_mmio_map_unique) (use dj m a in \<open>simp_all add: s'\<close>)
  moreover have "1 \<le> len \<and> len \<le> 8" using len by (auto simp: access_len_def)
  moreover have "io_space (difftest_skip_ref c s') = bs" by (simp add: s')
  ultimately show ?thesis
    using host_read_after_write [OF len bs]
    by (simp add: mmio_read_def map_read_def cbm Let_def invoke_callback_def m(2))
qed

end

end
