(* ===== verification/Devices.thy ===== *)
theory Devices
  imports Iomap
begin

text \<open>
  The devices of NEMU, one group of definitions per file of \<open>nemu/src/device\<close>:
  \<open>timer.c\<close> (with \<open>get_time\<close> of \<open>nemu/src/utils/timer.c\<close>), \<open>serial.c\<close>,
  \<open>keyboard.c\<close>, \<open>vga.c\<close>, \<open>audio.c\<close>, \<open>sdcard.c\<close>, \<open>alarm.c\<close> and
  \<open>device.c\<close>.  The static variables of these files are the fields of the record
  \<open>dev\<close>, which extends the I/O state.

  The host is represented by what the code reads from it: the successive readings of
  \<open>gettimeofday\<close> (\<open>host_clock\<close>, numbered by \<open>clock_reads\<close>), the pending SDL
  events, the scancode SDL gives to each key, the bytes \<open>malloc\<close> returns and the card
  image.  What the code sends to the host is collected: the characters written to
  stderr, the frames given to SDL.  The memory mapped variant is modelled
  (\<open>CONFIG_HAS_PORT_IO\<close> and \<open>CONFIG_TARGET_AM\<close> undefined).
\<close>

datatype sdl_event = SDL_QUIT | SDL_KEY byte bool | SDL_OTHER

record SDL_AudioSpec =
  as_freq :: u32
  as_channels :: byte
  as_samples :: u16
  as_size :: u32
  as_callback :: bool

text \<open>An open file: contents, length and position.\<close>

record host_file =
  f_data :: bytes
  f_size :: int
  f_pos :: int

record host_env =
  fresh_io :: bytes
  sd_image :: "host_file option"
  SDL_SCANCODE :: "string \<Rightarrow> nat"

record dev = io +
  host_clock :: "nat \<Rightarrow> u64 \<times> u64"
  clock_reads :: nat
  boot_time :: u64
  rtc_port_base :: "int option"
  alarm_idx :: nat
  serial_base :: "int option"
  serial_out :: "byte list"
  keymap :: "nat \<Rightarrow> u32"
  key_queue :: "nat \<Rightarrow> u32"
  key_f :: nat
  key_r :: nat
  i8042_data_port_base :: "int option"
  vgactl_port_base :: "int option"
  vmem :: "int option"
  frames :: "bytes list"
  audio_base :: "int option"
  sbuf :: "int option"
  sbuf_count :: int
  audio_spec :: SDL_AudioSpec
  audio_opens :: nat
  sd_base :: "int option"
  sd_fp :: "host_file option"
  sd_blkcnt :: u32
  sd_blk_addr :: int
  sd_addr :: u32
  sd_write_cmd :: bool
  sd_read_ext_csd :: bool
  device_last :: u64
  sdl_events :: "sdl_event list"

subsection \<open>32-bit registers in the I/O buffer\<close>

text \<open>\<open>base[i]\<close> for a \<open>uint32_t *base\<close>, read and written.\<close>

definition io_get32 :: "config \<Rightarrow> int option \<Rightarrow> int \<Rightarrow> 'a io_scheme \<Rightarrow> u32 res" where
  "io_get32 c p i s =
     (case p of None \<Rightarrow> Inl Null_deref
      | Some b \<Rightarrow> host_read c IO_SPACE_MAX (io_space s) (b + 4 * i) 4)"

definition io_set32 ::
  "config \<Rightarrow> int option \<Rightarrow> int \<Rightarrow> u32 \<Rightarrow> 'a io_scheme \<Rightarrow> 'a io_scheme res" where
  "io_set32 c p i v s =
     (case p of None \<Rightarrow> Inl Null_deref
      | Some b \<Rightarrow> bind_res (host_write c IO_SPACE_MAX (io_space s) (b + 4 * i) 4 v)
                   (\<lambda>bs. Inr (s\<lparr>io_space := bs\<rparr>)))"

subsection \<open>utils/timer.c, timer.c and alarm.c\<close>

definition get_time_internal :: "'a dev_scheme \<Rightarrow> u64 \<times> 'a dev_scheme" where
  "get_time_internal s =
     (case host_clock s (clock_reads s) of (tv_sec, tv_usec) \<Rightarrow>
        (tv_sec * 1000000 + tv_usec, s\<lparr>clock_reads := clock_reads s + 1\<rparr>))"

definition get_time :: "'a dev_scheme \<Rightarrow> u64 \<times> 'a dev_scheme" where
  "get_time s =
     (let s1 = (if boot_time s = 0
                then (case get_time_internal s of (t, s') \<Rightarrow> s'\<lparr>boot_time := t\<rparr>)
                else s)
      in (case get_time_internal s1 of (now, s2) \<Rightarrow> (now - boot_time s2, s2)))"

definition rtc_io_handler ::
  "config \<Rightarrow> u32 \<Rightarrow> int \<Rightarrow> bool \<Rightarrow> 'a dev_scheme \<Rightarrow> 'a dev_scheme res" where
  "rtc_io_handler c offset len is_write s =
     bind_res (assert_res Assertion (offset = 0 \<or> offset = 4)) (\<lambda>_.
     if \<not> is_write \<and> offset = 4 then
       (case get_time s of (us, s1) \<Rightarrow>
          bind_res (io_set32 c (rtc_port_base s1) 0 (ucast us) s1) (\<lambda>s2.
          io_set32 c (rtc_port_base s2) 1 (ucast (drop_bit 32 us)) s2))
     else Inr s)"

definition MAX_HANDLER :: nat where
  "MAX_HANDLER = 8"

definition add_alarm_handle :: "'a dev_scheme \<Rightarrow> 'a dev_scheme res" where
  "add_alarm_handle s =
     bind_res (assert_res Assertion (alarm_idx s < MAX_HANDLER))
       (\<lambda>_. Inr (s\<lparr>alarm_idx := alarm_idx s + 1\<rparr>))"

definition init_timer :: "config \<Rightarrow> 'a dev_scheme \<Rightarrow> 'a dev_scheme res" where
  "init_timer c s =
     bind_res (new_space 8 s) (\<lambda>(p, s1).
     bind_res (add_mmio_map c ''rtc'' (CONFIG_RTC_MMIO c) p 8 (Some rtc_handler)
                 (s1\<lparr>rtc_port_base := Some p\<rparr>)) (\<lambda>s2.
     add_alarm_handle s2))"

subsection \<open>serial.c\<close>

definition CH_OFFSET :: u32 where
  "CH_OFFSET = 0"

definition serial_putc :: "byte \<Rightarrow> 'a dev_scheme \<Rightarrow> 'a dev_scheme" where
  "serial_putc ch s = s\<lparr>serial_out := serial_out s @ [ch]\<rparr>"

definition serial_io_handler ::
  "config \<Rightarrow> u32 \<Rightarrow> int \<Rightarrow> bool \<Rightarrow> 'a dev_scheme \<Rightarrow> 'a dev_scheme res" where
  "serial_io_handler c offset len is_write s =
     bind_res (assert_res Assertion (len = 1)) (\<lambda>_.
     if offset = CH_OFFSET then
       (if is_write then
          (case serial_base s of None \<Rightarrow> Inl Null_deref
           | Some b \<Rightarrow> bind_res (host_read c IO_SPACE_MAX (io_space s) b 1)
                        (\<lambda>v. Inr (serial_putc (ucast v) s)))
        else Inl (Panic ''do not support read''))
     else Inl (Panic ''do not support offset''))"

definition init_serial :: "config \<Rightarrow> 'a dev_scheme \<Rightarrow> 'a dev_scheme res" where
  "init_serial c s =
     bind_res (new_space 8 s) (\<lambda>(p, s1).
     add_mmio_map c ''serial'' (CONFIG_SERIAL_MMIO c) p 8 (Some serial_handler)
       (s1\<lparr>serial_base := Some p\<rparr>))"

subsection \<open>keyboard.c\<close>

definition KEYDOWN_MASK :: u32 where
  "KEYDOWN_MASK = 0x8000"

definition NEMU_KEY_NONE :: u32 where
  "NEMU_KEY_NONE = 0"

text \<open>The names in the order of the macro \<open>NEMU_KEYS\<close>; the \<open>i\<close>-th (from 1) is the
  enumeration constant \<open>NEMU_KEY_\<dots>\<close> of value \<open>i\<close>.\<close>

definition NEMU_KEYS :: "string list" where
  "NEMU_KEYS =
    [''ESCAPE'', ''F1'', ''F2'', ''F3'', ''F4'', ''F5'', ''F6'', ''F7'', ''F8'', ''F9'', ''F10'',
     ''F11'', ''F12'',
     ''GRAVE'', ''1'', ''2'', ''3'', ''4'', ''5'', ''6'', ''7'', ''8'', ''9'', ''0'', ''MINUS'',
     ''EQUALS'', ''BACKSPACE'',
     ''TAB'', ''Q'', ''W'', ''E'', ''R'', ''T'', ''Y'', ''U'', ''I'', ''O'', ''P'',
     ''LEFTBRACKET'', ''RIGHTBRACKET'', ''BACKSLASH'',
     ''CAPSLOCK'', ''A'', ''S'', ''D'', ''F'', ''G'', ''H'', ''J'', ''K'', ''L'', ''SEMICOLON'',
     ''APOSTROPHE'', ''RETURN'',
     ''LSHIFT'', ''Z'', ''X'', ''C'', ''V'', ''B'', ''N'', ''M'', ''COMMA'', ''PERIOD'',
     ''SLASH'', ''RSHIFT'',
     ''LCTRL'', ''APPLICATION'', ''LALT'', ''SPACE'', ''RALT'', ''RCTRL'',
     ''UP'', ''DOWN'', ''LEFT'', ''RIGHT'', ''INSERT'', ''DELETE'', ''HOME'', ''END'',
     ''PAGEUP'', ''PAGEDOWN'']"

fun init_keymap_from ::
  "(string \<Rightarrow> nat) \<Rightarrow> string list \<Rightarrow> u32 \<Rightarrow> (nat \<Rightarrow> u32) \<Rightarrow> (nat \<Rightarrow> u32) res" where
  "init_keymap_from sc [] i km = Inr km"
| "init_keymap_from sc (k # ks) i km =
     (if sc k < 256 then init_keymap_from sc ks (i + 1) (km(sc k := i)) else Inl Out_of_bounds)"

definition init_keymap :: "(string \<Rightarrow> nat) \<Rightarrow> 'a dev_scheme \<Rightarrow> 'a dev_scheme res" where
  "init_keymap sc s =
     bind_res (init_keymap_from sc NEMU_KEYS 1 (keymap s)) (\<lambda>km. Inr (s\<lparr>keymap := km\<rparr>))"

definition KEY_QUEUE_LEN :: nat where
  "KEY_QUEUE_LEN = 1024"

definition key_enqueue :: "u32 \<Rightarrow> 'a dev_scheme \<Rightarrow> 'a dev_scheme res" where
  "key_enqueue am_scancode s =
     (let s1 = s\<lparr>key_queue := (key_queue s)(key_r s := am_scancode),
                 key_r := (key_r s + 1) mod KEY_QUEUE_LEN\<rparr>
      in if key_r s1 \<noteq> key_f s1 then Inr s1 else Inl (Panic ''key queue overflow!''))"

definition key_dequeue :: "'a dev_scheme \<Rightarrow> u32 \<times> 'a dev_scheme" where
  "key_dequeue s =
     (if key_f s \<noteq> key_r s
      then (key_queue s (key_f s), s\<lparr>key_f := (key_f s + 1) mod KEY_QUEUE_LEN\<rparr>)
      else (NEMU_KEY_NONE, s))"

definition send_key :: "byte \<Rightarrow> bool \<Rightarrow> 'a dev_scheme \<Rightarrow> 'a dev_scheme res" where
  "send_key scancode is_keydown s =
     (if st_state (nemu_state s) = NEMU_RUNNING \<and> keymap s (unat scancode) \<noteq> NEMU_KEY_NONE
      then key_enqueue (keymap s (unat scancode) OR (if is_keydown then KEYDOWN_MASK else 0)) s
      else Inr s)"

definition i8042_data_io_handler ::
  "config \<Rightarrow> u32 \<Rightarrow> int \<Rightarrow> bool \<Rightarrow> 'a dev_scheme \<Rightarrow> 'a dev_scheme res" where
  "i8042_data_io_handler c offset len is_write s =
     bind_res (assert_res Assertion (\<not> is_write)) (\<lambda>_.
     bind_res (assert_res Assertion (offset = 0)) (\<lambda>_.
     case key_dequeue s of (key, s1) \<Rightarrow>
       io_set32 c (i8042_data_port_base s1) 0 key s1))"

definition init_i8042 :: "config \<Rightarrow> (string \<Rightarrow> nat) \<Rightarrow> 'a dev_scheme \<Rightarrow> 'a dev_scheme res" where
  "init_i8042 c sc s =
     bind_res (new_space 4 s) (\<lambda>(p, s1).
     bind_res (io_set32 c (Some p) 0 NEMU_KEY_NONE (s1\<lparr>i8042_data_port_base := Some p\<rparr>)) (\<lambda>s2.
     bind_res (add_mmio_map c ''keyboard'' (CONFIG_I8042_DATA_MMIO c) p 4 (Some i8042_handler) s2)
       (\<lambda>s3. init_keymap sc s3)))"

subsection \<open>vga.c\<close>

definition SCREEN_W :: "config \<Rightarrow> u32" where
  "SCREEN_W c = (if CONFIG_VGA_SIZE_800x600 c then 800 else 400)"

definition SCREEN_H :: "config \<Rightarrow> u32" where
  "SCREEN_H c = (if CONFIG_VGA_SIZE_800x600 c then 600 else 300)"

definition screen_size :: "config \<Rightarrow> u32" where
  "screen_size c = SCREEN_W c * SCREEN_H c * 4"

text \<open>\<open>update_screen\<close> hands the frame buffer to SDL.\<close>

definition update_screen :: "'a dev_scheme \<Rightarrow> 'a dev_scheme res" where
  "update_screen s =
     (case vmem s of None \<Rightarrow> Inl Null_deref
      | Some b \<Rightarrow> Inr (s\<lparr>frames := frames s @ [\<lambda>i. io_space s (b + i)]\<rparr>))"

definition vga_update_screen :: "config \<Rightarrow> 'a dev_scheme \<Rightarrow> 'a dev_scheme res" where
  "vga_update_screen c s =
     bind_res (io_get32 c (vgactl_port_base s) 1 s) (\<lambda>is_sync.
     if is_sync \<noteq> 0 then
       bind_res (update_screen s) (\<lambda>s1. io_set32 c (vgactl_port_base s1) 1 0 s1)
     else Inr s)"

definition host_memset :: "int \<Rightarrow> bytes \<Rightarrow> int \<Rightarrow> byte \<Rightarrow> int \<Rightarrow> bytes res" where
  "host_memset sz m a b n =
     bind_res (assert_res Out_of_bounds (in_object sz a n))
       (\<lambda>_. Inr (\<lambda>x. if a \<le> x \<and> x < a + n then b else m x))"

definition init_vga :: "config \<Rightarrow> 'a dev_scheme \<Rightarrow> 'a dev_scheme res" where
  "init_vga c s =
     bind_res (new_space 8 s) (\<lambda>(p, s1).
     bind_res (io_set32 c (Some p) 0 (push_bit 16 (SCREEN_W c) OR SCREEN_H c)
                 (s1\<lparr>vgactl_port_base := Some p\<rparr>)) (\<lambda>s2.
     bind_res (add_mmio_map c ''vgactl'' (CONFIG_VGA_CTL_MMIO c) p 8 None s2) (\<lambda>s3.
     bind_res (new_space (sint (screen_size c)) s3) (\<lambda>(v, s4).
     bind_res (add_mmio_map c ''vmem'' (CONFIG_FB_ADDR c) v (screen_size c) None
                 (s4\<lparr>vmem := Some v\<rparr>)) (\<lambda>s5.
     if CONFIG_VGA_SHOW_SCREEN c then
       bind_res (host_memset IO_SPACE_MAX (io_space s5) v 0 (uint (screen_size c)))
         (\<lambda>bs. Inr (s5\<lparr>io_space := bs\<rparr>))
     else Inr s5)))))"

subsection \<open>audio.c\<close>

text \<open>Register numbers \<open>reg_freq\<close>, \<dots>, \<open>reg_count\<close>; \<open>addr_\<close>\<open>r\<close> is four times
  \<open>reg_\<close>\<open>r\<close>.\<close>

definition nr_reg :: u32 where
  "nr_reg = 6"

text \<open>\<open>audio_callback\<close>, called by SDL for \<open>len\<close> bytes: the stream it fills and the
  new state.  Both copies read \<open>sbuf\<close> inside the I/O buffer.\<close>

definition audio_callback ::
  "int \<Rightarrow> 'a dev_scheme \<Rightarrow> (byte list \<times> 'a dev_scheme) res" where
  "audio_callback len s =
     (case sbuf s of None \<Rightarrow> Inl Null_deref
      | Some b \<Rightarrow>
         bind_res (assert_res Out_of_bounds
                     (0 \<le> sbuf_count s \<and> in_object IO_SPACE_MAX b (sbuf_count s))) (\<lambda>_.
         if sbuf_count s > len then
           Inr (map (\<lambda>i. io_space s (b + int i)) [0..<nat len],
                s\<lparr>io_space := (\<lambda>x. if b \<le> x \<and> x < b + (sbuf_count s - len)
                                   then io_space s (x + len) else io_space s x),
                  sbuf_count := sbuf_count s - len\<rparr>)
         else
           Inr (map (\<lambda>i. io_space s (b + int i)) [0..<nat (sbuf_count s)] @
                  replicate (nat (len - sbuf_count s)) 0,
                s\<lparr>sbuf_count := 0\<rparr>)))"

definition audio_io_handler ::
  "config \<Rightarrow> u32 \<Rightarrow> int \<Rightarrow> bool \<Rightarrow> 'a dev_scheme \<Rightarrow> 'a dev_scheme res" where
  "audio_io_handler c offset len is_write s =
     (if is_write then
        (if offset = 0 then
           bind_res (io_get32 c (audio_base s) 0 s)
             (\<lambda>v. Inr (s\<lparr>audio_spec := (audio_spec s)\<lparr>as_freq := v\<rparr>\<rparr>))
         else if offset = 4 then
           bind_res (io_get32 c (audio_base s) 1 s)
             (\<lambda>v. Inr (s\<lparr>audio_spec := (audio_spec s)\<lparr>as_channels := ucast v\<rparr>\<rparr>))
         else if offset = 8 then
           bind_res (io_get32 c (audio_base s) 2 s)
             (\<lambda>v. Inr (s\<lparr>audio_spec := (audio_spec s)\<lparr>as_samples := ucast v\<rparr>\<rparr>))
         else if offset = 20 then
           bind_res (io_get32 c (audio_base s) 5 s) (\<lambda>v. Inr (s\<lparr>sbuf_count := sint v\<rparr>))
         else if offset = 16 then
           bind_res (io_get32 c (audio_base s) 4 s) (\<lambda>v.
           if v = 1 \<and> \<not> as_callback (audio_spec s) then
             bind_res (io_set32 c (audio_base s) 4 0 s) (\<lambda>s1.
             Inr (s1\<lparr>audio_spec := (audio_spec s1)\<lparr>as_size := CONFIG_SB_SIZE c, as_callback := True\<rparr>,
                     audio_opens := audio_opens s1 + 1\<rparr>))
           else Inr s)
         else Inr s)
      else
        (if offset = 12 then io_set32 c (audio_base s) 3 (CONFIG_SB_SIZE c) s
         else if offset = 20 then io_set32 c (audio_base s) 5 (word_of_int (sbuf_count s)) s
         else Inr s))"

definition init_audio :: "config \<Rightarrow> 'a dev_scheme \<Rightarrow> 'a dev_scheme res" where
  "init_audio c s =
     (let space_size = 4 * nr_reg in
     bind_res (new_space (sint space_size) s) (\<lambda>(p, s1).
     bind_res (add_mmio_map c ''audio'' (CONFIG_AUDIO_CTL_MMIO c) p space_size (Some audio_handler)
                 (s1\<lparr>audio_base := Some p\<rparr>)) (\<lambda>s2.
     bind_res (new_space (sint (CONFIG_SB_SIZE c)) s2) (\<lambda>(b, s3).
     add_mmio_map c ''audio-sbuf'' (CONFIG_SB_ADDR c) b (CONFIG_SB_SIZE c) None
       (s3\<lparr>sbuf := Some b\<rparr>)))))"

subsection \<open>sdcard.c\<close>

definition MEMORY_SIZE :: nat where
  "MEMORY_SIZE = 16 * 1024 * 1024 * 1024"

definition READ_BL_LEN :: nat where
  "READ_BL_LEN = 15"

definition C_SIZE :: nat where
  "C_SIZE = MEMORY_SIZE div 2 ^ READ_BL_LEN div 2 ^ (7 + 2) - 1"

text \<open>Register indices: \<open>SDCMD\<close> 0, \<open>SDARG\<close> 1, \<open>SDRSP0\<close>..\<open>SDRSP3\<close> 4..7,
  \<open>SDDATA\<close> 16.\<close>

definition prepare_rw :: "config \<Rightarrow> bool \<Rightarrow> 'a dev_scheme \<Rightarrow> 'a dev_scheme res" where
  "prepare_rw c is_write s =
     bind_res (io_get32 c (sd_base s) 1 s) (\<lambda>arg.
     let blk = uint arg in
     Inr (s\<lparr>sd_blk_addr := blk, sd_addr := 0,
            sd_fp := map_option (\<lambda>f. f\<lparr>f_pos := blk * 512\<rparr>) (sd_fp s),
            sd_write_cmd := is_write\<rparr>))"

definition sd_set_rsp ::
  "config \<Rightarrow> u32 \<Rightarrow> u32 \<Rightarrow> u32 \<Rightarrow> u32 \<Rightarrow> 'a dev_scheme \<Rightarrow> 'a dev_scheme res" where
  "sd_set_rsp c r0 r1 r2 r3 s =
     bind_res (io_set32 c (sd_base s) 4 r0 s) (\<lambda>s1.
     bind_res (io_set32 c (sd_base s1) 5 r1 s1) (\<lambda>s2.
     bind_res (io_set32 c (sd_base s2) 6 r2 s2) (\<lambda>s3.
     io_set32 c (sd_base s3) 7 r3 s3)))"

text \<open>The commands by their numbers in \<open>nemu/src/device/mmc.h\<close>.\<close>

definition sdcard_handle_cmd :: "config \<Rightarrow> u32 \<Rightarrow> 'a dev_scheme \<Rightarrow> 'a dev_scheme res" where
  "sdcard_handle_cmd c cmd s =
     (if cmd = 0 then Inr s
      else if cmd = 1 then io_set32 c (sd_base s) 4 0x80ff8000 s
      else if cmd = 2 then sd_set_rsp c 0x00000001 0 0 0x15000000 s
      else if cmd = 52 then Inr s
      else if cmd = 9 then
        sd_set_rsp c 0x92404001
          (0x124b97e3 OR push_bit 30 (of_nat C_SIZE AND 0x3))
          (0x0f508000 OR drop_bit 2 (of_nat C_SIZE) OR push_bit 16 (of_nat READ_BL_LEN))
          0x9026012a s
      else if cmd = 8 then Inr (s\<lparr>sd_read_ext_csd := True, sd_addr := 0\<rparr>)
      else if cmd = 5 then Inr s
      else if cmd = 55 then Inr s
      else if cmd = 3 then Inr s
      else if cmd = 7 then Inr s
      else if cmd = 23 then
        bind_res (io_get32 c (sd_base s) 1 s) (\<lambda>arg. Inr (s\<lparr>sd_blkcnt := arg AND 0xffff\<rparr>))
      else if cmd = 18 then prepare_rw c False s
      else if cmd = 25 then prepare_rw c True s
      else if cmd = 13 then sd_set_rsp c 0x900 0 0 0 s
      else if cmd = 12 then Inr s
      else Inl (Panic ''unhandled command''))"

text \<open>\<open>fread(&base[SDDATA], 4, 1, fp)\<close> and \<open>fwrite(&base[SDDATA], 4, 1, fp)\<close>: the
  bytes at the file position that exist are copied, and four bytes are stored.\<close>

definition sd_fread :: "int \<Rightarrow> host_file \<Rightarrow> 'a dev_scheme \<Rightarrow> 'a dev_scheme res" where
  "sd_fread a f s =
     (let n = max 0 (min 4 (f_size f - f_pos f)) in
      bind_res (assert_res Out_of_bounds (in_object IO_SPACE_MAX a 4)) (\<lambda>_.
      Inr (s\<lparr>io_space := (\<lambda>x. if a \<le> x \<and> x < a + n then f_data f (f_pos f + (x - a))
                              else io_space s x),
             sd_fp := Some (f\<lparr>f_pos := f_pos f + n\<rparr>)\<rparr>)))"

definition sd_fwrite :: "int \<Rightarrow> host_file \<Rightarrow> 'a dev_scheme \<Rightarrow> 'a dev_scheme res" where
  "sd_fwrite a f s =
     bind_res (assert_res Out_of_bounds (in_object IO_SPACE_MAX a 4)) (\<lambda>_.
     Inr (s\<lparr>sd_fp := Some (f\<lparr>
              f_data := (\<lambda>x. if f_pos f \<le> x \<and> x < f_pos f + 4 then io_space s (a + (x - f_pos f))
                             else if f_size f \<le> x \<and> x < f_pos f then 0
                             else f_data f x),
              f_size := max (f_size f) (f_pos f + 4), f_pos := f_pos f + 4\<rparr>)\<rparr>))"

definition sdcard_io_handler ::
  "config \<Rightarrow> u32 \<Rightarrow> int \<Rightarrow> bool \<Rightarrow> 'a dev_scheme \<Rightarrow> 'a dev_scheme res" where
  "sdcard_io_handler c offset len is_write s =
     (let idx = offset div 4 in
      if idx = 0 then
        bind_res (io_get32 c (sd_base s) 0 s) (\<lambda>v. sdcard_handle_cmd c (v AND 0x3f) s)
      else if idx = 1 \<or> idx = 4 \<or> idx = 5 \<or> idx = 6 \<or> idx = 7 then Inr s
      else if idx = 16 then
        bind_res
          (if sd_read_ext_csd s then
             (let d = (if sd_addr s = 192 then 2
                       else if sd_addr s = 212 then of_nat (MEMORY_SIZE div 512) else 0) in
              bind_res (io_set32 c (sd_base s) 16 d s) (\<lambda>s1.
              Inr (if sd_addr s1 = 512 - 4 then s1\<lparr>sd_read_ext_csd := False\<rparr> else s1)))
           else
             (case sd_fp s of None \<Rightarrow> Inr s
              | Some f \<Rightarrow>
                 (case sd_base s of None \<Rightarrow> Inl Null_deref
                  | Some b \<Rightarrow> if \<not> sd_write_cmd s then sd_fread (b + 64) f s
                             else sd_fwrite (b + 64) f s)))
          (\<lambda>s2. Inr (s2\<lparr>sd_addr := sd_addr s2 + 4\<rparr>))
      else Inl (Panic ''unhandle offset''))"

definition init_sdcard :: "config \<Rightarrow> host_file option \<Rightarrow> 'a dev_scheme \<Rightarrow> 'a dev_scheme res" where
  "init_sdcard c img s =
     bind_res (new_space 0x80 s) (\<lambda>(p, s1).
     bind_res (add_mmio_map c ''sdhci'' (CONFIG_SDCARD_CTL_MMIO c) p 0x80 (Some sdcard_handler)
                 (s1\<lparr>sd_base := Some p\<rparr>)) (\<lambda>s2.
     bind_res (assert_res (Panic ''shoule be fit in 12 bits'') (C_SIZE < 2 ^ 12)) (\<lambda>_.
     Inr (s2\<lparr>sd_fp := img\<rparr>))))"

subsection \<open>Calling through a handler's pointer\<close>

definition dev_callback ::
  "config \<Rightarrow> io_callback \<Rightarrow> u32 \<Rightarrow> int \<Rightarrow> bool \<Rightarrow> 'a dev_scheme \<Rightarrow> 'a dev_scheme res" where
  "dev_callback c h =
     (case h of rtc_handler \<Rightarrow> rtc_io_handler c
      | serial_handler \<Rightarrow> serial_io_handler c
      | i8042_handler \<Rightarrow> i8042_data_io_handler c
      | audio_handler \<Rightarrow> audio_io_handler c
      | sdcard_handler \<Rightarrow> sdcard_io_handler c)"

subsection \<open>device.c\<close>

definition TIMER_HZ :: u64 where
  "TIMER_HZ = 60"

definition handle_event :: "config \<Rightarrow> sdl_event \<Rightarrow> 'a dev_scheme \<Rightarrow> 'a dev_scheme res" where
  "handle_event c e s =
     (case e of
        SDL_QUIT \<Rightarrow> Inr (s\<lparr>nemu_state := (nemu_state s)\<lparr>st_state := NEMU_QUIT\<rparr>\<rparr>)
      | SDL_KEY k is_keydown \<Rightarrow> if CONFIG_HAS_KEYBOARD c then send_key k is_keydown s else Inr s
      | SDL_OTHER \<Rightarrow> Inr s)"

text \<open>The loop \<open>while (SDL_PollEvent(&event))\<close>: each event is taken from the queue
  and handled.\<close>

fun poll_events :: "config \<Rightarrow> sdl_event list \<Rightarrow> 'a dev_scheme \<Rightarrow> 'a dev_scheme res" where
  "poll_events c [] s = Inr (s\<lparr>sdl_events := []\<rparr>)"
| "poll_events c (e # es) s =
     bind_res (handle_event c e (s\<lparr>sdl_events := es\<rparr>)) (\<lambda>s1. poll_events c es s1)"

definition device_update :: "config \<Rightarrow> 'a dev_scheme \<Rightarrow> 'a dev_scheme res" where
  "device_update c s =
     (case get_time s of (now, s1) \<Rightarrow>
        if now - device_last s1 < 1000000 div TIMER_HZ then Inr s1
        else
          bind_res (let s2 = s1\<lparr>device_last := now\<rparr> in
                    if CONFIG_HAS_VGA c then vga_update_screen c s2 else Inr s2) (\<lambda>s3.
          poll_events c (sdl_events s3) s3))"

definition sdl_clear_event_queue :: "'a dev_scheme \<Rightarrow> 'a dev_scheme" where
  "sdl_clear_event_queue s = s\<lparr>sdl_events := []\<rparr>"

text \<open>\<open>init_device\<close>.  \<open>init_disk\<close> is empty and \<open>init_alarm\<close> only arms a host
  timer.\<close>

definition init_if :: "bool \<Rightarrow> ('a \<Rightarrow> 'a res) \<Rightarrow> 'a \<Rightarrow> 'a res" where
  "init_if b f s = (if b then f s else Inr s)"

definition init_device :: "config \<Rightarrow> host_env \<Rightarrow> 'a dev_scheme \<Rightarrow> 'a dev_scheme res" where
  "init_device c env s =
     bind_res (init_if (CONFIG_HAS_SERIAL c) (init_serial c) (init_map (fresh_io env) s)) (\<lambda>s1.
     bind_res (init_if (CONFIG_HAS_TIMER c) (init_timer c) s1) (\<lambda>s2.
     bind_res (init_if (CONFIG_HAS_VGA c) (init_vga c) s2) (\<lambda>s3.
     bind_res (init_if (CONFIG_HAS_KEYBOARD c) (init_i8042 c (SDL_SCANCODE env)) s3) (\<lambda>s4.
     bind_res (init_if (CONFIG_HAS_AUDIO c) (init_audio c) s4) (\<lambda>s5.
     init_if (CONFIG_HAS_SDCARD c) (init_sdcard c (sd_image env)) s5)))))"

subsection \<open>Facts: frames, and the handlers as a dispatcher\<close>

lemma io_set32_frame:
  "io_set32 c p i v s = Inr s' \<Longrightarrow> \<exists>bs. s' = s\<lparr>io_space := bs\<rparr>"
  by (auto simp: io_set32_def bind_res_eq_Inr_iff split: option.splits)

lemma get_time_frame:
  "get_time s = (t, s') \<Longrightarrow> s' = s\<lparr>clock_reads := clock_reads s', boot_time := boot_time s'\<rparr>"
  by (auto simp: get_time_def get_time_internal_def Let_def split: prod.splits if_splits)

lemma get_time_io:
  assumes "get_time s = (t, s')"
  shows "mmio_maps s' = mmio_maps s" "pio_maps s' = pio_maps s" "p_space s' = p_space s"
    "io_space s' = io_space s" "nemu_state s' = nemu_state s" "rtc_port_base s' = rtc_port_base s"
  by (subst get_time_frame [OF assms], simp)+

lemma io_fields_of_update [simp]:
  "mmio_maps (s\<lparr>io_space := bs\<rparr>) = mmio_maps s"
  "pio_maps (s\<lparr>io_space := bs\<rparr>) = pio_maps s"
  "p_space (s\<lparr>io_space := bs\<rparr>) = p_space s"
  by simp_all

lemma rtc_io_handler_frame:
  "rtc_io_handler c off len w s = Inr s' \<Longrightarrow>
   mmio_maps s' = mmio_maps s \<and> pio_maps s' = pio_maps s \<and> p_space s' = p_space s"
  by (auto simp: rtc_io_handler_def bind_res_eq_Inr_iff get_time_io split: if_splits prod.splits
      dest!: io_set32_frame)

lemma serial_io_handler_frame:
  "serial_io_handler c off len w s = Inr s' \<Longrightarrow>
   mmio_maps s' = mmio_maps s \<and> pio_maps s' = pio_maps s \<and> p_space s' = p_space s"
  by (auto simp: serial_io_handler_def serial_putc_def bind_res_eq_Inr_iff
      split: if_splits option.splits)

lemma i8042_data_io_handler_frame:
  "i8042_data_io_handler c off len w s = Inr s' \<Longrightarrow>
   mmio_maps s' = mmio_maps s \<and> pio_maps s' = pio_maps s \<and> p_space s' = p_space s"
  by (auto simp: i8042_data_io_handler_def key_dequeue_def bind_res_eq_Inr_iff
      split: if_splits prod.splits dest!: io_set32_frame)

lemma audio_io_handler_frame:
  "audio_io_handler c off len w s = Inr s' \<Longrightarrow>
   mmio_maps s' = mmio_maps s \<and> pio_maps s' = pio_maps s \<and> p_space s' = p_space s"
  by (auto simp: audio_io_handler_def bind_res_eq_Inr_iff split: if_splits dest!: io_set32_frame)

lemma sdcard_handle_cmd_frame:
  "sdcard_handle_cmd c cmd s = Inr s' \<Longrightarrow>
   mmio_maps s' = mmio_maps s \<and> pio_maps s' = pio_maps s \<and> p_space s' = p_space s"
  by (auto simp: sdcard_handle_cmd_def sd_set_rsp_def prepare_rw_def Let_def bind_res_eq_Inr_iff
      split: if_splits dest!: io_set32_frame)

lemma sdcard_io_handler_frame:
  "sdcard_io_handler c off len w s = Inr s' \<Longrightarrow>
   mmio_maps s' = mmio_maps s \<and> pio_maps s' = pio_maps s \<and> p_space s' = p_space s"
  by (auto simp: sdcard_io_handler_def sd_fread_def sd_fwrite_def Let_def bind_res_eq_Inr_iff
      split: if_splits option.splits dest!: io_set32_frame dest: sdcard_handle_cmd_frame)

lemma dev_callback_frame:
  "dev_callback c h off len w s = Inr s' \<Longrightarrow>
   mmio_maps s' = mmio_maps s \<and> pio_maps s' = pio_maps s \<and> p_space s' = p_space s"
  by (cases h)
    (simp_all add: dev_callback_def rtc_io_handler_frame serial_io_handler_frame
      i8042_data_io_handler_frame audio_io_handler_frame sdcard_io_handler_frame)

interpretation devs: io_dispatch "dev_callback c" for c
  by unfold_locales (simp_all add: dev_callback_frame)

subsection \<open>Facts: the key queue is a bounded FIFO\<close>

text \<open>The interface of a bounded first-in first-out queue, as a client sees it.\<close>

locale bounded_fifo =
  fixes enq :: "'e \<Rightarrow> 'q \<Rightarrow> 'q res"
    and deq :: "'q \<Rightarrow> 'e \<times> 'q"
    and contents :: "'q \<Rightarrow> 'e list"
    and invar :: "'q \<Rightarrow> bool"
    and cap :: nat
    and none :: 'e
  assumes enq_ok: "invar q \<Longrightarrow> length (contents q) < cap \<Longrightarrow>
      \<exists>q'. enq x q = Inr q' \<and> invar q' \<and> contents q' = contents q @ [x]"
    and enq_full: "invar q \<Longrightarrow> cap \<le> length (contents q) \<Longrightarrow> \<exists>e. enq x q = Inl e"
    and deq_some: "invar q \<Longrightarrow> contents q = y # ys \<Longrightarrow>
      \<exists>q'. deq q = (y, q') \<and> invar q' \<and> contents q' = ys"
    and deq_none: "invar q \<Longrightarrow> contents q = [] \<Longrightarrow> deq q = (none, q)"
begin

fun enq_all :: "'e list \<Rightarrow> 'q \<Rightarrow> 'q res" where
  "enq_all [] q = Inr q"
| "enq_all (x # xs) q = bind_res (enq x q) (enq_all xs)"

fun deq_n :: "nat \<Rightarrow> 'q \<Rightarrow> 'e list \<times> 'q" where
  "deq_n 0 q = ([], q)"
| "deq_n (Suc n) q = (case deq q of (x, q') \<Rightarrow> case deq_n n q' of (xs, q'') \<Rightarrow> (x # xs, q''))"

lemma enq_all_contents:
  "invar q \<Longrightarrow> length (contents q) + length xs \<le> cap \<Longrightarrow>
   \<exists>q'. enq_all xs q = Inr q' \<and> invar q' \<and> contents q' = contents q @ xs"
proof (induction xs arbitrary: q)
  case (Cons x xs)
  then obtain q1 where "enq x q = Inr q1" "invar q1" "contents q1 = contents q @ [x]"
    using enq_ok [of q x] by auto
  with Cons.IH [of q1] Cons.prems show ?case by auto
qed simp

lemma deq_n_contents:
  "invar q \<Longrightarrow> contents q = xs @ ys \<Longrightarrow>
   \<exists>q'. deq_n (length xs) q = (xs, q') \<and> invar q' \<and> contents q' = ys"
proof (induction xs arbitrary: q)
  case (Cons x xs)
  then obtain q1 where "deq q = (x, q1)" "invar q1" "contents q1 = xs @ ys"
    using deq_some [of q x "xs @ ys"] by auto
  with Cons.IH [of q1] show ?case by auto
qed simp

text \<open>What goes into an empty queue comes out in the same order.\<close>

lemma fifo_order:
  assumes "invar q" and "contents q = []" and "length xs \<le> cap"
  shows "\<exists>q1 q2. enq_all xs q = Inr q1 \<and> deq_n (length xs) q1 = (xs, q2) \<and> contents q2 = []"
  using enq_all_contents [of q xs] deq_n_contents [of _ xs "[]"] assms by fastforce

end

definition key_invar :: "'a dev_scheme \<Rightarrow> bool" where
  "key_invar s \<longleftrightarrow> key_f s < KEY_QUEUE_LEN \<and> key_r s < KEY_QUEUE_LEN"

definition key_count :: "'a dev_scheme \<Rightarrow> nat" where
  "key_count s = (key_r s + KEY_QUEUE_LEN - key_f s) mod KEY_QUEUE_LEN"

definition key_contents :: "'a dev_scheme \<Rightarrow> u32 list" where
  "key_contents s = map (\<lambda>i. key_queue s ((key_f s + i) mod KEY_QUEUE_LEN)) [0..<key_count s]"

lemma ring_count_step:
  assumes "f < N" "r < N" "(r + 1) mod N \<noteq> f" "0 < N"
  shows "((r + 1) mod N + N - f) mod N = Suc ((r + N - f) mod N)"
proof (cases "Suc r = N")
  case True
  with assms show ?thesis by (cases "f = 0") (auto simp: le_mod_geq)
next
  case False
  with assms have "r + 1 < N" by simp
  then have "(r + 1) mod N = r + 1" "(Suc r - f) mod N = Suc r - f" by simp_all
  with assms show ?thesis by (cases "f \<le> r") (auto simp: le_mod_geq not_le)
qed

lemma ring_last:
  assumes "f < N" "r < N"
  shows "(f + (r + N - f) mod N) mod N = (r :: nat)"
  using assms by (cases "f \<le> r") (auto simp: le_mod_geq not_le)

lemma ring_count_full:
  assumes "f < N" "r < N" "1 < N"
  shows "(r + 1) mod N = f \<longleftrightarrow> (r + N - f) mod N = (N - 1 :: nat)"
  using assms by (cases "f \<le> r"; cases "Suc r = N") (auto simp: le_mod_geq not_le)

lemma key_count_less: "key_count s < KEY_QUEUE_LEN"
  by (simp add: key_count_def KEY_QUEUE_LEN_def)

lemma length_key_contents [simp]: "length (key_contents s) = key_count s"
  by (simp add: key_contents_def)

lemma ring_diff:
  "f < N \<Longrightarrow> r < N \<Longrightarrow> (r + N - f) mod N = (if f \<le> r then r - f else r + N - f)" for N :: nat
  by (auto simp: le_mod_geq not_le)

lemma ring_index:
  "f < N \<Longrightarrow> i < N \<Longrightarrow> (f + i) mod N = (if f + i < N then f + i else f + i - N)" for N :: nat
  by (auto simp: le_mod_geq not_le)

lemma key_count_eq:
  "key_invar s \<Longrightarrow>
   key_count s = (if key_f s \<le> key_r s then key_r s - key_f s else key_r s + KEY_QUEUE_LEN - key_f s)"
  by (simp add: key_count_def key_invar_def ring_diff)

lemma key_enqueue_ok:
  assumes "key_invar s" and "key_count s < KEY_QUEUE_LEN - 1"
  shows "\<exists>s'. key_enqueue x s = Inr s' \<and> key_invar s' \<and> key_contents s' = key_contents s @ [x]"
proof -
  let ?N = KEY_QUEUE_LEN
  let ?s' = "s\<lparr>key_queue := (key_queue s)(key_r s := x), key_r := (key_r s + 1) mod ?N\<rparr>"
  have N: "1 < ?N" by (simp add: KEY_QUEUE_LEN_def)
  have fr: "key_f s < ?N" "key_r s < ?N" using assms(1) by (simp_all add: key_invar_def)
  have ne: "(key_r s + 1) mod ?N \<noteq> key_f s"
    using ring_count_full [OF fr N] assms(2) by (simp add: key_count_def)
  have cnt: "key_count ?s' = Suc (key_count s)"
    using ring_count_step [OF fr ne] N by (simp add: key_count_def)
  have old: "key_queue ?s' ((key_f s + i) mod ?N) = key_queue s ((key_f s + i) mod ?N)"
    if "i < key_count s" for i
  proof -
    have "i < ?N" using that key_count_less [of s] by simp
    then have "(key_f s + i) mod ?N \<noteq> key_r s"
      using that fr by (auto simp: key_count_eq [OF assms(1)] ring_index split: if_splits)
    then show ?thesis by simp
  qed
  have "key_contents ?s' = map (\<lambda>i. key_queue ?s' ((key_f s + i) mod ?N)) [0..<key_count s] @
      [key_queue ?s' ((key_f s + key_count s) mod ?N)]"
    by (simp only: key_contents_def cnt upt_Suc_append zero_le map_append) simp
  also have "\<dots> = key_contents s @ [x]"
    using old ring_last [OF fr] by (simp add: key_contents_def key_count_def)
  finally have "key_contents ?s' = key_contents s @ [x]" .
  moreover have "key_enqueue x s = Inr ?s'" using ne by (simp add: key_enqueue_def Let_def)
  moreover have "key_invar ?s'" using fr N by (simp add: key_invar_def)
  ultimately show ?thesis by blast
qed

lemma key_enqueue_full:
  assumes "key_invar s" and "KEY_QUEUE_LEN - 1 \<le> key_count s"
  shows "key_enqueue x s = Inl (Panic ''key queue overflow!'')"
proof -
  have N: "1 < KEY_QUEUE_LEN" by (simp add: KEY_QUEUE_LEN_def)
  have "key_count s = KEY_QUEUE_LEN - 1" using assms(2) key_count_less [of s] by simp
  then have "(key_r s + 1) mod KEY_QUEUE_LEN = key_f s"
    using ring_count_full [of "key_f s" KEY_QUEUE_LEN "key_r s"] assms(1) N
    by (simp add: key_invar_def key_count_def)
  then show ?thesis by (simp add: key_enqueue_def Let_def)
qed

lemma key_dequeue_some:
  assumes "key_invar s" and "key_contents s = y # ys"
  shows "\<exists>s'. key_dequeue s = (y, s') \<and> key_invar s' \<and> key_contents s' = ys"
proof -
  let ?N = KEY_QUEUE_LEN
  let ?s' = "s\<lparr>key_f := (key_f s + 1) mod ?N\<rparr>"
  have fr: "key_f s < ?N" "key_r s < ?N" using assms(1) by (simp_all add: key_invar_def)
  have len: "key_count s = Suc (length ys)"
    using assms(2) length_key_contents [of s] by simp
  then have ne: "key_f s \<noteq> key_r s" by (auto simp: key_count_def KEY_QUEUE_LEN_def)
  have cnt: "key_count ?s' = length ys"
    using len fr ne key_count_eq [of ?s'] key_count_eq [OF assms(1)]
    by (auto simp: key_invar_def mod_Suc split: if_splits)
  have "0 < key_count s" using len by simp
  then have "key_contents s ! 0 = key_queue s (key_f s)"
    using fr by (simp add: key_contents_def)
  then have y: "y = key_queue s (key_f s)" using assms(2) by simp
  have "key_contents ?s' = ys"
  proof (rule nth_equalityI)
    show "length (key_contents ?s') = length ys" using cnt by simp
    fix i assume "i < length (key_contents ?s')"
    then have i: "i < length ys" using cnt by simp
    then have "ys ! i = key_contents s ! Suc i" using assms(2) by simp
    moreover have "((key_f s + 1) mod ?N + i) mod ?N = (key_f s + Suc i) mod ?N"
      by (simp add: mod_simps)
    ultimately show "key_contents ?s' ! i = ys ! i"
      using i cnt len by (simp add: key_contents_def del: upt_Suc)
  qed
  with y ne fr show ?thesis by (auto simp: key_dequeue_def key_invar_def KEY_QUEUE_LEN_def)
qed

lemma key_dequeue_none:
  assumes "key_invar s" and "key_contents s = []"
  shows "key_dequeue s = (NEMU_KEY_NONE, s)"
proof -
  have "key_count s = 0" using assms(2) length_key_contents [of s] by simp
  then have "key_f s = key_r s"
    using key_count_eq [OF assms(1)] assms(1) by (auto simp: key_invar_def split: if_splits)
  then show ?thesis by (simp add: key_dequeue_def)
qed

interpretation keyq: bounded_fifo key_enqueue key_dequeue key_contents key_invar
    "KEY_QUEUE_LEN - 1" NEMU_KEY_NONE
  by unfold_locales
    (auto simp: key_enqueue_full intro: key_enqueue_ok key_dequeue_some key_dequeue_none)

subsection \<open>Facts: the handlers leave the rest of the machine alone\<close>

lemma io_set32_more: "io_set32 c p i v s = Inr s' \<Longrightarrow> dev.more s' = dev.more s" for s :: "'a dev_scheme"
  by (auto dest!: io_set32_frame)

lemma get_time_more: "get_time s = (t, s') \<Longrightarrow> dev.more s' = dev.more s"
  by (subst get_time_frame) auto

lemma difftest_skip_ref_more: "dev.more (difftest_skip_ref c s) = dev.more s" for s :: "'a dev_scheme"
  by (simp add: difftest_skip_ref_def)

lemma rtc_more: "rtc_io_handler c off len w s = Inr s' \<Longrightarrow> dev.more s' = dev.more s"
  by (auto simp: rtc_io_handler_def bind_res_eq_Inr_iff split: if_splits prod.splits
      dest!: io_set32_more get_time_more)

lemma serial_more: "serial_io_handler c off len w s = Inr s' \<Longrightarrow> dev.more s' = dev.more s"
  by (auto simp: serial_io_handler_def serial_putc_def bind_res_eq_Inr_iff
      split: if_splits option.splits)

lemma i8042_more: "i8042_data_io_handler c off len w s = Inr s' \<Longrightarrow> dev.more s' = dev.more s"
  by (auto simp: i8042_data_io_handler_def key_dequeue_def bind_res_eq_Inr_iff
      split: if_splits prod.splits dest!: io_set32_more)

lemma audio_more: "audio_io_handler c off len w s = Inr s' \<Longrightarrow> dev.more s' = dev.more s"
  by (auto simp: audio_io_handler_def bind_res_eq_Inr_iff split: if_splits dest!: io_set32_more)

lemma sdcard_cmd_more: "sdcard_handle_cmd c cmd s = Inr s' \<Longrightarrow> dev.more s' = dev.more s"
  by (auto simp: sdcard_handle_cmd_def sd_set_rsp_def prepare_rw_def Let_def bind_res_eq_Inr_iff
      split: if_splits dest!: io_set32_more)

lemma sdcard_more: "sdcard_io_handler c off len w s = Inr s' \<Longrightarrow> dev.more s' = dev.more s"
  by (auto simp: sdcard_io_handler_def sd_fread_def sd_fwrite_def Let_def bind_res_eq_Inr_iff
      split: if_splits option.splits dest!: io_set32_frame dest: sdcard_cmd_more)

lemma dev_callback_more: "dev_callback c h off len w s = Inr s' \<Longrightarrow> dev.more s' = dev.more s"
  by (cases h) (simp_all add: dev_callback_def rtc_more serial_more i8042_more audio_more sdcard_more)

lemma invoke_callback_more:
  "invoke_callback (dev_callback c) h off len w s = Inr s' \<Longrightarrow> dev.more s' = dev.more s"
  by (auto simp: invoke_callback_def dev_callback_more split: option.splits)

lemma fetch_mmio_map_more:
  "fetch_mmio_map c a s = (m, s') \<Longrightarrow> dev.more s' = dev.more s" for s :: "'a dev_scheme"
  by (auto simp: fetch_mmio_map_def find_mapid_by_addr_def Let_def difftest_skip_ref_more split: if_splits)

lemma mmio_read_more:
  "mmio_read c (dev_callback c) a len s = Inr (v, s') \<Longrightarrow> dev.more s' = dev.more s"
  by (auto simp: mmio_read_def map_read_def Let_def bind_res_eq_Inr_iff split: prod.splits
      dest!: invoke_callback_more fetch_mmio_map_more)

lemma mmio_write_more:
  "mmio_write c (dev_callback c) a len d s = Inr s' \<Longrightarrow> dev.more s' = dev.more s"
  by (auto simp: mmio_write_def map_write_def Let_def bind_res_eq_Inr_iff split: prod.splits
      dest!: invoke_callback_more fetch_mmio_map_more)

end
