(* ===== verification/Paddr.thy ===== *)
theory Paddr
  imports Devices
begin

text \<open>
  Guest memory: \<open>nemu/src/memory/paddr.c\<close>, \<open>nemu/src/memory/vaddr.c\<close>, the address
  macros of \<open>nemu/include/memory/paddr.h\<close> and \<open>nemu/include/cpu/ifetch.h\<close>.  The
  array \<open>pmem\<close> is a host object of \<open>CONFIG_MSIZE\<close> bytes.  An address outside it goes
  to the devices when they are configured and panics otherwise.
\<close>

record mem = dev +
  pmem :: bytes

definition PMEM_LEFT :: "config \<Rightarrow> u32" where
  "PMEM_LEFT c = CONFIG_MBASE c"

definition PMEM_RIGHT :: "config \<Rightarrow> u32" where
  "PMEM_RIGHT c = CONFIG_MBASE c + CONFIG_MSIZE c - 1"

definition RESET_VECTOR :: "config \<Rightarrow> u32" where
  "RESET_VECTOR c = PMEM_LEFT c + CONFIG_PC_RESET_OFFSET c"

text \<open>\<open>pmem + paddr - CONFIG_MBASE\<close>, as an offset from \<open>pmem\<close>, and back.\<close>

definition guest_to_host :: "config \<Rightarrow> u32 \<Rightarrow> int" where
  "guest_to_host c paddr = uint paddr - uint (CONFIG_MBASE c)"

definition host_to_guest :: "config \<Rightarrow> int \<Rightarrow> u32" where
  "host_to_guest c haddr = word_of_int (haddr + uint (CONFIG_MBASE c))"

definition pmem_read :: "config \<Rightarrow> u32 \<Rightarrow> int \<Rightarrow> 'a mem_scheme \<Rightarrow> u32 res" where
  "pmem_read c a len s =
     host_read c (uint (CONFIG_MSIZE c)) (pmem s) (guest_to_host c a) len"

definition pmem_write :: "config \<Rightarrow> u32 \<Rightarrow> int \<Rightarrow> u32 \<Rightarrow> 'a mem_scheme \<Rightarrow> 'a mem_scheme res" where
  "pmem_write c a len data s =
     bind_res (host_write c (uint (CONFIG_MSIZE c)) (pmem s) (guest_to_host c a) len data)
       (\<lambda>bs. Inr (s\<lparr>pmem := bs\<rparr>))"

definition out_of_bound :: "u32 \<Rightarrow> 'b res" where
  "out_of_bound a = Inl (Panic ''nemu address is out of bound of pmem'')"

definition paddr_read :: "config \<Rightarrow> u32 \<Rightarrow> int \<Rightarrow> 'a mem_scheme \<Rightarrow> (u32 \<times> 'a mem_scheme) res" where
  "paddr_read c a len s =
     (if in_pmem c a then bind_res (pmem_read c a len s) (\<lambda>v. Inr (v, s))
      else if CONFIG_DEVICE c then mmio_read c (dev_callback c) a len s
      else out_of_bound a)"

definition paddr_write :: "config \<Rightarrow> u32 \<Rightarrow> int \<Rightarrow> u32 \<Rightarrow> 'a mem_scheme \<Rightarrow> 'a mem_scheme res" where
  "paddr_write c a len data s =
     (if in_pmem c a then pmem_write c a len data s
      else if CONFIG_DEVICE c then mmio_write c (dev_callback c) a len data s
      else out_of_bound a)"

definition vaddr_ifetch :: "config \<Rightarrow> u32 \<Rightarrow> int \<Rightarrow> 'a mem_scheme \<Rightarrow> (u32 \<times> 'a mem_scheme) res" where
  "vaddr_ifetch c a len s = paddr_read c a len s"

definition vaddr_read :: "config \<Rightarrow> u32 \<Rightarrow> int \<Rightarrow> 'a mem_scheme \<Rightarrow> (u32 \<times> 'a mem_scheme) res" where
  "vaddr_read c a len s = paddr_read c a len s"

definition vaddr_write :: "config \<Rightarrow> u32 \<Rightarrow> int \<Rightarrow> u32 \<Rightarrow> 'a mem_scheme \<Rightarrow> 'a mem_scheme res" where
  "vaddr_write c a len data s = paddr_write c a len data s"

text \<open>The instruction and the advanced \<open>pc\<close>.\<close>

definition inst_fetch ::
  "config \<Rightarrow> u32 \<Rightarrow> int \<Rightarrow> 'a mem_scheme \<Rightarrow> (u32 \<times> u32 \<times> 'a mem_scheme) res" where
  "inst_fetch c pc len s =
     bind_res (vaddr_ifetch c pc len s) (\<lambda>(inst, s'). Inr (inst, pc + word_of_int len, s'))"

subsection \<open>Facts\<close>

text \<open>Memory that does not wrap past the end of the 32-bit address space (the condition
  under which \<open>paddr_t\<close> is 32 bits wide).\<close>

definition pmem_fits :: "config \<Rightarrow> bool" where
  "pmem_fits c \<longleftrightarrow> uint (CONFIG_MBASE c) + uint (CONFIG_MSIZE c) \<le> 2 ^ 32"

lemma in_pmem_iff:
  assumes "pmem_fits c"
  shows "in_pmem c a \<longleftrightarrow> 0 \<le> guest_to_host c a \<and> guest_to_host c a < uint (CONFIG_MSIZE c)"
proof (cases "CONFIG_MBASE c \<le> a")
  case True
  then have "uint (a - CONFIG_MBASE c) = uint a - uint (CONFIG_MBASE c)"
    by (simp add: uint_sub_lem word_le_def)
  with True show ?thesis
    by (simp add: in_pmem_def guest_to_host_def word_less_def word_le_def)
next
  case False
  then have lt: "uint a < uint (CONFIG_MBASE c)" by (simp add: word_le_def)
  then have "uint (a - CONFIG_MBASE c) = uint a - uint (CONFIG_MBASE c) + 2 ^ 32"
    by (simp add: uint_sub_if')
  with assms lt show ?thesis
    by (simp add: in_pmem_def guest_to_host_def word_less_def pmem_fits_def)
      (use uint_ge_0 [of a] in linarith)
qed

lemma host_to_guest_to_host [simp]: "host_to_guest c (guest_to_host c a) = a"
  by (simp add: host_to_guest_def guest_to_host_def)

lemma paddr_write_frame:
  assumes "in_pmem c a" and "paddr_write c a len d s = Inr s'"
  shows "s' = s\<lparr>pmem := pmem s'\<rparr>"
  using assms by (auto simp: paddr_write_def pmem_write_def bind_res_eq_Inr_iff)

lemma pmem_read_in_object:
  assumes "pmem_fits c" and "in_pmem c a" and "access_len len"
  shows "(\<exists>v. paddr_read c a len s = Inr (v, s)) \<longleftrightarrow>
         guest_to_host c a + len \<le> uint (CONFIG_MSIZE c)"
proof -
  have "0 \<le> guest_to_host c a" using assms in_pmem_iff by blast
  then show ?thesis
    using host_read_ok [OF assms(3), of c "uint (CONFIG_MSIZE c)" "pmem s" "guest_to_host c a"] assms(2)
    by (auto simp: paddr_read_def pmem_read_def in_object_def bind_res_eq_Inr_iff)
qed

lemma aligned_fits:
  assumes "len dvd (x::int)" and "len dvd n" and "x < n" and "0 < len"
  shows "x + len \<le> n"
proof -
  from assms(2,1) have "len dvd n - x" by (rule dvd_diff)
  moreover have "0 < n - x" using assms(3) by simp
  ultimately have "len \<le> n - x" by (rule zdvd_imp_le)
  then show ?thesis by simp
qed

text \<open>The promises of the bus to the processor, for addresses of guest memory.\<close>

locale guest_memory =
  fixes valid :: "u32 \<Rightarrow> int \<Rightarrow> bool"
    and rd :: "u32 \<Rightarrow> int \<Rightarrow> 's \<Rightarrow> (u32 \<times> 's) res"
    and wr :: "u32 \<Rightarrow> int \<Rightarrow> u32 \<Rightarrow> 's \<Rightarrow> 's res"
  assumes rd_total: "valid a len \<Longrightarrow> \<exists>v. rd a len s = Inr (v, s)"
    and wr_total: "valid a len \<Longrightarrow> \<exists>s'. wr a len d s = Inr s'"
    and rd_wr_same: "valid a len \<Longrightarrow> wr a len d s = Inr s' \<Longrightarrow>
      rd a len s' = Inr (take_bit (8 * nat len) d, s')"
    and rd_wr_other: "valid a len \<Longrightarrow> valid b len' \<Longrightarrow> wr a len d s = Inr s' \<Longrightarrow>
      uint b + len' \<le> uint a \<or> uint a + len \<le> uint b \<Longrightarrow>
      map_sum id fst (rd b len' s') = map_sum id fst (rd b len' s)"
begin

text \<open>Two stores to disjoint places can be done in either order, as far as loads see.\<close>

lemma stores_commute:
  assumes va: "valid a len" and vb: "valid b len'"
    and dj: "uint b + len' \<le> uint a \<or> uint a + len \<le> uint b"
    and w1: "wr a len d s = Inr s1" "wr b len' e s1 = Inr s2"
  shows "rd a len s2 = Inr (take_bit (8 * nat len) d, s2)"
    and "rd b len' s2 = Inr (take_bit (8 * nat len') e, s2)"
proof -
  have "rd a len s1 = Inr (take_bit (8 * nat len) d, s1)" by (rule rd_wr_same [OF va w1(1)])
  moreover have "map_sum id fst (rd a len s2) = map_sum id fst (rd a len s1)"
    using rd_wr_other [OF vb va w1(2)] dj by auto
  moreover obtain v where "rd a len s2 = Inr (v, s2)" using rd_total [OF va] by blast
  ultimately show "rd a len s2 = Inr (take_bit (8 * nat len) d, s2)" by simp
  show "rd b len' s2 = Inr (take_bit (8 * nat len') e, s2)" by (rule rd_wr_same [OF vb w1(2)])
qed

end

text \<open>What is valid: a legal length, and all of the bytes in guest memory.\<close>

definition pmem_valid :: "config \<Rightarrow> u32 \<Rightarrow> int \<Rightarrow> bool" where
  "pmem_valid c a len \<longleftrightarrow>
     pmem_fits c \<and> access_len len \<and> in_pmem c a \<and>
     guest_to_host c a + len \<le> uint (CONFIG_MSIZE c)"

lemma pmem_valid_aligned:
  assumes "pmem_fits c" and "access_len len" and "in_pmem c a" and "len dvd uint a"
    and "4 dvd uint (CONFIG_MBASE c)" and "4 dvd uint (CONFIG_MSIZE c)"
  shows "pmem_valid c a len"
proof -
  have l: "len dvd 4" "0 < len" using assms(2) by (auto simp: access_len_def)
  then have "len dvd guest_to_host c a" "len dvd uint (CONFIG_MSIZE c)"
    using assms(4-6) by (auto simp: guest_to_host_def intro: dvd_trans)
  moreover have "guest_to_host c a < uint (CONFIG_MSIZE c)"
    using assms(1,3) in_pmem_iff by blast
  ultimately have "guest_to_host c a + len \<le> uint (CONFIG_MSIZE c)"
    using aligned_fits l(2) by blast
  with assms show ?thesis by (simp add: pmem_valid_def)
qed

lemma paddr_read_pmem:
  "in_pmem c a \<Longrightarrow> paddr_read c a len s = bind_res (pmem_read c a len s) (\<lambda>v. Inr (v, s))"
  by (simp add: paddr_read_def)

interpretation pm: guest_memory "pmem_valid c" "paddr_read c" "paddr_write c" for c
proof unfold_locales
  fix a len and s :: "'a mem_scheme"
  assume "pmem_valid c a len"
  then show "\<exists>v. paddr_read c a len s = Inr (v, s)"
    using pmem_read_in_object [of c a len s] by (simp add: pmem_valid_def)
next
  fix a len d and s :: "'a mem_scheme"
  assume v: "pmem_valid c a len"
  then have "0 \<le> guest_to_host c a" using in_pmem_iff by (auto simp: pmem_valid_def)
  with v show "\<exists>s'. paddr_write c a len d s = Inr s'"
    using host_write_ok [of len c "uint (CONFIG_MSIZE c)" "pmem s" "guest_to_host c a" d]
    by (auto simp: pmem_valid_def paddr_write_def pmem_write_def in_object_def)
next
  fix a len d and s s' :: "'a mem_scheme"
  assume "pmem_valid c a len" and "paddr_write c a len d s = Inr s'"
  then show "paddr_read c a len s' = Inr (take_bit (8 * nat len) d, s')"
    by (auto simp: pmem_valid_def paddr_write_def pmem_write_def paddr_read_pmem pmem_read_def
        bind_res_eq_Inr_iff host_read_after_write)
next
  fix a len b len' d and s s' :: "'a mem_scheme"
  assume v: "pmem_valid c a len" "pmem_valid c b len'" and w: "paddr_write c a len d s = Inr s'"
    and dj: "uint b + len' \<le> uint a \<or> uint a + len \<le> uint b"
  from v(1) w obtain bs where
    bs: "host_write c (uint (CONFIG_MSIZE c)) (pmem s) (guest_to_host c a) len d = Inr bs"
    and s': "s' = s\<lparr>pmem := bs\<rparr>"
    by (auto simp: pmem_valid_def paddr_write_def pmem_write_def bind_res_eq_Inr_iff)
  have "guest_to_host c b + len' \<le> guest_to_host c a \<or> guest_to_host c a + len \<le> guest_to_host c b"
    using dj by (auto simp: guest_to_host_def)
  then have "pmem_read c b len' s' = pmem_read c b len' s"
    using v host_read_write_disjoint [OF _ _ bs] by (simp add: pmem_read_def s' pmem_valid_def)
  then show "map_sum id fst (paddr_read c b len' s') = map_sum id fst (paddr_read c b len' s)"
    using v(2) by (cases "pmem_read c b len' s") (simp_all add: paddr_read_pmem pmem_valid_def)
qed

lemma paddr_read_pmem_frame:
  "paddr_read c a len s = Inr (v, s') \<Longrightarrow> dev.more s' = dev.more s"
  by (auto simp: paddr_read_def out_of_bound_def bind_res_eq_Inr_iff split: if_splits
      dest: mmio_read_more)

lemma paddr_write_more:
  "paddr_write c a len d s = Inr s' \<Longrightarrow> mem.more s' = mem.more s"
proof -
  assume w: "paddr_write c a len d s = Inr s'"
  have "mem.more s' = mem.more s" if "dev.more s' = dev.more s" using that by (cases s; cases s') simp
  with w show ?thesis
    by (auto simp: paddr_write_def pmem_write_def out_of_bound_def bind_res_eq_Inr_iff
        split: if_splits dest: mmio_write_more)
qed

end
