(* ===== verification/Decode.thy ===== *)
theory Decode
  imports Config
begin

text \<open>
  Instruction pattern matching: \<open>pattern_decode\<close> and \<open>INSTPAT\<close> of
  \<open>nemu/include/cpu/decode.h\<close>, and the bit field macros \<open>BITMASK\<close>, \<open>BITS\<close> and
  \<open>SEXT\<close> of \<open>nemu/include/macro.h\<close>.
\<close>

subsection \<open>macro.h\<close>

definition BITMASK :: "nat \<Rightarrow> u64" where
  "BITMASK bits = push_bit bits 1 - 1"

definition BITS :: "u32 \<Rightarrow> nat \<Rightarrow> nat \<Rightarrow> u64" where
  "BITS x hi lo = ucast (drop_bit lo x) AND BITMASK (hi - lo + 1)"

text \<open>The bit field \<open>int64_t n : len\<close>: the low \<open>len\<close> bits, sign extended.\<close>

definition SEXT :: "u64 \<Rightarrow> nat \<Rightarrow> u64" where
  "SEXT x len = signed_take_bit (len - 1) x"

subsection \<open>pattern\_decode\<close>

text \<open>One expansion of \<open>macro(i)\<close> for a character that is present.\<close>

definition pattern_char :: "char \<Rightarrow> u64 \<times> u64 \<times> nat \<Rightarrow> (u64 \<times> u64 \<times> nat) res" where
  "pattern_char ch acc =
     (case acc of (key, msk, shift) \<Rightarrow>
        if ch \<noteq> CHR '' '' then
          bind_res (assert_res (Panic ''invalid character in pattern string'')
                      (ch = CHR ''0'' \<or> ch = CHR ''1'' \<or> ch = CHR ''?''))
            (\<lambda>_. Inr (push_bit 1 key OR (if ch = CHR ''1'' then 1 else 0),
                      push_bit 1 msk OR (if ch = CHR ''?'' then 0 else 1),
                      (if ch = CHR ''?'' then shift + 1 else 0)))
        else Inr acc)"

fun pattern_loop :: "string \<Rightarrow> u64 \<times> u64 \<times> nat \<Rightarrow> (u64 \<times> u64 \<times> nat) res" where
  "pattern_loop [] acc = Inr acc"
| "pattern_loop (ch # cs) acc = bind_res (pattern_char ch acc) (pattern_loop cs)"

text \<open>The macro is expanded for 64 characters; a string of 64 or more characters does
  not reach \<open>finish\<close> and panics after the last one.\<close>

definition pattern_decode :: "string \<Rightarrow> (u64 \<times> u64 \<times> nat) res" where
  "pattern_decode str =
     bind_res (pattern_loop (take 64 str) (0, 0, 0)) (\<lambda>(key, msk, shift).
     if 64 \<le> length str then Inl (Panic ''pattern too long'')
     else Inr (drop_bit shift key, drop_bit shift msk, shift))"

text \<open>The condition of \<open>INSTPAT\<close>.\<close>

definition instpat_match :: "string \<Rightarrow> u32 \<Rightarrow> bool res" where
  "instpat_match pat inst =
     bind_res (pattern_decode pat) (\<lambda>(key, msk, shift).
     Inr ((drop_bit shift (ucast inst :: u64)) AND msk = key))"

text \<open>A sequence of \<open>INSTPAT\<close> lines: the first that matches is executed and the rest
  is skipped (\<open>goto *(__instpat_end)\<close>).\<close>

fun instpat_dispatch :: "(string \<times> 'k) list \<Rightarrow> u32 \<Rightarrow> 'k option res" where
  "instpat_dispatch [] inst = Inr None"
| "instpat_dispatch ((pat, k) # rest) inst =
     bind_res (instpat_match pat inst) (\<lambda>b.
     if b then Inr (Some k) else instpat_dispatch rest inst)"

subsection \<open>What a pattern means\<close>

text \<open>A pattern without its blanks is read from the most significant bit down; the last
  character stands for bit 0.\<close>

definition pattern_chars :: "string \<Rightarrow> string" where
  "pattern_chars pat = filter (\<lambda>ch. ch \<noteq> CHR '' '') pat"

definition char_agrees :: "char \<Rightarrow> bool \<Rightarrow> bool" where
  "char_agrees ch b \<longleftrightarrow> ch = CHR ''?'' \<or> (ch = CHR ''1'' \<longleftrightarrow> b)"

definition pattern_agrees :: "string \<Rightarrow> u32 \<Rightarrow> bool" where
  "pattern_agrees cs inst \<longleftrightarrow>
     (\<forall>i < length cs. char_agrees (cs ! (length cs - 1 - i)) (bit inst i))"

definition pattern_wf :: "string \<Rightarrow> bool" where
  "pattern_wf pat \<longleftrightarrow>
     length pat < 64 \<and>
     list_all (\<lambda>ch. ch = CHR '' '' \<or> ch = CHR ''0'' \<or> ch = CHR ''1'' \<or> ch = CHR ''?'') pat"

subsection \<open>Facts: pattern matching\<close>

lemma pattern_loop_append:
  "pattern_loop (xs @ ys) acc = bind_res (pattern_loop xs acc) (pattern_loop ys)"
proof (induction xs arbitrary: acc)
  case (Cons x xs)
  then show ?case by (cases "pattern_char x acc") simp_all
qed simp

lemma pattern_char_blank [simp]: "pattern_char (CHR '' '') acc = Inr acc"
  by (simp add: pattern_char_def split: prod.splits)

lemma pattern_loop_blanks:
  "pattern_loop pat acc = pattern_loop (pattern_chars pat) acc"
proof (induction pat arbitrary: acc)
  case (Cons x xs)
  then show ?case
    by (cases "x = CHR '' ''"; cases "pattern_char x acc") (simp_all add: pattern_chars_def)
qed (simp add: pattern_chars_def)

text \<open>What the loop has computed after the characters \<open>cs\<close>: bit \<open>i\<close> of the key and of
  the mask come from the \<open>i\<close>-th character from the right, and \<open>shift\<close> counts wild
  cards at the right end.\<close>

definition pattern_inv :: "string \<Rightarrow> u64 \<times> u64 \<times> nat \<Rightarrow> bool" where
  "pattern_inv cs acc \<longleftrightarrow>
     (case acc of (key, msk, shift) \<Rightarrow>
        shift \<le> length cs \<and>
        (\<forall>i < shift. rev cs ! i = CHR ''?'') \<and>
        (\<forall>i < 64. bit key i \<longleftrightarrow> i < length cs \<and> rev cs ! i = CHR ''1'') \<and>
        (\<forall>i < 64. bit msk i \<longleftrightarrow> i < length cs \<and> rev cs ! i \<noteq> CHR ''?''))"

lemma pattern_inv_step:
  assumes "pattern_inv cs acc" and "ch = CHR ''0'' \<or> ch = CHR ''1'' \<or> ch = CHR ''?''"
  shows "\<exists>acc'. pattern_char ch acc = Inr acc' \<and> pattern_inv (cs @ [ch]) acc'"
proof -
  obtain key msk shift where acc: "acc = (key, msk, shift)" by (cases acc) auto
  let ?key = "push_bit 1 key OR (if ch = CHR ''1'' then 1 else 0)"
  let ?msk = "push_bit 1 msk OR (if ch = CHR ''?'' then 0 else 1)"
  let ?shift = "if ch = CHR ''?'' then shift + 1 else 0"
  have "pattern_char ch acc = Inr (?key, ?msk, ?shift)"
    using assms(2) by (auto simp: pattern_char_def acc)
  moreover have "pattern_inv (cs @ [ch]) (?key, ?msk, ?shift)"
    using assms by (auto simp: pattern_inv_def acc bit_simps bit_double_word nth_Cons')
  ultimately show ?thesis by blast
qed

lemma pattern_inv_loop:
  assumes "list_all (\<lambda>ch. ch = CHR ''0'' \<or> ch = CHR ''1'' \<or> ch = CHR ''?'') cs"
  shows "\<exists>acc. pattern_loop cs (0, 0, 0) = Inr acc \<and> pattern_inv cs acc"
  using assms
proof (induction cs rule: rev_induct)
  case Nil
  show ?case by (simp add: pattern_inv_def)
next
  case (snoc ch cs)
  then obtain acc where "pattern_loop cs (0, 0, 0) = Inr acc" "pattern_inv cs acc" by auto
  with snoc.prems pattern_inv_step [of cs acc ch] show ?case
    by (auto simp: pattern_loop_append)
qed

lemma masked_eq_iff:
  fixes x key msk :: u64
  shows "drop_bit n x AND drop_bit n msk = drop_bit n key \<longleftrightarrow>
         (\<forall>i. n \<le> i \<longrightarrow> i < 64 \<longrightarrow> (bit x i \<and> bit msk i \<longleftrightarrow> bit key i))"
proof
  assume eq: "drop_bit n x AND drop_bit n msk = drop_bit n key"
  show "\<forall>i. n \<le> i \<longrightarrow> i < 64 \<longrightarrow> (bit x i \<and> bit msk i \<longleftrightarrow> bit key i)"
  proof (intro allI impI)
    fix i assume "n \<le> i"
    from eq have "bit (drop_bit n x AND drop_bit n msk) (i - n) = bit (drop_bit n key) (i - n)" by simp
    with \<open>n \<le> i\<close> show "(bit x i \<and> bit msk i) = bit key i" by (simp add: bit_simps)
  qed
next
  assume r: "\<forall>i. n \<le> i \<longrightarrow> i < 64 \<longrightarrow> (bit x i \<and> bit msk i \<longleftrightarrow> bit key i)"
  show "drop_bit n x AND drop_bit n msk = drop_bit n key"
  proof (rule bit_word_eqI)
    fix i assume "i < LENGTH(64)"
    show "bit (drop_bit n x AND drop_bit n msk) i = bit (drop_bit n key) i"
      using r [rule_format, of "n + i"] bit_imp_le_length [of x "n + i"]
        bit_imp_le_length [of key "n + i"] by (auto simp: bit_simps)
  qed
qed

lemma instpat_match_iff:
  assumes "pattern_wf pat"
  shows "instpat_match pat inst = Inr (pattern_agrees (pattern_chars pat) inst)"
proof -
  let ?cs = "pattern_chars pat"
  have "list_all (\<lambda>ch. ch = CHR ''0'' \<or> ch = CHR ''1'' \<or> ch = CHR ''?'') ?cs"
    using assms by (auto simp: pattern_wf_def pattern_chars_def list_all_iff)
  then obtain key msk shift where l: "pattern_loop ?cs (0, 0, 0) = Inr (key, msk, shift)"
    and inv: "pattern_inv ?cs (key, msk, shift)"
    using pattern_inv_loop by fastforce
  have len: "length pat < 64" "length ?cs < 64"
    using assms by (auto simp: pattern_wf_def pattern_chars_def intro: le_less_trans [OF length_filter_le])
  have d: "pattern_decode pat = Inr (drop_bit shift key, drop_bit shift msk, shift)"
    using len l by (simp add: pattern_decode_def pattern_loop_blanks [of pat])
  have b: "bit (ucast inst :: u64) i = bit inst i" if "i < 64" for i
    using that by (auto simp: bit_simps dest: bit_imp_le_length)
  have k: "bit key i \<longleftrightarrow> i < length ?cs \<and> rev ?cs ! i = CHR ''1''"
    and m: "bit msk i \<longleftrightarrow> i < length ?cs \<and> rev ?cs ! i \<noteq> CHR ''?''" if "i < 64" for i
    using inv that by (simp_all add: pattern_inv_def)
  have q: "rev ?cs ! i = CHR ''?''" if "i < shift" for i
    using inv that by (simp add: pattern_inv_def)
  have ag: "pattern_agrees ?cs inst \<longleftrightarrow> (\<forall>i < length ?cs. char_agrees (rev ?cs ! i) (bit inst i))"
    by (simp add: pattern_agrees_def rev_nth)
  have one: "(bit inst i \<and> bit msk i \<longleftrightarrow> bit key i) \<longleftrightarrow>
      (i < length ?cs \<longrightarrow> char_agrees (rev ?cs ! i) (bit inst i))" if "i < 64" for i
    using that by (auto simp: k m char_agrees_def)
  have "(\<forall>i. shift \<le> i \<longrightarrow> i < 64 \<longrightarrow> (bit inst i \<and> bit msk i \<longleftrightarrow> bit key i)) \<longleftrightarrow>
        (\<forall>i. shift \<le> i \<longrightarrow> i < 64 \<longrightarrow> i < length ?cs \<longrightarrow> char_agrees (rev ?cs ! i) (bit inst i))"
    using one by blast
  also have "\<dots> \<longleftrightarrow> pattern_agrees ?cs inst"
  proof -
    have "char_agrees (rev ?cs ! i) (bit inst i)" if "i < shift" for i
      using q [OF that] by (simp add: char_agrees_def)
    moreover have "i < 64" if "i < length ?cs" for i
      using that len(2) by simp
    ultimately show ?thesis
      unfolding ag by (meson not_le)
  qed
  finally show ?thesis
    using b by (simp add: instpat_match_def d masked_eq_iff)
qed

end
