(* ===== verification/Riscv32.thy ===== *)
theory Riscv32
  imports Paddr Decode
begin

text \<open>
  The riscv32 guest: \<open>nemu/src/isa/riscv32/inst.c\<close>, \<open>reg.c\<close>, \<open>init.c\<close>,
  \<open>system/intr.c\<close>, \<open>include/isa-def.h\<close>, \<open>local-include/reg.h\<close>, and
  \<open>nemu/src/engine/interpreter/hostcall.c\<close>.  The machine state \<open>nemu\<close> adds the
  processor to memory and devices.  \<open>CONFIG_FTRACE\<close>, \<open>CONFIG_ETRACE\<close> and
  \<open>CONFIG_MTRACE\<close> (tracing output) are taken as undefined.

  A C expression of a signed type is evaluated on two's complement words.  A division
  the host processor traps on (by zero, or the least integer by \<open>-1\<close>) is
  \<open>Div_trap\<close>.
\<close>

subsection \<open>State\<close>

record cpu_state =
  gpr :: "u32 list"
  pc :: u32
  csr :: "u32 list"

record nemu = mem +
  cpu :: cpu_state

definition nr_gpr :: "config \<Rightarrow> nat" where
  "nr_gpr c = (if CONFIG_RVE c then 16 else 32)"

definition csr_num :: nat where "csr_num = 4"

definition mstatus :: nat where "mstatus = 0"
definition mtvec :: nat where "mtvec = 1"
definition mepc :: nat where "mepc = 2"
definition mcause :: nat where "mcause = 3"

record Decode =
  d_pc :: u32
  d_snpc :: u32
  d_dnpc :: u32
  d_inst :: u32

subsection \<open>reg.h\<close>

definition check_reg_idx :: "config \<Rightarrow> nat \<Rightarrow> nat res" where
  "check_reg_idx c idx =
     (if CONFIG_RT_CHECK c \<and> \<not> idx < nr_gpr c then Inl Assertion else Inr idx)"

definition gpr_get :: "config \<Rightarrow> nat \<Rightarrow> 'a nemu_scheme \<Rightarrow> u32 res" where
  "gpr_get c idx s =
     bind_res (check_reg_idx c idx) (\<lambda>i.
     if i < length (gpr (cpu s)) then Inr (gpr (cpu s) ! i) else Inl Out_of_bounds)"

definition gpr_set :: "config \<Rightarrow> nat \<Rightarrow> u32 \<Rightarrow> 'a nemu_scheme \<Rightarrow> 'a nemu_scheme res" where
  "gpr_set c idx v s =
     bind_res (check_reg_idx c idx) (\<lambda>i.
     if i < length (gpr (cpu s))
     then Inr (s\<lparr>cpu := (cpu s)\<lparr>gpr := (gpr (cpu s))[i := v]\<rparr>\<rparr>)
     else Inl Out_of_bounds)"

definition csr_addr2idx :: "u32 \<Rightarrow> nat res" where
  "csr_addr2idx a =
     (if a = 0x300 then Inr mstatus
      else if a = 0x305 then Inr mtvec
      else if a = 0x341 then Inr mepc
      else if a = 0x342 then Inr mcause
      else Inl (Panic ''Invalid CSR address''))"

definition check_csr_idx :: "config \<Rightarrow> nat \<Rightarrow> nat res" where
  "check_csr_idx c idx =
     (if CONFIG_RT_CHECK c \<and> \<not> idx < csr_num then Inl Assertion else Inr idx)"

definition csr_get :: "config \<Rightarrow> u32 \<Rightarrow> 'a nemu_scheme \<Rightarrow> u32 res" where
  "csr_get c a s =
     bind_res (csr_addr2idx a) (\<lambda>idx.
     bind_res (check_csr_idx c idx) (\<lambda>i.
     if i < length (csr (cpu s)) then Inr (csr (cpu s) ! i) else Inl Out_of_bounds))"

definition csr_put :: "nat \<Rightarrow> u32 \<Rightarrow> 'a nemu_scheme \<Rightarrow> 'a nemu_scheme" where
  "csr_put i v s = s\<lparr>cpu := (cpu s)\<lparr>csr := (csr (cpu s))[i := v]\<rparr>\<rparr>"

definition csr_set :: "config \<Rightarrow> u32 \<Rightarrow> u32 \<Rightarrow> 'a nemu_scheme \<Rightarrow> 'a nemu_scheme res" where
  "csr_set c a v s =
     bind_res (csr_addr2idx a) (\<lambda>idx.
     bind_res (check_csr_idx c idx) (\<lambda>i.
     if i < length (csr (cpu s)) then Inr (csr_put i v s) else Inl Out_of_bounds))"

subsection \<open>reg.c\<close>

definition regs :: "string list" where
  "regs =
    [''$0'', ''ra'', ''sp'', ''gp'', ''tp'', ''t0'', ''t1'', ''t2'',
     ''s0'', ''s1'', ''a0'', ''a1'', ''a2'', ''a3'', ''a4'', ''a5'',
     ''a6'', ''a7'', ''s2'', ''s3'', ''s4'', ''s5'', ''s6'', ''s7'',
     ''s8'', ''s9'', ''s10'', ''s11'', ''t3'', ''t4'', ''t5'', ''t6'']"

text \<open>The loop over the registers: the value of the first register of that name among
  the first \<open>ARRLEN(cpu.gpr)\<close> names.\<close>

fun find_reg :: "string \<Rightarrow> string list \<Rightarrow> u32 list \<Rightarrow> u32 option" where
  "find_reg nm (r # rs) (v # vs) = (if nm = r then Some v else find_reg nm rs vs)"
| "find_reg nm _ _ = None"

text \<open>The value and the flag \<open>*success\<close>.\<close>

definition isa_reg_str2val :: "string \<Rightarrow> 'a nemu_scheme \<Rightarrow> u32 \<times> bool" where
  "isa_reg_str2val str s =
     (let nm = (case str of ch # r \<Rightarrow> if ch = CHR ''$'' then r else str | [] \<Rightarrow> [])
      in case find_reg nm regs (gpr (cpu s)) of
           Some v \<Rightarrow> (v, True)
         | None \<Rightarrow> if nm = ''pc'' then (pc (cpu s), True) else (0, False))"

subsection \<open>hostcall.c and intr.c\<close>

definition set_nemu_state ::
  "config \<Rightarrow> run_state \<Rightarrow> u32 \<Rightarrow> u32 \<Rightarrow> 'a nemu_scheme \<Rightarrow> 'a nemu_scheme" where
  "set_nemu_state c st p ret s =
     (difftest_skip_ref c s)\<lparr>nemu_state := \<lparr>st_state = st, halt_pc = p, halt_ret = ret\<rparr>\<rparr>"

definition invalid_inst :: "config \<Rightarrow> u32 \<Rightarrow> 'a nemu_scheme \<Rightarrow> 'a nemu_scheme res" where
  "invalid_inst c thispc s =
     bind_res (inst_fetch c thispc 4 s) (\<lambda>(_, pc1, s1).
     bind_res (inst_fetch c pc1 4 s1) (\<lambda>(_, _, s2).
     Inr (set_nemu_state c NEMU_ABORT thispc (-1) s2)))"

definition isa_raise_intr :: "u32 \<Rightarrow> u32 \<Rightarrow> 'a nemu_scheme \<Rightarrow> u32 \<times> 'a nemu_scheme" where
  "isa_raise_intr NO epc s =
     (let s1 = csr_put mstatus 0x1800 (csr_put mepc epc (csr_put mcause NO s))
      in (csr (cpu s1) ! mtvec, s1))"

definition isa_query_intr :: u32 where
  "isa_query_intr = -1"

subsection \<open>Operands\<close>

datatype itype = TYPE_I | TYPE_U | TYPE_S | TYPE_J | TYPE_R | TYPE_B | TYPE_N

definition immI :: "u32 \<Rightarrow> u32" where
  "immI i = ucast (SEXT (BITS i 31 20) 12)"

definition immU :: "u32 \<Rightarrow> u32" where
  "immU i = ucast (push_bit 12 (SEXT (BITS i 31 12) 20))"

definition immS :: "u32 \<Rightarrow> u32" where
  "immS i = ucast (push_bit 5 (SEXT (BITS i 31 25) 7) OR BITS i 11 7)"

definition immJ :: "u32 \<Rightarrow> u32" where
  "immJ i = ucast (push_bit 20 (SEXT (BITS i 31 31) 1) OR push_bit 12 (BITS i 19 12) OR
                   push_bit 11 (BITS i 20 20) OR push_bit 1 (BITS i 30 21))"

definition immB :: "u32 \<Rightarrow> u32" where
  "immB i = ucast (push_bit 12 (SEXT (BITS i 31 31) 1) OR push_bit 11 (BITS i 7 7) OR
                   push_bit 5 (BITS i 30 25) OR push_bit 1 (BITS i 11 8))"

text \<open>\<open>rd\<close>, \<open>src1\<close>, \<open>src2\<close> and \<open>imm\<close>; what a type does not set keeps the zero it
  was initialised with.\<close>

definition decode_operand ::
  "config \<Rightarrow> u32 \<Rightarrow> itype \<Rightarrow> 'a nemu_scheme \<Rightarrow> (nat \<times> u32 \<times> u32 \<times> u32) res" where
  "decode_operand c i ty s =
     (let rs1 = unat (BITS i 19 15); rs2 = unat (BITS i 24 20); rd = unat (BITS i 11 7) in
      case ty of
        TYPE_I \<Rightarrow> bind_res (gpr_get c rs1 s) (\<lambda>a. Inr (rd, a, 0, immI i))
      | TYPE_U \<Rightarrow> Inr (rd, 0, 0, immU i)
      | TYPE_S \<Rightarrow> bind_res (gpr_get c rs1 s) (\<lambda>a. bind_res (gpr_get c rs2 s) (\<lambda>b.
                   Inr (rd, a, b, immS i)))
      | TYPE_J \<Rightarrow> Inr (rd, 0, 0, immJ i)
      | TYPE_R \<Rightarrow> bind_res (gpr_get c rs1 s) (\<lambda>a. bind_res (gpr_get c rs2 s) (\<lambda>b.
                   Inr (rd, a, b, 0)))
      | TYPE_B \<Rightarrow> bind_res (gpr_get c rs1 s) (\<lambda>a. bind_res (gpr_get c rs2 s) (\<lambda>b.
                   Inr (rd, a, b, immB i)))
      | TYPE_N \<Rightarrow> Inr (rd, 0, 0, 0))"

subsection \<open>Instructions\<close>

text \<open>The names of the \<open>INSTPAT\<close> lines.  The line for or-immediate carries the name
  \<open>xori\<close> a second time in the source; it is \<open>I_ori\<close> here.\<close>

datatype opname =
    I_lui | I_auipc | I_jal | I_jalr
  | I_beq | I_bne | I_blt | I_bge | I_bltu | I_bgeu
  | I_lb | I_lh | I_lw | I_lbu | I_lhu | I_sb | I_sh | I_sw
  | I_addi | I_slti | I_sltiu | I_xori | I_ori | I_andi | I_slli | I_srli | I_srai
  | I_add | I_sub | I_sll | I_slt | I_sltu | I_xor | I_srl | I_sra | I_or | I_and
  | I_mul | I_mulh | I_mulhu | I_div | I_divu | I_rem | I_remu
  | I_csrrw | I_csrrs | I_ecall | I_ebreak | I_mret | I_inv

definition instpat_table :: "(string \<times> (opname \<times> itype)) list" where
  "instpat_table =
    [(''??????? ????? ????? ??? ????? 01101 11'', (I_lui, TYPE_U)),
     (''??????? ????? ????? ??? ????? 00101 11'', (I_auipc, TYPE_U)),
     (''??????? ????? ????? ??? ????? 11011 11'', (I_jal, TYPE_J)),
     (''??????? ????? ????? 000 ????? 11001 11'', (I_jalr, TYPE_I)),
     (''??????? ????? ????? 000 ????? 11000 11'', (I_beq, TYPE_B)),
     (''??????? ????? ????? 001 ????? 11000 11'', (I_bne, TYPE_B)),
     (''??????? ????? ????? 100 ????? 11000 11'', (I_blt, TYPE_B)),
     (''??????? ????? ????? 101 ????? 11000 11'', (I_bge, TYPE_B)),
     (''??????? ????? ????? 110 ????? 11000 11'', (I_bltu, TYPE_B)),
     (''??????? ????? ????? 111 ????? 11000 11'', (I_bgeu, TYPE_B)),
     (''??????? ????? ????? 000 ????? 00000 11'', (I_lb, TYPE_I)),
     (''??????? ????? ????? 001 ????? 00000 11'', (I_lh, TYPE_I)),
     (''??????? ????? ????? 010 ????? 00000 11'', (I_lw, TYPE_I)),
     (''??????? ????? ????? 100 ????? 00000 11'', (I_lbu, TYPE_I)),
     (''??????? ????? ????? 101 ????? 00000 11'', (I_lhu, TYPE_I)),
     (''??????? ????? ????? 000 ????? 01000 11'', (I_sb, TYPE_S)),
     (''??????? ????? ????? 001 ????? 01000 11'', (I_sh, TYPE_S)),
     (''??????? ????? ????? 010 ????? 01000 11'', (I_sw, TYPE_S)),
     (''??????? ????? ????? 000 ????? 00100 11'', (I_addi, TYPE_I)),
     (''??????? ????? ????? 010 ????? 00100 11'', (I_slti, TYPE_I)),
     (''??????? ????? ????? 011 ????? 00100 11'', (I_sltiu, TYPE_I)),
     (''??????? ????? ????? 100 ????? 00100 11'', (I_xori, TYPE_I)),
     (''??????? ????? ????? 110 ????? 00100 11'', (I_ori, TYPE_I)),
     (''??????? ????? ????? 111 ????? 00100 11'', (I_andi, TYPE_I)),
     (''0000000 ????? ????? 001 ????? 00100 11'', (I_slli, TYPE_I)),
     (''0000000 ????? ????? 101 ????? 00100 11'', (I_srli, TYPE_I)),
     (''0100000 ????? ????? 101 ????? 00100 11'', (I_srai, TYPE_I)),
     (''0000000 ????? ????? 000 ????? 01100 11'', (I_add, TYPE_R)),
     (''0100000 ????? ????? 000 ????? 01100 11'', (I_sub, TYPE_R)),
     (''0000000 ????? ????? 001 ????? 01100 11'', (I_sll, TYPE_R)),
     (''0000000 ????? ????? 010 ????? 01100 11'', (I_slt, TYPE_R)),
     (''0000000 ????? ????? 011 ????? 01100 11'', (I_sltu, TYPE_R)),
     (''0000000 ????? ????? 100 ????? 01100 11'', (I_xor, TYPE_R)),
     (''0000000 ????? ????? 101 ????? 01100 11'', (I_srl, TYPE_R)),
     (''0100000 ????? ????? 101 ????? 01100 11'', (I_sra, TYPE_R)),
     (''0000000 ????? ????? 110 ????? 01100 11'', (I_or, TYPE_R)),
     (''0000000 ????? ????? 111 ????? 01100 11'', (I_and, TYPE_R)),
     (''0000001 ????? ????? 000 ????? 01100 11'', (I_mul, TYPE_R)),
     (''0000001 ????? ????? 001 ????? 01100 11'', (I_mulh, TYPE_R)),
     (''0000001 ????? ????? 011 ????? 01100 11'', (I_mulhu, TYPE_R)),
     (''0000001 ????? ????? 100 ????? 01100 11'', (I_div, TYPE_R)),
     (''0000001 ????? ????? 101 ????? 01100 11'', (I_divu, TYPE_R)),
     (''0000001 ????? ????? 110 ????? 01100 11'', (I_rem, TYPE_R)),
     (''0000001 ????? ????? 111 ????? 01100 11'', (I_remu, TYPE_R)),
     (''??????? ????? ????? 001 ????? 11100 11'', (I_csrrw, TYPE_I)),
     (''??????? ????? ????? 010 ????? 11100 11'', (I_csrrs, TYPE_I)),
     (''0000000 00000 00000 000 00000 11100 11'', (I_ecall, TYPE_N)),
     (''0000000 00001 00000 000 00000 11100 11'', (I_ebreak, TYPE_N)),
     (''0011000 00010 00000 000 00000 11100 11'', (I_mret, TYPE_R)),
     (''??????? ????? ????? ??? ????? ????? ??'', (I_inv, TYPE_N))]"

definition min_int :: u32 where
  "min_int = 0x80000000"

definition sdiv_word :: "u32 \<Rightarrow> u32 \<Rightarrow> u32 res" where
  "sdiv_word a b =
     (if b = 0 \<or> a = min_int \<and> b = -1 then Inl Div_trap
      else Inr (word_of_int (sint a sdiv sint b)))"

definition srem_word :: "u32 \<Rightarrow> u32 \<Rightarrow> u32 res" where
  "srem_word a b =
     (if b = 0 \<or> a = min_int \<and> b = -1 then Inl Div_trap
      else Inr (word_of_int (sint a smod sint b)))"

definition udiv_word :: "u32 \<Rightarrow> u32 \<Rightarrow> u32 res" where
  "udiv_word a b = (if b = 0 then Inl Div_trap else Inr (a div b))"

definition urem_word :: "u32 \<Rightarrow> u32 \<Rightarrow> u32 res" where
  "urem_word a b = (if b = 0 then Inl Div_trap else Inr (a mod b))"

text \<open>The 64-bit products of \<open>mulh\<close> and \<open>mulhu\<close>.  Both are computed in \<open>int64_t\<close>, where
  the product of two large unsigned numbers overflows.\<close>

definition mulh_word :: "u32 \<Rightarrow> u32 \<Rightarrow> u32" where
  "mulh_word a b = ucast (signed_drop_bit 32 ((scast a :: u64) * scast b))"

definition mulhu_word :: "u32 \<Rightarrow> u32 \<Rightarrow> u32 res" where
  "mulhu_word a b =
     (if 2 ^ 63 \<le> uint a * uint b then Inl Signed_overflow
      else Inr (ucast (signed_drop_bit 32 ((ucast a :: u64) * ucast b))))"

text \<open>\<open>branch\<close>: the common form of the six conditional jumps.\<close>

definition branch :: "bool \<Rightarrow> u32 \<Rightarrow> Decode \<Rightarrow> Decode" where
  "branch b imm d = (if b then d\<lparr>d_dnpc := d_pc d + imm\<rparr> else d)"

text \<open>\<open>R(rd) = v\<close> and \<open>R(rd) = f(Mr(addr, len))\<close>.\<close>

definition wb ::
  "config \<Rightarrow> nat \<Rightarrow> u32 \<Rightarrow> Decode \<Rightarrow> 'a nemu_scheme \<Rightarrow> (Decode \<times> 'a nemu_scheme) res" where
  "wb c rd v d s = bind_res (gpr_set c rd v s) (\<lambda>s'. Inr (d, s'))"

definition load_op ::
  "config \<Rightarrow> nat \<Rightarrow> u32 \<Rightarrow> int \<Rightarrow> (u32 \<Rightarrow> u32) \<Rightarrow> Decode \<Rightarrow> 'a nemu_scheme \<Rightarrow>
   (Decode \<times> 'a nemu_scheme) res" where
  "load_op c rd a len f d s = bind_res (vaddr_read c a len s) (\<lambda>(v, s'). wb c rd (f v) d s')"

definition store_op ::
  "config \<Rightarrow> u32 \<Rightarrow> int \<Rightarrow> u32 \<Rightarrow> Decode \<Rightarrow> 'a nemu_scheme \<Rightarrow> (Decode \<times> 'a nemu_scheme) res" where
  "store_op c a len v d s = bind_res (vaddr_write c a len v s) (\<lambda>s'. Inr (d, s'))"

definition ECALL :: "config \<Rightarrow> Decode \<Rightarrow> 'a nemu_scheme \<Rightarrow> Decode \<times> 'a nemu_scheme" where
  "ECALL c d s =
     (case isa_raise_intr (fst (isa_reg_str2val (if CONFIG_RVE c then ''a5'' else ''a7'') s))
             (d_pc d) s of
        (npc, s') \<Rightarrow> (d\<lparr>d_dnpc := npc\<rparr>, s'))"

definition MRET :: "Decode \<Rightarrow> 'a nemu_scheme \<Rightarrow> Decode \<times> 'a nemu_scheme" where
  "MRET d s =
     (let s1 = csr_put mstatus 0x80 s in (d\<lparr>d_dnpc := csr (cpu s1) ! mepc\<rparr>, s1))"

definition SEXT_load :: "nat \<Rightarrow> u32 \<Rightarrow> u32" where
  "SEXT_load n v = ucast (SEXT (ucast v) n)"

text \<open>The bodies of the \<open>INSTPAT\<close> lines.\<close>

fun exec_body ::
  "config \<Rightarrow> opname \<Rightarrow> nat \<Rightarrow> u32 \<Rightarrow> u32 \<Rightarrow> u32 \<Rightarrow> Decode \<Rightarrow> 'a nemu_scheme \<Rightarrow>
   (Decode \<times> 'a nemu_scheme) res" where
  "exec_body c I_lui rd src1 src2 imm d s = wb c rd imm d s"
| "exec_body c I_auipc rd src1 src2 imm d s = wb c rd (d_pc d + imm) d s"
| "exec_body c I_jal rd src1 src2 imm d s = wb c rd (d_snpc d) (d\<lparr>d_dnpc := d_pc d + imm\<rparr>) s"
| "exec_body c I_jalr rd src1 src2 imm d s =
     wb c rd (d_snpc d) (d\<lparr>d_dnpc := (src1 + imm) AND NOT 1\<rparr>) s"
| "exec_body c I_beq rd src1 src2 imm d s = Inr (branch (src1 = src2) imm d, s)"
| "exec_body c I_bne rd src1 src2 imm d s = Inr (branch (src1 \<noteq> src2) imm d, s)"
| "exec_body c I_blt rd src1 src2 imm d s = Inr (branch (sint src1 < sint src2) imm d, s)"
| "exec_body c I_bge rd src1 src2 imm d s = Inr (branch (sint src1 \<ge> sint src2) imm d, s)"
| "exec_body c I_bltu rd src1 src2 imm d s = Inr (branch (src1 < src2) imm d, s)"
| "exec_body c I_bgeu rd src1 src2 imm d s = Inr (branch (src1 \<ge> src2) imm d, s)"
| "exec_body c I_lb rd src1 src2 imm d s = load_op c rd (src1 + imm) 1 (SEXT_load 8) d s"
| "exec_body c I_lh rd src1 src2 imm d s = load_op c rd (src1 + imm) 2 (SEXT_load 16) d s"
| "exec_body c I_lw rd src1 src2 imm d s = load_op c rd (src1 + imm) 4 id d s"
| "exec_body c I_lbu rd src1 src2 imm d s = load_op c rd (src1 + imm) 1 id d s"
| "exec_body c I_lhu rd src1 src2 imm d s = load_op c rd (src1 + imm) 2 id d s"
| "exec_body c I_sb rd src1 src2 imm d s = store_op c (src1 + imm) 1 src2 d s"
| "exec_body c I_sh rd src1 src2 imm d s = store_op c (src1 + imm) 2 src2 d s"
| "exec_body c I_sw rd src1 src2 imm d s = store_op c (src1 + imm) 4 src2 d s"
| "exec_body c I_addi rd src1 src2 imm d s = wb c rd (src1 + imm) d s"
| "exec_body c I_slti rd src1 src2 imm d s = wb c rd (of_truth (sint src1 < sint imm)) d s"
| "exec_body c I_sltiu rd src1 src2 imm d s = wb c rd (of_truth (src1 < imm)) d s"
| "exec_body c I_xori rd src1 src2 imm d s = wb c rd (src1 XOR imm) d s"
| "exec_body c I_ori rd src1 src2 imm d s = wb c rd (src1 OR imm) d s"
| "exec_body c I_andi rd src1 src2 imm d s = wb c rd (src1 AND imm) d s"
| "exec_body c I_slli rd src1 src2 imm d s = wb c rd (push_bit (unat (imm AND 0x1f)) src1) d s"
| "exec_body c I_srli rd src1 src2 imm d s = wb c rd (drop_bit (unat (imm AND 0x1f)) src1) d s"
| "exec_body c I_srai rd src1 src2 imm d s =
     wb c rd (signed_drop_bit (unat (imm AND 0x1f)) src1) d s"
| "exec_body c I_add rd src1 src2 imm d s = wb c rd (src1 + src2) d s"
| "exec_body c I_sub rd src1 src2 imm d s = wb c rd (src1 - src2) d s"
| "exec_body c I_sll rd src1 src2 imm d s = wb c rd (push_bit (unat (src2 AND 0x1F)) src1) d s"
| "exec_body c I_slt rd src1 src2 imm d s = wb c rd (of_truth (sint src1 < sint src2)) d s"
| "exec_body c I_sltu rd src1 src2 imm d s = wb c rd (of_truth (src1 < src2)) d s"
| "exec_body c I_xor rd src1 src2 imm d s = wb c rd (src1 XOR src2) d s"
| "exec_body c I_srl rd src1 src2 imm d s = wb c rd (drop_bit (unat (src2 AND 0x1F)) src1) d s"
| "exec_body c I_sra rd src1 src2 imm d s =
     wb c rd (signed_drop_bit (unat (src2 AND 0x1F)) src1) d s"
| "exec_body c I_or rd src1 src2 imm d s = wb c rd (src1 OR src2) d s"
| "exec_body c I_and rd src1 src2 imm d s = wb c rd (src1 AND src2) d s"
| "exec_body c I_mul rd src1 src2 imm d s = wb c rd (src1 * src2) d s"
| "exec_body c I_mulh rd src1 src2 imm d s = wb c rd (mulh_word src1 src2) d s"
| "exec_body c I_mulhu rd src1 src2 imm d s = bind_res (mulhu_word src1 src2) (\<lambda>v. wb c rd v d s)"
| "exec_body c I_div rd src1 src2 imm d s = bind_res (sdiv_word src1 src2) (\<lambda>v. wb c rd v d s)"
| "exec_body c I_divu rd src1 src2 imm d s = bind_res (udiv_word src1 src2) (\<lambda>v. wb c rd v d s)"
| "exec_body c I_rem rd src1 src2 imm d s = bind_res (srem_word src1 src2) (\<lambda>v. wb c rd v d s)"
| "exec_body c I_remu rd src1 src2 imm d s = bind_res (urem_word src1 src2) (\<lambda>v. wb c rd v d s)"
| "exec_body c I_csrrw rd src1 src2 imm d s =
     bind_res (csr_get c imm s) (\<lambda>v.
     bind_res (gpr_set c rd v s) (\<lambda>s1.
     bind_res (csr_set c imm src1 s1) (\<lambda>s2. Inr (d, s2))))"
| "exec_body c I_csrrs rd src1 src2 imm d s =
     bind_res (csr_get c imm s) (\<lambda>v.
     bind_res (gpr_set c rd v s) (\<lambda>s1.
     bind_res (csr_get c imm s1) (\<lambda>w.
     bind_res (csr_set c imm (w OR src1) s1) (\<lambda>s2. Inr (d, s2)))))"
| "exec_body c I_ecall rd src1 src2 imm d s = Inr (ECALL c d s)"
| "exec_body c I_ebreak rd src1 src2 imm d s =
     bind_res (gpr_get c 10 s) (\<lambda>v. Inr (d, set_nemu_state c NEMU_END (d_pc d) v s))"
| "exec_body c I_mret rd src1 src2 imm d s = Inr (MRET d s)"
| "exec_body c I_inv rd src1 src2 imm d s =
     bind_res (invalid_inst c (d_pc d) s) (\<lambda>s1. Inr (d, s1))"

definition decode_exec ::
  "config \<Rightarrow> Decode \<Rightarrow> 'a nemu_scheme \<Rightarrow> (Decode \<times> 'a nemu_scheme) res" where
  "decode_exec c d0 s =
     (let d = d0\<lparr>d_dnpc := d_snpc d0\<rparr> in
     bind_res (instpat_dispatch instpat_table (d_inst d)) (\<lambda>r.
     bind_res
       (case r of
          None \<Rightarrow> Inr (d, s)
        | Some (nm, ty) \<Rightarrow>
            bind_res (decode_operand c (d_inst d) ty s) (\<lambda>(rd, src1, src2, imm).
            exec_body c nm rd src1 src2 imm d s))
       (\<lambda>(d1, s1). bind_res (gpr_set c 0 0 s1) (\<lambda>s2. Inr (d1, s2)))))"

definition isa_exec_once ::
  "config \<Rightarrow> Decode \<Rightarrow> 'a nemu_scheme \<Rightarrow> (Decode \<times> 'a nemu_scheme) res" where
  "isa_exec_once c d s =
     bind_res (inst_fetch c (d_snpc d) 4 s) (\<lambda>(inst, snpc, s1).
     decode_exec c (d\<lparr>d_inst := inst, d_snpc := snpc\<rparr>) s1)"

subsection \<open>init.c\<close>

definition img :: "u32 list" where
  "img = [0x00000297, 0x00028823, 0x0102c503, 0x00100073, 0xdeadbeef]"

text \<open>\<open>memcpy\<close> of 32-bit values into a host object.\<close>

fun copy_words :: "u32 list \<Rightarrow> int \<Rightarrow> bytes \<Rightarrow> bytes" where
  "copy_words [] a m = m"
| "copy_words (w # ws) a m =
     copy_words ws (a + 4)
       (m(a := byte_of w 0, a + 1 := byte_of w 1, a + 2 := byte_of w 2, a + 3 := byte_of w 3))"

definition restart :: "config \<Rightarrow> 'a nemu_scheme \<Rightarrow> 'a nemu_scheme" where
  "restart c s =
     s\<lparr>cpu := (cpu s)\<lparr>pc := RESET_VECTOR c, gpr := (gpr (cpu s))[0 := 0],
                       csr := (csr (cpu s))[mstatus := 0x1800]\<rparr>\<rparr>"

definition init_isa :: "config \<Rightarrow> 'a nemu_scheme \<Rightarrow> 'a nemu_scheme res" where
  "init_isa c s =
     bind_res (assert_res Out_of_bounds
        (in_object (uint (CONFIG_MSIZE c)) (guest_to_host c (RESET_VECTOR c)) (4 * int (length img))))
       (\<lambda>_. Inr (restart c (s\<lparr>pmem := copy_words img (guest_to_host c (RESET_VECTOR c)) (pmem s)\<rparr>)))"

subsection \<open>Facts: shape of the register file\<close>

lemma dev_more_nemu:
  "dev.more s' = dev.more s \<Longrightarrow> pmem s' = pmem s \<and> cpu s' = cpu s \<and> nemu.more s' = nemu.more s"
  by (cases s; cases s') simp

lemma mem_more_nemu: "mem.more s' = mem.more s \<Longrightarrow> cpu s' = cpu s \<and> nemu.more s' = nemu.more s"
  by (cases s; cases s') simp

lemma vaddr_read_cpu: "vaddr_read c a len s = Inr (v, s') \<Longrightarrow> cpu s' = cpu s"
  using paddr_read_pmem_frame dev_more_nemu by (fastforce simp: vaddr_read_def)

lemma inst_fetch_cpu: "inst_fetch c p len s = Inr (i, p', s') \<Longrightarrow> cpu s' = cpu s"
  by (auto simp: inst_fetch_def vaddr_ifetch_def vaddr_read_def [symmetric] bind_res_eq_Inr_iff
      dest: vaddr_read_cpu)

lemma vaddr_write_cpu: "vaddr_write c a len d s = Inr s' \<Longrightarrow> cpu s' = cpu s"
  using paddr_write_more mem_more_nemu by (fastforce simp: vaddr_write_def)

lemma set_nemu_state_cpu [simp]: "cpu (set_nemu_state c st p r s) = cpu s"
  by (simp add: set_nemu_state_def difftest_skip_ref_def)

lemma invalid_inst_cpu: "invalid_inst c p s = Inr s' \<Longrightarrow> cpu s' = cpu s"
  by (auto simp: invalid_inst_def bind_res_eq_Inr_iff dest!: inst_fetch_cpu)

text \<open>The register file has its full length, and so have the control registers.\<close>

definition cpu_shape :: "config \<Rightarrow> cpu_state \<Rightarrow> bool" where
  "cpu_shape c r \<longleftrightarrow> length (gpr r) = nr_gpr c \<and> length (csr r) = csr_num"

definition cpu_wf :: "config \<Rightarrow> cpu_state \<Rightarrow> bool" where
  "cpu_wf c r \<longleftrightarrow> cpu_shape c r \<and> gpr r ! 0 = 0"

lemma gpr_set_shape: "gpr_set c i v s = Inr s' \<Longrightarrow> cpu_shape c (cpu s) \<Longrightarrow> cpu_shape c (cpu s')"
  by (auto simp: gpr_set_def cpu_shape_def bind_res_eq_Inr_iff split: if_splits)

lemma csr_put_shape: "cpu_shape c (cpu (csr_put i v s)) = cpu_shape c (cpu s)"
  by (simp add: csr_put_def cpu_shape_def)

lemma csr_set_shape: "csr_set c a v s = Inr s' \<Longrightarrow> cpu_shape c (cpu s) \<Longrightarrow> cpu_shape c (cpu s')"
  by (auto simp: csr_set_def csr_put_shape bind_res_eq_Inr_iff split: if_splits)

lemma wb_shape: "wb c rd v d s = Inr (d', s') \<Longrightarrow> cpu_shape c (cpu s) \<Longrightarrow> cpu_shape c (cpu s')"
  by (auto simp: wb_def bind_res_eq_Inr_iff dest: gpr_set_shape)

lemma load_op_shape:
  "load_op c rd a len f d s = Inr (d', s') \<Longrightarrow> cpu_shape c (cpu s) \<Longrightarrow> cpu_shape c (cpu s')"
  by (auto simp: load_op_def bind_res_eq_Inr_iff dest!: vaddr_read_cpu dest: wb_shape)

lemma store_op_shape:
  "store_op c a len v d s = Inr (d', s') \<Longrightarrow> cpu_shape c (cpu s) \<Longrightarrow> cpu_shape c (cpu s')"
  by (auto simp: store_op_def bind_res_eq_Inr_iff dest!: vaddr_write_cpu)

lemma ECALL_shape: "ECALL c d s = (d', s') \<Longrightarrow> cpu_shape c (cpu s) \<Longrightarrow> cpu_shape c (cpu s')"
  by (auto simp: ECALL_def isa_raise_intr_def Let_def csr_put_shape split: prod.splits)

lemma MRET_shape: "MRET d s = (d', s') \<Longrightarrow> cpu_shape c (cpu s) \<Longrightarrow> cpu_shape c (cpu s')"
  by (auto simp: MRET_def Let_def csr_put_shape)

lemmas shape_intros =
  wb_shape load_op_shape store_op_shape ECALL_shape MRET_shape gpr_set_shape csr_set_shape

lemma exec_body_shape:
  "exec_body c nm rd a b imm d s = Inr (d', s') \<Longrightarrow> cpu_shape c (cpu s) \<Longrightarrow> cpu_shape c (cpu s')"
  by (cases nm) (auto simp: bind_res_eq_Inr_iff dest: shape_intros dest!: invalid_inst_cpu)

lemma decode_exec_wf:
  assumes "decode_exec c d s = Inr (d', s')" and "cpu_shape c (cpu s)"
  shows "cpu_wf c (cpu s')"
proof -
  from assms(1) obtain d1 s1 where g: "gpr_set c 0 0 s1 = Inr s'"
    and b: "s1 = s \<or> (\<exists>nm rd x y imm d0. exec_body c nm rd x y imm d0 s = Inr (d1, s1))"
    by (fastforce simp: decode_exec_def Let_def bind_res_eq_Inr_iff split: option.splits prod.splits)
  from b assms(2) have sh: "cpu_shape c (cpu s1)" by (auto dest: exec_body_shape)
  from g sh have "cpu_shape c (cpu s')" by (rule gpr_set_shape)
  moreover have "gpr (cpu s') ! 0 = 0"
    using g by (auto simp: gpr_set_def bind_res_eq_Inr_iff check_reg_idx_def split: if_splits)
  ultimately show ?thesis by (simp add: cpu_wf_def)
qed

lemma isa_exec_once_wf:
  assumes "isa_exec_once c d s = Inr (d', s')" and "cpu_shape c (cpu s)"
  shows "cpu_wf c (cpu s')"
  using assms by (auto simp: isa_exec_once_def bind_res_eq_Inr_iff dest!: inst_fetch_cpu
      intro: decode_exec_wf)

end
