(* ===== verification/Poweron.thy ===== *)
theory Poweron
  imports Riscv32
begin

text \<open>
  The statically initialised state of the emulator: every C object with static storage
  is zero, except \<open>nemu_state\<close>, which \<open>nemu/src/utils/state.c\<close> starts as
  \<open>NEMU_STOP\<close>, and the guest memory, which is taken to be filled with zeros.  The
  concrete examples of the development start from it.
\<close>

definition power_on :: nemu where
  "power_on =
    \<lparr> nemu_state = \<lparr>st_state = NEMU_STOP, halt_pc = 0, halt_ret = 0\<rparr>,
      is_skip_ref = False, skip_dut_nr_inst = 0,
      io_space = (\<lambda>_. 0), p_space = 0, mmio_maps = [], pio_maps = [],
      host_clock = (\<lambda>n. (0, of_nat n)), clock_reads = 0, boot_time = 0,
      rtc_port_base = None, alarm_idx = 0, serial_base = None, serial_out = [],
      keymap = (\<lambda>_. 0), key_queue = (\<lambda>_. 0), key_f = 0, key_r = 0,
      i8042_data_port_base = None, vgactl_port_base = None, vmem = None, frames = [],
      audio_base = None, sbuf = None, sbuf_count = 0,
      audio_spec = \<lparr>as_freq = 0, as_channels = 0, as_samples = 0, as_size = 0, as_callback = False\<rparr>,
      audio_opens = 0, sd_base = None, sd_fp = None, sd_blkcnt = 0, sd_blk_addr = 0, sd_addr = 0,
      sd_write_cmd = False, sd_read_ext_csd = False, device_last = 0, sdl_events = [],
      pmem = (\<lambda>_. 0),
      cpu = \<lparr>gpr = replicate 32 0, pc = 0, csr = replicate 4 0\<rparr> \<rparr>"

definition power_on_env :: host_env where
  "power_on_env = \<lparr>fresh_io = (\<lambda>_. 0), sd_image = None, SDL_SCANCODE = (\<lambda>_. 0)\<rparr>"

end
