(* ===== verification/Memory_Props.thy ===== *)
theory Memory_Props
  imports Poweron
begin

text \<open>
  Properties of guest memory, the memory-mapped I/O layer and the devices, each proved
  from the interpretations \<open>pm\<close>, \<open>devs\<close> and \<open>keyq\<close> of the theories below.
\<close>

subsection \<open>Guest memory\<close>

text \<open>C1: A store to guest memory whose bytes all lie in \<open>pmem\<close> succeeds, changes nothing
  but \<open>pmem\<close>, is read back truncated to its width, and leaves every load of other bytes
  unchanged.\<close>

theorem pmem_store_load:
  assumes "pmem_valid c a len"
  shows "\<exists>s'. paddr_write c a len d s = Inr s' \<and> s' = s\<lparr>pmem := pmem s'\<rparr> \<and>
    paddr_read c a len s' = Inr (take_bit (8 * nat len) d, s') \<and>
    (\<forall>b len'. pmem_valid c b len' \<and> (uint b + len' \<le> uint a \<or> uint a + len \<le> uint b) \<longrightarrow>
       map_sum id fst (paddr_read c b len' s') = map_sum id fst (paddr_read c b len' s))"
proof -
  obtain s' where s': "paddr_write c a len d s = Inr s'"
    using pm.wr_total [OF assms] by blast
  have "in_pmem c a" using assms by (simp add: pmem_valid_def)
  then show ?thesis
    using s' paddr_write_frame [OF _ s'] pm.rd_wr_same [OF assms s'] pm.rd_wr_other [OF assms _ s']
    by blast
qed

theorem pmem_store_load_witness:
  "\<exists>s'. paddr_write default_config 0x80000010 2 0xABCD1234 power_on = Inr s' \<and>
     paddr_read default_config 0x80000010 2 s' = Inr (0x1234, s')"
proof -
  have "pmem_valid default_config 0x80000010 2"
    by (simp add: pmem_valid_def pmem_fits_def access_len_def in_pmem_def guest_to_host_def)
  from pmem_store_load [OF this, where d = "0xABCD1234" and s = power_on] show ?thesis by auto
qed

text \<open>The bytes of a load, least significant first.\<close>

lemma byte_of_low:
  "byte_of (join2 b0 b1) k = (if k = 0 then b0 else if k = 1 then b1 else 0)"
  "byte_of (ucast b0) k = (if k = 0 then b0 else 0)"
  by (rule bit_word_eqI; cases k; auto simp: join2_def byte_of_def bit_simps dest: bit_imp_le_length)+

lemma less_4_iff: "k < 4 \<longleftrightarrow> k = 0 \<or> k = Suc 0 \<or> k = 2 \<or> k = 3" for k :: nat
  by auto

lemma host_read_bytes:
  assumes "access_len len" and "0 \<le> a"
  shows "(a + len \<le> n \<longrightarrow> (\<exists>v. host_read c n m a len = Inr v \<and>
      (\<forall>k<4. byte_of v k = (if int k < len then m (a + int k) else 0)))) \<and>
    (\<not> a + len \<le> n \<longrightarrow> host_read c n m a len = Inl Out_of_bounds)"
  using assms by (auto simp: host_read_def access_len_def in_object_def assert_res_def byte_of_low
      byte_of_join4 less_4_iff)

text \<open>C13: A load or store of 1, 2 or 4 bytes that starts in guest memory returns exactly when
  all of its bytes are in \<open>pmem\<close>; otherwise it runs past the array.  The load then returns those
  bytes, extended by zeros, and leaves the state alone, the store replaces just those bytes by the low bytes of its data.  In particular
  every naturally aligned access succeeds.\<close>

theorem pmem_access_exact:
  assumes "pmem_fits c" and "in_pmem c a" and "access_len len"
  shows "(if guest_to_host c a + len \<le> uint (CONFIG_MSIZE c)
          then (\<exists>v. paddr_read c a len s = Inr (v, s) \<and>
                 (\<forall>k<4. byte_of v k = (if int k < len then pmem s (guest_to_host c a + int k) else 0))) \<and>
               paddr_write c a len d s = Inr (s\<lparr>pmem := (\<lambda>x.
                 if guest_to_host c a \<le> x \<and> x < guest_to_host c a + len
                 then byte_of d (nat (x - guest_to_host c a)) else pmem s x)\<rparr>)
          else paddr_read c a len s = Inl Out_of_bounds \<and> paddr_write c a len d s = Inl Out_of_bounds) \<and>
         (4 dvd uint (CONFIG_MBASE c) \<and> 4 dvd uint (CONFIG_MSIZE c) \<and> len dvd uint a \<longrightarrow>
          guest_to_host c a + len \<le> uint (CONFIG_MSIZE c))"
proof -
  let ?a = "guest_to_host c a" and ?n = "uint (CONFIG_MSIZE c)"
  have nonneg: "0 \<le> ?a" using assms in_pmem_iff by blast
  have ld: "(?a + len \<le> ?n \<longrightarrow> (\<exists>v. paddr_read c a len s = Inr (v, s) \<and>
        (\<forall>k<4. byte_of v k = (if int k < len then pmem s (?a + int k) else 0)))) \<and>
      (\<not> ?a + len \<le> ?n \<longrightarrow> paddr_read c a len s = Inl Out_of_bounds)"
    using host_read_bytes [OF assms(3) nonneg, of ?n c "pmem s"] assms(2)
    by (auto simp: paddr_read_def pmem_read_def)
  have bytes: "host_write c ?n (pmem s) ?a len d = Inr (\<lambda>x. if ?a \<le> x \<and> x < ?a + len then byte_of d (nat (x - ?a)) else pmem s x)"
    if "?a + len \<le> ?n"
  proof -
    have "x = ?a \<or> x = ?a + 1 \<or> x = ?a + 2 \<or> x = ?a + 3" if "?a \<le> x" "x < ?a + 4" for x using that by auto
    moreover have "x = ?a \<or> x = ?a + 1" if "?a \<le> x" "x < ?a + 2" for x using that by auto
    ultimately show ?thesis
      using that nonneg assms(3) by (auto simp: host_write_def in_object_def access_len_def fun_eq_iff)
  qed
  have "host_write c ?n (pmem s) ?a len d = Inl Out_of_bounds" if "\<not> ?a + len \<le> ?n"
    using that assms(3) by (auto simp: host_write_def in_object_def access_len_def assert_res_def)
  then have st: "(?a + len \<le> ?n \<longrightarrow> paddr_write c a len d s = Inr (s\<lparr>pmem := (\<lambda>x.
        if ?a \<le> x \<and> x < ?a + len then byte_of d (nat (x - ?a)) else pmem s x)\<rparr>)) \<and>
      (\<not> ?a + len \<le> ?n \<longrightarrow> paddr_write c a len d s = Inl Out_of_bounds)"
    using bytes assms(2) by (simp add: paddr_write_def pmem_write_def)
  have "4 dvd uint (CONFIG_MBASE c) \<and> 4 dvd uint (CONFIG_MSIZE c) \<and> len dvd uint a \<longrightarrow> ?a + len \<le> ?n"
    using pmem_valid_aligned [OF assms(1,3,2)] by (simp add: pmem_valid_def)
  then show ?thesis using ld st by simp
qed

theorem pmem_access_exact_witness:
  "paddr_read default_config 0x87fffffd 4 power_on = Inl Out_of_bounds \<and>
   paddr_write default_config 0x87fffffd 4 7 power_on = Inl Out_of_bounds"
  using pmem_access_exact [where c = default_config and a = "0x87fffffd" and len = 4 and s = power_on and d = 7]
  by (simp add: pmem_fits_def in_pmem_def access_len_def guest_to_host_def)

subsection \<open>Memory-mapped I/O\<close>

text \<open>While the registered maps are disjoint and backed, an MMIO access reaches the one
  map that holds its address, whatever the order of registration, and an address in no
  map is refused.\<close>

theorem mmio_dispatch:
  assumes "io_wf s" and "1 \<le> len" and "len \<le> 8"
  shows "(\<forall>m \<in> set (mmio_maps s). map_inside m a \<longrightarrow>
           mmio_read c cb a len s = map_read c cb a len (Some m) (difftest_skip_ref c s) \<and>
           mmio_write c cb a len d s = map_write c cb a len d (Some m) (difftest_skip_ref c s)) \<and>
         ((\<forall>m \<in> set (mmio_maps s). \<not> map_inside m a) \<longrightarrow>
           mmio_read c cb a len s = Inl (Panic ''address is out of bound'') \<and>
           mmio_write c cb a len d s = Inl (Panic ''address is out of bound''))"
proof -
  have "maps_disjoint (mmio_maps s)" using assms by (simp add: io_wf_def)
  note one = fetch_mmio_map_unique [OF this]
  have none: "fetch_mmio_map c a s = (None, s)" if "\<forall>m \<in> set (mmio_maps s). \<not> map_inside m a"
    using that find_mapid_from_neg [of 0 "mmio_maps s" a]
    by (simp add: fetch_mmio_map_def find_mapid_by_addr_def Let_def)
  show ?thesis
    using one none assms(2,3)
    by (auto simp: mmio_read_def mmio_write_def map_read_def map_write_def check_bound_def)
qed

theorem mmio_dispatch_witness:
  "mmio_read default_config (dev_callback default_config) 0xa0000048 4
     (init_map (\<lambda>_. 0) power_on) = Inl (Panic ''address is out of bound'')"
  using mmio_dispatch [where s = "init_map (\<lambda>_. 0) power_on" and a = "0xa0000048" and len = 4
      and c = default_config and cb = "dev_callback default_config"]
    init_map_wf [of power_on "\<lambda>_. 0"]
  by (simp add: power_on_def init_map_def)

subsection \<open>Start-up of the devices\<close>

text \<open>What the device addresses of a configuration must satisfy: no region runs past the
  end of the address space, and the sound buffer has a sane size.\<close>

definition region_ok :: "u32 \<Rightarrow> u32 \<Rightarrow> bool" where
  "region_ok a len \<longleftrightarrow> a \<le> a + len - 1"

definition device_config_ok :: "config \<Rightarrow> bool" where
  "device_config_ok c \<longleftrightarrow>
     region_ok (CONFIG_SERIAL_MMIO c) 8 \<and> region_ok (CONFIG_RTC_MMIO c) 8 \<and>
     region_ok (CONFIG_VGA_CTL_MMIO c) 8 \<and> region_ok (CONFIG_FB_ADDR c) (screen_size c) \<and>
     region_ok (CONFIG_I8042_DATA_MMIO c) 4 \<and> region_ok (CONFIG_AUDIO_CTL_MMIO c) 24 \<and>
     region_ok (CONFIG_SB_ADDR c) (CONFIG_SB_SIZE c) \<and>
     0 < CONFIG_SB_SIZE c \<and> CONFIG_SB_SIZE c < 0x7ffff000 \<and>
     region_ok (CONFIG_SDCARD_CTL_MMIO c) 128"

lemma io_wf_update:
  assumes "mmio_maps s' = mmio_maps s" and "p_space s' = p_space s"
  shows "io_wf s' = io_wf s"
  using assms by (simp add: io_wf_def)

text \<open>Allocating a region and registering it keeps the invariant.\<close>

lemma register_wf:
  assumes sp: "new_space (uint len) s = Inr (p, s1)" and wf: "io_wf s"
    and s2: "mmio_maps s2 = mmio_maps s1" "p_space s2 = p_space s1"
    and add: "add_mmio_map c nm a p len h s2 = Inr s3"
    and a: "region_ok a len" and len: "0 < len" "uint len < 2 ^ 31 - 4096"
  shows "io_wf s3"
proof -
  note sp' = new_space_spec [OF sp uint_ge_0 len(2)]
  have "io_wf s1" by (rule new_space_wf [OF wf sp uint_ge_0 len(2)])
  then have "io_wf s2" using io_wf_update [OF s2] by simp
  moreover have "uint (len - 1) = uint len - 1"
    using len(1) uint_minus_simple_alt [of 1 len] by (simp add: word_less_def word_le_def)
  moreover have "0 \<le> p" using wf sp'(1) by (simp add: io_wf_def)
  moreover have "p + (uint len - 1) < p_space s2" using sp'(2) s2(2) by simp
  ultimately show ?thesis using add_mmio_map_wf [OF add] a by (simp add: region_ok_def)
qed

lemma init_serial_wf:
  assumes "init_serial c s = Inr s'" "io_wf s" "device_config_ok c"
  shows "io_wf s'"
proof -
  obtain p s1 where 1: "new_space 8 s = Inr (p, s1)"
    and 2: "add_mmio_map c ''serial'' (CONFIG_SERIAL_MMIO c) p 8 (Some serial_handler)
              (s1\<lparr>serial_base := Some p\<rparr>) = Inr s'"
    using assms(1) by (auto simp: init_serial_def bind_res_eq_Inr_iff)
  show ?thesis
    by (rule register_wf [where len = 8, simplified, OF 1 assms(2) _ _ 2])
      (use assms(3) in \<open>simp_all add: device_config_ok_def\<close>)
qed

lemma add_alarm_handle_io:
  "add_alarm_handle s = Inr s' \<Longrightarrow> mmio_maps s' = mmio_maps s \<and> p_space s' = p_space s"
  by (auto simp: add_alarm_handle_def bind_res_eq_Inr_iff)

lemma init_timer_wf:
  assumes "init_timer c s = Inr s'" "io_wf s" "device_config_ok c"
  shows "io_wf s'"
proof -
  obtain p s1 s2 where 1: "new_space 8 s = Inr (p, s1)"
    and 2: "add_mmio_map c ''rtc'' (CONFIG_RTC_MMIO c) p 8 (Some rtc_handler)
              (s1\<lparr>rtc_port_base := Some p\<rparr>) = Inr s2"
    and 3: "add_alarm_handle s2 = Inr s'"
    using assms(1) by (auto simp: init_timer_def bind_res_eq_Inr_iff)
  have "io_wf s2"
    by (rule register_wf [where len = 8, simplified, OF 1 assms(2) _ _ 2])
      (use assms(3) in \<open>simp_all add: device_config_ok_def\<close>)
  then show ?thesis using add_alarm_handle_io [OF 3] io_wf_update by blast
qed

lemma init_vga_wf:
  assumes "init_vga c s = Inr s'" "io_wf s" "device_config_ok c"
  shows "io_wf s'"
proof -
  obtain p s1 s2 s3 v s4 s5 where 1: "new_space 8 s = Inr (p, s1)"
    and 2: "io_set32 c (Some p) 0 (push_bit 16 (SCREEN_W c) OR SCREEN_H c)
              (s1\<lparr>vgactl_port_base := Some p\<rparr>) = Inr s2"
    and 3: "add_mmio_map c ''vgactl'' (CONFIG_VGA_CTL_MMIO c) p 8 None s2 = Inr s3"
    and 4: "new_space (sint (screen_size c)) s3 = Inr (v, s4)"
    and 5: "add_mmio_map c ''vmem'' (CONFIG_FB_ADDR c) v (screen_size c) None
              (s4\<lparr>vmem := Some v\<rparr>) = Inr s5"
    and 6: "mmio_maps s' = mmio_maps s5" "p_space s' = p_space s5"
    using assms(1) by (auto simp: init_vga_def bind_res_eq_Inr_iff split: if_splits)
  have "io_wf s3"
    by (rule register_wf [where len = 8, simplified, OF 1 assms(2) _ _ 3])
      (use assms(3) io_set32_frame [OF 2] in \<open>auto simp: device_config_ok_def\<close>)
  moreover have "sint (screen_size c) = uint (screen_size c)" "0 < screen_size c"
    "uint (screen_size c) < 2 ^ 31 - 4096"
    by (simp_all add: screen_size_def SCREEN_W_def SCREEN_H_def)
  ultimately have "io_wf s5"
    using 4 5 assms(3)
      register_wf [of "screen_size c" s3 v s4 "s4\<lparr>vmem := Some v\<rparr>"]
    by (simp add: device_config_ok_def)
  then show ?thesis using 6 io_wf_update by blast
qed

lemma init_i8042_wf:
  assumes "init_i8042 c sc s = Inr s'" "io_wf s" "device_config_ok c"
  shows "io_wf s'"
proof -
  obtain p s1 s2 s3 where 1: "new_space 4 s = Inr (p, s1)"
    and 2: "io_set32 c (Some p) 0 NEMU_KEY_NONE (s1\<lparr>i8042_data_port_base := Some p\<rparr>) = Inr s2"
    and 3: "add_mmio_map c ''keyboard'' (CONFIG_I8042_DATA_MMIO c) p 4 (Some i8042_handler) s2 = Inr s3"
    and 4: "init_keymap sc s3 = Inr s'"
    using assms(1) by (auto simp: init_i8042_def bind_res_eq_Inr_iff)
  have "io_wf s3"
    by (rule register_wf [where len = 4, simplified, OF 1 assms(2) _ _ 3])
      (use assms(3) io_set32_frame [OF 2] in \<open>auto simp: device_config_ok_def\<close>)
  then show ?thesis
    using 4 io_wf_update [of s' s3] by (auto simp: init_keymap_def bind_res_eq_Inr_iff)
qed

lemma init_audio_wf:
  assumes "init_audio c s = Inr s'" "io_wf s" "device_config_ok c"
  shows "io_wf s'"
proof -
  obtain p s1 s2 b s3 where 1: "new_space 24 s = Inr (p, s1)"
    and 2: "add_mmio_map c ''audio'' (CONFIG_AUDIO_CTL_MMIO c) p 24 (Some audio_handler)
              (s1\<lparr>audio_base := Some p\<rparr>) = Inr s2"
    and 3: "new_space (sint (CONFIG_SB_SIZE c)) s2 = Inr (b, s3)"
    and 4: "add_mmio_map c ''audio-sbuf'' (CONFIG_SB_ADDR c) b (CONFIG_SB_SIZE c) None
              (s3\<lparr>sbuf := Some b\<rparr>) = Inr s'"
    using assms(1) by (auto simp: init_audio_def nr_reg_def Let_def bind_res_eq_Inr_iff)
  have "io_wf s2"
    by (rule register_wf [where len = 24, simplified, OF 1 assms(2) _ _ 2])
      (use assms(3) in \<open>auto simp: device_config_ok_def\<close>)
  moreover have sz: "uint (CONFIG_SB_SIZE c) < 2 ^ 31 - 4096"
    using assms(3) by (simp add: device_config_ok_def word_less_def)
  moreover have "sint (CONFIG_SB_SIZE c) = uint (CONFIG_SB_SIZE c)"
    using sint_ucast_small [of "CONFIG_SB_SIZE c", where 'b = 32] sz by simp
  ultimately show ?thesis
    using 3 4 assms(3)
      register_wf [of "CONFIG_SB_SIZE c" s2 b s3 "s3\<lparr>sbuf := Some b\<rparr>"]
    by (simp add: device_config_ok_def)
qed

lemma init_sdcard_wf:
  assumes "init_sdcard c i s = Inr s'" "io_wf s" "device_config_ok c"
  shows "io_wf s'"
proof -
  obtain p s1 s2 where 1: "new_space 0x80 s = Inr (p, s1)"
    and 2: "add_mmio_map c ''sdhci'' (CONFIG_SDCARD_CTL_MMIO c) p 0x80 (Some sdcard_handler)
              (s1\<lparr>sd_base := Some p\<rparr>) = Inr s2"
    and 3: "mmio_maps s' = mmio_maps s2" "p_space s' = p_space s2"
    using assms(1) by (auto simp: init_sdcard_def bind_res_eq_Inr_iff)
  have "io_wf s2"
    by (rule register_wf [where len = 128, simplified, OF 1 assms(2) _ _ 2])
      (use assms(3) in \<open>auto simp: device_config_ok_def\<close>)
  then show ?thesis using 3 io_wf_update by blast
qed

lemma init_if_wf:
  "init_if b f s = Inr s' \<Longrightarrow> io_wf s \<Longrightarrow> (f s = Inr s' \<Longrightarrow> io_wf s') \<Longrightarrow> io_wf s'"
  by (auto simp: init_if_def split: if_splits)

lemma init_device_io_wf:
  assumes "init_device c env s = Inr s'" and "mmio_maps s = []" and "device_config_ok c"
  shows "io_wf s'"
proof -
  have 0: "io_wf (init_map (fresh_io env) s)" by (rule init_map_wf [OF assms(2)])
  obtain s1 s2 s3 s4 s5 where
    i: "init_if (CONFIG_HAS_SERIAL c) (init_serial c) (init_map (fresh_io env) s) = Inr s1"
      "init_if (CONFIG_HAS_TIMER c) (init_timer c) s1 = Inr s2"
      "init_if (CONFIG_HAS_VGA c) (init_vga c) s2 = Inr s3"
      "init_if (CONFIG_HAS_KEYBOARD c) (init_i8042 c (SDL_SCANCODE env)) s3 = Inr s4"
      "init_if (CONFIG_HAS_AUDIO c) (init_audio c) s4 = Inr s5"
      "init_if (CONFIG_HAS_SDCARD c) (init_sdcard c (sd_image env)) s5 = Inr s'"
    using assms(1) by (auto simp: init_device_def bind_res_eq_Inr_iff)
  have 1: "io_wf s1" by (rule init_if_wf [OF i(1) 0 init_serial_wf [OF _ 0 assms(3)]])
  have 2: "io_wf s2" by (rule init_if_wf [OF i(2) 1 init_timer_wf [OF _ 1 assms(3)]])
  have 3: "io_wf s3" by (rule init_if_wf [OF i(3) 2 init_vga_wf [OF _ 2 assms(3)]])
  have 4: "io_wf s4" by (rule init_if_wf [OF i(4) 3 init_i8042_wf [OF _ 3 assms(3)]])
  have 5: "io_wf s5" by (rule init_if_wf [OF i(5) 4 init_audio_wf [OF _ 4 assms(3)]])
  show ?thesis by (rule init_if_wf [OF i(6) 5 init_sdcard_wf [OF _ 5 assms(3)]])
qed

text \<open>C7: Whatever devices are configured, after \<open>init_device\<close> the registered MMIO regions
  are pairwise disjoint and each is backed by allocated bytes of the I/O buffer.\<close>

theorem init_device_wf:
  assumes "init_device c env s = Inr s'" and "mmio_maps s = []" and "device_config_ok c"
  shows "io_wf s'"
  using assms by (rule init_device_io_wf)

lemmas init_device_defs =
  init_device_def init_if_def init_map_def init_serial_def init_timer_def init_vga_def
  init_i8042_def init_audio_def init_sdcard_def init_keymap_def NEMU_KEYS_def new_space_def
  add_mmio_map_def add_alarm_handle_def MAX_HANDLER_def NR_MAP_def page_round_eq IO_SPACE_MAX_def
  in_pmem_def overlaps_def screen_size_def SCREEN_W_def SCREEN_H_def nr_reg_def io_set32_def
  host_write_def in_object_def assert_res_def host_memset_def Let_def

theorem init_device_wf_witness:
  "\<exists>s'. init_device default_config power_on_env power_on = Inr s' \<and> io_wf s'"
proof -
  have "\<exists>s'. init_device default_config power_on_env power_on = Inr s'"
    by (simp add: init_device_defs power_on_def power_on_env_def default_config_def)
  then obtain s' where s': "init_device default_config power_on_env power_on = Inr s'" by blast
  have "mmio_maps power_on = []" by (simp add: power_on_def)
  moreover have "device_config_ok default_config"
    by (simp add: device_config_ok_def region_ok_def screen_size_def SCREEN_W_def SCREEN_H_def)
  ultimately show ?thesis using s' init_device_wf by blast
qed

text \<open>A region registered without a handler (frame buffer, sound buffer) behaves as memory
  for the processor: what \<open>paddr_write\<close> stores there, \<open>paddr_read\<close> returns.\<close>

theorem plain_region_memory:
  assumes "CONFIG_DEVICE c" and "\<not> in_pmem c a" and "io_wf s"
    and "m \<in> set (mmio_maps s)" "map_callback m = None" "map_inside m a" "access_len len"
    and "uint (a - map_low m) + len - 1 \<le> uint (map_high m - map_low m)"
  shows "\<exists>s' s''. paddr_write c a len d s = Inr s' \<and> io_wf s' \<and>
    paddr_read c a len s' = Inr (take_bit (8 * nat len) d, s'')"
proof -
  let ?cb = "dev_callback c" and ?off = "map_space m + uint (a - map_low m)"
  have l: "1 \<le> len" "len \<le> 8" using assms(7) by (auto simp: access_len_def)
  have dj: "maps_disjoint (mmio_maps s)" using assms(3) by (simp add: io_wf_def)
  have "in_object IO_SPACE_MAX ?off len"
    by (rule devs.map_access_in_space [OF assms(3,4,6) l(1) assms(8)])
  then obtain bs where "host_write c IO_SPACE_MAX (io_space s) ?off len d = Inr bs"
    using host_write_ok [OF assms(7)] by blast
  then obtain s' where s': "mmio_write c ?cb a len d s = Inr s'"
    using l assms(5,6)
    by (simp add: mmio_write_def fetch_mmio_map_unique [OF dj assms(4,6)] map_write_def
        check_bound_def map_inside_def Let_def invoke_callback_def)
  obtain s'' where "mmio_read c ?cb a len s' = Inr (take_bit (8 * nat len) d, s'')"
    using devs.plain_map_roundtrip [OF assms(3-7) s'] by blast
  with s' devs.mmio_write_wf [OF s' assms(3)] assms(1,2) show ?thesis
    by (simp add: paddr_write_def paddr_read_def)
qed

definition fb_state :: nemu where
  "fb_state = power_on\<lparr>p_space := 4096,
     mmio_maps := [\<lparr>map_name = ''vmem'', map_low = 0xa1000000, map_high = 0xa10000ff,
                    map_space = 0, map_callback = None\<rparr>]\<rparr>"

lemma fb_state_wf: "io_wf fb_state"
  by (simp add: fb_state_def power_on_def io_wf_def IO_SPACE_MAX_def NR_MAP_def maps_disjoint_def
      map_backed_def)

theorem plain_region_memory_witness:
  "\<exists>s' s''. paddr_write default_config 0xa1000004 4 0x00ff00ff fb_state = Inr s' \<and> io_wf s' \<and>
     paddr_read default_config 0xa1000004 4 s' = Inr (0x00ff00ff, s'')"
proof -
  let ?m = "\<lparr>map_name = ''vmem'', map_low = 0xa1000000, map_high = 0xa10000ff,
             map_space = 0, map_callback = None\<rparr>"
  have "?m \<in> set (mmio_maps fb_state)" by (simp add: fb_state_def)
  from plain_region_memory [OF _ _ fb_state_wf this, where c = default_config and a = "0xa1000004"
      and len = 4 and d = "0x00ff00ff"]
  show ?thesis
    by (simp add: in_pmem_def map_inside_def access_len_def)
qed

subsection \<open>Keyboard, clock and sound\<close>

text \<open>C14: The key queue is a bounded FIFO: from an empty queue, up to 1023 key codes are
  accepted and are dequeued in the order in which they were sent.\<close>

theorem key_queue_fifo:
  assumes "key_invar s" and "key_contents s = []" and "length ks < KEY_QUEUE_LEN"
  shows "\<exists>s1 s2. keyq.enq_all ks s = Inr s1 \<and> keyq.deq_n (length ks) s1 = (ks, s2) \<and>
    key_contents s2 = []"
  using keyq.fifo_order [of s ks] assms by (auto simp: KEY_QUEUE_LEN_def)

theorem key_queue_fifo_witness:
  "\<exists>s1 s2. keyq.enq_all [0x802b, 0x2b] power_on = Inr s1 \<and>
     keyq.deq_n 2 s1 = ([0x802b, 0x2b], s2) \<and> key_contents s2 = []"
  using key_queue_fifo [of power_on "[0x802b, 0x2b]"]
  by (simp add: power_on_def key_invar_def KEY_QUEUE_LEN_def key_contents_def key_count_def
      numeral_2_eq_2)

text \<open>The 1024th pending key code makes the emulator panic: no code is dropped or
  overwritten silently.\<close>

theorem key_queue_overflow:
  assumes "key_invar s" and "length (key_contents s) = KEY_QUEUE_LEN - 1"
  shows "key_enqueue k s = Inl (Panic ''key queue overflow!'')"
  using key_enqueue_full [of s k] assms by simp

definition key_full_state :: nemu where
  "key_full_state = power_on\<lparr>key_f := 5, key_r := 4\<rparr>"

theorem key_queue_overflow_witness:
  "key_enqueue 0x802b key_full_state = Inl (Panic ''key queue overflow!'')"
  using key_queue_overflow [of key_full_state "0x802b"]
  by (simp add: key_full_state_def key_invar_def KEY_QUEUE_LEN_def key_count_def)

text \<open>Reading the high half of the clock and then the low half, as the drivers do, yields
  the two halves of one reading of the host clock.\<close>

theorem rtc_read_consistent:
  assumes "rtc_port_base s = Some b" and "0 \<le> b" and "b + 8 \<le> IO_SPACE_MAX"
  shows "\<exists>s1 s2 hi lo. rtc_io_handler c 4 4 False s = Inr s1 \<and>
    host_read c IO_SPACE_MAX (io_space s1) (b + 4) 4 = Inr hi \<and>
    rtc_io_handler c 0 4 False s1 = Inr s2 \<and>
    host_read c IO_SPACE_MAX (io_space s2) b 4 = Inr lo \<and>
    (ucast lo :: u64) OR push_bit 32 (ucast hi) = fst (get_time s)"
proof -
  obtain us s0 where t: "get_time s = (us, s0)" by fastforce
  note fr = get_time_io [OF t]
  obtain bs1 where w1: "host_write c IO_SPACE_MAX (io_space s0) b 4 (ucast us) = Inr bs1"
    using host_write_ok [of 4] assms(2,3) by (fastforce simp: access_len_def in_object_def)
  obtain bs2 where w2:
    "host_write c IO_SPACE_MAX bs1 (b + 4) 4 (ucast (drop_bit 32 us)) = Inr bs2"
    using host_write_ok [of 4] assms(2,3) by (fastforce simp: access_len_def in_object_def)
  have al: "access_len 4" by (simp add: access_len_def)
  have hi: "host_read c IO_SPACE_MAX bs2 (b + 4) 4 = Inr (ucast (drop_bit 32 us))"
    using host_read_after_write [OF al w2] by simp
  have lo: "host_read c IO_SPACE_MAX bs2 b 4 = Inr (ucast us)"
    using host_read_after_write [OF al w1] host_read_write_disjoint [OF al al w2, of b] by simp
  have "(ucast (ucast us :: u32) :: u64) OR push_bit 32 (ucast (ucast (drop_bit 32 us) :: u32)) = us"
    by (rule bit_word_eqI) (auto simp: bit_simps)
  then show ?thesis
    using assms(1) t fr w1 w2 hi lo
    by (simp add: rtc_io_handler_def io_set32_def)
qed

definition rtc_state :: nemu where
  "rtc_state = power_on\<lparr>rtc_port_base := Some 0, host_clock := (\<lambda>n. (4500 * of_nat n, 7))\<rparr>"

theorem rtc_read_consistent_witness:
  "\<exists>s1 s2 hi lo. rtc_io_handler default_config 4 4 False rtc_state = Inr s1 \<and>
    host_read default_config IO_SPACE_MAX (io_space s1) (0 + 4) 4 = Inr hi \<and>
    rtc_io_handler default_config 0 4 False s1 = Inr s2 \<and>
    host_read default_config IO_SPACE_MAX (io_space s2) 0 4 = Inr lo \<and>
    (ucast lo :: u64) OR push_bit 32 (ucast hi) = 4500000000"
proof -
  have "fst (get_time rtc_state) = 4500000000"
    by (simp add: rtc_state_def power_on_def get_time_def get_time_internal_def)
  with rtc_read_consistent [of rtc_state 0 default_config] show ?thesis
    by (simp add: rtc_state_def IO_SPACE_MAX_def)
qed

text \<open>The bytes that wait in the sound buffer.\<close>

definition sbuf_bytes :: "'a dev_scheme \<Rightarrow> byte list" where
  "sbuf_bytes s = (case sbuf s of None \<Rightarrow> []
     | Some b \<Rightarrow> map (\<lambda>i. io_space s (b + int i)) [0..<nat (sbuf_count s)])"

text \<open>The callback of the sound device hands out the oldest bytes of the buffer, fills up
  with silence when there are too few, and keeps the remaining bytes in order.\<close>

theorem audio_callback_fifo:
  assumes "sbuf s = Some b" and "0 \<le> sbuf_count s" and "in_object IO_SPACE_MAX b (sbuf_count s)"
    and "0 \<le> len"
  shows "\<exists>s'. audio_callback len s =
      Inr (take (nat len) (sbuf_bytes s) @ replicate (nat len - length (sbuf_bytes s)) 0, s') \<and>
    sbuf_bytes s' = drop (nat len) (sbuf_bytes s)"
proof (cases "sbuf_count s > len")
  case True
  have "map (\<lambda>x. if int x < sbuf_count s - len then io_space s (b + int x + len)
                 else io_space s (b + int x)) [0..<nat (sbuf_count s - len)] =
      drop (nat len) (map (\<lambda>i. io_space s (b + int i)) [0..<nat (sbuf_count s)])"
    using True assms(4) by (intro nth_equalityI) (auto simp: nat_diff_distrib algebra_simps)
  moreover have "take (nat len) (map (\<lambda>i. io_space s (b + int i)) [0..<nat (sbuf_count s)])
      = map (\<lambda>i. io_space s (b + int i)) [0..<nat len]"
    using True assms(4) by (simp add: take_map take_upt)
  ultimately show ?thesis
    using True assms by (simp add: audio_callback_def sbuf_bytes_def)
next
  case False
  then show ?thesis
    using assms by (simp add: audio_callback_def sbuf_bytes_def nat_diff_distrib)
qed

definition sound_state :: nemu where
  "sound_state = power_on\<lparr>sbuf := Some 0, sbuf_count := 5, io_space := (\<lambda>i. word_of_int (i + 1))\<rparr>"

theorem audio_callback_fifo_witness:
  "\<exists>s'. audio_callback 3 sound_state = Inr ([1, 2, 3], s') \<and> sbuf_bytes s' = [4, 5]"
  using audio_callback_fifo [of sound_state 0 3]
  by (simp add: sound_state_def sbuf_bytes_def in_object_def IO_SPACE_MAX_def upt_rec numeral_eq_Suc)

end
