(* ===== verification/Riscv32_Decode.thy ===== *)
theory Riscv32_Decode
  imports Riscv32
begin

text \<open>
  The decoder of the riscv32 guest against the instruction formats of the RISC-V manual.
  The specification reads the fields \<open>opcode\<close>, \<open>funct3\<close> and \<open>funct7\<close> of an
  instruction word and the immediates of its five formats; the facts show that the table
  of pattern strings and the immediate macros of \<open>nemu/src/isa/riscv32/inst.c\<close>
  compute the same, for every 32-bit word.
\<close>

subsection \<open>Specification: fields\<close>

definition opcode :: "u32 \<Rightarrow> u32" where "opcode i = i AND 0x7f"
definition funct3 :: "u32 \<Rightarrow> u32" where "funct3 i = drop_bit 12 i AND 7"
definition funct7 :: "u32 \<Rightarrow> u32" where "funct7 i = drop_bit 25 i"

text \<open>The field decoder of the RISC-V manual for the instructions NEMU knows.\<close>

definition rv32_decode :: "u32 \<Rightarrow> opname" where
  "rv32_decode i =
    (let f3 = funct3 i; f7 = funct7 i; opc = opcode i in
     if opc = 0x37 then I_lui
     else if opc = 0x17 then I_auipc
     else if opc = 0x6f then I_jal
     else if opc = 0x67 then (if f3 = 0 then I_jalr else I_inv)
     else if opc = 0x63 then
       (if f3 = 0 then I_beq else if f3 = 1 then I_bne else if f3 = 4 then I_blt
        else if f3 = 5 then I_bge else if f3 = 6 then I_bltu else if f3 = 7 then I_bgeu else I_inv)
     else if opc = 0x03 then
       (if f3 = 0 then I_lb else if f3 = 1 then I_lh else if f3 = 2 then I_lw
        else if f3 = 4 then I_lbu else if f3 = 5 then I_lhu else I_inv)
     else if opc = 0x23 then
       (if f3 = 0 then I_sb else if f3 = 1 then I_sh else if f3 = 2 then I_sw else I_inv)
     else if opc = 0x13 then
       (if f3 = 0 then I_addi else if f3 = 2 then I_slti else if f3 = 3 then I_sltiu
        else if f3 = 4 then I_xori else if f3 = 6 then I_ori else if f3 = 7 then I_andi
        else if f3 = 1 then (if f7 = 0 then I_slli else I_inv)
        else if f7 = 0 then I_srli else if f7 = 0x20 then I_srai else I_inv)
     else if opc = 0x33 then
       (if f7 = 0 then
          (if f3 = 0 then I_add else if f3 = 1 then I_sll else if f3 = 2 then I_slt
           else if f3 = 3 then I_sltu else if f3 = 4 then I_xor else if f3 = 5 then I_srl
           else if f3 = 6 then I_or else I_and)
        else if f7 = 0x20 then (if f3 = 0 then I_sub else if f3 = 5 then I_sra else I_inv)
        else if f7 = 1 then
          (if f3 = 0 then I_mul else if f3 = 1 then I_mulh else if f3 = 3 then I_mulhu
           else if f3 = 4 then I_div else if f3 = 5 then I_divu else if f3 = 6 then I_rem
           else if f3 = 7 then I_remu else I_inv)
        else I_inv)
     else if opc = 0x73 then
       (if f3 = 1 then I_csrrw else if f3 = 2 then I_csrrs
        else if i = 0x00000073 then I_ecall else if i = 0x00100073 then I_ebreak
        else if i = 0x30200073 then I_mret else I_inv)
     else I_inv)"

fun itype_of :: "opname \<Rightarrow> itype" where
  "itype_of nm =
     (if nm \<in> set [I_lui, I_auipc] then TYPE_U
      else if nm = I_jal then TYPE_J
      else if nm \<in> set [I_beq, I_bne, I_blt, I_bge, I_bltu, I_bgeu] then TYPE_B
      else if nm \<in> set [I_sb, I_sh, I_sw] then TYPE_S
      else if nm \<in> set [I_ecall, I_ebreak, I_inv] then TYPE_N
      else if nm \<in> set [I_jalr, I_lb, I_lh, I_lw, I_lbu, I_lhu, I_addi, I_slti, I_sltiu, I_xori,
                        I_ori, I_andi, I_slli, I_srli, I_srai, I_csrrw, I_csrrs] then TYPE_I
      else TYPE_R)"

subsection \<open>Specification: immediates\<close>

text \<open>How an assembler places a 32-bit immediate in an instruction word, per format; and
  the bits of the word the immediate occupies.\<close>

definition enc_immI :: "u32 \<Rightarrow> u32" where
  "enc_immI k = push_bit 20 k"

definition enc_immS :: "u32 \<Rightarrow> u32" where
  "enc_immS k = push_bit 25 (drop_bit 5 k) OR push_bit 7 (take_bit 5 k)"

definition enc_immB :: "u32 \<Rightarrow> u32" where
  "enc_immB k =
     push_bit 31 (drop_bit 12 k) OR push_bit 25 (take_bit 6 (drop_bit 5 k)) OR
     push_bit 8 (take_bit 4 (drop_bit 1 k)) OR push_bit 7 (take_bit 1 (drop_bit 11 k))"

definition enc_immU :: "u32 \<Rightarrow> u32" where
  "enc_immU k = push_bit 12 (drop_bit 12 k)"

definition enc_immJ :: "u32 \<Rightarrow> u32" where
  "enc_immJ k =
     push_bit 31 (drop_bit 20 k) OR push_bit 21 (take_bit 10 (drop_bit 1 k)) OR
     push_bit 20 (take_bit 1 (drop_bit 11 k)) OR push_bit 12 (take_bit 8 (drop_bit 12 k))"

text \<open>\<open>k\<close> is the sign extension of its low \<open>n\<close> bits.\<close>

definition fits_signed :: "nat \<Rightarrow> u32 \<Rightarrow> bool" where
  "fits_signed n k \<longleftrightarrow> signed_take_bit (n - 1) k = k"

subsection \<open>Facts: the bits of an immediate\<close>

lemma BITMASK_mask: "BITMASK n = mask n"
  by (simp add: BITMASK_def mask_eq_exp_minus_1)

lemma bit_BITS:
  "bit (BITS x hi lo) n \<longleftrightarrow> n < hi - lo + 1 \<and> bit x (lo + n)"
  by (auto simp: BITS_def BITMASK_mask bit_simps dest: bit_imp_le_length)

lemma bit_SEXT: "bit (SEXT x len) n \<longleftrightarrow> n < 64 \<and> bit x (min (len - 1) n)"
  by (simp add: SEXT_def bit_simps)

lemma bit_immI: "n < 32 \<Longrightarrow> bit (immI i) n \<longleftrightarrow> bit i (20 + min 11 n)"
  by (auto simp: immI_def bit_simps bit_SEXT bit_BITS)

lemma bit_immU: "n < 32 \<Longrightarrow> bit (immU i) n \<longleftrightarrow> 12 \<le> n \<and> bit i n"
  by (cases "n = 31") (auto simp: immU_def bit_simps bit_SEXT bit_BITS min_def)

lemma bit_immS:
  "n < 32 \<Longrightarrow> bit (immS i) n \<longleftrightarrow> (if n < 5 then bit i (7 + n) else bit i (20 + min 11 n))"
  by (auto simp: immS_def bit_simps bit_SEXT bit_BITS min_def)

lemma bit_immJ:
  "n < 32 \<Longrightarrow> bit (immJ i) n \<longleftrightarrow>
     (if n = 0 then False else if n < 11 then bit i (20 + n) else if n = 11 then bit i 20
      else if n < 20 then bit i n else bit i 31)"
  by (auto simp: immJ_def bit_simps bit_double_word bit_SEXT bit_BITS min_def)

lemma bit_immB:
  "n < 32 \<Longrightarrow> bit (immB i) n \<longleftrightarrow>
     (if n = 0 then False else if n < 5 then bit i (7 + n) else if n < 11 then bit i (20 + n)
      else if n = 11 then bit i 7 else bit i 31)"
  by (auto simp: immB_def bit_simps bit_double_word bit_SEXT bit_BITS min_def)

subsection \<open>Facts: dispatch\<close>

lemma pattern_decode_table:
  "pattern_decode ''??????? ????? ????? ??? ????? 01101 11'' = Inr (0x37, 0x7f, 0)"
  "pattern_decode ''??????? ????? ????? ??? ????? 00101 11'' = Inr (0x17, 0x7f, 0)"
  "pattern_decode ''??????? ????? ????? ??? ????? 11011 11'' = Inr (0x6f, 0x7f, 0)"
  "pattern_decode ''??????? ????? ????? 000 ????? 11001 11'' = Inr (0x67, 0x707f, 0)"
  "pattern_decode ''??????? ????? ????? 000 ????? 11000 11'' = Inr (0x63, 0x707f, 0)"
  "pattern_decode ''??????? ????? ????? 001 ????? 11000 11'' = Inr (0x1063, 0x707f, 0)"
  "pattern_decode ''??????? ????? ????? 100 ????? 11000 11'' = Inr (0x4063, 0x707f, 0)"
  "pattern_decode ''??????? ????? ????? 101 ????? 11000 11'' = Inr (0x5063, 0x707f, 0)"
  "pattern_decode ''??????? ????? ????? 110 ????? 11000 11'' = Inr (0x6063, 0x707f, 0)"
  "pattern_decode ''??????? ????? ????? 111 ????? 11000 11'' = Inr (0x7063, 0x707f, 0)"
  "pattern_decode ''??????? ????? ????? 000 ????? 00000 11'' = Inr (0x3, 0x707f, 0)"
  "pattern_decode ''??????? ????? ????? 001 ????? 00000 11'' = Inr (0x1003, 0x707f, 0)"
  "pattern_decode ''??????? ????? ????? 010 ????? 00000 11'' = Inr (0x2003, 0x707f, 0)"
  "pattern_decode ''??????? ????? ????? 100 ????? 00000 11'' = Inr (0x4003, 0x707f, 0)"
  "pattern_decode ''??????? ????? ????? 101 ????? 00000 11'' = Inr (0x5003, 0x707f, 0)"
  "pattern_decode ''??????? ????? ????? 000 ????? 01000 11'' = Inr (0x23, 0x707f, 0)"
  "pattern_decode ''??????? ????? ????? 001 ????? 01000 11'' = Inr (0x1023, 0x707f, 0)"
  "pattern_decode ''??????? ????? ????? 010 ????? 01000 11'' = Inr (0x2023, 0x707f, 0)"
  "pattern_decode ''??????? ????? ????? 000 ????? 00100 11'' = Inr (0x13, 0x707f, 0)"
  "pattern_decode ''??????? ????? ????? 010 ????? 00100 11'' = Inr (0x2013, 0x707f, 0)"
  "pattern_decode ''??????? ????? ????? 011 ????? 00100 11'' = Inr (0x3013, 0x707f, 0)"
  "pattern_decode ''??????? ????? ????? 100 ????? 00100 11'' = Inr (0x4013, 0x707f, 0)"
  "pattern_decode ''??????? ????? ????? 110 ????? 00100 11'' = Inr (0x6013, 0x707f, 0)"
  "pattern_decode ''??????? ????? ????? 111 ????? 00100 11'' = Inr (0x7013, 0x707f, 0)"
  "pattern_decode ''0000000 ????? ????? 001 ????? 00100 11'' = Inr (0x1013, 0xfe00707f, 0)"
  "pattern_decode ''0000000 ????? ????? 101 ????? 00100 11'' = Inr (0x5013, 0xfe00707f, 0)"
  "pattern_decode ''0100000 ????? ????? 101 ????? 00100 11'' = Inr (0x40005013, 0xfe00707f, 0)"
  "pattern_decode ''0000000 ????? ????? 000 ????? 01100 11'' = Inr (0x33, 0xfe00707f, 0)"
  "pattern_decode ''0100000 ????? ????? 000 ????? 01100 11'' = Inr (0x40000033, 0xfe00707f, 0)"
  "pattern_decode ''0000000 ????? ????? 001 ????? 01100 11'' = Inr (0x1033, 0xfe00707f, 0)"
  "pattern_decode ''0000000 ????? ????? 010 ????? 01100 11'' = Inr (0x2033, 0xfe00707f, 0)"
  "pattern_decode ''0000000 ????? ????? 011 ????? 01100 11'' = Inr (0x3033, 0xfe00707f, 0)"
  "pattern_decode ''0000000 ????? ????? 100 ????? 01100 11'' = Inr (0x4033, 0xfe00707f, 0)"
  "pattern_decode ''0000000 ????? ????? 101 ????? 01100 11'' = Inr (0x5033, 0xfe00707f, 0)"
  "pattern_decode ''0100000 ????? ????? 101 ????? 01100 11'' = Inr (0x40005033, 0xfe00707f, 0)"
  "pattern_decode ''0000000 ????? ????? 110 ????? 01100 11'' = Inr (0x6033, 0xfe00707f, 0)"
  "pattern_decode ''0000000 ????? ????? 111 ????? 01100 11'' = Inr (0x7033, 0xfe00707f, 0)"
  "pattern_decode ''0000001 ????? ????? 000 ????? 01100 11'' = Inr (0x2000033, 0xfe00707f, 0)"
  "pattern_decode ''0000001 ????? ????? 001 ????? 01100 11'' = Inr (0x2001033, 0xfe00707f, 0)"
  "pattern_decode ''0000001 ????? ????? 011 ????? 01100 11'' = Inr (0x2003033, 0xfe00707f, 0)"
  "pattern_decode ''0000001 ????? ????? 100 ????? 01100 11'' = Inr (0x2004033, 0xfe00707f, 0)"
  "pattern_decode ''0000001 ????? ????? 101 ????? 01100 11'' = Inr (0x2005033, 0xfe00707f, 0)"
  "pattern_decode ''0000001 ????? ????? 110 ????? 01100 11'' = Inr (0x2006033, 0xfe00707f, 0)"
  "pattern_decode ''0000001 ????? ????? 111 ????? 01100 11'' = Inr (0x2007033, 0xfe00707f, 0)"
  "pattern_decode ''??????? ????? ????? 001 ????? 11100 11'' = Inr (0x1073, 0x707f, 0)"
  "pattern_decode ''??????? ????? ????? 010 ????? 11100 11'' = Inr (0x2073, 0x707f, 0)"
  "pattern_decode ''0000000 00000 00000 000 00000 11100 11'' = Inr (0x73, 0xffffffff, 0)"
  "pattern_decode ''0000000 00001 00000 000 00000 11100 11'' = Inr (0x100073, 0xffffffff, 0)"
  "pattern_decode ''0011000 00010 00000 000 00000 11100 11'' = Inr (0x30200073, 0xffffffff, 0)"
  "pattern_decode ''??????? ????? ????? ??? ????? ????? ??'' = Inr (0x0, 0x0, 32)"
  by (simp_all add: pattern_decode_def pattern_char_def assert_res_def)


lemma funct3_cases:
  "funct3 i = 0 \<or> funct3 i = 1 \<or> funct3 i = 2 \<or> funct3 i = 3 \<or>
   funct3 i = 4 \<or> funct3 i = 5 \<or> funct3 i = 6 \<or> funct3 i = 7"
proof -
  have "funct3 i = take_bit 3 (drop_bit 12 i)"
    by (simp add: funct3_def take_bit_eq_mask mask_eq_exp_minus_1)
  then have "uint (funct3 i) < 8"
    by (simp add: unsigned_take_bit_eq take_bit_int_less_exp [where n = 3, simplified])
  moreover have "0 \<le> uint (funct3 i)" by simp
  ultimately have "uint (funct3 i) = 0 \<or> uint (funct3 i) = 1 \<or> uint (funct3 i) = 2 \<or>
      uint (funct3 i) = 3 \<or> uint (funct3 i) = 4 \<or> uint (funct3 i) = 5 \<or> uint (funct3 i) = 6 \<or>
      uint (funct3 i) = 7"
    by linarith
  then show ?thesis
    by (simp add: word_uint_eq_iff [of "funct3 i"])
qed

lemma match_narrow:
  assumes "drop_bit 32 M = 0" and "drop_bit 32 K = 0"
  shows "(ucast (i :: u32) :: u64) AND M = K \<longleftrightarrow> i AND ucast M = ucast K"
proof -
  have hi: "\<not> bit w n" if "drop_bit 32 w = 0" "32 \<le> n" for w :: u64 and n
  proof -
    have "bit (drop_bit 32 w) (n - 32) = bit w n" using that(2) by (simp add: bit_simps)
    with that(1) show ?thesis by simp
  qed
  show ?thesis
  proof
    assume "(ucast i :: u64) AND M = K"
    then show "i AND ucast M = ucast K"
      by (intro bit_word_eqI) (auto simp: bit_simps)
  next
    assume eq: "i AND ucast M = ucast K"
    show "(ucast i :: u64) AND M = K"
    proof (rule bit_word_eqI)
      fix n assume "n < LENGTH(64)"
      have "bit (i AND ucast M) n = bit (ucast K :: u32) n" using eq by simp
      then show "bit ((ucast i :: u64) AND M) n = bit K n"
        using hi [OF assms(1)] hi [OF assms(2)] \<open>n < LENGTH(64)\<close>
        by (cases "n < 32") (auto simp: bit_simps not_less)
    qed
  qed
qed

lemma mask_f3: "i AND 0x707f = opcode i OR push_bit 12 (funct3 i)"
proof -
  have m: "(0x707f :: u32) = mask 7 OR push_bit 12 (mask 3)" "(0x7f :: u32) = mask 7" "(7 :: u32) = mask 3"
    by (simp_all add: mask_eq_exp_minus_1)
  show ?thesis
    unfolding opcode_def funct3_def m
    by (rule bit_word_eqI) (auto simp: bit_simps simp del: mask_numeral)
qed

lemma mask_f7: "i AND 0xfe00707f = opcode i OR push_bit 12 (funct3 i) OR push_bit 25 (funct7 i)"
proof -
  have m: "(0xfe00707f :: u32) = mask 7 OR push_bit 12 (mask 3) OR push_bit 25 (mask 7)"
      "(0x7f :: u32) = mask 7" "(7 :: u32) = mask 3"
    by (simp_all add: mask_eq_exp_minus_1)
  show ?thesis
    unfolding opcode_def funct3_def funct7_def m
    by (rule bit_word_eqI) (auto simp: bit_simps simp del: mask_numeral)
qed

lemma opcode_eq:
  assumes "v AND 0x7f = v"
  shows "i AND 0x7f = v \<longleftrightarrow> opcode i = opcode v"
  using assms by (simp add: opcode_def)

lemma fields_of_f3:
  "opcode (i AND 0x707f) = opcode i" "funct3 (i AND 0x707f) = funct3 i"
proof -
  have "(0x7f :: u32) AND 0x707f = 0x7f" by simp
  then show "opcode (i AND 0x707f) = opcode i" by (simp add: opcode_def ac_simps)
  have "drop_bit 12 (i AND 0x707f) = drop_bit 12 i AND 7"
    by (simp add: drop_bit_and)
  then show "funct3 (i AND 0x707f) = funct3 i" by (simp add: funct3_def)
qed

lemma fields_of_f7:
  "opcode (i AND 0xfe00707f) = opcode i" "funct3 (i AND 0xfe00707f) = funct3 i"
  "funct7 (i AND 0xfe00707f) = funct7 i"
proof -
  have m: "(0xfe00707f :: u32) = mask 7 OR push_bit 12 (mask 3) OR push_bit 25 (mask 7)"
      "(0x7f :: u32) = mask 7" "(7 :: u32) = mask 3"
    by (simp_all add: mask_eq_exp_minus_1)
  show "opcode (i AND 0xfe00707f) = opcode i" "funct3 (i AND 0xfe00707f) = funct3 i"
      "funct7 (i AND 0xfe00707f) = funct7 i"
    unfolding opcode_def funct3_def funct7_def m
    by (rule bit_word_eqI, auto simp: bit_simps simp del: mask_numeral dest: bit_imp_le_length)+
qed

lemma f3_eq:
  assumes "v AND 0x707f = v"
  shows "i AND 0x707f = v \<longleftrightarrow> opcode i = opcode v \<and> funct3 i = funct3 v"
  using assms fields_of_f3 by (metis mask_f3)

lemma f7_eq:
  assumes "v AND 0xfe00707f = v"
  shows "i AND 0xfe00707f = v \<longleftrightarrow>
         opcode i = opcode v \<and> funct3 i = funct3 v \<and> funct7 i = funct7 v"
  using assms fields_of_f7 by (metis mask_f7)

lemma fields_numeral:
  "opcode (numeral k) = numeral k AND 0x7f"
  "funct3 (numeral k) = drop_bit 12 (numeral k) AND 7"
  "funct7 (numeral k) = drop_bit 25 (numeral k)"
  by (simp_all add: opcode_def funct3_def funct7_def)

lemma and_all_ones: "(i :: u32) AND 0xffffffff = i"
proof -
  have "(0xffffffff :: u32) = -1" by simp
  then show ?thesis by (simp only: and.right_neutral)
qed

lemma instpat_match_table:
  "instpat_match ''??????? ????? ????? ??? ????? 01101 11'' i = Inr (opcode i = 0x37)"
  "instpat_match ''??????? ????? ????? ??? ????? 00101 11'' i = Inr (opcode i = 0x17)"
  "instpat_match ''??????? ????? ????? ??? ????? 11011 11'' i = Inr (opcode i = 0x6f)"
  "instpat_match ''??????? ????? ????? 000 ????? 11001 11'' i = Inr (opcode i = 0x67 \<and> funct3 i = 0)"
  "instpat_match ''??????? ????? ????? 000 ????? 11000 11'' i = Inr (opcode i = 0x63 \<and> funct3 i = 0)"
  "instpat_match ''??????? ????? ????? 001 ????? 11000 11'' i = Inr (opcode i = 0x63 \<and> funct3 i = 1)"
  "instpat_match ''??????? ????? ????? 100 ????? 11000 11'' i = Inr (opcode i = 0x63 \<and> funct3 i = 4)"
  "instpat_match ''??????? ????? ????? 101 ????? 11000 11'' i = Inr (opcode i = 0x63 \<and> funct3 i = 5)"
  "instpat_match ''??????? ????? ????? 110 ????? 11000 11'' i = Inr (opcode i = 0x63 \<and> funct3 i = 6)"
  "instpat_match ''??????? ????? ????? 111 ????? 11000 11'' i = Inr (opcode i = 0x63 \<and> funct3 i = 7)"
  "instpat_match ''??????? ????? ????? 000 ????? 00000 11'' i = Inr (opcode i = 0x3 \<and> funct3 i = 0)"
  "instpat_match ''??????? ????? ????? 001 ????? 00000 11'' i = Inr (opcode i = 0x3 \<and> funct3 i = 1)"
  "instpat_match ''??????? ????? ????? 010 ????? 00000 11'' i = Inr (opcode i = 0x3 \<and> funct3 i = 2)"
  "instpat_match ''??????? ????? ????? 100 ????? 00000 11'' i = Inr (opcode i = 0x3 \<and> funct3 i = 4)"
  "instpat_match ''??????? ????? ????? 101 ????? 00000 11'' i = Inr (opcode i = 0x3 \<and> funct3 i = 5)"
  "instpat_match ''??????? ????? ????? 000 ????? 01000 11'' i = Inr (opcode i = 0x23 \<and> funct3 i = 0)"
  "instpat_match ''??????? ????? ????? 001 ????? 01000 11'' i = Inr (opcode i = 0x23 \<and> funct3 i = 1)"
  "instpat_match ''??????? ????? ????? 010 ????? 01000 11'' i = Inr (opcode i = 0x23 \<and> funct3 i = 2)"
  "instpat_match ''??????? ????? ????? 000 ????? 00100 11'' i = Inr (opcode i = 0x13 \<and> funct3 i = 0)"
  "instpat_match ''??????? ????? ????? 010 ????? 00100 11'' i = Inr (opcode i = 0x13 \<and> funct3 i = 2)"
  "instpat_match ''??????? ????? ????? 011 ????? 00100 11'' i = Inr (opcode i = 0x13 \<and> funct3 i = 3)"
  "instpat_match ''??????? ????? ????? 100 ????? 00100 11'' i = Inr (opcode i = 0x13 \<and> funct3 i = 4)"
  "instpat_match ''??????? ????? ????? 110 ????? 00100 11'' i = Inr (opcode i = 0x13 \<and> funct3 i = 6)"
  "instpat_match ''??????? ????? ????? 111 ????? 00100 11'' i = Inr (opcode i = 0x13 \<and> funct3 i = 7)"
  "instpat_match ''0000000 ????? ????? 001 ????? 00100 11'' i = Inr (opcode i = 0x13 \<and> funct3 i = 1 \<and> funct7 i = 0x0)"
  "instpat_match ''0000000 ????? ????? 101 ????? 00100 11'' i = Inr (opcode i = 0x13 \<and> funct3 i = 5 \<and> funct7 i = 0x0)"
  "instpat_match ''0100000 ????? ????? 101 ????? 00100 11'' i = Inr (opcode i = 0x13 \<and> funct3 i = 5 \<and> funct7 i = 0x20)"
  "instpat_match ''0000000 ????? ????? 000 ????? 01100 11'' i = Inr (opcode i = 0x33 \<and> funct3 i = 0 \<and> funct7 i = 0x0)"
  "instpat_match ''0100000 ????? ????? 000 ????? 01100 11'' i = Inr (opcode i = 0x33 \<and> funct3 i = 0 \<and> funct7 i = 0x20)"
  "instpat_match ''0000000 ????? ????? 001 ????? 01100 11'' i = Inr (opcode i = 0x33 \<and> funct3 i = 1 \<and> funct7 i = 0x0)"
  "instpat_match ''0000000 ????? ????? 010 ????? 01100 11'' i = Inr (opcode i = 0x33 \<and> funct3 i = 2 \<and> funct7 i = 0x0)"
  "instpat_match ''0000000 ????? ????? 011 ????? 01100 11'' i = Inr (opcode i = 0x33 \<and> funct3 i = 3 \<and> funct7 i = 0x0)"
  "instpat_match ''0000000 ????? ????? 100 ????? 01100 11'' i = Inr (opcode i = 0x33 \<and> funct3 i = 4 \<and> funct7 i = 0x0)"
  "instpat_match ''0000000 ????? ????? 101 ????? 01100 11'' i = Inr (opcode i = 0x33 \<and> funct3 i = 5 \<and> funct7 i = 0x0)"
  "instpat_match ''0100000 ????? ????? 101 ????? 01100 11'' i = Inr (opcode i = 0x33 \<and> funct3 i = 5 \<and> funct7 i = 0x20)"
  "instpat_match ''0000000 ????? ????? 110 ????? 01100 11'' i = Inr (opcode i = 0x33 \<and> funct3 i = 6 \<and> funct7 i = 0x0)"
  "instpat_match ''0000000 ????? ????? 111 ????? 01100 11'' i = Inr (opcode i = 0x33 \<and> funct3 i = 7 \<and> funct7 i = 0x0)"
  "instpat_match ''0000001 ????? ????? 000 ????? 01100 11'' i = Inr (opcode i = 0x33 \<and> funct3 i = 0 \<and> funct7 i = 0x1)"
  "instpat_match ''0000001 ????? ????? 001 ????? 01100 11'' i = Inr (opcode i = 0x33 \<and> funct3 i = 1 \<and> funct7 i = 0x1)"
  "instpat_match ''0000001 ????? ????? 011 ????? 01100 11'' i = Inr (opcode i = 0x33 \<and> funct3 i = 3 \<and> funct7 i = 0x1)"
  "instpat_match ''0000001 ????? ????? 100 ????? 01100 11'' i = Inr (opcode i = 0x33 \<and> funct3 i = 4 \<and> funct7 i = 0x1)"
  "instpat_match ''0000001 ????? ????? 101 ????? 01100 11'' i = Inr (opcode i = 0x33 \<and> funct3 i = 5 \<and> funct7 i = 0x1)"
  "instpat_match ''0000001 ????? ????? 110 ????? 01100 11'' i = Inr (opcode i = 0x33 \<and> funct3 i = 6 \<and> funct7 i = 0x1)"
  "instpat_match ''0000001 ????? ????? 111 ????? 01100 11'' i = Inr (opcode i = 0x33 \<and> funct3 i = 7 \<and> funct7 i = 0x1)"
  "instpat_match ''??????? ????? ????? 001 ????? 11100 11'' i = Inr (opcode i = 0x73 \<and> funct3 i = 1)"
  "instpat_match ''??????? ????? ????? 010 ????? 11100 11'' i = Inr (opcode i = 0x73 \<and> funct3 i = 2)"
  "instpat_match ''0000000 00000 00000 000 00000 11100 11'' i = Inr (i = 0x73)"
  "instpat_match ''0000000 00001 00000 000 00000 11100 11'' i = Inr (i = 0x100073)"
  "instpat_match ''0011000 00010 00000 000 00000 11100 11'' i = Inr (i = 0x30200073)"
  "instpat_match ''??????? ????? ????? ??? ????? ????? ??'' i = Inr (True)"
  by (simp_all add: instpat_match_def pattern_decode_table match_narrow opcode_eq f3_eq f7_eq
      fields_numeral and_all_ones)

lemma fixed_words:
  "i = 0x73 \<or> i = 0x100073 \<or> i = 0x30200073 \<Longrightarrow> opcode i = 0x73 \<and> funct3 i = 0"
  by (auto simp: fields_numeral)

lemma dispatch_table:
  "instpat_dispatch instpat_table i =
    (if opcode i = 0x37 then Inr (Some (I_lui, TYPE_U)) else
    (if opcode i = 0x17 then Inr (Some (I_auipc, TYPE_U)) else
    (if opcode i = 0x6f then Inr (Some (I_jal, TYPE_J)) else
    (if opcode i = 0x67 \<and> funct3 i = 0 then Inr (Some (I_jalr, TYPE_I)) else
    (if opcode i = 0x63 \<and> funct3 i = 0 then Inr (Some (I_beq, TYPE_B)) else
    (if opcode i = 0x63 \<and> funct3 i = 1 then Inr (Some (I_bne, TYPE_B)) else
    (if opcode i = 0x63 \<and> funct3 i = 4 then Inr (Some (I_blt, TYPE_B)) else
    (if opcode i = 0x63 \<and> funct3 i = 5 then Inr (Some (I_bge, TYPE_B)) else
    (if opcode i = 0x63 \<and> funct3 i = 6 then Inr (Some (I_bltu, TYPE_B)) else
    (if opcode i = 0x63 \<and> funct3 i = 7 then Inr (Some (I_bgeu, TYPE_B)) else
    (if opcode i = 0x3 \<and> funct3 i = 0 then Inr (Some (I_lb, TYPE_I)) else
    (if opcode i = 0x3 \<and> funct3 i = 1 then Inr (Some (I_lh, TYPE_I)) else
    (if opcode i = 0x3 \<and> funct3 i = 2 then Inr (Some (I_lw, TYPE_I)) else
    (if opcode i = 0x3 \<and> funct3 i = 4 then Inr (Some (I_lbu, TYPE_I)) else
    (if opcode i = 0x3 \<and> funct3 i = 5 then Inr (Some (I_lhu, TYPE_I)) else
    (if opcode i = 0x23 \<and> funct3 i = 0 then Inr (Some (I_sb, TYPE_S)) else
    (if opcode i = 0x23 \<and> funct3 i = 1 then Inr (Some (I_sh, TYPE_S)) else
    (if opcode i = 0x23 \<and> funct3 i = 2 then Inr (Some (I_sw, TYPE_S)) else
    (if opcode i = 0x13 \<and> funct3 i = 0 then Inr (Some (I_addi, TYPE_I)) else
    (if opcode i = 0x13 \<and> funct3 i = 2 then Inr (Some (I_slti, TYPE_I)) else
    (if opcode i = 0x13 \<and> funct3 i = 3 then Inr (Some (I_sltiu, TYPE_I)) else
    (if opcode i = 0x13 \<and> funct3 i = 4 then Inr (Some (I_xori, TYPE_I)) else
    (if opcode i = 0x13 \<and> funct3 i = 6 then Inr (Some (I_ori, TYPE_I)) else
    (if opcode i = 0x13 \<and> funct3 i = 7 then Inr (Some (I_andi, TYPE_I)) else
    (if opcode i = 0x13 \<and> funct3 i = 1 \<and> funct7 i = 0x0 then Inr (Some (I_slli, TYPE_I)) else
    (if opcode i = 0x13 \<and> funct3 i = 5 \<and> funct7 i = 0x0 then Inr (Some (I_srli, TYPE_I)) else
    (if opcode i = 0x13 \<and> funct3 i = 5 \<and> funct7 i = 0x20 then Inr (Some (I_srai, TYPE_I)) else
    (if opcode i = 0x33 \<and> funct3 i = 0 \<and> funct7 i = 0x0 then Inr (Some (I_add, TYPE_R)) else
    (if opcode i = 0x33 \<and> funct3 i = 0 \<and> funct7 i = 0x20 then Inr (Some (I_sub, TYPE_R)) else
    (if opcode i = 0x33 \<and> funct3 i = 1 \<and> funct7 i = 0x0 then Inr (Some (I_sll, TYPE_R)) else
    (if opcode i = 0x33 \<and> funct3 i = 2 \<and> funct7 i = 0x0 then Inr (Some (I_slt, TYPE_R)) else
    (if opcode i = 0x33 \<and> funct3 i = 3 \<and> funct7 i = 0x0 then Inr (Some (I_sltu, TYPE_R)) else
    (if opcode i = 0x33 \<and> funct3 i = 4 \<and> funct7 i = 0x0 then Inr (Some (I_xor, TYPE_R)) else
    (if opcode i = 0x33 \<and> funct3 i = 5 \<and> funct7 i = 0x0 then Inr (Some (I_srl, TYPE_R)) else
    (if opcode i = 0x33 \<and> funct3 i = 5 \<and> funct7 i = 0x20 then Inr (Some (I_sra, TYPE_R)) else
    (if opcode i = 0x33 \<and> funct3 i = 6 \<and> funct7 i = 0x0 then Inr (Some (I_or, TYPE_R)) else
    (if opcode i = 0x33 \<and> funct3 i = 7 \<and> funct7 i = 0x0 then Inr (Some (I_and, TYPE_R)) else
    (if opcode i = 0x33 \<and> funct3 i = 0 \<and> funct7 i = 0x1 then Inr (Some (I_mul, TYPE_R)) else
    (if opcode i = 0x33 \<and> funct3 i = 1 \<and> funct7 i = 0x1 then Inr (Some (I_mulh, TYPE_R)) else
    (if opcode i = 0x33 \<and> funct3 i = 3 \<and> funct7 i = 0x1 then Inr (Some (I_mulhu, TYPE_R)) else
    (if opcode i = 0x33 \<and> funct3 i = 4 \<and> funct7 i = 0x1 then Inr (Some (I_div, TYPE_R)) else
    (if opcode i = 0x33 \<and> funct3 i = 5 \<and> funct7 i = 0x1 then Inr (Some (I_divu, TYPE_R)) else
    (if opcode i = 0x33 \<and> funct3 i = 6 \<and> funct7 i = 0x1 then Inr (Some (I_rem, TYPE_R)) else
    (if opcode i = 0x33 \<and> funct3 i = 7 \<and> funct7 i = 0x1 then Inr (Some (I_remu, TYPE_R)) else
    (if opcode i = 0x73 \<and> funct3 i = 1 then Inr (Some (I_csrrw, TYPE_I)) else
    (if opcode i = 0x73 \<and> funct3 i = 2 then Inr (Some (I_csrrs, TYPE_I)) else
    (if i = 0x73 then Inr (Some (I_ecall, TYPE_N)) else
    (if i = 0x100073 then Inr (Some (I_ebreak, TYPE_N)) else
    (if i = 0x30200073 then Inr (Some (I_mret, TYPE_R)) else
     Inr (Some (I_inv, TYPE_N)))))))))))))))))))))))))))))))))))))))))))))))))))"
  by (simp only: instpat_table_def instpat_dispatch.simps instpat_match_table bind_res_Inr if_True)

lemma dispatch_eq:
  "instpat_dispatch instpat_table i = Inr (Some (rv32_decode i, itype_of (rv32_decode i)))"
proof -
  consider "opcode i = 0x73" | "opcode i \<noteq> 0x73" "i \<noteq> 0x73" "i \<noteq> 0x100073" "i \<noteq> 0x30200073"
    using fixed_words by blast
  then show ?thesis
  proof cases
    case 1
    show ?thesis
    proof (cases "funct3 i = 0")
      case True
      with 1 show ?thesis by (simp add: dispatch_table rv32_decode_def Let_def)
    next
      case False
      then have "i \<noteq> 0x73" "i \<noteq> 0x100073" "i \<noteq> 0x30200073" using fixed_words by blast+
      with 1 show ?thesis by (simp add: dispatch_table rv32_decode_def Let_def)
    qed
  next
    case 2
    show ?thesis
    proof (cases "opcode i \<in> {0x13, 0x33}")
      case False
      with 2 show ?thesis by (simp add: dispatch_table rv32_decode_def Let_def)
    next
      case True
      then show ?thesis
        using funct3_cases [of i] 2 by (elim insertE disjE emptyE; simp add: dispatch_table rv32_decode_def Let_def)
    qed
  qed
qed

subsection \<open>Facts: immediates survive encoding\<close>

lemma fits_signed_bit:
  assumes "fits_signed n k" and "m < 32"
  shows "bit k (min (n - 1) m) \<longleftrightarrow> bit k m"
proof -
  have "bit (signed_take_bit (n - 1) k) m = bit k (min (n - 1) m)"
    using assms(2) by (simp add: bit_simps)
  with assms(1) show ?thesis by (simp add: fits_signed_def)
qed

lemma fits_signed_high:
  assumes "fits_signed n k" and "n - 1 \<le> m" and "m < 32"
  shows "bit k m \<longleftrightarrow> bit k (n - 1)"
  using fits_signed_bit [OF assms(1,3)] assms(2) by (simp add: min_def)

lemma even_immB: "even (immB i)"
  using bit_immB [of 0 i] by (simp add: bit_0)

lemma even_immJ: "even (immJ i)"
  using bit_immJ [of 0 i] by (simp add: bit_0)

lemma take_bit_0_bit: "take_bit m k = 0 \<Longrightarrow> n < m \<Longrightarrow> \<not> bit k n" for k :: "'a::len word"
  using bit_take_bit_iff [of m k n] by simp

lemma immI_enc:
  assumes "fits_signed 12 k"
  shows "immI (enc_immI k OR take_bit 20 r) = k"
proof (rule bit_word_eqI)
  fix n assume n: "n < LENGTH(32)"
  then show "bit (immI (enc_immI k OR take_bit 20 r)) n = bit k n"
    using fits_signed_bit [OF assms, of n]
    by (auto simp: bit_immI enc_immI_def bit_simps)
qed

lemma immU_enc:
  assumes "take_bit 12 k = 0"
  shows "immU (enc_immU k OR take_bit 12 r) = k"
proof (rule bit_word_eqI)
  fix n assume n: "n < LENGTH(32)"
  then show "bit (immU (enc_immU k OR take_bit 12 r)) n = bit k n"
    using take_bit_0_bit [OF assms, of n]
    by (cases "n < 12") (auto simp: bit_immU enc_immU_def bit_simps)
qed

lemma immS_enc:
  assumes "fits_signed 12 k"
  shows "immS (enc_immS k OR take_bit 7 r OR push_bit 12 (take_bit 13 r')) = k"
proof (rule bit_word_eqI)
  fix n assume n: "n < LENGTH(32)"
  then show "bit (immS (enc_immS k OR take_bit 7 r OR push_bit 12 (take_bit 13 r'))) n = bit k n"
    using fits_signed_bit [OF assms, of n]
    by (cases "n < 5"; cases "n < 11") (auto simp: bit_immS enc_immS_def bit_simps)
qed

lemma immB_enc:
  assumes "fits_signed 13 k" and "even k"
  shows "immB (enc_immB k OR take_bit 7 r OR push_bit 12 (take_bit 13 r')) = k"
proof (rule bit_word_eqI)
  fix n assume n: "n < LENGTH(32)"
  consider "n = 0" | "0 < n" "n < 5" | "5 \<le> n" "n < 11" | "n = 11" | "12 \<le> n" by linarith
  then show "bit (immB (enc_immB k OR take_bit 7 r OR push_bit 12 (take_bit 13 r'))) n = bit k n"
    using fits_signed_high [OF assms(1), of n] assms(2) n
    by cases (auto simp: bit_immB enc_immB_def even_immB bit_simps bit_0 simp flip: bit_iff_odd_drop_bit)
qed

lemma immJ_enc:
  assumes "fits_signed 21 k" and "even k"
  shows "immJ (enc_immJ k OR take_bit 12 r) = k"
proof (rule bit_word_eqI)
  fix n assume n: "n < LENGTH(32)"
  consider "n = 0" | "0 < n" "n < 11" | "n = 11" | "12 \<le> n" "n < 20" | "20 \<le> n" by linarith
  then show "bit (immJ (enc_immJ k OR take_bit 12 r)) n = bit k n"
    using fits_signed_high [OF assms(1), of n] assms(2) n
    by cases (auto simp: bit_immJ enc_immJ_def even_immJ bit_simps bit_0 simp flip: bit_iff_odd_drop_bit)
qed

end
