(* ===== verification/Cpu_Props.thy ===== *)
theory Cpu_Props
  imports Riscv32_Decode Poweron
begin

text \<open>
  Properties of the processor model: decoding, immediates, the arithmetic of whole
  instructions against a specification on integers, loads and stores, control
  transfers and traps.
\<close>

subsection \<open>Decoding\<close>

text \<open>A pattern string selects exactly the instruction words whose bits agree with its
  0 and 1 characters, blanks and wild cards being skipped.\<close>

theorem pattern_match_correct:
  assumes "pattern_wf pat"
  shows "instpat_match pat inst = Inr (pattern_agrees (pattern_chars pat) inst)"
  using assms by (rule instpat_match_iff)

theorem pattern_match_correct_witness:
  "instpat_match ''??0 1'' 0xfffffff9 = Inr (pattern_agrees ''??01'' 0xfffffff9)"
  using pattern_match_correct [of "''??0 1''" "0xfffffff9"]
  by (simp add: pattern_wf_def pattern_chars_def)

text \<open>C3: For every one of the 2^32 instruction words, the ordered list of patterns selects
  the instruction and operand format that the opcode, funct3 and funct7 fields determine.\<close>

theorem decode_matches_fields:
  "instpat_dispatch instpat_table i = Inr (Some (rv32_decode i, itype_of (rv32_decode i)))"
  by (rule dispatch_eq)

text \<open>C8: The five immediate formats are inverse to the encodings of the RISC-V manual for
  every representable immediate, whatever the other bits of the word.\<close>

theorem immediates_roundtrip:
  shows "(fits_signed 12 k \<longrightarrow> immI (enc_immI k OR take_bit 20 r) = k) \<and>
    (fits_signed 12 k \<longrightarrow> immS (enc_immS k OR take_bit 7 r OR push_bit 12 (take_bit 13 r')) = k) \<and>
    (fits_signed 13 k \<and> even k \<longrightarrow>
       immB (enc_immB k OR take_bit 7 r OR push_bit 12 (take_bit 13 r')) = k) \<and>
    (take_bit 12 k = 0 \<longrightarrow> immU (enc_immU k OR take_bit 12 r) = k) \<and>
    (fits_signed 21 k \<and> even k \<longrightarrow> immJ (enc_immJ k OR take_bit 12 r) = k)"
proof (intro conjI impI, goal_cases)
  case 1 then show ?case by (rule immI_enc)
next
  case 2 then show ?case by (rule immS_enc)
next
  case 3 then show ?case using immB_enc by blast
next
  case 4 then show ?case by (rule immU_enc)
next
  case 5 then show ?case using immJ_enc by blast
qed

theorem immediates_roundtrip_witness:
  "immI (enc_immI (-4) OR take_bit 20 0x13) = -4"
  using immediates_roundtrip [of "-4" "0x13"] by (simp add: fits_signed_def)

subsection \<open>Arithmetic\<close>

lemma high_word:
  "ucast (signed_drop_bit 32 (word_of_int x :: u64)) = (word_of_int (x div 2 ^ 32) :: u32)"
proof (rule bit_word_eqI)
  fix n assume n: "n < LENGTH(32)"
  have "bit (x div 2 ^ 32) n = bit x (32 + n)"
    by (simp only: drop_bit_eq_div [symmetric] bit_drop_bit_eq comp_def)
  with n show "bit (ucast (signed_drop_bit 32 (word_of_int x :: u64)) :: u32) n
    = bit (word_of_int (x div 2 ^ 32) :: u32) n"
    by (simp add: bit_simps)
qed

lemma mulh_word_int: "mulh_word a b = word_of_int (sint a * sint b div 2 ^ 32)"
proof -
  have "(scast a :: u64) * scast b = word_of_int (sint a * sint b)" by (metis of_int_mult scast_eq)
  then show ?thesis by (simp only: mulh_word_def high_word)
qed

lemma mulhu_word_int:
  "mulhu_word a b = (if uint a * uint b < 2 ^ 63 then Inr (word_of_int (uint a * uint b div 2 ^ 32)) else Inl Signed_overflow)"
proof -
  have "(ucast a :: u64) * ucast b = word_of_int (uint a * uint b)" by (metis of_int_mult ucast_eq)
  then show ?thesis by (simp only: mulhu_word_def high_word not_less [symmetric] if_not_P split: if_split) simp
qed

subsection \<open>Whole instructions\<close>

text \<open>The results of the RISC-V manual, on integers, from the address of the instruction and its
  two operands.  The code computes \<open>mulhu\<close> in a signed type, which a product of
  \<open>2\<^sup>6\<^sup>3\<close> or more overflows; it has no \<open>mulhsu\<close>.\<close>

fun alu_spec :: "opname \<Rightarrow> (u32 \<Rightarrow> u32 \<Rightarrow> u32 \<Rightarrow> u32 res) option" where
  "alu_spec nm =
     (if nm = I_lui then Some (\<lambda>pc a b. Inr b)
      else if nm = I_auipc then Some (\<lambda>pc a b. Inr (word_of_int (uint pc + uint b)))
      else if nm = I_add \<or> nm = I_addi then Some (\<lambda>pc a b. Inr (word_of_int (uint a + uint b)))
      else if nm = I_sub then Some (\<lambda>pc a b. Inr (word_of_int (uint a - uint b)))
      else if nm = I_mul then Some (\<lambda>pc a b. Inr (word_of_int (uint a * uint b)))
      else if nm = I_mulh then Some (\<lambda>pc a b. Inr (word_of_int (sint a * sint b div 2 ^ 32)))
      else if nm = I_mulhu then Some (\<lambda>pc a b. if uint a * uint b < 2 ^ 63
        then Inr (word_of_int (uint a * uint b div 2 ^ 32)) else Inl Signed_overflow)
      else if nm = I_sll \<or> nm = I_slli then Some (\<lambda>pc a b. Inr (word_of_int (uint a * 2 ^ (unat b mod 32))))
      else if nm = I_srl \<or> nm = I_srli then Some (\<lambda>pc a b. Inr (word_of_int (uint a div 2 ^ (unat b mod 32))))
      else if nm = I_sra \<or> nm = I_srai then Some (\<lambda>pc a b. Inr (word_of_int (sint a div 2 ^ (unat b mod 32))))
      else if nm = I_slt \<or> nm = I_slti then Some (\<lambda>pc a b. Inr (if sint a < sint b then 1 else 0))
      else if nm = I_sltu \<or> nm = I_sltiu then Some (\<lambda>pc a b. Inr (if uint a < uint b then 1 else 0))
      else if nm = I_xor \<or> nm = I_xori then Some (\<lambda>pc a b. Inr (a XOR b))
      else if nm = I_or \<or> nm = I_ori then Some (\<lambda>pc a b. Inr (a OR b))
      else if nm = I_and \<or> nm = I_andi then Some (\<lambda>pc a b. Inr (a AND b))
      else None)"

text \<open>Division rounds towards zero and the remainder is what is left; the code divides with the
  host's operators, which trap where the manual defines a result.\<close>

definition tquot :: "int \<Rightarrow> int \<Rightarrow> int" where
  "tquot x y = sgn x * sgn y * (\<bar>x\<bar> div \<bar>y\<bar>)"

definition trem :: "int \<Rightarrow> int \<Rightarrow> int" where
  "trem x y = x - y * tquot x y"

fun div_spec :: "opname \<Rightarrow> (u32 \<Rightarrow> u32 \<Rightarrow> u32 res) option" where
  "div_spec nm =
     (let trapping = (\<lambda>t v. if t then Inl Div_trap else Inr (word_of_int v));
          overflow = (\<lambda>a b. sint (a :: u32) = - (2 ^ 31) \<and> sint (b :: u32) = -1)
      in if nm = I_div then Some (\<lambda>a b. trapping (b = 0 \<or> overflow a b) (tquot (sint a) (sint b)))
         else if nm = I_rem then Some (\<lambda>a b. trapping (b = 0 \<or> overflow a b) (trem (sint a) (sint b)))
         else if nm = I_divu then Some (\<lambda>a b. trapping (b = 0) (uint a div uint b))
         else if nm = I_remu then Some (\<lambda>a b. trapping (b = 0) (uint a mod uint b))
         else None)"

definition rs1_of :: "u32 \<Rightarrow> nat" where "rs1_of i = unat (BITS i 19 15)"
definition rs2_of :: "u32 \<Rightarrow> nat" where "rs2_of i = unat (BITS i 24 20)"
definition rd_of :: "u32 \<Rightarrow> nat" where "rd_of i = unat (BITS i 11 7)"

lemma reg_field_less: "unat (BITS i hi lo :: u64) < 32" if "hi - lo = 4"
proof -
  have "BITS i hi lo = take_bit 5 (BITS i hi lo)"
    using that by (intro bit_word_eqI) (auto simp: bit_simps bit_BITS)
  then have "unat (BITS i hi lo) = take_bit 5 (unat (BITS i hi lo))"
    by (metis unsigned_take_bit_eq)
  also have "\<dots> < 32" using take_bit_nat_less_exp [of 5] by simp
  finally show ?thesis .
qed

lemma shift_amount: "unat (b AND 0x1f) = unat b mod 32" for b :: u32
proof -
  have "b AND 0x1f = take_bit 5 b" by (simp add: take_bit_eq_mask mask_eq_exp_minus_1)
  then show ?thesis by (simp only: unsigned_take_bit_eq) (simp add: take_bit_eq_mod)
qed

lemma push_bit_int: "push_bit n a = word_of_int (uint a * 2 ^ n)" for a :: u32
  by (simp add: push_bit_eq_mult)

lemma drop_bit_int: "drop_bit n a = word_of_int (uint a div 2 ^ n)" for a :: u32
  by (rule bit_word_eqI) (simp add: bit_simps drop_bit_eq_div [symmetric])

lemma signed_drop_bit_int: "signed_drop_bit n a = word_of_int (sint a div 2 ^ n)" for a :: u32
proof (rule bit_word_eqI)
  fix m assume "m < LENGTH(32)"
  then show "bit (signed_drop_bit n a) m = bit (word_of_int (sint a div 2 ^ n) :: u32) m"
    by (cases "n + m = 31") (auto simp: bit_simps drop_bit_eq_div [symmetric] min_def)
qed

lemmas alu_words =
  shift_amount push_bit_int drop_bit_int signed_drop_bit_int mulh_word_int mulhu_word_int

lemma alu_body:
  assumes "alu_spec nm = Some f"
  shows "itype_of nm = TYPE_R \<or> itype_of nm = TYPE_I \<or> itype_of nm = TYPE_U"
    and "exec_body c nm rd a b imm d s = bind_res (f (d_pc d) a (if itype_of nm = TYPE_R then b else imm)) (\<lambda>v. wb c rd v d s)"
  using assms
  by (cases nm; auto simp: alu_words word_less_def of_truth_def simp del: push_bit_numeral)+

lemma overflow_words: "a = min_int \<and> b = -1 \<longleftrightarrow> sint a = - (2 ^ 31) \<and> sint b = -1" for a b :: u32
  using signed_word_eqI [of a min_int] signed_word_eqI [of b "-1"] by (auto simp: min_int_def)

lemma div_words:
  "sdiv_word a b = (if b = 0 \<or> sint a = - (2 ^ 31) \<and> sint b = -1 then Inl Div_trap else Inr (word_of_int (tquot (sint a) (sint b))))"
  "srem_word a b = (if b = 0 \<or> sint a = - (2 ^ 31) \<and> sint b = -1 then Inl Div_trap else Inr (word_of_int (trem (sint a) (sint b))))"
  "udiv_word a b = (if b = 0 then Inl Div_trap else Inr (word_of_int (uint a div uint b)))"
  "urem_word a b = (if b = 0 then Inl Div_trap else Inr (word_of_int (uint a mod uint b)))"
proof -
  have q: "x sdiv y = tquot x y" "x smod y = trem x y" for x y :: int
    using sdiv_mult_smod_eq [of x y] by (simp_all add: tquot_def trem_def signed_divide_int_def algebra_simps)
  show "sdiv_word a b = (if b = 0 \<or> sint a = - (2 ^ 31) \<and> sint b = -1 then Inl Div_trap else Inr (word_of_int (tquot (sint a) (sint b))))"
    "srem_word a b = (if b = 0 \<or> sint a = - (2 ^ 31) \<and> sint b = -1 then Inl Div_trap else Inr (word_of_int (trem (sint a) (sint b))))"
    unfolding sdiv_word_def srem_word_def overflow_words q by (rule refl)+
  show "udiv_word a b = (if b = 0 then Inl Div_trap else Inr (word_of_int (uint a div uint b)))"
    "urem_word a b = (if b = 0 then Inl Div_trap else Inr (word_of_int (uint a mod uint b)))"
    by (simp_all add: udiv_word_def urem_word_def word_div_def word_mod_def)
qed

lemma div_body:
  assumes "div_spec nm = Some f"
  shows "itype_of nm = TYPE_R" and "exec_body c nm rd a b imm d s = bind_res (f a b) (\<lambda>v. wb c rd v d s)"
  using assms by (cases nm; auto simp: div_words Let_def)+

lemma gpr_get_ok:
  "cpu_shape c (cpu s) \<Longrightarrow> \<not> CONFIG_RVE c \<Longrightarrow> n < 32 \<Longrightarrow> gpr_get c n s = Inr (gpr (cpu s) ! n)"
  by (simp add: gpr_get_def check_reg_idx_def cpu_shape_def nr_gpr_def)

lemma gpr_set_ok:
  "cpu_shape c (cpu s) \<Longrightarrow> \<not> CONFIG_RVE c \<Longrightarrow> n < 32 \<Longrightarrow>
   gpr_set c n v s = Inr (s\<lparr>cpu := (cpu s)\<lparr>gpr := (gpr (cpu s))[n := v]\<rparr>\<rparr>)"
  by (simp add: gpr_set_def check_reg_idx_def cpu_shape_def nr_gpr_def)

lemma reg_fields [simp]: "rs1_of i < 32" "rs2_of i < 32" "rd_of i < 32"
  by (simp_all add: rs1_of_def rs2_of_def rd_of_def reg_field_less)

text \<open>An instruction word stored where the next fetch looks.\<close>

definition inst_at :: "config \<Rightarrow> u32 \<Rightarrow> u32 \<Rightarrow> 'a nemu_scheme \<Rightarrow> bool" where
  "inst_at c p i s \<longleftrightarrow> paddr_read c p 4 s = Inr (i, s)"

text \<open>The decoding information after the fetch.\<close>

definition fetched :: "u32 \<Rightarrow> Decode \<Rightarrow> Decode" where
  "fetched i d = d\<lparr>d_inst := i, d_snpc := d_snpc d + 4, d_dnpc := d_snpc d + 4\<rparr>"

text \<open>The operands a format reads.\<close>

definition operands :: "u32 \<Rightarrow> cpu_state \<Rightarrow> u32 \<times> u32 \<times> u32" where
  "operands i r =
     (let a = gpr r ! rs1_of i; b = gpr r ! rs2_of i in
      case itype_of (rv32_decode i) of
        TYPE_I \<Rightarrow> (a, 0, immI i) | TYPE_U \<Rightarrow> (0, 0, immU i) | TYPE_S \<Rightarrow> (a, b, immS i)
      | TYPE_J \<Rightarrow> (0, 0, immJ i) | TYPE_R \<Rightarrow> (a, b, 0) | TYPE_B \<Rightarrow> (a, b, immB i)
      | TYPE_N \<Rightarrow> (0, 0, 0))"

lemma decode_operand_ok:
  assumes "cpu_shape c (cpu s)" and "\<not> CONFIG_RVE c"
  shows "decode_operand c i (itype_of (rv32_decode i)) s = Inr (rd_of i, operands i (cpu s))"
  using gpr_get_ok [OF assms, of "rs1_of i"] gpr_get_ok [OF assms, of "rs2_of i"]
  by (cases "itype_of (rv32_decode i)")
    (simp_all add: decode_operand_def operands_def Let_def rs1_of_def rs2_of_def rd_of_def
      reg_field_less del: itype_of.simps)

text \<open>One instruction: the body the fields select, then \<open>R(0) = 0\<close>.\<close>

lemma exec_once_bind:
  assumes "cpu_shape c (cpu s)" and "\<not> CONFIG_RVE c" and "inst_at c (d_snpc d) i s"
    and "operands i (cpu s) = (a, b, imm)"
  shows "isa_exec_once c d s = bind_res (exec_body c (rv32_decode i) (rd_of i) a b imm (fetched i d) s)
    (\<lambda>(d', s'). bind_res (gpr_set c 0 0 s') (\<lambda>s''. Inr (d', s'')))"
  using assms decode_operand_ok [OF assms(1,2), of i]
  by (simp add: isa_exec_once_def inst_fetch_def vaddr_ifetch_def inst_at_def decode_exec_def
      dispatch_eq fetched_def Let_def del: itype_of.simps)

lemma exec_once_body:
  assumes "cpu_shape c (cpu s)" and "\<not> CONFIG_RVE c" and "inst_at c (d_snpc d) i s"
    and "operands i (cpu s) = (a, b, imm)"
    and "exec_body c (rv32_decode i) (rd_of i) a b imm (fetched i d) s = Inr (d', s')"
  shows "isa_exec_once c d s
    = Inr (d', s'\<lparr>cpu := (cpu s')\<lparr>gpr := (gpr (cpu s'))[0 := 0]\<rparr>\<rparr>)"
proof -
  have "cpu_shape c (cpu s')" using exec_body_shape [OF assms(5,1)] .
  then have "gpr_set c 0 0 s' = Inr (s'\<lparr>cpu := (cpu s')\<lparr>gpr := (gpr (cpu s'))[0 := 0]\<rparr>\<rparr>)"
    by (rule gpr_set_ok [OF _ assms(2)]) simp
  then show ?thesis
    using assms decode_operand_ok [OF assms(1,2), of i]
    by (simp add: isa_exec_once_def inst_fetch_def vaddr_ifetch_def inst_at_def decode_exec_def
        dispatch_eq fetched_def Let_def del: itype_of.simps)
qed

lemma wb_ok:
  assumes "cpu_shape c (cpu s)" and "\<not> CONFIG_RVE c"
  shows "wb c (rd_of i) v d s = Inr (d, s\<lparr>cpu := (cpu s)\<lparr>gpr := (gpr (cpu s))[rd_of i := v]\<rparr>\<rparr>)"
  using gpr_set_ok [OF assms] by (simp add: wb_def)

text \<open>An instruction whose body computes a value and writes it to its destination.\<close>

lemma exec_once_wb:
  assumes "cpu_shape c (cpu s)" and "\<not> CONFIG_RVE c" and "inst_at c (d_snpc d) i s"
    and "operands i (cpu s) = (a, b, imm)"
    and "exec_body c (rv32_decode i) (rd_of i) a b imm (fetched i d) s = bind_res r (\<lambda>v. wb c (rd_of i) v (fetched i d) s)"
  shows "isa_exec_once c d s =
    bind_res r (\<lambda>v. Inr (fetched i d, s\<lparr>cpu := (cpu s)\<lparr>gpr := (gpr (cpu s))[rd_of i := v, 0 := 0]\<rparr>\<rparr>))"
proof (cases r)
  case (Inr v)
  then show ?thesis using exec_once_body [OF assms(1-4)] wb_ok [OF assms(1,2)] assms(5) by simp
qed (use exec_once_bind [OF assms(1-4)] assms(5) in simp)

definition alu_operand :: "u32 \<Rightarrow> cpu_state \<Rightarrow> u32" where
  "alu_operand i r =
     (case itype_of (rv32_decode i) of TYPE_R \<Rightarrow> gpr r ! rs2_of i | TYPE_U \<Rightarrow> immU i | _ \<Rightarrow> immI i)"

text \<open>C2: Executing any computation of the interpreter other than a division (the RV32I
  computations with lui and auipc, and mul, mulh, mulhu) writes the result of the RISC-V
  manual, stated on integers, to its destination, keeps x0 at zero, changes nothing else and
  goes on at pc + 4; only mulhu of a product of \<open>2\<^sup>6\<^sup>3\<close> or more is no result but a signed
  overflow of the emulator.\<close>

theorem alu_step:
  assumes "cpu_shape c (cpu s)" and "\<not> CONFIG_RVE c" and "inst_at c (d_snpc d) i s"
    and "alu_spec (rv32_decode i) = Some f"
  shows "isa_exec_once c d s =
    bind_res (f (d_pc d) (gpr (cpu s) ! rs1_of i) (alu_operand i (cpu s)))
      (\<lambda>v. Inr (fetched i d, s\<lparr>cpu := (cpu s)\<lparr>gpr := (gpr (cpu s))[rd_of i := v, 0 := 0]\<rparr>\<rparr>))"
proof -
  obtain a b imm where o: "operands i (cpu s) = (a, b, imm)" by (cases "operands i (cpu s)") auto
  have pc: "d_pc (fetched i d) = d_pc d" by (simp add: fetched_def)
  have "f (d_pc d) a (if itype_of (rv32_decode i) = TYPE_R then b else imm) =
      f (d_pc d) (gpr (cpu s) ! rs1_of i) (alu_operand i (cpu s))"
  proof (cases "itype_of (rv32_decode i) = TYPE_U")
    case True
    then have "f p x y = f p x' y" for p x x' y using assms(4) by (cases "rv32_decode i") auto
    then show ?thesis using True o by (auto simp: operands_def alu_operand_def Let_def simp del: itype_of.simps)
  next
    case False
    then show ?thesis
      using alu_body(1) [OF assms(4)] o by (auto simp: operands_def alu_operand_def Let_def simp del: itype_of.simps)
  qed
  then show ?thesis
    using exec_once_wb [OF assms(1-3) o alu_body(2) [OF assms(4)]] unfolding pc by (simp only:)
qed

text \<open>C12: Executing div, rem, divu or remu writes the quotient rounded towards zero or the
  remainder (signed or unsigned as the name says) to the destination and continues at pc + 4;
  on a zero divisor and on the signed overflow the emulator traps instead.\<close>

theorem div_rem_correct:
  assumes "cpu_shape c (cpu s)" and "\<not> CONFIG_RVE c" and "inst_at c (d_snpc d) i s"
    and "div_spec (rv32_decode i) = Some f"
  shows "isa_exec_once c d s =
    bind_res (f (gpr (cpu s) ! rs1_of i) (gpr (cpu s) ! rs2_of i))
      (\<lambda>v. Inr (fetched i d, s\<lparr>cpu := (cpu s)\<lparr>gpr := (gpr (cpu s))[rd_of i := v, 0 := 0]\<rparr>\<rparr>))"
proof -
  have "operands i (cpu s) = (gpr (cpu s) ! rs1_of i, gpr (cpu s) ! rs2_of i, 0)"
    using div_body(1) [OF assms(4)] by (simp add: operands_def Let_def del: itype_of.simps)
  from exec_once_wb [OF assms(1-3) this div_body(2) [OF assms(4)]] show ?thesis .
qed

text \<open>The statically initialised machine with one program at the reset address.\<close>

definition with_prog :: "u32 list \<Rightarrow> nemu" where
  "with_prog ws = power_on\<lparr>pmem := copy_words ws 0 (\<lambda>_. 0)\<rparr>"

lemma with_prog_wf [simp]: "cpu_wf default_config (cpu (with_prog ws))"
  by (simp add: with_prog_def power_on_def cpu_wf_def cpu_shape_def nr_gpr_def csr_num_def)

lemma with_prog_shape [simp]: "cpu_shape default_config (cpu (with_prog ws))"
  using with_prog_wf [of ws] by (simp add: cpu_wf_def)

lemma inst_at_first: "inst_at default_config 0x80000000 w (with_prog [w])"
  by (simp add: inst_at_def with_prog_def paddr_read_def in_pmem_def pmem_read_def guest_to_host_def
      host_read_def in_object_def)

theorem alu_step_witness:
  "map_sum id (\<lambda>(d, s). gpr (cpu s) ! 1)
     (isa_exec_once default_config \<lparr>d_pc = 0x80000000, d_snpc = 0x80000000, d_dnpc = 0, d_inst = 0\<rparr>
       (with_prog [0xffb00093])) = Inr (-5)"
proof -
  have dec: "rv32_decode 0xffb00093 = I_addi"
    by (simp add: rv32_decode_def opcode_def funct3_def funct7_def)
  have f: "rd_of 0xffb00093 = 1" "rs1_of 0xffb00093 = 0" "immI 0xffb00093 = -5"
    by (simp_all add: rd_of_def rs1_of_def immI_def BITS_def BITMASK_def SEXT_def)
  have "gpr (cpu (with_prog [0xffb00093])) = replicate 32 0"
    by (simp add: with_prog_def power_on_def)
  then show ?thesis
    using alu_step [where c = default_config and s = "with_prog [0xffb00093]" and i = "0xffb00093"
        and d = "\<lparr>d_pc = 0x80000000, d_snpc = 0x80000000, d_dnpc = 0, d_inst = 0\<rparr>"
        and f = "\<lambda>pc a b. Inr (word_of_int (uint a + uint b))"] inst_at_first [of "0xffb00093"]
    by (simp add: dec f alu_operand_def)
qed

theorem div_rem_correct_witness:
  "isa_exec_once default_config \<lparr>d_pc = 0x80000000, d_snpc = 0x80000000, d_dnpc = 0, d_inst = 0\<rparr>
     (with_prog [0x020540b3]) = Inl Div_trap \<and>
   map_sum id (\<lambda>(d, s). gpr (cpu s) ! 1)
     (isa_exec_once default_config \<lparr>d_pc = 0x80000000, d_snpc = 0x80000000, d_dnpc = 0, d_inst = 0\<rparr>
       (with_prog [0x02b560b3]\<lparr>cpu := (cpu power_on)\<lparr>gpr := (replicate 32 0)[10 := - 7, 11 := 2]\<rparr>\<rparr>)) = Inr (- 1)"
proof -
  have dec: "rv32_decode 0x020540b3 = I_div" "rv32_decode 0x02b560b3 = I_rem"
    by (simp_all add: rv32_decode_def opcode_def funct3_def funct7_def)
  have f: "rd_of 0x020540b3 = 1" "rs1_of 0x020540b3 = 10" "rs2_of 0x020540b3 = 0"
    "rd_of 0x02b560b3 = 1" "rs1_of 0x02b560b3 = 10" "rs2_of 0x02b560b3 = 11"
    by (simp_all add: rd_of_def rs1_of_def rs2_of_def BITS_def BITMASK_def)
  have z: "gpr (cpu (with_prog ws)) = replicate 32 0" for ws by (simp add: with_prog_def power_on_def)
  let ?d = "\<lparr>d_pc = 0x80000000, d_snpc = 0x80000000, d_dnpc = 0, d_inst = 0\<rparr>"
  have "isa_exec_once default_config ?d (with_prog [0x020540b3]) = Inl Div_trap"
    using div_rem_correct [where c = default_config and s = "with_prog [0x020540b3]" and i = "0x020540b3" and d = ?d]
      inst_at_first [of "0x020540b3"] by (simp add: dec f z Let_def)
  let ?s = "with_prog [0x02b560b3]\<lparr>cpu := (cpu power_on)\<lparr>gpr := (replicate 32 0)[10 := - 7, 11 := 2]\<rparr>\<rparr>"
  have "cpu_shape default_config (cpu ?s)"
    by (simp add: power_on_def cpu_shape_def nr_gpr_def csr_num_def)
  moreover have "inst_at default_config 0x80000000 0x02b560b3 ?s"
    using inst_at_first [of "0x02b560b3"] by (simp add: inst_at_def paddr_read_def pmem_read_def in_pmem_def bind_res_eq_Inr_iff)
  ultimately have "map_sum id (\<lambda>(d, s). gpr (cpu s) ! 1) (isa_exec_once default_config ?d ?s) = Inr (- 1)"
    using div_rem_correct [where c = default_config and s = ?s and i = "0x02b560b3" and d = ?d]
    by (simp add: dec f trem_def tquot_def Let_def)
  then show ?thesis using \<open>isa_exec_once default_config ?d (with_prog [0x020540b3]) = Inl Div_trap\<close> by blast
qed

text \<open>C9: Every instruction, from any state with a register file of the right size, leaves x0
  at zero and the register files at their size.\<close>

theorem x0_stays_zero:
  assumes "isa_exec_once c d s = Inr (d', s')" and "cpu_shape c (cpu s)"
  shows "cpu_wf c (cpu s')"
  using assms by (rule isa_exec_once_wf)

theorem x0_stays_zero_witness:
  "\<exists>d' s'. isa_exec_once default_config
      \<lparr>d_pc = 0x80000000, d_snpc = 0x80000000, d_dnpc = 0, d_inst = 0\<rparr> (with_prog [0xffb00093])
      = Inr (d', s') \<and> cpu_wf default_config (cpu s')"
proof -
  let ?d = "\<lparr>d_pc = 0x80000000, d_snpc = 0x80000000, d_dnpc = 0, d_inst = 0\<rparr>"
  have dec: "rv32_decode 0xffb00093 = I_addi"
    by (simp add: rv32_decode_def opcode_def funct3_def funct7_def)
  obtain a b imm where "operands 0xffb00093 (cpu (with_prog [0xffb00093])) = (a, b, imm)"
    by (cases "operands 0xffb00093 (cpu (with_prog [0xffb00093]))") auto
  from exec_once_body [OF with_prog_shape _ _ this, of ?d]
  obtain d' s' where "isa_exec_once default_config ?d (with_prog [0xffb00093]) = Inr (d', s')"
    using inst_at_first [of "0xffb00093"] by (simp add: dec wb_ok)
  with x0_stays_zero [OF this] show ?thesis by simp
qed

subsection \<open>Loads, stores and control transfers\<close>

definition store_load_pairs :: "(opname \<times> opname \<times> int \<times> (u32 \<Rightarrow> u32)) list" where
  "store_load_pairs =
    [(I_sb, I_lb, 1, \<lambda>v. scast (ucast v :: byte)), (I_sb, I_lbu, 1, \<lambda>v. ucast (ucast v :: byte)),
     (I_sh, I_lh, 2, \<lambda>v. scast (ucast v :: u16)), (I_sh, I_lhu, 2, \<lambda>v. ucast (ucast v :: u16)),
     (I_sw, I_lw, 4, \<lambda>v. v)]"

lemma load_extend:
  "SEXT_load 8 (ucast (b8 :: byte)) = scast b8"
  "SEXT_load 16 (ucast (b16 :: u16)) = scast b16"
  "take_bit 8 v = (ucast (ucast v :: byte) :: u32)"
  "take_bit 16 v = (ucast (ucast v :: u16) :: u32)"
  by (rule bit_word_eqI; auto simp: SEXT_load_def bit_simps bit_SEXT min_def)+

lemma store_load_body:
  assumes "(st, ld, len, ext) \<in> set store_load_pairs"
  shows "itype_of st = TYPE_S" "itype_of ld = TYPE_I"
    and "exec_body c st rd a v imm d s = store_op c (a + imm) len v d s"
    and "vaddr_read c (a + imm) len s = Inr (take_bit (8 * nat len) v, s) \<Longrightarrow>
         exec_body c ld rd a b imm d s = wb c rd (ext v) d s"
  using assms by (auto simp: store_load_pairs_def load_op_def load_extend)

lemma cpu_zero [simp]:
  "cpu_wf c (cpu s) \<Longrightarrow> (cpu s)\<lparr>gpr := (gpr (cpu s))[0 := 0]\<rparr> = cpu s"
  using list_update_id [of "gpr (cpu s)" 0] by (cases "cpu s") (simp add: cpu_wf_def)

text \<open>C5: A store instruction followed by a load of the same width from the same address
  delivers the stored value, sign- or zero-extended as the load demands, in the load's
  destination register; both go on at the next instruction.\<close>

theorem store_then_load:
  fixes s :: "'a nemu_scheme"
  assumes wf: "cpu_wf c (cpu s)" and rve: "\<not> CONFIG_RVE c"
    and pair: "(rv32_decode i1, rv32_decode i2, len, ext) \<in> set store_load_pairs"
    and i1: "inst_at c (d_snpc d1) i1 s"
    and i2: "inst_at c (d_snpc d2) i2 s" "pmem_valid c (d_snpc d2) 4"
    and a: "a = gpr (cpu s) ! rs1_of i1 + immS i1" "a = gpr (cpu s) ! rs1_of i2 + immI i2"
    and v: "pmem_valid c a len"
    and dj: "uint (d_snpc d2) + 4 \<le> uint a \<or> uint a + len \<le> uint (d_snpc d2)"
  shows "\<exists>s1 s2. isa_exec_once c d1 s = Inr (fetched i1 d1, s1) \<and>
    isa_exec_once c d2 s1 = Inr (fetched i2 d2, s2) \<and>
    cpu s2 = (cpu s)\<lparr>gpr := (gpr (cpu s))[rd_of i2 := ext (gpr (cpu s) ! rs2_of i1), 0 := 0]\<rparr>"
proof -
  let ?v = "gpr (cpu s) ! rs2_of i1"
  note sl = store_load_body [OF pair]
  have sh: "cpu_shape c (cpu s)" using wf by (simp add: cpu_wf_def)
  obtain s1 where w: "paddr_write c a len ?v s = Inr s1" using pm.wr_total [OF v] by blast
  have c1: "cpu s1 = cpu s" using vaddr_write_cpu [of c a len ?v s s1] w by (simp add: vaddr_write_def)
  have r: "vaddr_read c a len s1 = Inr (take_bit (8 * nat len) ?v, s1)"
    using pm.rd_wr_same [OF v w] by (simp add: vaddr_read_def)
  have i2': "inst_at c (d_snpc d2) i2 s1"
  proof -
    obtain x where "paddr_read c (d_snpc d2) 4 s1 = Inr (x, s1)" using pm.rd_total [OF i2(2)] by blast
    with pm.rd_wr_other [OF v i2(2) w dj] i2(1) show ?thesis by (simp add: inst_at_def)
  qed
  have o1: "operands i1 (cpu s) = (gpr (cpu s) ! rs1_of i1, ?v, immS i1)"
    using sl(1) by (simp add: operands_def Let_def del: itype_of.simps)
  have o2: "operands i2 (cpu s1) = (gpr (cpu s) ! rs1_of i2, 0, immI i2)"
    using sl(2) by (simp add: operands_def Let_def c1 del: itype_of.simps)
  have e1: "isa_exec_once c d1 s = Inr (fetched i1 d1, s1)"
    using exec_once_body [OF sh rve i1 o1, of "fetched i1 d1" s1] w wf
    by (simp add: sl(3) store_op_def vaddr_write_def a(1) [symmetric] c1)
  have "exec_body c (rv32_decode i2) (rd_of i2) (gpr (cpu s) ! rs1_of i2) 0 (immI i2) (fetched i2 d2) s1
      = wb c (rd_of i2) (ext ?v) (fetched i2 d2) s1"
    by (rule sl(4)) (use r a(2) in simp)
  then show ?thesis
    using e1 exec_once_body [OF _ rve i2' o2] wb_ok [of c s1, OF _ rve] sh
    by (simp add: c1)
qed

definition demo_store_load :: nemu where
  "demo_store_load = (with_prog [0x00208823, 0x01008183])
     \<lparr>cpu := \<lparr>gpr = (replicate 32 0)[1 := 0x80000000, 2 := 0x180], pc = 0x80000000,
              csr = replicate 4 0\<rparr>\<rparr>"

lemma demo_store_load_facts:
  "cpu_wf default_config (cpu demo_store_load)"
  "inst_at default_config 0x80000000 0x00208823 demo_store_load"
  "inst_at default_config 0x80000004 0x01008183 demo_store_load"
  "pmem_valid default_config 0x80000004 4" "pmem_valid default_config 0x80000010 1"
  by (simp_all add: demo_store_load_def with_prog_def inst_at_def paddr_read_def in_pmem_def
      pmem_read_def guest_to_host_def host_read_def in_object_def cpu_wf_def cpu_shape_def nr_gpr_def
      csr_num_def pmem_valid_def pmem_fits_def access_len_def)

theorem store_then_load_witness:
  "\<exists>s1 s2. isa_exec_once default_config
        \<lparr>d_pc = 0x80000000, d_snpc = 0x80000000, d_dnpc = 0, d_inst = 0\<rparr> demo_store_load
      = Inr (\<lparr>d_pc = 0x80000000, d_snpc = 0x80000004, d_dnpc = 0x80000004, d_inst = 0x00208823\<rparr>, s1) \<and>
    isa_exec_once default_config
        \<lparr>d_pc = 0x80000004, d_snpc = 0x80000004, d_dnpc = 0, d_inst = 0\<rparr> s1
      = Inr (\<lparr>d_pc = 0x80000004, d_snpc = 0x80000008, d_dnpc = 0x80000008, d_inst = 0x01008183\<rparr>, s2) \<and>
    gpr (cpu s2) ! 3 = 0xffffff80"
proof -
  let ?d1 = "\<lparr>d_pc = 0x80000000, d_snpc = 0x80000000, d_dnpc = 0, d_inst = 0\<rparr>"
  let ?d2 = "\<lparr>d_pc = 0x80000004, d_snpc = 0x80000004, d_dnpc = 0, d_inst = 0\<rparr>"
  have dec: "rv32_decode 0x00208823 = I_sb" "rv32_decode 0x01008183 = I_lb"
    by (simp_all add: rv32_decode_def opcode_def funct3_def)
  have f: "rs1_of 0x00208823 = 1" "rs2_of 0x00208823 = 2" "immS 0x00208823 = 16"
    "rs1_of 0x01008183 = 1" "rd_of 0x01008183 = 3" "immI 0x01008183 = 16"
    by (simp_all add: rd_of_def rs1_of_def rs2_of_def immI_def immS_def BITS_def BITMASK_def SEXT_def)
  have g: "gpr (cpu demo_store_load) = (replicate 32 0)[1 := 0x80000000, 2 := 0x180]"
    by (simp add: demo_store_load_def)
  have "\<exists>s1 s2. isa_exec_once default_config ?d1 demo_store_load = Inr (fetched 0x00208823 ?d1, s1) \<and>
    isa_exec_once default_config ?d2 s1 = Inr (fetched 0x01008183 ?d2, s2) \<and>
    cpu s2 = (cpu demo_store_load)\<lparr>gpr := (gpr (cpu demo_store_load))
      [rd_of 0x01008183 := scast (ucast (gpr (cpu demo_store_load) ! rs2_of 0x00208823) :: byte), 0 := 0]\<rparr>"
    by (rule store_then_load [where a = "0x80000010" and len = 1])
      (use demo_store_load_facts in \<open>simp_all add: dec f g store_load_pairs_def\<close>)
  then show ?thesis by (auto simp: f g fetched_def)
qed

text \<open>The conditions of the six branches, on integers.\<close>

fun branch_spec :: "opname \<Rightarrow> (u32 \<Rightarrow> u32 \<Rightarrow> bool) option" where
  "branch_spec I_beq = Some (\<lambda>a b. uint a = uint b)"
| "branch_spec I_bne = Some (\<lambda>a b. uint a \<noteq> uint b)"
| "branch_spec I_blt = Some (\<lambda>a b. sint a < sint b)"
| "branch_spec I_bge = Some (\<lambda>a b. sint a \<ge> sint b)"
| "branch_spec I_bltu = Some (\<lambda>a b. uint a < uint b)"
| "branch_spec I_bgeu = Some (\<lambda>a b. uint a \<ge> uint b)"
| "branch_spec _ = None"

lemma branch_body:
  assumes "branch_spec nm = Some p"
  shows "itype_of nm = TYPE_B"
    and "exec_body c nm rd a b imm d s = Inr (branch (p a b) imm d, s)"
  using assms by (cases nm; auto simp: word_less_def word_le_def word_uint_eq_iff)+

text \<open>C10: A conditional branch changes no register and no memory; it goes to its own address
  plus the sign-extended even offset when its condition holds, and on otherwise.\<close>

theorem branch_step:
  assumes "cpu_wf c (cpu s)" and "\<not> CONFIG_RVE c" and "inst_at c (d_snpc d) i s"
    and "branch_spec (rv32_decode i) = Some p"
  shows "isa_exec_once c d s =
    Inr ((fetched i d)\<lparr>d_dnpc := (if p (gpr (cpu s) ! rs1_of i) (gpr (cpu s) ! rs2_of i)
                                 then d_pc d + immB i else d_snpc d + 4)\<rparr>, s) \<and> even (immB i)"
proof -
  have o: "operands i (cpu s) = (gpr (cpu s) ! rs1_of i, gpr (cpu s) ! rs2_of i, immB i)"
    using branch_body(1) [OF assms(4)] by (simp add: operands_def Let_def del: itype_of.simps)
  show ?thesis
    using exec_once_body [OF _ assms(2,3) o] assms(1) even_immB [of i]
    by (auto simp: branch_body(2) [OF assms(4)] branch_def fetched_def cpu_wf_def [of c "cpu s"])
qed

theorem branch_step_witness:
  "isa_exec_once default_config \<lparr>d_pc = 0x80000000, d_snpc = 0x80000000, d_dnpc = 0, d_inst = 0\<rparr>
     (with_prog [0x00000463]) =
   Inr (\<lparr>d_pc = 0x80000000, d_snpc = 0x80000004, d_dnpc = 0x80000008, d_inst = 0x00000463\<rparr>,
        with_prog [0x00000463])"
proof -
  have dec: "rv32_decode 0x00000463 = I_beq"
    by (simp add: rv32_decode_def opcode_def funct3_def)
  have f: "rs2_of 0x00000463 = 0" "rs1_of 0x00000463 = 0" "immB 0x00000463 = 8"
    by (simp_all add: rs2_of_def rs1_of_def immB_def BITS_def BITMASK_def SEXT_def)
  show ?thesis
    using branch_step [where c = default_config and s = "with_prog [0x00000463]" and i = "0x00000463"
        and d = "\<lparr>d_pc = 0x80000000, d_snpc = 0x80000000, d_dnpc = 0, d_inst = 0\<rparr>"
        and p = "\<lambda>a b. uint a = uint b"] inst_at_first [of "0x00000463"]
    by (simp add: dec f fetched_def)
qed

text \<open>\<open>jal\<close> and \<open>jalr\<close> write the return address pc + 4 and jump to pc plus the even
  offset, or to the sum of the base register (read before the link is written) and the
  offset with its lowest bit cleared.\<close>

theorem jump_step:
  assumes "cpu_shape c (cpu s)" and "\<not> CONFIG_RVE c" and "inst_at c (d_snpc d) i s"
    and "rv32_decode i = I_jal \<or> rv32_decode i = I_jalr"
  shows "isa_exec_once c d s =
    Inr ((fetched i d)\<lparr>d_dnpc := (if rv32_decode i = I_jal then d_pc d + immJ i
                                 else push_bit 1 (drop_bit 1 (gpr (cpu s) ! rs1_of i + immI i)))\<rparr>,
         s\<lparr>cpu := (cpu s)\<lparr>gpr := (gpr (cpu s))[rd_of i := d_snpc d + 4, 0 := 0]\<rparr>\<rparr>) \<and> even (immJ i)"
proof -
  have lsb: "w AND - 2 = drop_bit (Suc 0) w * 2" for w :: u32
    using and_not_mask [of w 1] by simp
  obtain a b imm where o: "operands i (cpu s) = (a, b, imm)" by (cases "operands i (cpu s)") auto
  have ops: "rv32_decode i = I_jal \<Longrightarrow> imm = immJ i"
    "rv32_decode i = I_jalr \<Longrightarrow> a = gpr (cpu s) ! rs1_of i \<and> imm = immI i"
    using o by (auto simp: operands_def Let_def)
  show ?thesis
    using exec_once_body [OF assms(1-3) o] wb_ok [OF assms(1,2)] assms(4) ops even_immJ [of i]
    by (elim disjE) (simp_all add: fetched_def lsb del: push_bit_numeral)
qed

theorem jump_step_witness:
  "map_sum id (\<lambda>(d, s). (d_dnpc d, gpr (cpu s) ! 1))
     (isa_exec_once default_config \<lparr>d_pc = 0x80000000, d_snpc = 0x80000000, d_dnpc = 0, d_inst = 0\<rparr>
       (with_prog [0x008000ef])) = Inr (0x80000008, 0x80000004)"
proof -
  have dec: "rv32_decode 0x008000ef = I_jal" by (simp add: rv32_decode_def opcode_def)
  have f: "rd_of 0x008000ef = 1" "immJ 0x008000ef = 8"
    by (simp_all add: rd_of_def immJ_def BITS_def BITMASK_def SEXT_def)
  have "gpr (cpu (with_prog [0x008000ef])) = replicate 32 0"
    by (simp add: with_prog_def power_on_def)
  then show ?thesis
    using jump_step [where c = default_config and s = "with_prog [0x008000ef]" and i = "0x008000ef"
        and d = "\<lparr>d_pc = 0x80000000, d_snpc = 0x80000000, d_dnpc = 0, d_inst = 0\<rparr>"]
      inst_at_first [of "0x008000ef"]
    by (simp add: dec f)
qed

subsection \<open>Traps\<close>

lemma exec_once_system:
  assumes "cpu_wf c (cpu s)" and "\<not> CONFIG_RVE c" and "inst_at c (d_snpc d) i s"
    and "rv32_decode i \<in> {I_ecall, I_ebreak, I_mret}"
    and "exec_body c (rv32_decode i) (rd_of i) (fst (operands i (cpu s)))
           (fst (snd (operands i (cpu s)))) (snd (snd (operands i (cpu s)))) (fetched i d) s
         = Inr (d', s')"
    and "gpr (cpu s') = gpr (cpu s)"
  shows "isa_exec_once c d s = Inr (d', s')"
proof -
  have "cpu_wf c (cpu s')"
    using exec_body_shape [OF assms(5)] assms(1,6) by (simp add: cpu_wf_def)
  then show ?thesis
    using exec_once_body [OF _ assms(2,3), of "fst (operands i (cpu s))"
        "fst (snd (operands i (cpu s)))" "snd (snd (operands i (cpu s)))" d' s'] assms(1,5)
      cpu_zero [of c s']
    by (simp add: cpu_wf_def [of c "cpu s"])
qed

lemma find_reg_nth:
  assumes "distinct rs" and "k < length rs" and "k < length vs"
  shows "find_reg (rs ! k) rs vs = Some (vs ! k)"
  using assms
proof (induction rs arbitrary: k vs)
  case (Cons r rs)
  then obtain v vs' where vs: "vs = v # vs'" by (cases vs) auto
  with Cons show ?case by (cases k) auto
qed simp

text \<open>Looking up a register by the name the debugger prints for it (and by that name after
  a dollar sign, apart from the zero register) yields its value.\<close>

theorem reg_lookup_correct:
  assumes "k < length (gpr (cpu s))" and "k < 32" and "0 < k"
  shows "isa_reg_str2val (regs ! k) s = (gpr (cpu s) ! k, True) \<and>
    isa_reg_str2val (CHR ''$'' # regs ! k) s = (gpr (cpu s) ! k, True)"
proof -
  have d: "distinct regs" "length regs = 32" by (simp_all add: regs_def)
  have r: "find_reg (regs ! k) regs (gpr (cpu s)) = Some (gpr (cpu s) ! k)"
    by (rule find_reg_nth) (use assms d in auto)
  have "list_all (\<lambda>r. r \<noteq> [] \<and> hd r \<noteq> CHR ''$'') (tl regs)" by (simp add: regs_def)
  moreover have "regs ! k = tl regs ! (k - 1)" using assms(2,3) d by (simp add: nth_tl)
  ultimately have "regs ! k \<noteq> [] \<and> hd (regs ! k) \<noteq> CHR ''$''"
    using assms(2,3) d by (simp add: list_all_length)
  then show ?thesis
    using r by (cases "regs ! k") (simp_all add: isa_reg_str2val_def)
qed

theorem reg_lookup_correct_witness:
  "isa_reg_str2val ''$a0'' (with_prog []) = (0, True)"
  using reg_lookup_correct [of 10 "with_prog []"]
  by (simp add: regs_def with_prog_def power_on_def)

text \<open>C11: \<open>ecall\<close> saves its own address in mepc and the system call number in mcause and goes to
  mtvec; a following \<open>mret\<close>, wherever the handler ends, returns to the saved address and
  leaves the general registers alone.\<close>

theorem ecall_mret:
  assumes wf: "cpu_wf c (cpu s)" and rve: "\<not> CONFIG_RVE c"
    and i: "inst_at c (d_snpc d) 0x73 s"
  shows "\<exists>s1. isa_exec_once c d s = Inr ((fetched 0x73 d)\<lparr>d_dnpc := csr (cpu s) ! mtvec\<rparr>, s1) \<and>
    csr (cpu s1) ! mepc = d_pc d \<and> csr (cpu s1) ! mcause = gpr (cpu s) ! 17 \<and>
    gpr (cpu s1) = gpr (cpu s) \<and>
    (\<forall>d2 s2. inst_at c (d_snpc d2) 0x30200073 s2 \<and> cpu s2 = cpu s1 \<longrightarrow>
       (\<exists>s3. isa_exec_once c d2 s2 = Inr ((fetched 0x30200073 d2)\<lparr>d_dnpc := d_pc d\<rparr>, s3) \<and>
          gpr (cpu s3) = gpr (cpu s)))"
proof -
  have dec: "rv32_decode 0x73 = I_ecall" "rv32_decode 0x30200073 = I_mret"
    by (simp_all add: rv32_decode_def opcode_def funct3_def)
  have len: "length (gpr (cpu s)) = 32" "length (csr (cpu s)) = 4"
    using wf rve by (simp_all add: cpu_wf_def cpu_shape_def nr_gpr_def csr_num_def)
  have "find_reg (regs ! 17) regs (gpr (cpu s)) = Some (gpr (cpu s) ! 17)"
    by (rule find_reg_nth) (use len in \<open>simp_all add: regs_def\<close>)
  then have a7: "fst (isa_reg_str2val ''a7'' s) = gpr (cpu s) ! 17"
    by (simp add: isa_reg_str2val_def regs_def)
  let ?s1 = "csr_put mstatus 0x1800 (csr_put mepc (d_pc d) (csr_put mcause (gpr (cpu s) ! 17) s))"
  have e: "isa_exec_once c d s = Inr ((fetched 0x73 d)\<lparr>d_dnpc := csr (cpu s) ! mtvec\<rparr>, ?s1)"
    by (rule exec_once_system [OF wf rve i])
      (use len a7 rve in \<open>simp_all add: dec ECALL_def isa_raise_intr_def Let_def csr_put_def fetched_def
        mstatus_def mepc_def mcause_def mtvec_def\<close>)
  have c1: "csr (cpu ?s1) ! mepc = d_pc d" "csr (cpu ?s1) ! mcause = gpr (cpu s) ! 17"
    "gpr (cpu ?s1) = gpr (cpu s)"
    using len by (simp_all add: csr_put_def mstatus_def mepc_def mcause_def)
  have wf1: "cpu_wf c (cpu ?s1)" using wf by (simp add: cpu_wf_def cpu_shape_def csr_put_def)
  have "isa_exec_once c d2 s2 = Inr ((fetched 0x30200073 d2)\<lparr>d_dnpc := d_pc d\<rparr>, csr_put mstatus 0x80 s2)"
    if "inst_at c (d_snpc d2) 0x30200073 s2" "cpu s2 = cpu ?s1" for d2 and s2 :: "'b nemu_scheme"
    by (rule exec_once_system [OF _ rve that(1)])
      (use that(2) wf1 c1 len in \<open>simp_all add: dec MRET_def Let_def csr_put_def mstatus_def mepc_def mcause_def\<close>)
  moreover have "gpr (cpu (csr_put mstatus 0x80 s2)) = gpr (cpu s2)" for s2 :: "'b nemu_scheme"
    by (simp add: csr_put_def)
  ultimately show ?thesis using e c1 by (intro exI [of _ ?s1]) auto
qed

theorem ecall_mret_witness:
  "\<exists>s1. isa_exec_once default_config
        \<lparr>d_pc = 0x80000000, d_snpc = 0x80000000, d_dnpc = 0, d_inst = 0\<rparr> (with_prog [0x73])
      = Inr (\<lparr>d_pc = 0x80000000, d_snpc = 0x80000004, d_dnpc = 0, d_inst = 0x73\<rparr>, s1) \<and>
    csr (cpu s1) ! mepc = 0x80000000"
proof -
  have "csr (cpu (with_prog [0x73])) ! mtvec = 0"
    by (simp add: with_prog_def power_on_def mtvec_def)
  then show ?thesis
    using ecall_mret [where c = default_config and s = "with_prog [0x73]"
        and d = "\<lparr>d_pc = 0x80000000, d_snpc = 0x80000000, d_dnpc = 0, d_inst = 0\<rparr>"]
      inst_at_first [of "0x73"]
    by (auto simp: fetched_def)
qed

text \<open>\<open>ebreak\<close> ends the program: the emulator stops with the address of the instruction
  and the value of a0 as its result, and no register changes.\<close>

theorem ebreak_halts:
  assumes "cpu_wf c (cpu s)" and "\<not> CONFIG_RVE c" and "inst_at c (d_snpc d) 0x00100073 s"
  shows "\<exists>s'. isa_exec_once c d s = Inr (fetched 0x00100073 d, s') \<and> cpu s' = cpu s \<and>
    nemu_state s' = \<lparr>st_state = NEMU_END, halt_pc = d_pc d, halt_ret = gpr (cpu s) ! 10\<rparr>"
proof -
  have dec: "rv32_decode 0x00100073 = I_ebreak" by (simp add: rv32_decode_def opcode_def funct3_def)
  have g: "gpr_get c 10 s = Inr (gpr (cpu s) ! 10)"
    by (rule gpr_get_ok) (use assms in \<open>simp_all add: cpu_wf_def\<close>)
  have "isa_exec_once c d s =
      Inr (fetched 0x00100073 d, set_nemu_state c NEMU_END (d_pc d) (gpr (cpu s) ! 10) s)"
    by (rule exec_once_system [OF assms]) (simp_all add: dec g fetched_def)
  then show ?thesis by (simp add: set_nemu_state_def difftest_skip_ref_def)
qed

theorem ebreak_halts_witness:
  "\<exists>s'. isa_exec_once default_config
       \<lparr>d_pc = 0x80000000, d_snpc = 0x80000000, d_dnpc = 0, d_inst = 0\<rparr> (with_prog [0x00100073])
     = Inr (\<lparr>d_pc = 0x80000000, d_snpc = 0x80000004, d_dnpc = 0x80000004, d_inst = 0x00100073\<rparr>, s') \<and>
     nemu_state s' = \<lparr>st_state = NEMU_END, halt_pc = 0x80000000, halt_ret = 0\<rparr>"
proof -
  have "gpr (cpu (with_prog [0x00100073])) = replicate 32 0"
    by (simp add: with_prog_def power_on_def)
  then show ?thesis
    using ebreak_halts [where c = default_config and s = "with_prog [0x00100073]"
        and d = "\<lparr>d_pc = 0x80000000, d_snpc = 0x80000000, d_dnpc = 0, d_inst = 0\<rparr>"]
      inst_at_first [of "0x00100073"]
    by (auto simp: fetched_def)
qed

end
