(* ===== verification/Expr.thy ===== *)
theory Expr
  imports Riscv32
begin

text \<open>
  The expression evaluator of the debugger, \<open>nemu/src/monitor/sdb/expr.c\<close>: the
  tokenizer \<open>make_token\<close>, the parenthesis check, the search for the main operator and
  the recursive evaluator.

  The array \<open>tokens\<close> with its counter \<open>nr_token\<close> is the list of the recognised
  tokens; storing the 65th token is an access outside the array.  The regular
  expressions of the table \<open>rules\<close> have three shapes (a literal, a repeated character
  class, a literal followed by a repeated class), and \<open>regexec\<close> matches the longest
  prefix.  The loop of \<open>eval\<close> over its local stack runs exactly once: every branch
  returns, except that a single token of no value leaves the loop and yields 0.
\<close>

subsection \<open>Tokens and rules\<close>

datatype tk =
    TK_plus | TK_minus | TK_mul | TK_div
  | TK_NOTYPE | TK_EQ | TK_NUMS | TK_LB | TK_RB
  | TK_NEGATIVE | TK_POINTER | TK_POSITIVE
  | TK_AND | TK_OR | TK_NOT | TK_NOTEQ | TK_REG | TK_HEX
  | TK_LE | TK_GE | TK_LT | TK_GT

record Token =
  tk_type :: tk
  tk_str :: string

datatype regex = Lit string | Rep "char \<Rightarrow> bool" | LitRep string "char \<Rightarrow> bool"

definition is_digit :: "char \<Rightarrow> bool" where
  "is_digit ch \<longleftrightarrow> ch \<in> set ''0123456789''"

definition is_xdigit :: "char \<Rightarrow> bool" where
  "is_xdigit ch \<longleftrightarrow> ch \<in> set ''0123456789abcdefABCDEF''"

definition is_word_char :: "char \<Rightarrow> bool" where
  "is_word_char ch \<longleftrightarrow>
     ch \<in> set ''0123456789abcdefghijklmnopqrstuvwxyzABCDEFGHIJKLMNOPQRSTUVWXYZ_''"

definition rules :: "(regex \<times> tk) list" where
  "rules =
    [(Rep (\<lambda>ch. ch = CHR '' ''), TK_NOTYPE),
     (Lit ''+'', TK_plus),
     (Lit ''-'', TK_minus),
     (Lit ''*'', TK_mul),
     (Lit ''/'', TK_div),
     (LitRep ''0x'' is_xdigit, TK_HEX),
     (Rep is_digit, TK_NUMS),
     (Lit ''('', TK_LB),
     (Lit '')'', TK_RB),
     (Lit ''=='', TK_EQ),
     (Lit ''!='', TK_NOTEQ),
     (Lit ''&&'', TK_AND),
     (Lit ''||'', TK_OR),
     (Lit ''!'', TK_NOT),
     (Lit ''<='', TK_LE),
     (Lit ''>='', TK_GE),
     (Lit ''<'', TK_LT),
     (Lit ''>'', TK_GT),
     (LitRep ''$'' is_word_char, TK_REG)]"

text \<open>\<open>regexec\<close> with a match at offset 0: the length of the match.\<close>

fun regexec :: "regex \<Rightarrow> string \<Rightarrow> nat option" where
  "regexec (Lit l) e = (if take (length l) e = l \<and> l \<noteq> [] then Some (length l) else None)"
| "regexec (Rep P) e =
     (let n = length (takeWhile P e) in if 0 < n then Some n else None)"
| "regexec (LitRep l P) e =
     (let n = length (takeWhile P (drop (length l) e))
      in if take (length l) e = l \<and> 0 < n then Some (length l + n) else None)"

fun try_rules :: "(regex \<times> tk) list \<Rightarrow> string \<Rightarrow> (nat \<times> tk) option" where
  "try_rules [] e = None"
| "try_rules ((re, ty) # rs) e =
     (case regexec re e of Some n \<Rightarrow> Some (n, ty) | None \<Rightarrow> try_rules rs e)"

subsection \<open>Numbers\<close>

text \<open>\<open>strtol\<close> on a string of digits, which saturates at \<open>LONG_MAX\<close>; \<open>atoi\<close> keeps
  the low 32 bits of it.\<close>

definition digit_val :: "char \<Rightarrow> int" where
  "digit_val ch =
     (let n = int (of_char ch) in
      if 97 \<le> n then n - 97 + 10 else if 65 \<le> n then n - 65 + 10 else n - 48)"

fun digits_val :: "int \<Rightarrow> int \<Rightarrow> string \<Rightarrow> int" where
  "digits_val base acc [] = acc"
| "digits_val base acc (ch # cs) = digits_val base (acc * base + digit_val ch) cs"

definition strtol :: "int \<Rightarrow> string \<Rightarrow> int" where
  "strtol base str = min (digits_val base 0 str) (2 ^ 63 - 1)"

definition atoi :: "string \<Rightarrow> u32" where
  "atoi str = word_of_int (strtol 10 (takeWhile is_digit str))"

text \<open>The negation of an \<open>int\<close>, which overflows at \<open>INT_MIN\<close>.\<close>

definition neg_int :: "u32 \<Rightarrow> u32 res" where
  "neg_int v = (if v = 0x80000000 then Inl Signed_overflow else Inr (- v))"

definition strtol16 :: "string \<Rightarrow> u32" where
  "strtol16 str = word_of_int (strtol 16 (takeWhile is_xdigit (drop 2 str)))"

subsection \<open>make\_token\<close>

definition NR_TOKENS :: nat where
  "NR_TOKENS = 64"

definition TOKEN_STR :: nat where
  "TOKEN_STR = 32"

text \<open>The tokens after which \<open>-\<close> is a sign and \<open>*\<close> a dereference.\<close>

definition unary_context :: "Token list \<Rightarrow> bool" where
  "unary_context ts \<longleftrightarrow>
     ts = [] \<or> tk_type (last ts) \<in> {TK_LB, TK_NEGATIVE, TK_minus, TK_plus, TK_mul, TK_div}"

text \<open>Recording one token: \<open>e\<close> is the input from the token on, \<open>n\<close> the length of the
  match.  The result is the list of tokens and the rest of the input.\<close>

definition record_token ::
  "Token list \<Rightarrow> string \<Rightarrow> nat \<Rightarrow> tk \<Rightarrow> (Token list \<times> string) res" where
  "record_token ts e n ty =
     (let rest = drop n e; str = take (min n (TOKEN_STR - 1)) e in
      bind_res (assert_res Out_of_bounds (length ts < NR_TOKENS)) (\<lambda>_.
      if ts \<noteq> [] \<and> tk_type (last ts) = TK_div \<and> ty = TK_NUMS \<and> atoi str = 0
      then Inl (Panic ''Attempted division by zero'')
      else if ty = TK_minus \<and> unary_context ts then
        (let k = length (takeWhile (\<lambda>ch. ch = CHR ''-'') rest); neg_count = 1 + k in
         Inr (ts @ [\<lparr>tk_type = (if even neg_count then TK_POSITIVE else TK_NEGATIVE),
                      tk_str = str\<rparr>], drop k rest))
      else if ty = TK_mul \<and> unary_context ts then
        Inr (ts @ [\<lparr>tk_type = TK_POINTER, tk_str = str\<rparr>], rest)
      else Inr (ts @ [\<lparr>tk_type = ty, tk_str = str\<rparr>], rest)))"

lemma regexec_pos: "regexec re e = Some n \<Longrightarrow> 0 < n \<and> n \<le> length e"
proof (induction re e rule: regexec.induct)
  case (1 l e)
  then show ?case by (auto split: if_splits)
next
  case (2 P e)
  then show ?case by (auto simp: Let_def length_takeWhile_le split: if_splits)
next
  case (3 l P e)
  have "length (takeWhile P (drop (length l) e)) \<le> length (drop (length l) e)"
    by (rule length_takeWhile_le)
  moreover have "length l \<le> length e" if "take (length l) e = l"
    using arg_cong [OF that, of length] by simp
  ultimately show ?case using 3 by (auto simp: Let_def split: if_splits)
qed

lemma try_rules_pos: "try_rules rs e = Some (n, ty) \<Longrightarrow> 0 < n \<and> n \<le> length e"
  by (induction rs e rule: try_rules.induct) (auto split: option.splits dest: regexec_pos)

lemma record_token_shorter:
  "record_token ts e n ty = Inr (ts', e') \<Longrightarrow> 0 < n \<Longrightarrow> n \<le> length e \<Longrightarrow> length e' < length e"
  by (auto simp: record_token_def Let_def bind_res_eq_Inr_iff split: if_splits)

text \<open>The loop over the input; \<open>None\<close> is the return of \<open>false\<close> where no rule
  matches.\<close>

function make_token_loop :: "string \<Rightarrow> Token list \<Rightarrow> Token list option res" where
  "make_token_loop e ts =
     (if e = [] then Inr (Some ts)
      else case try_rules rules e of
        None \<Rightarrow> Inr None
      | Some (n, ty) \<Rightarrow>
          if ty = TK_NOTYPE then make_token_loop (drop n e) ts
          else bind_res (record_token ts e n ty) (\<lambda>(ts', e'). make_token_loop e' ts'))"
  by pat_completeness auto
termination
  by (relation "measure (\<lambda>(e, ts). length e)")
    (auto dest: try_rules_pos record_token_shorter)

declare make_token_loop.simps [simp del]

definition make_token :: "string \<Rightarrow> Token list option res" where
  "make_token e = make_token_loop e []"

subsection \<open>Structure of a token sequence\<close>

datatype Paren_Status = PAREN_ENCLOSED | PAREN_NOT_ENCLOSED | PAREN_NOT_MATCHED

text \<open>The tokens \<open>p\<close> to \<open>q\<close>, which the loops of the evaluator run over.\<close>

definition seg :: "Token list \<Rightarrow> int \<Rightarrow> int \<Rightarrow> Token list" where
  "seg ts p q = take (nat (q - p + 1)) (drop (nat p) ts)"

text \<open>The loop of \<open>check_parentheses\<close>; the tokens from the current one to \<open>q\<close>.\<close>

fun check_paren_loop :: "Token list \<Rightarrow> int \<Rightarrow> Paren_Status" where
  "check_paren_loop [] layer = (if layer = 0 then PAREN_ENCLOSED else PAREN_NOT_MATCHED)"
| "check_paren_loop (t # ts) layer =
     (if tk_type t = TK_LB then check_paren_loop ts (layer + 1)
      else if tk_type t = TK_RB then
        (if layer - 1 = 0 \<and> ts \<noteq> [] then PAREN_NOT_ENCLOSED
         else if layer - 1 < 0 then PAREN_NOT_MATCHED
         else check_paren_loop ts (layer - 1))
      else check_paren_loop ts layer)"

definition check_parentheses :: "Token list \<Rightarrow> int \<Rightarrow> int \<Rightarrow> Paren_Status" where
  "check_parentheses ts p q =
     (if tk_type (ts ! nat p) \<noteq> TK_LB \<or> tk_type (ts ! nat q) \<noteq> TK_RB then PAREN_NOT_ENCLOSED
      else check_paren_loop (seg ts p q) 0)"

definition INT_MAX :: int where
  "INT_MAX = 2 ^ 31 - 1"

fun get_operator_priority :: "tk \<Rightarrow> int" where
  "get_operator_priority TK_OR = 0"
| "get_operator_priority TK_AND = 1"
| "get_operator_priority TK_EQ = 2"
| "get_operator_priority TK_NOTEQ = 2"
| "get_operator_priority TK_LT = 3"
| "get_operator_priority TK_LE = 3"
| "get_operator_priority TK_GT = 3"
| "get_operator_priority TK_GE = 3"
| "get_operator_priority TK_plus = 4"
| "get_operator_priority TK_minus = 4"
| "get_operator_priority TK_mul = 5"
| "get_operator_priority TK_div = 5"
| "get_operator_priority TK_NEGATIVE = 6"
| "get_operator_priority TK_POINTER = 6"
| "get_operator_priority _ = INT_MAX"

text \<open>The loop of \<open>find_main_operator\<close>: the current index, and the variables
  \<open>parentheses_layer\<close>, \<open>min_priority\<close> and \<open>op\<close>.\<close>

fun main_op_loop :: "Token list \<Rightarrow> int \<Rightarrow> int \<Rightarrow> int \<Rightarrow> int \<Rightarrow> int" where
  "main_op_loop [] i layer min_priority op' = op'"
| "main_op_loop (t # ts) i layer min_priority op' =
     (if tk_type t = TK_LB then main_op_loop ts (i + 1) (layer + 1) min_priority op'
      else if tk_type t = TK_RB then main_op_loop ts (i + 1) (layer - 1) min_priority op'
      else if layer = 0 then
        (if tk_type t = TK_NEGATIVE then main_op_loop ts (i + 1) layer min_priority op'
         else
           (let priority = get_operator_priority (tk_type t) in
            if priority \<le> min_priority then main_op_loop ts (i + 1) layer priority i
            else main_op_loop ts (i + 1) layer min_priority op'))
      else main_op_loop ts (i + 1) layer min_priority op')"

definition find_main_operator :: "Token list \<Rightarrow> int \<Rightarrow> int \<Rightarrow> int" where
  "find_main_operator ts p q = main_op_loop (seg ts p q) p 0 INT_MAX (-1)"

subsection \<open>eval and expr\<close>

text \<open>The \<open>switch\<close> on the binary operator.\<close>

fun apply_binop :: "tk \<Rightarrow> u32 \<Rightarrow> u32 \<Rightarrow> u32 res" where
  "apply_binop TK_plus a b = Inr (a + b)"
| "apply_binop TK_minus a b = Inr (a - b)"
| "apply_binop TK_mul a b = Inr (a * b)"
| "apply_binop TK_div a b =
     (if b = 0 then Inl (Panic ''Division by zero detected'') else sdiv_word a b)"
| "apply_binop TK_EQ a b = Inr (of_truth (a = b))"
| "apply_binop TK_NOTEQ a b = Inr (of_truth (a \<noteq> b))"
| "apply_binop TK_LT a b = Inr (of_truth (a < b))"
| "apply_binop TK_LE a b = Inr (of_truth (a \<le> b))"
| "apply_binop TK_GT a b = Inr (of_truth (a > b))"
| "apply_binop TK_GE a b = Inr (of_truth (a \<ge> b))"
| "apply_binop TK_AND a b = Inr (of_truth (a \<noteq> 0 \<and> b \<noteq> 0))"
| "apply_binop TK_OR a b = Inr (of_truth (a \<noteq> 0 \<or> b \<noteq> 0))"
| "apply_binop _ a b = Inl (Panic ''Unknown operator type'')"

definition eval_single :: "Token \<Rightarrow> 'a nemu_scheme \<Rightarrow> u32 res" where
  "eval_single t s =
     (if tk_type t = TK_NUMS then Inr (atoi (tk_str t))
      else if tk_type t = TK_HEX then Inr (strtol16 (tk_str t))
      else if tk_type t = TK_REG then
        (case isa_reg_str2val (tk_str t) s of
           (v, suc) \<Rightarrow> if suc then Inr v else Inl (Panic ''Invalid register''))
      else Inr 0)"

definition apply_unop ::
  "config \<Rightarrow> tk \<Rightarrow> u32 \<Rightarrow> 'a nemu_scheme \<Rightarrow> (u32 \<times> 'a nemu_scheme) res" where
  "apply_unop c ty v s =
     (if ty = TK_NEGATIVE then Inr (- v, s)
      else if ty = TK_POSITIVE then Inr (v, s)
      else if ty = TK_POINTER then vaddr_read c v 4 s
      else Inl (Panic ''Unknown unary operator type''))"

lemma main_op_loop_range:
  "main_op_loop ts i layer mp op' = op'
   \<or> i \<le> main_op_loop ts i layer mp op' \<and> main_op_loop ts i layer mp op' < i + int (length ts)"
proof (induction ts arbitrary: i layer mp op')
  case (Cons t ts)
  have "main_op_loop ts (i + 1) layer' mp' o' = o'
    \<or> i + 1 \<le> main_op_loop ts (i + 1) layer' mp' o'
      \<and> main_op_loop ts (i + 1) layer' mp' o' < i + 1 + int (length ts)" for layer' mp' o'
    by (rule Cons.IH)
  from this [of "layer + 1" mp op'] this [of "layer - 1" mp op'] this [of layer mp op']
    this [of layer "get_operator_priority (tk_type t)" i]
  show ?case by (auto simp: Let_def)
qed simp

lemma find_main_operator_range:
  assumes "p \<le> q + 1"
  shows "find_main_operator ts p q = -1 \<or> p \<le> find_main_operator ts p q \<and> find_main_operator ts p q \<le> q"
proof -
  have "int (length (seg ts p q)) \<le> q - p + 1"
    using assms by (simp add: seg_def)
  then show ?thesis
    using main_op_loop_range [of "seg ts p q" p 0 INT_MAX "-1"] by (auto simp: find_main_operator_def)
qed

text \<open>\<open>eval(p, q)\<close>.  Where no main operator is found (\<open>op\<close> is \<open>-1\<close>) the first
  recursive call is \<open>eval(p, -2)\<close>, which panics.\<close>

function eval ::
  "config \<Rightarrow> Token list \<Rightarrow> int \<Rightarrow> int \<Rightarrow> 'a nemu_scheme \<Rightarrow> (u32 \<times> 'a nemu_scheme) res" where
  "eval c ts p q s =
     (if p > q then Inl (Panic ''Bad expression'')
      else if p = q then bind_res (eval_single (ts ! nat p) s) (\<lambda>v. Inr (v, s))
      else case check_parentheses ts p q of
        PAREN_ENCLOSED \<Rightarrow> eval c ts (p + 1) (q - 1) s
      | PAREN_NOT_MATCHED \<Rightarrow> Inl (Panic ''Parentheses not matched'')
      | PAREN_NOT_ENCLOSED \<Rightarrow>
          (let opr = find_main_operator ts p q in
           if opr = p then
             bind_res (eval c ts (p + 1) q s) (\<lambda>(v, s1).
             apply_unop c (tk_type (ts ! nat p)) v s1)
           else if tk_type (ts ! nat p) = TK_NEGATIVE \<and> tk_type (ts ! nat (p + 1)) = TK_NUMS then
             bind_res (neg_int (atoi (tk_str (ts ! nat (p + 1))))) (\<lambda>v. Inr (v, s))
           else if tk_type (ts ! nat p) = TK_POSITIVE \<and> tk_type (ts ! nat (p + 1)) = TK_NUMS then
             Inr (atoi (tk_str (ts ! nat (p + 1))), s)
           else if opr = -1 then Inl (Panic ''Bad expression'')
           else
             bind_res (eval c ts p (opr - 1) s) (\<lambda>(val1, s1).
             bind_res (eval c ts (opr + 1) q s1) (\<lambda>(val2, s2).
             bind_res (apply_binop (tk_type (ts ! nat opr)) val1 val2) (\<lambda>v. Inr (v, s2))))))"
  by pat_completeness auto
termination
proof (relation "measure (\<lambda>(c, ts, p, q, s). nat (q - p + 1))", goal_cases)
  case (4 c ts p q s x)
  then show ?case using find_main_operator_range [of p q ts] by auto
next
  case (5 c ts p q s x y)
  then show ?case using find_main_operator_range [of p q ts] by auto
qed auto

declare eval.simps [simp del]

text \<open>The value, and the flag \<open>*success\<close>.\<close>

definition expr ::
  "config \<Rightarrow> string \<Rightarrow> 'a nemu_scheme \<Rightarrow> (u32 \<times> bool \<times> 'a nemu_scheme) res" where
  "expr c e s =
     bind_res (make_token e) (\<lambda>r.
     case r of
       None \<Rightarrow> Inr (0, False, s)
     | Some ts \<Rightarrow>
         bind_res (eval c ts 0 (int (length ts) - 1) s) (\<lambda>(v, s'). Inr (v, True, s')))"

end
