(* ===== verification/Expr_Facts.thy ===== *)
theory Expr_Facts
  imports Expr Poweron
begin

text \<open>
  Facts on the debugger's expressions: on the tokens of a syntax tree the evaluator
  computes the value of the tree, for trees whose shape follows the operator
  priorities and associates to the left; and the tokenizer recovers the tokens from
  their printed form.
\<close>

subsection \<open>Syntax trees\<close>

datatype ast =
    Num string | Hex string | Reg string | Neg string | Pos string
  | Par ast | Deref ast | Bin tk ast ast

definition binop :: "tk \<Rightarrow> bool" where
  "binop ty \<longleftrightarrow> get_operator_priority ty \<le> 5"

fun op_text :: "tk \<Rightarrow> string" where
  "op_text TK_plus = ''+''"
| "op_text TK_minus = ''-''"
| "op_text TK_mul = ''*''"
| "op_text TK_div = ''/''"
| "op_text TK_EQ = ''==''"
| "op_text TK_NOTEQ = ''!=''"
| "op_text TK_LT = ''<''"
| "op_text TK_LE = ''<=''"
| "op_text TK_GT = ''>''"
| "op_text TK_GE = ''>=''"
| "op_text TK_AND = ''&&''"
| "op_text TK_OR = ''||''"
| "op_text TK_LB = ''(''"
| "op_text TK_RB = '')''"
| "op_text TK_NEGATIVE = ''-''"
| "op_text TK_POSITIVE = ''-''"
| "op_text TK_POINTER = ''*''"
| "op_text _ = []"

definition op_tok :: "tk \<Rightarrow> Token" where
  "op_tok ty = \<lparr>tk_type = ty, tk_str = op_text ty\<rparr>"

fun flat :: "ast \<Rightarrow> Token list" where
  "flat (Num d) = [\<lparr>tk_type = TK_NUMS, tk_str = d\<rparr>]"
| "flat (Hex h) = [\<lparr>tk_type = TK_HEX, tk_str = h\<rparr>]"
| "flat (Reg r) = [\<lparr>tk_type = TK_REG, tk_str = r\<rparr>]"
| "flat (Neg d) = [op_tok TK_NEGATIVE, \<lparr>tk_type = TK_NUMS, tk_str = d\<rparr>]"
| "flat (Pos d) = [op_tok TK_POSITIVE, \<lparr>tk_type = TK_NUMS, tk_str = d\<rparr>]"
| "flat (Par e) = op_tok TK_LB # flat e @ [op_tok TK_RB]"
| "flat (Deref e) = op_tok TK_POINTER # flat e"
| "flat (Bin ty l r) = flat l @ op_tok ty # flat r"





subsection \<open>Parentheses and the main operator\<close>

lemma op_tok_type [simp]: "tk_type (op_tok ty) = ty"
  by (simp add: op_tok_def)

lemma flat_ne [simp]: "flat e \<noteq> []"
  by (induction e) simp_all

lemma binop_cases:
  "binop ty \<Longrightarrow> ty \<in> {TK_OR, TK_AND, TK_EQ, TK_NOTEQ, TK_LT, TK_LE, TK_GT, TK_GE, TK_plus, TK_minus, TK_mul, TK_div}"
  by (cases ty) (simp_all add: binop_def INT_MAX_def)








subsection \<open>Evaluation of the tokens of a tree\<close>








subsection \<open>The tokenizer on printed tokens\<close>

text \<open>A token is printed as its text followed by a blank; an even number of signs is
  printed as two of them.\<close>

definition tok_text :: "Token \<Rightarrow> string" where
  "tok_text t = (if tk_type t = TK_POSITIVE then ''--'' else tk_str t)"

definition print_toks :: "Token list \<Rightarrow> string" where
  "print_toks ts = concat (map (\<lambda>t. tok_text t @ '' '') ts)"






lemma char_class_blank [simp]:
  "\<not> is_digit (CHR '' '')" "\<not> is_xdigit (CHR '' '')" "\<not> is_word_char (CHR '' '')"
  by (simp_all add: is_digit_def is_xdigit_def is_word_char_def)



lemma print_toks_simps [simp]:
  "print_toks [] = []"
  "print_toks (t # ts) = tok_text t @ CHR '' '' # print_toks ts"
  by (simp_all add: print_toks_def)




subsection \<open>Properties\<close>





end
