(* ===== verification/Watchpoint.thy ===== *)
theory Watchpoint
  imports Expr
begin

text \<open>
  The watchpoints of the debugger, \<open>nemu/src/monitor/sdb/watchpoint.c\<close>.

  The array \<open>wp_pool\<close> is a list of records; a pointer into it is an index, \<open>None\<close>
  is \<open>NULL\<close>.  The active and the free watchpoints are two chains through the field
  \<open>next\<close>.  The loops along a chain carry a bound on the number of steps: a chain that
  visits no node twice has at most \<open>NR_WP\<close> nodes, so a run that exceeds the bound
  follows a cycle.  \<open>out\<close> records the calls of \<open>printf\<close> with their arguments.
\<close>

datatype cstr = CNull | CStr string | CFreed

record WP =
  NO :: int
  "next" :: "nat option"
  "value" :: u32
  expression :: cstr

datatype out_event =
    No_watchpoint
  | Wp_header
  | Wp_row int u32 string
  | Wp_set int string
  | Wp_deleted int
  | Wp_not_found int
  | Wp_triggered int string
  | Old_value u32
  | New_value u32
  | Text string
  | Reg_row string u32
  | Mem_row u32 u32
  | Result u32
  | Stat string u64
  | Trap_row string u32

record wpst = nemu +
  wp_pool :: "WP list"
  wp_head :: "nat option"
  wp_free :: "nat option"
  out :: "out_event list"

definition NR_WP :: nat where
  "NR_WP = 32"

definition print :: "out_event \<Rightarrow> 'a wpst_scheme \<Rightarrow> 'a wpst_scheme" where
  "print e s = s\<lparr>out := out s @ [e]\<rparr>"

text \<open>Reading and writing through a pointer into the pool.\<close>

definition wp_get :: "nat option \<Rightarrow> 'a wpst_scheme \<Rightarrow> WP res" where
  "wp_get p s =
     (case p of None \<Rightarrow> Inl Null_deref
      | Some i \<Rightarrow> if i < length (wp_pool s) then Inr (wp_pool s ! i) else Inl Out_of_bounds)"

definition wp_put :: "nat option \<Rightarrow> (WP \<Rightarrow> WP) \<Rightarrow> 'a wpst_scheme \<Rightarrow> 'a wpst_scheme res" where
  "wp_put p f s =
     (case p of None \<Rightarrow> Inl Null_deref
      | Some i \<Rightarrow> if i < length (wp_pool s)
                 then Inr (s\<lparr>wp_pool := (wp_pool s)[i := f (wp_pool s ! i)]\<rparr>)
                 else Inl Out_of_bounds)"

subsection \<open>The pool\<close>

definition init_wp_pool :: "'a wpst_scheme \<Rightarrow> 'a wpst_scheme" where
  "init_wp_pool s =
     s\<lparr>wp_pool := map (\<lambda>i. (wp_pool s ! i)\<lparr>NO := int i,
                             next := (if i = NR_WP - 1 then None else Some (i + 1))\<rparr>) [0..<NR_WP],
       wp_head := None, wp_free := Some 0\<rparr>"

definition new_wp :: "'a wpst_scheme \<Rightarrow> (nat option \<times> 'a wpst_scheme) res" where
  "new_wp s =
     bind_res (assert_res (Panic ''No idle watchpoints in pool'') (wp_free s \<noteq> None)) (\<lambda>_.
     let wp = wp_free s in
     bind_res (wp_get (wp_free s) s) (\<lambda>n.
     let s1 = s\<lparr>wp_free := next n\<rparr> in
     bind_res (wp_put wp (\<lambda>w. w\<lparr>next := wp_head s1\<rparr>) s1) (\<lambda>s2.
     Inr (wp, s2\<lparr>wp_head := wp\<rparr>))))"

text \<open>The loop of \<open>free_wp\<close>: the node before \<open>wp\<close>, or \<open>NULL\<close>.\<close>

fun find_prev :: "nat \<Rightarrow> nat option \<Rightarrow> nat option \<Rightarrow> 'a wpst_scheme \<Rightarrow> nat option res" where
  "find_prev 0 wp prev s = Inl Diverges"
| "find_prev (Suc k) wp prev s =
     (if prev = None then Inr None
      else bind_res (wp_get prev s) (\<lambda>w.
           if next w \<noteq> wp then find_prev k wp (next w) s else Inr prev))"

definition free_str :: "cstr \<Rightarrow> cstr res" where
  "free_str p = (case p of CNull \<Rightarrow> Inr CNull | CStr _ \<Rightarrow> Inr CFreed | CFreed \<Rightarrow> Inl Use_after_free)"

definition free_wp :: "nat option \<Rightarrow> 'a wpst_scheme \<Rightarrow> 'a wpst_scheme res" where
  "free_wp wp s =
     bind_res (assert_res (Panic ''The watchpoint to be released cannot be NULL'') (wp \<noteq> None)) (\<lambda>_.
     bind_res
       (if wp_head s = wp then
          bind_res (wp_get (wp_head s) s) (\<lambda>w. Inr (s\<lparr>wp_head := next w\<rparr>))
        else
          bind_res (find_prev (Suc NR_WP) wp (wp_head s) s) (\<lambda>prev.
          if prev \<noteq> None then
            bind_res (wp_get wp s) (\<lambda>w. wp_put prev (\<lambda>p. p\<lparr>next := next w\<rparr>) s)
          else Inr s)) (\<lambda>s1.
     bind_res (wp_get wp s1) (\<lambda>w.
     bind_res (free_str (expression w)) (\<lambda>e.
     bind_res (wp_put wp (\<lambda>w. w\<lparr>expression := e, next := wp_free s1\<rparr>) s1) (\<lambda>s2.
     Inr (s2\<lparr>wp_free := wp\<rparr>))))))"

definition cstr_get :: "cstr \<Rightarrow> string res" where
  "cstr_get p =
     (case p of CNull \<Rightarrow> Inl Null_deref | CStr str \<Rightarrow> Inr str | CFreed \<Rightarrow> Inl Use_after_free)"

fun info_wp_loop :: "nat \<Rightarrow> nat option \<Rightarrow> 'a wpst_scheme \<Rightarrow> 'a wpst_scheme res" where
  "info_wp_loop 0 wp s = Inl Diverges"
| "info_wp_loop (Suc k) wp s =
     (if wp = None then Inr s
      else bind_res (wp_get wp s) (\<lambda>w.
           bind_res (cstr_get (expression w)) (\<lambda>e.
           info_wp_loop k (next w) (print (Wp_row (NO w) (value w) e) s))))"

definition info_wp :: "'a wpst_scheme \<Rightarrow> 'a wpst_scheme res" where
  "info_wp s =
     (if wp_head s = None then Inr (print No_watchpoint s)
      else info_wp_loop (Suc NR_WP) (wp_head s) (print Wp_header s))"

definition add_wp :: "string \<Rightarrow> u32 \<Rightarrow> 'a wpst_scheme \<Rightarrow> 'a wpst_scheme res" where
  "add_wp e val s =
     bind_res (new_wp s) (\<lambda>(wp, s1).
     bind_res (assert_res (Panic ''Fail to add watchpoint, no idle watchpoint'') (wp \<noteq> None)) (\<lambda>_.
     bind_res (wp_put wp (\<lambda>w. w\<lparr>expression := CStr e, value := val\<rparr>) s1) (\<lambda>s2.
     bind_res (wp_get wp s2) (\<lambda>w. Inr (print (Wp_set (NO w) e) s2)))))"

fun delete_wp_loop ::
  "nat \<Rightarrow> int \<Rightarrow> nat option \<Rightarrow> nat option \<Rightarrow> 'a wpst_scheme \<Rightarrow> 'a wpst_scheme res" where
  "delete_wp_loop 0 no prev wp s = Inl Diverges"
| "delete_wp_loop (Suc k) no prev wp s =
     (if wp = None then Inr (print (Wp_not_found no) s)
      else bind_res (wp_get wp s) (\<lambda>w.
        if NO w = no then
          bind_res (if prev = None then Inr (s\<lparr>wp_head := next w\<rparr>)
                    else wp_put prev (\<lambda>p. p\<lparr>next := next w\<rparr>) s) (\<lambda>s1.
          bind_res (free_wp wp s1) (\<lambda>s2. Inr (print (Wp_deleted no) s2)))
        else delete_wp_loop k no wp (next w) s))"

definition delete_wp :: "int \<Rightarrow> 'a wpst_scheme \<Rightarrow> 'a wpst_scheme res" where
  "delete_wp no s =
     bind_res (assert_res (Panic ''Invalid watchpoint No'') (no < int NR_WP)) (\<lambda>_.
     delete_wp_loop (Suc NR_WP) no None (wp_head s) s)"

subsection \<open>Checking\<close>

definition check_one :: "config \<Rightarrow> nat option \<Rightarrow> 'a wpst_scheme \<Rightarrow> 'a wpst_scheme res" where
  "check_one c wp s =
     bind_res (wp_get wp s) (\<lambda>w.
     bind_res (cstr_get (expression w)) (\<lambda>e.
     bind_res (expr c e s) (\<lambda>(new_value, success, s1).
     bind_res (assert_res Assertion success) (\<lambda>_.
     if new_value \<noteq> value w then
       (let s2 = print (New_value new_value) (print (Old_value (value w))
                   (print (Wp_triggered (NO w) e) s1)) in
        bind_res (wp_put wp (\<lambda>w. w\<lparr>value := new_value\<rparr>) s2) (\<lambda>s3.
        Inr (s3\<lparr>nemu_state := (nemu_state s3)\<lparr>st_state := NEMU_STOP\<rparr>\<rparr>)))
     else Inr s1))))"

fun check_wp_loop :: "nat \<Rightarrow> config \<Rightarrow> nat option \<Rightarrow> 'a wpst_scheme \<Rightarrow> 'a wpst_scheme res" where
  "check_wp_loop 0 c wp s = Inl Diverges"
| "check_wp_loop (Suc k) c wp s =
     (if wp = None then Inr s
      else bind_res (check_one c wp s) (\<lambda>s1.
           bind_res (wp_get wp s1) (\<lambda>w. check_wp_loop k c (next w) s1)))"

definition check_wp :: "config \<Rightarrow> 'a wpst_scheme \<Rightarrow> 'a wpst_scheme res" where
  "check_wp c s = check_wp_loop (Suc NR_WP) c (wp_head s) s"

end
