(* ===== verification/Watchpoint_Facts.thy ===== *)
theory Watchpoint_Facts
  imports Watchpoint Poweron
begin

text \<open>
  Facts on the watchpoint pool: the two chains partition the pool, the operations
  implement a stack of numbered watchpoints, and a check updates and reports exactly the
  watchpoints whose value changed.
\<close>

subsection \<open>Chains\<close>

fun path :: "WP list \<Rightarrow> nat option \<Rightarrow> nat list \<Rightarrow> bool" where
  "path pool p [] \<longleftrightarrow> p = None"
| "path pool p (x # xs) \<longleftrightarrow> p = Some x \<and> x < length pool \<and> path pool (next (pool ! x)) xs"

lemma path_None [simp]: "path pool None xs \<longleftrightarrow> xs = []"
  by (cases xs) auto

lemma path_bound: "path pool p xs \<Longrightarrow> x \<in> set xs \<Longrightarrow> x < length pool"
  by (induction xs arbitrary: p) auto

lemma path_frame [simp]: "i \<notin> set xs \<Longrightarrow> path (pool[i := w]) p xs = path pool p xs"
  by (induction xs arbitrary: p) auto

lemma path_same_next:
  assumes "next w = next (pool ! i)"
  shows "path (pool[i := w]) p xs = path pool p xs"
proof (induction xs arbitrary: p)
  case (Cons x xs)
  have "x < length pool \<Longrightarrow> next (pool[i := w] ! x) = next (pool ! x)"
    using assms by (cases "i = x") simp_all
  then show ?case by (simp add: Cons.IH cong: conj_cong)
qed simp

text \<open>Unlinking \<open>y\<close> after \<open>x\<close>.\<close>

lemma path_unlink:
  assumes "path pool p (xs @ x # y # ys)" and "distinct (xs @ x # y # ys)"
  shows "path (pool[x := (pool ! x)\<lparr>next := next (pool ! y)\<rparr>]) p (xs @ x # ys)"
  using assms
proof (induction xs arbitrary: p)
  case Nil
  then show ?case by auto
next
  case (Cons a xs)
  then show ?case by (auto simp: nth_list_update)
qed

lemma path_nth_next:
  assumes "path pool p (xs @ x # ys)"
  shows "x < length pool" and "path pool (next (pool ! x)) ys"
  using assms by (induction xs arbitrary: p) auto

subsection \<open>The invariant and the abstraction\<close>

definition live :: "WP \<Rightarrow> bool" where
  "live w \<longleftrightarrow> (\<exists>e. expression w = CStr e)"

definition wp_inv :: "'a wpst_scheme \<Rightarrow> nat list \<Rightarrow> nat list \<Rightarrow> bool" where
  "wp_inv s as fs \<longleftrightarrow>
     length (wp_pool s) = NR_WP \<and> path (wp_pool s) (wp_head s) as \<and>
     path (wp_pool s) (wp_free s) fs \<and> distinct (as @ fs) \<and> set (as @ fs) = {0..<NR_WP} \<and>
     (\<forall>i < NR_WP. NO (wp_pool s ! i) = int i) \<and> (\<forall>i \<in> set as. live (wp_pool s ! i))"

definition wp_ok :: "'a wpst_scheme \<Rightarrow> bool" where
  "wp_ok s \<longleftrightarrow> (\<exists>as fs. wp_inv s as fs)"

fun cstr_str :: "cstr \<Rightarrow> string" where
  "cstr_str (CStr e) = e"
| "cstr_str _ = []"

text \<open>What the user sees of an active watchpoint: its number, expression and value.\<close>

definition wp_view :: "WP list \<Rightarrow> nat \<Rightarrow> int \<times> string \<times> u32" where
  "wp_view pool i = (NO (pool ! i), cstr_str (expression (pool ! i)), value (pool ! i))"

fun collect :: "nat \<Rightarrow> WP list \<Rightarrow> nat option \<Rightarrow> nat list" where
  "collect 0 pool p = []"
| "collect (Suc k) pool p =
     (case p of None \<Rightarrow> []
      | Some i \<Rightarrow> if i < length pool then i # collect k pool (next (pool ! i)) else [])"

definition watchpoints :: "'a wpst_scheme \<Rightarrow> (int \<times> string \<times> u32) list" where
  "watchpoints s = map (wp_view (wp_pool s)) (collect (Suc NR_WP) (wp_pool s) (wp_head s))"

lemma collect_path: "path pool p xs \<Longrightarrow> length xs < k \<Longrightarrow> collect k pool p = xs"
proof (induction k arbitrary: p xs)
  case (Suc k)
  then show ?case by (cases xs) auto
qed simp

lemma wp_inv_length:
  assumes "wp_inv s as fs"
  shows "length as + length fs = NR_WP"
proof -
  have "card (set (as @ fs)) = length (as @ fs)"
    using assms by (intro distinct_card) (simp add: wp_inv_def)
  with assms show ?thesis by (simp add: wp_inv_def)
qed

lemma watchpoints_eq:
  assumes "wp_inv s as fs"
  shows "watchpoints s = map (wp_view (wp_pool s)) as"
proof -
  have "length as < Suc NR_WP" using wp_inv_length [OF assms] by simp
  with assms collect_path [of "wp_pool s" "wp_head s" as "Suc NR_WP"] show ?thesis
    by (simp add: watchpoints_def wp_inv_def)
qed

lemma wp_inv_nth: "wp_inv s as fs \<Longrightarrow> i \<in> set as \<union> set fs \<Longrightarrow> i < length (wp_pool s)"
  by (auto simp: wp_inv_def)

lemma wp_inv_NO:
  assumes "wp_inv s as fs" and "i \<in> set as"
  shows "NO (wp_pool s ! i) = int i"
proof -
  have "i < NR_WP" using wp_inv_nth [OF assms(1), of i] assms by (simp add: wp_inv_def)
  then show ?thesis using assms(1) by (simp add: wp_inv_def)
qed

lemma wp_get_ok [simp]: "i < length (wp_pool s) \<Longrightarrow> wp_get (Some i) s = Inr (wp_pool s ! i)"
  by (simp add: wp_get_def)

lemma wp_put_ok [simp]:
  "i < length (wp_pool s) \<Longrightarrow>
   wp_put (Some i) f s = Inr (s\<lparr>wp_pool := (wp_pool s)[i := f (wp_pool s ! i)]\<rparr>)"
  by (simp add: wp_put_def)

subsection \<open>Operations on the chains\<close>

lemma path_init:
  "k < NR_WP \<Longrightarrow> length pool = NR_WP \<Longrightarrow>
   (\<forall>i < NR_WP. next (pool ! i) = (if i = NR_WP - 1 then None else Some (i + 1))) \<Longrightarrow>
   path pool (Some k) [k..<NR_WP]"
proof (induction "NR_WP - k" arbitrary: k)
  case (Suc d)
  show ?case
  proof (cases "Suc k < NR_WP")
    case True
    then have "path pool (Some (Suc k)) [Suc k..<NR_WP]" using Suc by auto
    with Suc.prems True show ?thesis by (simp add: upt_conv_Cons)
  next
    case False
    with Suc.prems show ?thesis by (simp add: upt_conv_Cons)
  qed
qed simp

lemma init_wp_pool_inv: "wp_inv (init_wp_pool s) [] [0..<NR_WP]"
proof -
  have "path (wp_pool (init_wp_pool s)) (Some 0) [0..<NR_WP]"
    by (rule path_init) (auto simp: init_wp_pool_def NR_WP_def)
  then show ?thesis by (auto simp: wp_inv_def init_wp_pool_def)
qed

text \<open>Taking a free watchpoint.\<close>

lemma new_wp_spec:
  assumes inv: "wp_inv s as (f # fs)"
  shows "new_wp s = Inr (Some f,
    s\<lparr>wp_free := next (wp_pool s ! f),
      wp_pool := (wp_pool s)[f := (wp_pool s ! f)\<lparr>next := wp_head s\<rparr>], wp_head := Some f\<rparr>)"
  using inv by (simp add: new_wp_def wp_inv_def Let_def)

lemma add_wp_spec:
  assumes inv: "wp_inv s as (f # fs)"
  shows "\<exists>s'. add_wp e v s = Inr s' \<and> wp_inv s' (f # as) fs \<and>
    watchpoints s' = (int f, e, v) # watchpoints s"
proof -
  have f: "f < length (wp_pool s)" "f < NR_WP" "f \<notin> set as" "f \<notin> set fs"
    using inv by (auto simp: wp_inv_def)
  let ?w = "(wp_pool s ! f)\<lparr>next := wp_head s, expression := CStr e, value := v\<rparr>"
  let ?s' = "print (Wp_set (int f) e)
    (s\<lparr>wp_free := next (wp_pool s ! f), wp_head := Some f, wp_pool := (wp_pool s)[f := ?w]\<rparr>)"
  have "add_wp e v s = Inr ?s'"
    using f inv by (simp add: add_wp_def new_wp_spec [OF inv] wp_inv_def)
  moreover have inv': "wp_inv ?s' (f # as) fs"
    using inv f by (auto simp: wp_inv_def print_def live_def nth_list_update)
  moreover have "map (wp_view (wp_pool ?s')) as = map (wp_view (wp_pool s)) as"
    using f by (intro map_cong) (auto simp: wp_view_def print_def nth_list_update)
  ultimately show ?thesis
    using f inv watchpoints_eq [OF inv'] watchpoints_eq [OF inv]
    by (intro exI [of _ ?s']) (auto simp: wp_view_def print_def wp_inv_def)
qed

lemma add_wp_full:
  assumes "wp_inv s as []"
  shows "add_wp e v s = Inl (Panic ''No idle watchpoints in pool'')"
  using assms by (simp add: add_wp_def new_wp_def wp_inv_def)

lemma find_prev_None:
  "path (wp_pool s) p xs \<Longrightarrow> y \<notin> set xs \<Longrightarrow> length xs < k \<Longrightarrow> find_prev k (Some y) p s = Inr None"
proof (induction k arbitrary: p xs)
  case (Suc k)
  show ?case
  proof (cases xs)
    case (Cons x xs')
    then have "next (wp_pool s ! x) \<noteq> Some y" using Suc.prems by (cases xs') auto
    then show ?thesis using Cons Suc by auto
  qed (use Suc.prems in simp)
qed simp

text \<open>A watchpoint that is on neither chain.\<close>

definition detached :: "'a wpst_scheme \<Rightarrow> nat \<Rightarrow> nat list \<Rightarrow> nat list \<Rightarrow> bool" where
  "detached s y as fs \<longleftrightarrow>
     length (wp_pool s) = NR_WP \<and> path (wp_pool s) (wp_head s) as \<and>
     path (wp_pool s) (wp_free s) fs \<and> distinct (y # as @ fs) \<and> set (y # as @ fs) = {0..<NR_WP} \<and>
     (\<forall>i < NR_WP. NO (wp_pool s ! i) = int i) \<and> (\<forall>i \<in> set (y # as). live (wp_pool s ! i))"

lemma free_wp_detached:
  assumes d: "detached s y as fs"
  shows "\<exists>s'. free_wp (Some y) s = Inr s' \<and> wp_inv s' as (y # fs) \<and>
    (\<forall>i. i \<noteq> y \<longrightarrow> wp_pool s' ! i = wp_pool s ! i)"
proof -
  have y: "y < length (wp_pool s)" "y \<notin> set as" "y \<notin> set fs" using d by (auto simp: detached_def)
  have hd: "wp_head s \<noteq> Some y" using d by (cases as) (auto simp: detached_def)
  have "card (set as) \<le> card {0..<NR_WP}" using d by (intro card_mono) (auto simp: detached_def)
  then have "length as < Suc NR_WP" using d by (simp add: detached_def distinct_card)
  then have prev: "find_prev (Suc NR_WP) (Some y) (wp_head s) s = Inr None"
    using d y by (intro find_prev_None) (auto simp: detached_def)
  obtain e where e: "expression (wp_pool s ! y) = CStr e" using d by (auto simp: detached_def live_def)
  let ?w = "(wp_pool s ! y)\<lparr>expression := CFreed, next := wp_free s\<rparr>"
  let ?s' = "s\<lparr>wp_pool := (wp_pool s)[y := ?w], wp_free := Some y\<rparr>"
  have "free_wp (Some y) s = Inr ?s'"
    using y hd prev e by (simp add: free_wp_def free_str_def)
  moreover have "wp_inv ?s' as (y # fs)"
    using d y by (auto simp: wp_inv_def detached_def nth_list_update live_def)
  ultimately show ?thesis by auto
qed

text \<open>Unlinking an active watchpoint, as the loop of \<open>delete_wp\<close> does.\<close>

lemma unlink_detached:
  assumes inv: "wp_inv s (xs @ y # ys) fs"
  shows "\<exists>s1. (if xs = [] then Inr (s\<lparr>wp_head := next (wp_pool s ! y)\<rparr>)
            else wp_put (Some (last xs)) (\<lambda>p. p\<lparr>next := next (wp_pool s ! y)\<rparr>) s) = Inr s1 \<and>
    detached s1 y (xs @ ys) fs \<and> out s1 = out s \<and>
    (\<forall>i. wp_view (wp_pool s1) i = wp_view (wp_pool s) i)"
proof (cases "xs = []")
  case True
  then show ?thesis using inv by (auto simp: wp_inv_def detached_def)
next
  case False
  then obtain zs x where xs: "xs = zs @ [x]" by (metis rev_exhaust)
  let ?s1 = "s\<lparr>wp_pool := (wp_pool s)[x := (wp_pool s ! x)\<lparr>next := next (wp_pool s ! y)\<rparr>]\<rparr>"
  have x: "x < length (wp_pool s)" "x \<notin> set fs" "x \<noteq> y" using inv xs by (auto simp: wp_inv_def)
  have "path (wp_pool ?s1) (wp_head s) (zs @ x # ys)"
    using inv xs path_unlink [of "wp_pool s" "wp_head s" zs x y ys]
    by (auto simp: wp_inv_def)
  then have "detached ?s1 y (xs @ ys) fs"
    using inv xs x by (auto simp: wp_inv_def detached_def nth_list_update live_def)
  moreover have "\<forall>i. wp_view (wp_pool ?s1) i = wp_view (wp_pool s) i"
    using x by (auto simp: wp_view_def nth_list_update)
  ultimately show ?thesis using False xs x by auto
qed

lemma delete_loop_absent:
  assumes "wp_inv s as fs"
  shows "path (wp_pool s) p ys \<Longrightarrow> set ys \<subseteq> {0..<NR_WP} \<Longrightarrow> no \<notin> int ` set ys \<Longrightarrow> length ys < k \<Longrightarrow>
    delete_wp_loop k no prev p s = Inr (print (Wp_not_found no) s)"
proof (induction k arbitrary: prev p ys)
  case (Suc k)
  then show ?case using assms by (cases ys) (auto simp: wp_inv_def)
qed simp

lemma delete_loop_found:
  assumes inv: "wp_inv s (xs @ y # ys) fs"
  shows "length zs < k \<Longrightarrow> xs = ws @ zs \<Longrightarrow> path (wp_pool s) p (zs @ y # ys) \<Longrightarrow>
    prev = (if ws = [] then None else Some (last ws)) \<Longrightarrow>
    \<exists>s'. delete_wp_loop k (int y) prev p s = Inr s' \<and> wp_inv s' (xs @ ys) (y # fs) \<and>
      watchpoints s' = map (wp_view (wp_pool s)) (xs @ ys)"
proof (induction k arbitrary: zs ws p prev)
  case (Suc k)
  show ?case
  proof (cases zs)
    case Nil
    then have p: "p = Some y" "xs = ws" using Suc.prems by auto
    have y: "y < length (wp_pool s)" "NO (wp_pool s ! y) = int y"
      using wp_inv_nth [OF inv, of y] inv by (simp_all add: wp_inv_def)
    obtain s1 where s1: "(if xs = [] then Inr (s\<lparr>wp_head := next (wp_pool s ! y)\<rparr>)
            else wp_put (Some (last xs)) (\<lambda>p. p\<lparr>next := next (wp_pool s ! y)\<rparr>) s) = Inr s1"
      and d: "detached s1 y (xs @ ys) fs" and v: "\<forall>i. wp_view (wp_pool s1) i = wp_view (wp_pool s) i"
      using unlink_detached [OF inv] by blast
    obtain s2 where s2: "free_wp (Some y) s1 = Inr s2" "wp_inv s2 (xs @ ys) (y # fs)"
      "\<forall>i. i \<noteq> y \<longrightarrow> wp_pool s2 ! i = wp_pool s1 ! i"
      using free_wp_detached [OF d] by blast
    have "y \<notin> set (xs @ ys)" using inv by (auto simp: wp_inv_def)
    then have "map (wp_view (wp_pool s2)) (xs @ ys) = map (wp_view (wp_pool s)) (xs @ ys)"
      using s2(3) v by (intro map_cong) (auto simp: wp_view_def)
    moreover have "wp_inv (print (Wp_deleted (int y)) s2) (xs @ ys) (y # fs)"
      using s2(2) by (simp add: wp_inv_def print_def)
    ultimately show ?thesis
      using s1 s2(1) y p Suc.prems(4) watchpoints_eq [of "print (Wp_deleted (int y)) s2"]
      by (auto simp: print_def)
  next
    case (Cons z zs')
    then have z: "z < length (wp_pool s)" "NO (wp_pool s ! z) = int z" "z \<noteq> y" "p = Some z"
      using wp_inv_nth [OF inv, of z] inv Suc.prems by (auto simp: wp_inv_def)
    have "\<exists>s'. delete_wp_loop k (int y) (Some z) (next (wp_pool s ! z)) s = Inr s' \<and>
        wp_inv s' (xs @ ys) (y # fs) \<and> watchpoints s' = map (wp_view (wp_pool s)) (xs @ ys)"
      by (rule Suc.IH [of zs' "ws @ [z]"]) (use Suc.prems Cons in auto)
    then show ?thesis using z by simp
  qed
qed simp

lemma delete_wp_spec:
  assumes inv: "wp_inv s as fs" and no: "no < int NR_WP"
  shows "\<exists>s' fs'. delete_wp no s = Inr s' \<and> wp_inv s' (filter (\<lambda>i. int i \<noteq> no) as) fs' \<and>
    watchpoints s' = filter (\<lambda>w. fst w \<noteq> no) (watchpoints s)"
proof -
  have len: "length as < Suc NR_WP" using wp_inv_length [OF inv] by simp
  have view: "filter (\<lambda>w. fst w \<noteq> no) (map (wp_view (wp_pool s)) as)
      = map (wp_view (wp_pool s)) (filter (\<lambda>i. int i \<noteq> no) as)"
    using wp_inv_NO [OF inv]
    by (auto simp: filter_map wp_view_def intro!: arg_cong [where f = "map _"] filter_cong)
  have pa: "path (wp_pool s) (wp_head s) as" using inv by (simp add: wp_inv_def)
  show ?thesis
  proof (cases "no \<in> int ` set as")
    case False
    then have fl: "filter (\<lambda>i. int i \<noteq> no) as = as" by (auto simp: filter_id_conv)
    have "delete_wp no s = Inr (print (Wp_not_found no) s)"
      using delete_loop_absent [OF inv pa _ False len] inv no
      by (auto simp: delete_wp_def wp_inv_def simp del: delete_wp_loop.simps)
    moreover have inv': "wp_inv (print (Wp_not_found no) s) as fs"
      using inv by (simp add: wp_inv_def print_def)
    ultimately show ?thesis
      using view fl watchpoints_eq [OF inv] watchpoints_eq [OF inv'] by (auto simp: print_def)
  next
    case True
    then obtain y xs ys where y: "no = int y" "as = xs @ y # ys"
      by (metis imageE split_list)
    have dst: "y \<notin> set xs" "y \<notin> set ys" using inv y by (auto simp: wp_inv_def)
    moreover have "filter (\<lambda>i. i \<noteq> y) zs = zs" if "y \<notin> set zs" for zs
      using that by (induction zs) auto
    ultimately have fl: "filter (\<lambda>i. int i \<noteq> no) as = xs @ ys" using y by simp
    obtain s' where "delete_wp_loop (Suc NR_WP) (int y) None (wp_head s) s = Inr s'"
      "wp_inv s' (xs @ ys) (y # fs)" "watchpoints s' = map (wp_view (wp_pool s)) (xs @ ys)"
      using delete_loop_found [OF inv [unfolded y(2)], of xs "Suc NR_WP" "[]" "wp_head s" None]
        len pa y by (auto simp del: delete_wp_loop.simps)
    then show ?thesis
      using no y fl view watchpoints_eq [OF inv]
      by (auto simp: delete_wp_def simp del: delete_wp_loop.simps)
  qed
qed

subsection \<open>The interface of the pool\<close>

text \<open>What a client of the pool relies on: numbered entries, most recent first, at most
  \<open>cap\<close> of them.\<close>

locale watch_registry =
  fixes add :: "string \<Rightarrow> u32 \<Rightarrow> 's \<Rightarrow> 's res"
    and del :: "int \<Rightarrow> 's \<Rightarrow> 's res"
    and entries :: "'s \<Rightarrow> (int \<times> string \<times> u32) list"
    and invar :: "'s \<Rightarrow> bool"
    and cap :: nat
  assumes add_ok: "invar s \<Longrightarrow> length (entries s) < cap \<Longrightarrow>
      \<exists>s' n. add e v s = Inr s' \<and> invar s' \<and> 0 \<le> n \<and> n < int cap \<and> n \<notin> fst ` set (entries s) \<and>
        entries s' = (n, e, v) # entries s"
    and add_full: "invar s \<Longrightarrow> cap \<le> length (entries s) \<Longrightarrow> \<exists>err. add e v s = Inl err"
    and del_ok: "invar s \<Longrightarrow> n < int cap \<Longrightarrow>
      \<exists>s'. del n s = Inr s' \<and> invar s' \<and> entries s' = filter (\<lambda>w. fst w \<noteq> n) (entries s)"
    and entries_cap: "invar s \<Longrightarrow> length (entries s) \<le> cap"
begin

text \<open>Deleting what was just added restores the list.\<close>

lemma add_del:
  assumes "invar s" and "length (entries s) < cap"
  shows "\<exists>s1 s2 n. add e v s = Inr s1 \<and> entries s1 = (n, e, v) # entries s \<and> del n s1 = Inr s2 \<and>
    invar s2 \<and> entries s2 = entries s"
proof -
  obtain s1 n where 1: "add e v s = Inr s1" "invar s1" "n < int cap" "n \<notin> fst ` set (entries s)"
    "entries s1 = (n, e, v) # entries s"
    using add_ok [OF assms] by blast
  obtain s2 where "del n s1 = Inr s2" "invar s2" "entries s2 = filter (\<lambda>w. fst w \<noteq> n) (entries s1)"
    using del_ok [OF 1(2,3)] by blast
  moreover have "filter (\<lambda>w. fst w \<noteq> n) (entries s) = entries s"
    using 1(4) by (force simp: filter_id_conv)
  ultimately show ?thesis using 1 by auto
qed

end

lemma watchpoints_length: "wp_inv s as fs \<Longrightarrow> length (watchpoints s) = length as"
  by (simp add: watchpoints_eq)

lemma watchpoints_numbers: "wp_inv s as fs \<Longrightarrow> fst ` set (watchpoints s) = int ` set as"
  using wp_inv_NO by (force simp: watchpoints_eq wp_view_def image_iff)

interpretation wp: watch_registry add_wp delete_wp watchpoints wp_ok NR_WP
proof unfold_locales
  fix s :: "'a wpst_scheme" and e v
  assume "wp_ok s" and len: "length (watchpoints s) < NR_WP"
  then obtain as fs where inv: "wp_inv s as fs" by (auto simp: wp_ok_def)
  then obtain f fs' where fs: "fs = f # fs'"
    using len wp_inv_length [OF inv] watchpoints_length [OF inv] by (cases fs) auto
  have "f < NR_WP" "f \<notin> set as" using inv fs by (auto simp: wp_inv_def)
  then show "\<exists>s' n. add_wp e v s = Inr s' \<and> wp_ok s' \<and> 0 \<le> n \<and> n < int NR_WP \<and>
      n \<notin> fst ` set (watchpoints s) \<and> watchpoints s' = (n, e, v) # watchpoints s"
    using add_wp_spec [OF inv [unfolded fs], of e v] watchpoints_numbers [OF inv]
    by (force simp: wp_ok_def)
next
  fix s :: "'a wpst_scheme" and e v
  assume "wp_ok s" and "NR_WP \<le> length (watchpoints s)"
  then obtain as where "wp_inv s as []"
    using wp_inv_length watchpoints_length
    by (metis add.right_neutral length_0_conv nat_add_left_cancel_le le_zero_eq wp_ok_def)
  then show "\<exists>err. add_wp e v s = Inl err" using add_wp_full by blast
next
  fix s :: "'a wpst_scheme" and n
  assume "wp_ok s" and "n < int NR_WP"
  then show "\<exists>s'. delete_wp n s = Inr s' \<and> wp_ok s' \<and>
      watchpoints s' = filter (\<lambda>w. fst w \<noteq> n) (watchpoints s)"
    using delete_wp_spec by (fastforce simp: wp_ok_def)
next
  fix s :: "'a wpst_scheme"
  assume "wp_ok s"
  then show "length (watchpoints s) \<le> NR_WP"
    using wp_inv_length watchpoints_length by (metis le_add1 wp_ok_def)
qed

subsection \<open>Evaluation leaves the debugger alone\<close>

lemma vaddr_read_more: "vaddr_read c a len s = Inr (v, s') \<Longrightarrow> nemu.more s' = nemu.more s"
  using paddr_read_pmem_frame dev_more_nemu by (fastforce simp: vaddr_read_def)

text \<open>Evaluation changes the state only by reading guest memory: what holds across reads holds
  across evaluations.\<close>

lemma eval_frame:
  assumes same: "\<And>s. P s s" and step: "\<And>s s1 s2. P s s1 \<Longrightarrow> P s1 s2 \<Longrightarrow> P s s2"
    and read: "\<And>c a s v s'. vaddr_read c a 4 s = Inr (v, s') \<Longrightarrow> P s s'"
  shows "eval c ts p q s = Inr (v, s') \<Longrightarrow> P s s'"
proof (induction c ts p q s arbitrary: v s' rule: eval.induct)
  case (1 c ts p q s)
  have un: "P s s'" if "apply_unop c ty v s = Inr (v', s')" for ty v s v' s'
    using that by (auto simp: apply_unop_def split: if_splits intro: same read)
  let ?opr = "find_main_operator ts p q"
  show ?case
  proof (cases "p \<ge> q \<or> check_parentheses ts p q \<noteq> PAREN_NOT_ENCLOSED")
    case True
    then show ?thesis
      using "1.prems" "1.IH"(1) same
      by (subst (asm) eval.simps)
        (auto simp: bind_res_eq_Inr_iff split: if_splits Paren_Status.splits)
  next
    case False
    then have ne: "\<not> p > q" "p \<noteq> q" and ck: "check_parentheses ts p q = PAREN_NOT_ENCLOSED" by auto
    note IH = "1.IH"(2-4) [OF ne ck]
    note ev = "1.prems" [unfolded eval.simps [of c ts p q s]]
    show ?thesis
    proof (cases "?opr = p")
      case True
      obtain v1 s1 where s1: "eval c ts (p + 1) q s = Inr (v1, s1)"
        "apply_unop c (tk_type (ts ! nat p)) v1 s1 = Inr (v, s')"
        using ev ne ck True by (auto simp: Let_def bind_res_eq_Inr_iff)
      show ?thesis by (rule step [OF IH(1) [OF refl True s1(1)] un [OF s1(2)]])
    next
      case False
      consider "s' = s" | v1 s1 v2 where
        "\<not> (tk_type (ts ! nat p) = TK_NEGATIVE \<and> tk_type (ts ! nat (p + 1)) = TK_NUMS)"
        "\<not> (tk_type (ts ! nat p) = TK_POSITIVE \<and> tk_type (ts ! nat (p + 1)) = TK_NUMS)"
        "?opr \<noteq> -1" "eval c ts p (?opr - 1) s = Inr (v1, s1)"
        "eval c ts (?opr + 1) q s1 = Inr (v2, s')"
        using ev ne ck False by (auto simp: Let_def bind_res_eq_Inr_iff split: if_splits)
      then show ?thesis
      proof cases
        case 2
        show ?thesis
          by (rule step [OF IH(2) [OF refl False 2(1-4)] IH(3) [OF refl False 2(1-3) 2(4) refl 2(5)]])
      qed (simp add: same)
    qed
  qed
qed

lemma expr_frame:
  assumes "\<And>s. P s s" and "\<And>s s1 s2. P s s1 \<Longrightarrow> P s1 s2 \<Longrightarrow> P s s2"
    and "\<And>c a s v s'. vaddr_read c a 4 s = Inr (v, s') \<Longrightarrow> P s s'"
    and "expr c e s = Inr (v, b, s')"
  shows "P s s'"
  using assms(4) eval_frame [of P, OF assms(1-3)] assms(1)
  by (auto simp: expr_def bind_res_eq_Inr_iff split: option.splits)

lemma expr_more: "expr c e s = Inr (v, b, s') \<Longrightarrow> nemu.more s' = nemu.more s"
  by (rule expr_frame [of "\<lambda>s s'. nemu.more s' = nemu.more s"]) (auto dest: vaddr_read_more)

lemma expr_wp:
  assumes "expr c e s = Inr (v, b, s')"
  shows "wp_pool s' = wp_pool s" "wp_head s' = wp_head s" "wp_free s' = wp_free s" "out s' = out s"
    "wpst.more s' = wpst.more s"
  using expr_more [OF assms] by (cases s; cases s'; simp)+

subsection \<open>Checking the watchpoints\<close>

text \<open>The expression has the value \<open>v\<close> in every state with these registers and this guest
  memory, and reading it has no side effect.\<close>

definition pure_value :: "config \<Rightarrow> 'a wpst_scheme \<Rightarrow> string \<Rightarrow> u32 \<Rightarrow> bool" where
  "pure_value c s e v \<longleftrightarrow>
     (\<forall>s1 :: 'a wpst_scheme. cpu s1 = cpu s \<and> pmem s1 = pmem s \<longrightarrow> expr c e s1 = Inr (v, True, s1))"

definition refresh :: "(string \<Rightarrow> u32) \<Rightarrow> int \<times> string \<times> u32 \<Rightarrow> int \<times> string \<times> u32" where
  "refresh val w = (case w of (n, e, v) \<Rightarrow> (n, e, val e))"

definition changed :: "(string \<Rightarrow> u32) \<Rightarrow> int \<times> string \<times> u32 \<Rightarrow> bool" where
  "changed val w = (case w of (n, e, v) \<Rightarrow> val e \<noteq> v)"

definition report :: "(string \<Rightarrow> u32) \<Rightarrow> int \<times> string \<times> u32 \<Rightarrow> out_event list" where
  "report val w =
     (case w of (n, e, v) \<Rightarrow>
        if val e \<noteq> v then [Wp_triggered n e, Old_value v, New_value (val e)] else [])"

lemma check_one_spec:
  assumes inv: "wp_inv s as fs" and i: "i \<in> set as"
    and p: "pure_value c s (cstr_str (expression (wp_pool s ! i)))
              (val (cstr_str (expression (wp_pool s ! i))))"
  shows "\<exists>s'. check_one c (Some i) s = Inr s' \<and> wp_inv s' as fs \<and> cpu s' = cpu s \<and> pmem s' = pmem s \<and>
    next (wp_pool s' ! i) = next (wp_pool s ! i) \<and>
    (\<forall>xs q. path (wp_pool s') q xs = path (wp_pool s) q xs) \<and>
    (\<forall>j. wp_view (wp_pool s') j =
       (if j = i then refresh val (wp_view (wp_pool s) i) else wp_view (wp_pool s) j)) \<and>
    st_state (nemu_state s') =
      (if changed val (wp_view (wp_pool s) i) then NEMU_STOP else st_state (nemu_state s)) \<and>
    out s' = out s @ report val (wp_view (wp_pool s) i)"
proof -
  let ?w = "wp_pool s ! i"
  obtain e where e: "expression ?w = CStr e" using inv i by (auto simp: wp_inv_def live_def)
  have il: "i < length (wp_pool s)" using wp_inv_nth [OF inv, of i] i by simp
  have ev: "expr c e s = Inr (val e, True, s)" using p e by (simp add: pure_value_def)
  show ?thesis
  proof (cases "val e = value ?w")
    case True
    then have "check_one c (Some i) s = Inr s" using il e ev by (simp add: check_one_def cstr_get_def)
    with True e inv show ?thesis
      by (auto simp: wp_view_def refresh_def changed_def report_def)
  next
    case False
    let ?s' = "s\<lparr>out := out s @ [Wp_triggered (NO ?w) e, Old_value (value ?w), New_value (val e)],
      wp_pool := (wp_pool s)[i := ?w\<lparr>value := val e\<rparr>],
      nemu_state := (nemu_state s)\<lparr>st_state := NEMU_STOP\<rparr>\<rparr>"
    have run: "check_one c (Some i) s = Inr ?s'"
      using il e ev False by (simp add: check_one_def cstr_get_def print_def Let_def)
    have pth: "path (wp_pool ?s') q xs = path (wp_pool s) q xs" for q xs
      by (simp add: path_same_next)
    have "wp_inv ?s' as fs"
      using inv il by (simp add: wp_inv_def path_same_next) (auto simp: nth_list_update live_def)
    then show ?thesis
      using run pth il e False
      by (intro exI [of _ ?s'])
        (auto simp: wp_view_def refresh_def changed_def report_def nth_list_update)
  qed
qed

lemma check_loop_spec:
  assumes "wp_inv s as fs" and "path (wp_pool s) p ys" and "set ys \<subseteq> set as" and "distinct ys"
    and "length ys < k"
    and "\<forall>i\<in>set ys. pure_value c s (cstr_str (expression (wp_pool s ! i)))
           (val (cstr_str (expression (wp_pool s ! i))))"
  shows "\<exists>s'. check_wp_loop k c p s = Inr s' \<and> wp_inv s' as fs \<and> cpu s' = cpu s \<and> pmem s' = pmem s \<and>
    (\<forall>j. wp_view (wp_pool s') j =
       (if j \<in> set ys then refresh val (wp_view (wp_pool s) j) else wp_view (wp_pool s) j)) \<and>
    st_state (nemu_state s') =
      (if \<exists>i\<in>set ys. changed val (wp_view (wp_pool s) i) then NEMU_STOP else st_state (nemu_state s)) \<and>
    out s' = out s @ concat (map (\<lambda>i. report val (wp_view (wp_pool s) i)) ys)"
  using assms
proof (induction ys arbitrary: k p s)
  case Nil
  then show ?case by (cases k) auto
next
  case (Cons i ys)
  then obtain k' where k: "k = Suc k'" by (cases k) auto
  have p: "p = Some i" "path (wp_pool s) (next (wp_pool s ! i)) ys" using Cons.prems(2) by auto
  have il: "i \<in> set as" "i \<notin> set ys" using Cons.prems(3,4) by auto
  obtain s1 where s1: "check_one c (Some i) s = Inr s1" "wp_inv s1 as fs" "cpu s1 = cpu s"
      "pmem s1 = pmem s" "next (wp_pool s1 ! i) = next (wp_pool s ! i)"
      "\<forall>xs q. path (wp_pool s1) q xs = path (wp_pool s) q xs"
    and v1: "\<forall>j. wp_view (wp_pool s1) j =
       (if j = i then refresh val (wp_view (wp_pool s) i) else wp_view (wp_pool s) j)"
    and st1: "st_state (nemu_state s1) =
      (if changed val (wp_view (wp_pool s) i) then NEMU_STOP else st_state (nemu_state s))"
    and o1: "out s1 = out s @ report val (wp_view (wp_pool s) i)"
    using check_one_spec [OF Cons.prems(1) il(1), of c val] Cons.prems(6) by auto
  have vw: "wp_view (wp_pool s1) j = wp_view (wp_pool s) j" if "j \<in> set ys" for j
    using v1 that il(2) by auto
  have pu: "\<forall>j\<in>set ys. pure_value c s1 (cstr_str (expression (wp_pool s1 ! j)))
           (val (cstr_str (expression (wp_pool s1 ! j))))"
    using Cons.prems(6) vw s1(3,4) by (auto simp: wp_view_def pure_value_def)
  have "\<exists>s'. check_wp_loop k' c (next (wp_pool s ! i)) s1 = Inr s' \<and> wp_inv s' as fs \<and>
      cpu s' = cpu s1 \<and> pmem s' = pmem s1 \<and>
    (\<forall>j. wp_view (wp_pool s') j =
       (if j \<in> set ys then refresh val (wp_view (wp_pool s1) j) else wp_view (wp_pool s1) j)) \<and>
    st_state (nemu_state s') =
      (if \<exists>j\<in>set ys. changed val (wp_view (wp_pool s1) j) then NEMU_STOP else st_state (nemu_state s1)) \<and>
    out s' = out s1 @ concat (map (\<lambda>j. report val (wp_view (wp_pool s1) j)) ys)"
    by (rule Cons.IH) (use Cons.prems s1 p k pu in auto)
  then obtain s' where s': "check_wp_loop k' c (next (wp_pool s ! i)) s1 = Inr s'" "wp_inv s' as fs"
      "cpu s' = cpu s1" "pmem s' = pmem s1"
    and v': "\<forall>j. wp_view (wp_pool s') j =
       (if j \<in> set ys then refresh val (wp_view (wp_pool s1) j) else wp_view (wp_pool s1) j)"
    and st': "st_state (nemu_state s') =
      (if \<exists>j\<in>set ys. changed val (wp_view (wp_pool s1) j) then NEMU_STOP else st_state (nemu_state s1))"
    and o': "out s' = out s1 @ concat (map (\<lambda>j. report val (wp_view (wp_pool s1) j)) ys)"
    by blast
  have "i < length (wp_pool s1)" using wp_inv_nth [OF s1(2), of i] il(1) by simp
  then have "check_wp_loop k c p s = Inr s'" using k p s1(1,5) s'(1) by simp
  moreover have "out s' = out s @ concat (map (\<lambda>j. report val (wp_view (wp_pool s) j)) (i # ys))"
    using o' o1 vw by (simp cong: map_cong)
  moreover have "st_state (nemu_state s') =
      (if \<exists>j\<in>set (i # ys). changed val (wp_view (wp_pool s) j) then NEMU_STOP
       else st_state (nemu_state s))"
    using st' st1 vw by auto
  moreover have "\<forall>j. wp_view (wp_pool s') j =
       (if j \<in> set (i # ys) then refresh val (wp_view (wp_pool s) j) else wp_view (wp_pool s) j)"
    using v' v1 il(2) by simp
  ultimately show ?case using s'(2-4) s1(3,4) by metis
qed

subsection \<open>Properties\<close>

text \<open>C15: After \<open>init_wp_pool\<close> the pool is well formed with no active watchpoint, and adding and
  deleting, in any order, keep the active and the free chain a partition of the 32
  watchpoints.\<close>

theorem wp_pool_partition:
  "wp_ok (init_wp_pool s) \<and> watchpoints (init_wp_pool s) = [] \<and>
   (wp_ok s' \<longrightarrow> (\<forall>e v s''. add_wp e v s' = Inr s'' \<longrightarrow> wp_ok s'') \<and>
      (\<forall>no s''. delete_wp no s' = Inr s'' \<longrightarrow> wp_ok s''))"
proof (intro conjI impI allI)
  show "wp_ok (init_wp_pool s)" using init_wp_pool_inv by (auto simp: wp_ok_def)
  show "watchpoints (init_wp_pool s) = []" using watchpoints_eq [OF init_wp_pool_inv] by simp
next
  fix e v s'' assume ok: "wp_ok s'" and a: "add_wp e v s' = Inr s''"
  then have "length (watchpoints s') < NR_WP" using wp.add_full [OF ok, of e v] by fastforce
  then show "wp_ok s''" using wp.add_ok [OF ok, of e v] a by auto
next
  fix no s'' assume ok: "wp_ok s'" and d: "delete_wp no s' = Inr s''"
  then have "no < int NR_WP" by (auto simp: delete_wp_def bind_res_eq_Inr_iff)
  then show "wp_ok s''" using wp.del_ok [OF ok] d by fastforce
qed

text \<open>A debugger state with an empty pool.\<close>

definition wp_demo :: wpst where
  "wp_demo = init_wp_pool (nemu.extend power_on
     (wpst.fields (replicate NR_WP \<lparr>NO = 0, next = None, value = 0, expression = CNull\<rparr>) None None []))"

lemma wp_demo_ok: "wp_ok wp_demo" "watchpoints wp_demo = []"
  using init_wp_pool_inv watchpoints_eq [OF init_wp_pool_inv] by (auto simp: wp_ok_def wp_demo_def)

theorem wp_pool_partition_witness:
  "\<exists>s1. add_wp ''$pc'' 0 wp_demo = Inr s1 \<and> wp_ok s1"
proof -
  obtain s1 where "add_wp ''$pc'' 0 wp_demo = Inr s1"
    using wp.add_ok [OF wp_demo_ok(1), of "''$pc''" 0] wp_demo_ok(2) by (auto simp: NR_WP_def)
  then show ?thesis using wp_pool_partition [of wp_demo wp_demo] wp_demo_ok(1) by blast
qed

text \<open>C16: The pool implements a list of numbered watchpoints: adding pushes one with a number that
  is not in use while fewer than 32 are active (and panics otherwise), deleting removes
  exactly the one with the number, and deleting the one just added restores the list.\<close>

theorem wp_pool_refines_list:
  assumes "wp_ok s"
  shows "(if length (watchpoints s) < NR_WP
          then \<exists>s1 s2 n. add_wp e v s = Inr s1 \<and> watchpoints s1 = (n, e, v) # watchpoints s \<and>
                 n \<notin> fst ` set (watchpoints s) \<and> delete_wp n s1 = Inr s2 \<and>
                 watchpoints s2 = watchpoints s
          else add_wp e v s = Inl (Panic ''No idle watchpoints in pool'')) \<and>
         (\<forall>no < int NR_WP. \<exists>s'. delete_wp no s = Inr s' \<and>
            watchpoints s' = filter (\<lambda>w. fst w \<noteq> no) (watchpoints s))"
proof (rule conjI)
  show "if length (watchpoints s) < NR_WP
        then \<exists>s1 s2 n. add_wp e v s = Inr s1 \<and> watchpoints s1 = (n, e, v) # watchpoints s \<and>
               n \<notin> fst ` set (watchpoints s) \<and> delete_wp n s1 = Inr s2 \<and>
               watchpoints s2 = watchpoints s
        else add_wp e v s = Inl (Panic ''No idle watchpoints in pool'')"
  proof (cases "length (watchpoints s) < NR_WP")
    case True
    then show ?thesis
      using wp.add_ok [OF assms True, of e v] wp.add_del [OF assms True, of e v] by fastforce
  next
    case False
    obtain as fs where inv: "wp_inv s as fs" using assms by (auto simp: wp_ok_def)
    then have "fs = []" using False wp_inv_length [OF inv] watchpoints_length [OF inv]
      by (cases fs) simp_all
    then show ?thesis using False add_wp_full inv by simp
  qed
  show "\<forall>no < int NR_WP. \<exists>s'. delete_wp no s = Inr s' \<and>
      watchpoints s' = filter (\<lambda>w. fst w \<noteq> no) (watchpoints s)"
    using wp.del_ok [OF assms] by blast
qed

theorem wp_pool_refines_list_witness:
  "\<exists>s1 s2 n. add_wp ''$pc'' 7 wp_demo = Inr s1 \<and> watchpoints s1 = [(n, ''$pc'', 7)] \<and>
     delete_wp n s1 = Inr s2 \<and> watchpoints s2 = []"
  using wp_pool_refines_list [OF wp_demo_ok(1), of "''$pc''" 7] wp_demo_ok(2)
  by (auto simp: NR_WP_def)

text \<open>C17: When the watched expressions have values without side effects, \<open>check_wp\<close> returns, gives
  every watchpoint its new value, reports exactly the changed ones in the order of the
  list, and stops the machine exactly when one changed.\<close>

theorem check_wp_correct:
  fixes s :: "'a wpst_scheme"
  assumes "wp_ok s" and "\<forall>w\<in>set (watchpoints s). pure_value c s (fst (snd w)) (val (fst (snd w)))"
  shows "\<exists>s'. check_wp c s = Inr s' \<and> wp_ok s' \<and> cpu s' = cpu s \<and> pmem s' = pmem s \<and>
    watchpoints s' = map (refresh val) (watchpoints s) \<and>
    out s' = out s @ concat (map (report val) (watchpoints s)) \<and>
    st_state (nemu_state s') =
      (if \<exists>w\<in>set (watchpoints s). changed val w then NEMU_STOP else st_state (nemu_state s))"
proof -
  obtain as fs where inv: "wp_inv s as fs" using assms(1) by (auto simp: wp_ok_def)
  note ws = watchpoints_eq [OF inv]
  have "\<exists>s'. check_wp_loop (Suc NR_WP) c (wp_head s) s = Inr s' \<and> wp_inv s' as fs \<and>
    cpu s' = cpu s \<and> pmem s' = pmem s \<and>
    (\<forall>j. wp_view (wp_pool s') j =
       (if j \<in> set as then refresh val (wp_view (wp_pool s) j) else wp_view (wp_pool s) j)) \<and>
    st_state (nemu_state s') =
      (if \<exists>i\<in>set as. changed val (wp_view (wp_pool s) i) then NEMU_STOP else st_state (nemu_state s)) \<and>
    out s' = out s @ concat (map (\<lambda>i. report val (wp_view (wp_pool s) i)) as)"
    by (rule check_loop_spec)
      (use inv assms(2) ws wp_inv_length [OF inv] in \<open>auto simp: wp_inv_def wp_view_def\<close>)
  then obtain s' where s': "check_wp c s = Inr s'" "wp_inv s' as fs" "cpu s' = cpu s" "pmem s' = pmem s"
    and v: "\<forall>j\<in>set as. wp_view (wp_pool s') j = refresh val (wp_view (wp_pool s) j)"
    and st: "st_state (nemu_state s') =
      (if \<exists>i\<in>set as. changed val (wp_view (wp_pool s) i) then NEMU_STOP else st_state (nemu_state s))"
    and o: "out s' = out s @ concat (map (\<lambda>i. report val (wp_view (wp_pool s) i)) as)"
    by (auto simp: check_wp_def)
  have "watchpoints s' = map (refresh val) (watchpoints s)"
    using v by (simp add: watchpoints_eq [OF s'(2)] ws)
  then show ?thesis using s' st o by (auto simp: ws wp_ok_def comp_def)
qed

theorem check_wp_correct_witness:
  "\<exists>s1 s2. add_wp ''1'' 7 wp_demo = Inr s1 \<and> check_wp default_config s1 = Inr s2 \<and>
     map snd (watchpoints s2) = [(''1'', 1)] \<and> st_state (nemu_state s2) = NEMU_STOP"
proof -
  obtain s1 n where s1: "add_wp ''1'' 7 wp_demo = Inr s1" "wp_ok s1" "watchpoints s1 = [(n, ''1'', 7)]"
    using wp.add_ok [OF wp_demo_ok(1), of "''1''" 7] wp_demo_ok(2) by (auto simp: NR_WP_def)
  have "expr default_config ''1'' s = Inr (1, True, s)" for s :: wpst
    by (simp add: expr_def make_token_def make_token_loop.simps rules_def record_token_def
        TOKEN_STR_def NR_TOKENS_def is_digit_def is_xdigit_def eval.simps eval_single_def atoi_def
        strtol_def digit_val_def Let_def)
  then have "pure_value default_config s1 ''1'' 1" by (simp add: pure_value_def)
  then show ?thesis
    using s1 check_wp_correct [of s1 default_config "\<lambda>e. 1"]
    by (auto simp: refresh_def changed_def)
qed

end
