(* ===== verification/Cpu_Exec.thy ===== *)
theory Cpu_Exec
  imports Watchpoint
begin

text \<open>
  The execution engine and differential testing: \<open>nemu/src/cpu/cpu-exec.c\<close>,
  \<open>nemu/src/cpu/difftest/dut.c\<close> and \<open>ref.c\<close>,
  \<open>nemu/src/isa/riscv32/difftest/dut.c\<close> and \<open>nemu/src/utils/state.c\<close>.

  The reference design is a shared object that \<open>init_difftest\<close> loads; its five
  functions are a parameter, the record \<open>ref_design\<close>, over an arbitrary type of states
  of the reference.  \<open>ref.c\<close> makes NEMU itself such a design.  The instruction trace is
  compiled out here (\<open>CONFIG_ITRACE\<close>); it is the subject of another theory.
\<close>

record 'r ref_design =
  ref_difftest_init :: "int \<Rightarrow> 'r \<Rightarrow> 'r res"
  ref_difftest_memcpy :: "u32 \<Rightarrow> byte list \<Rightarrow> 'r \<Rightarrow> 'r res"
  ref_regcpy_to_ref :: "cpu_state \<Rightarrow> 'r \<Rightarrow> 'r"
  ref_regcpy_to_dut :: "'r \<Rightarrow> cpu_state"
  ref_difftest_exec :: "u64 \<Rightarrow> 'r \<Rightarrow> 'r res"

record 'r sim = wpst +
  ref_st :: 'r
  g_nr_guest_inst :: u64
  g_timer :: u64
  g_print_step :: bool

subsection \<open>Registers on display\<close>

definition isa_reg_display :: "'a wpst_scheme \<Rightarrow> 'a wpst_scheme" where
  "isa_reg_display s =
     s\<lparr>out := out s @ map2 Reg_row regs (gpr (cpu s)) @ [Reg_row ''$pc'' (pc (cpu s))]\<rparr>"

subsection \<open>Differential testing\<close>

text \<open>The comparison loops of \<open>isa_difftest_checkregs\<close>.\<close>

fun regs_match :: "u32 list \<Rightarrow> u32 list \<Rightarrow> bool" where
  "regs_match (x # xs) (y # ys) = (if x \<noteq> y then False else regs_match xs ys)"
| "regs_match _ _ = True"

definition isa_difftest_checkregs :: "cpu_state \<Rightarrow> 'a nemu_scheme \<Rightarrow> bool" where
  "isa_difftest_checkregs ref_r s =
     (if \<not> regs_match (gpr (cpu s)) (gpr ref_r) then False
      else if \<not> regs_match (csr (cpu s)) (csr ref_r) then False
      else if pc (cpu s) \<noteq> pc ref_r then False
      else True)"

definition checkregs :: "cpu_state \<Rightarrow> u32 \<Rightarrow> 'a wpst_scheme \<Rightarrow> 'a wpst_scheme" where
  "checkregs ref_r p s =
     (if \<not> isa_difftest_checkregs ref_r s
      then isa_reg_display (s\<lparr>nemu_state := (nemu_state s)\<lparr>st_state := NEMU_ABORT, halt_pc := p\<rparr>\<rparr>)
      else s)"

fun ref_exec_times :: "'r ref_design \<Rightarrow> nat \<Rightarrow> 'r \<Rightarrow> 'r res" where
  "ref_exec_times R 0 r = Inr r"
| "ref_exec_times R (Suc n) r = bind_res (ref_difftest_exec R 1 r) (ref_exec_times R n)"

definition difftest_skip_dut ::
  "'r ref_design \<Rightarrow> int \<Rightarrow> int \<Rightarrow> ('r, 'a) sim_scheme \<Rightarrow> ('r, 'a) sim_scheme res" where
  "difftest_skip_dut R nr_ref nr_dut s =
     bind_res (ref_exec_times R (nat nr_ref) (ref_st s)) (\<lambda>r.
     Inr (s\<lparr>skip_dut_nr_inst := skip_dut_nr_inst s + nr_dut, ref_st := r\<rparr>))"

text \<open>The path of the shared object is \<open>NULL\<close> when no reference was named.\<close>

definition init_difftest ::
  "config \<Rightarrow> 'r ref_design \<Rightarrow> string option \<Rightarrow> int \<Rightarrow> int \<Rightarrow> ('r, 'a) sim_scheme \<Rightarrow> ('r, 'a) sim_scheme res" where
  "init_difftest c R ref_so_file img_size port s =
     (if CONFIG_DIFFTEST c then
        bind_res (assert_res Assertion (ref_so_file \<noteq> None)) (\<lambda>_.
        bind_res (ref_difftest_init R port (ref_st s)) (\<lambda>r1.
        let a = guest_to_host c (RESET_VECTOR c) in
        bind_res (assert_res Out_of_bounds (in_object (uint (CONFIG_MSIZE c)) a img_size)) (\<lambda>_.
        bind_res (ref_difftest_memcpy R (RESET_VECTOR c)
                    (map (\<lambda>i. pmem s (a + int i)) [0..<nat img_size]) r1) (\<lambda>r2.
        Inr (s\<lparr>ref_st := ref_regcpy_to_ref R (cpu s) r2\<rparr>)))))
      else Inr s)"

definition difftest_step ::
  "'r ref_design \<Rightarrow> u32 \<Rightarrow> u32 \<Rightarrow> ('r, 'a) sim_scheme \<Rightarrow> ('r, 'a) sim_scheme res" where
  "difftest_step R p npc s =
     (if skip_dut_nr_inst s > 0 then
        (let ref_r = ref_regcpy_to_dut R (ref_st s) in
         if pc ref_r = npc then Inr (checkregs ref_r npc (s\<lparr>skip_dut_nr_inst := 0\<rparr>))
         else
           (let s1 = s\<lparr>skip_dut_nr_inst := skip_dut_nr_inst s - 1\<rparr> in
            if skip_dut_nr_inst s1 = 0 then Inl (Panic ''can not catch up with ref.pc'') else Inr s1))
      else if is_skip_ref s then
        Inr (s\<lparr>ref_st := ref_regcpy_to_ref R (cpu s) (ref_st s), is_skip_ref := False\<rparr>)
      else
        bind_res (ref_difftest_exec R 1 (ref_st s)) (\<lambda>r.
        Inr (checkregs (ref_regcpy_to_dut R r) p (s\<lparr>ref_st := r\<rparr>))))"

subsection \<open>cpu-exec.c\<close>

definition MAX_INST_TO_PRINT :: u64 where
  "MAX_INST_TO_PRINT = 10"

definition trace_and_difftest ::
  "config \<Rightarrow> 'r ref_design \<Rightarrow> Decode \<Rightarrow> u32 \<Rightarrow> ('r, 'a) sim_scheme \<Rightarrow> ('r, 'a) sim_scheme res" where
  "trace_and_difftest c R d dnpc s =
     bind_res (if CONFIG_DIFFTEST c then difftest_step R (d_pc d) dnpc s else Inr s) (\<lambda>s1.
     if CONFIG_WATCHPOINT c then check_wp c s1 else Inr s1)"

text \<open>The fields of the local variable that are not set here are written before they are
  read.\<close>

definition exec_once :: "config \<Rightarrow> u32 \<Rightarrow> 'a nemu_scheme \<Rightarrow> (Decode \<times> 'a nemu_scheme) res" where
  "exec_once c p s =
     bind_res (isa_exec_once c \<lparr>d_pc = p, d_snpc = p, d_dnpc = 0, d_inst = 0\<rparr> s) (\<lambda>(d, s1).
     Inr (d, s1\<lparr>cpu := (cpu s1)\<lparr>pc := d_dnpc d\<rparr>\<rparr>))"

text \<open>One turn of the loop of \<open>execute\<close>; the flag says whether the loop goes on.\<close>

definition execute_turn ::
  "config \<Rightarrow> 'r ref_design \<Rightarrow> ('r, 'a) sim_scheme \<Rightarrow> (bool \<times> ('r, 'a) sim_scheme) res" where
  "execute_turn c R s =
     bind_res (exec_once c (pc (cpu s)) s) (\<lambda>(d, s1).
     bind_res (trace_and_difftest c R d (pc (cpu s1))
                 (s1\<lparr>g_nr_guest_inst := g_nr_guest_inst s1 + 1\<rparr>)) (\<lambda>s2.
     if st_state (nemu_state s2) \<noteq> NEMU_RUNNING then Inr (False, s2)
     else bind_res (if CONFIG_DEVICE c then device_update c s2 else Inr s2) (\<lambda>s3. Inr (True, s3))))"

function execute ::
  "config \<Rightarrow> 'r ref_design \<Rightarrow> u64 \<Rightarrow> ('r, 'a) sim_scheme \<Rightarrow> ('r, 'a) sim_scheme res" where
  "execute c R n s =
     (if n > 0 then
        bind_res (execute_turn c R s) (\<lambda>(go, s1). if go then execute c R (n - 1) s1 else Inr s1)
      else Inr s)"
  by pat_completeness auto
termination
  by (relation "measure (\<lambda>(c, R, n, s). unat n)") (auto simp: unat_minus_one unat_gt_0 word_gt_0)

declare execute.simps [simp del]

definition statistic :: "('r, 'a) sim_scheme \<Rightarrow> ('r, 'a) sim_scheme" where
  "statistic s =
     s\<lparr>out := out s @
       [Stat ''host time spent'' (g_timer s), Stat ''total guest instructions'' (g_nr_guest_inst s)] @
       (if g_timer s > 0 then [Stat ''simulation frequency'' (g_nr_guest_inst s * 1000000 div g_timer s)]
        else [Text ''Finish running in less than 1 us and can not calculate the simulation frequency''])\<rparr>"

definition cpu_exec ::
  "config \<Rightarrow> 'r ref_design \<Rightarrow> u64 \<Rightarrow> ('r, 'a) sim_scheme \<Rightarrow> ('r, 'a) sim_scheme res" where
  "cpu_exec c R n s =
     (let s1 = s\<lparr>g_print_step := (n < MAX_INST_TO_PRINT)\<rparr> in
      if st_state (nemu_state s1) = NEMU_END \<or> st_state (nemu_state s1) = NEMU_ABORT then
        Inr (print (Text ''Program execution has ended. To restart the program, exit NEMU and run again.'') s1)
      else
        (case get_time (s1\<lparr>nemu_state := (nemu_state s1)\<lparr>st_state := NEMU_RUNNING\<rparr>\<rparr>) of
           (timer_start, s2) \<Rightarrow>
         bind_res (execute c R n s2) (\<lambda>s3.
         case get_time s3 of (timer_end, s4) \<Rightarrow>
         let s5 = s4\<lparr>g_timer := g_timer s4 + (timer_end - timer_start)\<rparr> in
         Inr (case st_state (nemu_state s5) of
                NEMU_RUNNING \<Rightarrow> s5\<lparr>nemu_state := (nemu_state s5)\<lparr>st_state := NEMU_STOP\<rparr>\<rparr>
              | NEMU_END \<Rightarrow>
                  statistic (print (Trap_row (if halt_ret (nemu_state s5) = 0 then ''HIT GOOD TRAP''
                                             else ''HIT BAD TRAP'') (halt_pc (nemu_state s5))) s5)
              | NEMU_ABORT \<Rightarrow>
                  statistic (print (Trap_row ''ABORT'' (halt_pc (nemu_state s5))) s5)
              | NEMU_QUIT \<Rightarrow> statistic s5
              | NEMU_STOP \<Rightarrow> s5))))"

definition is_exit_status_bad :: "'a nemu_scheme \<Rightarrow> bool" where
  "is_exit_status_bad s =
     (let good = st_state (nemu_state s) = NEMU_END \<and> halt_ret (nemu_state s) = 0 \<or>
                 st_state (nemu_state s) = NEMU_QUIT
      in \<not> good)"

subsection \<open>ref.c: NEMU as a reference design\<close>

definition difftest_memcpy :: "config \<Rightarrow> u32 \<Rightarrow> byte list \<Rightarrow> 'a mem_scheme \<Rightarrow> 'a mem_scheme res" where
  "difftest_memcpy c a buf s =
     bind_res (assert_res Out_of_bounds
        (in_object (uint (CONFIG_MSIZE c)) (guest_to_host c a) (int (length buf)))) (\<lambda>_.
     Inr (s\<lparr>pmem := (\<lambda>x. let i = x - guest_to_host c a in
                       if 0 \<le> i \<and> i < int (length buf) then buf ! nat i else pmem s x)\<rparr>))"

text \<open>The loop \<open>for i: to[i] = from[i]\<close> over all registers of \<open>to\<close>.\<close>

fun copy_regs :: "u32 list \<Rightarrow> u32 list \<Rightarrow> u32 list" where
  "copy_regs (t # ts) (f # fs) = f # copy_regs ts fs"
| "copy_regs ts _ = ts"

definition difftest_regcpy_to_ref :: "cpu_state \<Rightarrow> 'a nemu_scheme \<Rightarrow> 'a nemu_scheme" where
  "difftest_regcpy_to_ref dut s =
     s\<lparr>cpu := \<lparr>gpr = copy_regs (gpr (cpu s)) (gpr dut), pc = pc dut,
               csr = copy_regs (csr (cpu s)) (csr dut)\<rparr>\<rparr>"

definition difftest_regcpy_to_dut :: "cpu_state \<Rightarrow> 'a nemu_scheme \<Rightarrow> cpu_state" where
  "difftest_regcpy_to_dut dut s =
     \<lparr>gpr = copy_regs (gpr dut) (gpr (cpu s)), pc = pc (cpu s),
      csr = copy_regs (csr dut) (csr (cpu s))\<rparr>"

definition difftest_exec ::
  "config \<Rightarrow> 'q ref_design \<Rightarrow> u64 \<Rightarrow> ('q, 'a) sim_scheme \<Rightarrow> ('q, 'a) sim_scheme res" where
  "difftest_exec c Q n s = cpu_exec c Q n s"

definition difftest_raise_intr :: "u32 \<Rightarrow> 'a nemu_scheme \<Rightarrow> 'a nemu_scheme" where
  "difftest_raise_intr n s =
     (case isa_raise_intr n (pc (cpu s)) s of (p, s1) \<Rightarrow> s1\<lparr>cpu := (cpu s1)\<lparr>pc := p\<rparr>\<rparr>)"

text \<open>\<open>init_mem\<close> allocates the memory of the reference, whose contents stay arbitrary.\<close>

definition difftest_init :: "config \<Rightarrow> 'a nemu_scheme \<Rightarrow> 'a nemu_scheme res" where
  "difftest_init c s = init_isa c s"

text \<open>A register record of the right size to copy into.\<close>

definition zero_regs :: "config \<Rightarrow> cpu_state" where
  "zero_regs c = \<lparr>gpr = replicate (nr_gpr c) 0, pc = 0, csr = replicate csr_num 0\<rparr>"

text \<open>The build as a reference (\<open>CONFIG_TARGET_SHARE\<close>) has no devices, no watchpoints and no
  differential testing of its own.\<close>

definition ref_config :: "config \<Rightarrow> config" where
  "ref_config c = c\<lparr>CONFIG_DEVICE := False, CONFIG_DIFFTEST := False, CONFIG_WATCHPOINT := False\<rparr>"

definition nemu_ref :: "config \<Rightarrow> 'q ref_design \<Rightarrow> 'q sim ref_design" where
  "nemu_ref c Q =
     \<lparr>ref_difftest_init = (\<lambda>port. difftest_init c), ref_difftest_memcpy = difftest_memcpy c,
      ref_regcpy_to_ref = difftest_regcpy_to_ref,
      ref_regcpy_to_dut = difftest_regcpy_to_dut (zero_regs c),
      ref_difftest_exec = difftest_exec c Q\<rparr>"

end
