(* ===== verification/Cpu_Exec_Facts.thy ===== *)
theory Cpu_Exec_Facts
  imports Cpu_Exec Watchpoint_Facts Memory_Props
begin

text \<open>
  Facts on the execution engine: the invariant of the whole machine and that every run
  keeps it, the state machine of \<open>cpu_exec\<close>, the number of executed instructions, and
  what differential testing detects.
\<close>

subsection \<open>Frames: what one instruction can change\<close>

lemma paddr_read_io_wf: "paddr_read c a len s = Inr (v, s') \<Longrightarrow> io_wf s \<Longrightarrow> io_wf s'"
  by (auto simp: paddr_read_def out_of_bound_def bind_res_eq_Inr_iff split: if_splits
      dest: devs.mmio_read_wf)

lemma pmem_write_io: "pmem_write c a len d s = Inr s' \<Longrightarrow> io_wf s' = io_wf s"
  by (auto simp: pmem_write_def bind_res_eq_Inr_iff io_wf_def)

lemma paddr_write_io_wf: "paddr_write c a len d s = Inr s' \<Longrightarrow> io_wf s \<Longrightarrow> io_wf s'"
  by (auto simp: paddr_write_def out_of_bound_def pmem_write_io split: if_splits
      dest: devs.mmio_write_wf)

lemma cpu_update_io [simp]: "io_wf (s\<lparr>cpu := r\<rparr>) = io_wf s"
  by (rule io_wf_update) simp_all

lemma nemu_state_update_io [simp]: "io_wf (s\<lparr>nemu_state := r\<rparr>) = io_wf s" for s :: "'a io_scheme"
  by (rule io_wf_update) simp_all

lemma inst_fetch_io:
  "inst_fetch c p len s = Inr (i, p', s') \<Longrightarrow>
   (io_wf s \<longrightarrow> io_wf s') \<and> nemu.more s' = nemu.more s"
  by (auto simp: inst_fetch_def vaddr_ifetch_def bind_res_eq_Inr_iff
      dest: paddr_read_io_wf vaddr_read_more [unfolded vaddr_read_def])

lemma vaddr_write_more: "vaddr_write c a len d s = Inr s' \<Longrightarrow> nemu.more s' = nemu.more s"
  using paddr_write_more mem_more_nemu by (fastforce simp: vaddr_write_def)

lemma gpr_set_frame: "gpr_set c i v s = Inr s' \<Longrightarrow> \<exists>r. s' = s\<lparr>cpu := r\<rparr>"
  by (auto simp: gpr_set_def bind_res_eq_Inr_iff split: if_splits)

lemma csr_set_frame: "csr_set c i v s = Inr s' \<Longrightarrow> \<exists>r. s' = s\<lparr>cpu := r\<rparr>"
  by (auto simp: csr_set_def csr_put_def bind_res_eq_Inr_iff split: if_splits)

lemma wb_frame: "wb c rd v d s = Inr (d', s') \<Longrightarrow> \<exists>r. s' = s\<lparr>cpu := r\<rparr>"
  by (auto simp: wb_def bind_res_eq_Inr_iff dest: gpr_set_frame)

lemma ECALL_frame: "ECALL c d s = (d', s') \<Longrightarrow> \<exists>r. s' = s\<lparr>cpu := r\<rparr>"
  by (auto simp: ECALL_def isa_raise_intr_def Let_def csr_put_def split: prod.splits)

lemma MRET_frame: "MRET d s = (d', s') \<Longrightarrow> \<exists>r. s' = s\<lparr>cpu := r\<rparr>"
  by (auto simp: MRET_def Let_def csr_put_def)

lemma set_nemu_state_io [simp]:
  "io_wf (set_nemu_state c st p r s) = io_wf s"
  "nemu.more (set_nemu_state c st p r s) = nemu.more s"
  by (simp_all add: set_nemu_state_def difftest_skip_ref_def io_wf_def)

lemma invalid_inst_io:
  "invalid_inst c p s = Inr s' \<Longrightarrow> (io_wf s \<longrightarrow> io_wf s') \<and> nemu.more s' = nemu.more s"
  by (auto simp: invalid_inst_def bind_res_eq_Inr_iff dest!: inst_fetch_io)

lemma load_op_io:
  "load_op c rd a len f d s = Inr (d', s') \<Longrightarrow> (io_wf s \<longrightarrow> io_wf s') \<and> nemu.more s' = nemu.more s"
  by (auto simp: load_op_def vaddr_read_def bind_res_eq_Inr_iff dest!: wb_frame
      dest: paddr_read_io_wf vaddr_read_more [unfolded vaddr_read_def])

lemma store_op_io:
  "store_op c a len v d s = Inr (d', s') \<Longrightarrow> (io_wf s \<longrightarrow> io_wf s') \<and> nemu.more s' = nemu.more s"
  by (auto simp: store_op_def bind_res_eq_Inr_iff dest: vaddr_write_more)
    (auto simp: vaddr_write_def dest: paddr_write_io_wf)

lemma exec_body_io:
  "exec_body c nm rd a b imm d s = Inr (d', s') \<Longrightarrow>
   (io_wf s \<longrightarrow> io_wf s') \<and> nemu.more s' = nemu.more s"
  by (cases nm)
    (auto simp: bind_res_eq_Inr_iff dest!: wb_frame ECALL_frame MRET_frame gpr_set_frame csr_set_frame
      dest: load_op_io store_op_io invalid_inst_io)

lemma decode_exec_io:
  assumes "decode_exec c d s = Inr (d', s')"
  shows "(io_wf s \<longrightarrow> io_wf s') \<and> nemu.more s' = nemu.more s"
proof -
  from assms obtain d1 s1 where g: "gpr_set c 0 0 s1 = Inr s'"
    and b: "s1 = s \<or> (\<exists>nm rd x y imm d0. exec_body c nm rd x y imm d0 s = Inr (d1, s1))"
    by (fastforce simp: decode_exec_def Let_def bind_res_eq_Inr_iff split: option.splits prod.splits)
  from b have "(io_wf s \<longrightarrow> io_wf s1) \<and> nemu.more s1 = nemu.more s" by (auto dest: exec_body_io)
  with gpr_set_frame [OF g] show ?thesis by auto
qed

lemma isa_exec_once_io:
  "isa_exec_once c d s = Inr (d', s') \<Longrightarrow> (io_wf s \<longrightarrow> io_wf s') \<and> nemu.more s' = nemu.more s"
  by (auto simp: isa_exec_once_def bind_res_eq_Inr_iff dest!: decode_exec_io inst_fetch_io)

subsection \<open>Frames: the debugger and the devices\<close>

lemma nemu_more_wpst:
  "nemu.more s' = nemu.more s \<Longrightarrow> wp_pool s' = wp_pool s \<and> wp_head s' = wp_head s \<and>
   wp_free s' = wp_free s \<and> wpst.more s' = wpst.more s"
  by (cases s; cases s') simp

lemma nemu_more_wp_ok: "nemu.more s' = nemu.more s \<Longrightarrow> wp_ok s' = wp_ok s"
  using nemu_more_wpst [of s' s] by (simp add: wp_ok_def wp_inv_def)

lemma dev_more_sim:
  "dev.more s' = dev.more s \<Longrightarrow> cpu s' = cpu s \<and> nemu.more s' = nemu.more s"
  by (cases s; cases s') simp

lemma expr_cpu:
  assumes "expr c e s = Inr (v, b, s')"
  shows "cpu s' = cpu s \<and> (io_wf s \<longrightarrow> io_wf s')"
  by (rule expr_frame [OF _ _ _ assms])
    (auto simp: vaddr_read_def dest: paddr_read_io_wf vaddr_read_cpu [unfolded vaddr_read_def])

lemma wp_ok_update:
  "wp_pool s' = wp_pool s \<Longrightarrow> wp_head s' = wp_head s \<Longrightarrow> wp_free s' = wp_free s \<Longrightarrow> wp_ok s' = wp_ok s"
  by (simp add: wp_ok_def wp_inv_def)

lemma out_update_io [simp]: "io_wf (s\<lparr>out := x\<rparr>) = io_wf s" "io_wf (s\<lparr>wp_pool := y\<rparr>) = io_wf s"
  by (rule io_wf_update; simp)+

lemma check_one_frame:
  assumes "check_one c wp s = Inr s'"
  shows "cpu s' = cpu s \<and> (io_wf s \<longrightarrow> io_wf s') \<and> wpst.more s' = wpst.more s \<and>
    (wp_ok s \<longrightarrow> wp_ok s') \<and>
    (st_state (nemu_state s') = NEMU_STOP \<or> (\<exists>e v. expr c e s = Inr (v, True, s')))"
proof -
  from assms obtain w e v s1 where w: "wp_get wp s = Inr w" and x: "expr c e s = Inr (v, True, s1)"
    and e: "cstr_get (expression w) = Inr e"
    and s': "s' = s1 \<or> (\<exists>s2. wp_put wp (\<lambda>w. w\<lparr>value := v\<rparr>) (s1\<lparr>out := out s1 @
        [Wp_triggered (NO w) e, Old_value (value w), New_value v]\<rparr>) = Inr s2 \<and>
        s' = s2\<lparr>nemu_state := (nemu_state s2)\<lparr>st_state := NEMU_STOP\<rparr>\<rparr>)"
    by (auto simp: check_one_def print_def Let_def bind_res_eq_Inr_iff split: if_splits)
  obtain i where i: "wp = Some i" "i < length (wp_pool s1)"
    using w expr_wp [OF x] by (auto simp: wp_get_def split: option.splits if_splits)
  have ok1: "wp_ok s1 = wp_ok s" using expr_wp [OF x] by (simp add: wp_ok_def wp_inv_def)
  have upd: "wp_ok (t\<lparr>wp_pool := (wp_pool t)[i := (wp_pool t ! i)\<lparr>value := v\<rparr>]\<rparr>)"
    if "wp_ok t" "i < length (wp_pool t)" for t :: "'a wpst_scheme"
  proof -
    from that(1) obtain as fs where "wp_inv t as fs" by (auto simp: wp_ok_def)
    then have "wp_inv (t\<lparr>wp_pool := (wp_pool t)[i := (wp_pool t ! i)\<lparr>value := v\<rparr>]\<rparr>) as fs"
      using that(2) by (auto simp: wp_inv_def path_same_next nth_list_update live_def)
    then show ?thesis by (auto simp: wp_ok_def)
  qed
  from s' show ?thesis
  proof
    assume "s' = s1"
    then show ?thesis using expr_cpu [OF x] expr_wp [OF x] ok1 x by auto
  next
    assume "\<exists>s2. wp_put wp (\<lambda>w. w\<lparr>value := v\<rparr>) (s1\<lparr>out := out s1 @
        [Wp_triggered (NO w) e, Old_value (value w), New_value v]\<rparr>) = Inr s2 \<and>
        s' = s2\<lparr>nemu_state := (nemu_state s2)\<lparr>st_state := NEMU_STOP\<rparr>\<rparr>"
    then have s'_eq: "s' = s1\<lparr>out := out s1 @ [Wp_triggered (NO w) e, Old_value (value w), New_value v],
        wp_pool := (wp_pool s1)[i := (wp_pool s1 ! i)\<lparr>value := v\<rparr>],
        nemu_state := (nemu_state s1)\<lparr>st_state := NEMU_STOP\<rparr>\<rparr>"
      using i by auto
    have "wp_ok s' = wp_ok (s1\<lparr>wp_pool := (wp_pool s1)[i := (wp_pool s1 ! i)\<lparr>value := v\<rparr>]\<rparr>)"
      unfolding s'_eq by (rule wp_ok_update) simp_all
    then show ?thesis using expr_cpu [OF x] expr_wp [OF x] ok1 upd [of s1] i by (simp add: s'_eq)
  qed
qed

lemma check_wp_frame:
  assumes "check_wp c s = Inr s'"
  shows "cpu s' = cpu s \<and> (io_wf s \<longrightarrow> io_wf s') \<and> wpst.more s' = wpst.more s \<and> (wp_ok s \<longrightarrow> wp_ok s')"
proof -
  have "check_wp_loop k c p s = Inr s' \<Longrightarrow>
    cpu s' = cpu s \<and> (io_wf s \<longrightarrow> io_wf s') \<and> wpst.more s' = wpst.more s \<and> (wp_ok s \<longrightarrow> wp_ok s')" for k p s
  proof (induction k c p s rule: check_wp_loop.induct)
    case (2 k c wp s)
    show ?case
    proof (cases "wp = None")
      case False
      with "2.prems" obtain s1 w where s1: "check_one c wp s = Inr s1" and w: "wp_get wp s1 = Inr w"
        and r: "check_wp_loop k c (next w) s1 = Inr s'"
        by (auto simp: bind_res_eq_Inr_iff)
      show ?thesis using "2.IH" [OF False s1 w r] check_one_frame [OF s1] by simp
    qed (use "2.prems" in simp)
  qed simp
  then show ?thesis using assms [unfolded check_wp_def] by blast
qed

lemma handle_event_frame:
  "handle_event c e s = Inr s' \<Longrightarrow> (io_wf s \<longrightarrow> io_wf s') \<and> dev.more s' = dev.more s"
  by (auto simp: handle_event_def send_key_def key_enqueue_def bind_res_eq_Inr_iff io_wf_def Let_def
      split: sdl_event.splits if_splits)

lemma poll_events_frame:
  "poll_events c es s = Inr s' \<Longrightarrow> (io_wf s \<longrightarrow> io_wf s') \<and> dev.more s' = dev.more s"
proof (induction es arbitrary: s)
  case Nil
  then show ?case by (auto simp: io_wf_def)
next
  case (Cons e es)
  from Cons.prems obtain s1 where s1: "handle_event c e (s\<lparr>sdl_events := es\<rparr>) = Inr s1"
    and r: "poll_events c es s1 = Inr s'"
    by (auto simp: bind_res_eq_Inr_iff)
  show ?case using Cons.IH [OF r] handle_event_frame [OF s1] by (simp add: io_wf_def)
qed

lemma vga_update_screen_frame:
  "vga_update_screen c s = Inr s' \<Longrightarrow> (io_wf s \<longrightarrow> io_wf s') \<and> dev.more s' = dev.more s"
  by (auto simp: vga_update_screen_def update_screen_def bind_res_eq_Inr_iff io_wf_def
      split: if_splits option.splits dest!: io_set32_frame)

lemma device_update_frame:
  assumes "device_update c s = Inr s'"
  shows "(io_wf s \<longrightarrow> io_wf s') \<and> dev.more s' = dev.more s"
proof -
  obtain t s1 where g: "get_time s = (t, s1)" by (cases "get_time s")
  have 1: "io_wf s1 = io_wf s" "dev.more s1 = dev.more s"
    using get_time_io [OF g] get_time_more [OF g] by (simp_all add: io_wf_def)
  have last: "io_wf (s1\<lparr>device_last := t\<rparr>) = io_wf s1" by (rule io_wf_update) simp_all
  consider "s' = s1" | s3 where "(if CONFIG_HAS_VGA c then vga_update_screen c (s1\<lparr>device_last := t\<rparr>)
      else Inr (s1\<lparr>device_last := t\<rparr>)) = Inr s3" "poll_events c (sdl_events s3) s3 = Inr s'"
    using assms g by (auto simp: device_update_def Let_def bind_res_eq_Inr_iff split: if_splits)
  then show ?thesis
  proof cases
    case 2
    then have "(io_wf s1 \<longrightarrow> io_wf s3) \<and> dev.more s3 = dev.more s1"
      using last vga_update_screen_frame [of c "s1\<lparr>device_last := t\<rparr>" s3]
      by (auto split: if_splits)
    then show ?thesis using poll_events_frame [OF 2(2)] 1 by auto
  qed (use 1 in simp)
qed

subsection \<open>One turn of the loop\<close>

text \<open>The invariant of the whole machine: the registers have their shape with a zero
  \<open>x0\<close>, the I/O maps are disjoint and backed, and the watchpoint pool is partitioned.\<close>

definition machine_inv :: "config \<Rightarrow> 'a wpst_scheme \<Rightarrow> bool" where
  "machine_inv c s \<longleftrightarrow> cpu_wf c (cpu s) \<and> io_wf s \<and> wp_ok s"

lemma wpst_more_sim:
  "wpst.more s' = wpst.more s \<Longrightarrow>
   ref_st s' = ref_st s \<and> g_nr_guest_inst s' = g_nr_guest_inst s \<and> g_timer s' = g_timer s \<and>
   sim.more s' = sim.more s"
  by (cases s; cases s') simp

lemma nemu_more_sim:
  "nemu.more s' = nemu.more s \<Longrightarrow>
   ref_st s' = ref_st s \<and> g_nr_guest_inst s' = g_nr_guest_inst s \<and> g_timer s' = g_timer s \<and>
   sim.more s' = sim.more s"
  using nemu_more_wpst wpst_more_sim by blast

lemma machine_inv_update:
  assumes "cpu s' = cpu s" and "io_wf s' = io_wf s"
    and "wp_pool s' = wp_pool s" "wp_head s' = wp_head s" "wp_free s' = wp_free s"
  shows "machine_inv c s' = machine_inv c s"
  using assms wp_ok_update [of s' s] by (simp add: machine_inv_def)

lemma exec_once_spec:
  assumes "exec_once c p s = Inr (d, s')"
  shows "(machine_inv c s \<longrightarrow> machine_inv c s') \<and> nemu.more s' = nemu.more s \<and> pc (cpu s') = d_dnpc d"
proof -
  let ?d = "\<lparr>d_pc = p, d_snpc = p, d_dnpc = 0, d_inst = 0\<rparr>"
  from assms obtain s1 where s1: "isa_exec_once c ?d s = Inr (d, s1)"
    and s': "s' = s1\<lparr>cpu := (cpu s1)\<lparr>pc := d_dnpc d\<rparr>\<rparr>"
    by (auto simp: exec_once_def bind_res_eq_Inr_iff)
  note io = isa_exec_once_io [OF s1]
  have "cpu_wf c (cpu s) \<longrightarrow> cpu_wf c (cpu s1)"
    using isa_exec_once_wf [OF s1] by (simp add: cpu_wf_def)
  then have "cpu_wf c (cpu s) \<longrightarrow> cpu_wf c (cpu s')" by (simp add: s' cpu_wf_def cpu_shape_def)
  moreover have "nemu.more s' = nemu.more s" using io by (simp add: s')
  ultimately show ?thesis
    using io nemu_more_wp_ok [of s' s] by (auto simp: machine_inv_def s')
qed

lemma checkregs_frame:
  "cpu (checkregs r p s) = cpu s" "io_wf (checkregs r p s) = io_wf s"
  "wp_ok (checkregs r p s) = wp_ok s" "wpst.more (checkregs r p s) = wpst.more s"
  by (simp_all add: checkregs_def isa_reg_display_def wp_ok_def wp_inv_def io_wf_def)

lemma sim_update_io [simp]:
  "io_wf (s\<lparr>ref_st := r\<rparr>) = io_wf s" "io_wf (s\<lparr>g_nr_guest_inst := n\<rparr>) = io_wf s"
  "io_wf (s\<lparr>g_timer := u\<rparr>) = io_wf s" "io_wf (s\<lparr>g_print_step := b\<rparr>) = io_wf s"
  "io_wf (s\<lparr>skip_dut_nr_inst := k\<rparr>) = io_wf s" "io_wf (s\<lparr>is_skip_ref := b\<rparr>) = io_wf s"
  by (rule io_wf_update; simp)+

lemma sim_update_wp [simp]:
  "wp_ok (s\<lparr>ref_st := r\<rparr>) = wp_ok s" "wp_ok (s\<lparr>g_nr_guest_inst := n\<rparr>) = wp_ok s"
  "wp_ok (s\<lparr>g_timer := u\<rparr>) = wp_ok s" "wp_ok (s\<lparr>g_print_step := b\<rparr>) = wp_ok s"
  "wp_ok (s\<lparr>skip_dut_nr_inst := k\<rparr>) = wp_ok s" "wp_ok (s\<lparr>is_skip_ref := b\<rparr>) = wp_ok s"
  "wp_ok (s\<lparr>nemu_state := st\<rparr>) = wp_ok s" "wp_ok (s\<lparr>out := x\<rparr>) = wp_ok s"
  by (rule wp_ok_update; simp)+

lemma difftest_step_frame:
  assumes "difftest_step R p npc s = Inr s'"
  shows "cpu s' = cpu s \<and> io_wf s' = io_wf s \<and> wp_ok s' = wp_ok s \<and>
    g_nr_guest_inst s' = g_nr_guest_inst s"
proof -
  have g: "g_nr_guest_inst (checkregs r p t) = g_nr_guest_inst t" for r p and t :: "('r, 'b) sim_scheme"
    using wpst_more_sim [OF checkregs_frame(4)] by blast
  show ?thesis
    using assms
    by (auto simp: difftest_step_def Let_def bind_res_eq_Inr_iff checkregs_frame g split: if_splits)
qed

lemma trace_and_difftest_frame:
  assumes "trace_and_difftest c R d dnpc s = Inr s'"
  shows "(machine_inv c s \<longrightarrow> machine_inv c s') \<and> cpu s' = cpu s \<and> g_nr_guest_inst s' = g_nr_guest_inst s"
proof -
  from assms obtain s1 where
    d: "(if CONFIG_DIFFTEST c then difftest_step R (d_pc d) dnpc s else Inr s) = Inr s1"
    and w: "(if CONFIG_WATCHPOINT c then check_wp c s1 else Inr s1) = Inr s'"
    by (auto simp: trace_and_difftest_def bind_res_eq_Inr_iff)
  have "cpu s1 = cpu s \<and> io_wf s1 = io_wf s \<and> wp_ok s1 = wp_ok s \<and>
      g_nr_guest_inst s1 = g_nr_guest_inst s"
    using d difftest_step_frame [of R "d_pc d" dnpc s s1] by (auto split: if_splits)
  moreover have "cpu s' = cpu s1 \<and> (io_wf s1 \<longrightarrow> io_wf s') \<and> (wp_ok s1 \<longrightarrow> wp_ok s') \<and>
      g_nr_guest_inst s' = g_nr_guest_inst s1"
    using w check_wp_frame [of c s1 s'] wpst_more_sim [of s' s1] by (auto split: if_splits)
  ultimately show ?thesis by (simp add: machine_inv_def)
qed

lemma device_update_sim:
  assumes "device_update c s = Inr s'"
  shows "(machine_inv c s \<longrightarrow> machine_inv c s') \<and> cpu s' = cpu s \<and> nemu.more s' = nemu.more s"
  using device_update_frame [OF assms] dev_more_sim [of s' s] nemu_more_wp_ok [of s' s]
  by (auto simp: machine_inv_def)

lemma execute_turn_frame:
  assumes "execute_turn c R s = Inr (go, s')"
  shows "(machine_inv c s \<longrightarrow> machine_inv c s') \<and> g_nr_guest_inst s' = g_nr_guest_inst s + 1 \<and>
    (\<not> go \<longrightarrow> st_state (nemu_state s') \<noteq> NEMU_RUNNING)"
proof -
  from assms obtain d s1 s2 where s1: "exec_once c (pc (cpu s)) s = Inr (d, s1)"
    and s2: "trace_and_difftest c R d (pc (cpu s1)) (s1\<lparr>g_nr_guest_inst := g_nr_guest_inst s1 + 1\<rparr>) = Inr s2"
    and e: "\<not> go \<and> s' = s2 \<and> st_state (nemu_state s2) \<noteq> NEMU_RUNNING \<or>
      go \<and> (if CONFIG_DEVICE c then device_update c s2 else Inr s2) = Inr s'"
    by (auto simp: execute_turn_def bind_res_eq_Inr_iff split: if_splits)
  have "machine_inv c (s1\<lparr>g_nr_guest_inst := g_nr_guest_inst s1 + 1\<rparr>) = machine_inv c s1"
    by (rule machine_inv_update) simp_all
  then have a: "(machine_inv c s \<longrightarrow> machine_inv c s2) \<and> g_nr_guest_inst s2 = g_nr_guest_inst s + 1"
    using exec_once_spec [OF s1] trace_and_difftest_frame [OF s2] nemu_more_sim [of s1 s] by simp
  from e show ?thesis
  proof
    assume g: "go \<and> (if CONFIG_DEVICE c then device_update c s2 else Inr s2) = Inr s'"
    then have "(machine_inv c s2 \<longrightarrow> machine_inv c s') \<and> g_nr_guest_inst s' = g_nr_guest_inst s2"
      using device_update_sim [of c s2 s'] nemu_more_sim [of s' s2] by (auto split: if_splits)
    with a g show ?thesis by simp
  qed (use a in simp)
qed

subsection \<open>Runs as sequences of turns\<close>

text \<open>\<open>k\<close> turns of the loop that all ask for another one.\<close>

inductive turns ::
  "config \<Rightarrow> 'r ref_design \<Rightarrow> nat \<Rightarrow> ('r, 'a) sim_scheme \<Rightarrow> ('r, 'a) sim_scheme \<Rightarrow> bool"
  for c :: config and R :: "'r ref_design" where
  turns_0: "turns c R 0 s s"
| turns_Suc: "execute_turn c R s = Inr (True, s1) \<Longrightarrow> turns c R k s1 s' \<Longrightarrow> turns c R (Suc k) s s'"

inductive_simps turns_0_simp [simp]: "turns c R 0 s s'"
inductive_simps turns_Suc_simp: "turns c R (Suc k) s s'"

lemma turns_det: "turns c R k s s1 \<Longrightarrow> turns c R k s s2 \<Longrightarrow> s1 = s2"
  by (induction arbitrary: s2 rule: turns.induct) (auto simp: turns_Suc_simp)

lemma turns_add:
  "turns c R j s s1 \<Longrightarrow> turns c R k s1 s2 \<Longrightarrow> turns c R (j + k) s s2"
  by (induction rule: turns.induct) (auto intro: turns.intros)

lemma turns_frame:
  "turns c R k s s' \<Longrightarrow>
   (machine_inv c s \<longrightarrow> machine_inv c s') \<and> g_nr_guest_inst s' = g_nr_guest_inst s + of_nat k"
  by (induction rule: turns.induct) (auto dest!: execute_turn_frame)

text \<open>How a run of at most \<open>n\<close> instructions ends: after \<open>n\<close> turns, or with an earlier
  turn that leaves the loop.\<close>

definition run_ends ::
  "config \<Rightarrow> 'r ref_design \<Rightarrow> nat \<Rightarrow> ('r, 'a) sim_scheme \<Rightarrow> ('r, 'a) sim_scheme \<Rightarrow> bool" where
  "run_ends c R n s s' \<longleftrightarrow>
     turns c R n s s' \<or> (\<exists>k < n. \<exists>s1. turns c R k s s1 \<and> execute_turn c R s1 = Inr (False, s'))"

lemma run_ends_Suc:
  "run_ends c R (Suc n) s s' \<longleftrightarrow>
   execute_turn c R s = Inr (False, s') \<or> (\<exists>s1. execute_turn c R s = Inr (True, s1) \<and> run_ends c R n s1 s')"
  unfolding run_ends_def Ex_less_Suc2 turns_Suc_simp by auto

lemma execute_iff_run_ends:
  "execute c R n s = Inr s' \<longleftrightarrow> run_ends c R (unat n) s s'"
proof (induction c R n s rule: execute.induct)
  case (1 c R n s)
  show ?case
  proof (cases "n = 0")
    case True
    then show ?thesis by (subst execute.simps) (auto simp: run_ends_def)
  next
    case False
    then have n: "0 < n" "unat n = Suc (unat (n - 1))"
      by (simp_all add: word_gt_0 unat_minus_one unat_gt_0)
    have IH: "execute c R (n - 1) s1 = Inr s' \<longleftrightarrow> run_ends c R (unat (n - 1)) s1 s'"
      if "execute_turn c R s = Inr (True, s1)" for s1
      using "1.IH" [OF n(1) that refl] by simp
    show ?thesis
      unfolding n(2) run_ends_Suc
      by (subst execute.simps) (use n(1) IH in \<open>fastforce simp: bind_res_eq_Inr_iff split: if_splits\<close>)
  qed
qed

lemma run_ends_frame:
  assumes "run_ends c R n s s'"
  shows "(machine_inv c s \<longrightarrow> machine_inv c s') \<and>
    (\<exists>k \<le> n. g_nr_guest_inst s' = g_nr_guest_inst s + of_nat k \<and>
       (st_state (nemu_state s') = NEMU_RUNNING \<longrightarrow> k = n) \<and> (0 < n \<longrightarrow> 0 < k))"
  using assms unfolding run_ends_def
proof (elim disjE exE conjE)
  assume "turns c R n s s'"
  then show ?thesis using turns_frame by blast
next
  fix k s1
  assume k: "k < n" and t: "turns c R k s s1" and l: "execute_turn c R s1 = Inr (False, s')"
  have "g_nr_guest_inst s' = g_nr_guest_inst s + of_nat (Suc k)"
    using turns_frame [OF t] execute_turn_frame [OF l] by simp
  then show ?thesis
    using k turns_frame [OF t] execute_turn_frame [OF l] by (metis Suc_leI zero_less_Suc)
qed

lemma run_ends_add:
  assumes "run_ends c R m s s1" and "st_state (nemu_state s1) = NEMU_RUNNING"
  shows "run_ends c R (m + n) s s' \<longleftrightarrow> run_ends c R n s1 s'"
proof -
  have "turns c R m s s1" using assms execute_turn_frame unfolding run_ends_def by blast
  then show ?thesis using assms(2)
  proof (induction rule: turns.induct)
    case (turns_Suc s s2 k s1)
    then show ?case by (simp add: run_ends_Suc)
  qed simp
qed

end
