(* ===== verification/Difftest_Facts.thy ===== *)
theory Difftest_Facts
  imports Cpu_Exec_Facts
begin

text \<open>
  Facts on differential testing: what a reference design promises, that NEMU as built from
  \<open>ref.c\<close> keeps the promise, and that a run that goes on is in step with its reference.
\<close>

subsection \<open>Copying and comparing registers\<close>

lemma copy_regs_same_length: "length ts = length fs \<Longrightarrow> copy_regs ts fs = fs"
  by (induction ts fs rule: copy_regs.induct) auto

lemma length_copy_regs [simp]: "length (copy_regs ts fs) = length ts"
  by (induction ts fs rule: copy_regs.induct) auto

lemma copy_regs_nth0: "length ts = length fs \<Longrightarrow> copy_regs ts fs ! 0 = fs ! 0"
  by (simp add: copy_regs_same_length)

lemma regs_match_iff: "length xs = length ys \<Longrightarrow> regs_match xs ys \<longleftrightarrow> xs = ys"
  by (induction xs ys rule: regs_match.induct) auto

lemma checkregs_iff:
  assumes "cpu_shape c r" and "cpu_shape c (cpu s)"
  shows "isa_difftest_checkregs r s \<longleftrightarrow> r = cpu s"
  using assms by (cases r; cases "cpu s") (auto simp: isa_difftest_checkregs_def cpu_shape_def regs_match_iff)

lemma checkregs_running:
  assumes "cpu_shape c r" and "cpu_shape c (cpu s)"
    and "st_state (nemu_state (checkregs r p s)) = NEMU_RUNNING"
  shows "r = cpu s" and "checkregs r p s = s"
  using assms checkregs_iff [OF assms(1,2)]
  by (auto simp: checkregs_def isa_reg_display_def split: if_splits)

lemma poll_events_skip: "poll_events c es s = Inr s' \<Longrightarrow> skip_dut_nr_inst s' = skip_dut_nr_inst s"
proof (induction es arbitrary: s)
  case (Cons e es)
  have "skip_dut_nr_inst s1 = skip_dut_nr_inst s" if "handle_event c e (s\<lparr>sdl_events := es\<rparr>) = Inr s1" for s1
    using that by (auto simp: handle_event_def send_key_def key_enqueue_def bind_res_eq_Inr_iff Let_def
        split: sdl_event.splits if_splits)
  then show ?case using Cons by (auto simp: bind_res_eq_Inr_iff)
qed auto

lemma vga_update_screen_skip:
  "vga_update_screen c s = Inr s' \<Longrightarrow> skip_dut_nr_inst s' = skip_dut_nr_inst s"
  by (auto simp: vga_update_screen_def update_screen_def bind_res_eq_Inr_iff
      split: if_splits option.splits dest!: io_set32_frame)

lemma device_update_skip:
  assumes "device_update c s = Inr s'"
  shows "skip_dut_nr_inst s' = skip_dut_nr_inst s"
proof -
  obtain t s1 where g: "get_time s = (t, s1)" by (cases "get_time s")
  have 1: "skip_dut_nr_inst s1 = skip_dut_nr_inst s" by (subst get_time_frame [OF g]) simp
show ?thesis
    using assms g 1 by (auto simp: device_update_def Let_def bind_res_eq_Inr_iff
        dest!: poll_events_skip vga_update_screen_skip split: if_splits)
qed

subsection \<open>The interface to a reference design\<close>

text \<open>What the device under test relies on: copying registers there and back is the
  identity, and the states of the reference stay sound.\<close>

locale difftest_reference =
  fixes R :: "'r ref_design" and good :: "'r \<Rightarrow> bool" and c :: config
  assumes regcpy_roundtrip:
      "good r \<Longrightarrow> cpu_wf c x \<Longrightarrow> ref_regcpy_to_dut R (ref_regcpy_to_ref R x r) = x"
    and good_regcpy: "good r \<Longrightarrow> cpu_wf c x \<Longrightarrow> good (ref_regcpy_to_ref R x r)"
    and good_exec: "good r \<Longrightarrow> ref_difftest_exec R 1 r = Inr r' \<Longrightarrow> good r'"
    and dut_shape: "good r \<Longrightarrow> cpu_shape c (ref_regcpy_to_dut R r)"
begin

definition in_step :: "('r, 'a) sim_scheme \<Rightarrow> bool" where
  "in_step s \<longleftrightarrow> (skip_dut_nr_inst s \<le> 0 \<longrightarrow> ref_regcpy_to_dut R (ref_st s) = cpu s)"

lemma step_in_step:
  assumes "difftest_step R p npc s = Inr s'" and "good (ref_st s)" and "cpu_wf c (cpu s)"
  shows "good (ref_st s') \<and> (st_state (nemu_state s') = NEMU_RUNNING \<longrightarrow> in_step s')"
proof -
  have sh: "cpu_shape c (cpu s)" using assms(3) by (simp add: cpu_wf_def)
  have ref: "ref_st (checkregs r p t) = ref_st t" for r p and t :: "('r, 'b) sim_scheme"
    using wpst_more_sim [OF checkregs_frame(4)] by blast
  consider "skip_dut_nr_inst s > 0" | "skip_dut_nr_inst s \<le> 0" "is_skip_ref s"
    | "skip_dut_nr_inst s \<le> 0" "\<not> is_skip_ref s" by force
  then show ?thesis
  proof cases
    case 1
    show ?thesis
    proof (cases "pc (ref_regcpy_to_dut R (ref_st s)) = npc")
      case True
      let ?r = "ref_regcpy_to_dut R (ref_st s)" and ?s = "s\<lparr>skip_dut_nr_inst := 0\<rparr>"
      have s': "s' = checkregs ?r npc ?s" using assms(1) 1 True by (simp add: difftest_step_def)
      have "st_state (nemu_state s') = NEMU_RUNNING \<longrightarrow> in_step s'"
        using checkregs_running [of c ?r ?s npc] dut_shape [OF assms(2)] sh
        by (auto simp: s' in_step_def)
      then show ?thesis using assms(2) by (simp add: s' ref)
    next
      case False
      then have "s' = s\<lparr>skip_dut_nr_inst := skip_dut_nr_inst s - 1\<rparr>" "skip_dut_nr_inst s' \<noteq> 0"
        using assms(1) 1 by (auto simp: difftest_step_def Let_def split: if_splits)
      then show ?thesis using 1 assms(2) by (auto simp: in_step_def)
    qed
  next
    case 2
    then have "s' = s\<lparr>ref_st := ref_regcpy_to_ref R (cpu s) (ref_st s), is_skip_ref := False\<rparr>"
      using assms(1) by (simp add: difftest_step_def)
    then show ?thesis
      using good_regcpy [OF assms(2,3)] regcpy_roundtrip [OF assms(2,3)] by (simp add: in_step_def)
  next
    case 3
    then obtain r where r: "ref_difftest_exec R 1 (ref_st s) = Inr r"
      and s': "s' = checkregs (ref_regcpy_to_dut R r) p (s\<lparr>ref_st := r\<rparr>)"
      using assms(1) by (auto simp: difftest_step_def bind_res_eq_Inr_iff)
    have gr: "good r" by (rule good_exec [OF assms(2) r])
    have "st_state (nemu_state s') = NEMU_RUNNING \<longrightarrow> in_step s'"
      using checkregs_running [of c "ref_regcpy_to_dut R r" "s\<lparr>ref_st := r\<rparr>" p] dut_shape [OF gr] sh
      by (auto simp: s' in_step_def)
    then show ?thesis using gr by (simp add: s' ref)
  qed
qed

text \<open>A turn that asks for another one ends in step.\<close>

lemma turn_in_step:
  assumes t: "execute_turn c R s = Inr (go, s')" and cfg: "CONFIG_DIFFTEST c" "\<not> CONFIG_WATCHPOINT c"
    and good: "good (ref_st s)" and inv: "machine_inv c s"
  shows "good (ref_st s') \<and> (go \<longrightarrow> in_step s')"
proof -
  from t obtain d s1 s2 where s1: "exec_once c (pc (cpu s)) s = Inr (d, s1)"
    and s2: "trace_and_difftest c R d (pc (cpu s1)) (s1\<lparr>g_nr_guest_inst := g_nr_guest_inst s1 + 1\<rparr>) = Inr s2"
    and e: "\<not> go \<and> s' = s2 \<or> go \<and> st_state (nemu_state s2) = NEMU_RUNNING \<and>
      (if CONFIG_DEVICE c then device_update c s2 else Inr s2) = Inr s'"
    by (auto simp: execute_turn_def bind_res_eq_Inr_iff split: if_splits)
  have m1: "machine_inv c s1" "ref_st s1 = ref_st s"
    using exec_once_spec [OF s1] inv nemu_more_sim [of s1 s] by auto
  have "difftest_step R (d_pc d) (pc (cpu s1)) (s1\<lparr>g_nr_guest_inst := g_nr_guest_inst s1 + 1\<rparr>) = Inr s2"
    using s2 cfg by (auto simp: trace_and_difftest_def bind_res_eq_Inr_iff)
  then have 2: "good (ref_st s2) \<and> (st_state (nemu_state s2) = NEMU_RUNNING \<longrightarrow> in_step s2)"
    by (rule step_in_step) (use m1 good in \<open>simp_all add: machine_inv_def\<close>)
  from e show ?thesis
  proof
    assume g: "go \<and> st_state (nemu_state s2) = NEMU_RUNNING \<and>
      (if CONFIG_DEVICE c then device_update c s2 else Inr s2) = Inr s'"
    then have "cpu s' = cpu s2 \<and> ref_st s' = ref_st s2 \<and> skip_dut_nr_inst s' = skip_dut_nr_inst s2"
      using device_update_sim [of c s2 s'] nemu_more_sim [of s' s2] device_update_skip [of c s2 s']
      by (auto split: if_splits)
    with 2 g show ?thesis by (simp add: in_step_def)
  qed (use 2 in simp)
qed

lemma turns_in_step:
  "turns c R k s s' \<Longrightarrow> CONFIG_DIFFTEST c \<Longrightarrow> \<not> CONFIG_WATCHPOINT c \<Longrightarrow> good (ref_st s) \<Longrightarrow>
   machine_inv c s \<Longrightarrow> good (ref_st s') \<and> (0 < k \<longrightarrow> in_step s')"
proof (induction rule: turns.induct)
  case (turns_Suc s s1 k s')
  have "machine_inv c s1" using execute_turn_frame [OF turns_Suc.hyps(1)] turns_Suc.prems(4) by blast
  then have "good (ref_st s') \<and> (0 < k \<longrightarrow> in_step s')" and "in_step s1"
    using turns_Suc.IH turns_Suc.prems turn_in_step [OF turns_Suc.hyps(1)] by auto
  then show ?case using turns_Suc.hyps(2) by (cases "k = 0") auto
qed simp

lemma execute_in_step:
  assumes "execute c R n s = Inr s'" and "CONFIG_DIFFTEST c" "\<not> CONFIG_WATCHPOINT c"
    and "good (ref_st s)" and "machine_inv c s" and "0 < n"
    and "st_state (nemu_state s') = NEMU_RUNNING"
  shows "in_step s'"
proof -
  have "turns c R (unat n) s s'"
    using assms(1,7) execute_turn_frame by (fastforce simp: execute_iff_run_ends run_ends_def)
  then show ?thesis using turns_in_step [of "unat n" s s'] assms by (simp add: unat_gt_0 word_gt_0)
qed

end

subsection \<open>NEMU as its own reference\<close>

lemma get_time_machine:
  assumes "get_time s = (t, s')"
  shows "machine_inv c s' = machine_inv c s" "cpu s' = cpu s" "nemu_state s' = nemu_state s"
    "nemu.more s' = nemu.more s"
  by (subst get_time_frame [OF assms], (subst machine_inv_update)?; (simp add: io_wf_def)?)+

lemma statistic_machine [simp]:
  "machine_inv c (statistic s) = machine_inv c s" "nemu_state (statistic s) = nemu_state s"
  by (rule machine_inv_update; simp add: statistic_def io_wf_def) (simp add: statistic_def)

lemma print_machine [simp]:
  "machine_inv c (print e s) = machine_inv c s" "nemu_state (print e s) = nemu_state s"
  by (rule machine_inv_update; simp add: print_def io_wf_def) (simp add: print_def)

lemma sim_update_machine [simp]:
  "machine_inv c (s\<lparr>nemu_state := st\<rparr>) = machine_inv c s" "machine_inv c (s\<lparr>g_timer := u\<rparr>) = machine_inv c s"
  "machine_inv c (s\<lparr>g_print_step := b\<rparr>) = machine_inv c s"
  by (rule machine_inv_update; simp add: io_wf_def)+

lemma cpu_exec_machine:
  assumes "cpu_exec c R n s = Inr s'" and "machine_inv c s"
  shows "machine_inv c s' \<and> st_state (nemu_state s') \<noteq> NEMU_RUNNING"
proof (cases "st_state (nemu_state s) = NEMU_END \<or> st_state (nemu_state s) = NEMU_ABORT")
  case True
  then have "s' = print (Text ''Program execution has ended. To restart the program, exit NEMU and run again.'')
      (s\<lparr>g_print_step := (n < MAX_INST_TO_PRINT)\<rparr>)"
    using assms(1) by (simp add: cpu_exec_def)
  then show ?thesis using True assms(2) by auto
next
  case False
  let ?s0 = "s\<lparr>g_print_step := (n < MAX_INST_TO_PRINT), nemu_state := (nemu_state s)\<lparr>st_state := NEMU_RUNNING\<rparr>\<rparr>"
  obtain t0 s2 where g: "get_time ?s0 = (t0, s2)" by (cases "get_time ?s0")
  obtain s3 where x: "execute c R n s2 = Inr s3"
    using assms(1) False g by (auto simp: cpu_exec_def Let_def bind_res_eq_Inr_iff)
  obtain t1 s4 where g4: "get_time s3 = (t1, s4)" by (cases "get_time s3")
  have "machine_inv c s2" using assms(2) by (simp add: get_time_machine(1) [OF g])
  then have "machine_inv c s3"
    using run_ends_frame [of c R "unat n" s2 s3] x by (simp add: execute_iff_run_ends)
  then have m4: "machine_inv c s4" by (simp add: get_time_machine(1) [OF g4])
  show ?thesis
    using assms(1) False g x g4 m4
    by (auto simp: cpu_exec_def Let_def split: run_state.splits)
qed

end
