(* ===== verification/Cpu_Exec_Props.thy ===== *)
theory Cpu_Exec_Props
  imports Difftest_Facts Cpu_Props
begin

text \<open>
  Properties of the execution engine and of differential testing.
\<close>

lemma ref_config_simps [simp]:
  "nr_gpr (ref_config c) = nr_gpr c" "cpu_shape (ref_config c) r = cpu_shape c r" "cpu_wf (ref_config c) r = cpu_wf c r"
  "zero_regs (ref_config c) = zero_regs c" "machine_inv (ref_config c) s = machine_inv c s"
  by (simp_all add: ref_config_def cpu_shape_def cpu_wf_def nr_gpr_def zero_regs_def machine_inv_def)

interpretation nref: difftest_reference "nemu_ref (ref_config c) Q" "machine_inv (ref_config c)" c for c and Q :: "'q ref_design"
proof unfold_locales
  fix r :: "'q sim" and x
  assume r: "machine_inv (ref_config c) r" and x: "cpu_wf c x"
  have len: "length (gpr (cpu r)) = length (gpr x)" "length (csr (cpu r)) = length (csr x)"
    using r x by (simp_all add: machine_inv_def cpu_wf_def cpu_shape_def)
  then have cpu: "cpu (difftest_regcpy_to_ref x r) = x"
    by (simp add: difftest_regcpy_to_ref_def copy_regs_same_length)
  show "ref_regcpy_to_dut (nemu_ref (ref_config c) Q) (ref_regcpy_to_ref (nemu_ref (ref_config c) Q) x r) = x"
    using x cpu
    by (simp add: nemu_ref_def difftest_regcpy_to_dut_def zero_regs_def copy_regs_same_length
        cpu_wf_def cpu_shape_def)
  show "machine_inv (ref_config c) (ref_regcpy_to_ref (nemu_ref (ref_config c) Q) x r)"
    using r x cpu by (simp add: nemu_ref_def machine_inv_def difftest_regcpy_to_ref_def wp_ok_def wp_inv_def)
next
  fix r r' :: "'q sim"
  assume r: "machine_inv (ref_config c) r"
  assume "ref_difftest_exec (nemu_ref (ref_config c) Q) 1 r = Inr r'"
  then show "machine_inv (ref_config c) r'"
    using cpu_exec_machine [of "ref_config c" Q 1 r r'] r by (simp add: nemu_ref_def difftest_exec_def)
next
  fix r :: "'q sim"
  show "cpu_shape c (ref_regcpy_to_dut (nemu_ref (ref_config c) Q) r)"
    by (simp add: nemu_ref_def difftest_regcpy_to_dut_def zero_regs_def cpu_shape_def)
qed

subsection \<open>A machine to run\<close>

definition sim_of :: "'r \<Rightarrow> nemu \<Rightarrow> 'r sim" where
  "sim_of r s = init_wp_pool (wpst.extend (nemu.extend s
     (wpst.fields (replicate NR_WP \<lparr>NO = 0, next = None, value = 0, expression = CNull\<rparr>) None None []))
     (sim.fields r 0 0 False))"

lemma sim_of_simps [simp]:
  "cpu (sim_of r s) = cpu s" "pmem (sim_of r s) = pmem s" "io_wf (sim_of r s) = io_wf s"
  "nemu_state (sim_of r s) = nemu_state s" "ref_st (sim_of r s) = r"
  "g_nr_guest_inst (sim_of r s) = 0" "skip_dut_nr_inst (sim_of r s) = skip_dut_nr_inst s"
  "is_skip_ref (sim_of r s) = is_skip_ref s" "out (sim_of r s) = []"
  by (simp_all add: sim_of_def init_wp_pool_def wpst.defs nemu.defs sim.defs io_wf_def)

lemma sim_of_wp_ok [simp]: "wp_ok (sim_of r s)"
  unfolding sim_of_def wp_ok_def using init_wp_pool_inv by blast

lemma sim_of_machine_inv:
  "machine_inv c (sim_of r s) \<longleftrightarrow> cpu_wf c (cpu s) \<and> io_wf s"
  by (simp add: machine_inv_def)

text \<open>A reference design that is not consulted.\<close>

definition no_ref :: "unit ref_design" where
  "no_ref = \<lparr>ref_difftest_init = (\<lambda>_. Inr), ref_difftest_memcpy = (\<lambda>_ _. Inr),
     ref_regcpy_to_ref = (\<lambda>_ r. r), ref_regcpy_to_dut = (\<lambda>_. zero_regs default_config),
     ref_difftest_exec = (\<lambda>_. Inr)\<rparr>"

lemma with_prog_io [simp]: "io_wf (with_prog ws)"
  by (simp add: io_wf_def with_prog_def power_on_def maps_disjoint_def IO_SPACE_MAX_def)

subsection \<open>Properties\<close>

text \<open>C18: The registers keep their shape with \<open>x0\<close> zero, the I/O maps stay disjoint and backed
  and the watchpoint pool stays partitioned, whatever program \<open>cpu_exec\<close> runs, for however
  many instructions and against whatever reference.\<close>

theorem cpu_exec_invariant:
  assumes "cpu_exec c R n s = Inr s'" and "machine_inv c s"
  shows "machine_inv c s'"
  using cpu_exec_machine [OF assms] by simp

text \<open>\<open>cpu_exec\<close> never returns with the machine running; and once the program has ended or
  was aborted, running it again executes nothing: it only prints that it has ended.\<close>

theorem cpu_exec_states:
  assumes "cpu_exec c R n s = Inr s'" and "machine_inv c s"
  shows "st_state (nemu_state s') \<noteq> NEMU_RUNNING \<and>
    (st_state (nemu_state s) \<in> {NEMU_END, NEMU_ABORT} \<longrightarrow>
       nemu_state s' = nemu_state s \<and> cpu s' = cpu s \<and> pmem s' = pmem s \<and>
       g_nr_guest_inst s' = g_nr_guest_inst s \<and> length (out s') = Suc (length (out s)))"
  using cpu_exec_machine [OF assms] assms(1) by (auto simp: cpu_exec_def print_def)

theorem cpu_exec_states_witness:
  "\<exists>s'. cpu_exec default_config no_ref 5
      ((sim_of () (with_prog []))\<lparr>nemu_state := \<lparr>st_state = NEMU_END, halt_pc = 0, halt_ret = 1\<rparr>\<rparr>) = Inr s' \<and>
     halt_ret (nemu_state s') = 1 \<and> g_nr_guest_inst s' = 0"
proof -
  let ?s = "(sim_of () (with_prog []))\<lparr>nemu_state := \<lparr>st_state = NEMU_END, halt_pc = 0, halt_ret = 1\<rparr>\<rparr>"
  obtain s' where "cpu_exec default_config no_ref 5 ?s = Inr s'" by (simp add: cpu_exec_def)
  then show ?thesis
    using cpu_exec_states [of default_config no_ref 5 ?s s'] by (simp add: sim_of_machine_inv)
qed

text \<open>\<open>execute(n)\<close> counts what it runs: at least one instruction (when asked for any), at
  most \<open>n\<close>, and exactly \<open>n\<close> when the machine is still running.\<close>

theorem execute_counts:
  assumes "execute c R n s = Inr s'"
  shows "\<exists>k \<le> unat n. g_nr_guest_inst s' = g_nr_guest_inst s + of_nat k \<and> (0 < n \<longrightarrow> 0 < k) \<and>
    (st_state (nemu_state s') = NEMU_RUNNING \<longrightarrow> k = unat n)"
  using run_ends_frame [OF assms [unfolded execute_iff_run_ends]] by (auto simp: unat_gt_0 word_gt_0)

text \<open>Executing \<open>m\<close> instructions and then \<open>n\<close> more is executing \<open>m + n\<close>, as long as the
  machine is still running in between and the sum does not wrap.\<close>

theorem execute_splits:
  assumes "execute c R m s = Inr s1" and "st_state (nemu_state s1) = NEMU_RUNNING"
    and "unat m + unat n < 2 ^ 64"
  shows "execute c R (m + n) s = Inr s2 \<longleftrightarrow> execute c R n s1 = Inr s2"
proof -
  have "unat (m + n) = unat m + unat n"
    using assms(3) by (intro unat_add_lem [THEN iffD1]) simp
  then show ?thesis using assms(1,2) run_ends_add by (simp add: execute_iff_run_ends)
qed

text \<open>C19: With NEMU as its own reference: a run under differential testing that is still going is in
  step with the reference (same registers, same \<open>pc\<close>), unless the device under test is the
  one that waits for the other.\<close>

theorem difftest_in_step:
  assumes "execute c (nemu_ref (ref_config c) Q) n s = Inr s'" and "CONFIG_DIFFTEST c" and "\<not> CONFIG_WATCHPOINT c"
    and "machine_inv c s" and "machine_inv c (ref_st s)" and "0 < n"
    and "st_state (nemu_state s') = NEMU_RUNNING" and "skip_dut_nr_inst s' \<le> 0"
  shows "cpu (ref_st s') = cpu s'"
proof -
  have m: "machine_inv c s'" "machine_inv c (ref_st s')"
  proof -
    have t: "turns c (nemu_ref (ref_config c) Q) (unat n) s s'"
      using assms(1,7) execute_turn_frame by (fastforce simp: execute_iff_run_ends run_ends_def)
    show "machine_inv c s'" using turns_frame [OF t] assms(4) by blast
    show "machine_inv c (ref_st s')" using nref.turns_in_step [OF t] assms by simp
  qed
  have "difftest_regcpy_to_dut (zero_regs c) (ref_st s') = cpu s'"
    using nref.execute_in_step [OF assms(1-3) _ assms(4,6,7)] assms(5,8)
    unfolding nref.in_step_def by (simp add: nemu_ref_def)
  moreover have "difftest_regcpy_to_dut (zero_regs c) (ref_st s') = cpu (ref_st s')"
    using m(2) by (simp add: difftest_regcpy_to_dut_def zero_regs_def copy_regs_same_length machine_inv_def
        cpu_wf_def cpu_shape_def)
  ultimately show ?thesis by simp
qed

text \<open>C20: When neither side is skipped, the step of differential testing accepts exactly the
  registers the reference computes; on any difference the machine is aborted at the
  instruction and every register is displayed.\<close>

theorem difftest_detects:
  assumes "skip_dut_nr_inst s = 0" and "\<not> is_skip_ref s" and "ref_difftest_exec R 1 (ref_st s) = Inr r"
    and "cpu_shape c (cpu s)" and "cpu_shape c (ref_regcpy_to_dut R r)"
  shows "difftest_step R p npc s = Inr
    (if ref_regcpy_to_dut R r = cpu s then s\<lparr>ref_st := r\<rparr>
     else s\<lparr>ref_st := r, nemu_state := (nemu_state s)\<lparr>st_state := NEMU_ABORT, halt_pc := p\<rparr>,
            out := out s @ map2 Reg_row regs (gpr (cpu s)) @ [Reg_row ''$pc'' (pc (cpu s))]\<rparr>)"
  using assms checkregs_iff [OF assms(5), of "s\<lparr>ref_st := r\<rparr>"]
  by (simp add: difftest_step_def checkregs_def isa_reg_display_def)

subsection \<open>The built-in image\<close>

definition plain_config :: config where
  "plain_config = default_config\<lparr>CONFIG_DEVICE := False\<rparr>"

lemma plain_config_simps [simp]:
  "CONFIG_MBASE plain_config = 0x80000000" "CONFIG_MSIZE plain_config = 0x8000000"
  "CONFIG_PC_RESET_OFFSET plain_config = 0" "\<not> CONFIG_RVE plain_config"
  "\<not> CONFIG_DEVICE plain_config" "\<not> CONFIG_DIFFTEST plain_config" "\<not> CONFIG_WATCHPOINT plain_config"
  by (simp_all add: plain_config_def)

definition fresh_decode :: "u32 \<Rightarrow> Decode" where
  "fresh_decode p = \<lparr>d_pc = p, d_snpc = p, d_dnpc = 0, d_inst = 0\<rparr>"

text \<open>One turn of the plain engine.\<close>

lemma execute_plain:
  assumes "\<not> CONFIG_DEVICE c" "\<not> CONFIG_DIFFTEST c" "\<not> CONFIG_WATCHPOINT c" and "0 < n"
    and "isa_exec_once c (fresh_decode p) s = Inr (d, s1)" and "pc (cpu s) = p"
    and "s2 = s1\<lparr>cpu := (cpu s1)\<lparr>pc := d_dnpc d\<rparr>, g_nr_guest_inst := g_nr_guest_inst s1 + 1\<rparr>"
  shows "execute c R n s =
    (if st_state (nemu_state s2) = NEMU_RUNNING then execute c R (n - 1) s2 else Inr s2)"
  using assms
  by (subst execute.simps)
    (simp add: execute_turn_def exec_once_def trace_and_difftest_def fresh_decode_def)

lemmas execute_running = execute_plain [THEN trans, OF _ _ _ _ _ _ _ if_P]

lemma img_fields:
  "rv32_decode 0x00000297 = I_auipc" "rv32_decode 0x00028823 = I_sb"
  "rv32_decode 0x0102c503 = I_lbu" "rv32_decode 0x00100073 = I_ebreak"
  "rd_of 0x00000297 = 5" "immU 0x00000297 = 0"
  "rs1_of 0x00028823 = 5" "rs2_of 0x00028823 = 0" "immS 0x00028823 = 16"
  "rs1_of 0x0102c503 = 5" "rd_of 0x0102c503 = 10" "immI 0x0102c503 = 16"
  by (simp_all add: rv32_decode_def opcode_def funct3_def rd_of_def rs1_of_def rs2_of_def immU_def
      immS_def immI_def BITS_def BITMASK_def SEXT_def)

text \<open>The first four words of the image, as the memory holds them.\<close>

definition img_loaded :: "bytes \<Rightarrow> bool" where
  "img_loaded m \<longleftrightarrow>
     list_all2 (\<lambda>a w. join4 (m a) (m (a + 1)) (m (a + 2)) (m (a + 3)) = w) [0, 4, 8, 12] (take 4 img)"

lemma img_loaded_copy: "img_loaded (copy_words img 0 m)"
  by (simp add: img_loaded_def img_def)

lemma img_loaded_data: "img_loaded m \<Longrightarrow> img_loaded (m(16 := b))"
  by (simp add: img_loaded_def img_def)

definition img_cfg :: "config \<Rightarrow> bool" where
  "img_cfg c \<longleftrightarrow> CONFIG_MBASE c = 0x80000000 \<and> CONFIG_MSIZE c = 0x8000000 \<and> \<not> CONFIG_RVE c"

lemma img_loaded_inst:
  assumes "img_cfg c" and "img_loaded (pmem s)"
  shows "inst_at c 0x80000000 0x00000297 s" "inst_at c 0x80000004 0x00028823 s"
    "inst_at c 0x80000008 0x0102c503 s" "inst_at c 0x8000000c 0x00100073 s"
  using assms
  by (simp_all add: img_cfg_def img_loaded_def img_def inst_at_def paddr_read_def in_pmem_def pmem_read_def
      guest_to_host_def host_read_def in_object_def)

lemma img_auipc:
  fixes s :: "('r, 'a) sim_scheme"
  assumes "cpu_wf c (cpu s)" and "img_cfg c" and "img_loaded (pmem s)" and "pc (cpu s) = 0x80000000"
  shows "\<exists>d. isa_exec_once c (fresh_decode 0x80000000) s =
      Inr (d, s\<lparr>cpu := (cpu s)\<lparr>gpr := (gpr (cpu s))[5 := 0x80000000]\<rparr>\<rparr>) \<and> d_dnpc d = 0x80000004"
proof -
  let ?i = "0x00000297" and ?d = "fresh_decode 0x80000000"
  have sh: "cpu_shape c (cpu s)" and rve: "\<not> CONFIG_RVE c"
    using assms(1,2) by (simp_all add: cpu_wf_def img_cfg_def)
  have o: "operands ?i (cpu s) = (0, 0, 0)" by (simp add: operands_def img_fields)
  have z: "(gpr (cpu s))[5 := v, 0 := 0] = (gpr (cpu s))[5 := v]" for v
    using assms(1) list_update_id [of "(gpr (cpu s))[5 := v]" 0] by (simp add: cpu_wf_def)
  have "exec_body c (rv32_decode ?i) (rd_of ?i) 0 0 0 (fetched ?i ?d) s =
      Inr (fetched ?i ?d, s\<lparr>cpu := (cpu s)\<lparr>gpr := (gpr (cpu s))[5 := 0x80000000]\<rparr>\<rparr>)"
    using wb_ok [OF sh rve, of ?i] by (simp add: img_fields fetched_def fresh_decode_def)
  from exec_once_body [OF sh rve _ o this] img_loaded_inst(1) [OF assms(2,3)] show ?thesis
    by (simp add: fresh_decode_def fetched_def z)
qed

lemma plain_img_cfg: "img_cfg plain_config"
  by (simp add: img_cfg_def)

lemma img_sb:
  fixes s :: "('r, 'a) sim_scheme"
  assumes "cpu_wf plain_config (cpu s)" and "img_loaded (pmem s)" and "gpr (cpu s) ! 5 = 0x80000000"
  shows "\<exists>d. isa_exec_once plain_config (fresh_decode 0x80000004) s =
      Inr (d, s\<lparr>pmem := (pmem s)(16 := 0)\<rparr>) \<and> d_dnpc d = 0x80000008"
proof -
  let ?i = "0x00028823" and ?d = "fresh_decode 0x80000004"
  have sh: "cpu_shape plain_config (cpu s)" and z: "gpr (cpu s) ! 0 = 0"
    using assms(1) by (simp_all add: cpu_wf_def)
  have o: "operands ?i (cpu s) = (0x80000000, 0, 16)"
    using assms(3) z by (simp add: operands_def img_fields)
  have "exec_body plain_config (rv32_decode ?i) (rd_of ?i) 0x80000000 0 16 (fetched ?i ?d) s =
      Inr (fetched ?i ?d, s\<lparr>pmem := (pmem s)(16 := 0)\<rparr>)"
    by (simp add: img_fields store_op_def vaddr_write_def paddr_write_def in_pmem_def pmem_write_def
        guest_to_host_def host_write_def in_object_def byte_of_def)
  from exec_once_body [OF sh _ _ o this] img_loaded_inst(2) [OF plain_img_cfg assms(2)] show ?thesis
    using cpu_zero [OF assms(1)] by (simp add: fresh_decode_def fetched_def)
qed

lemma img_lbu:
  fixes s :: "('r, 'a) sim_scheme"
  assumes "cpu_wf plain_config (cpu s)" and "img_loaded (pmem s)" and "gpr (cpu s) ! 5 = 0x80000000"
    and "pmem s 16 = 0"
  shows "\<exists>d. isa_exec_once plain_config (fresh_decode 0x80000008) s =
      Inr (d, s\<lparr>cpu := (cpu s)\<lparr>gpr := (gpr (cpu s))[10 := 0]\<rparr>\<rparr>) \<and> d_dnpc d = 0x8000000c"
proof -
  let ?i = "0x0102c503" and ?d = "fresh_decode 0x80000008"
  have sh: "cpu_shape plain_config (cpu s)" using assms(1) by (simp_all add: cpu_wf_def)
  have o: "operands ?i (cpu s) = (0x80000000, 0, 16)"
    using assms(3) by (simp add: operands_def img_fields)
  have z: "(gpr (cpu s))[10 := v, 0 := 0] = (gpr (cpu s))[10 := v]" for v
    using assms(1) list_update_id [of "(gpr (cpu s))[10 := v]" 0] by (simp add: cpu_wf_def)
  have "exec_body plain_config (rv32_decode ?i) (rd_of ?i) 0x80000000 0 16 (fetched ?i ?d) s =
      Inr (fetched ?i ?d, s\<lparr>cpu := (cpu s)\<lparr>gpr := (gpr (cpu s))[10 := 0]\<rparr>\<rparr>)"
    using wb_ok [OF sh, of ?i] assms(4)
    by (simp add: img_fields load_op_def vaddr_read_def paddr_read_def in_pmem_def pmem_read_def
        guest_to_host_def host_read_def in_object_def)
  from exec_once_body [OF sh _ _ o this] img_loaded_inst(3) [OF plain_img_cfg assms(2)] show ?thesis
    by (simp add: fresh_decode_def fetched_def z)
qed

lemma img_ebreak:
  fixes s :: "('r, 'a) sim_scheme"
  assumes "cpu_wf plain_config (cpu s)" and "img_loaded (pmem s)"
  shows "\<exists>d. isa_exec_once plain_config (fresh_decode 0x8000000c) s =
      Inr (d, set_nemu_state plain_config NEMU_END 0x8000000c (gpr (cpu s) ! 10) s)"
proof -
  let ?i = "0x00100073" and ?d = "fresh_decode 0x8000000c"
  have sh: "cpu_shape plain_config (cpu s)" using assms(1) by (simp_all add: cpu_wf_def)
  have o: "operands ?i (cpu s) = (0, 0, 0)" by (simp add: operands_def img_fields)
  have "exec_body plain_config (rv32_decode ?i) (rd_of ?i) 0 0 0 (fetched ?i ?d) s =
      Inr (fetched ?i ?d, set_nemu_state plain_config NEMU_END 0x8000000c (gpr (cpu s) ! 10) s)"
    using gpr_get_ok [OF sh] by (simp add: img_fields fetched_def fresh_decode_def)
  from exec_once_body [OF sh _ _ o this] img_loaded_inst(4) [OF plain_img_cfg assms(2)] show ?thesis
    using cpu_zero [OF assms(1)]
    by (simp add: fresh_decode_def fetched_def set_nemu_state_def difftest_skip_ref_def)
qed

lemma execute_img:
  fixes s :: "('r, 'a) sim_scheme"
  assumes wf: "cpu_wf plain_config (cpu s)" and img: "img_loaded (pmem s)" and pc: "pc (cpu s) = 0x80000000"
    and st: "st_state (nemu_state s) = NEMU_RUNNING" and n: "4 \<le> n"
  shows "\<exists>s'. execute plain_config R n s = Inr s' \<and> g_nr_guest_inst s' = g_nr_guest_inst s + 4 \<and>
    nemu_state s' = \<lparr>st_state = NEMU_END, halt_pc = 0x8000000c, halt_ret = 0\<rparr>"
proof -
  have n0: "0 < n" "0 < n - 1" "0 < n - 1 - 1" "0 < n - 1 - 1 - 1" using n by unat_arith+
  define s1 where "s1 = s\<lparr>cpu := (cpu s)\<lparr>gpr := (gpr (cpu s))[5 := 0x80000000], pc := 0x80000004\<rparr>,
    g_nr_guest_inst := g_nr_guest_inst s + 1\<rparr>"
  have len: "5 < length (gpr (cpu s))" "10 < length (gpr (cpu s))"
    using wf by (simp_all add: cpu_wf_def cpu_shape_def nr_gpr_def)
  have 1: "cpu_wf plain_config (cpu s1)" "img_loaded (pmem s1)" "gpr (cpu s1) ! 5 = 0x80000000"
    and st1: "st_state (nemu_state s1) = NEMU_RUNNING" "pc (cpu s1) = 0x80000004"
    using wf img len st by (simp_all add: s1_def cpu_wf_def cpu_shape_def)
  define s2 where "s2 = s1\<lparr>pmem := (pmem s1)(16 := 0), cpu := (cpu s1)\<lparr>pc := 0x80000008\<rparr>,
    g_nr_guest_inst := g_nr_guest_inst s1 + 1\<rparr>"
  have 2: "cpu_wf plain_config (cpu s2)" "img_loaded (pmem s2)" "gpr (cpu s2) ! 5 = 0x80000000" "pmem s2 16 = 0"
    and st2: "st_state (nemu_state s2) = NEMU_RUNNING" "pc (cpu s2) = 0x80000008"
    using 1 st1 img_loaded_data by (simp_all add: s2_def cpu_wf_def cpu_shape_def)
  define s3 where "s3 = s2\<lparr>cpu := (cpu s2)\<lparr>gpr := (gpr (cpu s2))[10 := 0], pc := 0x8000000c\<rparr>,
    g_nr_guest_inst := g_nr_guest_inst s2 + 1\<rparr>"
  have 3: "cpu_wf plain_config (cpu s3)" "img_loaded (pmem s3)" "gpr (cpu s3) ! 10 = 0"
    and st3: "st_state (nemu_state s3) = NEMU_RUNNING" "pc (cpu s3) = 0x8000000c"
    using 2 st2 len by (simp_all add: s3_def s2_def s1_def cpu_wf_def cpu_shape_def)
  obtain d where d: "isa_exec_once plain_config (fresh_decode 0x8000000c) s3 =
      Inr (d, set_nemu_state plain_config NEMU_END 0x8000000c 0 s3)"
    using img_ebreak [OF 3(1,2)] 3(3) by auto
  let ?s4 = "(set_nemu_state plain_config NEMU_END 0x8000000c 0 s3)
    \<lparr>cpu := (cpu s3)\<lparr>pc := d_dnpc d\<rparr>, g_nr_guest_inst := g_nr_guest_inst s3 + 1\<rparr>"
  note run = execute_running [of plain_config, OF plain_config_simps(5-7)]
  obtain d0 where e0: "isa_exec_once plain_config (fresh_decode 0x80000000) s =
      Inr (d0, s\<lparr>cpu := (cpu s)\<lparr>gpr := (gpr (cpu s))[5 := 0x80000000]\<rparr>\<rparr>)"
    and p0: "d_dnpc d0 = 0x80000004"
    using img_auipc [OF wf plain_img_cfg img pc] by auto
  obtain d1 where e1: "isa_exec_once plain_config (fresh_decode 0x80000004) s1 =
      Inr (d1, s1\<lparr>pmem := (pmem s1)(16 := 0)\<rparr>)" and p1: "d_dnpc d1 = 0x80000008"
    using img_sb [OF 1] by auto
  obtain d2 where e2: "isa_exec_once plain_config (fresh_decode 0x80000008) s2 =
      Inr (d2, s2\<lparr>cpu := (cpu s2)\<lparr>gpr := (gpr (cpu s2))[10 := 0]\<rparr>\<rparr>)" and p2: "d_dnpc d2 = 0x8000000c"
    using img_lbu [OF 2] by auto
  have "execute plain_config R n s = execute plain_config R (n - 1) s1"
    by (rule run [OF n0(1) e0 pc _ st1(1)]) (simp add: s1_def p0)
  also have "\<dots> = execute plain_config R (n - 1 - 1) s2"
    by (rule run [OF n0(2) e1 st1(2) _ st2(1)]) (simp add: s2_def p1)
  also have "\<dots> = execute plain_config R (n - 1 - 1 - 1) s3"
    by (rule run [OF n0(3) e2 st2(2) _ st3(1)]) (simp add: s3_def p2)
  also have "\<dots> = Inr ?s4"
    by (subst execute_plain [OF plain_config_simps(5-7) n0(4) d st3(2) refl])
      (simp add: set_nemu_state_def difftest_skip_ref_def)
  finally show ?thesis
    by (simp add: s1_def s2_def s3_def set_nemu_state_def difftest_skip_ref_def)
qed

text \<open>With the built-in image in memory, whatever else the memory and the registers hold, a run
  from the reset vector ends after four instructions, hits the good trap and leaves a good
  exit status.\<close>

lemma builtin_image_good_trap:
  fixes s0 :: "('r, 'a) sim_scheme"
  assumes "cpu_wf plain_config (cpu s0)" and "img_loaded (pmem s0)" and "pc (cpu s0) = 0x80000000"
    and "st_state (nemu_state s0) = NEMU_STOP" and "4 \<le> n"
  shows "\<exists>s'. cpu_exec plain_config R n s0 = Inr s' \<and>
    nemu_state s' = \<lparr>st_state = NEMU_END, halt_pc = 0x8000000c, halt_ret = 0\<rparr> \<and>
    g_nr_guest_inst s' = g_nr_guest_inst s0 + 4 \<and>
    Trap_row ''HIT GOOD TRAP'' 0x8000000c \<in> set (out s') \<and> \<not> is_exit_status_bad s'"
proof -
  let ?r = "s0\<lparr>g_print_step := (n < MAX_INST_TO_PRINT), nemu_state := (nemu_state s0)\<lparr>st_state := NEMU_RUNNING\<rparr>\<rparr>"
  obtain t s1 where g: "get_time ?r = (t, s1)" by (cases "get_time ?r")
  have s1: "cpu s1 = cpu s0" "pmem s1 = pmem s0" "st_state (nemu_state s1) = NEMU_RUNNING"
    "g_nr_guest_inst s1 = g_nr_guest_inst s0"
    by (subst get_time_frame [OF g], simp)+
  obtain s2 where s2: "execute plain_config R n s1 = Inr s2"
      "g_nr_guest_inst s2 = g_nr_guest_inst s0 + 4"
      "nemu_state s2 = \<lparr>st_state = NEMU_END, halt_pc = 0x8000000c, halt_ret = 0\<rparr>"
    using execute_img [of s1 n R] assms s1 by auto
  obtain t' s3 where g3: "get_time s2 = (t', s3)" by (cases "get_time s2")
  have s3: "nemu_state s3 = nemu_state s2" "g_nr_guest_inst s3 = g_nr_guest_inst s2"
    by (subst get_time_frame [OF g3], simp)+
  show ?thesis
    using g s2 g3 s3 assms(4)
    by (simp add: cpu_exec_def Let_def statistic_def print_def is_exit_status_bad_def)
qed

text \<open>The remaining properties on this program.\<close>

definition img_state :: "nemu" where
  "img_state = (with_prog img)\<lparr>cpu := \<lparr>gpr = replicate 32 0, pc = 0x80000000, csr = replicate 4 0\<rparr>,
     nemu_state := \<lparr>st_state = NEMU_RUNNING, halt_pc = 0, halt_ret = 0\<rparr>\<rparr>"

lemma img_state_simps [simp]:
  "pmem img_state = copy_words img 0 (\<lambda>_. 0)" "cpu_wf c (cpu img_state) = (\<not> CONFIG_RVE c)"
  "pc (cpu img_state) = 0x80000000" "st_state (nemu_state img_state) = NEMU_RUNNING" "io_wf img_state"
  "gpr (cpu img_state) = replicate 32 0" "skip_dut_nr_inst img_state = 0" "is_skip_ref img_state = False"
  using with_prog_io [of img]
  by (simp_all add: img_state_def with_prog_def cpu_wf_def cpu_shape_def nr_gpr_def csr_num_def io_wf_def
      power_on_def)

theorem cpu_exec_invariant_witness:
  "\<exists>s'. cpu_exec plain_config no_ref 9
      ((sim_of () img_state)\<lparr>nemu_state := \<lparr>st_state = NEMU_STOP, halt_pc = 0, halt_ret = 0\<rparr>\<rparr>) = Inr s' \<and>
     g_nr_guest_inst s' = 4 \<and> machine_inv plain_config s'"
proof -
  let ?s = "(sim_of () img_state)\<lparr>nemu_state := \<lparr>st_state = NEMU_STOP, halt_pc = 0, halt_ret = 0\<rparr>\<rparr>"
  obtain s' where "cpu_exec plain_config no_ref 9 ?s = Inr s'" "g_nr_guest_inst s' = 4"
    using builtin_image_good_trap [of ?s 9 no_ref] img_loaded_copy by auto
  then show ?thesis
    using cpu_exec_invariant [of plain_config no_ref 9 ?s s'] by (auto simp: sim_of_machine_inv)
qed

theorem execute_counts_witness:
  "\<exists>s'. execute plain_config no_ref 9 (sim_of () img_state) = Inr s' \<and>
     (\<exists>k \<le> 9. g_nr_guest_inst s' = of_nat k \<and> 0 < k)"
proof -
  obtain s' where "execute plain_config no_ref 9 (sim_of () img_state) = Inr s'"
    using execute_img [of "sim_of () img_state" 9 no_ref] img_loaded_copy by auto
  then show ?thesis using execute_counts [of plain_config no_ref 9 "sim_of () img_state" s'] by auto
qed

lemma img_first_turn:
  fixes s :: "('r, 'a) sim_scheme"
  assumes "cpu_wf c (cpu s)" and "img_cfg c" and "img_loaded (pmem s)" and "pc (cpu s) = 0x80000000"
  shows "\<exists>d. exec_once c 0x80000000 s = Inr (d, s\<lparr>cpu := (cpu s)\<lparr>gpr := (gpr (cpu s))[5 := 0x80000000],
    pc := 0x80000004\<rparr>\<rparr>)"
  using img_auipc [OF assms] by (auto simp: exec_once_def fresh_decode_def)

theorem execute_splits_witness:
  "\<exists>s1 s2. execute plain_config no_ref 1 (sim_of () img_state) = Inr s1 \<and>
     execute plain_config no_ref 8 s1 = Inr s2 \<and>
     execute plain_config no_ref 9 (sim_of () img_state) = Inr s2"
proof -
  let ?s = "sim_of () img_state"
  obtain d where "exec_once plain_config 0x80000000 ?s =
      Inr (d, ?s\<lparr>cpu := (cpu ?s)\<lparr>gpr := (gpr (cpu ?s))[5 := 0x80000000], pc := 0x80000004\<rparr>\<rparr>)"
    using img_first_turn [of plain_config ?s] img_loaded_copy plain_img_cfg by auto
  then obtain s1 where s1: "execute plain_config no_ref 1 ?s = Inr s1" "st_state (nemu_state s1) = NEMU_RUNNING"
    by (simp add: execute.simps [of _ _ 1] execute.simps [of _ _ 0] execute_turn_def trace_and_difftest_def)
  obtain s2 where "execute plain_config no_ref 9 ?s = Inr s2"
    using execute_img [of ?s 9 no_ref] img_loaded_copy by auto
  then show ?thesis using execute_splits [OF s1, of 8 s2] s1(1) by auto
qed

text \<open>Two copies of the machine, one the reference of the other, after the first instruction.\<close>

definition dt_config :: config where
  "dt_config = plain_config\<lparr>CONFIG_DIFFTEST := True\<rparr>"

lemma dt_config_simps [simp]:
  "ref_config dt_config = plain_config" "CONFIG_DIFFTEST dt_config" "\<not> CONFIG_WATCHPOINT dt_config"
  "\<not> CONFIG_DEVICE dt_config" "\<not> CONFIG_RVE dt_config" "img_cfg dt_config"
  by (simp_all add: dt_config_def ref_config_def plain_config_def default_config_def img_cfg_def)

lemma ref_first_step:
  "\<exists>r. cpu_exec plain_config no_ref 1 (sim_of () img_state) = Inr r \<and>
     cpu r = (cpu img_state)\<lparr>gpr := (gpr (cpu img_state))[5 := 0x80000000], pc := 0x80000004\<rparr>"
proof -
  let ?r = "(sim_of () img_state)\<lparr>g_print_step := True,
    nemu_state := (nemu_state img_state)\<lparr>st_state := NEMU_RUNNING\<rparr>\<rparr>"
  obtain t s1 where g: "get_time ?r = (t, s1)" by (cases "get_time ?r")
  have s1: "cpu s1 = cpu img_state" "pmem s1 = pmem img_state" "st_state (nemu_state s1) = NEMU_RUNNING"
    by (subst get_time_frame [OF g], simp)+
  obtain d where "exec_once plain_config 0x80000000 s1 =
      Inr (d, s1\<lparr>cpu := (cpu s1)\<lparr>gpr := (gpr (cpu s1))[5 := 0x80000000], pc := 0x80000004\<rparr>\<rparr>)"
    using img_first_turn [of plain_config s1] img_loaded_copy plain_img_cfg s1 by auto
  then have x: "execute plain_config no_ref 1 s1 = Inr (s1\<lparr>cpu := (cpu s1)\<lparr>gpr := (gpr (cpu s1))[5 := 0x80000000],
      pc := 0x80000004\<rparr>, g_nr_guest_inst := g_nr_guest_inst s1 + 1\<rparr>)"
    using s1 by (simp add: execute.simps [of _ _ 1] execute.simps [of _ _ 0] execute_turn_def trace_and_difftest_def)
  let ?s2 = "s1\<lparr>cpu := (cpu s1)\<lparr>gpr := (gpr (cpu s1))[5 := 0x80000000],
      pc := 0x80000004\<rparr>, g_nr_guest_inst := g_nr_guest_inst s1 + 1\<rparr>"
  obtain t' s3 where g3: "get_time ?s2 = (t', s3)" by (cases "get_time ?s2")
  show ?thesis
    using g x g3 get_time_machine(2,3) [OF g3] s1
    by (simp add: cpu_exec_def Let_def MAX_INST_TO_PRINT_def)
qed

lemma ref_st_update:
  "ref_st (s\<lparr>cpu := r, g_nr_guest_inst := n\<rparr>) = ref_st s"
  "nemu_state (s\<lparr>cpu := r, g_nr_guest_inst := n, ref_st := x\<rparr>) = nemu_state s"
  "skip_dut_nr_inst (s\<lparr>cpu := r, g_nr_guest_inst := n, ref_st := x\<rparr>) = skip_dut_nr_inst s"
  for s :: "('r, 'a) sim_scheme"
  by simp_all

lemma difftest_step_match:
  assumes "skip_dut_nr_inst s = 0" and "\<not> is_skip_ref s" and "ref_difftest_exec R 1 (ref_st s) = Inr r"
    and "ref_regcpy_to_dut R r = cpu s" and "cpu_shape c (cpu s)"
  shows "difftest_step R p npc s = Inr (s\<lparr>ref_st := r\<rparr>)"
  using assms checkregs_iff [of c "cpu s" "s\<lparr>ref_st := r\<rparr>"] by (simp add: difftest_step_def checkregs_def)

lemma dt_first_step:
  "\<exists>s'. execute dt_config (nemu_ref plain_config no_ref) 1 (sim_of (sim_of () img_state) img_state) = Inr s' \<and>
     st_state (nemu_state s') = NEMU_RUNNING \<and> skip_dut_nr_inst s' = 0"
proof -
  let ?s = "sim_of (sim_of () img_state) img_state" and ?R = "nemu_ref plain_config no_ref"
  let ?c = "(cpu img_state)\<lparr>gpr := (gpr (cpu img_state))[5 := 0x80000000], pc := 0x80000004\<rparr>"
  obtain d where d: "exec_once dt_config 0x80000000 ?s = Inr (d, ?s\<lparr>cpu := ?c\<rparr>)"
    using img_first_turn [of dt_config ?s] img_loaded_copy by auto
  obtain r where r: "cpu_exec plain_config no_ref 1 (sim_of () img_state) = Inr r" "cpu r = ?c"
    using ref_first_step by auto
  have sh: "cpu_shape plain_config ?c"
    using img_state_simps(2) [of plain_config] by (simp add: cpu_wf_def cpu_shape_def)
  then have "difftest_regcpy_to_dut (zero_regs plain_config) r = ?c"
    by (simp add: r(2) difftest_regcpy_to_dut_def zero_regs_def copy_regs_same_length cpu_shape_def)
  then have to_dut: "ref_regcpy_to_dut ?R r = ?c" by (simp add: nemu_ref_def)
  have ex: "ref_difftest_exec ?R 1 (sim_of () img_state) = Inr r"
    using r(1) by (simp add: nemu_ref_def difftest_exec_def)
  have "difftest_step ?R p q (?s\<lparr>cpu := ?c, g_nr_guest_inst := 1\<rparr>) =
      Inr (?s\<lparr>cpu := ?c, g_nr_guest_inst := 1, ref_st := r\<rparr>)" for p q
    by (subst difftest_step_match [where r = r and c = plain_config]) (use ex to_dut sh in \<open>simp_all add: ref_st_update\<close>)
  then show ?thesis
    using d by (simp add: execute.simps [of _ _ 1] execute.simps [of _ _ 0] execute_turn_def
        trace_and_difftest_def ref_st_update)
qed

theorem difftest_in_step_witness:
  "\<exists>s'. execute dt_config (nemu_ref plain_config no_ref) 1 (sim_of (sim_of () img_state) img_state) = Inr s' \<and>
     cpu (ref_st s') = cpu s'"
proof -
  obtain s' where "execute dt_config (nemu_ref plain_config no_ref) 1
      (sim_of (sim_of () img_state) img_state) = Inr s'"
    "st_state (nemu_state s') = NEMU_RUNNING" "skip_dut_nr_inst s' = 0"
    using dt_first_step by auto
  then show ?thesis
    using difftest_in_step [of dt_config no_ref 1 "sim_of (sim_of () img_state) img_state" s']
    by (auto simp: sim_of_machine_inv)
qed

theorem difftest_detects_witness:
  "\<exists>s'. difftest_step no_ref 0x80000000 0x80000004 (sim_of () img_state) = Inr s' \<and>
     st_state (nemu_state s') = NEMU_ABORT \<and> halt_pc (nemu_state s') = 0x80000000"
proof -
  let ?s = "sim_of () img_state"
  have "difftest_step no_ref 0x80000000 0x80000004 ?s = Inr
    (if ref_regcpy_to_dut no_ref () = cpu ?s then ?s\<lparr>ref_st := ()\<rparr>
     else ?s\<lparr>ref_st := (), nemu_state := (nemu_state ?s)\<lparr>st_state := NEMU_ABORT, halt_pc := 0x80000000\<rparr>,
            out := out ?s @ map2 Reg_row regs (gpr (cpu ?s)) @ [Reg_row ''$pc'' (pc (cpu ?s))]\<rparr>)"
    by (rule difftest_detects [where c = default_config])
      (use img_state_simps(2) [of default_config] in
        \<open>simp_all add: no_ref_def zero_regs_def cpu_wf_def cpu_shape_def\<close>)
  moreover have "ref_regcpy_to_dut no_ref () \<noteq> cpu ?s"
    by (simp add: no_ref_def zero_regs_def img_state_def)
  ultimately show ?thesis by simp
qed

end
