(* ===== verification/Sdb.thy ===== *)
theory Sdb
  imports Cpu_Exec
begin

text \<open>
  The simple debugger, \<open>nemu/src/monitor/sdb/sdb.c\<close>: the command handlers, the table of
  commands and the main loop.

  The lines the user types are a field of the state; the end of that list is the end of the
  input (\<open>readline\<close> returns \<open>NULL\<close>).  A line is a buffer of characters with its
  terminating NUL; a \<open>char *\<close> into it is an offset, and \<open>strtok\<close> writes NULs into it and
  keeps the offset it will go on from.
\<close>

record 'r sdbst = "'r sim" +
  is_batch_mode :: bool
  rl_lines :: "string list"

subsection \<open>Strings in a buffer\<close>

definition NUL :: char where
  "NUL = CHR 0x00"

definition cstr_at :: "char list \<Rightarrow> nat \<Rightarrow> string" where
  "cstr_at buf p = takeWhile (\<lambda>ch. ch \<noteq> NUL) (drop p buf)"

text \<open>\<open>strtok(p, '' '')\<close> from the offset \<open>p\<close>: the token, the buffer and the saved offset.\<close>

definition strtok :: "char list \<Rightarrow> nat \<Rightarrow> nat option \<times> char list \<times> nat" where
  "strtok buf p =
     (let str = cstr_at buf p;
          start = p + length (takeWhile (\<lambda>ch. ch = CHR '' '') str);
          tok = takeWhile (\<lambda>ch. ch \<noteq> CHR '' '') (dropWhile (\<lambda>ch. ch = CHR '' '') str);
          e = start + length tok
      in if tok = [] then (None, buf, start)
         else if buf ! e = NUL then (Some start, buf, e)
         else (Some start, buf[e := NUL], e + 1))"

text \<open>A read through a pointer that has left the buffer.\<close>

definition read_cstr :: "char list \<Rightarrow> nat \<Rightarrow> string res" where
  "read_cstr buf p = (if p < length buf then Inr (cstr_at buf p) else Inl Out_of_bounds)"

subsection \<open>Numbers\<close>

definition is_space :: "char \<Rightarrow> bool" where
  "is_space ch \<longleftrightarrow> of_char ch \<in> {32, 9, 10, 11, 12, 13 :: nat}"

text \<open>The sign and the magnitude \<open>strtol\<close> and its relatives read in base 10.\<close>

definition scan_dec :: "string \<Rightarrow> bool \<times> int" where
  "scan_dec str =
     (let s1 = dropWhile is_space str in
      case s1 of
        [] \<Rightarrow> (False, 0)
      | ch # cs \<Rightarrow>
          if ch = CHR ''-'' then (True, digits_val 10 0 (takeWhile is_digit cs))
          else if ch = CHR ''+'' then (False, digits_val 10 0 (takeWhile is_digit cs))
          else (False, digits_val 10 0 (takeWhile is_digit s1)))"

definition strtol10 :: "string \<Rightarrow> int" where
  "strtol10 str =
     (case scan_dec str of (neg, v) \<Rightarrow> if neg then max (- v) (- (2 ^ 63)) else min v (2 ^ 63 - 1))"

definition strtoul10 :: "string \<Rightarrow> u64" where
  "strtoul10 str =
     (case scan_dec str of (neg, v) \<Rightarrow>
        if 2 ^ 64 \<le> v then -1 else if neg then - word_of_int v else word_of_int v)"

text \<open>\<open>atoi\<close>: \<open>strtol\<close> narrowed to \<open>int\<close>.\<close>

definition atoi_c :: "string \<Rightarrow> u32" where
  "atoi_c str = word_of_int (strtol10 str)"

subsection \<open>The handlers\<close>

text \<open>A handler gets the buffer, the offset \<open>strtok\<close> goes on from and the pointer
  \<open>args\<close>; it returns its \<open>int\<close>.\<close>

type_synonym ('r, 'a) handler =
  "char list \<Rightarrow> nat \<Rightarrow> nat option \<Rightarrow> ('r, 'a) sdbst_scheme \<Rightarrow> (int \<times> ('r, 'a) sdbst_scheme) res"

definition cmd_c :: "config \<Rightarrow> 'r ref_design \<Rightarrow> ('r, 'a) handler" where
  "cmd_c c R buf sv args s = bind_res (cpu_exec c R (-1) s) (\<lambda>s1. Inr (0, s1))"

definition cmd_q :: "('r, 'a) handler" where
  "cmd_q buf sv args s = Inr (-1, s\<lparr>nemu_state := (nemu_state s)\<lparr>st_state := NEMU_QUIT\<rparr>\<rparr>)"

definition quoted :: "string \<Rightarrow> string" where
  "quoted str = CHR 0x27 # str @ [CHR 0x27]"

definition cmd_si :: "config \<Rightarrow> 'r ref_design \<Rightarrow> ('r, 'a) handler" where
  "cmd_si c R buf sv args s =
     (case strtok buf sv of (arg, buf1, sv1) \<Rightarrow>
      if args \<noteq> None then
        (case arg of None \<Rightarrow> Inl Null_deref
         | Some p \<Rightarrow>
             (let a = cstr_at buf1 p; n = atoi_c a in
              if sint n = 0 \<and> sint n < 0 \<and> a ! 0 \<noteq> CHR ''0''
              then Inr (0, print (Text (''Invalid input: '' @ quoted [a ! 0])) s)
              else bind_res (cpu_exec c R (scast n) s) (\<lambda>s1. Inr (0, s1))))
      else bind_res (cpu_exec c R 1 s) (\<lambda>s1. Inr (0, s1)))"

definition cmd_info :: "('r, 'a) handler" where
  "cmd_info buf sv args s =
     (case strtok buf sv of
        (None, _) \<Rightarrow> Inr (0, print (Text ''Usage: info [r | w]'') s)
      | (Some p, buf1, _) \<Rightarrow>
          (let a = cstr_at buf1 p in
           if a ! 0 = CHR ''r'' then Inr (0, isa_reg_display s)
           else if a ! 0 = CHR ''w'' then bind_res (info_wp s) (\<lambda>s1. Inr (0, s1))
           else Inr (0, print (Text (''Unknown option: '' @ a)) s)))"

text \<open>The loop of \<open>cmd_x\<close> with \<open>n\<close> rounds to go; \<open>i * 4\<close> is computed on \<open>int\<close>.\<close>

fun cmd_x_loop ::
  "config \<Rightarrow> u32 \<Rightarrow> nat \<Rightarrow> nat \<Rightarrow> 'a wpst_scheme \<Rightarrow> 'a wpst_scheme res" where
  "cmd_x_loop c start i 0 s = Inr s"
| "cmd_x_loop c start i (Suc n) s =
     bind_res (assert_res Signed_overflow (4 * int i < 2 ^ 31)) (\<lambda>_.
     let address = start + of_nat (4 * i) in
     bind_res (vaddr_read c address 4 s) (\<lambda>(data, s1).
     cmd_x_loop c start (i + 1) n (print (Mem_row address data) s1)))"

definition cmd_x :: "config \<Rightarrow> ('r, 'a) handler" where
  "cmd_x c buf sv args s =
     (case strtok buf (case args of Some a \<Rightarrow> a | None \<Rightarrow> sv) of
        (None, _) \<Rightarrow> Inr (0, print (Text ''Invaild argument'') s)
      | (Some p, buf1, sv1) \<Rightarrow>
          (let token = cstr_at buf1 p; n = (ucast (strtoul10 token) :: u32) in
           case args of None \<Rightarrow> Inl Null_deref
           | Some a \<Rightarrow>
           bind_res (read_cstr buf1 (a + length token + 1)) (\<lambda>remain.
           bind_res (expr c remain s) (\<lambda>(start_address, success, s1).
           if \<not> success then Inr (0, print (Text (''Invalid expression: '' @ token)) s1)
           else bind_res (cmd_x_loop c start_address 0 (unat n) s1) (\<lambda>s2. Inr (0, s2))))))"

definition cmd_p :: "config \<Rightarrow> ('r, 'a) handler" where
  "cmd_p c buf sv args s =
     (case args of None \<Rightarrow> Inr (0, print (Text ''No expression provided'') s)
      | Some a \<Rightarrow>
          bind_res (expr c (cstr_at buf a) s) (\<lambda>(v, success, s1).
          Inr (0, print (if success then Result v
                         else Text (''Invaild expression: '' @ cstr_at buf a)) s1)))"

definition cmd_w :: "config \<Rightarrow> ('r, 'a) handler" where
  "cmd_w c buf sv args s =
     (case args of None \<Rightarrow> Inr (0, print (Text ''No expression provided'') s)
      | Some a \<Rightarrow>
          bind_res (expr c (cstr_at buf a) s) (\<lambda>(v, success, s1).
          if \<not> success then Inr (0, print (Text ''Expression evaluation error'') s1)
          else bind_res (add_wp (cstr_at buf a) v s1) (\<lambda>s2. Inr (0, s2))))"

definition cmd_d :: "('r, 'a) handler" where
  "cmd_d buf sv args s =
     (case strtok buf (case args of Some a \<Rightarrow> a | None \<Rightarrow> sv) of
        (None, _) \<Rightarrow> Inr (0, print (Text ''Invaild No'') s)
      | (Some p, buf1, _) \<Rightarrow>
          bind_res (delete_wp (sint (word_of_int (strtol10 (cstr_at buf1 p)) :: u32)) s)
            (\<lambda>s1. Inr (0, s1)))"

text \<open>The table: names with descriptions, and the handlers.  A newline is \<open>CHR 0x0A\<close>.\<close>

definition NL :: string where
  "NL = [CHR 0x0A]"

definition cmd_names :: "(string \<times> string) list" where
  "cmd_names =
     [(''help'', ''Display information about all supported commands''),
      (''c'', ''Continue the execution of the program''),
      (''q'', ''Exit NEMU''),
      (''si'', ''Execute [N] instructions in a single step and then pause''),
      (''info'', ''Print program status'' @ NL @ ''Usage:'' @ NL @
         ''-r: Print register status'' @ NL @ ''-w: Print watchpoint status'' @ NL),
      (''x'', ''Find the value of given expression, and output [N] consecutive 4-byte outputs in hexadecimal'' @ NL @
         ''Usage:'' @ NL @ ''x [N] [EXPR]''),
      (''p'', ''Evaluate the given [EXPR] and return its result in decimal and hexadecimal formats''),
      (''w'', ''Set a watchpoint at [EXPR], and pause the program when it changes''),
      (''d'', ''Delete watchpoint with serial number [N]'')]"

definition help_row :: "string \<times> string \<Rightarrow> out_event" where
  "help_row e = Text (fst e @ '' - '' @ snd e)"

definition cmd_help :: "('r, 'a) handler" where
  "cmd_help buf sv args s =
     (case strtok buf sv of
        (None, _) \<Rightarrow> Inr (0, s\<lparr>out := out s @ map help_row cmd_names\<rparr>)
      | (Some p, buf1, _) \<Rightarrow>
          (let a = cstr_at buf1 p in
           case map_of cmd_names a of
             Some d \<Rightarrow> Inr (0, print (help_row (a, d)) s)
           | None \<Rightarrow> Inr (0, print (Text (''Unknown command '' @ quoted a)) s)))"

definition cmd_table :: "config \<Rightarrow> 'r ref_design \<Rightarrow> (string \<times> ('r, 'a) handler) list" where
  "cmd_table c R = zip (map fst cmd_names)
     [cmd_help, cmd_c c R, cmd_q, cmd_si c R, cmd_info, cmd_x c, cmd_p c, cmd_w c, cmd_d]"

subsection \<open>The main loop\<close>

definition sdb_set_batch_mode :: "('r, 'a) sdbst_scheme \<Rightarrow> ('r, 'a) sdbst_scheme" where
  "sdb_set_batch_mode s = s\<lparr>is_batch_mode := True\<rparr>"

text \<open>One command line; the flag says whether the loop goes on.\<close>

definition sdb_command ::
  "config \<Rightarrow> 'r ref_design \<Rightarrow> string \<Rightarrow> ('r, 'a) sdbst_scheme \<Rightarrow> (bool \<times> ('r, 'a) sdbst_scheme) res" where
  "sdb_command c R str s =
     (case strtok (str @ [NUL]) 0 of
        (None, _) \<Rightarrow> Inr (True, s)
      | (Some p, buf, sv) \<Rightarrow>
          (let cmd = cstr_at buf p;
               a = p + length cmd + 1;
               args = (if a \<ge> length str then None else Some a);
               s1 = (if CONFIG_DEVICE c then sdl_clear_event_queue s else s)
           in case map_of (cmd_table c R) cmd of
                None \<Rightarrow> Inr (True, print (Text (''Unknown command '' @ quoted cmd)) s1)
              | Some h \<Rightarrow> bind_res (h buf sv args s1) (\<lambda>(r, s2). Inr (\<not> r < 0, s2))))"

fun sdb_loop ::
  "config \<Rightarrow> 'r ref_design \<Rightarrow> string list \<Rightarrow> ('r, 'a) sdbst_scheme \<Rightarrow> ('r, 'a) sdbst_scheme res" where
  "sdb_loop c R [] s = Inr (s\<lparr>rl_lines := []\<rparr>)"
| "sdb_loop c R (str # ls) s =
     bind_res (sdb_command c R str (s\<lparr>rl_lines := ls\<rparr>)) (\<lambda>(go, s1).
     if go then sdb_loop c R ls s1 else Inr s1)"

definition sdb_mainloop ::
  "config \<Rightarrow> 'r ref_design \<Rightarrow> ('r, 'a) sdbst_scheme \<Rightarrow> ('r, 'a) sdbst_scheme res" where
  "sdb_mainloop c R s =
     (if is_batch_mode s then bind_res (cmd_c c R [NUL] 0 None s) (\<lambda>(_, s1). Inr s1)
      else sdb_loop c R (rl_lines s) s)"

definition init_sdb :: "('r, 'a) sdbst_scheme \<Rightarrow> ('r, 'a) sdbst_scheme" where
  "init_sdb s = init_wp_pool s"

end
