(* ===== verification/Sdb_Facts.thy ===== *)
theory Sdb_Facts
  imports Sdb Cpu_Exec_Props
begin

text \<open>
  Facts on the debugger: every command, and so every session, keeps the invariant of the
  machine; and what a line with the command \<open>x\<close> prints.
\<close>

subsection \<open>The invariant\<close>

definition keeps :: "config \<Rightarrow> ('r, 'a) handler \<Rightarrow> bool" where
  "keeps c h \<longleftrightarrow>
     (\<forall>buf sv args s r s'. h buf sv args s = Inr (r, s') \<longrightarrow> machine_inv c s \<longrightarrow> machine_inv c s')"

lemma keepsI:
  "(\<And>buf sv args s r s'. h buf sv args s = Inr (r, s') \<Longrightarrow> machine_inv c s \<Longrightarrow> machine_inv c s') \<Longrightarrow>
   keeps c h"
  by (simp add: keeps_def)

lemma keepsD: "keeps c h \<Longrightarrow> h buf sv args s = Inr (r, s') \<Longrightarrow> machine_inv c s \<Longrightarrow> machine_inv c s'"
  unfolding keeps_def by blast

lemma expr_machine:
  assumes "expr c e s = Inr (v, b, s')" and "machine_inv c s"
  shows "machine_inv c s'"
  using expr_cpu [OF assms(1)] expr_wp [OF assms(1)] wp_ok_update [of s' s] assms(2)
  by (simp add: machine_inv_def)

lemma wp_update_io [simp]:
  "io_wf (s\<lparr>wp_head := p\<rparr>) = io_wf s" "io_wf (s\<lparr>wp_free := p\<rparr>) = io_wf s" "io_wf (print e s) = io_wf s"
  "cpu (print e s) = cpu s"
  by (rule io_wf_update; simp add: print_def)+ (simp add: print_def)

lemma wp_put_frame: "wp_put p f s = Inr s' \<Longrightarrow> cpu s' = cpu s \<and> io_wf s' = io_wf s"
  by (auto simp: wp_put_def split: option.splits if_splits)

lemma new_wp_frame: "new_wp s = Inr (p, s') \<Longrightarrow> cpu s' = cpu s \<and> io_wf s' = io_wf s"
  by (auto simp: new_wp_def Let_def bind_res_eq_Inr_iff dest!: wp_put_frame)

lemma add_wp_frame: "add_wp e v s = Inr s' \<Longrightarrow> cpu s' = cpu s \<and> io_wf s' = io_wf s"
  by (auto simp: add_wp_def bind_res_eq_Inr_iff dest!: wp_put_frame new_wp_frame)

lemma free_wp_frame:
  assumes "free_wp wp s = Inr s'"
  shows "cpu s' = cpu s \<and> io_wf s' = io_wf s"
proof -
  let ?u = "if wp_head s = wp then
          bind_res (wp_get (wp_head s) s) (\<lambda>w. Inr (s\<lparr>wp_head := next w\<rparr>))
        else
          bind_res (find_prev (Suc NR_WP) wp (wp_head s) s) (\<lambda>prev.
          if prev \<noteq> None then
            bind_res (wp_get wp s) (\<lambda>w. wp_put prev (\<lambda>p. p\<lparr>next := next w\<rparr>) s)
          else Inr s)"
  obtain s1 f s2 where u: "?u = Inr s1" and r: "wp_put wp f s1 = Inr s2" "s' = s2\<lparr>wp_free := wp\<rparr>"
    using assms unfolding free_wp_def by (elim bind_resE) (rule that, assumption+, simp)
  have "cpu s1 = cpu s \<and> io_wf s1 = io_wf s"
    using u by (auto simp: bind_res_eq_Inr_iff simp del: find_prev.simps split: if_splits dest: wp_put_frame)
  moreover have "cpu s' = cpu s1 \<and> io_wf s' = io_wf s1"
    using r by (auto dest!: wp_put_frame)
  ultimately show ?thesis by simp
qed

lemma delete_loop_frame:
  "delete_wp_loop k no prev wp s = Inr s' \<Longrightarrow> cpu s' = cpu s \<and> io_wf s' = io_wf s"
proof (induction k arbitrary: prev wp)
  case (Suc k)
  show ?case
  proof (cases wp)
    case (Some y)
    then have "bind_res (wp_get (Some y) s) (\<lambda>w. if NO w = no then
          bind_res (if prev = None then Inr (s\<lparr>wp_head := next w\<rparr>)
                    else wp_put prev (\<lambda>p. p\<lparr>next := next w\<rparr>) s) (\<lambda>s1.
          bind_res (free_wp (Some y) s1) (\<lambda>s2. Inr (print (Wp_deleted no) s2)))
        else delete_wp_loop k no (Some y) (next w) s) = Inr s'"
      using Suc.prems by simp
    then obtain w :: WP where w: "(if NO w = no then
          bind_res (if prev = None then Inr (s\<lparr>wp_head := next w\<rparr>)
                    else wp_put prev (\<lambda>p. p\<lparr>next := next w\<rparr>) s) (\<lambda>s1.
          bind_res (free_wp (Some y) s1) (\<lambda>s2. Inr (print (Wp_deleted no) s2)))
        else delete_wp_loop k no (Some y) (next w) s) = Inr s'"
      by (rule bind_resE) (rule that, assumption)
    show ?thesis
    proof (cases "NO w = no")
      case True
      with w obtain s1 s2 where 1: "(if prev = None then Inr (s\<lparr>wp_head := next w\<rparr>)
            else wp_put prev (\<lambda>p. p\<lparr>next := next w\<rparr>) s) = Inr s1" "free_wp (Some y) s1 = Inr s2"
          "s' = print (Wp_deleted no) s2"
        by (simp, elim bind_resE) (rule that, assumption+, simp)
      then have "cpu s1 = cpu s \<and> io_wf s1 = io_wf s" by (auto split: if_splits dest: wp_put_frame)
      then show ?thesis using free_wp_frame [OF 1(2)] 1(3) by simp
    qed (use w Suc.IH in simp)
  qed (use Suc.prems in auto)
qed simp

lemma delete_wp_frame: "delete_wp no s = Inr s' \<Longrightarrow> cpu s' = cpu s \<and> io_wf s' = io_wf s"
  by (auto simp: delete_wp_def bind_res_eq_Inr_iff simp del: delete_wp_loop.simps dest: delete_loop_frame)

lemma add_wp_machine:
  assumes "add_wp e v s = Inr s'" and "machine_inv c s"
  shows "machine_inv c s'"
proof -
  have ok: "wp_ok s" using assms(2) by (simp add: machine_inv_def)
  then have "length (watchpoints s) < NR_WP" using wp.add_full [OF ok, of e v] assms(1) by fastforce
  then have "wp_ok s'" using wp.add_ok [OF ok, of e v] assms(1) by auto
  then show ?thesis using add_wp_frame [OF assms(1)] assms(2) by (simp add: machine_inv_def)
qed

lemma delete_wp_machine:
  assumes "delete_wp no s = Inr s'" and "machine_inv c s"
  shows "machine_inv c s'"
proof -
  have ok: "wp_ok s" using assms(2) by (simp add: machine_inv_def)
  have "no < int NR_WP" using assms(1) by (auto simp: delete_wp_def bind_res_eq_Inr_iff)
  then have "wp_ok s'" using wp.del_ok [OF ok] assms(1) by fastforce
  then show ?thesis using delete_wp_frame [OF assms(1)] assms(2) by (simp add: machine_inv_def)
qed

lemma info_loop_frame:
  "info_wp_loop k wp s = Inr s' \<Longrightarrow> machine_inv c s \<Longrightarrow> machine_inv c s'"
proof (induction k arbitrary: wp s)
  case (Suc k)
  then show ?case by (auto simp: bind_res_eq_Inr_iff split: if_splits)
qed simp

lemma info_wp_machine: "info_wp s = Inr s' \<Longrightarrow> machine_inv c s \<Longrightarrow> machine_inv c s'"
  unfolding info_wp_def using info_loop_frame [of "Suc NR_WP" "wp_head s" "print Wp_header s" s' c]
  by (auto simp del: info_wp_loop.simps split: if_splits)

lemma reg_display_machine [simp]: "machine_inv c (isa_reg_display s) = machine_inv c s"
  by (rule machine_inv_update) (simp_all add: isa_reg_display_def io_wf_def)

lemma vaddr_read_machine:
  assumes "vaddr_read c a len s = Inr (v, s')" and "machine_inv c s"
  shows "machine_inv c s'"
  using vaddr_read_cpu [OF assms(1)] vaddr_read_more [OF assms(1)] nemu_more_wp_ok [of s' s]
    paddr_read_io_wf [of c a len s v s'] assms
  by (simp add: machine_inv_def vaddr_read_def)

lemma cmd_x_loop_machine:
  "cmd_x_loop c a i n s = Inr s' \<Longrightarrow> machine_inv c s \<Longrightarrow> machine_inv c s'"
proof (induction n arbitrary: i s)
  case (Suc n)
  then obtain d s1 where "vaddr_read c (a + of_nat (4 * i)) 4 s = Inr (d, s1)"
    "cmd_x_loop c a (i + 1) n (print (Mem_row (a + of_nat (4 * i)) d) s1) = Inr s'"
    by (auto simp: bind_res_eq_Inr_iff Let_def)
  then show ?case using Suc.IH Suc.prems(2) vaddr_read_machine by (metis print_machine(1))
qed simp

lemma out_update_machine [simp]: "machine_inv c (s\<lparr>out := x\<rparr>) = machine_inv c s"
  by (rule machine_inv_update) simp_all

lemma handlers_keep:
  "keeps c (cmd_c c R)" "keeps c cmd_q" "keeps c (cmd_si c R)" "keeps c cmd_info" "keeps c (cmd_x c)"
  "keeps c (cmd_p c)" "keeps c (cmd_w c)" "keeps c cmd_d" "keeps c cmd_help"
proof -
  show "keeps c (cmd_c c R)"
    by (rule keepsI) (auto simp: cmd_c_def bind_res_eq_Inr_iff dest: cpu_exec_machine)
  show "keeps c cmd_q" by (rule keepsI) (auto simp: cmd_q_def)
  show "keeps c (cmd_si c R)"
    by (rule keepsI) (auto simp: cmd_si_def bind_res_eq_Inr_iff Let_def split: prod.splits if_splits option.splits
        dest: cpu_exec_machine)
  show "keeps c cmd_info"
    by (rule keepsI) (auto simp: cmd_info_def bind_res_eq_Inr_iff Let_def split: prod.splits if_splits option.splits
        dest: info_wp_machine)
  show "keeps c (cmd_x c)"
    by (rule keepsI) (auto simp: cmd_x_def bind_res_eq_Inr_iff Let_def split: prod.splits if_splits option.splits
        dest: expr_machine cmd_x_loop_machine)
  show "keeps c (cmd_p c)"
    by (rule keepsI) (auto simp: cmd_p_def bind_res_eq_Inr_iff split: option.splits dest: expr_machine)
  show "keeps c (cmd_w c)"
    by (rule keepsI) (auto simp: cmd_w_def bind_res_eq_Inr_iff split: option.splits if_splits
        dest: expr_machine add_wp_machine)
  show "keeps c cmd_d"
    by (rule keepsI) (auto simp: cmd_d_def bind_res_eq_Inr_iff split: option.splits prod.splits
        dest: delete_wp_machine)
  show "keeps c cmd_help"
    by (rule keepsI) (auto simp: cmd_help_def Let_def split: option.splits prod.splits)
qed

lemma cmd_table_keeps: "map_of (cmd_table c R) cmd = Some h \<Longrightarrow> keeps c h"
  by (auto simp: cmd_table_def cmd_names_def handlers_keep split: if_splits)

lemma sdb_update_machine [simp]:
  "machine_inv c (s\<lparr>rl_lines := ls\<rparr>) = machine_inv c s"
  "machine_inv c (sdl_clear_event_queue s) = machine_inv c s"
  by (rule machine_inv_update; simp add: io_wf_def sdl_clear_event_queue_def)+

lemma sdb_command_machine:
  assumes "sdb_command c R str s = Inr (go, s')" and "machine_inv c s"
  shows "machine_inv c s'"
  using assms
  by (auto simp: sdb_command_def Let_def bind_res_eq_Inr_iff split: option.splits prod.splits if_splits
      dest: keepsD [OF cmd_table_keeps])

lemma sdb_loop_machine: "sdb_loop c R ls s = Inr s' \<Longrightarrow> machine_inv c s \<Longrightarrow> machine_inv c s'"
  by (induction ls arbitrary: s)
    (auto simp: bind_res_eq_Inr_iff split: if_splits dest!: sdb_command_machine)

subsection \<open>Command lines\<close>

definition clean :: "string \<Rightarrow> bool" where
  "clean str \<longleftrightarrow> NUL \<notin> set str"

definition word_tok :: "string \<Rightarrow> bool" where
  "word_tok str \<longleftrightarrow> str \<noteq> [] \<and> clean str \<and> CHR '' '' \<notin> set str"

lemma takeWhile_append_stop: "\<forall>x\<in>set xs. P x \<Longrightarrow> \<not> P y \<Longrightarrow> takeWhile P (xs @ y # ys) = xs"
  by (induction xs) auto

lemma cstr_at_append: "clean str \<Longrightarrow> cstr_at (pre @ str @ NUL # post) (length pre) = str"
  unfolding cstr_at_def clean_def
  by (simp, rule takeWhile_append_stop) auto

text \<open>A token followed by a blank: the blank is overwritten and the scan goes on after it.\<close>

lemma strtok_word:
  assumes "word_tok tok" and "clean rest"
  shows "strtok (pre @ tok @ CHR '' '' # rest @ NUL # post) (length pre) =
    (Some (length pre), pre @ tok @ NUL # rest @ NUL # post, length pre + length tok + 1)"
proof -
  have "clean (tok @ CHR '' '' # rest)" using assms by (auto simp: clean_def word_tok_def NUL_def)
  then have c: "cstr_at (pre @ tok @ CHR '' '' # rest @ NUL # post) (length pre) = tok @ CHR '' '' # rest"
    using cstr_at_append [of "tok @ CHR '' '' # rest" pre post] by simp
  obtain t ts where t: "tok = t # ts" "t \<noteq> CHR '' ''"
    using assms(1) by (cases tok) (auto simp: word_tok_def)
  have w: "takeWhile (\<lambda>ch. ch \<noteq> CHR '' '') (tok @ CHR '' '' # rest) = tok"
    using assms(1) by (intro takeWhile_append_stop) (auto simp: word_tok_def)
  have n: "(pre @ tok @ CHR '' '' # rest @ NUL # post) ! (length pre + length tok) = CHR '' ''"
    by (metis add_diff_cancel_left' nth_append_length nth_append_length_plus)
  have u: "(pre @ tok @ CHR '' '' # rest @ NUL # post)[length pre + length tok := NUL] =
      pre @ tok @ NUL # rest @ NUL # post"
    by (simp add: list_update_append)
  have d: "dropWhile (\<lambda>ch. ch = CHR '' '') (tok @ CHR '' '' # rest) = tok @ CHR '' '' # rest"
    "takeWhile (\<lambda>ch. ch = CHR '' '') (tok @ CHR '' '' # rest) = []"
    using t by simp_all
  have "NUL \<noteq> CHR '' ''" "tok \<noteq> []" using t by (simp_all add: NUL_def)
  then show ?thesis
    unfolding strtok_def Let_def c d w using n u by simp
qed

lemma cmd_x_loop_rows:
  assumes "\<forall>j < i + n. pmem_valid c (a + of_nat (4 * j)) 4" and "4 * int (i + n) \<le> 2 ^ 31"
  shows "cmd_x_loop c a i n s = Inr (s\<lparr>out := out s @
    map (\<lambda>j. Mem_row (a + of_nat (4 * j)) (projr (pmem_read c (a + of_nat (4 * j)) 4 s))) [i..<i + n]\<rparr>)"
  using assms
proof (induction n arbitrary: i s)
  case (Suc n)
  let ?a = "a + of_nat (4 * i)"
  obtain v where v: "pmem_read c ?a 4 s = Inr v"
    using pm.rd_total [of c ?a 4 s] Suc.prems(1)
    by (auto simp: paddr_read_def pmem_valid_def bind_res_eq_Inr_iff)
  then have r: "vaddr_read c ?a 4 s = Inr (v, s)"
    using Suc.prems(1) by (auto simp: vaddr_read_def paddr_read_def pmem_valid_def)
  have "cmd_x_loop c a (i + 1) n (print (Mem_row ?a v) s) = Inr ((print (Mem_row ?a v) s)\<lparr>out :=
      out (print (Mem_row ?a v) s) @ map (\<lambda>j. Mem_row (a + of_nat (4 * j))
        (projr (pmem_read c (a + of_nat (4 * j)) 4 (print (Mem_row ?a v) s)))) [i + 1..<i + 1 + n]\<rparr>)"
    by (rule Suc.IH) (use Suc.prems in auto)
  moreover have "pmem_read c b 4 (print e s) = pmem_read c b 4 s" for b e
    by (simp add: pmem_read_def print_def)
  ultimately show ?case
    using r v Suc.prems(2) by (simp add: Let_def print_def upt_conv_Cons del: upt_Suc)
qed simp

subsection \<open>Properties\<close>

text \<open>C21: A debugging session, whatever lines the user types, keeps the invariant of the machine:
  commands that run the program, evaluate expressions, add and delete watchpoints included.\<close>

theorem sdb_session_invariant:
  assumes "sdb_mainloop c R s = Inr s'" and "machine_inv c s"
  shows "machine_inv c s'"
  using assms keepsD [OF handlers_keep(1)] sdb_loop_machine
  by (fastforce simp: sdb_mainloop_def bind_res_eq_Inr_iff split: if_splits)

definition sdb_of :: "string list \<Rightarrow> nemu \<Rightarrow> unit sdbst" where
  "sdb_of ls s = sim.extend (sim_of () s) (sdbst.fields False ls)"

lemma sdb_of_simps [simp]:
  "machine_inv c (sdb_of ls s) = (cpu_wf c (cpu s) \<and> io_wf s)" "rl_lines (sdb_of ls s) = ls"
  "is_batch_mode (sdb_of ls s) = False" "pmem (sdb_of ls s) = pmem s" "out (sdb_of ls s) = []"
proof -
  have "machine_inv c (sdb_of ls s) = machine_inv c (sim_of () s)"
    by (simp add: machine_inv_def wp_ok_def wp_inv_def io_wf_def sdb_of_def sim.defs sdbst.defs)
  then show "machine_inv c (sdb_of ls s) = (cpu_wf c (cpu s) \<and> io_wf s)"
    by (simp add: sim_of_machine_inv)
  show "rl_lines (sdb_of ls s) = ls" "is_batch_mode (sdb_of ls s) = False" "pmem (sdb_of ls s) = pmem s"
    "out (sdb_of ls s) = []"
    using sim_of_simps(2,9) [of "()" s] by (simp_all add: sdb_of_def sim.defs sdbst.defs)
qed

theorem sdb_session_invariant_witness:
  "\<exists>s'. sdb_mainloop plain_config no_ref (sdb_of [''help'', '' '', ''foo'', ''q''] (with_prog [])) = Inr s' \<and>
     machine_inv plain_config s'"
proof -
  let ?s = "sdb_of [''help'', '' '', ''foo'', ''q''] (with_prog [])"
  obtain s' where "sdb_mainloop plain_config no_ref ?s = Inr s'"
    by (simp add: sdb_mainloop_def sdb_command_def strtok_def cstr_at_def NUL_def Let_def cmd_table_def
        cmd_names_def cmd_help_def cmd_q_def)
  then show ?thesis
    using sdb_session_invariant [of plain_config no_ref ?s s'] with_prog_wf [of "[]"]
    by (simp add: cpu_wf_def cpu_shape_def nr_gpr_def)
qed

text \<open>The line \<open>x N EXPR\<close> prints the \<open>N\<close> consecutive 32-bit words of guest memory from the
  value of \<open>EXPR\<close> on, each with its address, changes nothing else and keeps the session going.\<close>

theorem sdb_examine_memory:
  fixes s :: "('r, 'a) sdbst_scheme" and R :: "'r ref_design"
  assumes "word_tok n" and "strtoul10 n = of_nat k" and "4 * int k \<le> 2 ^ 31"
    and "clean e" and "e \<noteq> []" and "\<not> CONFIG_DEVICE c"
    and "expr c e s = Inr (a, True, s)" and "\<forall>j < k. pmem_valid c (a + of_nat (4 * j)) 4"
  shows "sdb_command c R (''x '' @ n @ '' '' @ e) s = Inr (True, s\<lparr>out := out s @
    map (\<lambda>j. Mem_row (a + of_nat (4 * j)) (projr (pmem_read c (a + of_nat (4 * j)) 4 s))) [0..<k]\<rparr>)"
proof -
  let ?buf = "''x'' @ NUL # n @ CHR '' '' # e @ [NUL]" and ?buf' = "''x'' @ NUL # n @ NUL # e @ [NUL]"
  have ne: "clean (n @ CHR '' '' # e)" using assms(1,4) by (auto simp: clean_def word_tok_def NUL_def)
  have "word_tok ''x''" by (simp add: word_tok_def clean_def NUL_def)
  from strtok_word [OF this ne, of "[]" "[]"]
  have t1: "strtok ((''x '' @ n @ '' '' @ e) @ [NUL]) 0 = (Some 0, ?buf, 2)" by simp
  have cx: "cstr_at ?buf 0 = ''x''" by (simp add: cstr_at_def NUL_def)
  have t2: "strtok ?buf 2 = (Some 2, ?buf', length n + 3)"
    using strtok_word [OF assms(1,4), of "''x'' @ [NUL]" "[]"] by (simp add: numeral_eq_Suc)
  have cn: "cstr_at ?buf' 2 = n"
    using cstr_at_append [of n "''x'' @ [NUL]" "e @ [NUL]"] assms(1) by (simp add: word_tok_def numeral_eq_Suc)
  have ce: "read_cstr ?buf' (2 + length n + 1) = Inr e"
    using cstr_at_append [of e "''x'' @ NUL # n @ [NUL]" "[]"] assms(4) by (simp add: read_cstr_def)
  have "k < 2 ^ 32" using assms(3) by simp
  then have k: "unat (ucast (strtoul10 n) :: u32) = k"
    by (simp add: assms(2) unsigned_ucast_eq unat_of_nat take_bit_nat_eq_self)
  have "cmd_x c ?buf 2 (Some 2) s = Inr (0, s\<lparr>out := out s @
    map (\<lambda>j. Mem_row (a + of_nat (4 * j)) (projr (pmem_read c (a + of_nat (4 * j)) 4 s))) [0..<k]\<rparr>)"
    using cmd_x_loop_rows [of 0 k c a s] assms(3,8)
    by (simp only: cmd_x_def option.case t2 prod.case Let_def cn ce bind_res_Inr assms(7) k) simp
  moreover have "map_of (cmd_table c R) ''x'' = Some (cmd_x c :: ('r, 'a) handler)"
    by (simp add: cmd_table_def cmd_names_def)
  ultimately show ?thesis
    using assms(5,6) by (simp only: sdb_command_def t1 prod.case option.case Let_def cx) (simp add: numeral_eq_Suc)
qed

theorem sdb_examine_memory_witness:
  "\<exists>s'. sdb_command plain_config no_ref ''x 2 0x80000000'' (sdb_of [] (with_prog [0x12345678, 7])) = Inr (True, s') \<and>
     out s' = [Mem_row 0x80000000 0x12345678, Mem_row 0x80000004 7]"
proof -
  let ?s = "sdb_of [] (with_prog [0x12345678, 7])"
  have ex: "expr plain_config ''0x80000000'' ?s = Inr (0x80000000, True, ?s)"
    by (simp add: expr_def make_token_def make_token_loop.simps rules_def record_token_def
        TOKEN_STR_def NR_TOKENS_def is_digit_def is_xdigit_def eval.simps eval_single_def strtol16_def
        strtol_def digit_val_def Let_def)
  have v: "\<forall>j < 2. pmem_valid plain_config (0x80000000 + of_nat (4 * j)) 4"
    by (auto simp: pmem_valid_def pmem_fits_def access_len_def in_pmem_def guest_to_host_def
        dest!: less_2_cases)
  have "sdb_command plain_config no_ref (''x '' @ ''2'' @ '' '' @ ''0x80000000'') ?s = Inr (True, ?s\<lparr>out := out ?s @
    map (\<lambda>j. Mem_row (0x80000000 + of_nat (4 * j)) (projr (pmem_read plain_config (0x80000000 + of_nat (4 * j)) 4 ?s))) [0..<2]\<rparr>)"
    by (rule sdb_examine_memory [OF _ _ _ _ _ _ ex v])
      (simp_all add: word_tok_def clean_def NUL_def strtoul10_def scan_dec_def is_space_def is_digit_def digit_val_def)
  then show ?thesis
    by (simp add: upt_rec pmem_read_def host_read_def guest_to_host_def in_object_def with_prog_def)
qed

end
