(* ===== verification/Tracer.thy ===== *)
theory Tracer
  imports Cpu_Exec
begin

text \<open>
  The tracers of \<open>nemu/src/utils/tracer.c\<close>: the ring buffer of recent instructions, the
  trace of instructions, memory and devices, the table of functions read from an ELF file
  and the trace of calls and returns.

  \<open>trace_out\<close> records the calls of \<open>printf\<close>; the disassembler (LLVM) is a parameter.
  The ELF file is its list of bytes.
\<close>

datatype trace_event =
    Ring_header
  | Ring_row bool string
  | Mem_read u32 int
  | Mem_write u32 int u32
  | Dev_read string u32 int
  | Dev_write string u32 int u32
  | Func_row u32 nat string string u32
  | Ecall_row
  | Csr_row string u32
  | Not_elf

record Symbol =
  sym_name :: string
  sym_addr :: u32
  sym_size :: u64

record tracer =
  rb_buffer :: "string list"
  rb_head :: nat
  rb_size :: nat
  symbol :: "nat \<Rightarrow> Symbol"
  func_num :: nat
  depth :: int
  trace_out :: "trace_event list"

definition trace_print :: "trace_event \<Rightarrow> tracer \<Rightarrow> tracer" where
  "trace_print e t = t\<lparr>trace_out := trace_out t @ [e]\<rparr>"

subsection \<open>The ring buffer\<close>

definition MAX_SIZE_RING_BUFFER :: nat where
  "MAX_SIZE_RING_BUFFER = 16"

definition LOGBUF :: nat where
  "LOGBUF = 128"

definition init_tracer :: tracer where
  "init_tracer = \<lparr>rb_buffer = replicate MAX_SIZE_RING_BUFFER [], rb_head = 0, rb_size = 0,
     symbol = (\<lambda>_. \<lparr>sym_name = [], sym_addr = 0, sym_size = 0\<rparr>), func_num = 0, depth = 1, trace_out = []\<rparr>"

text \<open>The loop of \<open>print_ring_buffer\<close> with \<open>n\<close> rounds to go.\<close>

fun print_ring_loop :: "nat \<Rightarrow> nat \<Rightarrow> tracer \<Rightarrow> tracer" where
  "print_ring_loop 0 index t = t"
| "print_ring_loop (Suc n) index t =
     (let i = (index + MAX_SIZE_RING_BUFFER - 1) mod MAX_SIZE_RING_BUFFER in
      print_ring_loop n i (trace_print (Ring_row (i = 0) (rb_buffer t ! i)) t))"

definition print_ring_buffer :: "tracer \<Rightarrow> tracer" where
  "print_ring_buffer t = print_ring_loop (rb_size t) (rb_head t) (trace_print Ring_header t)"

text \<open>\<open>snprintf\<close> cuts the line to the size of a slot, less the terminating NUL.\<close>

definition write_ring_buffer :: "string \<Rightarrow> tracer \<Rightarrow> tracer" where
  "write_ring_buffer logbuf t =
     t\<lparr>rb_buffer := (rb_buffer t)[rb_head t := take (LOGBUF - 1) logbuf],
       rb_head := (rb_head t + 1) mod MAX_SIZE_RING_BUFFER,
       rb_size := (if rb_size t < MAX_SIZE_RING_BUFFER then rb_size t + 1 else rb_size t)\<rparr>"

subsection \<open>The trace of instructions\<close>

definition hex_digit :: "nat \<Rightarrow> char" where
  "hex_digit n = ''0123456789abcdef'' ! n"

text \<open>\<open>n\<close> hexadecimal digits, the most significant first.\<close>

fun hex_str :: "nat \<Rightarrow> nat \<Rightarrow> string" where
  "hex_str 0 v = []"
| "hex_str (Suc n) v = hex_str n (v div 16) @ [hex_digit (v mod 16)]"

definition FMT_WORD :: "u32 \<Rightarrow> string" where
  "FMT_WORD w = ''0x'' @ hex_str 8 (unat w)"

text \<open>The instruction is four bytes long (\<open>snpc - pc\<close>).  \<open>disassemble\<close> gets the room
  left in \<open>logbuf\<close>.\<close>

definition inst_trace :: "(nat \<Rightarrow> u32 \<Rightarrow> u32 \<Rightarrow> string) \<Rightarrow> Decode \<Rightarrow> tracer \<Rightarrow> string \<times> tracer" where
  "inst_trace disassemble d t =
     (let ilen = sint (d_snpc d - d_pc d);
          p = FMT_WORD (d_pc d) @ '':'' @
              concat (map (\<lambda>i. '' '' @ hex_str 2 (unat (byte_of (d_inst d) i))) (rev [0..<nat ilen]));
          space_len = 3 * nat (4 - ilen + 1);
          q = p @ replicate space_len CHR '' '';
          logbuf = q @ disassemble (LOGBUF - length q) (d_pc d) (d_inst d)
      in (logbuf, write_ring_buffer logbuf t))"

subsection \<open>Memory and devices\<close>

definition mem_read_trace :: "u32 \<Rightarrow> int \<Rightarrow> tracer \<Rightarrow> tracer" where
  "mem_read_trace a len t = trace_print (Mem_read a len) t"

definition mem_write_trace :: "u32 \<Rightarrow> int \<Rightarrow> u32 \<Rightarrow> tracer \<Rightarrow> tracer" where
  "mem_write_trace a len data t = trace_print (Mem_write a len data) t"

definition device_read_trace :: "u32 \<Rightarrow> int \<Rightarrow> string \<Rightarrow> tracer \<Rightarrow> tracer" where
  "device_read_trace a len nm t = trace_print (Dev_read nm a len) t"

definition device_write_trace :: "u32 \<Rightarrow> int \<Rightarrow> u32 \<Rightarrow> string \<Rightarrow> tracer \<Rightarrow> tracer" where
  "device_write_trace a len data nm t = trace_print (Dev_write nm a len data) t"

definition exception_trace :: "cpu_state \<Rightarrow> tracer \<Rightarrow> tracer" where
  "exception_trace r t =
     t\<lparr>trace_out := trace_out t @
        [Ecall_row, Csr_row ''mstatus'' (csr r ! mstatus), Csr_row ''mtvec'' (csr r ! mtvec),
         Csr_row ''mepc'' (csr r ! mepc), Csr_row ''mcause'' (csr r ! mcause)]\<rparr>"

subsection \<open>Calls and returns\<close>

fun find_func_from :: "Symbol list \<Rightarrow> nat \<Rightarrow> u32 \<Rightarrow> int" where
  "find_func_from [] i a = -1"
| "find_func_from (f # fs) i a =
     (if a \<ge> sym_addr f \<and> (ucast a :: u64) < ucast (sym_addr f) + sym_size f then int i
      else find_func_from fs (i + 1) a)"

definition find_func :: "u32 \<Rightarrow> tracer \<Rightarrow> int" where
  "find_func a t = find_func_from (map (symbol t) [0..<func_num t]) 0 a"

definition print_trace :: "u32 \<Rightarrow> int \<Rightarrow> string \<Rightarrow> tracer \<Rightarrow> tracer" where
  "print_trace addr_curr func_index type t =
     (let f = symbol t (nat func_index) in
      trace_print (Func_row addr_curr (nat (depth t)) type (sym_name f) (sym_addr f)) t)"

definition func_call_trace :: "u32 \<Rightarrow> u32 \<Rightarrow> tracer \<Rightarrow> tracer" where
  "func_call_trace addr_curr addr_func t =
     (let func_index = find_func addr_func t in
      if func_index = -1 then t
      else (let t1 = print_trace addr_curr func_index ''call'' t in t1\<lparr>depth := depth t1 + 1\<rparr>))"

definition func_ret_trace :: "u32 \<Rightarrow> tracer \<Rightarrow> tracer" where
  "func_ret_trace addr_curr t =
     (let func_index = find_func addr_curr t in
      if func_index = -1 then t
      else print_trace addr_curr func_index ''ret'' (t\<lparr>depth := depth t - 1\<rparr>))"

text \<open>What \<open>jal\<close> and \<open>jalr\<close> call; \<open>src1\<close> is \<open>NULL\<close> for \<open>jal\<close>.\<close>

definition func_trace_check :: "cpu_state \<Rightarrow> nat \<Rightarrow> u32 \<Rightarrow> u32 \<Rightarrow> u32 option \<Rightarrow> tracer \<Rightarrow> tracer" where
  "func_trace_check r rd addr_curr addr_func src1 t =
     (if rd = 1 then func_call_trace addr_curr addr_func t
      else if rd = 0 \<and> src1 \<noteq> None \<and> the src1 = gpr r ! 1 then func_ret_trace addr_curr t
      else t)"

subsection \<open>Reading the functions of an ELF file\<close>

definition file_u8 :: "byte list \<Rightarrow> nat \<Rightarrow> nat" where
  "file_u8 f i = unat (f ! i)"

definition file_u16 :: "byte list \<Rightarrow> nat \<Rightarrow> nat" where
  "file_u16 f i = file_u8 f i + 256 * file_u8 f (i + 1)"

definition file_u32 :: "byte list \<Rightarrow> nat \<Rightarrow> nat" where
  "file_u32 f i = file_u16 f i + 65536 * file_u16 f (i + 2)"

text \<open>\<open>fread\<close> of \<open>n\<close> items of \<open>sz\<close> bytes at the offset \<open>off\<close>: the number of whole
  items; and \<open>check_read\<close>, which exits on a short read.\<close>

definition fread_items :: "byte list \<Rightarrow> nat \<Rightarrow> nat \<Rightarrow> nat \<Rightarrow> nat" where
  "fread_items f off sz n = (if sz = 0 then 0 else min n ((length f - off) div sz))"

definition check_read :: "nat \<Rightarrow> nat \<Rightarrow> unit res" where
  "check_read n sz = assert_res (Exit 1) (\<not> n < sz)"

definition SHT_SYMTAB :: nat where "SHT_SYMTAB = 2"
definition SHT_STRTAB :: nat where "SHT_STRTAB = 3"
definition STT_FUNC :: nat where "STT_FUNC = 2"

text \<open>The section headers are 40 bytes long, the symbols 16.\<close>

definition find_section :: "byte list \<Rightarrow> nat \<Rightarrow> nat \<Rightarrow> nat \<Rightarrow> nat option" where
  "find_section f shoff shnum type =
     find (\<lambda>h. file_u32 f (h + 4) = type) (map (\<lambda>i. shoff + 40 * i) [0..<shnum])"

text \<open>\<open>strncpy(dst, string_table + off, 31)\<close>.\<close>

definition copy_name :: "byte list option \<Rightarrow> nat \<Rightarrow> string res" where
  "copy_name tab off =
     (case tab of None \<Rightarrow> Inl Null_deref
      | Some bs \<Rightarrow>
          (let str = take 31 (drop off bs) in
           bind_res (assert_res Out_of_bounds (0 \<in> set str \<or> length str = 31)) (\<lambda>_.
           Inr (map (\<lambda>b. char_of (unat b)) (takeWhile (\<lambda>b. b \<noteq> 0) str)))))"

text \<open>The loop over the symbols with \<open>n\<close> rounds to go; the array has room for \<open>cap\<close>
  functions.\<close>

fun read_symbols ::
  "byte list \<Rightarrow> byte list option \<Rightarrow> nat \<Rightarrow> nat \<Rightarrow> nat \<Rightarrow> tracer \<Rightarrow> tracer res" where
  "read_symbols f tab cap off 0 t = Inr t"
| "read_symbols f tab cap off (Suc n) t =
     (if file_u8 f (off + 12) mod 16 = STT_FUNC then
        bind_res (copy_name tab (file_u32 f off)) (\<lambda>nm.
        bind_res (assert_res Out_of_bounds (func_num t < cap)) (\<lambda>_.
        read_symbols f tab cap (off + 16) n
          (t\<lparr>symbol := (symbol t)(func_num t := \<lparr>sym_name = nm, sym_addr = of_nat (file_u32 f (off + 4)),
                                    sym_size = of_nat (file_u32 f (off + 8))\<rparr>),
             func_num := func_num t + 1\<rparr>)))
      else read_symbols f tab cap (off + 16) n t)"

text \<open>\<open>parse_elf\<close> on a file: \<open>None\<close> when no path was given or the file cannot be
  opened.  Symbols of another size than \<open>Elf32_Sym\<close> overrun the array or leave parts of
  it unset.\<close>

definition parse_elf :: "byte list option \<Rightarrow> tracer \<Rightarrow> tracer res" where
  "parse_elf elf_file t =
     (case elf_file of
        None \<Rightarrow> Inr t
      | Some f \<Rightarrow>
        bind_res (check_read (fread_items f 0 52 1) 1) (\<lambda>_.
        if \<not> (file_u8 f 0 = 0x7f \<and> file_u8 f 1 = 0x45 \<and> file_u8 f 2 = 0x4c \<and> file_u8 f 3 = 0x46)
        then Inr (trace_print Not_elf t)
        else
          (let shoff = file_u32 f 32; shnum = file_u16 f 48 in
           bind_res (check_read (fread_items f shoff 40 shnum) shnum) (\<lambda>_.
           bind_res
             (case find_section f shoff shnum SHT_STRTAB of
                None \<Rightarrow> Inr None
              | Some h \<Rightarrow>
                  (let off = file_u32 f (h + 16); sz = file_u32 f (h + 20) in
                   bind_res (check_read (fread_items f off sz 1) 1) (\<lambda>_.
                   Inr (Some (take sz (drop off f))))))
             (\<lambda>tab.
             case find_section f shoff shnum SHT_SYMTAB of
               None \<Rightarrow> Inr t
             | Some h \<Rightarrow>
                 (let off = file_u32 f (h + 16); sz = file_u32 f (h + 20); ent = file_u32 f (h + 36) in
                  bind_res (assert_res Div_trap (ent \<noteq> 0)) (\<lambda>_.
                  let n = sz div ent in
                  bind_res (check_read (fread_items f off ent n) n) (\<lambda>_.
                  bind_res (assert_res Out_of_bounds (ent = 16 \<or> n = 0)) (\<lambda>_.
                  read_symbols f tab n off n t)))))))))"

end
