(* ===== verification/Tracer_Facts.thy ===== *)
theory Tracer_Facts
  imports Tracer
begin

text \<open>
  Facts on the tracers: the ring buffer keeps the most recent lines, and the trace of calls
  finds functions by their address ranges and keeps calls and returns at one level.
\<close>

subsection \<open>The ring buffer\<close>

text \<open>The buffer after the lines \<open>ls\<close>.\<close>

definition rb_holds :: "string list \<Rightarrow> tracer \<Rightarrow> bool" where
  "rb_holds ls t \<longleftrightarrow>
     length (rb_buffer t) = MAX_SIZE_RING_BUFFER \<and> rb_head t = length ls mod MAX_SIZE_RING_BUFFER \<and>
     rb_size t = min MAX_SIZE_RING_BUFFER (length ls) \<and>
     (\<forall>k. length ls \<le> k + MAX_SIZE_RING_BUFFER \<longrightarrow> k < length ls \<longrightarrow>
        rb_buffer t ! (k mod MAX_SIZE_RING_BUFFER) = take (LOGBUF - 1) (ls ! k))"

lemma rb_holds_init: "rb_holds [] init_tracer"
  by (simp add: rb_holds_def init_tracer_def MAX_SIZE_RING_BUFFER_def)

lemma mod_window:
  fixes k m n :: nat
  assumes "k mod n = m mod n" and "m < k + n" and "k < m" and "0 < n"
  shows False
proof -
  have "n dvd m - k" using assms(1,3) mod_eq_dvd_iff_nat [of k m n] by (simp add: eq_commute)
  then have "n \<le> m - k" using assms(3) by (intro dvd_imp_le) simp_all
  then show False using assms(2,3) by linarith
qed

lemma write_ring_buffer_holds:
  assumes "rb_holds ls t"
  shows "rb_holds (ls @ [l]) (write_ring_buffer l t)"
proof -
  let ?n = MAX_SIZE_RING_BUFFER
  have n: "0 < ?n" by (simp add: MAX_SIZE_RING_BUFFER_def)
  have "rb_buffer (write_ring_buffer l t) ! (k mod ?n) = take (LOGBUF - 1) ((ls @ [l]) ! k)"
    if k: "Suc (length ls) \<le> k + ?n" "k < Suc (length ls)" for k
  proof (cases "k = length ls")
    case True
    then show ?thesis using assms n by (simp add: rb_holds_def write_ring_buffer_def)
  next
    case False
    then have "k mod ?n \<noteq> length ls mod ?n" using mod_window [of k ?n "length ls"] k n by auto
    then show ?thesis
      using assms k False by (auto simp: rb_holds_def write_ring_buffer_def nth_append)
  qed
  then show ?thesis
    using assms by (auto simp: rb_holds_def write_ring_buffer_def mod_Suc_eq)
qed

lemma fold_write_holds: "rb_holds ls t \<Longrightarrow> rb_holds (ls @ ms) (fold write_ring_buffer ms t)"
proof (induction ms arbitrary: ls t)
  case (Cons m ms)
  from Cons.IH [OF write_ring_buffer_holds [OF Cons.prems], of m] show ?case by simp
qed simp

lemma print_ring_loop_rows:
  assumes "\<forall>k. m \<le> k + n \<longrightarrow> k < m \<longrightarrow> rb_buffer t ! (k mod MAX_SIZE_RING_BUFFER) = g k" and "n \<le> m"
  shows "print_ring_loop n (m mod MAX_SIZE_RING_BUFFER) t = t\<lparr>trace_out := trace_out t @
    map (\<lambda>i. Ring_row ((m - 1 - i) mod MAX_SIZE_RING_BUFFER = 0) (g (m - 1 - i))) [0..<n]\<rparr>"
  using assms
proof (induction n arbitrary: m t)
  case (Suc n)
  then obtain m' where m: "m = Suc m'" by (cases m) auto
  let ?i = "m' mod MAX_SIZE_RING_BUFFER"
  have "(Suc m' mod 16 + 15) mod 16 = (Suc m' + 15) mod 16" by (rule mod_add_left_eq)
  also have "\<dots> = m' mod 16" using mod_add_self2 [of m' 16] by simp
  finally have i: "(m mod MAX_SIZE_RING_BUFFER + MAX_SIZE_RING_BUFFER - 1) mod MAX_SIZE_RING_BUFFER = ?i"
    by (simp add: m MAX_SIZE_RING_BUFFER_def add.commute)
  have g: "rb_buffer t ! ?i = g m'" using Suc.prems(1) m by simp
  have IH: "print_ring_loop n ?i (trace_print (Ring_row (?i = 0) (g m')) t) =
      (trace_print (Ring_row (?i = 0) (g m')) t)\<lparr>trace_out := trace_out (trace_print (Ring_row (?i = 0) (g m')) t) @
      map (\<lambda>i. Ring_row ((m' - 1 - i) mod MAX_SIZE_RING_BUFFER = 0) (g (m' - 1 - i))) [0..<n]\<rparr>"
    by (rule Suc.IH) (use Suc.prems m in \<open>auto simp: trace_print_def\<close>)
  have "[0..<Suc n] = 0 # map Suc [0..<n]" by (simp add: upt_conv_Cons map_Suc_upt del: upt_Suc)
  then show ?case
    using IH i g m by (simp add: Let_def trace_print_def comp_def del: upt_Suc)
qed simp

text \<open>C22: After any sequence of lines the ring buffer prints the most recent sixteen, newest first,
  each cut to 127 characters.  The arrow stands on the line in slot 0, which is the newest
  only when the number of lines is one more than a multiple of sixteen.\<close>

theorem ring_buffer_window:
  "trace_out (print_ring_buffer (fold write_ring_buffer ls init_tracer)) =
     Ring_header # map (\<lambda>i. Ring_row ((length ls - 1 - i) mod MAX_SIZE_RING_BUFFER = 0)
                               (take (LOGBUF - 1) (rev ls ! i)))
                     [0..<min MAX_SIZE_RING_BUFFER (length ls)]"
proof -
  let ?t = "fold write_ring_buffer ls init_tracer" and ?n = "min MAX_SIZE_RING_BUFFER (length ls)"
  have h: "rb_holds ls ?t" using fold_write_holds [OF rb_holds_init, of ls] by simp
  have o: "trace_out ?t = []"
  proof -
    have "trace_out (fold write_ring_buffer ls t) = trace_out t" for t
      by (induction ls arbitrary: t) (simp_all add: write_ring_buffer_def)
    then show ?thesis by (simp add: init_tracer_def)
  qed
  have "print_ring_loop ?n (length ls mod MAX_SIZE_RING_BUFFER) (trace_print Ring_header ?t) =
      (trace_print Ring_header ?t)\<lparr>trace_out := trace_out (trace_print Ring_header ?t) @
       map (\<lambda>i. Ring_row ((length ls - 1 - i) mod MAX_SIZE_RING_BUFFER = 0)
          (take (LOGBUF - 1) (ls ! (length ls - 1 - i)))) [0..<?n]\<rparr>"
    by (rule print_ring_loop_rows) (use h in \<open>auto simp: rb_holds_def trace_print_def\<close>)
  then show ?thesis
    using h o by (auto simp: print_ring_buffer_def trace_print_def rb_holds_def rev_nth)
qed

subsection \<open>Calls and returns\<close>

definition in_func :: "u32 \<Rightarrow> Symbol \<Rightarrow> bool" where
  "in_func a f \<longleftrightarrow> uint (sym_addr f) \<le> uint a \<and> uint a < uint (sym_addr f) + uint (sym_size f)"

definition funcs :: "tracer \<Rightarrow> Symbol list" where
  "funcs t = map (symbol t) [0..<func_num t]"

text \<open>The sizes come from 32-bit fields, so that the end of a function does not wrap in 64
  bits.\<close>

definition sizes_ok :: "tracer \<Rightarrow> bool" where
  "sizes_ok t \<longleftrightarrow> (\<forall>f\<in>set (funcs t). uint (sym_size f) < 2 ^ 32)"

lemma in_func_word:
  assumes "uint (sym_size f) < 2 ^ 32"
  shows "a \<ge> sym_addr f \<and> (ucast a :: u64) < ucast (sym_addr f) + sym_size f \<longleftrightarrow> in_func a f"
proof -
  have u: "uint (ucast w :: u64) = uint w" for w :: u32
    by (simp add: unsigned_ucast_eq take_bit_int_eq_self order_less_trans [OF uint_lt2p])
  have "uint (sym_addr f) < 2 ^ 32" using uint_lt2p [of "sym_addr f"] by simp
  then have "uint ((ucast (sym_addr f) :: u64) + sym_size f) = uint (sym_addr f) + uint (sym_size f)"
    using assms by (simp add: uint_word_ariths u)
  then show ?thesis by (simp add: in_func_def word_le_def word_less_def u)
qed

lemma find_func_from_spec:
  assumes "\<forall>f\<in>set fs. uint (sym_size f) < 2 ^ 32"
  shows "find_func_from fs i a =
    (case find (\<lambda>j. in_func a (fs ! j)) [0..<length fs] of None \<Rightarrow> -1 | Some j \<Rightarrow> int (i + j))"
  using assms
proof (induction fs arbitrary: i)
  case (Cons f fs)
  have e: "find (\<lambda>j. in_func a ((f # fs) ! j)) (map Suc [0..<length fs]) =
      map_option Suc (find (\<lambda>j. in_func a (fs ! j)) [0..<length fs])"
  proof -
    have "find P (map Suc xs) = map_option Suc (find (\<lambda>j. P (Suc j)) xs)" for P xs
      by (induction xs) auto
    then show ?thesis by simp
  qed
  have "[0..<length (f # fs)] = 0 # map Suc [0..<length fs]"
    by (simp add: upt_conv_Cons map_Suc_upt del: upt_Suc)
  then show ?case
    using Cons in_func_word [of f a] e by (auto simp del: upt_Suc split: option.splits)
qed simp

text \<open>The function an address is attributed to is the first of the table whose range holds it.
  A call and the matching return from inside the callee print two rows at the same level and
  restore the depth.\<close>

theorem call_return_level:
  assumes "sizes_ok t" and "0 \<le> depth t" and "find_func fa t = int j" and "in_func ra (symbol t j)"
    and "\<forall>i < j. \<not> in_func ra (symbol t i)"
  shows "j < func_num t \<and> in_func fa (symbol t j) \<and> (\<forall>i < j. \<not> in_func fa (symbol t i)) \<and>
    func_ret_trace ra (func_call_trace ca fa t) =
      t\<lparr>trace_out := trace_out t @
         [Func_row ca (nat (depth t)) ''call'' (sym_name (symbol t j)) (sym_addr (symbol t j)),
          Func_row ra (nat (depth t)) ''ret'' (sym_name (symbol t j)) (sym_addr (symbol t j))]\<rparr>"
proof -
  have spec: "find_func a t =
      (case find (\<lambda>i. in_func a (symbol t i)) [0..<func_num t] of None \<Rightarrow> -1 | Some i \<Rightarrow> int i)" for a
  proof -
    have "find (\<lambda>i. in_func a (funcs t ! i)) [0..<func_num t] = find (\<lambda>i. in_func a (symbol t i)) [0..<func_num t]"
      by (rule find_cong) (auto simp: funcs_def)
    then show ?thesis
      using find_func_from_spec [of "funcs t" 0 a] assms(1)
      by (simp add: find_func_def sizes_ok_def funcs_def cong: option.case_cong)
  qed
  have fa: "find (\<lambda>i. in_func fa (symbol t i)) [0..<func_num t] = Some j"
    using assms(3) spec [of fa] by (auto split: option.splits)
  then have j: "j < func_num t" "in_func fa (symbol t j)" "\<forall>i < j. \<not> in_func fa (symbol t i)"
    by (auto simp: find_Some_iff)
  have "find (\<lambda>i. in_func ra (symbol t i)) [0..<func_num t] = Some j"
    using j(1) assms(4,5) by (auto simp: find_Some_iff intro!: exI [of _ j])
  then have ra: "find_func ra t = int j" using spec [of ra] by simp
  have "find_func ra (func_call_trace ca fa t) = find_func ra t"
    by (simp add: func_call_trace_def print_trace_def trace_print_def Let_def find_func_def)
  then show ?thesis
    using j ra assms(2,3)
    by (simp add: func_ret_trace_def func_call_trace_def print_trace_def trace_print_def Let_def)
qed

definition demo_funcs :: tracer where
  "demo_funcs = init_tracer\<lparr>symbol := (\<lambda>i. \<lparr>sym_name = ''f'', sym_addr = 0x80000100, sym_size = 16\<rparr>), func_num := 1\<rparr>"

theorem call_return_level_witness:
  "depth (func_ret_trace 0x8000010c (func_call_trace 0x80000000 0x80000100 demo_funcs)) = 1"
proof -
  have "find_func 0x80000100 demo_funcs = int 0" by (simp add: find_func_def demo_funcs_def)
  moreover have "sizes_ok demo_funcs" by (simp add: sizes_ok_def funcs_def demo_funcs_def)
  ultimately show ?thesis
    using call_return_level [of demo_funcs "0x80000100" 0 "0x8000010c" "0x80000000"]
    by (simp add: in_func_def demo_funcs_def init_tracer_def)
qed

end
