(* ===== verification/Monitor.thy ===== *)
theory Monitor
  imports Sdb Tracer
begin

text \<open>
  Starting the emulator: \<open>nemu/src/monitor/monitor.c\<close>, \<open>nemu/src/utils/log.c\<close>,
  \<open>nemu/src/engine/interpreter/init.c\<close> and \<open>nemu/src/nemu-main.c\<close>.

  The host gives the contents of the files it can open, what \<open>rand()\<close> returns, and the
  environment of the devices.
\<close>

record host =
  host_files :: "string \<Rightarrow> byte list option"
  host_writable :: "string \<Rightarrow> bool"
  host_rand :: u32
  host_devices :: host_env

record 'r emu = "'r sdbst" +
  trc :: tracer
  log_file :: "string option"
  elf_file :: "string option"
  diff_so_file :: "string option"
  img_file :: "string option"
  difftest_port :: int

subsection \<open>The command line\<close>

text \<open>What \<open>getopt_long\<close> returns with the options of the source: an option without
  argument, one with its argument, an argument that is no option (the leading \<open>-\<close> of the
  option string asks for them in order), or \<open>?\<close>.\<close>

datatype opt = Opt char | Opt_arg char string | Non_option string | Opt_bad

definition long_options :: "(string \<times> bool \<times> char) list" where
  "long_options =
     [(''batch'', False, CHR ''b''), (''log'', True, CHR ''l''), (''elf'', True, CHR ''e''),
      (''diff'', True, CHR ''d''), (''port'', True, CHR ''p''), (''help'', False, CHR ''h'')]"

text \<open>A long option may be abbreviated as long as it stays unique.\<close>

definition find_long :: "string \<Rightarrow> (bool \<times> char) option" where
  "find_long nm =
     (case map_of long_options nm of
        Some o' \<Rightarrow> Some o'
      | None \<Rightarrow>
          (case filter (\<lambda>e. take (length nm) (fst e) = nm) long_options of
             [e] \<Rightarrow> Some (snd e)
           | _ \<Rightarrow> None))"

text \<open>A group of short options; the arguments after it, and what is left of them.\<close>

fun short_opts :: "string \<Rightarrow> string list \<Rightarrow> opt list \<times> string list" where
  "short_opts [] av = ([], av)"
| "short_opts (ch # cs) av =
     (if ch = CHR ''b'' \<or> ch = CHR ''h'' then
        (case short_opts cs av of (os, av') \<Rightarrow> (Opt ch # os, av'))
      else if ch = CHR ''l'' \<or> ch = CHR ''e'' \<or> ch = CHR ''d'' \<or> ch = CHR ''p'' then
        (if cs \<noteq> [] then ([Opt_arg ch cs], av)
         else case av of [] \<Rightarrow> ([Opt_bad], []) | a # av' \<Rightarrow> ([Opt_arg ch a], av'))
      else (case short_opts cs av of (os, av') \<Rightarrow> (Opt_bad # os, av')))"

definition long_opt :: "string \<Rightarrow> string list \<Rightarrow> opt list \<times> string list" where
  "long_opt str av =
     (let nm = takeWhile (\<lambda>ch. ch \<noteq> CHR ''='') str; rest = dropWhile (\<lambda>ch. ch \<noteq> CHR ''='') str in
      case find_long nm of
        None \<Rightarrow> ([Opt_bad], av)
      | Some (False, ch) \<Rightarrow> ([if rest = [] then Opt ch else Opt_bad], av)
      | Some (True, ch) \<Rightarrow>
          (if rest \<noteq> [] then ([Opt_arg ch (tl rest)], av)
           else case av of [] \<Rightarrow> ([Opt_bad], []) | a # av' \<Rightarrow> ([Opt_arg ch a], av')))"

lemma short_opts_shorter: "short_opts cs av = (os, av') \<Longrightarrow> length av' \<le> length av"
  by (induction cs av arbitrary: os av' rule: short_opts.induct)
    (auto split: prod.splits list.splits if_splits)

lemma long_opt_shorter: "long_opt str av = (os, av') \<Longrightarrow> length av' \<le> length av"
  by (auto simp: long_opt_def Let_def split: option.splits list.splits bool.splits if_splits)

function getopt_all :: "string list \<Rightarrow> opt list" where
  "getopt_all [] = []"
| "getopt_all (a # av) =
     (if a = ''--'' then map Non_option av
      else if take 2 a = ''--'' then
        (case long_opt (drop 2 a) av of (os, av') \<Rightarrow> os @ getopt_all av')
      else if take 1 a = ''-'' \<and> a \<noteq> ''-'' then
        (case short_opts (drop 1 a) av of (os, av') \<Rightarrow> os @ getopt_all av')
      else Non_option a # getopt_all av)"
  by pat_completeness auto
termination
  by (relation "measure length") (auto dest!: short_opts_shorter [OF sym] long_opt_shorter [OF sym])

declare getopt_all.simps [simp del]

text \<open>\<open>sscanf(optarg, ''%d'', \<dots>)\<close>: no digits leave the variable as it was.\<close>

definition scan_int :: "string \<Rightarrow> int \<Rightarrow> int" where
  "scan_int str old =
     (let s1 = dropWhile is_space str;
          s2 = (case s1 of ch # cs \<Rightarrow> if ch = CHR ''-'' \<or> ch = CHR ''+'' then cs else s1 | [] \<Rightarrow> [])
      in if s2 = [] \<or> \<not> is_digit (hd s2) then old else sint (atoi_c str))"

fun parse_opts :: "opt list \<Rightarrow> ('r, 'a) emu_scheme \<Rightarrow> ('r, 'a) emu_scheme res" where
  "parse_opts [] s = Inr s"
| "parse_opts (o' # os) s =
     (case o' of
        Opt ch \<Rightarrow>
          if ch = CHR ''b'' then parse_opts os (s\<lparr>is_batch_mode := True\<rparr>) else Inl (Exit 0)
      | Opt_arg ch a \<Rightarrow>
          if ch = CHR ''p'' then parse_opts os (s\<lparr>difftest_port := scan_int a (difftest_port s)\<rparr>)
          else if ch = CHR ''l'' then parse_opts os (s\<lparr>log_file := Some a\<rparr>)
          else if ch = CHR ''e'' then parse_opts os (s\<lparr>elf_file := Some a\<rparr>)
          else if ch = CHR ''d'' then parse_opts os (s\<lparr>diff_so_file := Some a\<rparr>)
          else Inl (Exit 0)
      | Non_option a \<Rightarrow> Inr (s\<lparr>img_file := Some a\<rparr>)
      | Opt_bad \<Rightarrow> Inl (Exit 0))"

definition parse_args :: "string list \<Rightarrow> ('r, 'a) emu_scheme \<Rightarrow> ('r, 'a) emu_scheme res" where
  "parse_args argv s = parse_opts (getopt_all (tl argv)) s"

subsection \<open>Initialisation\<close>

definition init_log :: "host \<Rightarrow> string option \<Rightarrow> 'a wpst_scheme \<Rightarrow> 'a wpst_scheme res" where
  "init_log h lf s =
     bind_res (assert_res (Panic ''Can not open log file'')
                 (case lf of None \<Rightarrow> True | Some f \<Rightarrow> host_writable h f)) (\<lambda>_.
     Inr (print (Text (''Log is written to '' @ (case lf of None \<Rightarrow> ''stdout'' | Some f \<Rightarrow> f))) s))"

text \<open>\<open>CONFIG_MEM_RANDOM\<close> fills the memory with one random byte.\<close>

definition init_mem :: "config \<Rightarrow> bool \<Rightarrow> host \<Rightarrow> 'a mem_scheme \<Rightarrow> 'a mem_scheme" where
  "init_mem c random h s =
     (if random
      then s\<lparr>pmem := (\<lambda>x. if 0 \<le> x \<and> x < uint (CONFIG_MSIZE c) then ucast (host_rand h) else pmem s x)\<rparr>
      else s)"

definition load_img :: "config \<Rightarrow> host \<Rightarrow> ('r, 'a) emu_scheme \<Rightarrow> (int \<times> ('r, 'a) emu_scheme) res" where
  "load_img c h s =
     (case img_file s of
        None \<Rightarrow> Inr (4096, print (Text ''No image is given. Use the default build-in image.'') s)
      | Some f \<Rightarrow>
          (case host_files h f of
             None \<Rightarrow> Inl (Panic ''Can not open image'')
           | Some bs \<Rightarrow>
               (let sz = length bs; a = guest_to_host c (RESET_VECTOR c) in
                bind_res (assert_res Out_of_bounds (in_object (uint (CONFIG_MSIZE c)) a (int sz))) (\<lambda>_.
                bind_res (assert_res Assertion (0 < sz)) (\<lambda>_.
                Inr (int sz,
                  s\<lparr>pmem := (\<lambda>x. let i = x - a in
                       if 0 \<le> i \<and> i < int sz then bs ! nat i else pmem s x)\<rparr>))))))"

definition welcome_msg :: "'a wpst_scheme \<Rightarrow> 'a wpst_scheme" where
  "welcome_msg s = print (Text ''For help, type help'') (print (Text ''Welcome to riscv32-NEMU!'') s)"

definition init_monitor ::
  "config \<Rightarrow> bool \<Rightarrow> 'r ref_design \<Rightarrow> host \<Rightarrow> string list \<Rightarrow> ('r, 'a) emu_scheme \<Rightarrow> ('r, 'a) emu_scheme res" where
  "init_monitor c random R h argv s =
     bind_res (parse_args argv s) (\<lambda>s1.
     bind_res (init_log h (log_file s1) s1) (\<lambda>s2.
     bind_res (parse_elf (Option.bind (elf_file s2) (host_files h)) (trc s2)) (\<lambda>t.
     bind_res (if CONFIG_DEVICE c then init_device c (host_devices h) (init_mem c random h (s2\<lparr>trc := t\<rparr>))
               else Inr (init_mem c random h (s2\<lparr>trc := t\<rparr>))) (\<lambda>s3.
     bind_res (init_isa c s3) (\<lambda>s4.
     bind_res (load_img c h s4) (\<lambda>(img_size, s5).
     bind_res (init_difftest c R (diff_so_file s5) img_size (difftest_port s5) s5) (\<lambda>s6.
     Inr (welcome_msg (init_sdb s6)))))))))"

subsection \<open>main\<close>

definition engine_start :: "config \<Rightarrow> 'r ref_design \<Rightarrow> ('r, 'a) sdbst_scheme \<Rightarrow> ('r, 'a) sdbst_scheme res" where
  "engine_start c R s = sdb_mainloop c R s"

definition nemu_main ::
  "config \<Rightarrow> bool \<Rightarrow> 'r ref_design \<Rightarrow> host \<Rightarrow> string list \<Rightarrow> ('r, 'a) emu_scheme \<Rightarrow>
   (int \<times> ('r, 'a) emu_scheme) res" where
  "nemu_main c random R h argv s =
     bind_res (init_monitor c random R h argv s) (\<lambda>s1.
     bind_res (engine_start c R s1) (\<lambda>s2.
     Inr (if is_exit_status_bad s2 then 1 else 0, s2)))"

end
