(* ===== verification/Monitor_Facts.thy ===== *)
theory Monitor_Facts
  imports Monitor Sdb_Facts
begin

text \<open>
  Facts on starting the emulator: the state the monitor sets up, and a whole run from
  \<open>main\<close> to the exit status.
\<close>

subsection \<open>Frames\<close>

lemma new_space_frame: "new_space n s = Inr (p, s') \<Longrightarrow> \<exists>x. s' = s\<lparr>p_space := x\<rparr>"
  by (auto simp: new_space_def Let_def bind_res_eq_Inr_iff)

lemma add_mmio_map_frame:
  "add_mmio_map c nm a p len h s = Inr s' \<Longrightarrow> \<exists>x. s' = s\<lparr>mmio_maps := x\<rparr>"
  by (auto simp: add_mmio_map_def Let_def bind_res_eq_Inr_iff split: if_splits)

lemmas init_frames = new_space_frame add_mmio_map_frame io_set32_frame

text \<open>The devices leave the rest of the machine and its run state alone.\<close>

definition rest_same :: "'a dev_scheme \<Rightarrow> 'a dev_scheme \<Rightarrow> bool" where
  "rest_same s s' \<longleftrightarrow> dev.more s' = dev.more s \<and> nemu_state s' = nemu_state s"

lemma init_serial_rest: "init_serial c s = Inr s' \<Longrightarrow> rest_same s s'"
  by (auto simp: rest_same_def init_serial_def bind_res_eq_Inr_iff dest!: init_frames)

lemma init_timer_rest: "init_timer c s = Inr s' \<Longrightarrow> rest_same s s'"
  by (auto simp: rest_same_def init_timer_def add_alarm_handle_def bind_res_eq_Inr_iff dest!: init_frames)

lemma init_vga_rest: "init_vga c s = Inr s' \<Longrightarrow> rest_same s s'"
  by (auto simp: rest_same_def init_vga_def bind_res_eq_Inr_iff split: if_splits dest!: init_frames)

lemma init_i8042_rest: "init_i8042 c sc s = Inr s' \<Longrightarrow> rest_same s s'"
  by (auto simp: rest_same_def init_i8042_def init_keymap_def bind_res_eq_Inr_iff dest!: init_frames)

lemma init_audio_rest: "init_audio c s = Inr s' \<Longrightarrow> rest_same s s'"
  by (auto simp: rest_same_def init_audio_def Let_def bind_res_eq_Inr_iff dest!: init_frames)

lemma init_sdcard_rest: "init_sdcard c im s = Inr s' \<Longrightarrow> rest_same s s'"
  by (auto simp: rest_same_def init_sdcard_def bind_res_eq_Inr_iff dest!: init_frames)

lemma init_if_rest:
  "init_if b f s = Inr s' \<Longrightarrow> (f s = Inr s' \<Longrightarrow> rest_same s s') \<Longrightarrow> rest_same s s'"
  by (auto simp: init_if_def rest_same_def split: if_splits)

lemma init_device_rest:
  assumes "init_device c env s = Inr s'"
  shows "rest_same s s'"
proof -
  obtain s1 s2 s3 s4 s5 where
    i: "init_if (CONFIG_HAS_SERIAL c) (init_serial c) (init_map (fresh_io env) s) = Inr s1"
      "init_if (CONFIG_HAS_TIMER c) (init_timer c) s1 = Inr s2"
      "init_if (CONFIG_HAS_VGA c) (init_vga c) s2 = Inr s3"
      "init_if (CONFIG_HAS_KEYBOARD c) (init_i8042 c (SDL_SCANCODE env)) s3 = Inr s4"
      "init_if (CONFIG_HAS_AUDIO c) (init_audio c) s4 = Inr s5"
      "init_if (CONFIG_HAS_SDCARD c) (init_sdcard c (sd_image env)) s5 = Inr s'"
    using assms by (auto simp: init_device_def bind_res_eq_Inr_iff)
  have "rest_same s (init_map (fresh_io env) s)" by (simp add: rest_same_def init_map_def)
  then show ?thesis
    using init_if_rest [OF i(1) init_serial_rest] init_if_rest [OF i(2) init_timer_rest]
      init_if_rest [OF i(3) init_vga_rest] init_if_rest [OF i(4) init_i8042_rest]
      init_if_rest [OF i(5) init_audio_rest] init_if_rest [OF i(6) init_sdcard_rest]
    by (simp add: rest_same_def)
qed

lemma parse_opts_frame:
  "parse_opts os s = Inr s' \<Longrightarrow> cpu s' = cpu s \<and> pmem s' = pmem s \<and>
   mmio_maps s' = mmio_maps s \<and> p_space s' = p_space s \<and> nemu_state s' = nemu_state s \<and>
   g_nr_guest_inst s' = g_nr_guest_inst s"
proof (induction os arbitrary: s)
  case (Cons o' os)
  then show ?case by (cases o') (force split: if_splits)+
qed simp

text \<open>The state before \<open>main\<close>: registers of the right number, nothing mapped.\<close>

definition before_main :: "config \<Rightarrow> ('r, 'a) emu_scheme \<Rightarrow> bool" where
  "before_main c s \<longleftrightarrow> cpu_shape c (cpu s) \<and> mmio_maps s = [] \<and> io_wf s \<and>
     st_state (nemu_state s) = NEMU_STOP \<and> (CONFIG_DEVICE c \<longrightarrow> device_config_ok c)"

text \<open>The bytes of an image at the reset vector.\<close>

definition image_at :: "config \<Rightarrow> byte list \<Rightarrow> 'a mem_scheme \<Rightarrow> bool" where
  "image_at c bs s \<longleftrightarrow>
     (\<forall>i < length bs. pmem s (guest_to_host c (RESET_VECTOR c) + int i) = bs ! i)"

lemma init_isa_spec:
  assumes "init_isa c s = Inr s'" and "cpu_shape c (cpu s)"
  shows "cpu_wf c (cpu s')" "pc (cpu s') = RESET_VECTOR c" "io_wf s' = io_wf s" "nemu_state s' = nemu_state s"
    "nemu.more s' = nemu.more s" "pmem s' = copy_words img (guest_to_host c (RESET_VECTOR c)) (pmem s)"
proof -
  have s': "s' = restart c (s\<lparr>pmem := copy_words img (guest_to_host c (RESET_VECTOR c)) (pmem s)\<rparr>)"
    using assms(1) by (auto simp: init_isa_def bind_res_eq_Inr_iff)
  have "gpr (cpu s) \<noteq> []" using assms(2) by (auto simp: cpu_shape_def nr_gpr_def split: if_splits)
  then have "(gpr (cpu s))[0 := 0] ! 0 = 0" by (cases "gpr (cpu s)") simp_all
  then show "cpu_wf c (cpu s')" using assms(2) by (simp add: s' restart_def cpu_wf_def cpu_shape_def)
  show "pc (cpu s') = RESET_VECTOR c" "io_wf s' = io_wf s" "nemu_state s' = nemu_state s"
    "nemu.more s' = nemu.more s" "pmem s' = copy_words img (guest_to_host c (RESET_VECTOR c)) (pmem s)"
    by (simp_all add: s' restart_def io_wf_def)
qed

lemma load_img_spec:
  assumes "load_img c h s = Inr (n, s')"
  shows "cpu s' = cpu s" "io_wf s' = io_wf s" "nemu_state s' = nemu_state s" "img_file s' = img_file s"
    "\<forall>f bs. img_file s = Some f \<longrightarrow> host_files h f = Some bs \<longrightarrow> image_at c bs s' \<and> n = int (length bs)"
  using assms
  by (auto simp: load_img_def Let_def bind_res_eq_Inr_iff image_at_def io_wf_def print_def
      split: option.splits)

lemma init_difftest_frame:
  assumes "init_difftest c R so n port s = Inr s'"
  shows "cpu s' = cpu s \<and> pmem s' = pmem s \<and> io_wf s' = io_wf s \<and> nemu_state s' = nemu_state s"
  using assms by (auto simp: init_difftest_def Let_def bind_res_eq_Inr_iff split: if_splits)

lemma init_monitor_boot:
  fixes s :: "('r, 'a) emu_scheme"
  assumes run: "init_monitor c random R h argv s = Inr s'" and bm: "before_main c s"
  shows "machine_inv c s' \<and> pc (cpu s') = RESET_VECTOR c \<and> st_state (nemu_state s') = NEMU_STOP \<and>
    (\<forall>f bs. img_file s' = Some f \<longrightarrow> host_files h f = Some bs \<longrightarrow> image_at c bs s')"
proof -
  from run obtain s1 s2 t s3 s4 n s5 s6 where
    1: "parse_args argv s = Inr s1" and 2: "init_log h (log_file s1) s1 = Inr s2"
    and 3: "(if CONFIG_DEVICE c then init_device c (host_devices h) (init_mem c random h (s2\<lparr>trc := t\<rparr>))
               else Inr (init_mem c random h (s2\<lparr>trc := t\<rparr>))) = Inr s3"
    and 4: "init_isa c s3 = Inr s4" and 5: "load_img c h s4 = Inr (n, s5)"
    and 6: "init_difftest c R (diff_so_file s5) n (difftest_port s5) s5 = Inr s6"
    and s': "s' = welcome_msg (init_sdb s6)"
    unfolding init_monitor_def by (elim bind_resE) (auto elim!: bind_resE)
  let ?m = "init_mem c random h (s2\<lparr>trc := t\<rparr>)"
  have m: "cpu ?m = cpu s" "mmio_maps ?m = []" "io_wf ?m" "st_state (nemu_state ?m) = NEMU_STOP"
    using parse_opts_frame [OF 1 [unfolded parse_args_def]] 2 bm io_wf_update [of s1 s]
    by (auto simp: init_log_def init_mem_def before_main_def bind_res_eq_Inr_iff io_wf_def print_def)
  have m3: "cpu s3 = cpu s \<and> io_wf s3 \<and> st_state (nemu_state s3) = NEMU_STOP"
  proof (cases "CONFIG_DEVICE c")
    case True
    then have d: "init_device c (host_devices h) ?m = Inr s3" using 3 by simp
    have "device_config_ok c" using bm True by (simp add: before_main_def)
    then have "io_wf s3" by (rule init_device_io_wf [OF d m(2)])
    moreover have "cpu s3 = cpu ?m" "nemu_state s3 = nemu_state ?m"
      using init_device_rest [OF d] dev_more_sim [of s3 ?m] by (simp_all add: rest_same_def)
    ultimately show ?thesis using m by simp
  next
    case False
    then show ?thesis using 3 m by simp
  qed
  then have "cpu_shape c (cpu s3)" using bm by (simp add: before_main_def)
  note isa = init_isa_spec [OF 4 this]
  have m6: "cpu_wf c (cpu s6)" "io_wf s6" "pc (cpu s6) = RESET_VECTOR c"
      "st_state (nemu_state s6) = NEMU_STOP" "pmem s6 = pmem s5"
    using m3 isa load_img_spec(1-3) [OF 5] init_difftest_frame [OF 6] by auto
  have p: "machine_inv c (welcome_msg x) = machine_inv c x" "cpu (welcome_msg x) = cpu x"
    "nemu_state (welcome_msg x) = nemu_state x" "pmem (welcome_msg x) = pmem x" for x :: "('r, 'a) emu_scheme"
    by (simp_all add: welcome_msg_def) (simp_all add: print_def)
  have w: "wp_ok (init_sdb s6)" using init_wp_pool_inv by (auto simp: init_sdb_def wp_ok_def)
  have f: "cpu (init_sdb s6) = cpu s6" "pmem (init_sdb s6) = pmem s6" "io_wf (init_sdb s6) = io_wf s6"
    "nemu_state (init_sdb s6) = nemu_state s6" "img_file s' = img_file s6"
    by (simp_all add: init_sdb_def init_wp_pool_def io_wf_def s' welcome_msg_def print_def)
  have i: "img_file s6 = img_file s4"
    using 6 load_img_spec(4) [OF 5] by (auto simp: init_difftest_def Let_def bind_res_eq_Inr_iff split: if_splits)
  have "machine_inv c (init_sdb s6)" using m6 w f by (simp add: machine_inv_def)
  then have "machine_inv c s'" using p(1) by (simp add: s')
  moreover have "pmem s' = pmem s5" "cpu s' = cpu s6" "nemu_state s' = nemu_state s6" using p f m6(5) by (simp_all add: s')
  ultimately show ?thesis using m6 f(5) i load_img_spec(5) [OF 5] by (simp add: image_at_def)
qed

subsection \<open>Properties\<close>

text \<open>Whatever the command line, the devices and the files: when the monitor has started the
  emulator, the invariant of the machine holds, execution is stopped at the reset vector,
  and the bytes of the image that was named are in guest memory from there on.\<close>

theorem monitor_boot_state:
  assumes "init_monitor c random R h argv s = Inr s'" and "before_main c s"
  shows "machine_inv c s' \<and> pc (cpu s') = RESET_VECTOR c \<and> st_state (nemu_state s') = NEMU_STOP \<and>
    (\<forall>f bs. img_file s' = Some f \<longrightarrow> host_files h f = Some bs \<longrightarrow> image_at c bs s')"
  using assms by (rule init_monitor_boot)

definition emu_of :: "nemu \<Rightarrow> unit emu" where
  "emu_of s = sdbst.extend (sdb_of [] s) (emu.fields init_tracer None None None None 1234)"

lemma emu_of_simps [simp]:
  "cpu (emu_of s) = cpu s" "mmio_maps (emu_of s) = mmio_maps s" "p_space (emu_of s) = p_space s"
  "nemu_state (emu_of s) = nemu_state s" "img_file (emu_of s) = None" "log_file (emu_of s) = None"
  "elf_file (emu_of s) = None" "diff_so_file (emu_of s) = None" "trc (emu_of s) = init_tracer"
  "pmem (emu_of s) = pmem s" "is_batch_mode (emu_of s) = False"
  by (simp_all add: emu_of_def emu.defs sdbst.defs sdb_of_def sim.defs sim_of_def init_wp_pool_def
      wpst.defs nemu.defs)

definition demo_host :: host where
  "demo_host = \<lparr>host_files = [''a.bin'' \<mapsto> [0x73, 0, 0x10, 0]], host_writable = (\<lambda>_. False),
     host_rand = 0, host_devices = power_on_env\<rparr>"

lemma emu_of_before_main: "before_main plain_config (emu_of power_on)"
  by (simp add: before_main_def io_wf_def) (simp add: power_on_def cpu_shape_def nr_gpr_def csr_num_def
      maps_disjoint_def IO_SPACE_MAX_def)

theorem monitor_boot_state_witness:
  "\<exists>s'. init_monitor plain_config False no_ref demo_host [''nemu'', ''a.bin''] (emu_of power_on) = Inr s' \<and>
     image_at plain_config [0x73, 0, 0x10, 0] s'"
proof -
  obtain s' where r: "init_monitor plain_config False no_ref demo_host [''nemu'', ''a.bin''] (emu_of power_on) = Inr s'"
    and f: "img_file s' = Some ''a.bin''"
    by (simp add: init_monitor_def parse_args_def getopt_all.simps init_log_def parse_elf_def init_mem_def
        init_isa_def in_object_def guest_to_host_def RESET_VECTOR_def PMEM_LEFT_def img_def restart_def
        load_img_def demo_host_def init_difftest_def welcome_msg_def init_sdb_def init_wp_pool_def print_def Let_def)
  then show ?thesis
    using monitor_boot_state [OF r emu_of_before_main] by (simp add: demo_host_def)
qed

text \<open>C23: The whole program in batch mode without an image: \<open>main\<close> returns 0 after the built-in
  program has hit the good trap, whatever registers and memory held before and whatever the
  random fill of the memory.\<close>

theorem nemu_batch_run:
  fixes s :: "('r, 'a) emu_scheme"
  assumes "before_main plain_config s" and "img_file s = None" and "log_file s = None" and "elf_file s = None"
  shows "\<exists>s'. nemu_main plain_config random R h [''nemu'', ''-b''] s = Inr (0, s') \<and>
    nemu_state s' = \<lparr>st_state = NEMU_END, halt_pc = 0x8000000c, halt_ret = 0\<rparr> \<and>
    Trap_row ''HIT GOOD TRAP'' 0x8000000c \<in> set (out s')"
proof -
  let ?m = "init_mem plain_config random h
    (print (Text ''Log is written to stdout'') (s\<lparr>is_batch_mode := True\<rparr>)\<lparr>trc := trc s\<rparr>)"
  let ?i = "restart plain_config (?m\<lparr>pmem := copy_words img 0 (pmem ?m)\<rparr>)"
  let ?n = "welcome_msg (init_sdb (print (Text ''No image is given. Use the default build-in image.'') ?i))"
  have isa: "init_isa plain_config ?m = Inr ?i"
    by (simp add: init_isa_def in_object_def guest_to_host_def RESET_VECTOR_def PMEM_LEFT_def img_def)
  have files: "log_file (s\<lparr>is_batch_mode := True\<rparr>) = None"
    "elf_file (print (Text ''Log is written to stdout'') (s\<lparr>is_batch_mode := True\<rparr>)) = None"
    "trc (print (Text ''Log is written to stdout'') (s\<lparr>is_batch_mode := True\<rparr>)) = trc s"
    "img_file ?i = None"
    using assms(2-4) by (simp_all add: print_def init_mem_def restart_def)
  have mon: "init_monitor plain_config random R h [''nemu'', ''-b''] s = Inr ?n"
    using files isa
    by (simp add: init_monitor_def parse_args_def getopt_all.simps init_log_def parse_elf_def
        load_img_def init_difftest_def)
  have n: "cpu ?n = cpu ?i" "pmem ?n = pmem ?i" "nemu_state ?n = nemu_state s" "is_batch_mode ?n = True"
    by (simp_all add: welcome_msg_def init_sdb_def init_wp_pool_def print_def restart_def init_mem_def)
  have sh: "cpu_shape plain_config (cpu ?m)" "st_state (nemu_state s) = NEMU_STOP"
    using assms(1) by (simp_all add: before_main_def init_mem_def print_def)
  obtain s' where s': "cpu_exec plain_config R (-1) ?n = Inr s'"
      "nemu_state s' = \<lparr>st_state = NEMU_END, halt_pc = 0x8000000c, halt_ret = 0\<rparr>"
      "Trap_row ''HIT GOOD TRAP'' 0x8000000c \<in> set (out s')" "\<not> is_exit_status_bad s'"
    using builtin_image_good_trap [of ?n "-1" R] init_isa_spec(1,2) [OF isa sh(1)] img_loaded_copy n sh(2)
    by (auto simp: RESET_VECTOR_def PMEM_LEFT_def restart_def)
  then show ?thesis
    using mon n(4) by (simp add: nemu_main_def engine_start_def sdb_mainloop_def cmd_c_def)
qed

theorem nemu_batch_run_witness:
  "\<exists>s'. nemu_main plain_config True no_ref demo_host [''nemu'', ''-b''] (emu_of power_on) = Inr (0, s') \<and>
     Trap_row ''HIT GOOD TRAP'' 0x8000000c \<in> set (out s')"
  using nemu_batch_run [OF emu_of_before_main, of True no_ref demo_host] by auto

end
