(* ===== verification/Kstring.thy ===== *)
theory Kstring
  imports Prelude
begin

text \<open>
  \<open>abstract-machine/klib/src/string.c\<close> for the 32-bit machines: the memory is a function
  from 32-bit addresses to bytes, a pointer is an address, \<open>size_t\<close> is 32 bits wide and the
  null pointer is 0.  Each function returns the memory it leaves, and its result.
\<close>

type_synonym kmem = "u32 \<Rightarrow> byte"

definition NULL :: u32 where
  "NULL = 0"

text \<open>A string without a terminator fills the whole address space; the loop then starts over
  and never ends.\<close>

function strlen_loop :: "kmem \<Rightarrow> u32 \<Rightarrow> u32 \<Rightarrow> u32 res" where
  "strlen_loop m s len =
     (if m (s + len) \<noteq> 0 then (if len = -1 then Inl Diverges else strlen_loop m s (len + 1))
      else Inr len)"
  by pat_completeness auto
termination
proof (relation "measure (\<lambda>(m, s, len). 2 ^ 32 - unat len)")
  fix m :: kmem and s len :: u32
  assume "len \<noteq> -1"
  then have "1 + len \<noteq> 0" by (simp add: add_eq_0_iff)
  then have "unat (len + 1) = unat len + 1" using unatSuc [of len] by (simp add: add.commute)
  moreover have "unat len < 2 ^ LENGTH(32)" by (rule unsigned_less)
  ultimately show "((m, s, len + 1), m, s, len) \<in> measure (\<lambda>(m, s, len). 2 ^ 32 - unat len)" by simp
qed simp

declare strlen_loop.simps [simp del]

definition strlen :: "kmem \<Rightarrow> u32 \<Rightarrow> u32 res" where
  "strlen m s = bind_res (assert_res Assertion (s \<noteq> NULL)) (\<lambda>_. strlen_loop m s 0)"

text \<open>The loops run over the \<open>n\<close> bytes that are left.\<close>

fun memset_loop :: "kmem \<Rightarrow> u32 \<Rightarrow> byte \<Rightarrow> nat \<Rightarrow> kmem" where
  "memset_loop m p c 0 = m"
| "memset_loop m p c (Suc n) = memset_loop (m(p := c)) (p + 1) c n"

definition memset :: "kmem \<Rightarrow> u32 \<Rightarrow> u32 \<Rightarrow> u32 \<Rightarrow> kmem res" where
  "memset m s c n =
     bind_res (assert_res Assertion (s \<noteq> NULL)) (\<lambda>_. Inr (memset_loop m s (ucast c) (unat n)))"

fun copy_up :: "kmem \<Rightarrow> u32 \<Rightarrow> u32 \<Rightarrow> nat \<Rightarrow> kmem" where
  "copy_up m d s 0 = m"
| "copy_up m d s (Suc n) = copy_up (m(d := m s)) (d + 1) (s + 1) n"

text \<open>The pointers are those after the byte to copy.\<close>

fun copy_down :: "kmem \<Rightarrow> u32 \<Rightarrow> u32 \<Rightarrow> nat \<Rightarrow> kmem" where
  "copy_down m d s 0 = m"
| "copy_down m d s (Suc n) = copy_down (m(d - 1 := m (s - 1))) (d - 1) (s - 1) n"

definition memmove :: "kmem \<Rightarrow> u32 \<Rightarrow> u32 \<Rightarrow> u32 \<Rightarrow> kmem res" where
  "memmove m dst src n =
     bind_res (assert_res Assertion (dst \<noteq> NULL \<and> src \<noteq> NULL)) (\<lambda>_.
     if src < dst \<and> dst < src + n then Inr (copy_down m (dst + n) (src + n) (unat n))
     else Inr (copy_up m dst src (unat n)))"

definition memcpy :: "kmem \<Rightarrow> u32 \<Rightarrow> u32 \<Rightarrow> u32 \<Rightarrow> kmem res" where
  "memcpy m out inp n =
     bind_res (assert_res Assertion (inp \<noteq> NULL \<and> out \<noteq> NULL)) (\<lambda>_. Inr (copy_up m out inp (unat n)))"

text \<open>The difference of two \<open>unsigned char\<close> as an \<open>int\<close>.\<close>

fun memcmp_loop :: "kmem \<Rightarrow> u32 \<Rightarrow> u32 \<Rightarrow> nat \<Rightarrow> int" where
  "memcmp_loop m p q 0 = 0"
| "memcmp_loop m p q (Suc n) =
     (if m p \<noteq> m q then uint (m p) - uint (m q) else memcmp_loop m (p + 1) (q + 1) n)"

definition memcmp :: "kmem \<Rightarrow> u32 \<Rightarrow> u32 \<Rightarrow> u32 \<Rightarrow> int res" where
  "memcmp m s1 s2 n =
     bind_res (assert_res Assertion (s1 \<noteq> NULL \<and> s2 \<noteq> NULL)) (\<lambda>_. Inr (memcmp_loop m s1 s2 (unat n)))"

definition strcpy :: "kmem \<Rightarrow> u32 \<Rightarrow> u32 \<Rightarrow> kmem res" where
  "strcpy m dst src =
     bind_res (assert_res Assertion (dst \<noteq> NULL \<and> src \<noteq> NULL)) (\<lambda>_.
     bind_res (strlen m src) (\<lambda>len. memmove m dst src (len + 1)))"

definition strncpy :: "kmem \<Rightarrow> u32 \<Rightarrow> u32 \<Rightarrow> u32 \<Rightarrow> kmem res" where
  "strncpy m dst src n =
     bind_res (assert_res Assertion (dst \<noteq> NULL \<and> src \<noteq> NULL)) (\<lambda>_.
     bind_res (strlen m src) (\<lambda>len.
     if len < n then bind_res (memmove m dst src len) (\<lambda>m1. memset m1 (dst + len) 0 (n - len))
     else memmove m dst src n))"

definition strcat :: "kmem \<Rightarrow> u32 \<Rightarrow> u32 \<Rightarrow> kmem res" where
  "strcat m dst src =
     bind_res (assert_res Assertion (dst \<noteq> NULL \<and> src \<noteq> NULL)) (\<lambda>_.
     bind_res (strlen m dst) (\<lambda>len_dst.
     bind_res (strlen m src) (\<lambda>len_src. memmove m (dst + len_dst) src (len_src + 1))))"

text \<open>The difference of the lengths is taken on \<open>size_t\<close> and returned as \<open>int\<close>.\<close>

definition strcmp :: "kmem \<Rightarrow> u32 \<Rightarrow> u32 \<Rightarrow> int res" where
  "strcmp m s1 s2 =
     bind_res (assert_res Assertion (s1 \<noteq> NULL \<and> s2 \<noteq> NULL)) (\<lambda>_.
     bind_res (strlen m s1) (\<lambda>len1.
     bind_res (strlen m s2) (\<lambda>len2.
     bind_res (memcmp m s1 s2 (if len1 < len2 then len1 else len2)) (\<lambda>result.
     Inr (if result = 0 then sint (len1 - len2) else result)))))"

definition strncmp :: "kmem \<Rightarrow> u32 \<Rightarrow> u32 \<Rightarrow> u32 \<Rightarrow> int res" where
  "strncmp m s1 s2 n =
     bind_res (assert_res Assertion (s1 \<noteq> NULL \<and> s2 \<noteq> NULL)) (\<lambda>_. memcmp m s1 s2 n)"

end
