(* ===== verification/Kstring_Facts.thy ===== *)
theory Kstring_Facts
  imports Kstring
begin

text \<open>
  Facts on the memory and string functions: what each leaves in every byte of memory, and
  that comparison is the lexicographic order of the strings.
\<close>

subsection \<open>Distances between addresses\<close>

lemma unat_less_2p32: "unat (w :: u32) < 2 ^ 32"
proof -
  have "unat w < 2 ^ LENGTH(32)" by (rule unsigned_less)
  then show ?thesis by simp
qed

lemma unat_Suc_diff: "x \<noteq> d \<Longrightarrow> unat (x - d) = Suc (unat (x - (d + 1)))" for x d :: u32
proof -
  assume "x \<noteq> d"
  then have "1 + (x - (d + 1)) \<noteq> 0" by simp
  then have "unat (1 + (x - (d + 1))) = Suc (unat (x - (d + 1)))" by (rule unatSuc)
  then show ?thesis by simp
qed

lemma unat_minus_one_max: "unat (d - (d + 1)) = 2 ^ 32 - 1" for d :: u32
proof -
  have "unat (-1 :: u32) = 2 ^ 32 - 1" by (simp add: unsigned_minus_1_eq_mask mask_eq_exp_minus_1)
  then show ?thesis by simp
qed

subsection \<open>Filling and copying\<close>

lemma memset_loop_spec:
  "n \<le> 2 ^ 32 \<Longrightarrow> memset_loop m p c n x = (if unat (x - p) < n then c else m x)"
proof (induction n arbitrary: m p)
  case (Suc n)
  show ?case
  proof (cases "x = p")
    case True
    then show ?thesis using Suc unat_minus_one_max [of p] by simp
  next
    case False
    then show ?thesis using Suc unat_Suc_diff [OF False] by simp
  qed
qed simp

text \<open>Copying upwards is right unless the destination starts inside the source, after its
  first byte.\<close>

lemma copy_up_spec:
  "n \<le> 2 ^ 32 \<Longrightarrow> d = s \<or> n \<le> unat (d - s) \<Longrightarrow>
   copy_up m d s n x = (if unat (x - d) < n then m (s + (x - d)) else m x)"
proof (induction n arbitrary: m d s)
  case (Suc n)
  have IH: "copy_up (m(d := m s)) (d + 1) (s + 1) n x =
      (if unat (x - (d + 1)) < n then (m(d := m s)) (s + 1 + (x - (d + 1))) else (m(d := m s)) x)"
    by (rule Suc.IH) (use Suc.prems in auto)
  show ?case
  proof (cases "x = d")
    case True
    then show ?thesis using IH Suc.prems(1) unat_minus_one_max [of d] by simp
  next
    case False
    have "s + (x - d) \<noteq> d" if "unat (x - d) < Suc n"
    proof
      assume "s + (x - d) = d"
      then have "x - d = d - s" by (metis add_diff_cancel_left')
      then show False using Suc.prems(2) that False by auto
    qed
    then show ?thesis using IH False unat_Suc_diff [OF False] by (auto simp: algebra_simps)
  qed
qed simp

text \<open>Copying downwards is right unless the source starts inside the destination.\<close>

lemma copy_down_spec:
  "n \<le> 2 ^ 32 \<Longrightarrow> d = s \<or> n \<le> unat (s - d) \<Longrightarrow>
   copy_down m (d + of_nat n) (s + of_nat n) n x = (if unat (x - d) < n then m (s + (x - d)) else m x)"
proof (induction n arbitrary: m)
  case (Suc n)
  let ?m = "m(d + of_nat n := m (s + of_nat n))"
  have u: "unat (of_nat n :: u32) = n" using Suc.prems(1) by (simp add: unat_of_nat take_bit_nat_eq_self)
  have IH: "copy_down ?m (d + of_nat n) (s + of_nat n) n x =
      (if unat (x - d) < n then ?m (s + (x - d)) else ?m x)"
    by (rule Suc.IH) (use Suc.prems in auto)
  have "s + (x - d) \<noteq> d + of_nat n" if "unat (x - d) < n"
  proof
    assume e: "s + (x - d) = d + of_nat n"
    show False
    proof (cases "d = s")
      case True
      then have "x - d = of_nat n" using e by simp
      then show False using that u by simp
    next
      case False
      have "s - d = (s + (x - d)) - d - (x - d)" by simp
      also have "\<dots> = of_nat n - (x - d)" unfolding e by simp
      finally have f: "s - d = of_nat n - (x - d)" .
      have "unat (s - d) \<le> unat (of_nat n :: u32)"
        unfolding f using that u by (metis less_imp_le unat_sub_if_size diff_le_self word_le_nat_alt)
      then have "unat (s - d) \<le> n" unfolding u .
      then show False using Suc.prems(2) False by auto
    qed
  qed
  moreover have "x = d + of_nat n \<longleftrightarrow> unat (x - d) = n"
  proof
    assume "unat (x - d) = n"
    moreover have "of_nat (unat (x - d)) = x - d" by simp
    ultimately have "of_nat n = x - d" by simp
    then show "x = d + of_nat n" by simp
  qed (simp add: u)
  ultimately show ?case using IH by (auto simp: algebra_simps less_Suc_eq)
qed simp

text \<open>The bytes of \<open>n\<close> from \<open>src\<close> on, moved to \<open>dst\<close>.\<close>

definition moved :: "kmem \<Rightarrow> u32 \<Rightarrow> u32 \<Rightarrow> nat \<Rightarrow> kmem" where
  "moved m dst src n = (\<lambda>x. if unat (x - dst) < n then m (src + (x - dst)) else m x)"

lemma unat_diff_le: "s \<le> d \<Longrightarrow> unat (d - s) = unat d - unat s" for d s :: u32
  by (simp add: unat_sub)

lemma unat_diff_wrap: "d < s \<Longrightarrow> unat (d - s) = 2 ^ 32 - (unat s - unat d)" for d s :: u32
  by (auto simp: unat_sub_if' word_less_nat_alt)

lemma memmove_spec:
  assumes "dst \<noteq> NULL" and "src \<noteq> NULL" and "unat src + unat n < 2 ^ 32"
    and "unat dst + unat n \<le> 2 ^ 32"
  shows "memmove m dst src n = Inr (moved m dst src (unat n))"
proof -
  have n: "unat n \<le> 2 ^ 32" using unat_less_2p32 [of n] by simp
  have sn: "unat (src + n) = unat src + unat n"
    using assms(3) by (intro unat_add_lem [THEN iffD1]) simp
  show ?thesis
  proof (cases "src < dst \<and> dst < src + n")
    case True
    then have "unat src < unat dst" "unat dst < unat src + unat n"
      using sn by (simp_all add: word_less_nat_alt)
    then have "unat n \<le> unat (src - dst)"
      using True assms(3,4) unat_diff_wrap [of src dst] unat_less_2p32 [of dst] by simp
    then have "copy_down m (dst + n) (src + n) (unat n) = moved m dst src (unat n)"
      using copy_down_spec [OF n, of dst src m] by (auto simp: moved_def fun_eq_iff)
    then show ?thesis using True assms(1,2) by (simp add: memmove_def)
  next
    case False
    have "dst = src \<or> unat n \<le> unat (dst - src)"
    proof (cases "dst < src")
      case True
      then have "unat n \<le> unat (dst - src)"
        using assms(3) unat_diff_wrap [OF True] by (simp add: word_less_nat_alt)
      then show ?thesis ..
    next
      case ge: False
      then have "src \<le> dst" by simp
      moreover have "dst = src \<or> unat src + unat n \<le> unat dst"
        using False ge sn by (auto simp: word_less_nat_alt word_unat_eq_iff)
      ultimately show ?thesis using unat_diff_le by auto
    qed
    then have "copy_up m dst src (unat n) = moved m dst src (unat n)"
      using copy_up_spec [OF n, of dst src m] by (auto simp: moved_def fun_eq_iff)
    then show ?thesis using False assms(1,2) by (auto simp: memmove_def)
  qed
qed

subsection \<open>Strings\<close>

text \<open>The string \<open>xs\<close>, with its terminator, at \<open>p\<close>.\<close>

definition str_at :: "kmem \<Rightarrow> u32 \<Rightarrow> byte list \<Rightarrow> bool" where
  "str_at m p xs \<longleftrightarrow> p \<noteq> NULL \<and> 0 \<notin> set xs \<and> unat p + length xs + 1 < 2 ^ 32 \<and>
     (\<forall>i < length xs. m (p + of_nat i) = xs ! i) \<and> m (p + of_nat (length xs)) = 0"

lemma str_at_nonzero: "str_at m p xs \<Longrightarrow> i < length xs \<Longrightarrow> m (p + of_nat i) \<noteq> 0"
  using nth_mem by (fastforce simp: str_at_def)

lemma strlen_loop_spec:
  "str_at m p xs \<Longrightarrow> i \<le> length xs \<Longrightarrow> strlen_loop m p (of_nat i) = Inr (of_nat (length xs))"
proof (induction "length xs - i" arbitrary: i)
  case 0
  then have "i = length xs" by simp
  then show ?case using 0 by (subst strlen_loop.simps) (simp add: str_at_def)
next
  case (Suc k)
  then have i: "i < length xs" by simp
  have "i < 2 ^ 32 - 1" using Suc.prems(1) i by (simp add: str_at_def)
  then have "unat (of_nat i :: u32) = i" by (simp add: unat_of_nat take_bit_nat_eq_self)
  moreover have "unat (-1 :: u32) = 2 ^ 32 - 1" by (simp add: unsigned_minus_1_eq_mask mask_eq_exp_minus_1)
  ultimately have "(of_nat i :: u32) \<noteq> -1" using \<open>i < 2 ^ 32 - 1\<close> by (metis less_irrefl)
  moreover have "strlen_loop m p (of_nat (Suc i)) = Inr (of_nat (length xs))"
    by (rule Suc.hyps) (use Suc i in auto)
  ultimately show ?case
    using str_at_nonzero [OF Suc.prems(1) i] by (subst strlen_loop.simps) (simp add: add.commute)
qed

lemma strlen_spec: "str_at m p xs \<Longrightarrow> strlen m p = Inr (of_nat (length xs))"
  using strlen_loop_spec [of m p xs 0] by (simp add: strlen_def str_at_def)

lemma str_at_moved:
  assumes "str_at m src xs" and "dst \<noteq> NULL" and "unat dst + length xs + 1 < 2 ^ 32"
  shows "str_at (moved m dst src (length xs + 1)) dst xs"
proof -
  have "unat (of_nat i :: u32) = i" if "i \<le> length xs" for i
    using that assms(3) by (simp add: unat_of_nat take_bit_nat_eq_self)
  then show ?thesis using assms by (auto simp: str_at_def moved_def)
qed

lemma of_nat_Suc_word: "unat (of_nat n + 1 :: u32) = n + 1" if "n + 1 < 2 ^ 32"
proof -
  have "unat (of_nat (n + 1) :: u32) = n + 1" using that by (simp only: unat_of_nat take_bit_nat_eq_self) simp
  then show ?thesis by (simp add: add.commute)
qed

subsection \<open>Comparison\<close>

text \<open>The difference of the first two bytes that differ.\<close>

fun first_diff :: "byte list \<Rightarrow> byte list \<Rightarrow> int" where
  "first_diff (x # xs) (y # ys) = (if x \<noteq> y then uint x - uint y else first_diff xs ys)"
| "first_diff _ _ = 0"

lemma memcmp_loop_spec:
  "(\<forall>i < n. m (p + of_nat i) = xs ! i \<and> m (q + of_nat i) = ys ! i) \<Longrightarrow> n \<le> length xs \<Longrightarrow> n \<le> length ys \<Longrightarrow>
   memcmp_loop m p q n = first_diff (take n xs) (take n ys)"
proof (induction n arbitrary: p q xs ys)
  case (Suc n)
  obtain x xs' y ys' where xy: "xs = x # xs'" "ys = y # ys'"
    using Suc.prems(2,3) by (metis Suc_le_length_iff)
  have "memcmp_loop m (p + 1) (q + 1) n = first_diff (take n xs') (take n ys')"
  proof (rule Suc.IH)
    show "\<forall>i<n. m (p + 1 + of_nat i) = xs' ! i \<and> m (q + 1 + of_nat i) = ys' ! i"
    proof (intro allI impI)
      fix i assume "i < n"
      then show "m (p + 1 + of_nat i) = xs' ! i \<and> m (q + 1 + of_nat i) = ys' ! i"
        using Suc.prems(1) [rule_format, of "Suc i"] by (simp add: xy algebra_simps)
    qed
  qed (use Suc.prems xy in auto)
  moreover have "m p = x" "m q = y" using Suc.prems(1) [rule_format, of 0] by (simp_all add: xy)
  ultimately show ?case by (simp add: xy)
qed simp

lemma first_diff_take: "first_diff (take (min (length xs) (length ys)) xs) (take (min (length xs) (length ys)) ys) = first_diff xs ys"
  by (induction xs ys rule: first_diff.induct) auto

abbreviation lex_less :: "byte list \<Rightarrow> byte list \<Rightarrow> bool" where
  "lex_less xs ys \<equiv> (xs, ys) \<in> lexord {(a, b). a < b}"

lemma first_diff_eq: "first_diff xs ys = 0 \<and> length xs = length ys \<longleftrightarrow> xs = ys"
  by (induction xs ys rule: first_diff.induct) (auto dest: word_uint_eqI)

lemma first_diff_less:
  "first_diff xs ys < 0 \<or> first_diff xs ys = 0 \<and> length xs < length ys \<longleftrightarrow> lex_less xs ys"
proof (induction xs arbitrary: ys)
  case Nil
  then show ?case by (cases ys) auto
next
  case (Cons x xs)
  have "uint x - uint y \<noteq> 0" if "x \<noteq> y" for y using that word_uint_eqI by fastforce
  with Cons show ?case by (cases ys) (auto simp: word_less_def)
qed

text \<open>\<open>strcmp\<close> on two strings returns; the result is zero exactly for equal strings and
  negative exactly when the first comes first in the lexicographic order of unsigned
  characters.\<close>

theorem strcmp_correct:
  assumes "str_at m p xs" and "str_at m q ys" and "length xs < 2 ^ 31" and "length ys < 2 ^ 31"
  shows "\<exists>r. strcmp m p q = Inr r \<and> (r = 0 \<longleftrightarrow> xs = ys) \<and> (r < 0 \<longleftrightarrow> lex_less xs ys)"
proof -
  let ?n = "min (length xs) (length ys)"
  let ?l1 = "of_nat (length xs) :: u32" and ?l2 = "of_nat (length ys) :: u32"
  have u: "unat ?l1 = length xs" "unat ?l2 = length ys"
    using assms(3,4) by (simp_all add: unat_of_nat take_bit_nat_eq_self)
  have "unat (if ?l1 < ?l2 then ?l1 else ?l2) = ?n"
    using u by (auto simp: word_less_nat_alt)
  moreover have "memcmp_loop m p q ?n = first_diff xs ys"
    using memcmp_loop_spec [of ?n m p xs q ys] first_diff_take [of xs ys] assms(1,2)
    by (simp add: str_at_def)
  ultimately have run: "strcmp m p q = Inr (if first_diff xs ys = 0 then sint (?l1 - ?l2) else first_diff xs ys)"
    using assms(1,2) strlen_spec [OF assms(1)] strlen_spec [OF assms(2)]
    by (simp add: strcmp_def memcmp_def str_at_def)
  have "?l1 - ?l2 = word_of_int (int (length xs) - int (length ys))" by simp
  then have "sint (?l1 - ?l2) = int (length xs) - int (length ys)"
    using assms(3,4) by (simp only: sint_sbintrunc') (simp add: signed_take_bit_int_eq_self)
  then show ?thesis
    using run first_diff_eq [of xs ys] first_diff_less [of xs ys] by auto
qed

definition demo_mem :: kmem where
  "demo_mem = (\<lambda>_. 0)(0x100 := 0x61, 0x101 := 0x62, 0x200 := 0x61, 0x201 := 0x80)"

lemma demo_mem_str: "str_at demo_mem 0x100 [0x61, 0x62]" "str_at demo_mem 0x200 [0x61, 0x80]"
  by (auto simp: str_at_def demo_mem_def NULL_def less_Suc_eq)

theorem strcmp_correct_witness:
  "\<exists>r. strcmp demo_mem 0x100 0x200 = Inr r \<and> r < 0"
  using strcmp_correct [OF demo_mem_str] by (auto simp: word_less_def)

text \<open>C26: \<open>memmove\<close> leaves the \<open>n\<close> bytes that were at the source at the destination and
  every other byte as it was, however the two areas overlap, as long as they do not wrap
  around the address space.\<close>

theorem memmove_correct:
  assumes "dst \<noteq> NULL" and "src \<noteq> NULL" and "unat src + unat n < 2 ^ 32"
    and "unat dst + unat n \<le> 2 ^ 32"
  shows "\<exists>m'. memmove m dst src n = Inr m' \<and>
    (\<forall>i < unat n. m' (dst + of_nat i) = m (src + of_nat i)) \<and>
    (\<forall>x. unat n \<le> unat (x - dst) \<longrightarrow> m' x = m x)"
proof -
  have "unat (of_nat i :: u32) = i" if "i < unat n" for i
    using that unat_less_2p32 [of n] by (simp add: unat_of_nat take_bit_nat_eq_self)
  then show ?thesis using memmove_spec [OF assms] by (auto simp: moved_def)
qed

theorem memmove_correct_witness:
  "\<exists>m'. memmove demo_mem 0x101 0x100 2 = Inr m' \<and> m' 0x101 = 0x61 \<and> m' 0x102 = 0x62"
proof -
  obtain m' where "memmove demo_mem 0x101 0x100 2 = Inr m'"
    "\<forall>i < 2. m' (0x101 + of_nat i) = demo_mem (0x100 + of_nat i)"
    using memmove_correct [of "0x101" "0x100" 2 demo_mem] by (auto simp: NULL_def)
  then show ?thesis
    by (auto simp: demo_mem_def dest: spec [of _ 0] spec [of _ 1])
qed

text \<open>Copying and concatenating strings.\<close>

lemma strcpy_spec:
  assumes "str_at m src xs" and "dst \<noteq> NULL" and "unat dst + length xs + 1 < 2 ^ 32"
  shows "\<exists>m'. strcpy m dst src = Inr m' \<and> str_at m' dst xs \<and>
    (\<forall>x. length xs + 1 \<le> unat (x - dst) \<longrightarrow> m' x = m x)"
proof -
  have u: "unat (of_nat (length xs) + 1 :: u32) = length xs + 1"
    using assms(3) by (intro of_nat_Suc_word) simp
  have "memmove m dst src (of_nat (length xs) + 1) = Inr (moved m dst src (length xs + 1))"
    using memmove_spec [of dst src "of_nat (length xs) + 1" m] assms u by (simp add: str_at_def)
  then show ?thesis
    using str_at_moved [OF assms] strlen_spec [OF assms(1)] assms(1,2)
    by (auto simp: strcpy_def str_at_def moved_def)
qed

lemma strcat_spec:
  assumes "str_at m dst xs" and "str_at m src ys" and "unat dst + length xs + length ys + 1 < 2 ^ 32"
  shows "\<exists>m'. strcat m dst src = Inr m' \<and> str_at m' dst (xs @ ys)"
proof -
  let ?d = "dst + of_nat (length xs)"
  have ud: "unat ?d = unat dst + length xs"
    using assms(3) by (subst unat_add_lem [THEN iffD1]) (simp_all add: unat_of_nat take_bit_nat_eq_self)
  have d0: "?d \<noteq> NULL"
  proof -
    have "unat dst \<noteq> 0" using assms(1) by (simp add: str_at_def NULL_def unat_eq_zero)
    then have "unat ?d \<noteq> unat NULL" using ud by (simp add: NULL_def)
    then show ?thesis by metis
  qed
  have u: "unat (of_nat (length ys) + 1 :: u32) = length ys + 1"
    using assms(3) by (intro of_nat_Suc_word) simp
  let ?m = "moved m ?d src (length ys + 1)"
  have run: "strcat m dst src = Inr ?m"
    using memmove_spec [of ?d src "of_nat (length ys) + 1" m] d0 ud u assms
      strlen_spec [OF assms(1)] strlen_spec [OF assms(2)]
    by (simp add: strcat_def str_at_def)
  have tail: "str_at ?m ?d ys" by (rule str_at_moved) (use assms d0 ud in simp_all)
  have head: "?m (dst + of_nat i) = xs ! i" if i: "i < length xs" for i
  proof -
    have "dst + of_nat i - ?d = - of_nat (length xs - i)" using i by (simp add: of_nat_diff)
    moreover have "unat (- of_nat (length xs - i) :: u32) = 2 ^ 32 - (length xs - i)"
    proof -
      have k: "unat (of_nat (length xs - i) :: u32) = length xs - i"
        using assms(3) by (simp add: unat_of_nat take_bit_nat_eq_self)
      then have "0 < (of_nat (length xs - i) :: u32)" using i by (simp add: word_less_nat_alt)
      from unat_diff_wrap [OF this] k show ?thesis by simp
    qed
    ultimately have "length ys + 1 \<le> unat (dst + of_nat i - ?d)" using i assms(3) by simp
    then have "?m (dst + of_nat i) = m (dst + of_nat i)" by (simp only: moved_def) simp
    then show ?thesis using i assms(1) by (simp add: str_at_def)
  qed
  have "?m (dst + of_nat i) = (xs @ ys) ! i" if "i < length (xs @ ys)" for i
  proof (cases "i < length xs")
    case False
    then obtain j where "i = length xs + j" by (metis le_Suc_ex not_less)
    then have j: "i = length xs + j" "j < length ys" using that by simp_all
    then show ?thesis using tail by (simp add: str_at_def nth_append add.assoc)
  qed (use head in \<open>simp add: nth_append\<close>)
  moreover have "?m (dst + of_nat (length (xs @ ys))) = 0"
    using tail by (simp add: str_at_def add.assoc)
  ultimately have "str_at ?m dst (xs @ ys)" using assms by (simp add: str_at_def)
  then show ?thesis using run by blast
qed

subsection \<open>Termination of strlen\<close>

lemma less_Suc_word: "len \<noteq> -1 \<Longrightarrow> len \<le> i \<Longrightarrow> i \<noteq> len \<Longrightarrow> len + 1 \<le> i" for len i :: u32
  by (metis inc_le order_le_less)

lemma strlen_loop_found:
  "strlen_loop m s len = Inr n \<Longrightarrow> len \<le> n \<and> m (s + n) = 0 \<and> (\<forall>i. len \<le> i \<and> i < n \<longrightarrow> m (s + i) \<noteq> 0)"
proof (induction m s len rule: strlen_loop.induct)
  case (1 m s len)
  show ?case
  proof (cases "m (s + len) = 0")
    case True
    then show ?thesis using "1.prems" by (subst (asm) strlen_loop.simps) auto
  next
    case False
    then have l: "len \<noteq> -1" and r: "strlen_loop m s (len + 1) = Inr n"
      using "1.prems" by (subst (asm) (1) strlen_loop.simps, simp split: if_splits)+
    note IH = "1.IH" [OF False l r]
    moreover have "1 + len \<noteq> 0" using l by (simp add: add_eq_0_iff)
    then have "len \<le> len + 1" using unatSuc [of len] by (simp add: word_le_nat_alt add.commute)
    ultimately show ?thesis using False less_Suc_word [OF l] by (metis order_trans)
  qed
qed

lemma strlen_loop_diverges:
  "strlen_loop m s len = Inl e \<Longrightarrow> e = Diverges \<and> (\<forall>i. len \<le> i \<longrightarrow> m (s + i) \<noteq> 0)"
proof (induction m s len rule: strlen_loop.induct)
  case (1 m s len)
  have nz: "m (s + len) \<noteq> 0" using "1.prems" by (subst (asm) strlen_loop.simps) (auto split: if_splits)
  show ?case
  proof (cases "len = -1")
    case True
    then show ?thesis using nz "1.prems" by (subst (asm) strlen_loop.simps) (auto simp: word_order.extremum_unique)
  next
    case False
    then have "strlen_loop m s (len + 1) = Inl e"
      using "1.prems" nz by (subst (asm) (1) strlen_loop.simps) simp
    then show ?thesis using "1.IH" [OF nz False] nz less_Suc_word [OF False] by metis
  qed
qed

text \<open>C27: \<open>strlen\<close> returns exactly when there is a zero byte anywhere in the address space, and
  then its result is the distance to the first one, counted upwards from \<open>s\<close>.\<close>

theorem strlen_terminates:
  assumes "s \<noteq> NULL"
  shows "((\<exists>n. strlen m s = Inr n) \<longleftrightarrow> (\<exists>x. m x = 0)) \<and>
    (strlen m s = Inr n \<longleftrightarrow> m (s + n) = 0 \<and> (\<forall>i < n. m (s + i) \<noteq> 0))"
proof (rule conjI)
  have r: "strlen m s = strlen_loop m s 0" using assms by (simp add: strlen_def)
  have found: "strlen m s = Inr k \<Longrightarrow> m (s + k) = 0 \<and> (\<forall>i < k. m (s + i) \<noteq> 0)" for k
    using strlen_loop_found [of m s 0 k] r by auto
  have none: "m x \<noteq> 0" if "strlen m s = Inl e" for e x
  proof -
    have "\<forall>i. m (s + i) \<noteq> 0" using strlen_loop_diverges [of m s 0 e] r that by simp
    then have "m (s + (x - s)) \<noteq> 0" by blast
    then show ?thesis by simp
  qed
  show "(\<exists>n. strlen m s = Inr n) \<longleftrightarrow> (\<exists>x. m x = 0)"
    using found none by (cases "strlen m s") auto
  show "strlen m s = Inr n \<longleftrightarrow> m (s + n) = 0 \<and> (\<forall>i < n. m (s + i) \<noteq> 0)"
  proof
    assume n: "m (s + n) = 0 \<and> (\<forall>i < n. m (s + i) \<noteq> 0)"
    then obtain k where k: "strlen m s = Inr k" using none by (cases "strlen m s") auto
    then have "k = n" using found [OF k] n by (metis linorder_neqE)
    then show "strlen m s = Inr n" using k by simp
  qed (rule found)
qed

theorem strlen_terminates_witness: "strlen (\<lambda>x. if x = 5 then 0 else 7) 3 = Inr 2"
proof -
  have "(3 :: u32) \<noteq> NULL" by (simp add: NULL_def)
  moreover have "i = 0 \<or> i = 1" if "i < 2" for i :: u32
    using that by (metis inc_le linorder_not_le one_add_one order_le_less word_less_1)
  ultimately show ?thesis using strlen_terminates [THEN conjunct2, of 3 "\<lambda>x. if x = 5 then 0 else 7" 2] by force
qed

end
