(* ===== verification/Kstdlib.thy ===== *)
theory Kstdlib
  imports Kstring
begin

text \<open>
  \<open>abstract-machine/klib/src/stdlib.c\<close> and the rounding macros of \<open>klib-macros.h\<close>: the
  pseudo random numbers, \<open>abs\<close>, \<open>atoi\<close> and the allocator, for the 32-bit machines
  (\<open>unsigned long\<close> and pointers are 32 bits wide).
\<close>

record klib =
  next_rand :: u32
  heap_init :: bool
  heap_addr :: u32

definition init_klib :: klib where
  "init_klib = \<lparr>next_rand = 1, heap_init = False, heap_addr = 0\<rparr>"

definition rand :: "klib \<Rightarrow> int \<times> klib" where
  "rand k =
     (let nx = next_rand k * 1103515245 + 12345 in
      (uint ((nx div 65536) mod 32768), k\<lparr>next_rand := nx\<rparr>))"

definition srand :: "u32 \<Rightarrow> klib \<Rightarrow> klib" where
  "srand seed k = k\<lparr>next_rand := seed\<rparr>"

definition int_ok :: "int \<Rightarrow> bool" where
  "int_ok x \<longleftrightarrow> - (2 ^ 31) \<le> x \<and> x < 2 ^ 31"

definition abs_c :: "int \<Rightarrow> int res" where
  "abs_c x =
     (if x < 0 then bind_res (assert_res Signed_overflow (int_ok (- x))) (\<lambda>_. Inr (- x)) else Inr x)"

text \<open>The second loop of \<open>atoi\<close>; \<open>x * 10\<close>, adding the character and subtracting the
  digit zero are computed on \<open>int\<close>.\<close>

definition is_digit :: "char \<Rightarrow> bool" where
  "is_digit ch \<longleftrightarrow> 48 \<le> (of_char ch :: int) \<and> of_char ch \<le> (57 :: int)"

fun atoi_loop :: "string \<Rightarrow> int \<Rightarrow> int res" where
  "atoi_loop [] x = Inr x"
| "atoi_loop (ch # cs) x =
     (if is_digit ch then
        bind_res (assert_res Signed_overflow (int_ok (x * 10) \<and> int_ok (x * 10 + of_char ch))) (\<lambda>_.
        atoi_loop cs (x * 10 + of_char ch - 48))
      else Inr x)"

definition katoi :: "string \<Rightarrow> int res" where
  "katoi str = atoi_loop (dropWhile (\<lambda>ch. ch = CHR '' '') str) 0"

subsection \<open>The allocator\<close>

definition ROUNDUP :: "u32 \<Rightarrow> u32 \<Rightarrow> u32" where
  "ROUNDUP a sz = (a + sz - 1) AND NOT (sz - 1)"

definition ROUNDDOWN :: "u32 \<Rightarrow> u32 \<Rightarrow> u32" where
  "ROUNDDOWN a sz = a AND NOT (sz - 1)"

text \<open>The heap of the machine, \<open>heap.start\<close> and \<open>heap.end\<close>.\<close>

record Area =
  area_start :: u32
  area_end :: u32

definition malloc :: "Area \<Rightarrow> u32 \<Rightarrow> klib \<Rightarrow> kmem \<Rightarrow> (u32 \<times> klib \<times> kmem) res" where
  "malloc heap sz0 k m =
     (if sz0 = 0 then Inr (NULL, k, m)
      else
        (let k1 = (if \<not> heap_init k then k\<lparr>heap_addr := ROUNDUP (area_start heap) 8, heap_init := True\<rparr>
                   else k);
             sz = ROUNDUP sz0 8;
             head = heap_addr k1;
             k2 = k1\<lparr>heap_addr := heap_addr k1 + sz\<rparr>
         in bind_res (assert_res Assertion
                (area_start heap \<le> heap_addr k2 \<and> heap_addr k2 < area_end heap)) (\<lambda>_.
            bind_res (memset m head 0 sz) (\<lambda>m1. Inr (head, k2, m1)))))"

definition kfree :: "u32 \<Rightarrow> klib \<Rightarrow> kmem \<Rightarrow> klib \<times> kmem" where
  "kfree ptr k m = (k, m)"

end
