(* ===== verification/Kstdlib_Facts.thy ===== *)
theory Kstdlib_Facts
  imports Kstdlib Kstring_Facts
begin

text \<open>
  Facts on \<open>stdlib.c\<close>: what \<open>atoi\<close> reads, the range of \<open>rand\<close>, and the allocator.  What a
  client may expect of an allocator that never reuses memory is the locale \<open>bump_allocator\<close>;
  \<open>malloc\<close> on a heap whose end leaves room for the request is an instance.
\<close>

subsection \<open>Blocks of an allocator\<close>

text \<open>A block is its address and its size.\<close>

definition block_disjoint :: "u32 \<times> u32 \<Rightarrow> u32 \<times> u32 \<Rightarrow> bool" where
  "block_disjoint a b \<longleftrightarrow>
     unat (fst a) + unat (snd a) \<le> unat (fst b) \<or> unat (fst b) + unat (snd b) \<le> unat (fst a)"

fun alloc_all :: "(u32 \<Rightarrow> 's \<Rightarrow> (u32 \<times> 's) res) \<Rightarrow> u32 list \<Rightarrow> 's \<Rightarrow> ((u32 \<times> u32) list \<times> 's) res" where
  "alloc_all alloc [] s = Inr ([], s)"
| "alloc_all alloc (n # ns) s =
     bind_res (alloc n s) (\<lambda>(p, s1).
     bind_res (alloc_all alloc ns s1) (\<lambda>(bs, s2). Inr ((p, n) # bs, s2)))"

text \<open>The laws: a request the allocator can name gets a block between the old and the new
  watermark, inside the limit, aligned and zeroed; what is below the watermark stays.\<close>

locale bump_allocator =
  fixes alloc :: "u32 \<Rightarrow> 's \<Rightarrow> (u32 \<times> 's) res"
    and good :: "'s \<Rightarrow> bool"
    and ok_size :: "u32 \<Rightarrow> bool"
    and mark :: "'s \<Rightarrow> nat"
    and limit :: nat
    and memory :: "'s \<Rightarrow> kmem"
  assumes alloc_block:
    "good s \<Longrightarrow> ok_size n \<Longrightarrow> alloc n s = Inr (p, s') \<Longrightarrow>
     good s' \<and> mark s \<le> unat p \<and> unat p + unat n \<le> mark s' \<and> mark s' < limit \<and> 8 dvd unat p"
  and alloc_zero:
    "good s \<Longrightarrow> ok_size n \<Longrightarrow> alloc n s = Inr (p, s') \<Longrightarrow> i < unat n \<Longrightarrow>
     memory s' (p + of_nat i) = 0"
  and alloc_keeps:
    "good s \<Longrightarrow> ok_size n \<Longrightarrow> alloc n s = Inr (p, s') \<Longrightarrow> unat x < mark s \<Longrightarrow>
     memory s' x = memory s x"
begin

lemma mark_mono: "good s \<Longrightarrow> ok_size n \<Longrightarrow> alloc n s = Inr (p, s') \<Longrightarrow> mark s \<le> mark s'"
  using alloc_block by fastforce

lemma all_blocks:
  "good s \<Longrightarrow> list_all ok_size ns \<Longrightarrow> alloc_all alloc ns s = Inr (bs, s') \<Longrightarrow>
   good s' \<and> mark s \<le> mark s' \<and> map snd bs = ns \<and>
   (\<forall>(p, n) \<in> set bs. mark s \<le> unat p \<and> unat p + unat n < limit \<and> 8 dvd unat p) \<and>
   sorted_wrt block_disjoint bs \<and> (\<forall>x. unat x < mark s \<longrightarrow> memory s' x = memory s x)"
proof (induction ns arbitrary: s bs)
  case (Cons n ns)
  obtain p s1 bs1 where step: "alloc n s = Inr (p, s1)" "alloc_all alloc ns s1 = Inr (bs1, s')"
    and bs: "bs = (p, n) # bs1"
    using Cons.prems(3) by (auto simp: bind_res_eq_Inr_iff split: prod.splits)
  have n: "ok_size n" and ns: "list_all ok_size ns" using Cons.prems(2) by auto
  note blk = alloc_block [OF Cons.prems(1) n step(1)]
  have IH: "good s' \<and> mark s1 \<le> mark s' \<and> map snd bs1 = ns \<and>
     (\<forall>(p, n) \<in> set bs1. mark s1 \<le> unat p \<and> unat p + unat n < limit \<and> 8 dvd unat p) \<and>
     sorted_wrt block_disjoint bs1 \<and> (\<forall>x. unat x < mark s1 \<longrightarrow> memory s' x = memory s1 x)"
    using Cons.IH [of s1 bs1] blk ns step(2) by blast
  have "\<forall>b \<in> set bs1. block_disjoint (p, n) b"
    using IH blk by (fastforce simp: block_disjoint_def)
  moreover have "memory s' x = memory s x" if "unat x < mark s" for x
    using that IH blk alloc_keeps [OF Cons.prems(1) n step(1) that] by simp
  ultimately show ?case using IH blk bs by fastforce
qed simp

end

subsection \<open>The heap pointer\<close>

lemma unat_ROUNDUP8:
  assumes "unat a + 7 < 2 ^ 32"
  shows "unat (ROUNDUP a 8) = (unat a + 7) div 8 * 8"
proof -
  have "ROUNDUP a 8 = (a + 7) AND NOT (mask 3)"
    by (simp add: ROUNDUP_def mask_eq_exp_minus_1 add.commute)
  then have "int (unat (ROUNDUP a 8)) = int (unat (a + 7) div 8 * 8)"
    using uint_and_not_mask [of "a + 7" 3] by (simp add: zdiv_int uint_nat [symmetric])
  moreover have "unat (a + 7) = unat a + 7"
    using assms unat_add_lem [THEN iffD1, of a 7] by simp
  ultimately show ?thesis by (simp only: of_nat_eq_iff)
qed

text \<open>The address the next block starts at, and the heaps the allocator works on.\<close>

definition heap_mark :: "Area \<Rightarrow> klib \<Rightarrow> nat" where
  "heap_mark heap k = unat (if heap_init k then heap_addr k else ROUNDUP (area_start heap) 8)"

definition heap_ok :: "Area \<Rightarrow> bool" where
  "heap_ok heap \<longleftrightarrow> 0 < unat (area_start heap) \<and> unat (area_start heap) + 7 < unat (area_end heap)"

definition heap_wf :: "Area \<Rightarrow> klib \<Rightarrow> bool" where
  "heap_wf heap k \<longleftrightarrow> heap_ok heap \<and> 8 dvd heap_mark heap k \<and>
     unat (area_start heap) \<le> heap_mark heap k \<and> heap_mark heap k < unat (area_end heap)"

definition size_ok :: "Area \<Rightarrow> u32 \<Rightarrow> bool" where
  "size_ok heap n \<longleftrightarrow> n \<noteq> 0 \<and> unat (area_end heap) + unat n + 7 < 2 ^ 32"

definition rounded :: "u32 \<Rightarrow> nat" where
  "rounded n = (unat n + 7) div 8 * 8"

lemma rounded_ge: "unat n \<le> rounded n"
  unfolding rounded_def by presburger

lemma init_klib_wf:
  assumes "heap_ok heap" and "\<not> heap_init k"
  shows "heap_wf heap k"
proof -
  have "unat (area_start heap) + 7 < 2 ^ 32"
    using assms(1) unat_less_2p32 [of "area_end heap"] by (simp add: heap_ok_def)
  then have "heap_mark heap k = (unat (area_start heap) + 7) div 8 * 8"
    using assms(2) unat_ROUNDUP8 by (simp add: heap_mark_def)
  moreover have "unat (area_start heap) \<le> (unat (area_start heap) + 7) div 8 * 8" by presburger
  moreover have "(unat (area_start heap) + 7) div 8 * 8 \<le> unat (area_start heap) + 7" by presburger
  ultimately show ?thesis using assms(1) by (auto simp: heap_wf_def heap_ok_def)
qed

text \<open>One request: it succeeds exactly when the rounded size ends before the end of the
  heap, and then yields the watermark.\<close>

lemma malloc_spec:
  assumes "heap_wf heap k" and "size_ok heap n"
  shows "malloc heap n k m =
    (let a = heap_mark heap k; e = a + rounded n in
     if e < unat (area_end heap)
     then Inr (of_nat a, k\<lparr>heap_init := True, heap_addr := of_nat e\<rparr>,
       (\<lambda>x. if unat (x - of_nat a) < rounded n then 0 else m x))
     else Inl Assertion)"
proof -
  define h where "h = (if heap_init k then heap_addr k else ROUNDUP (area_start heap) 8)"
  have hm: "unat h = heap_mark heap k" "of_nat (heap_mark heap k) = h"
    by (simp_all add: h_def heap_mark_def)
  have r: "unat (ROUNDUP n 8) = rounded n"
    using assms(2) by (simp add: size_ok_def rounded_def unat_ROUNDUP8)
  have rn: "rounded n \<le> unat n + 7" unfolding rounded_def by presburger
  have "unat h + unat (ROUNDUP n 8) < 2 ^ 32"
    using assms rn unfolding r hm by (simp add: heap_wf_def size_ok_def)
  then have e: "unat (h + ROUNDUP n 8) = heap_mark heap k + rounded n"
    using unat_add_lem [THEN iffD1, of h "ROUNDUP n 8"] r hm by simp
  have nz: "h \<noteq> NULL"
    using assms(1) hm by (auto simp: heap_wf_def heap_ok_def NULL_def)
  have lb: "area_start heap \<le> h + ROUNDUP n 8"
    using assms(1) e by (simp add: word_le_nat_alt heap_wf_def)
  have eq: "h + ROUNDUP n 8 = of_nat (heap_mark heap k + rounded n)"
    unfolding e [symmetric] by simp
  have mem: "memset m h 0 (ROUNDUP n 8) = Inr (\<lambda>x. if unat (x - h) < rounded n then 0 else m x)"
    using nz memset_loop_spec [of "unat (ROUNDUP n 8)"] unat_less_2p32 [of "ROUNDUP n 8"]
    by (auto simp: memset_def r fun_eq_iff)
  have kk: "heap_init k \<Longrightarrow> k\<lparr>heap_addr := v\<rparr> = k\<lparr>heap_init := True, heap_addr := v\<rparr>" for v by simp
  have "malloc heap n k m =
      bind_res (assert_res Assertion (area_start heap \<le> h + ROUNDUP n 8 \<and> h + ROUNDUP n 8 < area_end heap)) (\<lambda>_.
      bind_res (memset m h 0 (ROUNDUP n 8)) (\<lambda>m1.
      Inr (h, k\<lparr>heap_init := True, heap_addr := h + ROUNDUP n 8\<rparr>, m1)))"
    using assms(2) by (cases "heap_init k") (simp_all add: malloc_def size_ok_def Let_def h_def kk)
  then show ?thesis
    using lb e mem eq [symmetric] hm by (simp add: word_less_nat_alt Let_def)
qed

text \<open>The client's view of \<open>malloc\<close>: the state is the library's and the memory.\<close>

definition malloc_on :: "Area \<Rightarrow> u32 \<Rightarrow> klib \<times> kmem \<Rightarrow> (u32 \<times> klib \<times> kmem) res" where
  "malloc_on heap n s = malloc heap n (fst s) (snd s)"

lemma malloc_onD:
  assumes "heap_wf heap (fst s)" and "size_ok heap n" and "malloc_on heap n s = Inr (p, s')"
  shows "p = of_nat (heap_mark heap (fst s))" and "unat p = heap_mark heap (fst s)"
    and "heap_mark heap (fst s') = heap_mark heap (fst s) + rounded n"
    and "heap_mark heap (fst s) + rounded n < unat (area_end heap)"
    and "snd s' = (\<lambda>x. if unat (x - p) < rounded n then 0 else snd s x)"
    and "heap_wf heap (fst s')"
proof -
  let ?a = "heap_mark heap (fst s)"
  have lt: "?a + rounded n < unat (area_end heap)"
    and s': "p = of_nat ?a"
      "s' = ((fst s)\<lparr>heap_init := True, heap_addr := of_nat (?a + rounded n)\<rparr>,
         \<lambda>x. if unat (x - of_nat ?a) < rounded n then 0 else snd s x)"
    using assms(3) malloc_spec [OF assms(1,2), of "snd s"]
    by (auto simp: malloc_on_def Let_def split: if_splits)
  have small: "?a + rounded n < 2 ^ 32" using lt unat_less_2p32 [of "area_end heap"] by simp
  then have u: "unat (of_nat (?a + rounded n) :: u32) = ?a + rounded n"
    unfolding unat_of_nat by (simp add: take_bit_nat_eq_self)
  have m: "heap_mark heap (fst s') = ?a + rounded n"
    using u by (simp add: s'(2) heap_mark_def del: of_nat_add)
  have "8 dvd ?a + rounded n" using assms(1) by (simp add: heap_wf_def rounded_def)
  then have "heap_wf heap (fst s')" using assms(1) lt m by (simp add: heap_wf_def)
  moreover have "unat p = ?a" unfolding s'(1) by (simp add: heap_mark_def)
  ultimately show "p = of_nat ?a" and "unat p = ?a" and "heap_mark heap (fst s') = ?a + rounded n"
    and "?a + rounded n < unat (area_end heap)" and "heap_wf heap (fst s')"
    and "snd s' = (\<lambda>x. if unat (x - p) < rounded n then 0 else snd s x)"
    using s' lt m by simp_all
qed

interpretation km: bump_allocator "malloc_on heap" "\<lambda>s. heap_wf heap (fst s)" "size_ok heap"
  "\<lambda>s. heap_mark heap (fst s)" "unat (area_end heap)" snd for heap
proof
  fix s :: "klib \<times> kmem" and n p :: u32 and s'
  assume s: "heap_wf heap (fst s)" and n: "size_ok heap n" and r: "malloc_on heap n s = Inr (p, s')"
  note D = malloc_onD [OF s n r]
  show "heap_wf heap (fst s') \<and> heap_mark heap (fst s) \<le> unat p \<and>
      unat p + unat n \<le> heap_mark heap (fst s') \<and> heap_mark heap (fst s') < unat (area_end heap) \<and> 8 dvd unat p"
    using s rounded_ge [of n] D by (simp add: heap_wf_def)
  show "snd s' (p + of_nat i) = 0" if i: "i < unat n" for i
  proof -
    have "unat (of_nat i :: u32) = i"
      using i unat_less_2p32 [of n] unfolding unat_of_nat by (simp add: take_bit_nat_eq_self)
    then show ?thesis using i rounded_ge [of n] D(5) by simp
  qed
  show "snd s' x = snd s x" if x: "unat x < heap_mark heap (fst s)" for x
  proof -
    have "x < p" using x D(2) by (simp add: word_less_nat_alt)
    then have "unat (x - p) = 2 ^ 32 - (unat p - unat x)" by (rule unat_diff_wrap)
    moreover have "unat p + rounded n < 2 ^ 32" using unat_less_2p32 [of "area_end heap"]
      using D(2,4) by simp
    ultimately have "\<not> unat (x - p) < rounded n" by linarith
    then show ?thesis using D(5) by simp
  qed
qed

text \<open>C24: blocks that \<open>malloc\<close> returns.  Let the heap begin above address 0 and hold at least
  eight bytes, and let the library be fresh.  For a list of nonzero request sizes, none so large that it passes the end
  of the address space counted from the end of the heap, if all requests succeed then the
  blocks have the sizes requested, lie inside the heap, start at multiples of eight and are
  pairwise disjoint; the memory below the heap is unchanged.\<close>

theorem malloc_blocks:
  assumes "heap_ok heap" and "list_all (size_ok heap) sizes"
    and "alloc_all (malloc_on heap) sizes (init_klib, m) = Inr (blocks, k, m')"
  shows "map snd blocks = sizes \<and>
    (\<forall>(p, n) \<in> set blocks.
      unat (area_start heap) \<le> unat p \<and> unat p + unat n < unat (area_end heap) \<and> 8 dvd unat p) \<and>
    sorted_wrt block_disjoint blocks \<and>
    (\<forall>x < area_start heap. m' x = m x)"
proof (intro conjI)
  have wf: "heap_wf heap init_klib" using assms(1) by (rule init_klib_wf) (simp add: init_klib_def)
  then have start: "unat (area_start heap) \<le> heap_mark heap init_klib" by (simp add: heap_wf_def)
  note all = km.all_blocks [of heap "(init_klib, m)" sizes blocks "(k, m')", simplified, OF wf assms(2,3)]
  show "map snd blocks = sizes" and "sorted_wrt block_disjoint blocks" using all by auto
  show "\<forall>(p, n) \<in> set blocks. unat (area_start heap) \<le> unat p \<and> unat p + unat n < unat (area_end heap) \<and> 8 dvd unat p"
    using all start by fastforce
  show "\<forall>x < area_start heap. m' x = m x"
    using all start by (auto simp: word_less_nat_alt)
qed

definition demo_heap :: Area where
  "demo_heap = \<lparr>area_start = 0x80001000, area_end = 0x88000000\<rparr>"

lemma demo_malloc:
  "malloc_on demo_heap 5 (init_klib, m) =
     Inr (0x80001000, \<lparr>next_rand = 1, heap_init = True, heap_addr = 0x80001008\<rparr>, memset_loop m 0x80001000 0 8)"
  "malloc_on demo_heap 16 (\<lparr>next_rand = 1, heap_init = True, heap_addr = 0x80001008\<rparr>, m) =
     Inr (0x80001008, \<lparr>next_rand = 1, heap_init = True, heap_addr = 0x80001018\<rparr>, memset_loop m 0x80001008 0 16)"
  by (simp_all add: malloc_on_def malloc_def demo_heap_def init_klib_def memset_def ROUNDUP_def NULL_def
      del: memset_loop.simps)

lemma demo_heap_two:
  "alloc_all (malloc_on demo_heap) [5, 16] (init_klib, m) =
     Inr ([(0x80001000, 5), (0x80001008, 16)], \<lparr>next_rand = 1, heap_init = True, heap_addr = 0x80001018\<rparr>,
       memset_loop (memset_loop m 0x80001000 0 8) 0x80001008 0 16)"
  by (simp add: demo_malloc del: memset_loop.simps)

theorem malloc_blocks_witness:
  "block_disjoint (0x80001000, 5) (0x80001008, 16)"
proof -
  have "sorted_wrt block_disjoint [(0x80001000, 5), (0x80001008, 16)]"
    by (rule malloc_blocks [THEN conjunct2, THEN conjunct2, THEN conjunct1, of demo_heap "[5, 16]" "\<lambda>_. 7", OF _ _ demo_heap_two])
      (simp_all add: heap_ok_def demo_heap_def size_ok_def)
  then show ?thesis by simp
qed

subsection \<open>Numbers\<close>

lemma rand_range: "fst (rand k) = r \<Longrightarrow> 0 \<le> r \<and> r < 32768"
proof -
  have "uint (w mod 32768 :: u32) < 32768" for w :: u32 by (simp add: uint_mod_distrib)
  then show "fst (rand k) = r \<Longrightarrow> 0 \<le> r \<and> r < 32768" by (auto simp: rand_def Let_def)
qed

end
