(* ===== verification/Kstdio.thy ===== *)
theory Kstdio
  imports Kstdlib
begin

text \<open>
  \<open>abstract-machine/klib/src/stdio.c\<close>: formatted output.  A C string argument is the list of
  its characters without the terminator, an argument list the list of its arguments, and the
  buffer the list of the characters stored from its start on, the terminator included.
  \<open>int\<close> values are \<open>int\<close>, values of type \<open>size_t\<close> are 32-bit words; where the source mixes
  the two, the conversion is written out (\<open>to_size\<close>, and \<open>sint\<close> back).
\<close>

definition NUL :: char where
  "NUL = CHR 0x00"

datatype va_arg = Int_arg int | Str_arg string | Null_arg

definition to_size :: "int \<Rightarrow> u32" where
  "to_size i = word_of_int i"

subsection \<open>itoa\<close>

definition digit :: string where
  "digit = ''0123456789abcdef''"

text \<open>The digits, least significant first; \<open>/\<close> and \<open>%\<close> truncate.  A base of 0 traps, and with
  base 1 or -1 the value never gets to 0.\<close>

function itoa_loop :: "int \<Rightarrow> int \<Rightarrow> string res" where
  "itoa_loop value base =
     (if value = 0 then Inr []
      else if base = 0 \<or> base = -1 \<and> value = - (2 ^ 31) then Inl Div_trap
      else if \<bar>base\<bar> = 1 then Inl Diverges
      else bind_res (assert_res Out_of_bounds (nat \<bar>value smod base\<bar> < length digit + 1)) (\<lambda>_.
        bind_res (itoa_loop (value sdiv base) base) (\<lambda>ds. Inr ((digit @ [NUL]) ! nat \<bar>value smod base\<bar> # ds))))"
  by pat_completeness auto
termination
proof (relation "measure (\<lambda>(value, base). nat \<bar>value\<bar>)")
  fix v b :: int
  assume v: "v \<noteq> 0" and b: "\<not> (b = 0 \<or> b = -1 \<and> v = - (2 ^ 31))" "\<bar>b\<bar> \<noteq> 1"
  then have "\<bar>v\<bar> div \<bar>b\<bar> < \<bar>v\<bar>" by (intro int_div_less_self) auto
  then have "\<bar>v sdiv b\<bar> < \<bar>v\<bar>"
    by (simp add: signed_divide_int_def abs_mult abs_sgn_eq split: if_splits)
      (use v b in \<open>auto simp: sgn_if pos_imp_zdiv_nonneg_iff split: if_splits\<close>)
  then show "((v sdiv b, b), v, b) \<in> measure (\<lambda>(value, base). nat \<bar>value\<bar>)" by simp
qed simp

declare itoa_loop.simps [simp del]

text \<open>The swaps of the reversing loop, \<open>n\<close> of them left, at index \<open>i\<close>.\<close>

fun rev_loop :: "string \<Rightarrow> nat \<Rightarrow> nat \<Rightarrow> string" where
  "rev_loop str i 0 = str"
| "rev_loop str i (Suc n) =
     rev_loop (str[i := str ! (length str - 1 - i), length str - 1 - i := str ! i]) (i + 1) n"

definition itoa :: "int \<Rightarrow> int \<Rightarrow> string res" where
  "itoa value base =
     bind_res (assert_res Assertion (base \<le> 16)) (\<lambda>_.
     let sign = (value < 0 \<and> base = 10) in
     bind_res (if sign then bind_res (assert_res Signed_overflow (int_ok (- value))) (\<lambda>_. Inr (- value))
               else Inr value) (\<lambda>v.
     bind_res (itoa_loop v base) (\<lambda>ds.
     let str = (if sign then ds @ ''-'' else ds) in
     Inr (rev_loop str 0 (length str div 2)))))"

subsection \<open>vsnprintf\<close>

text \<open>The characters stored, \<open>len\<close>, \<open>total_len\<close> and the arguments not yet taken.\<close>

record vs =
  vs_out :: string
  vs_len :: u32
  vs_total :: u32
  vs_ap :: "va_arg list"

text \<open>The two loops that read a number of the format.\<close>

fun read_number :: "string \<Rightarrow> int \<Rightarrow> (int \<times> string) res" where
  "read_number [] x = Inr (x, [])"
| "read_number (ch # fmt) x =
     (if is_digit ch then
        bind_res (assert_res Signed_overflow (int_ok (x * 10) \<and> int_ok (x * 10 + (of_char ch - 48)))) (\<lambda>_.
        read_number fmt (x * 10 + (of_char ch - 48)))
      else Inr (x, ch # fmt))"

lemma read_number_length: "read_number fmt x = Inr (y, fmt') \<Longrightarrow> length fmt' \<le> length fmt"
  by (induction fmt x rule: read_number.induct) (auto simp: bind_res_eq_Inr_iff split: if_splits)

definition read_padding :: "string \<Rightarrow> (bool \<times> int \<times> string) res" where
  "read_padding fmt =
     (case fmt of
        [] \<Rightarrow> Inr (False, 0, [])
      | ch # r \<Rightarrow>
          if ch = CHR ''0'' then bind_res (read_number r 0) (\<lambda>(padding, r'). Inr (True, padding, r'))
          else Inr (False, 0, ch # r))"

definition read_precision :: "string \<Rightarrow> (bool \<times> int \<times> string) res" where
  "read_precision fmt =
     (case fmt of
        [] \<Rightarrow> Inr (False, -1, [])
      | ch # r \<Rightarrow>
          if ch = CHR ''.'' then bind_res (read_number r 0) (\<lambda>(precision, r'). Inr (True, precision, r'))
          else Inr (False, -1, ch # r))"

lemma read_padding_length: "read_padding fmt = Inr (b, x, fmt') \<Longrightarrow> length fmt' \<le> length fmt"
  by (auto simp: read_padding_def bind_res_eq_Inr_iff le_SucI split: list.splits if_splits dest!: read_number_length)

lemma read_precision_length: "read_precision fmt = Inr (b, x, fmt') \<Longrightarrow> length fmt' \<le> length fmt"
  by (auto simp: read_precision_def bind_res_eq_Inr_iff le_SucI split: list.splits if_splits dest!: read_number_length)

definition put_char :: "u32 \<Rightarrow> char \<Rightarrow> vs \<Rightarrow> vs" where
  "put_char n ch v =
     (if vs_len v < n - 1 then v\<lparr>vs_out := vs_out v @ [ch], vs_len := vs_len v + 1\<rparr> else v)"

fun pad_loop :: "u32 \<Rightarrow> char \<Rightarrow> nat \<Rightarrow> vs \<Rightarrow> vs" where
  "pad_loop n ch 0 v = v"
| "pad_loop n ch (Suc i) v = (if vs_len v < n - 1 then pad_loop n ch i (put_char n ch v) else v)"

definition put_str :: "u32 \<Rightarrow> string \<Rightarrow> u32 \<Rightarrow> vs \<Rightarrow> vs" where
  "put_str n str to_copy v =
     (let copy_len = (if n - vs_len v - 1 < to_copy then n - vs_len v - 1 else to_copy) in
      if vs_len v < n - 1 then
        v\<lparr>vs_out := vs_out v @ take (unat copy_len) str, vs_len := vs_len v + copy_len\<rparr>
      else v)"

text \<open>The number of padding characters: \<open>precision\<close>, \<open>padding\<close> and \<open>total_width\<close> are
  converted to \<open>size_t\<close> for the comparisons with \<open>num_len\<close>.\<close>

definition d_width :: "bool \<Rightarrow> int \<Rightarrow> int \<Rightarrow> u32 \<Rightarrow> int" where
  "d_width precision_flag precision padding num_len =
     (let width = (if num_len < to_size precision then sint (to_size precision - num_len + 1) else 0);
          total_width = (if num_len < to_size padding then padding else sint num_len);
          total_width = (if precision_flag \<and> num_len < to_size precision then precision else total_width)
      in if num_len < to_size total_width then sint (to_size total_width - num_len - to_size width) else 0)"

text \<open>The conversions.  An argument that is missing, or of another type than the conversion
  asks for, is undefined.\<close>

definition vs_d :: "u32 \<Rightarrow> bool \<Rightarrow> int \<Rightarrow> bool \<Rightarrow> int \<Rightarrow> vs \<Rightarrow> vs res" where
  "vs_d n padding_flag padding precision_flag precision v =
     (case vs_ap v of
        Int_arg num # ap \<Rightarrow>
          bind_res (itoa num 10) (\<lambda>buf.
          bind_res (assert_res Out_of_bounds (length buf < 20)) (\<lambda>_.
          let num_len = of_nat (length buf);
              v1 = v\<lparr>vs_ap := ap, vs_total := vs_total v + num_len\<rparr>;
              width = d_width precision_flag precision padding num_len;
              v2 = pad_loop n (if padding_flag then CHR ''0'' else CHR '' '') (nat width) v1
          in Inr (put_str n buf num_len v2)))
      | _ \<Rightarrow> Inl Out_of_bounds)"

definition vs_s :: "u32 \<Rightarrow> bool \<Rightarrow> int \<Rightarrow> vs \<Rightarrow> vs res" where
  "vs_s n precision_flag precision v =
     (case vs_ap v of
        Str_arg str # ap \<Rightarrow>
          (let str_len = of_nat (length str);
               v1 = v\<lparr>vs_ap := ap, vs_total := vs_total v + str_len\<rparr>;
               to_copy = (if precision_flag then (if to_size precision < str_len then to_size precision else str_len)
                          else str_len)
           in Inr (put_str n str to_copy v1))
      | Null_arg # ap \<Rightarrow> Inl Assertion
      | _ \<Rightarrow> Inl Out_of_bounds)"

definition vs_other :: "u32 \<Rightarrow> char \<Rightarrow> vs \<Rightarrow> vs" where
  "vs_other n ch v = (put_char n ch v)\<lparr>vs_total := vs_total v + 1\<rparr>"

text \<open>One round of the loop for a format that starts with \<open>%\<close> and another character: the
  rest of the format and the new state.  A format that ends within the flags makes the
  switch see the terminator; the loop then reads on behind it.\<close>

definition vs_spec :: "u32 \<Rightarrow> string \<Rightarrow> vs \<Rightarrow> (string \<times> vs) res" where
  "vs_spec n fmt v =
     bind_res (read_padding fmt) (\<lambda>(padding_flag, padding, fmt1).
     bind_res (read_precision fmt1) (\<lambda>(precision_flag, precision, fmt2).
     case fmt2 of
       [] \<Rightarrow> Inl Out_of_bounds
     | ch # fmt3 \<Rightarrow>
         if ch = CHR ''d'' then
           bind_res (vs_d n padding_flag padding precision_flag precision v) (\<lambda>v1. Inr (fmt3, v1))
         else if ch = CHR ''s'' then bind_res (vs_s n precision_flag precision v) (\<lambda>v1. Inr (fmt3, v1))
         else Inr (fmt3, vs_other n ch v)))"

lemma vs_spec_length:
  assumes "vs_spec n fmt v = Inr (fmt', v')"
  shows "length fmt' < length fmt"
proof -
  obtain b x fmt1 where 1: "read_padding fmt = Inr (b, x, fmt1)"
    and r1: "bind_res (read_precision fmt1) (\<lambda>(precision_flag, precision, fmt2).
     case fmt2 of
       [] \<Rightarrow> Inl Out_of_bounds
     | ch # fmt3 \<Rightarrow>
         if ch = CHR ''d'' then bind_res (vs_d n b x precision_flag precision v) (\<lambda>v1. Inr (fmt3, v1))
         else if ch = CHR ''s'' then bind_res (vs_s n precision_flag precision v) (\<lambda>v1. Inr (fmt3, v1))
         else Inr (fmt3, vs_other n ch v)) = Inr (fmt', v')"
    using assms unfolding vs_spec_def by (elim bind_resE) (auto split: prod.splits)
  obtain b' y fmt2 where 2: "read_precision fmt1 = Inr (b', y, fmt2)" and "\<exists>ch. fmt2 = ch # fmt'"
    using r1 by (elim bind_resE) (auto simp: bind_res_eq_Inr_iff split: list.splits if_splits)
  then show ?thesis using read_padding_length [OF 1] read_precision_length [OF 2] by auto
qed

function vs_loop :: "u32 \<Rightarrow> string \<Rightarrow> vs \<Rightarrow> vs res" where
  "vs_loop n [] v = Inr v"
| "vs_loop n (ch # fmt) v =
     (if ch = CHR ''%'' \<and> fmt \<noteq> [] then
        bind_res (vs_spec n fmt v) (\<lambda>r. vs_loop n (fst r) (snd r))
      else vs_loop n fmt (vs_other n ch v))"
  by pat_completeness auto
termination
  by (relation "measure (\<lambda>(n, fmt, v). length fmt)") (auto dest: vs_spec_length)

definition vsnprintf :: "u32 \<Rightarrow> string \<Rightarrow> va_arg list \<Rightarrow> (string \<times> int) res" where
  "vsnprintf n fmt ap =
     (if n = 0 then Inr ([], 0)
      else bind_res (vs_loop n fmt \<lparr>vs_out = [], vs_len = 0, vs_total = 0, vs_ap = ap\<rparr>) (\<lambda>v.
        Inr (vs_out v @ [NUL], sint (vs_total v))))"

definition vsprintf :: "string \<Rightarrow> va_arg list \<Rightarrow> (string \<times> int) res" where
  "vsprintf fmt ap = vsnprintf (-1) fmt ap"

definition snprintf :: "u32 \<Rightarrow> string \<Rightarrow> va_arg list \<Rightarrow> (string \<times> int) res" where
  "snprintf n fmt ap = vsnprintf n fmt ap"

definition sprintf :: "string \<Rightarrow> va_arg list \<Rightarrow> (string \<times> int) res" where
  "sprintf fmt ap = vsprintf fmt ap"

text \<open>The characters given to \<open>putch\<close>, and the result.\<close>

definition putstr :: "string \<Rightarrow> string" where
  "putstr s = takeWhile (\<lambda>ch. ch \<noteq> NUL) s"

definition kprintf :: "string \<Rightarrow> va_arg list \<Rightarrow> (string \<times> int) res" where
  "kprintf fmt ap =
     bind_res (vsnprintf 1024 fmt ap) (\<lambda>(buffer, result). Inr (putstr buffer, result))"

end
