(* ===== verification/Kstdio_Facts.thy ===== *)
theory Kstdio_Facts
  imports Kstdio Kstring_Facts
begin

text \<open>
  Facts on formatted output: \<open>itoa\<close> writes the decimal numeral of every number but 0, for which
  it writes nothing, \<open>atoi\<close> reads them back, and \<open>vsnprintf\<close> stores the cut expansion of a format
  whose conversions have no flags and whose numbers are not 0, and returns the length of the whole.
\<close>

subsection \<open>The reversing loop\<close>

lemma length_rev_loop [simp]: "length (rev_loop str i n) = length str"
  by (induction str i n rule: rev_loop.induct) simp_all

lemma rev_loop_nth:
  "i + n \<le> length str div 2 \<Longrightarrow> j < length str \<Longrightarrow>
   rev_loop str i n ! j =
     (if i \<le> j \<and> j < i + n \<or> i \<le> length str - 1 - j \<and> length str - 1 - j < i + n
      then str ! (length str - 1 - j) else str ! j)"
proof (induction str i n rule: rev_loop.induct)
  case (2 str i n)
  let ?s = "str[i := str ! (length str - 1 - i), length str - 1 - i := str ! i]"
  have IH: "rev_loop ?s (i + 1) n ! j =
     (if i + 1 \<le> j \<and> j < i + 1 + n \<or> i + 1 \<le> length str - 1 - j \<and> length str - 1 - j < i + 1 + n
      then ?s ! (length str - 1 - j) else ?s ! j)"
    using 2 by simp
  show ?case
    using IH "2.prems" by (auto simp: nth_list_update)
qed auto

lemma rev_loop_rev: "rev_loop str 0 (length str div 2) = rev str"
  by (rule nth_equalityI) (auto simp: rev_loop_nth rev_nth intro!: arg_cong [where f = "nth str"])

subsection \<open>Decimal numerals\<close>

fun decimal :: "nat \<Rightarrow> string" where
  "decimal n = (if n < 10 then [digit ! n] else decimal (n div 10) @ [digit ! (n mod 10)])"

declare decimal.simps [simp del]

definition int_text :: "int \<Rightarrow> string" where
  "int_text i = (if i < 0 then CHR ''-'' # decimal (nat (- i)) else decimal (nat i))"

lemma itoa_loop_step:
  assumes "0 < n"
  shows "itoa_loop (int n) 10 = bind_res (itoa_loop (int (n div 10)) 10) (\<lambda>cs. Inr (digit ! (n mod 10) # cs))"
proof -
  have "int n sdiv 10 = int (n div 10)" "int n smod 10 = int (n mod 10)"
    by (simp_all add: signed_divide_int_def signed_modulo_int_def sgn_if zdiv_int zmod_int minus_div_mult_eq_mod)
  moreover have "n mod 10 < 10" by simp
  moreover from this have "n mod 10 < 17" by linarith
  moreover have "length digit = 16" by (simp add: digit_def)
  moreover have "(digit @ [NUL]) ! (n mod 10) = digit ! (n mod 10)"
    using calculation(3,5) by (auto simp: nth_append)
  ultimately show ?thesis using assms by (subst itoa_loop.simps) simp
qed

lemma itoa_loop_decimal: "0 < n \<Longrightarrow> itoa_loop (int n) 10 = Inr (rev (decimal n))"
proof (induction n rule: decimal.induct)
  case (1 n)
  show ?case
  proof (cases "n < 10")
    case True
    then have "itoa_loop (int (n div 10)) 10 = Inr []" by (subst itoa_loop.simps) simp
    then show ?thesis using itoa_loop_step [OF 1(2)] True by (subst decimal.simps) simp
  next
    case False
    then have "0 < n div 10" by simp
    then show ?thesis using itoa_loop_step [OF 1(2)] 1(1) False by (subst decimal.simps) simp
  qed
qed

lemma itoa_text: "- (2 ^ 31) < i \<Longrightarrow> i \<noteq> 0 \<Longrightarrow> itoa i 10 = Inr (int_text i)"
  using itoa_loop_decimal [of "nat (- i)"] itoa_loop_decimal [of "nat i"] rev_loop_rev [of "rev (int_text i)"]
  by (auto simp: itoa_def int_text_def int_ok_def Let_def)

lemma itoa_zero: "itoa 0 10 = Inr []"
proof -
  have "itoa_loop 0 10 = Inr []" by (subst itoa_loop.simps) simp
  then show ?thesis by (simp add: itoa_def Let_def)
qed

lemma length_decimal: "n < 10 ^ Suc k \<Longrightarrow> length (decimal n) \<le> Suc k"
proof (induction n arbitrary: k rule: decimal.induct)
  case (1 n)
  show ?case
  proof (cases "n < 10")
    case True
    then show ?thesis by (subst decimal.simps) simp
  next
    case False
    then obtain k' where k: "k = Suc k'" using 1(2) by (cases k) auto
    then have "n div 10 < 10 ^ Suc k'" using 1(2) by (simp add: less_mult_imp_div_less mult.commute)
    then show ?thesis using 1(1) k False by (subst decimal.simps) auto
  qed
qed

lemma length_int_text: "\<bar>i\<bar> < 2 ^ 31 \<Longrightarrow> length (int_text i) \<le> 11"
proof -
  assume i: "\<bar>i\<bar> < 2 ^ 31"
  then have "length (decimal (nat i)) \<le> Suc 9" "length (decimal (nat (- i))) \<le> Suc 9"
    by - (rule length_decimal; simp; linarith)+
  then show ?thesis by (auto simp: int_text_def)
qed

subsection \<open>Reading numerals\<close>

lemma digit_code: "k < 10 \<Longrightarrow> of_char (digit ! k) = (48 + of_nat k :: int)"
proof -
  assume "k < 10"
  then have "k = 0 \<or> k = 1 \<or> k = 2 \<or> k = 3 \<or> k = 4 \<or> k = 5 \<or> k = 6 \<or> k = 7 \<or> k = 8 \<or> k = 9"
    by presburger
  then show ?thesis by (elim disjE) (simp_all add: digit_def)
qed

lemma atoi_loop_decimal:
  "int n + 48 < 2 ^ 31 \<Longrightarrow> atoi_loop (decimal n @ cs) 0 = atoi_loop cs (int n)"
proof (induction n arbitrary: cs rule: decimal.induct)
  case (1 n)
  have k: "n mod 10 < 10" by simp
  have n: "int n = 10 * int (n div 10) + int (n mod 10)"
    by (metis mult_div_mod_eq of_nat_add of_nat_mult of_nat_numeral)
  have last: "atoi_loop (digit ! (n mod 10) # cs) (int (n div 10)) = atoi_loop cs (int n)"
    using 1(2) n k digit_code [OF k] by (auto simp add: is_digit_def int_ok_def mult.commute)
  show ?case
  proof (cases "n < 10")
    case True
    then show ?thesis using last by (subst decimal.simps) simp
  next
    case False
    then show ?thesis using last 1 by (subst decimal.simps) simp
  qed
qed

lemma decimal_char: "ch \<in> set (decimal n) \<Longrightarrow> ch \<noteq> CHR '' ''"
proof (induction n rule: decimal.induct)
  case (1 n)
  have "digit ! (n mod 10) \<noteq> CHR '' ''" using digit_code [of "n mod 10"] by auto
  moreover have "ch = digit ! (n mod 10) \<or> \<not> n < 10 \<and> ch \<in> set (decimal (n div 10))"
    using 1(2) by (subst (asm) decimal.simps) (auto split: if_splits)
  ultimately show ?case using 1(1) by auto
qed

lemma decimal_no_blank: "dropWhile (\<lambda>ch. ch = CHR '' '') (decimal n) = decimal n"
  using decimal_char [of "hd (decimal n)" n] by (cases "decimal n") auto

text \<open>\<open>itoa\<close> and \<open>atoi\<close> are inverse on the numbers both accept.  Every \<open>int\<close> but the
  least is written in base ten without an error, in at most eleven characters, and \<open>atoi\<close>
  reads a number between 0 and \<open>2\<^sup>3\<^sup>1 - 49\<close> back (also 0, whose numeral is missing);
  above that its sum of \<open>x * 10\<close> and the character code may leave the range of \<open>int\<close>.\<close>

theorem itoa_atoi:
  assumes "- (2 ^ 31) < i" and "i < 2 ^ 31"
  shows "\<exists>str. itoa i 10 = Inr str \<and> length str \<le> 11 \<and> (0 \<le> i \<and> i < 2 ^ 31 - 48 \<longrightarrow> katoi str = Inr i)"
proof (cases "i = 0")
  case True
  then show ?thesis using itoa_zero by (simp add: katoi_def)
next
  case False
  have "katoi (int_text i) = Inr i" if "0 \<le> i" "i < 2 ^ 31 - 48"
    using that atoi_loop_decimal [of "nat i" "[]"] by (simp add: katoi_def int_text_def decimal_no_blank)
  then show ?thesis using itoa_text [OF assms(1) False] length_int_text [of i] assms by auto
qed

theorem itoa_atoi_witness: "itoa 2024 10 = Inr ''2024'' \<and> katoi ''2024'' = Inr 2024"
proof -
  have "itoa 2024 10 = Inr (int_text 2024)" by (rule itoa_text) simp_all
  moreover have "int_text 2024 = ''2024''" by (simp add: int_text_def decimal.simps digit_def)
  ultimately show ?thesis using itoa_atoi [of 2024] by simp
qed

subsection \<open>Formats without flags\<close>

text \<open>The state after \<open>text\<close> was produced.\<close>

definition vs_rel :: "u32 \<Rightarrow> string \<Rightarrow> va_arg list \<Rightarrow> vs \<Rightarrow> bool" where
  "vs_rel n tx ap v \<longleftrightarrow> vs_out v = take (unat n - 1) tx \<and> unat (vs_len v) = length (vs_out v) \<and>
     vs_total v = of_nat (length tx) \<and> vs_ap v = ap"

lemma unat_pred: "n \<noteq> 0 \<Longrightarrow> unat (n - 1 :: u32) = unat n - 1"
  by (simp add: unat_minus_one)

lemma unat_room:
  assumes "n \<noteq> 0" and "unat l \<le> unat n - 1"
  shows "unat (n - l - 1 :: u32) = unat n - 1 - unat l"
proof -
  have "n - l - 1 = (n - 1) - l" by simp
  moreover have "l \<le> n - 1" using assms unat_pred [OF assms(1)] by (simp add: word_le_nat_alt)
  ultimately have "unat (n - l - 1) = unat (n - 1) - unat l" by (simp only: unat_sub)
  then show ?thesis using unat_pred [OF assms(1)] by simp
qed

lemma put_str_rel:
  assumes "vs_rel n tx ap v" and "n \<noteq> 0" and "length str < 2 ^ 32"
  shows "vs_rel n (tx @ str) ap
    ((put_str n str (of_nat (length str)) v)\<lparr>vs_total := vs_total v + of_nat (length str)\<rparr>)"
proof -
  let ?l = "vs_len v"
  have l: "unat ?l = length (vs_out v)" "length (vs_out v) \<le> unat n - 1"
    using assms(1) by (simp_all add: vs_rel_def)
  note r = unat_room [OF assms(2), of ?l]
  have s: "unat (of_nat (length str) :: u32) = length str"
    using assms(3) unfolding unat_of_nat by (simp add: take_bit_nat_eq_self)
  show ?thesis
  proof (cases "?l < n - 1")
    case True
    then have lt: "unat ?l < unat n - 1" using unat_pred [OF assms(2)] by (simp add: word_less_nat_alt)
    then have out: "vs_out v = tx" using assms(1) by (auto simp: vs_rel_def)
    define c where "c = (if n - ?l - 1 < of_nat (length str) then n - ?l - 1 else of_nat (length str))"
    have c: "unat c = min (unat n - 1 - length tx) (length str)"
      using r l lt s out by (auto simp: c_def word_less_nat_alt)
    then have "unat ?l + unat c < 2 ^ 32" using l lt out unat_less_2p32 [of n] by simp
    then have "unat (?l + c) = unat ?l + unat c" using unat_add_lem [THEN iffD1, of ?l c] by simp
    then show ?thesis
      using True assms(1) c l out unfolding put_str_def c_def [symmetric]
      by (auto simp: vs_rel_def take_append min_def)
  next
    case False
    then have "unat n - 1 \<le> unat ?l" using unat_pred [OF assms(2)] by (simp add: word_less_nat_alt)
    then show ?thesis using False assms(1) l by (auto simp: put_str_def vs_rel_def Let_def)
  qed
qed

lemma put_char_put_str: "put_char n ch v = put_str n [ch] 1 v"
proof -
  have "n - vs_len v - 1 = (n - 1) - vs_len v" by simp
  then have "vs_len v < n - 1 \<Longrightarrow> n - vs_len v - 1 \<noteq> 0" by (metis eq_iff_diff_eq_0 order_less_irrefl)
  then have "vs_len v < n - 1 \<Longrightarrow> \<not> n - vs_len v - 1 < 1" by (simp add: word_less_1)
  then show ?thesis by (auto simp: put_char_def put_str_def Let_def)
qed

lemma put_char_rel:
  assumes "vs_rel n tx ap v" and "n \<noteq> 0"
  shows "vs_rel n (tx @ [ch]) ap (vs_other n ch v)"
  using put_str_rel [OF assms, of "[ch]"] by (simp add: vs_other_def put_char_put_str)

text \<open>A format as the list of its pieces: literal characters, \<open>%d\<close> and \<open>%s\<close> with their
  arguments.\<close>

datatype piece = Lit char | PInt int | PStr string

primrec piece_ok :: "piece \<Rightarrow> bool" where
  "piece_ok (Lit ch) \<longleftrightarrow> ch \<noteq> CHR ''%'' \<and> ch \<noteq> NUL"
| "piece_ok (PInt i) \<longleftrightarrow> \<bar>i\<bar> < 2 ^ 31"
| "piece_ok (PStr s) \<longleftrightarrow> NUL \<notin> set s"

primrec piece_fmt :: "piece \<Rightarrow> string" where
  "piece_fmt (Lit ch) = [ch]"
| "piece_fmt (PInt i) = ''%d''"
| "piece_fmt (PStr s) = ''%s''"

primrec piece_args :: "piece \<Rightarrow> va_arg list" where
  "piece_args (Lit ch) = []"
| "piece_args (PInt i) = [Int_arg i]"
| "piece_args (PStr s) = [Str_arg s]"

primrec piece_text :: "piece \<Rightarrow> string" where
  "piece_text (Lit ch) = [ch]"
| "piece_text (PInt i) = int_text i"
| "piece_text (PStr s) = s"

lemma d_width_0: "d_width False p 0 num_len = 0"
  by (simp add: d_width_def to_size_def Let_def)

lemma put_str_fields [simp]:
  "vs_total (put_str n str c v) = vs_total v" "vs_ap (put_str n str c v) = vs_ap v"
  "(put_str n str c v)\<lparr>vs_ap := a, vs_total := t\<rparr> = put_str n str c (v\<lparr>vs_ap := a, vs_total := t\<rparr>)"
  by (simp_all add: put_str_def Let_def)

lemma vs_d_rel:
  assumes "vs_rel n tx (Int_arg i # ap) v" and "n \<noteq> 0" and "\<bar>i\<bar> < 2 ^ 31" and "i \<noteq> 0"
  shows "\<exists>v'. vs_d n False 0 False (-1) v = Inr v' \<and> vs_rel n (tx @ int_text i) ap v'"
proof -
  have len: "length (int_text i) \<le> 11" using assms(3) by (rule length_int_text)
  have "vs_rel n tx ap (v\<lparr>vs_ap := ap\<rparr>)" using assms(1) by (simp add: vs_rel_def)
  from put_str_rel [OF this assms(2), of "int_text i"] len
  have "vs_rel n (tx @ int_text i) ap (put_str n (int_text i) (of_nat (length (int_text i)))
      (v\<lparr>vs_ap := ap, vs_total := vs_total v + of_nat (length (int_text i))\<rparr>))"
    by (simp add: vs_rel_def put_str_def Let_def split: if_splits)
  moreover have "itoa i 10 = Inr (int_text i)" using assms(3,4) by (intro itoa_text) simp_all
  moreover have "vs_ap v = Int_arg i # ap" using assms(1) by (simp add: vs_rel_def)
  ultimately show ?thesis using len by (simp add: vs_d_def d_width_0 Let_def)
qed

lemma vs_s_rel:
  assumes "vs_rel n tx (Str_arg s # ap) v" and "n \<noteq> 0" and "length s < 2 ^ 32"
  shows "\<exists>v'. vs_s n False (-1) v = Inr v' \<and> vs_rel n (tx @ s) ap v'"
proof -
  have "vs_rel n tx ap (v\<lparr>vs_ap := ap\<rparr>)" using assms(1) by (simp add: vs_rel_def)
  from put_str_rel [OF this assms(2,3)]
  have "vs_rel n (tx @ s) ap (put_str n s (of_nat (length s))
      (v\<lparr>vs_ap := ap, vs_total := vs_total v + of_nat (length s)\<rparr>))"
    by (simp add: vs_rel_def put_str_def Let_def split: if_splits)
  moreover have "vs_ap v = Str_arg s # ap" using assms(1) by (simp add: vs_rel_def)
  ultimately show ?thesis by (simp add: vs_s_def Let_def)
qed

lemma vs_loop_pieces:
  "vs_rel n tx (concat (map piece_args ps) @ ap) v \<Longrightarrow> n \<noteq> 0 \<Longrightarrow> list_all piece_ok ps \<Longrightarrow> PInt 0 \<notin> set ps \<Longrightarrow>
   length (concat (map piece_text ps)) < 2 ^ 32 \<Longrightarrow>
   \<exists>v'. vs_loop n (concat (map piece_fmt ps)) v = Inr v' \<and>
     vs_rel n (tx @ concat (map piece_text ps)) ap v'"
proof (induction ps arbitrary: tx v)
  case (Cons p ps)
  let ?fmt = "concat (map piece_fmt ps)" and ?ap = "concat (map piece_args ps) @ ap"
  have "\<exists>v1. vs_loop n (piece_fmt p @ ?fmt) v = vs_loop n ?fmt v1 \<and> vs_rel n (tx @ piece_text p) ?ap v1"
  proof (cases p)
    case (Lit ch)
    then show ?thesis using Cons.prems put_char_rel [of n tx ?ap v ch] by auto
  next
    case (PInt i)
    then show ?thesis using Cons.prems vs_d_rel [of n tx i ?ap v]
      by (auto simp: vs_spec_def read_padding_def read_precision_def)
  next
    case (PStr s)
    then show ?thesis using Cons.prems vs_s_rel [of n tx s ?ap v]
      by (auto simp: vs_spec_def read_padding_def read_precision_def)
  qed
  then obtain v1 where "vs_loop n (piece_fmt p @ ?fmt) v = vs_loop n ?fmt v1"
    and "vs_rel n (tx @ piece_text p) ?ap v1" by blast
  then show ?case using Cons.IH [of "tx @ piece_text p" v1] Cons.prems by simp
qed simp

text \<open>C25: formatted output without flags.  For a format made of ordinary characters, \<open>%d\<close> and
  \<open>%s\<close>, with a matching argument for each conversion, \<open>vsnprintf\<close> with a buffer of \<open>n > 0\<close>
  bytes stores the first \<open>n - 1\<close> characters of the expansion and a terminator, and returns the
  length of the whole expansion, provided that no number printed is 0 (for which the code prints
  nothing, see \<open>zero_prints_nothing\<close>).\<close>

theorem vsnprintf_pieces:
  assumes "n \<noteq> 0" and "list_all piece_ok ps" and "PInt 0 \<notin> set ps"
    and "length (concat (map piece_text ps)) < 2 ^ 31"
  shows "vsnprintf n (concat (map piece_fmt ps)) (concat (map piece_args ps)) =
    Inr (take (unat n - 1) (concat (map piece_text ps)) @ [NUL], int (length (concat (map piece_text ps))))"
proof -
  let ?text = "concat (map piece_text ps)"
  let ?v = "\<lparr>vs_out = [], vs_len = 0, vs_total = 0, vs_ap = concat (map piece_args ps)\<rparr>"
  have "vs_rel n [] (concat (map piece_args ps) @ []) ?v" by (simp add: vs_rel_def)
  then obtain v where "vs_loop n (concat (map piece_fmt ps)) ?v = Inr v" "vs_rel n ?text [] v"
    using vs_loop_pieces [of n "[]" ps "[]" ?v] assms by auto
  moreover have "sint (of_nat (length ?text) :: u32) = int (length ?text)"
  proof -
    have "uint (of_nat (length ?text) :: u32) = int (length ?text)"
      using assms(4) by (simp add: uint_nat unat_of_nat take_bit_nat_eq_self)
    then show ?thesis using assms(4) by (simp add: sint_uint signed_take_bit_int_eq_self)
  qed
  ultimately show ?thesis using assms(1) by (simp add: vsnprintf_def vs_rel_def)
qed

theorem vsnprintf_pieces_witness:
  "vsnprintf 6 ''a=%d;%s'' [Int_arg 42, Str_arg ''xyz''] = Inr (''a=42;'' @ [NUL], 8)"
proof -
  have "int_text 42 = ''42''" by (simp add: int_text_def decimal.simps digit_def)
  then show ?thesis
    using vsnprintf_pieces [of 6 "[Lit CHR ''a'', Lit CHR ''='', PInt 42, Lit CHR '';'', PStr ''xyz'']"]
    by (simp add: NUL_def)
qed

text \<open>The number 0 has no digit.\<close>

lemma zero_prints_nothing: "vsnprintf 20 ''x=%d'' [Int_arg 0] = Inr (''x='' @ [NUL], 2)"
  using itoa_zero
  by (simp add: vsnprintf_def vs_spec_def vs_d_def vs_other_def put_char_def put_str_def d_width_0 read_padding_def read_precision_def)

text \<open>Padding to a width stores more characters than asked for: \<open>precision\<close> is -1, which
  is a large number in the unsigned comparison.\<close>

lemma pad_loop_numeral:
  "pad_loop n ch (numeral k) v =
     (if vs_len v < n - 1 then pad_loop n ch (pred_numeral k) (put_char n ch v) else v)"
  by (simp add: numeral_eq_Suc)

lemma padding_example: "vsnprintf 20 ''%05d'' [Int_arg 42] = Inr (''0000042'' @ [NUL], 2)"
proof -
  have "itoa 42 10 = Inr (int_text 42)" by (rule itoa_text) simp_all
  moreover have "int_text 42 = ''42''" by (simp add: int_text_def decimal.simps digit_def)
  moreover have "d_width False (-1) 5 2 = 5" by (simp add: d_width_def to_size_def)
  moreover have "read_padding ''05d'' = Inr (True, 5, ''d'')"
    by (simp add: read_padding_def is_digit_def int_ok_def)
  moreover have "read_precision ''d'' = Inr (False, -1, ''d'')" by (simp add: read_precision_def)
  ultimately show ?thesis
    by (simp add: vsnprintf_def vs_spec_def vs_d_def pad_loop_numeral put_char_def put_str_def)
qed

end
