(* ===== verification/Int64.thy ===== *)
theory Int64
  imports Prelude
begin

text \<open>
  \<open>abstract-machine/klib/src/int64.c\<close>: 64-bit division on 32-bit machines, and counting of zero
  bits.  \<open>su_int\<close> and \<open>du_int\<close> are 32-bit and 64-bit words; \<open>si_int\<close> and \<open>di_int\<close> are the
  same words read with \<open>sint\<close>.  The builtins for counting zeros are calls of the functions
  of this file, as compiled for machines without such an instruction.
\<close>

subsection \<open>Double words\<close>

definition dw_low :: "u64 \<Rightarrow> u32" where
  "dw_low w = ucast w"

definition dw_high :: "u64 \<Rightarrow> u32" where
  "dw_high w = ucast (drop_bit 32 w)"

definition udwords :: "u32 \<Rightarrow> u32 \<Rightarrow> u64" where
  "udwords high low = push_bit 32 (ucast high) OR ucast low"

text \<open>Shifts of a 32-bit word; a count of 32 or more is undefined.\<close>

definition shl32 :: "u32 \<Rightarrow> u32 \<Rightarrow> u32 res" where
  "shl32 x k = (if k < 32 then Inr (push_bit (unat k) x) else Inl Bad_shift)"

definition shr32 :: "u32 \<Rightarrow> u32 \<Rightarrow> u32 res" where
  "shr32 x k = (if k < 32 then Inr (drop_bit (unat k) x) else Inl Bad_shift)"

subsection \<open>Counting zeros\<close>

text \<open>The first four steps: the count so far and the remaining bits.\<close>

definition clz_step :: "u32 \<Rightarrow> u32 \<Rightarrow> u32 \<times> u32 \<Rightarrow> (u32 \<times> u32) res" where
  "clz_step m h p =
     (case p of (r, x) \<Rightarrow>
      let t = (if x AND m = 0 then h else 0) in
      bind_res (shr32 x (h - t)) (\<lambda>x'. Inr (r + t, x')))"

definition clzsi2 :: "u32 \<Rightarrow> u32 res" where
  "clzsi2 a =
     bind_res (clz_step 0xFFFF0000 16 (0, a)) (\<lambda>p1.
     bind_res (clz_step 0xFF00 8 p1) (\<lambda>p2.
     bind_res (clz_step 0xF0 4 p2) (\<lambda>p3.
     bind_res (clz_step 0xC 2 p3) (\<lambda>(r, x).
     Inr (r + ((2 - x) AND - of_truth (x AND 2 = 0)))))))"

definition ctz_step :: "u32 \<Rightarrow> u32 \<Rightarrow> u32 \<times> u32 \<Rightarrow> (u32 \<times> u32) res" where
  "ctz_step m h p =
     (case p of (r, x) \<Rightarrow>
      let t = (if x AND m = 0 then h else 0) in
      bind_res (shr32 x t) (\<lambda>x'. Inr (r + t, x')))"

definition ctzsi2 :: "u32 \<Rightarrow> u32 res" where
  "ctzsi2 a =
     bind_res (ctz_step 0x0000FFFF 16 (0, a)) (\<lambda>p1.
     bind_res (ctz_step 0x00FF 8 p1) (\<lambda>p2.
     bind_res (ctz_step 0x0F 4 p2) (\<lambda>p3.
     bind_res (ctz_step 0x3 2 p3) (\<lambda>(r, x).
     let x' = x AND 3 in
     Inr (r + ((2 - drop_bit 1 x') AND - of_truth (x' AND 1 = 0)))))))"

definition ctzdi2 :: "u64 \<Rightarrow> u32 res" where
  "ctzdi2 a =
     (let f = - of_truth (dw_low a = 0) in
      bind_res (ctzsi2 ((dw_high a AND f) OR (dw_low a AND NOT f))) (\<lambda>c. Inr (c + (f AND 32))))"

definition clzdi2 :: "u64 \<Rightarrow> u32 res" where
  "clzdi2 a =
     (let f = - of_truth (dw_high a = 0) in
      bind_res (clzsi2 ((dw_high a AND NOT f) OR (dw_low a AND f))) (\<lambda>c. Inr (c + (f AND 32))))"

subsection \<open>Unsigned division\<close>

text \<open>The body of the loop and the loop, \<open>sr\<close> rounds of it.\<close>

definition udivmod_round :: "u64 \<Rightarrow> u64 \<times> u64 \<times> u32 \<Rightarrow> u64 \<times> u64 \<times> u32" where
  "udivmod_round d s =
     (case s of (q, r, carry) \<Rightarrow>
      let r_high = push_bit 1 (dw_high r) OR drop_bit 31 (dw_low r);
          r_low = push_bit 1 (dw_low r) OR drop_bit 31 (dw_high q);
          q_high = push_bit 1 (dw_high q) OR drop_bit 31 (dw_low q);
          q_low = push_bit 1 (dw_low q) OR carry;
          r1 = udwords r_high r_low;
          s = signed_drop_bit 63 (d - r1 - 1)
      in (udwords q_high q_low, r1 - (d AND s), ucast (s AND 1)))"

fun udivmod_loop :: "nat \<Rightarrow> u64 \<Rightarrow> u64 \<times> u64 \<times> u32 \<Rightarrow> u64 \<times> u64 \<times> u32" where
  "udivmod_loop 0 d s = s"
| "udivmod_loop (Suc sr) d s = udivmod_loop sr d (udivmod_round d s)"

text \<open>What precedes the loop: an early return with quotient and remainder, or the values of
  \<open>sr\<close>, \<open>q\<close> and \<open>r\<close> the loop starts with.\<close>

datatype udivmod_start = Return u64 u64 | Start u32 u64 u64

definition udiv32 :: "u32 \<Rightarrow> u32 \<Rightarrow> u32 res" where
  "udiv32 x y = (if y = 0 then Inl Div_trap else Inr (x div y))"

definition umod32 :: "u32 \<Rightarrow> u32 \<Rightarrow> u32 res" where
  "umod32 x y = (if y = 0 then Inl Div_trap else Inr (x mod y))"

text \<open>\<open>n << (64 - sr)\<close> and \<open>n >> sr\<close> for \<open>0 < sr < 32\<close>, in halves.\<close>

definition split_low :: "u64 \<Rightarrow> u32 \<Rightarrow> (u64 \<times> u64) res" where
  "split_low n sr =
     bind_res (shl32 (dw_low n) (32 - sr)) (\<lambda>q_high.
     bind_res (shr32 (dw_high n) sr) (\<lambda>r_high.
     bind_res (shl32 (dw_high n) (32 - sr)) (\<lambda>x.
     bind_res (shr32 (dw_low n) sr) (\<lambda>y.
     Inr (udwords q_high 0, udwords r_high (x OR y))))))"

text \<open>The divisor has no low word.\<close>

definition udivmod_high :: "u64 \<Rightarrow> u64 \<Rightarrow> udivmod_start res" where
  "udivmod_high n d =
     (if dw_high d = 0 then
        bind_res (umod32 (dw_high n) (dw_low d)) (\<lambda>rm.
        bind_res (udiv32 (dw_high n) (dw_low d)) (\<lambda>qt. Inr (Return (ucast qt) (ucast rm))))
      else if dw_low n = 0 then
        bind_res (umod32 (dw_high n) (dw_high d)) (\<lambda>rm.
        bind_res (udiv32 (dw_high n) (dw_high d)) (\<lambda>qt. Inr (Return (ucast qt) (udwords rm 0))))
      else if dw_high d AND (dw_high d - 1) = 0 then
        bind_res (ctzsi2 (dw_high d)) (\<lambda>c.
        bind_res (shr32 (dw_high n) c) (\<lambda>qt.
        Inr (Return (ucast qt) (udwords (dw_high n AND (dw_high d - 1)) (dw_low n)))))
      else
        bind_res (clzsi2 (dw_high d)) (\<lambda>cd.
        bind_res (clzsi2 (dw_high n)) (\<lambda>cn.
        let sr = cd - cn in
        if 32 - 2 < sr then Inr (Return 0 n)
        else bind_res (split_low n (sr + 1)) (\<lambda>(q, r). Inr (Start (sr + 1) q r)))))"

text \<open>The divisor has a low word only.\<close>

definition udivmod_low :: "u64 \<Rightarrow> u64 \<Rightarrow> udivmod_start res" where
  "udivmod_low n d =
     (if dw_low d AND (dw_low d - 1) = 0 then
        let rm = ucast (dw_low n AND (dw_low d - 1)) in
        if dw_low d = 1 then Inr (Return n rm)
        else
          bind_res (ctzsi2 (dw_low d)) (\<lambda>sr.
          bind_res (shr32 (dw_high n) sr) (\<lambda>q_high.
          bind_res (shl32 (dw_high n) (32 - sr)) (\<lambda>x.
          bind_res (shr32 (dw_low n) sr) (\<lambda>y.
          Inr (Return (udwords q_high (x OR y)) rm)))))
      else
        bind_res (clzsi2 (dw_low d)) (\<lambda>cd.
        bind_res (clzsi2 (dw_high n)) (\<lambda>cn.
        let sr = 1 + 32 + cd - cn in
        if sr = 32 then Inr (Start sr (udwords (dw_low n) 0) (udwords 0 (dw_high n)))
        else if sr < 32 then bind_res (split_low n sr) (\<lambda>(q, r). Inr (Start sr q r))
        else
          bind_res (shl32 (dw_low n) (64 - sr)) (\<lambda>q_low.
          bind_res (shl32 (dw_high n) (64 - sr)) (\<lambda>x.
          bind_res (shr32 (dw_low n) (sr - 32)) (\<lambda>y.
          bind_res (shr32 (dw_high n) (sr - 32)) (\<lambda>r_low.
          Inr (Start sr (udwords (x OR y) q_low) (udwords 0 r_low)))))))))"

text \<open>The divisor has both.\<close>

definition udivmod_both :: "u64 \<Rightarrow> u64 \<Rightarrow> udivmod_start res" where
  "udivmod_both n d =
     bind_res (clzsi2 (dw_high d)) (\<lambda>cd.
     bind_res (clzsi2 (dw_high n)) (\<lambda>cn.
     let sr = cd - cn in
     if 32 - 1 < sr then Inr (Return 0 n)
     else if sr + 1 = 32 then Inr (Start (sr + 1) (udwords (dw_low n) 0) (udwords 0 (dw_high n)))
     else bind_res (split_low n (sr + 1)) (\<lambda>(q, r). Inr (Start (sr + 1) q r))))"

definition udivmod_init :: "u64 \<Rightarrow> u64 \<Rightarrow> udivmod_start res" where
  "udivmod_init n d =
     (if dw_high n = 0 then
        (if dw_high d = 0 then
           bind_res (umod32 (dw_low n) (dw_low d)) (\<lambda>rm.
           bind_res (udiv32 (dw_low n) (dw_low d)) (\<lambda>qt. Inr (Return (ucast qt) (ucast rm))))
         else Inr (Return 0 (ucast (dw_low n))))
      else if dw_low d = 0 then udivmod_high n d
      else if dw_high d = 0 then udivmod_low n d
      else udivmod_both n d)"

text \<open>The quotient, and what is stored through \<open>rem\<close>.\<close>

definition udivmoddi4 :: "u64 \<Rightarrow> u64 \<Rightarrow> (u64 \<times> u64) res" where
  "udivmoddi4 a b =
     bind_res (udivmod_init a b) (\<lambda>st.
     case st of
       Return qt rm \<Rightarrow> Inr (qt, rm)
     | Start sr q r \<Rightarrow>
         (case udivmod_loop (unat sr) b (q, r, 0) of (q, r, carry) \<Rightarrow>
          Inr (push_bit 1 q OR ucast carry, r)))"

definition udivdi3 :: "u64 \<Rightarrow> u64 \<Rightarrow> u64 res" where
  "udivdi3 a b = bind_res (udivmoddi4 a b) (\<lambda>(q, r). Inr q)"

definition umoddi3 :: "u64 \<Rightarrow> u64 \<Rightarrow> u64 res" where
  "umoddi3 a b = bind_res (udivmoddi4 a b) (\<lambda>(q, r). Inr r)"

subsection \<open>Signed division\<close>

text \<open>\<open>(x ^ s) - s\<close> on \<open>di_int\<close>.\<close>

definition di_ok :: "int \<Rightarrow> bool" where
  "di_ok x \<longleftrightarrow> - (2 ^ 63) \<le> x \<and> x < 2 ^ 63"

definition negate_if :: "u64 \<Rightarrow> u64 \<Rightarrow> u64 res" where
  "negate_if x s =
     bind_res (assert_res Signed_overflow (di_ok (sint (x XOR s) - sint s))) (\<lambda>_. Inr ((x XOR s) - s))"

definition divdi3 :: "u64 \<Rightarrow> u64 \<Rightarrow> u64 res" where
  "divdi3 a b =
     (let s_a = signed_drop_bit 63 a; s_b = signed_drop_bit 63 b in
      bind_res (negate_if a s_a) (\<lambda>a1.
      bind_res (negate_if b s_b) (\<lambda>b1.
      let s = s_a XOR s_b in
      bind_res (udivmoddi4 a1 b1) (\<lambda>(q, r). Inr ((q XOR s) - s)))))"

definition divmoddi4 :: "u64 \<Rightarrow> u64 \<Rightarrow> (u64 \<times> u64) res" where
  "divmoddi4 a b =
     bind_res (divdi3 a b) (\<lambda>d.
     bind_res (assert_res Signed_overflow (di_ok (sint d * sint b) \<and> di_ok (sint a - sint (d * b)))) (\<lambda>_.
     Inr (d, a - d * b)))"

definition moddi3 :: "u64 \<Rightarrow> u64 \<Rightarrow> u64 res" where
  "moddi3 a b =
     bind_res (negate_if b (signed_drop_bit 63 b)) (\<lambda>b1.
     let s = signed_drop_bit 63 a in
     bind_res (negate_if a s) (\<lambda>a1.
     bind_res (udivmoddi4 a1 b1) (\<lambda>(q, r). negate_if r s)))"

end
