(* ===== verification/Int64_Facts.thy ===== *)
theory Int64_Facts
  imports Int64
begin

text \<open>
  Facts on 64-bit division: the counting functions return the number of zeros, the shifts of
  the set-up are in range, and the loop computes the quotient and the remainder.
\<close>

subsection \<open>Halves\<close>

lemma bit_dw_low [bit_simps]: "bit (dw_low w) i \<longleftrightarrow> i < 32 \<and> bit w i"
  by (simp add: dw_low_def bit_simps)

lemma bit_dw_high [bit_simps]: "bit (dw_high w) i \<longleftrightarrow> i < 32 \<and> bit w (32 + i)"
  by (simp add: dw_high_def bit_simps)

lemma bit_udwords [bit_simps]:
  "bit (udwords h l) i \<longleftrightarrow> i < 64 \<and> (if i < 32 then bit l i else bit h (i - 32))"
  by (auto simp: udwords_def bit_simps dest: bit_imp_le_length)

lemma udwords_halves [simp]: "udwords (dw_high w) (dw_low w) = w"
  by (rule bit_word_eqI) (auto simp: bit_simps)

lemma unat_shr: "unat (drop_bit k x) = unat x div 2 ^ k" for x :: "'a::len word"
proof -
  have "unat x < 2 ^ LENGTH('a)" by (rule unsigned_less)
  then show ?thesis
    by (simp add: unsigned_drop_bit_eq drop_bit_eq_div [where 'a = nat] take_bit_nat_eq_self)
qed

lemma unat_dw_low: "unat (dw_low w) = unat w mod 2 ^ 32"
  by (simp add: dw_low_def unsigned_ucast_eq take_bit_eq_mod)

lemma unat_dw_high: "unat (dw_high w) = unat w div 2 ^ 32"
proof -
  have "unat w < 2 ^ LENGTH(64)" by (rule unsigned_less)
  then have "unat w div 2 ^ 32 < 2 ^ 32" by (simp add: less_mult_imp_div_less)
  then show ?thesis
    using unat_shr [of 32 w] by (simp add: dw_high_def unsigned_ucast_eq take_bit_nat_eq_self)
qed

lemma unat_udwords: "unat (udwords h l) = unat h * 2 ^ 32 + unat l"
proof -
  have "dw_high (udwords h l) = h" "dw_low (udwords h l) = l"
    by (rule bit_word_eqI, auto simp: bit_simps dest: bit_imp_le_length)+
  then show ?thesis
    using unat_dw_high [of "udwords h l"] unat_dw_low [of "udwords h l"]
    by (metis div_mult_mod_eq)
qed

lemma dw_high_0_iff: "dw_high w = 0 \<longleftrightarrow> unat w < 2 ^ 32"
  using unat_dw_high [of w] by (auto simp: word_unat_eq_iff div_eq_0_iff)

lemma unat_dw_low_small: "dw_high w = 0 \<Longrightarrow> unat (dw_low w) = unat w"
  by (simp add: dw_high_0_iff unat_dw_low)

lemma udwords_0: "udwords 0 l = ucast l"
  by (rule bit_word_eqI) (auto simp: bit_simps dest: bit_imp_le_length)

lemma split_low_spec:
  assumes "0 < sr" and "sr < 32"
  shows "split_low n sr = Inr (push_bit (64 - unat sr) n, drop_bit (unat sr) n)"
proof -
  let ?k = "unat sr"
  have k: "0 < ?k" "?k < 32" using assms by (auto simp: word_less_nat_alt unat_gt_0)
  have d: "unat (32 - sr) = 32 - ?k" using assms by (simp add: unat_sub word_le_nat_alt word_less_nat_alt)
  have "32 - sr < 32" using d k by (simp add: word_less_nat_alt)
  moreover have "udwords (push_bit (32 - ?k) (dw_low n)) 0 = push_bit (64 - ?k) n"
    by (rule bit_word_eqI) (use k in \<open>auto simp: bit_simps\<close>)
  moreover have "udwords (drop_bit ?k (dw_high n)) (push_bit (32 - ?k) (dw_high n) OR drop_bit ?k (dw_low n)) =
      drop_bit ?k n"
    by (rule bit_word_eqI) (use k in \<open>auto simp: bit_simps add.commute dest: bit_imp_le_length\<close>)
  ultimately show ?thesis using assms d by (simp add: split_low_def shl32_def shr32_def)
qed

subsection \<open>Counting zeros\<close>

text \<open>After a step to width \<open>w\<close>: the remaining bits are those of \<open>a\<close> above bit \<open>32 - w - r\<close>.\<close>

definition clz_inv :: "u32 \<Rightarrow> nat \<Rightarrow> u32 \<times> u32 \<Rightarrow> bool" where
  "clz_inv a w p \<longleftrightarrow> 0 < unat (snd p) \<and> unat (snd p) < 2 ^ w \<and> unat (fst p) + w \<le> 32 \<and>
     unat (snd p) = unat a div 2 ^ (32 - w - unat (fst p))"

lemma clz_step_inv:
  assumes inv: "clz_inv a (2 * h) (r, x)" and h: "0 < h" "h \<le> 16"
    and m: "\<And>i. bit m i \<longleftrightarrow> h \<le> i \<and> i < 2 * h"
  shows "\<exists>p. clz_step m (of_nat h) (r, x) = Inr p \<and> clz_inv a h p"
proof -
  have uh: "unat (of_nat h :: u32) = h" using h by (simp add: unat_of_nat take_bit_nat_eq_self)
  have x: "0 < unat x" "unat x < 2 ^ (2 * h)" "unat r + 2 * h \<le> 32"
    "unat x = unat a div 2 ^ (32 - 2 * h - unat r)"
    using inv by (simp_all add: clz_inv_def)
  have high: "x AND m = 0 \<longleftrightarrow> unat x < 2 ^ h"
  proof -
    have "i < 2 * h" if "bit x i" for i
    proof -
      have "take_bit (2 * h) (unat x) = unat x" using x(2) by (simp add: take_bit_nat_eq_self)
      then have "bit (unat x) i \<Longrightarrow> i < 2 * h" by (metis bit_take_bit_iff)
      then show ?thesis using that by (auto simp: bit_unsigned_iff dest: bit_imp_le_length)
    qed
    then have "x AND m = x AND NOT (mask h)"
      using m by (intro bit_word_eqI) (auto simp: bit_simps not_less not_le)
    then have "uint (x AND m) = uint x div 2 ^ h * 2 ^ h" by (rule ssubst) (rule uint_and_not_mask)
    then have "int (unat (x AND m)) = int (unat x div 2 ^ h * 2 ^ h)" by (simp add: zdiv_int)
    then have "unat (x AND m) = unat x div 2 ^ h * 2 ^ h" by (simp only: of_nat_eq_iff)
    then have "unat (x AND m) = 0 \<longleftrightarrow> unat x div 2 ^ h = 0" by simp
    then show ?thesis by (simp add: div_eq_0_iff unat_eq_zero)
  qed
  show ?thesis
  proof (cases "unat x < 2 ^ h")
    case True
    have "unat r + unat (of_nat h :: u32) < 2 ^ 32" using x(3) uh h by simp
    then have "unat (r + of_nat h) = unat r + h" using unat_add_lem [THEN iffD1, of r "of_nat h"] uh by simp
    moreover have "32 - h - (unat r + h) = 32 - 2 * h - unat r" by simp
    ultimately show ?thesis
      using True high x by (simp add: clz_step_def clz_inv_def shr32_def)
  next
    case False
    have "(of_nat h :: u32) < 32" using h uh by (simp add: word_less_nat_alt)
    moreover have "unat x div 2 ^ h = unat a div 2 ^ (32 - h - unat r)"
    proof -
      have "32 - h - unat r = (32 - 2 * h - unat r) + h" using x(3) h by simp
      then show ?thesis by (simp add: x(4) div_mult2_eq power_add)
    qed
    moreover have "unat x div 2 ^ h < 2 ^ h"
      using x(2) by (simp add: less_mult_imp_div_less power_add [symmetric] mult_2)
    moreover have "0 < unat x div 2 ^ h" using False by (simp add: div_greater_zero_iff)
    ultimately show ?thesis
      using False high x(3) uh by (auto simp: clz_step_def clz_inv_def shr32_def unat_shr)
  qed
qed

lemma bit_masks:
  "bit (0xFFFF0000 :: u32) i \<longleftrightarrow> 16 \<le> i \<and> i < 2 * 16"
  "bit (0xFF00 :: u32) i \<longleftrightarrow> 8 \<le> i \<and> i < 2 * 8"
  "bit (0xF0 :: u32) i \<longleftrightarrow> 4 \<le> i \<and> i < 2 * 4"
  "bit (0xC :: u32) i \<longleftrightarrow> 2 \<le> i \<and> i < 2 * 2"
proof -
  have "(0xFFFF0000 :: u32) = push_bit 16 (mask 16)" "(0xFF00 :: u32) = push_bit 8 (mask 8)"
    "(0xF0 :: u32) = push_bit 4 (mask 4)" "(0xC :: u32) = push_bit 2 (mask 2)"
    by (simp_all add: mask_eq_exp_minus_1)
  then show "bit (0xFFFF0000 :: u32) i \<longleftrightarrow> 16 \<le> i \<and> i < 2 * 16"
    "bit (0xFF00 :: u32) i \<longleftrightarrow> 8 \<le> i \<and> i < 2 * 8"
    "bit (0xF0 :: u32) i \<longleftrightarrow> 4 \<le> i \<and> i < 2 * 4"
    "bit (0xC :: u32) i \<longleftrightarrow> 2 \<le> i \<and> i < 2 * 2"
    by (auto simp only: bit_push_bit_iff bit_mask_iff possible_bit_word len_of_numeral_defs)
qed

lemma clzsi2_spec:
  assumes "a \<noteq> 0"
  shows "\<exists>c. clzsi2 a = Inr c \<and> unat c < 32 \<and> 2 ^ (31 - unat c) \<le> unat a \<and> unat a < 2 ^ (32 - unat c)"
proof -
  have a: "unat a < 2 ^ LENGTH(32)" by (rule unsigned_less)
  have "clz_inv a (2 * 16) (0, a)" using assms a by (simp add: clz_inv_def unat_gt_0)
  then obtain r1 x1 where 1: "clz_step 0xFFFF0000 16 (0, a) = Inr (r1, x1)" "clz_inv a (2 * 8) (r1, x1)"
    using clz_step_inv [OF _ _ _ bit_masks(1)] by fastforce
  then obtain r2 x2 where 2: "clz_step 0xFF00 8 (r1, x1) = Inr (r2, x2)" "clz_inv a (2 * 4) (r2, x2)"
    using clz_step_inv [OF _ _ _ bit_masks(2)] by fastforce
  then obtain r3 x3 where 3: "clz_step 0xF0 4 (r2, x2) = Inr (r3, x3)" "clz_inv a (2 * 2) (r3, x3)"
    using clz_step_inv [OF _ _ _ bit_masks(3)] by fastforce
  then obtain r x where 4: "clz_step 0xC 2 (r3, x3) = Inr (r, x)" "clz_inv a 2 (r, x)"
    using clz_step_inv [OF _ _ _ bit_masks(4)] by fastforce
  define k where "k = 30 - unat r"
  have x: "unat x = 1 \<or> unat x = 2 \<or> unat x = 3" "unat r \<le> 30" "unat x = unat a div 2 ^ k"
    using 4(2) by (auto simp: clz_inv_def k_def)
  have lo: "unat x * 2 ^ k \<le> unat a" and hi: "unat a < (unat x + 1) * 2 ^ k"
    unfolding x(3) using dividend_less_div_times [of "2 ^ k" "unat a"]
    by (simp_all add: div_times_less_eq_dividend)
  let ?c = "r + ((2 - x) AND - of_truth (x AND 2 = 0))"
  have res: "clzsi2 a = Inr ?c" using 1 2 3 4 by (simp add: clzsi2_def)
  have xw: "x = of_nat (unat x)" by simp
  from x(1) show ?thesis
  proof
    assume "unat x = 1"
    then have "x = 1" using xw by simp
    then have "?c = r + 1" by simp
    moreover have "unat (r + 1) = unat r + 1" using x(2) unat_add_lem [THEN iffD1, of r 1] by simp
    moreover have "31 - (unat r + 1) = k" "32 - (unat r + 1) = Suc k" using x(2) by (simp_all add: k_def)
    ultimately show ?thesis using res lo hi x(2) \<open>unat x = 1\<close> by auto
  next
    assume two: "unat x = 2 \<or> unat x = 3"
    then have "x = 2 \<or> x = 3" by (metis xw of_nat_numeral)
    then have "?c = r" by auto
    moreover have "31 - unat r = Suc k" "32 - unat r = Suc (Suc k)" using x(2) by (simp_all add: k_def)
    ultimately show ?thesis using res lo hi x(2) two by auto
  qed
qed

text \<open>Counting from the other fin: \<open>a\<close> is a multiple of \<open>2 ^ r\<close>, and the remaining bits, those
  from bit \<open>r\<close> on, have a one among the \<open>w\<close> lowest.\<close>

definition ctz_inv :: "u32 \<Rightarrow> nat \<Rightarrow> u32 \<times> u32 \<Rightarrow> bool" where
  "ctz_inv a w p \<longleftrightarrow> unat (fst p) + w \<le> 32 \<and> unat a = unat (snd p) * 2 ^ unat (fst p) \<and>
     unat (snd p) mod 2 ^ w \<noteq> 0"

lemma and_mask_0_iff: "x AND mask h = 0 \<longleftrightarrow> unat x mod 2 ^ h = 0" for x :: u32
proof -
  have "unat (x AND mask h) = unat x mod 2 ^ h"
    by (simp add: take_bit_eq_mask [symmetric] unsigned_take_bit_eq take_bit_eq_mod [where 'a = nat])
  then show ?thesis by (metis unsigned_0 unsigned_eq_0_iff)
qed

lemma ctz_step_inv:
  assumes inv: "ctz_inv a (2 * h) (r, x)" and h: "0 < h" "h \<le> 16"
  shows "\<exists>p. ctz_step (mask h) (of_nat h) (r, x) = Inr p \<and> ctz_inv a h p"
proof -
  have uh: "unat (of_nat h :: u32) = h" using h by (simp add: unat_of_nat take_bit_nat_eq_self)
  have x: "unat r + 2 * h \<le> 32" "unat a = unat x * 2 ^ unat r" "unat x mod 2 ^ (2 * h) \<noteq> 0"
    using inv by (simp_all add: ctz_inv_def)
  show ?thesis
  proof (cases "unat x mod 2 ^ h = 0")
    case True
    then have xd: "unat x = unat x div 2 ^ h * 2 ^ h" using div_mult_mod_eq [of "unat x" "2 ^ h"] by simp
    have "unat r + unat (of_nat h :: u32) < 2 ^ 32" using x(1) uh h by simp
    then have r: "unat (r + of_nat h) = unat r + h" using unat_add_lem [THEN iffD1, of r "of_nat h"] uh by simp
    have "unat a = unat x div 2 ^ h * 2 ^ (unat r + h)"
      using x(2) xd by (metis mult.assoc mult.commute power_add)
    moreover have "unat x div 2 ^ h mod 2 ^ h \<noteq> 0"
      using x(3) True mod_mult2_eq [of "unat x" "2 ^ h" "2 ^ h"] by (auto simp: power_add [symmetric] mult_2)
    moreover have "(of_nat h :: u32) < 32" using h uh by (simp add: word_less_nat_alt)
    ultimately show ?thesis
      using True x(1) r uh by (simp add: ctz_step_def ctz_inv_def shr32_def unat_shr and_mask_0_iff)
  next
    case False
    then show ?thesis using x by (simp add: ctz_step_def ctz_inv_def shr32_def and_mask_0_iff)
  qed
qed

lemma ctzsi2_spec:
  assumes "a \<noteq> 0"
  shows "\<exists>c k. ctzsi2 a = Inr c \<and> unat c < 32 \<and> unat a = (2 * k + 1) * 2 ^ unat c"
proof -
  have a: "unat a < 2 ^ LENGTH(32)" by (rule unsigned_less)
  have masks: "mask 16 = (0x0000FFFF :: u32)" "mask 8 = (0x00FF :: u32)" "mask 4 = (0x0F :: u32)" "mask 2 = (0x3 :: u32)"
    by (simp_all add: mask_eq_exp_minus_1)
  have "ctz_inv a (2 * 16) (0, a)" using assms a by (simp add: ctz_inv_def unat_gt_0)
  then obtain r1 x1 where 1: "ctz_step 0x0000FFFF 16 (0, a) = Inr (r1, x1)" "ctz_inv a (2 * 8) (r1, x1)"
    using ctz_step_inv [of a 16] unfolding masks by fastforce
  then obtain r2 x2 where 2: "ctz_step 0x00FF 8 (r1, x1) = Inr (r2, x2)" "ctz_inv a (2 * 4) (r2, x2)"
    using ctz_step_inv [of a 8] unfolding masks by fastforce
  then obtain r3 x3 where 3: "ctz_step 0x0F 4 (r2, x2) = Inr (r3, x3)" "ctz_inv a (2 * 2) (r3, x3)"
    using ctz_step_inv [of a 4] unfolding masks by fastforce
  then obtain r x where 4: "ctz_step 0x3 2 (r3, x3) = Inr (r, x)" "ctz_inv a 2 (r, x)"
    using ctz_step_inv [of a 2] unfolding masks by fastforce
  have x: "unat r \<le> 30" "unat a = unat x * 2 ^ unat r" "unat x mod 4 \<noteq> 0"
    using 4(2) by (simp_all add: ctz_inv_def)
  define y where "y = x AND 3"
  have "y = take_bit 2 x" using masks(4) by (simp add: y_def take_bit_eq_mask)
  moreover have "unat (take_bit 2 x) = take_bit 2 (unat x)" by (rule unsigned_take_bit_eq)
  ultimately have y: "unat y = unat x mod 4" by (simp add: take_bit_eq_mod [where 'a = nat])
  have yw: "y = of_nat (unat y)" by simp
  let ?c = "r + ((2 - drop_bit 1 y) AND - of_truth (y AND 1 = 0))"
  have res: "ctzsi2 a = Inr ?c" using 1 2 3 4 by (simp add: ctzsi2_def y_def Let_def)
  have "unat y = 1 \<or> unat y = 3 \<or> unat y = 2" using y x(3) by presburger
  then show ?thesis
  proof (elim disjE)
    assume "unat y = 2"
    then have "y = 2" by (metis yw of_nat_numeral)
    then have "?c = r + 1" by simp
    moreover have "unat (r + 1) = unat r + 1" using x(1) unat_add_lem [THEN iffD1, of r 1] by simp
    moreover have "unat x = 2 * (2 * (unat x div 4) + 1)" using y \<open>unat y = 2\<close> by presburger
    then have "unat a = (2 * (unat x div 4) + 1) * 2 ^ (unat r + 1)" using x(2)
      by (metis mult.assoc mult.commute power_add power_one_right)
    ultimately show ?thesis using res x(1) by auto
  next
    assume y1: "unat y = 1"
    then have "?c = r" using yw by simp
    moreover have "unat x = 2 * (unat x div 2) + 1" using y y1 by presburger
    then have "unat a = (2 * (unat x div 2) + 1) * 2 ^ unat r" using x(2) by simp
    ultimately show ?thesis using res x(1) by auto
  next
    assume y3: "unat y = 3"
    then have "y = 3" by (metis yw of_nat_numeral)
    then have "?c = r" by simp
    moreover have "unat x = 2 * (unat x div 2) + 1" using y y3 by presburger
    then have "unat a = (2 * (unat x div 2) + 1) * 2 ^ unat r" using x(2) by simp
    ultimately show ?thesis using res x(1) by auto
  qed
qed

lemma power_of_two:
  assumes "d \<noteq> 0" and "d AND (d - 1) = 0"
  shows "\<exists>c. ctzsi2 d = Inr c \<and> unat c < 32 \<and> unat d = 2 ^ unat c \<and> d - 1 = mask (unat c)"
proof -
  obtain c k where c: "ctzsi2 d = Inr c" "unat c < 32" "unat d = (2 * k + 1) * 2 ^ unat c"
    using ctzsi2_spec [OF assms(1)] by blast
  let ?p = "2 ^ unat c :: nat"
  have d1: "unat (d - 1) = unat d - 1" using assms(1) by (simp add: unat_minus_one)
  have p: "0 < ?p" by simp
  have e: "unat d = k * (2 * ?p) + ?p" using c(3) by (simp add: algebra_simps)
  then have e1: "unat (d - 1) = k * (2 * ?p) + (?p - 1)" using d1 p by linarith
  have "?p < 2 * ?p" "?p - 1 < 2 * ?p" using p by linarith+
  then have z: "?p div (2 * ?p) = 0" "(?p - 1) div (2 * ?p) = 0" by (simp_all only: div_less)
  have nz: "2 * ?p \<noteq> 0" by simp
  have "unat d div (2 * ?p) = k" "unat (d - 1) div (2 * ?p) = k"
    unfolding e e1 div_mult_self3 [OF nz] z by simp_all
  then have "unat (drop_bit (Suc (unat c)) d) = k" "unat (drop_bit (Suc (unat c)) (d - 1)) = k"
    by (simp_all add: unat_shr)
  moreover have "drop_bit (Suc (unat c)) d AND drop_bit (Suc (unat c)) (d - 1) = 0"
    using assms(2) by (simp flip: drop_bit_and)
  ultimately have "k = 0" by (metis and.idem unat_eq_zero word_unat_eq_iff)
  then have d: "unat d = ?p" using c(3) by simp
  moreover have "d - 1 = mask (unat c)"
  proof -
    have "d = of_nat (unat d)" by simp
    then have "d = 2 ^ unat c" unfolding d by simp
    then show ?thesis by (simp add: mask_eq_exp_minus_1)
  qed
  ultimately show ?thesis using c by blast
qed

subsection \<open>The loop\<close>

lemma signed_drop_bit_63: "signed_drop_bit 63 (w :: u64) = (if 2 ^ 63 \<le> unat w then -1 else 0)"
proof -
  have w: "unat w < 2 ^ LENGTH(64)" by (rule unsigned_less)
  then have "unat w div 2 ^ 63 < 2" by (simp add: less_mult_imp_div_less)
  then have "unat w div 2 ^ 63 = 0 \<or> unat w div 2 ^ 63 = 1" by linarith
  then have "odd (unat w div 2 ^ 63) \<longleftrightarrow> 2 ^ 63 \<le> unat w"
    using div_greater_zero_iff [of "unat w" "2 ^ 63"] by auto
  moreover have "bit (unat w) 63 \<longleftrightarrow> bit w 63" by (simp add: bit_unsigned_iff)
  ultimately have "bit w 63 \<longleftrightarrow> 2 ^ 63 \<le> unat w" by (simp only: bit_iff_odd)
  moreover have "signed_drop_bit 63 w = (if bit w 63 then -1 else 0)"
    by (rule bit_word_eqI) (auto simp: bit_simps not_le less_Suc_eq_le)
  ultimately show ?thesis by simp
qed

lemma shift_in:
  "udwords (push_bit 1 (dw_high r) OR drop_bit 31 (dw_low r)) (push_bit 1 (dw_low r) OR drop_bit 31 (dw_high q)) =
     push_bit 1 r OR drop_bit 63 q"
  by (rule bit_word_eqI) (auto simp: bit_simps bit_double_word dest: bit_imp_le_length)

lemma shift_in_carry:
  "carry = 0 \<or> carry = 1 \<Longrightarrow>
   udwords (push_bit 1 (dw_high q) OR drop_bit 31 (dw_low q)) (push_bit 1 (dw_low q) OR carry) =
     push_bit 1 q OR ucast carry"
  by (rule bit_word_eqI) (auto simp: bit_simps bit_double_word dest: bit_imp_le_length)

lemma unat_shift_or:
  assumes "unat (b :: u64) < 2"
  shows "unat (push_bit 1 (w :: u64) OR b) = (2 * unat w) mod 2 ^ 64 + unat b"
proof -
  have b: "b = 0 \<or> b = 1" using less_2_cases [OF assms] by (auto simp: word_unat_eq_iff)
  have "push_bit 1 w AND b = 0"
    by (rule bit_word_eqI) (use b in \<open>auto simp: bit_simps bit_double_word\<close>)
  then have or: "push_bit 1 w OR b = push_bit 1 w + b" by (simp add: disjunctive_add_eq_or)
  have u: "unat (push_bit 1 w) = (2 * unat w) mod 2 ^ 64"
    by (simp add: push_bit_eq_mult unat_word_ariths(2) mult.commute)
  have "2 * unat w mod 2 ^ 64 = 2 * (unat w mod 2 ^ 63)" by (simp add: mult_mod_right)
  moreover have "unat w mod 2 ^ 63 < 2 ^ 63" by simp
  moreover have "(2 :: nat) ^ 64 = 2 * 2 ^ 63" by simp
  ultimately have "2 * unat w mod 2 ^ 64 + 1 < 2 ^ 64" by linarith
  then have "unat (push_bit 1 w) + unat b < 2 ^ 64" using u assms by linarith
  then show ?thesis using or u unat_add_lem [THEN iffD1, of "push_bit 1 w" b] by simp
qed

text \<open>With \<open>sr\<close> rounds to go: the top of \<open>q\<close> holds the \<open>sr\<close> lowest bits of the dividend and
  the rest, with the carry, the quotient of its other bits; \<open>r\<close> is their remainder.\<close>

definition loop_inv :: "nat \<Rightarrow> nat \<Rightarrow> nat \<Rightarrow> u64 \<times> u64 \<times> u32 \<Rightarrow> bool" where
  "loop_inv n d sr s \<longleftrightarrow>
     (case s of (q, r, carry) \<Rightarrow>
      unat carry < 2 \<and> unat r < d \<and>
      (\<exists>Q < 2 ^ (64 - sr). unat q = (n mod 2 ^ sr) * 2 ^ (64 - sr) + Q \<and>
         n div 2 ^ sr = (2 * Q + unat carry) * d + unat r))"

lemma unat_lt64: "unat (w :: u64) < 2 ^ 64"
proof -
  have "unat w < 2 ^ LENGTH(64)" by (rule unsigned_less)
  then show ?thesis by simp
qed

lemma round_compare:
  assumes "unat r1 \<le> 2 * d' - 1" and "unat d = d'" and "d' \<le> 2 ^ 63 \<or> 2 ^ 63 \<le> unat r1" and "0 < d'"
  shows "signed_drop_bit 63 (d - r1 - 1 :: u64) = (if d \<le> r1 then -1 else 0)"
proof -
  have lt: "unat r1 < 2 ^ 64" "unat d < 2 ^ 64"
    using unat_lt64 by simp_all
  have p: "(2 :: nat) ^ 64 = 2 * 2 ^ 63" by simp
  show ?thesis
  proof (cases "d \<le> r1")
    case True
    have e: "d - r1 - 1 = 0 - (r1 - d + 1)" by simp
    have rd: "unat (r1 - d) = unat r1 - d'" using True assms(2) by (simp add: unat_sub)
    have small: "unat r1 - d' + 1 \<le> 2 ^ 63" using assms lt p by linarith
    then have "unat (r1 - d) + unat (1 :: u64) < 2 ^ LENGTH(64)" using rd by simp
    then have "unat (r1 - d + 1) = unat r1 - d' + 1"
      using unat_add_lem [THEN iffD1, of "r1 - d" 1] rd by simp
    moreover have "r1 - d + 1 \<noteq> 0" using calculation by (metis add_is_0 one_neq_zero unsigned_0)
    ultimately have "unat (d - r1 - 1) = 2 ^ 64 - (unat r1 - d' + 1)"
      unfolding e unat_sub_if' by simp
    then show ?thesis using True small by (simp add: signed_drop_bit_63)
  next
    case False
    then have "unat r1 < d'" using assms(2) by (simp add: word_le_nat_alt)
    then have "unat (d - r1) = d' - unat r1" "d - r1 \<noteq> 0"
      using assms(2) False by (auto simp: unat_sub word_le_nat_alt)
    then have "unat (d - r1 - 1) = d' - unat r1 - 1" by (simp add: unat_minus_one)
    moreover have "d' - unat r1 - 1 < 2 ^ 63" using assms lt p by linarith
    ultimately show ?thesis using False by (simp add: signed_drop_bit_63)
  qed
qed

lemma loop_bits:
  fixes n s Q :: nat
  assumes "s < 64" and "Q < 2 ^ (63 - s)"
  defines "b \<equiv> n div 2 ^ s mod 2" and "M \<equiv> (n mod 2 ^ s) * 2 ^ (63 - s) + Q"
  shows "(n mod 2 ^ Suc s) * 2 ^ (63 - s) + Q = b * 2 ^ 63 + M" and "M < 2 ^ 63"
    and "2 * M = (n mod 2 ^ s) * 2 ^ (64 - s) + 2 * Q"
proof -
  have p: "(2 :: nat) ^ s * 2 ^ (63 - s) = 2 ^ 63" using assms(1) by (simp flip: power_add)
  have "n mod 2 ^ Suc s = 2 ^ s * b + n mod 2 ^ s"
    unfolding b_def using mod_mult2_eq [of n "2 ^ s" 2] by (simp add: mult.commute)
  then show "(n mod 2 ^ Suc s) * 2 ^ (63 - s) + Q = b * 2 ^ 63 + M"
    unfolding M_def p [symmetric] by (simp add: algebra_simps)
  have "(n mod 2 ^ s + 1) * 2 ^ (63 - s) \<le> 2 ^ s * 2 ^ (63 - s)"
    by (intro mult_le_mono1) (simp add: Suc_leI)
  then show "M < 2 ^ 63" unfolding M_def p using assms(2) by (simp add: algebra_simps)
  have "64 - s = Suc (63 - s)" using assms(1) by simp
  then show "2 * M = (n mod 2 ^ s) * 2 ^ (64 - s) + 2 * Q" by (simp add: M_def)
qed

lemma udivmod_round_inv:
  assumes inv: "loop_inv n (unat d) (Suc s) (q, r, carry)" and n: "n < 2 ^ 64" and s: "s < 64"
    and big: "unat d \<le> 2 ^ 63 \<or> s = 0 \<and> 2 ^ 63 \<le> n"
  shows "loop_inv n (unat d) s (udivmod_round d (q, r, carry))"
proof -
  obtain Q where Q: "Q < 2 ^ (63 - s)" "unat q = (n mod 2 ^ Suc s) * 2 ^ (63 - s) + Q"
      "n div 2 ^ Suc s = (2 * Q + unat carry) * unat d + unat r"
    and c: "unat carry < 2" and rd: "unat r < unat d"
    using inv s by (auto simp: loop_inv_def)
  define b where "b = n div 2 ^ s mod 2"
  define M where "M = (n mod 2 ^ s) * 2 ^ (63 - s) + Q"
  note bits = loop_bits [OF s Q(1), of n, folded b_def M_def]
  have p: "(2 :: nat) ^ 64 = 2 * 2 ^ 63" by simp
  have q: "unat q = b * 2 ^ 63 + M" using Q(2) bits(1) by simp
  then have top: "unat (drop_bit 63 q) = b" using bits(2) by (simp add: unat_shr)
  have b2: "b < 2" by (simp add: b_def)
  have "n div 2 ^ s = 2 * (n div 2 ^ Suc s) + b"
    unfolding b_def using div_mult2_eq [of n "2 ^ s" 2] by (simp add: mult.commute)
  then have nd: "n div 2 ^ s = 2 * (2 * Q + unat carry) * unat d + (2 * unat r + b)"
    unfolding Q(3) by (simp add: algebra_simps)
  have "n div 2 ^ s < 2 ^ 64" using n by (meson div_le_dividend le_less_trans)
  then have r64: "2 * unat r + b < 2 ^ 64" using nd by linarith
  define r1 where "r1 = push_bit 1 r OR drop_bit 63 q"
  have r1: "unat r1 = 2 * unat r + b"
    using unat_shift_or [of "drop_bit 63 q" r] top b2 r64 by (simp add: r1_def)
  define q1 where "q1 = push_bit 1 q OR (ucast carry :: u64)"
  have uc: "unat (ucast carry :: u64) = unat carry" using c by (simp add: unsigned_ucast_eq take_bit_nat_eq_self)
  have "2 * unat q mod 2 ^ 64 = 2 * M"
    unfolding q p using bits(2) by (simp add: distrib_left mult.left_commute)
  then have q1: "unat q1 = (n mod 2 ^ s) * 2 ^ (64 - s) + (2 * Q + unat carry)"
    using unat_shift_or [of "ucast carry" q] uc c bits(3) by (simp add: q1_def)
  have "64 - s = Suc (63 - s)" using s by simp
  then have "(2 :: nat) ^ (64 - s) = 2 * 2 ^ (63 - s)" by simp
  then have Q': "2 * Q + unat carry < 2 ^ (64 - s)" using Q(1) c by linarith
  have "unat d \<le> 2 ^ 63 \<or> 2 ^ 63 \<le> unat r1"
  proof (cases "unat d \<le> 2 ^ 63")
    case False
    then have s0: "s = 0" "2 ^ 63 \<le> n" using big by auto
    have "2 * Q + unat carry = 0"
    proof (rule ccontr)
      assume "2 * Q + unat carry \<noteq> 0"
      then have "1 * unat d \<le> (2 * Q + unat carry) * unat d" by (intro mult_le_mono1) linarith
      moreover have "n = 2 * ((2 * Q + unat carry) * unat d) + (2 * unat r + b)"
        using nd s0(1) by (simp only: power_0 div_by_1 mult.assoc)
      ultimately have "2 * 2 ^ 63 < n" using False by linarith
      then show False using n p by linarith
    qed
    then show ?thesis using nd s0 r1 by simp
  qed simp
  then have cmp: "signed_drop_bit 63 (d - r1 - 1) = (if d \<le> r1 then -1 else 0)"
    using round_compare [of r1 "unat d" d] rd r1 b2 by simp
  have carry: "carry = 0 \<or> carry = 1" using less_2_cases [OF c] by (auto simp: word_unat_eq_iff)
  have round: "udivmod_round d (q, r, carry) = (q1, if d \<le> r1 then r1 - d else r1, if d \<le> r1 then 1 else 0)"
    unfolding udivmod_round_def prod.case shift_in shift_in_carry [OF carry] Let_def
      r1_def [symmetric] q1_def [symmetric] cmp by simp
  show ?thesis
  proof (cases "d \<le> r1")
    case True
    then have "unat (r1 - d) = unat r1 - unat d" "unat d \<le> unat r1" by (simp_all add: unat_sub word_le_nat_alt)
    then show ?thesis
      unfolding round loop_inv_def using True q1 Q' nd r1 rd b2
      by (auto intro!: exI [of _ "2 * Q + unat carry"])
  next
    case False
    then show ?thesis
      unfolding round loop_inv_def using q1 Q' nd r1
      by (auto intro!: exI [of _ "2 * Q + unat carry"] simp: word_le_nat_alt)
  qed
qed

lemma udivmod_loop_inv:
  "loop_inv n (unat d) sr s \<Longrightarrow> n < 2 ^ 64 \<Longrightarrow> sr \<le> 64 \<Longrightarrow>
   unat d \<le> 2 ^ 63 \<or> sr \<le> 1 \<and> 2 ^ 63 \<le> n \<Longrightarrow> loop_inv n (unat d) 0 (udivmod_loop sr d s)"
proof (induction sr d s rule: udivmod_loop.induct)
  case (2 sr d s)
  then have "loop_inv n (unat d) sr (udivmod_round d s)"
    by (cases s) (auto intro!: udivmod_round_inv)
  then show ?case using 2 by auto
qed simp

text \<open>What the set-up promises the loop.\<close>

definition start_ok :: "u64 \<Rightarrow> u64 \<Rightarrow> u32 \<Rightarrow> bool" where
  "start_ok n d sr \<longleftrightarrow> 0 < unat sr \<and> unat sr < 64 \<and> unat n div 2 ^ unat sr < unat d \<and>
     (unat d \<le> 2 ^ 63 \<or> unat sr = 1 \<and> 2 ^ 63 \<le> unat n)"

definition init_ok :: "u64 \<Rightarrow> u64 \<Rightarrow> udivmod_start res \<Rightarrow> bool" where
  "init_ok n d st \<longleftrightarrow>
     (case st of
        Inr (Return qt rm) \<Rightarrow> qt = n div d \<and> rm = n mod d
      | Inr (Start sr q r) \<Rightarrow> start_ok n d sr \<and> q = push_bit (64 - unat sr) n \<and> r = drop_bit (unat sr) n
      | Inl e \<Rightarrow> False)"

lemma loop_inv_start:
  assumes "start_ok n d sr"
  shows "loop_inv (unat n) (unat d) (unat sr) (push_bit (64 - unat sr) n, drop_bit (unat sr) n, 0)"
proof -
  let ?k = "unat sr"
  have k: "?k < 64" using assms by (simp add: start_ok_def)
  have "unat (push_bit (64 - ?k) n) = (unat n * 2 ^ (64 - ?k)) mod 2 ^ 64"
    by (simp add: unsigned_push_bit_eq push_bit_eq_mult [where 'a = nat] take_bit_eq_mod [where 'a = nat])
  also have "\<dots> = (unat n mod 2 ^ ?k) * 2 ^ (64 - ?k)"
  proof -
    have "(2 :: nat) ^ 64 = 2 ^ ?k * 2 ^ (64 - ?k)" using k by (simp flip: power_add)
    then show ?thesis by (simp add: mult_mod_left)
  qed
  finally show ?thesis using assms by (auto simp: loop_inv_def start_ok_def unat_shr)
qed

lemma udivmoddi4_init:
  assumes "init_ok a b (udivmod_init a b)" and "b \<noteq> 0"
  shows "udivmoddi4 a b = Inr (a div b, a mod b)"
proof (cases "udivmod_init a b")
  case (Inr st)
  show ?thesis
  proof (cases st)
    case (Return qt rm)
    then show ?thesis using assms Inr by (simp add: udivmoddi4_def init_ok_def)
  next
    case (Start sr q r)
    then have ok: "start_ok a b sr" and qr: "q = push_bit (64 - unat sr) a" "r = drop_bit (unat sr) a"
      using assms(1) Inr by (simp_all add: init_ok_def)
    obtain q' r' c where fin: "udivmod_loop (unat sr) b (q, r, 0) = (q', r', c)"
      by (cases "udivmod_loop (unat sr) b (q, r, 0)")
    have "loop_inv (unat a) (unat b) 0 (q', r', c)"
      using udivmod_loop_inv [OF loop_inv_start [OF ok] unat_lt64] ok unfolding qr(1,2) [symmetric] fin
      by (auto simp: start_ok_def)
    then have n: "unat a = (2 * unat q' + unat c) * unat b + unat r'" "unat r' < unat b" "unat c < 2"
      by (auto simp: loop_inv_def)
    have quo: "unat a div unat b = 2 * unat q' + unat c" "unat a mod unat b = unat r'"
      unfolding n(1) using n(2) by simp_all
    have "2 * unat q' + unat c < 2 ^ 64"
      using quo(1) unat_lt64 [of a] by (metis div_le_dividend le_less_trans)
    moreover have uc: "unat (ucast c :: u64) = unat c"
      using n(3) by (simp add: unsigned_ucast_eq take_bit_nat_eq_self)
    ultimately have "unat (push_bit 1 q' OR ucast c) = 2 * unat q' + unat c"
      using unat_shift_or [of "ucast c" q'] n(3) by simp
    then have "push_bit 1 q' OR ucast c = a div b" "r' = a mod b"
      using quo by (simp_all add: word_unat_eq_iff unat_div_distrib unat_mod_distrib)
    then show ?thesis using Inr Start fin by (simp add: udivmoddi4_def)
  qed
qed (use assms in \<open>simp add: init_ok_def\<close>)

subsection \<open>The set-up\<close>

lemma start_both:
  assumes "dw_high n \<noteq> 0" and "dw_high d \<noteq> 0"
  obtains cn cd where "clzsi2 (dw_high n) = Inr cn" and "clzsi2 (dw_high d) = Inr cd"
    and "unat cn < 32" and "unat cd < 32"
    and "2 ^ (63 - unat cn) \<le> unat n" and "unat n < 2 ^ (64 - unat cn)"
    and "2 ^ (63 - unat cd) \<le> unat d" and "unat d < 2 ^ (64 - unat cd)"
proof -
  have *: "\<exists>c. clzsi2 (dw_high w) = Inr c \<and> unat c < 32 \<and> 2 ^ (63 - unat c) \<le> unat w \<and> unat w < 2 ^ (64 - unat c)"
    if w: "dw_high w \<noteq> 0" for w
  proof -
    obtain c where c: "clzsi2 (dw_high w) = Inr c" "unat c < 32"
      "2 ^ (31 - unat c) \<le> unat w div 2 ^ 32" "unat w div 2 ^ 32 < 2 ^ (32 - unat c)"
      using clzsi2_spec [OF w] unfolding unat_dw_high by blast
    have e: "63 - unat c = (31 - unat c) + 32" "64 - unat c = (32 - unat c) + 32" using c(2) by simp_all
    have "2 ^ (63 - unat c) \<le> unat w"
      unfolding e(1) power_add using c(3) by (simp add: less_eq_div_iff_mult_less_eq)
    moreover have "unat w < 2 ^ (64 - unat c)"
      unfolding e(2) power_add using c(4) by (simp add: div_less_iff_less_mult)
    ultimately show ?thesis using c(1,2) by blast
  qed
  show ?thesis using *[OF assms(1)] *[OF assms(2)] that by blast
qed

text \<open>The difference of two counts.\<close>

lemma unat_count_diff:
  assumes "unat cd < 32" and "unat cn < 32"
  shows "unat (cd - cn :: u32) = (if unat cn \<le> unat cd then unat cd - unat cn else 2 ^ 32 - (unat cn - unat cd))"
proof -
  have "unat cd + 2 ^ LENGTH(32) - unat cn = 2 ^ 32 - (unat cn - unat cd)" if "\<not> unat cn \<le> unat cd"
    using that assms by simp
  then show ?thesis unfolding unat_sub_if' by (simp only: if_False if_True split: if_split) simp
qed

lemma less_by_counts:
  assumes "unat n < 2 ^ (64 - unat cn)" and "2 ^ (63 - unat cd) \<le> unat d" and "unat cd < unat cn"
  shows "unat n < unat d"
proof -
  have "(2 :: nat) ^ (64 - unat cn) \<le> 2 ^ (63 - unat cd)" using assms(3) by (intro power_increasing) auto
  then show ?thesis using assms(1,2) by linarith
qed

lemma return_small: "unat n < unat d \<Longrightarrow> n div d = 0 \<and> n mod d = n" for n d :: u64
  by (simp add: word_unat_eq_iff unat_div_distrib unat_mod_distrib)

lemma start_ok_counts:
  assumes "unat sr = unat cd - unat cn" and "unat cn \<le> unat cd" and "unat cd < 32"
    and "2 ^ (63 - unat cn) \<le> unat n" and "unat n < 2 ^ (64 - unat cn)"
    and "2 ^ (63 - unat cd) \<le> unat d" and "unat d < 2 ^ (64 - unat cd)"
  shows "start_ok n d (sr + 1)" and "unat (sr + 1) = unat cd - unat cn + 1"
proof -
  have "unat sr + unat (1 :: u32) < 2 ^ LENGTH(32)" using assms(1,3) by simp
  then show sr: "unat (sr + 1) = unat cd - unat cn + 1"
    using unat_add_lem [THEN iffD1, of sr 1] assms(1) by simp
  have "64 - unat cn = (63 - unat cd) + (unat cd - unat cn + 1)" using assms(2,3) by simp
  then have "unat n < 2 ^ (63 - unat cd) * 2 ^ (unat cd - unat cn + 1)"
    using assms(5) by (simp only: power_add [symmetric])
  then have "unat n div 2 ^ (unat cd - unat cn + 1) < 2 ^ (63 - unat cd)"
    by (rule less_mult_imp_div_less)
  then have "unat n div 2 ^ unat (sr + 1) < unat d" using sr assms(6) by simp
  moreover have "unat d \<le> 2 ^ 63 \<or> unat (sr + 1) = 1 \<and> 2 ^ 63 \<le> unat n" if "unat cd = 0"
    using that sr assms(2,4) by simp
  moreover have "unat d \<le> 2 ^ 63" if "unat cd \<noteq> 0"
  proof -
    have "(2 :: nat) ^ (64 - unat cd) \<le> 2 ^ 63" using that by (intro power_increasing) auto
    then show ?thesis using assms(7) by linarith
  qed
  ultimately have "unat d \<le> 2 ^ 63 \<or> unat (sr + 1) = 1 \<and> 2 ^ 63 \<le> unat n" by (cases "unat cd = 0") auto
  then show "start_ok n d (sr + 1)"
    using sr assms(1-3) \<open>unat n div 2 ^ unat (sr + 1) < unat d\<close> by (simp add: start_ok_def)
qed

lemma halves_at_32: "udwords (dw_low n) 0 = push_bit 32 n" "udwords 0 (dw_high n) = drop_bit 32 n"
  by (rule bit_word_eqI, auto simp: bit_simps dest: bit_imp_le_length)+

text \<open>The three ways into the loop, for a count below, at and above 32.\<close>

lemma init_ok_below:
  assumes "start_ok n d sr" and "sr < 32"
  shows "init_ok n d (bind_res (split_low n sr) (\<lambda>(q, r). Inr (Start sr q r)))"
proof -
  have "0 < sr" using assms(1) by (simp add: start_ok_def word_less_nat_alt)
  then show ?thesis using assms split_low_spec [of sr n] by (simp add: init_ok_def)
qed

lemma init_ok_at:
  "start_ok n d 32 \<Longrightarrow> init_ok n d (Inr (Start 32 (udwords (dw_low n) 0) (udwords 0 (dw_high n))))"
  by (simp add: init_ok_def halves_at_32)

lemma init_ok_above:
  assumes "start_ok n d sr" and "32 < sr"
  shows "init_ok n d (bind_res (shl32 (dw_low n) (64 - sr)) (\<lambda>q_low.
          bind_res (shl32 (dw_high n) (64 - sr)) (\<lambda>x.
          bind_res (shr32 (dw_low n) (sr - 32)) (\<lambda>y.
          bind_res (shr32 (dw_high n) (sr - 32)) (\<lambda>r_low.
          Inr (Start sr (udwords (x OR y) q_low) (udwords 0 r_low)))))))"
proof -
  let ?k = "unat sr"
  have k: "32 < ?k" "?k < 64" using assms by (simp_all add: start_ok_def word_less_nat_alt)
  have u: "unat (64 - sr) = 64 - ?k" "unat (sr - 32) = ?k - 32"
    using k by (simp_all add: unat_sub word_le_nat_alt)
  have "64 - sr < 32" "sr - 32 < 32" using u k by (simp_all add: word_less_nat_alt)
  moreover have "udwords (push_bit (64 - ?k) (dw_high n) OR drop_bit (?k - 32) (dw_low n))
      (push_bit (64 - ?k) (dw_low n)) = push_bit (64 - ?k) n"
    by (rule bit_word_eqI) (use k in \<open>auto simp: bit_simps add.commute\<close>)
  moreover have "udwords 0 (drop_bit (?k - 32) (dw_high n)) = drop_bit ?k n"
    by (rule bit_word_eqI) (use k in \<open>auto simp: bit_simps dest: bit_imp_le_length\<close>)
  ultimately show ?thesis using assms(1) u by (simp add: init_ok_def shl32_def shr32_def)
qed

lemma init_ok_small: "unat n < unat d \<Longrightarrow> init_ok n d (Inr (Return 0 n))"
  using return_small [of n d] by (simp add: init_ok_def)

lemma udivmod_both_ok:
  assumes "dw_high n \<noteq> 0" and "dw_high d \<noteq> 0"
  shows "init_ok n d (udivmod_both n d)"
proof -
  obtain cn cd where c: "clzsi2 (dw_high n) = Inr cn" "clzsi2 (dw_high d) = Inr cd"
    and lt: "unat cn < 32" "unat cd < 32"
    and n: "2 ^ (63 - unat cn) \<le> unat n" "unat n < 2 ^ (64 - unat cn)"
    and d: "2 ^ (63 - unat cd) \<le> unat d" "unat d < 2 ^ (64 - unat cd)"
    using start_both [OF assms] by blast
  define sr where "sr = cd - cn"
  note diff = unat_count_diff [OF lt(2,1), folded sr_def]
  show ?thesis
  proof (cases "unat cn \<le> unat cd")
    case True
    then have sr: "unat sr = unat cd - unat cn" using diff by simp
    note ok = start_ok_counts [OF sr True lt(2) n d]
    have "sr + 1 < 32 \<or> sr + 1 = 32" using ok(2) lt(2) by (auto simp: word_less_nat_alt word_unat_eq_iff)
    moreover have "\<not> 32 - 1 < sr" using sr lt(2) by (simp add: word_less_nat_alt)
    ultimately show ?thesis
      using c init_ok_below [OF ok(1)] init_ok_at [of n d] ok(1)
      unfolding udivmod_both_def by (auto simp: sr_def [symmetric] Let_def)
  next
    case False
    then have "32 - 1 < sr" using diff lt by (simp add: word_less_nat_alt)
    then show ?thesis
      using c init_ok_small [OF less_by_counts [OF n(2) d(1)]] False
      unfolding udivmod_both_def by (simp add: sr_def [symmetric] Let_def)
  qed
qed

lemma unat_div_mod64: "unat (n div d :: u64) = unat n div unat d" "unat (n mod d) = unat n mod unat d"
  by (simp_all add: unat_div_distrib unat_mod_distrib)

lemma unat_ucast64: "unat (ucast (w :: u32) :: u64) = unat w"
proof -
  have "unat w < 2 ^ LENGTH(32)" by (rule unsigned_less)
  then show ?thesis by (simp add: unsigned_ucast_eq take_bit_nat_eq_self)
qed

lemma unat_and_mask: "unat (x AND mask k) = unat x mod 2 ^ k" for x :: u32
  by (simp add: take_bit_eq_mask [symmetric] unsigned_take_bit_eq take_bit_eq_mod [where 'a = nat])

lemma unat_halves: "unat w = unat (dw_high w) * 2 ^ 32 + unat (dw_low w)"
  using unat_udwords [of "dw_high w" "dw_low w"] by simp

lemma div_mod_high:
  assumes "dw_low d = 0"
  shows "unat n div unat d = unat (dw_high n) div unat (dw_high d)"
    and "unat n mod unat d = (unat (dw_high n) mod unat (dw_high d)) * 2 ^ 32 + unat (dw_low n)"
proof -
  let ?nl = "unat (dw_low n)" and ?dh = "unat (dw_high d)"
  have d: "unat d = 2 ^ 32 * ?dh" using unat_halves [of d] assms by simp
  have nl: "?nl < 2 ^ 32" by (simp add: unat_dw_low)
  have h: "unat n div 2 ^ 32 = unat (dw_high n)" "unat n mod 2 ^ 32 = ?nl"
    by (simp_all add: unat_dw_high unat_dw_low)
  show "unat n div unat d = unat (dw_high n) div ?dh" unfolding d div_mult2_eq h ..
  show "unat n mod unat d = (unat (dw_high n) mod ?dh) * 2 ^ 32 + ?nl" unfolding d mod_mult2_eq h by simp
qed

lemma udivmod_high_clz:
  assumes "dw_high n \<noteq> 0" and "dw_low d = 0" and "dw_high d \<noteq> 0"
    and clz: "dw_low n \<noteq> 0" "dw_high d AND (dw_high d - 1) \<noteq> 0"
  shows "init_ok n d (udivmod_high n d)"
proof -
  have d: "unat d = unat (dw_high d) * 2 ^ 32" using unat_halves [of d] assms(2) by simp
  obtain cn cd where c: "clzsi2 (dw_high n) = Inr cn" "clzsi2 (dw_high d) = Inr cd"
    and lt: "unat cn < 32" "unat cd < 32"
    and bn: "2 ^ (63 - unat cn) \<le> unat n" "unat n < 2 ^ (64 - unat cn)"
    and bd: "2 ^ (63 - unat cd) \<le> unat d" "unat d < 2 ^ (64 - unat cd)"
    using start_both [OF assms(1,3)] by blast
  have cd: "unat cd \<noteq> 31"
  proof
    assume "unat cd = 31"
    then have "unat (dw_high d) < 2" using bd(2) d by simp
    then have "unat (dw_high d) = 1" using assms(3) by (simp add: less_2_cases_iff unat_eq_zero)
    then have "dw_high d = 1" by (simp add: word_unat_eq_iff)
    then show False using clz(2) by simp
  qed
  define sr where "sr = cd - cn"
  note diff = unat_count_diff [OF lt(2,1), folded sr_def]
  show ?thesis
  proof (cases "unat cn \<le> unat cd")
    case True
    then have sr: "unat sr = unat cd - unat cn" using diff by simp
    note ok = start_ok_counts [OF sr True lt(2) bn bd]
    have "sr + 1 < 32" using ok(2) lt(2) cd by (simp add: word_less_nat_alt)
    moreover have "\<not> 32 - 2 < sr" using sr lt(2) cd by (simp add: word_less_nat_alt)
    ultimately show ?thesis
      using c init_ok_below [OF ok(1)] clz assms unfolding udivmod_high_def
      by (simp add: sr_def [symmetric] Let_def)
  next
    case False
    then have "32 - 2 < sr" using diff lt by (simp add: word_less_nat_alt)
    then show ?thesis
      using c init_ok_small [OF less_by_counts [OF bn(2) bd(1)]] False clz assms
      unfolding udivmod_high_def by (simp add: sr_def [symmetric] Let_def)
  qed
qed

lemma udivmod_high_ok:
  assumes "dw_high n \<noteq> 0" and "dw_low d = 0" and "dw_high d \<noteq> 0"
  shows "init_ok n d (udivmod_high n d)"
proof -
  note quo = div_mod_high(1) [OF assms(2), of n] and rem = div_mod_high(2) [OF assms(2), of n]
  consider (zero) "dw_low n = 0" | (pow) "dw_low n \<noteq> 0" "dw_high d AND (dw_high d - 1) = 0"
    | (clz) "dw_low n \<noteq> 0" "dw_high d AND (dw_high d - 1) \<noteq> 0" by blast
  then show ?thesis
  proof cases
    case zero
    then have "init_ok n d (Inr (Return (ucast (dw_high n div dw_high d)) (udwords (dw_high n mod dw_high d) 0)))"
      using quo rem
      by (simp add: init_ok_def word_unat_eq_iff unat_div_mod64 unat_udwords unat_ucast64 unat_div_distrib unat_mod_distrib)
    then show ?thesis using zero assms by (simp add: udivmod_high_def umod32_def udiv32_def)
  next
    case pow
    then obtain c where c: "ctzsi2 (dw_high d) = Inr c" "unat c < 32" "unat (dw_high d) = 2 ^ unat c"
      "dw_high d - 1 = mask (unat c)" using power_of_two [OF assms(3)] by blast
    have "init_ok n d (Inr (Return (ucast (drop_bit (unat c) (dw_high n)))
        (udwords (dw_high n AND (dw_high d - 1)) (dw_low n))))"
      using quo rem c(3) unfolding c(4)
      by (simp add: init_ok_def word_unat_eq_iff unat_div_mod64 unat_udwords unat_ucast64 unat_shr unat_and_mask)
    then show ?thesis
      using pow assms c(1,2) by (simp add: udivmod_high_def shr32_def word_less_nat_alt)
  next
    case clz
    then show ?thesis using udivmod_high_clz [OF assms] by blast
  qed
qed

lemma shr_halves:
  assumes "0 < k" and "k < 32"
  shows "udwords (drop_bit k (dw_high n)) (push_bit (32 - k) (dw_high n) OR drop_bit k (dw_low n)) = drop_bit k n"
  by (rule bit_word_eqI) (use assms in \<open>auto simp: bit_simps add.commute dest: bit_imp_le_length\<close>)

lemma udivmod_low_pow:
  assumes d: "dw_high d = 0" and pow: "dw_low d \<noteq> 0" "dw_low d AND (dw_low d - 1) = 0"
  shows "init_ok n d (udivmod_low n d)"
proof -
  obtain c where c: "ctzsi2 (dw_low d) = Inr c" "unat c < 32" "unat (dw_low d) = 2 ^ unat c"
    "dw_low d - 1 = mask (unat c)" using power_of_two [OF pow] by blast
  have ud: "unat d = 2 ^ unat c" using unat_dw_low_small [OF d] c(3) by simp
  have "(2 :: nat) ^ unat c dvd 2 ^ 32" using c(2) by (intro le_imp_power_dvd) simp
  then have "unat n mod unat d = unat (dw_low n) mod 2 ^ unat c"
    unfolding ud unat_dw_low by (simp add: mod_mod_cancel)
  then have rm: "ucast (dw_low n AND (dw_low d - 1)) = n mod d"
    unfolding c(4) by (simp add: word_unat_eq_iff unat_div_mod64 unat_ucast64 unat_and_mask)
  have qt: "drop_bit (unat c) n = n div d"
    by (simp add: word_unat_eq_iff unat_shr unat_div_mod64 ud)
  show ?thesis
  proof (cases "dw_low d = 1")
    case True
    then have "2 ^ unat c = Suc 0" using c(3) by simp
    then have "unat c = 0" by simp
    then show ?thesis using True pow qt rm by (simp add: udivmod_low_def init_ok_def Let_def)
  next
    case False
    then have "unat c \<noteq> 0" using c(3) by (auto simp: word_unat_eq_iff)
    then have k: "0 < unat c" by simp
    have "unat (32 - c) = 32 - unat c" using c(2) by (simp add: unat_sub word_le_nat_alt)
    then have "c < 32" "32 - c < 32" "unat (32 - c) = 32 - unat c"
      using c(2) k by (simp_all add: word_less_nat_alt)
    then show ?thesis
      using False pow c(1) rm qt shr_halves [OF k c(2), of n]
      by (simp add: udivmod_low_def init_ok_def shl32_def shr32_def Let_def)
  qed
qed

lemma udivmod_low_clz:
  assumes n: "dw_high n \<noteq> 0" and d: "dw_high d = 0" and nz: "dw_low d \<noteq> 0"
    and clz: "dw_low d AND (dw_low d - 1) \<noteq> 0"
  shows "init_ok n d (udivmod_low n d)"
proof -
  obtain cd where cd: "clzsi2 (dw_low d) = Inr cd" "unat cd < 32" "2 ^ (31 - unat cd) \<le> unat d" "unat d < 2 ^ (32 - unat cd)"
    using clzsi2_spec [OF nz] unat_dw_low_small [OF d] by auto
  obtain cn where cn: "clzsi2 (dw_high n) = Inr cn" "unat cn < 32" "unat n < 2 ^ (64 - unat cn)"
    using start_both [OF n n] by blast
  have "unat cd \<noteq> 31"
  proof
    assume "unat cd = 31"
    then have "unat (dw_low d) < 2" using cd(4) unat_dw_low_small [OF d] by simp
    then have "unat (dw_low d) = 1" using nz by (auto simp: less_2_cases_iff unat_eq_zero)
    then have "dw_low d = 1" by (simp add: word_unat_eq_iff)
    then show False using clz by simp
  qed
  then have cd30: "unat cd < 31" using cd(2) by simp
  define sr where "sr = 1 + 32 + cd - cn"
  have "unat (33 + cd) = 33 + unat cd" using cd(2) unat_add_lem [THEN iffD1, of 33 cd] by simp
  then have sr: "unat sr = 33 + unat cd - unat cn"
    using cn(2) by (simp add: sr_def unat_sub word_le_nat_alt)
  have "64 - unat cn = (31 - unat cd) + unat sr" using sr cn(2) cd(2) by simp
  then have "unat n < 2 ^ (31 - unat cd) * 2 ^ unat sr" using cn(3) by (simp only: power_add [symmetric])
  then have "unat n div 2 ^ unat sr < 2 ^ (31 - unat cd)" by (rule less_mult_imp_div_less)
  moreover have "unat d < 2 ^ 32" using d by (simp add: dw_high_0_iff)
  ultimately have ok: "start_ok n d sr"
    using sr cd30 cd(3) cn(2) by (simp add: start_ok_def)
  have start: "udivmod_low n d =
      (if sr = 32 then Inr (Start sr (udwords (dw_low n) 0) (udwords 0 (dw_high n)))
       else if sr < 32 then bind_res (split_low n sr) (\<lambda>(q, r). Inr (Start sr q r))
       else
         bind_res (shl32 (dw_low n) (64 - sr)) (\<lambda>q_low.
         bind_res (shl32 (dw_high n) (64 - sr)) (\<lambda>x.
         bind_res (shr32 (dw_low n) (sr - 32)) (\<lambda>y.
         bind_res (shr32 (dw_high n) (sr - 32)) (\<lambda>r_low.
         Inr (Start sr (udwords (x OR y) q_low) (udwords 0 r_low)))))))"
    using clz cd(1) cn(1) unfolding udivmod_low_def Let_def sr_def by simp
  consider "sr = 32" | "sr < 32" | "32 < sr" by fastforce
  then show ?thesis
    unfolding start using init_ok_at [of n d] init_ok_below [OF ok] init_ok_above [OF ok] ok by cases auto
qed

lemma udivmod_init_ok:
  assumes "b \<noteq> 0"
  shows "init_ok a b (udivmod_init a b)"
proof -
  have b: "dw_high b \<noteq> 0 \<or> dw_low b \<noteq> 0"
    using assms unat_halves [of b] by (auto simp: word_unat_eq_iff)
  have small: "init_ok a b (udivmod_init a b)" if a: "dw_high a = 0"
  proof (cases "dw_high b = 0")
    case True
    then have "ucast (dw_low a div dw_low b) = a div b" "ucast (dw_low a mod dw_low b) = a mod b"
      using unat_dw_low_small [OF a] unat_dw_low_small [OF True]
      by (simp_all add: word_unat_eq_iff unat_div_mod64 unat_ucast64 unat_div_distrib unat_mod_distrib)
    then show ?thesis using a True b by (simp add: udivmod_init_def umod32_def udiv32_def init_ok_def)
  next
    case False
    then have "unat a < unat b" using a by (auto simp: dw_high_0_iff)
    moreover have "ucast (dw_low a) = a" using unat_dw_low_small [OF a] by (simp add: word_unat_eq_iff unat_ucast64)
    ultimately show ?thesis using a False init_ok_small by (simp add: udivmod_init_def)
  qed
  show ?thesis
    using small b udivmod_high_ok [of a b] udivmod_low_pow [of b a] udivmod_low_clz [of a b] udivmod_both_ok [of a b]
    by (cases "dw_high a = 0"; cases "dw_low b = 0"; cases "dw_high b = 0") (auto simp: udivmod_init_def)
qed

text \<open>C28: 64-bit unsigned division.  For every dividend and every nonzero divisor
  \<open>__udivmoddi4\<close> returns the quotient and stores the remainder; no shift count leaves
  its range on the way.  A zero divisor reaches a 32-bit division by zero.\<close>

theorem udivmoddi4_correct:
  "udivmoddi4 a b = (if b = 0 then Inl Div_trap else Inr (a div b, a mod b))"
proof (cases "b = 0")
  case True
  then have "dw_high b = 0" "dw_low b = 0" by (simp_all add: dw_high_def dw_low_def)
  then show ?thesis using True by (simp add: udivmoddi4_def udivmod_init_def udivmod_high_def umod32_def)
qed (simp add: udivmoddi4_init udivmod_init_ok)

end
