(* ===== verification/Int64_Signed.thy ===== *)
theory Int64_Signed
  imports Int64_Facts
begin

text \<open>
  Facts on signed 64-bit division: the sign handling of \<open>__divdi3\<close>, \<open>__moddi3\<close> and
  \<open>__divmoddi4\<close> around the unsigned division yields C's truncating quotient and remainder.
\<close>

lemma sign_word: "signed_drop_bit 63 (x :: u64) = (if sint x < 0 then -1 else 0)"
proof -
  have "bit x 63 \<longleftrightarrow> sint x < 0" using bit_last_iff [of x] by simp
  moreover have "signed_drop_bit 63 x = (if bit x 63 then -1 else 0)"
    by (rule bit_word_eqI) (auto simp: bit_simps not_le less_Suc_eq_le)
  ultimately show ?thesis by simp
qed

lemma sint_word_of_int64: "- (2 ^ 63) \<le> i \<Longrightarrow> i < 2 ^ 63 \<Longrightarrow> sint (word_of_int i :: u64) = i"
  by (simp add: sint_sbintrunc' signed_take_bit_int_eq_self)

lemma sint_range64: "- (2 ^ 63) \<le> sint (x :: u64)" "sint x < 2 ^ 63"
  using sint_greater_eq [of x] sint_less [of x] by simp_all

lemma sint_0_iff64: "sint (x :: u64) = 0 \<longleftrightarrow> x = 0"
  by (metis signed_0 signed_word_eqI)

lemma flip_sign: "(x XOR (if b then -1 else 0)) - (if b then -1 else 0) = (if b then - x else x)" for x :: u64
  by (simp add: not_eq_complement)

lemma negate_if_spec:
  assumes "sint x \<noteq> - (2 ^ 63)"
  shows "negate_if x (if b then -1 else 0) = Inr (word_of_int (if b then - sint x else sint x))"
proof -
  have "NOT x = word_of_int (- sint x - 1)" by (simp add: not_eq_complement)
  then have "sint (NOT x) = - sint x - 1"
    using sint_range64 [of x] sint_word_of_int64 [of "- sint x - 1"] by simp
  then have "di_ok (sint (x XOR (if b then -1 else 0)) - sint (if b then -1 else 0 :: u64))"
    using assms sint_range64 [of x] by (auto simp: di_ok_def)
  then show ?thesis unfolding negate_if_def flip_sign by simp
qed

lemma uint_word_of_int64: "0 \<le> i \<Longrightarrow> i < 2 ^ 63 \<Longrightarrow> uint (word_of_int i :: u64) = i"
  by (simp add: uint_word_of_int)

text \<open>The unsigned division of the absolute values.\<close>

lemma abs_division:
  fixes a b :: u64
  assumes "sint a \<noteq> - (2 ^ 63)" and "sint b \<noteq> - (2 ^ 63)" and "b \<noteq> 0"
  shows "udivmoddi4 (word_of_int \<bar>sint a\<bar>) (word_of_int \<bar>sint b\<bar>) =
    Inr (word_of_int (\<bar>sint a\<bar> div \<bar>sint b\<bar>), word_of_int (\<bar>sint a\<bar> mod \<bar>sint b\<bar>))"
proof -
  let ?a = "word_of_int \<bar>sint a\<bar> :: u64" and ?b = "word_of_int \<bar>sint b\<bar> :: u64"
  have u: "uint ?a = \<bar>sint a\<bar>" "uint ?b = \<bar>sint b\<bar>"
    using assms sint_range64 [of a] sint_range64 [of b] by (intro uint_word_of_int64; auto)+
  have "sint b \<noteq> 0" using assms(3) by (simp add: sint_0_iff64)
  then have "?b \<noteq> 0" using u(2) by (metis abs_eq_0 unsigned_0)
  then have "udivmoddi4 ?a ?b = Inr (?a div ?b, ?a mod ?b)"
    using udivmoddi4_init udivmod_init_ok by blast
  moreover have "?a div ?b = word_of_int (\<bar>sint a\<bar> div \<bar>sint b\<bar>)" "?a mod ?b = word_of_int (\<bar>sint a\<bar> mod \<bar>sint b\<bar>)"
    using u by (metis uint_div_distrib word_of_int_uint, metis uint_mod_distrib word_of_int_uint)
  ultimately show ?thesis by simp
qed

lemma abs_div_le:
  fixes i j :: int
  assumes "j \<noteq> 0"
  shows "0 \<le> \<bar>i\<bar> div \<bar>j\<bar>" and "\<bar>i\<bar> div \<bar>j\<bar> \<le> \<bar>i\<bar>" and "0 \<le> \<bar>i\<bar> mod \<bar>j\<bar>" and "\<bar>i\<bar> mod \<bar>j\<bar> < \<bar>j\<bar>"
  using assms zdiv_mono2 [of "\<bar>i\<bar>" 1 "\<bar>j\<bar>"] by (simp_all add: div_int_pos_iff)

lemma sdiv_smod_signs:
  fixes i j :: int
  shows "i sdiv j = (if (i < 0) \<noteq> (j < 0) then - (\<bar>i\<bar> div \<bar>j\<bar>) else \<bar>i\<bar> div \<bar>j\<bar>)"
    and "i smod j = (if i < 0 then - (\<bar>i\<bar> mod \<bar>j\<bar>) else \<bar>i\<bar> mod \<bar>j\<bar>)"
proof -
  show q: "i sdiv j = (if (i < 0) \<noteq> (j < 0) then - (\<bar>i\<bar> div \<bar>j\<bar>) else \<bar>i\<bar> div \<bar>j\<bar>)"
    by (auto simp: signed_divide_int_def sgn_if)
  have "i smod j = i - i sdiv j * j" using sdiv_mult_smod_eq [of i j] by simp
  then show "i smod j = (if i < 0 then - (\<bar>i\<bar> mod \<bar>j\<bar>) else \<bar>i\<bar> mod \<bar>j\<bar>)"
    unfolding q minus_div_mult_eq_mod [symmetric] by (auto simp: abs_if)
qed

lemma negate_if_sign:
  assumes "sint x \<noteq> - (2 ^ 63)"
  shows "negate_if x (signed_drop_bit 63 x) = Inr (word_of_int \<bar>sint x\<bar>)"
  using negate_if_spec [OF assms, of "sint x < 0"] by (simp add: sign_word abs_if)

lemma divdi3_spec:
  fixes a b :: u64
  assumes "sint a \<noteq> - (2 ^ 63)" and "sint b \<noteq> - (2 ^ 63)" and "b \<noteq> 0"
  shows "divdi3 a b = Inr (word_of_int (sint a sdiv sint b))"
proof -
  have s: "signed_drop_bit 63 a XOR signed_drop_bit 63 b = (if (sint a < 0) \<noteq> (sint b < 0) then -1 else 0)"
    by (simp add: sign_word)
  show ?thesis
    unfolding divdi3_def Let_def negate_if_sign [OF assms(1)] negate_if_sign [OF assms(2)] bind_res_Inr
      abs_division [OF assms] prod.case s flip_sign sdiv_smod_signs by simp
qed

lemma moddi3_spec:
  fixes a b :: u64
  assumes "sint a \<noteq> - (2 ^ 63)" and "sint b \<noteq> - (2 ^ 63)" and "b \<noteq> 0"
  shows "moddi3 a b = Inr (word_of_int (sint a smod sint b))"
proof -
  let ?r = "\<bar>sint a\<bar> mod \<bar>sint b\<bar>"
  have "sint b \<noteq> 0" using assms(3) by (simp add: sint_0_iff64)
  then have "0 \<le> ?r" "?r < \<bar>sint b\<bar>" using abs_div_le(3,4) [of "sint b" "sint a"] by blast+
  moreover have "\<bar>sint b\<bar> < 2 ^ 63" using sint_range64 [of b] assms(2) by auto
  ultimately have "0 \<le> ?r" "?r < 2 ^ 63" by linarith+
  then have r: "sint (word_of_int ?r :: u64) = ?r" by (intro sint_word_of_int64) auto
  then have "sint (word_of_int ?r :: u64) \<noteq> - (2 ^ 63)" using \<open>0 \<le> ?r\<close> by simp
  from negate_if_spec [OF this, of "sint a < 0"]
  show ?thesis
    unfolding moddi3_def Let_def sign_word negate_if_sign [OF assms(1), unfolded sign_word]
      negate_if_sign [OF assms(2), unfolded sign_word] bind_res_Inr
      abs_division [OF assms] prod.case sdiv_smod_signs r .
qed

lemma sdiv_smod_range:
  fixes a b :: u64
  assumes "sint a \<noteq> - (2 ^ 63)" and "sint b \<noteq> - (2 ^ 63)" and "b \<noteq> 0"
  shows "sint (word_of_int (sint a sdiv sint b) :: u64) = sint a sdiv sint b"
    and "sint (word_of_int (sint a smod sint b) :: u64) = sint a smod sint b"
    and "di_ok (sint a sdiv sint b * sint b)" and "di_ok (sint a smod sint b)"
proof -
  have b: "sint b \<noteq> 0" using assms(3) by (simp add: sint_0_iff64)
  note le = abs_div_le [OF b, of "sint a"] sint_range64 [of a] sint_range64 [of b]
  show q: "sint (word_of_int (sint a sdiv sint b) :: u64) = sint a sdiv sint b"
    by (rule sint_word_of_int64) (use le assms in \<open>auto simp: sdiv_smod_signs\<close>)
  show "sint (word_of_int (sint a smod sint b) :: u64) = sint a smod sint b"
    by (rule sint_word_of_int64) (use le assms in \<open>auto simp: sdiv_smod_signs\<close>)
  show "di_ok (sint a smod sint b)" using le assms by (auto simp: sdiv_smod_signs di_ok_def)
  have "sint a sdiv sint b * sint b = sint a - sint a smod sint b"
    using sdiv_mult_smod_eq [of "sint a" "sint b"] by simp
  moreover have "\<bar>sint a\<bar> mod \<bar>sint b\<bar> \<le> \<bar>sint a\<bar>" by (simp add: zmod_le_nonneg_dividend)
  ultimately show "di_ok (sint a sdiv sint b * sint b)"
    using le assms(1) by (auto simp: sdiv_smod_signs(2) di_ok_def)
qed

text \<open>64-bit signed division.  When neither operand is the least \<open>long long\<close> and the
  divisor is not zero, \<open>__divdi3\<close> returns the quotient rounded towards zero, \<open>__moddi3\<close>
  the remainder, with the sign of the dividend, and \<open>__divmoddi4\<close> both.\<close>

theorem signed_division_correct:
  fixes a b :: u64
  assumes "sint a \<noteq> - (2 ^ 63)" and "sint b \<noteq> - (2 ^ 63)" and "b \<noteq> 0"
  shows "\<exists>q r. divdi3 a b = Inr q \<and> moddi3 a b = Inr r \<and> divmoddi4 a b = Inr (q, r) \<and>
    sint q = sint a sdiv sint b \<and> sint r = sint a smod sint b"
proof -
  let ?q = "sint a sdiv sint b" and ?r = "sint a smod sint b"
  note range = sdiv_smod_range [OF assms]
  have qb: "word_of_int ?q * b = word_of_int (?q * sint b)" by simp
  have "sint (word_of_int ?q * b) = ?q * sint b"
    unfolding qb using range(3) by (intro sint_word_of_int64) (simp_all add: di_ok_def)
  moreover have r: "sint a - ?q * sint b = ?r" using sdiv_mult_smod_eq [of "sint a" "sint b"] by simp
  moreover have "a - word_of_int ?q * b = word_of_int ?r" unfolding r [symmetric] by simp
  ultimately have "divmoddi4 a b = Inr (word_of_int ?q, word_of_int ?r)"
    using range by (simp add: divmoddi4_def divdi3_spec [OF assms])
  then show ?thesis using range(1,2) divdi3_spec [OF assms] moddi3_spec [OF assms] by auto
qed

theorem signed_division_correct_witness:
  "\<exists>q r. divdi3 (-7) 2 = Inr q \<and> moddi3 (-7) 2 = Inr r \<and> sint q = -3 \<and> sint r = -1"
proof -
  have "sint (-7 :: u64) = -7" "sint (2 :: u64) = 2" by simp_all
  moreover have "(-7 :: int) sdiv 2 = -3" "(-7 :: int) smod 2 = -1" by (simp_all add: sdiv_smod_signs)
  ultimately show ?thesis using signed_division_correct [of "-7" 2] by auto
qed

end
