(* ===== verification/Libgcc.thy ===== *)
theory Libgcc
  imports Int64_Facts
begin

text \<open>
  The support routines of \<open>abstract-machine/am/src/riscv/npc/libgcc\<close> for a 32-bit processor
  without multiplication: \<open>__mulsi3\<close> (the assembler loop of \<open>muldi3.S\<close>, which \<open>__muluw3\<close>
  calls), \<open>__muldi3\<close> (\<open>__multi3\<close> of \<open>multi3.c\<close> with 32-bit words) and \<open>__ashldi3\<close>; and
  that they multiply and shift.
\<close>

lemma drop_bit_1_less: "drop_bit 1 v \<noteq> 0 \<Longrightarrow> unat (drop_bit 1 v) < unat v" for v :: u32
proof -
  assume "drop_bit 1 v \<noteq> 0"
  then have "0 < unat v div 2" using unat_shr [of 1 v] by (auto simp: unat_gt_0 [symmetric] simp del: drop_bit_Suc)
  then show ?thesis using unat_shr [of 1 v] by (simp del: drop_bit_Suc)
qed

text \<open>The registers \<open>a0\<close>, \<open>a1\<close> and \<open>a2\<close> from label \<open>.L1\<close> on.\<close>

function mulsi3_loop :: "u32 \<Rightarrow> u32 \<Rightarrow> u32 \<Rightarrow> u32" where
  "mulsi3_loop a0 a1 a2 =
     (let a0' = (if a1 AND 1 = 0 then a0 else a0 + a2);
          a1' = drop_bit 1 a1;
          a2' = push_bit 1 a2
      in if a1' \<noteq> 0 then mulsi3_loop a0' a1' a2' else a0')"
  by pat_completeness auto
termination
  by (relation "measure (\<lambda>(a0, a1, a2). unat a1)") (auto intro: drop_bit_1_less simp del: drop_bit_Suc One_nat_def)

declare mulsi3_loop.simps [simp del]

definition mulsi3 :: "u32 \<Rightarrow> u32 \<Rightarrow> u32" where
  "mulsi3 a0 a1 = mulsi3_loop 0 a1 a0"

record mulst =
  u_low :: u32
  v_low :: u32
  w_low :: u32
  w_high :: u32
  w_high_tmp :: u32

definition multi3_body :: "mulst \<Rightarrow> mulst" where
  "multi3_body s =
     (let new_w_low = w_low s + u_low s;
          w_high_tmp2x = push_bit 1 (w_high_tmp s);
          tmp = w_high_tmp s + w_high s;
          s1 = (if v_low s AND 1 \<noteq> 0
                then s\<lparr>w_low := new_w_low, w_high := of_truth (new_w_low < w_low s) + tmp\<rparr> else s);
          u_low_msb = drop_bit 31 (u_low s)
      in s1\<lparr>v_low := drop_bit 1 (v_low s), u_low := push_bit 1 (u_low s),
            w_high_tmp := u_low_msb OR w_high_tmp2x\<rparr>)"

lemma v_low_body: "v_low (multi3_body s) = drop_bit 1 (v_low s)"
  by (simp add: multi3_body_def Let_def)

function multi3_loop :: "mulst \<Rightarrow> mulst" where
  "multi3_loop s =
     (let s' = multi3_body s in if v_low s' \<noteq> 0 then multi3_loop s' else s')"
  by pat_completeness auto
termination
  by (relation "measure (\<lambda>s. unat (v_low s))")
    (auto simp: v_low_body intro: drop_bit_1_less simp del: drop_bit_Suc One_nat_def)

declare multi3_loop.simps [simp del]

definition multi3 :: "u64 \<Rightarrow> u64 \<Rightarrow> u64" where
  "multi3 u v =
     (let s = multi3_loop \<lparr>u_low = dw_low u, v_low = dw_low v, w_low = 0, w_high = 0, w_high_tmp = 0\<rparr>;
          h0 = w_high s;
          h1 = (if dw_high u \<noteq> 0 then h0 + mulsi3 (dw_low v) (dw_high u) else h0);
          h2 = (if dw_high v \<noteq> 0 then h1 + mulsi3 (dw_low u) (dw_high v) else h1)
      in udwords h2 (w_low s))"

text \<open>\<open>shift_count_type\<close> is \<open>int\<close>.\<close>

definition shl_int :: "u32 \<Rightarrow> int \<Rightarrow> u32 res" where
  "shl_int x k = (if 0 \<le> k \<and> k < 32 then Inr (push_bit (nat k) x) else Inl Bad_shift)"

definition shr_int :: "u32 \<Rightarrow> int \<Rightarrow> u32 res" where
  "shr_int x k = (if 0 \<le> k \<and> k < 32 then Inr (drop_bit (nat k) x) else Inl Bad_shift)"

definition ashldi3 :: "u64 \<Rightarrow> int \<Rightarrow> u64 res" where
  "ashldi3 u b =
     (if b = 0 then Inr u
      else
        let bm = 32 - b in
        if bm \<le> 0 then bind_res (shl_int (dw_low u) (- bm)) (\<lambda>high. Inr (udwords high 0))
        else
          bind_res (shr_int (dw_low u) bm) (\<lambda>carries.
          bind_res (shl_int (dw_low u) b) (\<lambda>low.
          bind_res (shl_int (dw_high u) b) (\<lambda>h. Inr (udwords (h OR carries) low)))))"

subsection \<open>Multiplication\<close>

lemma split_odd: "v = 2 * drop_bit 1 v + (v AND 1)" for v :: "'a::len word"
  using mult_div_mod_eq [of 2 v] by (simp add: drop_bit_eq_div and_one_eq)

lemma mulsi3_loop_spec: "mulsi3_loop a0 a1 a2 = a0 + a2 * a1"
proof (induction a0 a1 a2 rule: mulsi3_loop.induct)
  case (1 a0 a1 a2)
  have odd: "a1 AND 1 = 0 \<or> a1 AND 1 = 1" by (simp add: and_one_eq mod2_eq_if)
  have "(if a1 AND 1 = 0 then a0 else a0 + a2) + 2 * a2 * drop_bit 1 a1 =
      a0 + a2 * (2 * drop_bit 1 a1 + (a1 AND 1))"
    using odd by (auto simp: algebra_simps)
  then have eq: "(if a1 AND 1 = 0 then a0 else a0 + a2) + 2 * a2 * drop_bit 1 a1 = a0 + a2 * a1"
    using split_odd [of a1] by simp
  show ?case
  proof (cases "drop_bit 1 a1 = 0")
    case True
    then show ?thesis using eq by (subst mulsi3_loop.simps) (simp add: Let_def)
  next
    case False
    then show ?thesis using eq 1 [OF refl refl refl False]
      by (subst mulsi3_loop.simps) (simp add: Let_def push_bit_eq_mult mult.commute)
  qed
qed

lemma mulsi3_correct: "mulsi3 x y = x * y"
  by (simp add: mulsi3_def mulsi3_loop_spec)

lemma udwords_of_int: "udwords (word_of_int x) (word_of_int y) = word_of_int (x * 2 ^ 32 + y mod 2 ^ 32)"
proof -
  have "int (unat (udwords (word_of_int x) (word_of_int y))) = (x mod 2 ^ 32) * 2 ^ 32 + y mod 2 ^ 32"
    unfolding unat_udwords by (simp add: uint_word_of_int take_bit_eq_mod)
  then have "uint (udwords (word_of_int x) (word_of_int y)) = (x mod 2 ^ 32) * 2 ^ 32 + y mod 2 ^ 32" by simp
  then have "udwords (word_of_int x) (word_of_int y) = word_of_int ((x mod 2 ^ 32) * 2 ^ 32 + y mod 2 ^ 32)"
    by (metis word_of_int_uint)
  also have "\<dots> = word_of_int ((x * 2 ^ 32) mod 2 ^ 64 + y mod 2 ^ 32)" by (simp add: mult_mod_left)
  also have "\<dots> = word_of_int (x * 2 ^ 32 + y mod 2 ^ 32)"
    by (rule word_of_int_eq_iff [THEN iffD2]) (simp add: take_bit_eq_mod mod_add_left_eq)
  finally show ?thesis .
qed

lemma udwords_int: "udwords h l = word_of_int (uint h * 2 ^ 32 + uint l)"
proof -
  have "uint l mod 2 ^ 32 = uint l" by (rule mod_pos_pos_trivial) (use uint_lt2p [of l] in simp_all)
  then show ?thesis using udwords_of_int [of "uint h" "uint l"] by simp
qed

text \<open>Addition of double words by halves, the carry being recognised by the comparison.\<close>

lemma udwords_add:
  "udwords (of_truth (l1 + l2 < l1) + (h2 + h1)) (l1 + l2) = udwords h1 l1 + udwords h2 l2"
proof -
  define c :: int where "c = (if l1 + l2 < l1 then 1 else 0)"
  have l: "0 \<le> uint l1" "0 \<le> uint l2" "uint l1 < 2 ^ 32" "uint l2 < 2 ^ 32"
    using uint_lt2p [of l1] uint_lt2p [of l2] by simp_all
  have u: "uint (l1 + l2) = (if uint l1 + uint l2 < 2 ^ 32 then uint l1 + uint l2 else uint l1 + uint l2 - 2 ^ 32)"
    using uint_plus_if' [of l1 l2] by simp
  then have "uint l1 + uint l2 = uint (l1 + l2) + c * 2 ^ 32"
    using l by (auto simp: c_def word_less_def)
  moreover have "of_truth (l1 + l2 < l1) + (h2 + h1) = word_of_int (c + (uint h2 + uint h1))"
    by (simp add: c_def of_truth_def)
  then have "udwords (of_truth (l1 + l2 < l1) + (h2 + h1)) (l1 + l2) =
      word_of_int ((c + (uint h2 + uint h1)) * 2 ^ 32 + uint (l1 + l2))"
    using udwords_of_int [of "c + (uint h2 + uint h1)" "uint (l1 + l2)"] uint_lt2p [of "l1 + l2"] by simp
  ultimately have "udwords (of_truth (l1 + l2 < l1) + (h2 + h1)) (l1 + l2) =
      word_of_int ((uint h1 * 2 ^ 32 + uint l1) + (uint h2 * 2 ^ 32 + uint l2))"
    by (simp only: distrib_right) (rule arg_cong [where f = word_of_int], linarith)
  then show ?thesis unfolding udwords_int [of h1] udwords_int [of h2] by (simp only: of_int_add)
qed

lemma udwords_shift: "udwords (drop_bit 31 l OR push_bit 1 h) (push_bit 1 l) = 2 * udwords h l"
proof -
  have "udwords (drop_bit 31 l OR push_bit 1 h) (push_bit 1 l) = push_bit 1 (udwords h l)"
    by (rule bit_word_eqI) (auto simp: bit_simps bit_double_word dest: bit_imp_le_length)
  then show ?thesis by (simp add: mult.commute)
qed

text \<open>The accumulator and the shifted multiplicand as double words.\<close>

definition mul_acc :: "mulst \<Rightarrow> u64" where
  "mul_acc s = udwords (w_high s) (w_low s)"

definition mul_cand :: "mulst \<Rightarrow> u64" where
  "mul_cand s = udwords (w_high_tmp s) (u_low s)"

lemma multi3_body_spec:
  "mul_acc (multi3_body s) = mul_acc s + mul_cand s * ucast (v_low s AND 1)"
  "mul_cand (multi3_body s) = 2 * mul_cand s"
proof -
  have "v_low s AND 1 = 0 \<or> v_low s AND 1 = 1" by (simp add: and_one_eq mod2_eq_if)
  then show "mul_acc (multi3_body s) = mul_acc s + mul_cand s * ucast (v_low s AND 1)"
    using udwords_add [of "w_low s" "u_low s" "w_high_tmp s" "w_high s"]
    by (auto simp: multi3_body_def mul_acc_def mul_cand_def Let_def add.commute)
  show "mul_cand (multi3_body s) = 2 * mul_cand s"
    using udwords_shift by (simp add: multi3_body_def mul_cand_def Let_def)
qed

lemma ucast_split_odd: "(ucast v :: u64) = 2 * ucast (drop_bit 1 v) + ucast (v AND 1)" for v :: u32
proof -
  have "(ucast (drop_bit 1 v) :: u64) = drop_bit 1 (ucast v)" "(ucast (v AND 1) :: u64) = ucast v AND 1"
    by (rule bit_word_eqI, auto simp: bit_simps dest: bit_imp_le_length)+
  then show ?thesis using split_odd [of "ucast v :: u64"] by simp
qed

lemma multi3_loop_spec: "mul_acc (multi3_loop s) = mul_acc s + mul_cand s * ucast (v_low s)"
proof (induction s rule: multi3_loop.induct)
  case (1 s)
  let ?s = "multi3_body s"
  have eq: "mul_acc ?s + mul_cand ?s * ucast (v_low ?s) = mul_acc s + mul_cand s * ucast (v_low s)"
    unfolding multi3_body_spec v_low_body using ucast_split_odd [of "v_low s"] by (simp add: algebra_simps)
  show ?case
  proof (cases "v_low ?s = 0")
    case True
    then show ?thesis using eq by (subst multi3_loop.simps) (simp add: Let_def)
  next
    case False
    then show ?thesis using eq 1 [OF refl False] by (subst multi3_loop.simps) (simp add: Let_def)
  qed
qed

lemma udwords_add_high: "udwords (h + x * y) l = udwords h l + 2 ^ 32 * (ucast x * ucast y)"
proof -
  have "udwords (h + x * y) l = word_of_int ((uint h + uint x * uint y) * 2 ^ 32 + uint l)"
    using udwords_of_int [of "uint h + uint x * uint y" "uint l"] uint_lt2p [of l] by simp
  also have "\<dots> = udwords h l + 2 ^ 32 * (word_of_int (uint x) * word_of_int (uint y))"
    unfolding udwords_int by (simp add: algebra_simps)
  finally show ?thesis by simp
qed

text \<open>64-bit multiplication on a processor without multiplier.  The shift-and-add loop
  ends, and \<open>__muldi3\<close> (\<open>__multi3\<close> with 32-bit words) returns the product modulo
  \<open>2\<^sup>6\<^sup>4\<close>.\<close>

theorem multi3_correct: "multi3 u v = u * v"
proof -
  let ?ul = "ucast (dw_low u) :: u64" and ?uh = "ucast (dw_high u) :: u64"
  let ?vl = "ucast (dw_low v) :: u64" and ?vh = "ucast (dw_high v) :: u64"
  let ?s = "multi3_loop \<lparr>u_low = dw_low u, v_low = dw_low v, w_low = 0, w_high = 0, w_high_tmp = 0\<rparr>"
  have acc: "udwords (w_high ?s) (w_low ?s) = ?ul * ?vl"
    using multi3_loop_spec [of "\<lparr>u_low = dw_low u, v_low = dw_low v, w_low = 0, w_high = 0, w_high_tmp = 0\<rparr>"]
    by (simp add: mul_acc_def mul_cand_def udwords_0)
  have split: "w = 2 ^ 32 * ucast (dw_high w) + ucast (dw_low w)" for w :: u64
    using udwords_halves [of w] unfolding udwords_int by (simp add: mult.commute)
  have "multi3 u v = udwords (w_high ?s + dw_low v * dw_high u + dw_low u * dw_high v) (w_low ?s)"
    by (simp add: multi3_def mulsi3_correct Let_def)
  also have "\<dots> = ?ul * ?vl + 2 ^ 32 * (?vl * ?uh) + 2 ^ 32 * (?ul * ?vh)"
    unfolding udwords_add_high acc ..
  also have "\<dots> = (2 ^ 32 * ?uh + ?ul) * (2 ^ 32 * ?vh + ?vl)"
  proof -
    have "(p * uh + ul) * (p * vh + vl) = p * p * (uh * vh) + (ul * vl + p * (vl * uh) + p * (ul * vh))"
      for p uh ul vh vl :: u64 by (simp add: algebra_simps)
    moreover have "(2 :: u64) ^ 32 * 2 ^ 32 = 0" by simp
    ultimately show ?thesis by (simp only: mult_zero_left add_0)
  qed
  also have "\<dots> = u * v" by (simp only: split [symmetric])
  finally show ?thesis .
qed

text \<open>64-bit left shift by halves.  For a count from 0 to 63 \<open>__ashldi3\<close> returns the
  shifted value; any other count shifts a word by a count out of range.\<close>

theorem ashldi3_correct:
  "ashldi3 u b = (if 0 \<le> b \<and> b < 64 then Inr (push_bit (nat b) u) else Inl Bad_shift)"
proof -
  consider "b < 0" | "b = 0" | "0 < b" "b < 32" | "32 \<le> b" "b < 64" | "64 \<le> b" by linarith
  then show ?thesis
  proof cases
    case 3
    define k where "k = nat b"
    have k: "0 < k" "k < 32" "nat (32 - b) = 32 - k" using 3 by (auto simp: k_def)
    have "udwords (push_bit k (dw_high u) OR drop_bit (32 - k) (dw_low u)) (push_bit k (dw_low u)) = push_bit k u"
      by (rule bit_word_eqI) (use k in \<open>auto simp: bit_simps add.commute\<close>)
    then show ?thesis using 3 k by (simp add: ashldi3_def shl_int_def shr_int_def k_def [symmetric])
  next
    case 4
    define k where "k = nat (b - 32)"
    have k: "k < 32" "nat b = 32 + k" using 4 by (auto simp: k_def)
    have "udwords (push_bit k (dw_low u)) 0 = push_bit (32 + k) u"
      by (rule bit_word_eqI) (use k in \<open>auto simp: bit_simps\<close>)
    then show ?thesis using 4 k by (simp add: ashldi3_def shl_int_def k_def [symmetric])
  qed (simp_all add: ashldi3_def shl_int_def shr_int_def)
qed

end
