(* ===== verification/Am_Ioe.thy ===== *)
theory Am_Ioe
  imports Paddr Kstdlib
begin

text \<open>
  The input and output of the abstract machine on NEMU: \<open>am/src/platform/nemu/ioe/*.c\<close>,
  \<open>putch\<close> and \<open>heap\<close> of \<open>trm.c\<close>, the addresses of \<open>platform/nemu/include/nemu.h\<close> and the port
  functions of \<open>am/src/riscv/riscv.h\<close>.  These functions run on the guest: a \<open>volatile\<close>
  access, and any other access to memory, is a load or store of the machine, \<open>vaddr_read\<close> and
  \<open>vaddr_write\<close> of the emulator.  An \<open>int\<close> field is an \<open>int\<close>, read from a register with
  \<open>sint\<close>.
\<close>

subsection \<open>riscv.h and nemu.h\<close>

definition inb :: "config \<Rightarrow> u32 \<Rightarrow> 'a mem_scheme \<Rightarrow> (byte \<times> 'a mem_scheme) res" where
  "inb c a s = bind_res (vaddr_read c a 1 s) (\<lambda>(v, s'). Inr (ucast v, s'))"

definition inw :: "config \<Rightarrow> u32 \<Rightarrow> 'a mem_scheme \<Rightarrow> (u16 \<times> 'a mem_scheme) res" where
  "inw c a s = bind_res (vaddr_read c a 2 s) (\<lambda>(v, s'). Inr (ucast v, s'))"

definition inl :: "config \<Rightarrow> u32 \<Rightarrow> 'a mem_scheme \<Rightarrow> (u32 \<times> 'a mem_scheme) res" where
  "inl c a s = vaddr_read c a 4 s"

definition outb :: "config \<Rightarrow> u32 \<Rightarrow> byte \<Rightarrow> 'a mem_scheme \<Rightarrow> 'a mem_scheme res" where
  "outb c a d s = vaddr_write c a 1 (ucast d) s"

definition outw :: "config \<Rightarrow> u32 \<Rightarrow> u16 \<Rightarrow> 'a mem_scheme \<Rightarrow> 'a mem_scheme res" where
  "outw c a d s = vaddr_write c a 2 (ucast d) s"

definition outl :: "config \<Rightarrow> u32 \<Rightarrow> u32 \<Rightarrow> 'a mem_scheme \<Rightarrow> 'a mem_scheme res" where
  "outl c a d s = vaddr_write c a 4 d s"

definition DEVICE_BASE :: u32 where
  "DEVICE_BASE = 0xa0000000"

definition MMIO_BASE :: u32 where
  "MMIO_BASE = 0xa0000000"

definition SERIAL_PORT :: u32 where
  "SERIAL_PORT = DEVICE_BASE + 0x3f8"

definition KBD_ADDR :: u32 where
  "KBD_ADDR = DEVICE_BASE + 0x60"

definition RTC_ADDR :: u32 where
  "RTC_ADDR = DEVICE_BASE + 0x48"

definition VGACTL_ADDR :: u32 where
  "VGACTL_ADDR = DEVICE_BASE + 0x100"

definition AUDIO_ADDR :: u32 where
  "AUDIO_ADDR = DEVICE_BASE + 0x200"

definition FB_ADDR :: u32 where
  "FB_ADDR = MMIO_BASE + 0x1000000"

definition AUDIO_SBUF_ADDR :: u32 where
  "AUDIO_SBUF_ADDR = MMIO_BASE + 0x1200000"

definition PMEM_SIZE :: u32 where
  "PMEM_SIZE = 128 * 1024 * 1024"

text \<open>\<open>trm.c\<close>; the linker gives the addresses of \<open>_heap_start\<close> and \<open>_pmem_start\<close>.\<close>

definition am_heap :: "u32 \<Rightarrow> u32 \<Rightarrow> Area" where
  "am_heap heap_start pmem_start = \<lparr>area_start = heap_start, area_end = pmem_start + PMEM_SIZE\<rparr>"

definition putch :: "config \<Rightarrow> byte \<Rightarrow> 'a mem_scheme \<Rightarrow> 'a mem_scheme res" where
  "putch c ch s = outb c SERIAL_PORT ch s"

subsection \<open>timer.c and input.c\<close>

definition am_timer_uptime :: "config \<Rightarrow> 'a mem_scheme \<Rightarrow> (u64 \<times> 'a mem_scheme) res" where
  "am_timer_uptime c s =
     bind_res (inl c (RTC_ADDR + 4) s) (\<lambda>(high, s1).
     bind_res (inl c RTC_ADDR s1) (\<lambda>(low, s2).
     Inr (push_bit 32 (ucast high) OR ucast low, s2)))"

record am_rtc =
  rtc_year :: int
  rtc_month :: int
  rtc_day :: int
  rtc_hour :: int
  rtc_minute :: int
  rtc_second :: int

definition am_timer_rtc :: am_rtc where
  "am_timer_rtc = \<lparr>rtc_year = 1900, rtc_month = 0, rtc_day = 0, rtc_hour = 0, rtc_minute = 0, rtc_second = 0\<rparr>"

definition AM_KEYDOWN_MASK :: u32 where
  "AM_KEYDOWN_MASK = 0x8000"

definition am_input_keybrd :: "config \<Rightarrow> 'a mem_scheme \<Rightarrow> ((bool \<times> int) \<times> 'a mem_scheme) res" where
  "am_input_keybrd c s =
     bind_res (inl c KBD_ADDR s) (\<lambda>(am_scancode, s1).
     Inr ((am_scancode AND AM_KEYDOWN_MASK \<noteq> 0, sint (am_scancode AND NOT AM_KEYDOWN_MASK)), s1))"

subsection \<open>gpu.c\<close>

definition SYNC_ADDR :: u32 where
  "SYNC_ADDR = VGACTL_ADDR + 4"

record am_gpu =
  gpu_present :: bool
  gpu_has_accel :: bool
  gpu_width :: int
  gpu_height :: int
  gpu_vmemsz :: int

definition am_gpu_config :: "config \<Rightarrow> 'a mem_scheme \<Rightarrow> (am_gpu \<times> 'a mem_scheme) res" where
  "am_gpu_config c s =
     bind_res (inl c VGACTL_ADDR s) (\<lambda>(v, s1).
     bind_res (inl c VGACTL_ADDR s1) (\<lambda>(v', s2).
     let screen_width = drop_bit 16 v; screen_height = v' AND 0xFFFF in
     Inr (\<lparr>gpu_present = True, gpu_has_accel = False, gpu_width = sint screen_width,
           gpu_height = sint screen_height, gpu_vmemsz = sint (screen_width * screen_height * 4)\<rparr>, s2)))"

record am_fbdraw =
  fb_x :: int
  fb_y :: int
  fb_pixels :: u32
  fb_w :: int
  fb_h :: int
  fb_sync :: bool

text \<open>The inner loop from column \<open>i\<close> on and the outer loop from row \<open>j\<close> on, \<open>n\<close> rounds left.
  \<open>(y + j) * screen_width + (x + i)\<close> is computed on \<open>uint32_t\<close>, \<open>j * width + i\<close> on \<open>int\<close>.\<close>

fun fb_cols :: "config \<Rightarrow> am_fbdraw \<Rightarrow> u32 \<Rightarrow> int \<Rightarrow> int \<Rightarrow> nat \<Rightarrow> 'a mem_scheme \<Rightarrow> 'a mem_scheme res" where
  "fb_cols c ctl screen_width j i 0 s = Inr s"
| "fb_cols c ctl screen_width j i (Suc n) s =
     bind_res (assert_res Signed_overflow (int_ok (fb_y ctl + j) \<and> int_ok (fb_x ctl + i) \<and>
         int_ok (j * fb_w ctl) \<and> int_ok (j * fb_w ctl + i))) (\<lambda>_.
     let index = word_of_int (fb_y ctl + j) * screen_width + word_of_int (fb_x ctl + i) in
     bind_res (inl c (fb_pixels ctl + word_of_int (4 * (j * fb_w ctl + i))) s) (\<lambda>(p, s1).
     bind_res (outl c (FB_ADDR + 4 * index) p s1) (\<lambda>s2.
     fb_cols c ctl screen_width j (i + 1) n s2)))"

fun fb_rows :: "config \<Rightarrow> am_fbdraw \<Rightarrow> u32 \<Rightarrow> int \<Rightarrow> nat \<Rightarrow> 'a mem_scheme \<Rightarrow> 'a mem_scheme res" where
  "fb_rows c ctl screen_width j 0 s = Inr s"
| "fb_rows c ctl screen_width j (Suc n) s =
     bind_res (fb_cols c ctl screen_width j 0 (nat (fb_w ctl)) s) (\<lambda>s1.
     fb_rows c ctl screen_width (j + 1) n s1)"

definition am_gpu_fbdraw :: "config \<Rightarrow> am_fbdraw \<Rightarrow> 'a mem_scheme \<Rightarrow> 'a mem_scheme res" where
  "am_gpu_fbdraw c ctl s =
     (if \<not> fb_sync ctl \<and> (fb_w ctl = 0 \<or> fb_h ctl = 0) then Inr s
      else
        bind_res (inl c VGACTL_ADDR s) (\<lambda>(v, s1).
        bind_res (fb_rows c ctl (drop_bit 16 v) 0 (nat (fb_h ctl)) s1) (\<lambda>s2.
        if fb_sync ctl then outl c SYNC_ADDR 1 s2 else Inr s2)))"

subsection \<open>audio.c\<close>

definition AUDIO_FREQ_ADDR :: u32 where
  "AUDIO_FREQ_ADDR = AUDIO_ADDR"

definition AUDIO_CHANNELS_ADDR :: u32 where
  "AUDIO_CHANNELS_ADDR = AUDIO_ADDR + 0x04"

definition AUDIO_SAMPLES_ADDR :: u32 where
  "AUDIO_SAMPLES_ADDR = AUDIO_ADDR + 0x08"

definition AUDIO_SBUF_SIZE_ADDR :: u32 where
  "AUDIO_SBUF_SIZE_ADDR = AUDIO_ADDR + 0x0c"

definition AUDIO_INIT_ADDR :: u32 where
  "AUDIO_INIT_ADDR = AUDIO_ADDR + 0x10"

definition AUDIO_COUNT_ADDR :: u32 where
  "AUDIO_COUNT_ADDR = AUDIO_ADDR + 0x14"

definition am_audio_config :: "config \<Rightarrow> 'a mem_scheme \<Rightarrow> ((bool \<times> int) \<times> 'a mem_scheme) res" where
  "am_audio_config c s = bind_res (inl c AUDIO_SBUF_SIZE_ADDR s) (\<lambda>(v, s1). Inr ((True, sint v), s1))"

definition am_audio_ctrl :: "config \<Rightarrow> int \<Rightarrow> int \<Rightarrow> int \<Rightarrow> 'a mem_scheme \<Rightarrow> 'a mem_scheme res" where
  "am_audio_ctrl c freq channels samples s =
     bind_res (outl c AUDIO_FREQ_ADDR (word_of_int freq) s) (\<lambda>s1.
     bind_res (outl c AUDIO_CHANNELS_ADDR (word_of_int channels) s1) (\<lambda>s2.
     bind_res (outl c AUDIO_SAMPLES_ADDR (word_of_int samples) s2) (\<lambda>s3.
     outl c AUDIO_INIT_ADDR 1 s3)))"

definition am_audio_status :: "config \<Rightarrow> 'a mem_scheme \<Rightarrow> (int \<times> 'a mem_scheme) res" where
  "am_audio_status c s = bind_res (inl c AUDIO_COUNT_ADDR s) (\<lambda>(v, s1). Inr (sint v, s1))"

text \<open>Waiting for room.  Between two polls the sound thread of the host may take bytes out of
  the buffer: \<open>tick\<close> is what it does then.  The number of polls is bounded by \<open>fuel\<close>; a wait
  that is not over by then is \<open>Diverges\<close>.\<close>

fun audio_wait ::
  "config \<Rightarrow> ('a mem_scheme \<Rightarrow> 'a mem_scheme) \<Rightarrow> int \<Rightarrow> int \<Rightarrow> int \<Rightarrow> nat \<Rightarrow> 'a mem_scheme \<Rightarrow>
   (int \<times> 'a mem_scheme) res" where
  "audio_wait c tick buffer_size audio_len in_use_size fuel s =
     bind_res (assert_res Signed_overflow (int_ok (buffer_size - in_use_size))) (\<lambda>_.
     if buffer_size - in_use_size < audio_len then
       (case fuel of
          0 \<Rightarrow> Inl Diverges
        | Suc k \<Rightarrow>
            bind_res (inl c AUDIO_COUNT_ADDR (tick s)) (\<lambda>(v, s1).
            audio_wait c tick buffer_size audio_len (sint v) k s1))
     else Inr (in_use_size, s))"

declare audio_wait.simps [simp del]

text \<open>The copying loops, \<open>n\<close> rounds left.\<close>

fun audio_words :: "config \<Rightarrow> u32 \<Rightarrow> u32 \<Rightarrow> int \<Rightarrow> nat \<Rightarrow> 'a mem_scheme \<Rightarrow> 'a mem_scheme res" where
  "audio_words c dst src i 0 s = Inr s"
| "audio_words c dst src i (Suc n) s =
     bind_res (inl c (src + word_of_int (i * 4)) s) (\<lambda>(v, s1).
     bind_res (outl c (dst + word_of_int (i * 4)) v s1) (\<lambda>s2.
     audio_words c dst src (i + 1) n s2))"

fun audio_bytes :: "config \<Rightarrow> u32 \<Rightarrow> u32 \<Rightarrow> int \<Rightarrow> nat \<Rightarrow> 'a mem_scheme \<Rightarrow> 'a mem_scheme res" where
  "audio_bytes c dst src i 0 s = Inr s"
| "audio_bytes c dst src i (Suc n) s =
     bind_res (inb c (src + word_of_int i) s) (\<lambda>(v, s1).
     bind_res (outb c (dst + word_of_int i) v s1) (\<lambda>s2.
     audio_bytes c dst src (i + 1) n s2))"

definition am_audio_play ::
  "config \<Rightarrow> ('a mem_scheme \<Rightarrow> 'a mem_scheme) \<Rightarrow> nat \<Rightarrow> Area \<Rightarrow> 'a mem_scheme \<Rightarrow> 'a mem_scheme res" where
  "am_audio_play c tick fuel buf s =
     (let audio_len = sint (area_end buf - area_start buf) in
      bind_res (am_audio_config c s) (\<lambda>((present, buffer_size), s1).
      bind_res (inl c AUDIO_COUNT_ADDR s1) (\<lambda>(v, s2).
      bind_res (audio_wait c tick buffer_size audio_len (sint v) fuel s2) (\<lambda>(in_use_size, s3).
      let dst = AUDIO_SBUF_ADDR + word_of_int in_use_size; words = audio_len sdiv 4 in
      bind_res (audio_words c dst (area_start buf) 0 (nat words) s3) (\<lambda>s4.
      bind_res (audio_bytes c dst (area_start buf) (words * 4) (nat (audio_len - words * 4)) s4) (\<lambda>s5.
      bind_res (assert_res Signed_overflow (int_ok (in_use_size + audio_len))) (\<lambda>_.
      outl c AUDIO_COUNT_ADDR (word_of_int (in_use_size + audio_len)) s5)))))))"

subsection \<open>ioe.c\<close>

datatype am_handler =
    H_timer_config | H_timer_rtc | H_timer_uptime | H_input_config | H_input_keybrd
  | H_gpu_config | H_gpu_fbdraw | H_gpu_status | H_uart_config
  | H_audio_config | H_audio_ctrl | H_audio_status | H_audio_play
  | H_disk_config | H_disk_status | H_disk_blkio | H_net_config | H_fail

text \<open>The table as it is declared: the number of a register is the one \<open>amdev.h\<close> gives it.\<close>

definition lut :: "am_handler option list" where
  "lut = (replicate 128 None)
     [4 := Some H_timer_config, 5 := Some H_timer_rtc, 6 := Some H_timer_uptime,
      7 := Some H_input_config, 8 := Some H_input_keybrd,
      9 := Some H_gpu_config, 11 := Some H_gpu_fbdraw, 10 := Some H_gpu_status,
      1 := Some H_uart_config,
      14 := Some H_audio_config, 15 := Some H_audio_ctrl, 16 := Some H_audio_status,
      17 := Some H_audio_play,
      18 := Some H_disk_config, 19 := Some H_disk_status, 20 := Some H_disk_blkio,
      21 := Some H_net_config]"

definition ioe_init :: "am_handler option list \<Rightarrow> bool \<times> am_handler option list" where
  "ioe_init t = (True, map (\<lambda>h. case h of None \<Rightarrow> Some H_fail | Some f \<Rightarrow> Some f) t)"

text \<open>The buffer a register is read into or written from.\<close>

datatype am_buf =
    Config_buf bool
  | Timer_config_buf bool bool
  | Timer_rtc_buf am_rtc
  | Uptime_buf u64
  | Keybrd_buf bool int
  | Gpu_config_buf am_gpu
  | Fbdraw_buf am_fbdraw
  | Ready_buf bool
  | Audio_config_buf bool int
  | Audio_ctrl_buf int int int
  | Audio_status_buf int
  | Audio_play_buf Area
  | Disk_config_buf bool int int
  | Disk_blkio_buf bool u32 int int

text \<open>A call of a handler on a buffer of its type; on a buffer of another type the access is
  undefined.\<close>

definition run_handler ::
  "config \<Rightarrow> ('a mem_scheme \<Rightarrow> 'a mem_scheme) \<Rightarrow> nat \<Rightarrow> am_handler \<Rightarrow> am_buf \<Rightarrow> 'a mem_scheme \<Rightarrow>
   (am_buf \<times> 'a mem_scheme) res" where
  "run_handler c tick fuel h buf s =
     (case (h, buf) of
        (H_timer_config, Timer_config_buf _ _) \<Rightarrow> Inr (Timer_config_buf True True, s)
      | (H_timer_rtc, Timer_rtc_buf _) \<Rightarrow> Inr (Timer_rtc_buf am_timer_rtc, s)
      | (H_timer_uptime, Uptime_buf _) \<Rightarrow> bind_res (am_timer_uptime c s) (\<lambda>(us, s1). Inr (Uptime_buf us, s1))
      | (H_input_config, Config_buf _) \<Rightarrow> Inr (Config_buf True, s)
      | (H_input_keybrd, Keybrd_buf _ _) \<Rightarrow>
          bind_res (am_input_keybrd c s) (\<lambda>((keydown, keycode), s1). Inr (Keybrd_buf keydown keycode, s1))
      | (H_gpu_config, Gpu_config_buf _) \<Rightarrow> bind_res (am_gpu_config c s) (\<lambda>(g, s1). Inr (Gpu_config_buf g, s1))
      | (H_gpu_fbdraw, Fbdraw_buf ctl) \<Rightarrow> bind_res (am_gpu_fbdraw c ctl s) (\<lambda>s1. Inr (Fbdraw_buf ctl, s1))
      | (H_gpu_status, Ready_buf _) \<Rightarrow> Inr (Ready_buf True, s)
      | (H_uart_config, Config_buf _) \<Rightarrow> Inr (Config_buf False, s)
      | (H_audio_config, Audio_config_buf _ _) \<Rightarrow>
          bind_res (am_audio_config c s) (\<lambda>((present, sz), s1). Inr (Audio_config_buf present sz, s1))
      | (H_audio_ctrl, Audio_ctrl_buf f ch sm) \<Rightarrow>
          bind_res (am_audio_ctrl c f ch sm s) (\<lambda>s1. Inr (Audio_ctrl_buf f ch sm, s1))
      | (H_audio_status, Audio_status_buf _) \<Rightarrow>
          bind_res (am_audio_status c s) (\<lambda>(n, s1). Inr (Audio_status_buf n, s1))
      | (H_audio_play, Audio_play_buf a) \<Rightarrow>
          bind_res (am_audio_play c tick fuel a s) (\<lambda>s1. Inr (Audio_play_buf a, s1))
      | (H_disk_config, Disk_config_buf _ sz cnt) \<Rightarrow> Inr (Disk_config_buf False sz cnt, s)
      | (H_disk_status, Ready_buf r) \<Rightarrow> Inr (Ready_buf r, s)
      | (H_disk_blkio, Disk_blkio_buf w p no cnt) \<Rightarrow> Inr (Disk_blkio_buf w p no cnt, s)
      | (H_net_config, Config_buf _) \<Rightarrow> Inr (Config_buf False, s)
      | (H_fail, _) \<Rightarrow> Inl (Panic ''access nonexist register'')
      | _ \<Rightarrow> Inl Out_of_bounds)"

definition ioe_access ::
  "am_handler option list \<Rightarrow> config \<Rightarrow> ('a mem_scheme \<Rightarrow> 'a mem_scheme) \<Rightarrow> nat \<Rightarrow> int \<Rightarrow> am_buf \<Rightarrow> 'a mem_scheme \<Rightarrow>
   (am_buf \<times> 'a mem_scheme) res" where
  "ioe_access t c tick fuel reg buf s =
     (if 0 \<le> reg \<and> reg < int (length t) then
        (case t ! nat reg of None \<Rightarrow> Inl Null_deref | Some h \<Rightarrow> run_handler c tick fuel h buf s)
      else Inl Out_of_bounds)"

definition ioe_read where
  "ioe_read = ioe_access"

definition ioe_write where
  "ioe_write = ioe_access"

end
