(* ===== verification/Am_Ioe_Facts.thy ===== *)
theory Am_Ioe_Facts
  imports Am_Ioe Memory_Props
begin

text \<open>
  The drivers of the abstract machine meet the devices of the emulator: the uptime is one
  reading of the clock, the keyboard register delivers the oldest key, and drawing stores
  exactly the pixels of the rectangle into the frame buffer.
\<close>

subsection \<open>Access to a mapped region\<close>

text \<open>A map is present at \<open>low\<close>, \<open>len\<close> bytes long, outside guest memory.\<close>

definition mapped :: "config \<Rightarrow> 'a mem_scheme \<Rightarrow> IOMap \<Rightarrow> u32 \<Rightarrow> int \<Rightarrow> bool" where
  "mapped c s m low len \<longleftrightarrow> CONFIG_DEVICE c \<and> io_wf s \<and> m \<in> set (mmio_maps s) \<and> map_low m = low \<and>
     uint (map_high m) = uint low + len - 1 \<and> 0 < len \<and>
     (\<forall>a. map_inside m a \<longrightarrow> \<not> in_pmem c a)"

lemma mapped_inside:
  assumes "mapped c s m low len" and "0 \<le> i" and "i < len"
  shows "map_inside m (low + word_of_int i)" and "uint (low + word_of_int i) = uint low + i"
    and "low + word_of_int i - map_low m = word_of_int i" and "uint (word_of_int i :: u32) = i"
proof -
  have h: "uint (map_high m) = uint low + len - 1" "map_low m = low" using assms(1) by (auto simp: mapped_def)
  have "uint (map_high m) < 2 ^ 32" using uint_lt2p [of "map_high m"] by simp
  then have b: "uint low + i < 2 ^ 32" "i < 2 ^ 32" using h assms(3) uint_ge_0 [of low] by linarith+
  show i: "uint (word_of_int i :: u32) = i" using b(2) assms(2) by (simp add: uint_word_of_int)
  then show u: "uint (low + word_of_int i) = uint low + i"
    using b(1) uint_add_lem [THEN iffD1, of low "word_of_int i"] by simp
  show "low + word_of_int i - map_low m = word_of_int i" using h(2) by simp
  show "map_inside m (low + word_of_int i)"
    using u h assms(2,3) by (simp add: map_inside_def word_le_def)
qed

lemma mapped_read:
  assumes "mapped c s m low len" and "0 \<le> i" and "i < len"
  shows "paddr_read c (low + word_of_int i) n s =
    map_read c (dev_callback c) (low + word_of_int i) n (Some m) (difftest_skip_ref c s)"
proof -
  have "maps_disjoint (mmio_maps s)" "m \<in> set (mmio_maps s)" "CONFIG_DEVICE c"
    "\<not> in_pmem c (low + word_of_int i)"
    using assms(1) mapped_inside(1) [OF assms] by (auto simp: mapped_def io_wf_def)
  then show ?thesis
    using fetch_mmio_map_unique [of s m] mapped_inside(1) [OF assms]
    by (simp add: paddr_read_def mmio_read_def)
qed

lemma mapped_write:
  assumes "mapped c s m low len" and "0 \<le> i" and "i < len"
  shows "paddr_write c (low + word_of_int i) n d s =
    map_write c (dev_callback c) (low + word_of_int i) n d (Some m) (difftest_skip_ref c s)"
proof -
  have "maps_disjoint (mmio_maps s)" "m \<in> set (mmio_maps s)" "CONFIG_DEVICE c"
    "\<not> in_pmem c (low + word_of_int i)"
    using assms(1) mapped_inside(1) [OF assms] by (auto simp: mapped_def io_wf_def)
  then show ?thesis
    using fetch_mmio_map_unique [of s m] mapped_inside(1) [OF assms]
    by (simp add: paddr_write_def mmio_write_def)
qed

lemma mapped_backed:
  assumes "mapped c s m low len" and "0 \<le> i" and "i + n \<le> len" and "0 \<le> n"
  shows "in_object IO_SPACE_MAX (map_space m + i) n"
proof -
  have h: "uint (map_high m) = uint low + len - 1" "map_low m = low" using assms(1) by (auto simp: mapped_def)
  have "map_backed (p_space s) m" "p_space s < IO_SPACE_MAX" using assms(1) by (auto simp: mapped_def io_wf_def)
  moreover have "uint (map_high m - map_low m) = len - 1"
    using h assms(1) uint_sub_lem [THEN iffD1, of "map_low m" "map_high m"] by (simp add: mapped_def)
  ultimately show ?thesis using assms(2-4) by (simp add: map_backed_def in_object_def)
qed

lemma mapped_cong:
  assumes "mmio_maps s' = mmio_maps s" and "p_space s' = p_space s"
  shows "mapped c s' m low len = mapped c s m low len"
  using io_wf_update [OF assms] assms(1) by (simp add: mapped_def)

text \<open>A region without handler: a word is loaded from the buffer and stored into it.\<close>

lemma plain_load:
  assumes "mapped c s m low len" and "map_callback m = None" and "0 \<le> i" and "i + 4 \<le> len"
  shows "inl c (low + word_of_int i) s =
    bind_res (host_read c IO_SPACE_MAX (io_space s) (map_space m + i) 4) (\<lambda>v. Inr (v, difftest_skip_ref c s))"
proof -
  have i: "i < len" using assms(3,4) by simp
  note ins = mapped_inside [OF assms(1,3) i]
  show ?thesis
    unfolding inl_def vaddr_read_def mapped_read [OF assms(1,3) i] map_read_def
    using ins assms(2) by (simp add: check_bound_def map_inside_def invoke_callback_def Let_def)
qed

lemma plain_store:
  assumes "mapped c s m low len" and "map_callback m = None" and "0 \<le> i" and "i + 4 \<le> len"
  shows "\<exists>bs. host_write c IO_SPACE_MAX (io_space s) (map_space m + i) 4 d = Inr bs \<and>
    outl c (low + word_of_int i) d s = Inr ((difftest_skip_ref c s)\<lparr>io_space := bs\<rparr>)"
proof -
  have i: "i < len" using assms(3,4) by simp
  note ins = mapped_inside [OF assms(1,3) i]
  have "in_object IO_SPACE_MAX (map_space m + i) 4" using mapped_backed [OF assms(1,3,4)] by simp
  then obtain bs where bs: "host_write c IO_SPACE_MAX (io_space s) (map_space m + i) 4 d = Inr bs"
    using host_write_ok [of 4 c IO_SPACE_MAX "io_space s" "map_space m + i" d] by (auto simp: access_len_def)
  then show ?thesis
    unfolding outl_def vaddr_write_def mapped_write [OF assms(1,3) i] map_write_def
    using ins assms(2) by (simp add: check_bound_def map_inside_def invoke_callback_def Let_def)
qed

subsection \<open>The clock\<close>

definition clock_at :: "config \<Rightarrow> 'a mem_scheme \<Rightarrow> IOMap \<Rightarrow> bool" where
  "clock_at c s m \<longleftrightarrow> mapped c s m RTC_ADDR 8 \<and> map_callback m = Some rtc_handler \<and>
     rtc_port_base s = Some (map_space m)"

lemma get_time_skip: "fst (get_time (difftest_skip_ref c s)) = fst (get_time s)"
  by (simp add: get_time_def get_time_internal_def difftest_skip_ref_def Let_def split: prod.splits)

text \<open>\<open>__am_timer_uptime\<close> on the emulator returns one reading of the emulator's clock: the
  two loads it makes, high half first, belong to the same reading.\<close>

theorem am_uptime_reads_clock:
  assumes "clock_at c s m"
  shows "\<exists>s'. am_timer_uptime c s = Inr (fst (get_time s), s')"
proof -
  let ?s = "difftest_skip_ref c s" and ?b = "map_space m"
  have m: "mapped c s m RTC_ADDR 8" "map_callback m = Some rtc_handler" "rtc_port_base ?s = Some ?b"
    using assms by (simp_all add: clock_at_def difftest_skip_ref_def)
  have "0 \<le> ?b" "?b + 8 \<le> IO_SPACE_MAX" using mapped_backed [OF m(1), of 0 8] by (simp_all add: in_object_def)
  from rtc_read_consistent [OF m(3) this, of c] obtain s1 hi lo where
    h: "rtc_io_handler c 4 4 False ?s = Inr s1" "host_read c IO_SPACE_MAX (io_space s1) (?b + 4) 4 = Inr hi"
    and l: "host_read c IO_SPACE_MAX (io_space s1) ?b 4 = Inr lo"
    and t: "(ucast lo :: u64) OR push_bit 32 (ucast hi) = fst (get_time ?s)"
    by (auto simp: rtc_io_handler_def)
  have "mmio_maps s1 = mmio_maps ?s" "p_space s1 = p_space ?s"
    using dev_callback_frame [of c rtc_handler 4 4 False ?s s1] h(1) by (simp_all add: dev_callback_def)
  then have m1: "mapped c s1 m RTC_ADDR 8" using m(1) mapped_cong [of s1 s] by simp
  have "inl c (RTC_ADDR + 4) s = Inr (hi, s1)"
    using mapped_read [OF m(1), of 4 4] mapped_inside [OF m(1), of 4] h m(2)
    by (simp add: inl_def vaddr_read_def map_read_def check_bound_def map_inside_def invoke_callback_def
        dev_callback_def Let_def)
  moreover have "inl c RTC_ADDR s1 = Inr (lo, difftest_skip_ref c s1)"
    using mapped_read [OF m1, of 0 4] mapped_inside [OF m1, of 0] l m(2)
    by (simp add: inl_def vaddr_read_def map_read_def check_bound_def map_inside_def invoke_callback_def
        dev_callback_def rtc_io_handler_def Let_def)
  ultimately show ?thesis using t by (simp add: am_timer_uptime_def get_time_skip or.commute)
qed

subsection \<open>The keyboard\<close>

definition keyboard_at :: "config \<Rightarrow> 'a mem_scheme \<Rightarrow> IOMap \<Rightarrow> bool" where
  "keyboard_at c s m \<longleftrightarrow> mapped c s m KBD_ADDR 4 \<and> map_callback m = Some i8042_handler \<and>
     i8042_data_port_base s = Some (map_space m) \<and> key_invar s"

lemma key_queue_skip:
  "key_contents (difftest_skip_ref c s) = key_contents s" "key_invar (difftest_skip_ref c s) = key_invar s"
  by (simp_all add: key_contents_def key_count_def key_invar_def difftest_skip_ref_def)

lemma key_dequeue_any:
  assumes "key_invar s"
  shows "\<exists>s'. key_dequeue s = ((case key_contents s of [] \<Rightarrow> 0 | k # ks \<Rightarrow> k), s') \<and> key_invar s' \<and>
    key_contents s' = tl (key_contents s) \<and> i8042_data_port_base s' = i8042_data_port_base s \<and>
    mmio_maps s' = mmio_maps s \<and> p_space s' = p_space s"
proof -
  have base: "i8042_data_port_base (snd (key_dequeue s)) = i8042_data_port_base s"
    "mmio_maps (snd (key_dequeue s)) = mmio_maps s" "p_space (snd (key_dequeue s)) = p_space s"
    by (simp_all add: key_dequeue_def)
  show ?thesis
  proof (cases "key_contents s")
    case Nil
    then have "key_count s = 0" using length_key_contents [of s] by simp
    then have "key_f s = key_r s" using key_count_eq [OF assms] assms by (simp add: key_invar_def split: if_splits)
    then show ?thesis using Nil assms by (simp add: key_dequeue_def NEMU_KEY_NONE_def)
  next
    case (Cons k ks)
    then show ?thesis using key_dequeue_some [OF assms Cons] base by auto
  qed
qed

lemma keybrd_spec:
  assumes "keyboard_at c s m"
  shows "\<exists>s'. am_input_keybrd c s =
      Inr (let k = (case key_contents s of [] \<Rightarrow> 0 | k # ks \<Rightarrow> k) in
        ((k AND 0x8000 \<noteq> 0, sint (k AND NOT 0x8000)), s')) \<and>
    keyboard_at c s' m \<and> key_contents s' = tl (key_contents s)"
proof -
  let ?s = "difftest_skip_ref c s" and ?k = "case key_contents s of [] \<Rightarrow> 0 | k # ks \<Rightarrow> k"
  have m: "mapped c s m KBD_ADDR 4" "map_callback m = Some i8042_handler"
    "i8042_data_port_base ?s = Some (map_space m)" "key_invar ?s"
    using assms by (simp_all add: keyboard_at_def key_queue_skip) (simp add: difftest_skip_ref_def)
  obtain s1 where d: "key_dequeue ?s = (?k, s1)" "key_contents s1 = tl (key_contents s)"
      "i8042_data_port_base s1 = Some (map_space m)" "key_invar s1"
      "mmio_maps s1 = mmio_maps s" "p_space s1 = p_space s"
    using key_dequeue_any [OF m(4)] m(3) by (auto simp: key_queue_skip)
  have "in_object IO_SPACE_MAX (map_space m) 4" using mapped_backed [OF m(1), of 0 4] by simp
  then obtain bs where bs: "host_write c IO_SPACE_MAX (io_space s1) (map_space m) 4 ?k = Inr bs"
    using host_write_ok [of 4 c IO_SPACE_MAX "io_space s1" "map_space m" ?k] by (auto simp: access_len_def)
  have rd: "host_read c IO_SPACE_MAX bs (map_space m) 4 = Inr ?k"
    using host_read_after_write [OF _ bs] by (simp add: access_len_def)
  have "inl c KBD_ADDR s = Inr (?k, s1\<lparr>io_space := bs\<rparr>)"
    using mapped_read [OF m(1), of 0 4] mapped_inside [OF m(1), of 0] m(2) d bs rd
    by (simp add: inl_def vaddr_read_def map_read_def check_bound_def map_inside_def invoke_callback_def
        dev_callback_def i8042_data_io_handler_def io_set32_def Let_def)
  moreover have "key_contents (s1\<lparr>io_space := bs\<rparr>) = key_contents s1" "key_invar (s1\<lparr>io_space := bs\<rparr>) = key_invar s1"
    by (simp_all add: key_contents_def key_count_def key_invar_def)
  moreover have "mapped c (s1\<lparr>io_space := bs\<rparr>) m KBD_ADDR 4"
    using m(1) d(5,6) mapped_cong [of "s1\<lparr>io_space := bs\<rparr>" s] by simp
  ultimately show ?thesis using d(2-4) m(2) by (simp add: am_input_keybrd_def AM_KEYDOWN_MASK_def keyboard_at_def Let_def)
qed

lemma small_key:
  assumes "key < (0x8000 :: u32)"
  shows "key AND 0x8000 = 0" and "key AND NOT 0x8000 = key"
proof -
  have m: "(0x8000 :: u32) = push_bit 15 1" by simp
  have "unat key < 2 ^ 15" using assms by (simp add: word_less_nat_alt)
  then have "take_bit 15 key = key" by (simp add: word_unat_eq_iff unsigned_take_bit_eq take_bit_nat_eq_self)
  then have nb: "\<not> bit key 15" by (metis bit_take_bit_iff less_irrefl)
  have b: "bit (0x8000 :: u32) n \<longleftrightarrow> n = 15" for n unfolding m bit_push_bit_iff by (auto simp: bit_1_iff)
  show "key AND 0x8000 = 0"
  proof (rule bit_word_eqI)
    fix n
    show "bit (key AND 0x8000) n = bit (0 :: u32) n" unfolding bit_and_iff b using nb by auto
  qed
  show "key AND NOT 0x8000 = key"
  proof (rule bit_word_eqI)
    fix n assume "n < LENGTH(32)"
    then show "bit (key AND NOT 0x8000) n = bit key n"
      unfolding bit_and_iff bit_not_iff b using nb by auto
  qed
qed

text \<open>From the window to the guest.  While the machine runs and no key is pending, a key
  event that SDL delivers is what the next read of the keyboard register returns to the guest:
  the code of the key in \<open>keycode\<close> and whether it went down in \<open>keydown\<close>; the read after
  it returns \<open>AM_KEY_NONE\<close>.\<close>

theorem am_keyboard_event:
  assumes "keyboard_at c s m" and "key_contents s = []"
    and "st_state (nemu_state s) = NEMU_RUNNING" and "keymap s (unat scancode) = key" and "0 < key" and "key < 0x8000"
  shows "\<exists>s1 s2 s3. send_key scancode down s = Inr s1 \<and>
    am_input_keybrd c s1 = Inr ((down, uint key), s2) \<and> am_input_keybrd c s2 = Inr ((False, 0), s3)"
proof -
  let ?x = "key OR (if down then KEYDOWN_MASK else 0)"
  have inv: "key_invar s" "key_count s = 0"
    using assms(1,2) length_key_contents [of s] by (simp_all add: keyboard_at_def)
  then obtain s1 where e: "key_enqueue ?x s = Inr s1" "key_invar s1" "key_contents s1 = [?x]"
    using key_enqueue_ok [of s ?x] assms(2) by (auto simp: KEY_QUEUE_LEN_def)
  have send: "send_key scancode down s = Inr s1"
    using assms(3-5) e(1) by (auto simp: send_key_def NEMU_KEY_NONE_def)
  have "mmio_maps s1 = mmio_maps s" "p_space s1 = p_space s" "i8042_data_port_base s1 = i8042_data_port_base s"
    using e(1) by (auto simp: key_enqueue_def Let_def split: if_splits)
  then have at: "keyboard_at c s1 m" using assms(1) e(2) mapped_cong [of s1 s] by (simp add: keyboard_at_def)
  obtain s2 where s2: "am_input_keybrd c s1 = Inr ((?x AND 0x8000 \<noteq> 0, sint (?x AND NOT 0x8000)), s2)"
    "keyboard_at c s2 m" "key_contents s2 = []" using keybrd_spec [OF at] e(3) by (auto simp: Let_def)
  obtain s3 where s3: "am_input_keybrd c s2 = Inr ((False, 0), s3)"
    using keybrd_spec [OF s2(2)] s2(3) by (auto simp: Let_def)
  have "(key OR 0x8000) AND 0x8000 = 0x8000" "(key OR 0x8000) AND NOT 0x8000 = key AND NOT 0x8000"
    by (rule bit_word_eqI, auto simp: bit_simps)+
  then have "(?x AND 0x8000 \<noteq> 0) = down" "?x AND NOT 0x8000 = key"
    using small_key [OF assms(6)] by (cases down; simp add: KEYDOWN_MASK_def)+
  moreover have "- (2 ^ 31) \<le> uint key" by (rule order_trans [of _ 0]) simp_all
  then have "sint key = uint key"
    using assms(6) by (simp add: sint_uint signed_take_bit_int_eq_self word_less_def)
  ultimately show ?thesis using send s2(1) s3 by auto
qed

text \<open>A machine with a clock and a keyboard for the examples.\<close>

definition rtc_map :: IOMap where
  "rtc_map = \<lparr>map_name = ''rtc'', map_low = 0xa0000048, map_high = 0xa000004f, map_space = 0,
     map_callback = Some rtc_handler\<rparr>"

definition kbd_map :: IOMap where
  "kbd_map = \<lparr>map_name = ''keyboard'', map_low = 0xa0000060, map_high = 0xa0000063, map_space = 4096,
     map_callback = Some i8042_handler\<rparr>"

definition desk_state :: nemu where
  "desk_state = power_on\<lparr>p_space := 8192, mmio_maps := [rtc_map, kbd_map], rtc_port_base := Some 0,
     i8042_data_port_base := Some 4096, host_clock := (\<lambda>n. (4500 * of_nat n, 7)),
     nemu_state := (nemu_state power_on)\<lparr>st_state := NEMU_RUNNING\<rparr>, keymap := (\<lambda>_. 0)(4 := 43)\<rparr>"

lemma desk_mapped:
  "mapped default_config desk_state rtc_map RTC_ADDR 8" "mapped default_config desk_state kbd_map KBD_ADDR 4"
proof -
  have "\<not> (map_inside rtc_map a \<and> map_inside kbd_map a)" for a
    using order_trans [of "0xa0000060" a "0xa000004f"] by (auto simp: rtc_map_def kbd_map_def map_inside_def)
  then have dj: "maps_disjoint [rtc_map, kbd_map]"
    unfolding maps_disjoint_def by (auto simp: less_Suc_eq)
  then have wf: "io_wf desk_state"
    by (simp add: desk_state_def io_wf_def IO_SPACE_MAX_def NR_MAP_def map_backed_def rtc_map_def kbd_map_def)
  have out: "\<not> in_pmem default_config a" if "0xa0000000 \<le> a" for a
    using that by (auto simp: in_pmem_def word_less_def word_le_def uint_sub_if')
  show "mapped default_config desk_state rtc_map RTC_ADDR 8"
    using wf by (auto simp: mapped_def desk_state_def rtc_map_def RTC_ADDR_def DEVICE_BASE_def map_inside_def
        word_le_def intro!: out)
  show "mapped default_config desk_state kbd_map KBD_ADDR 4"
    using wf by (auto simp: mapped_def desk_state_def kbd_map_def KBD_ADDR_def DEVICE_BASE_def map_inside_def
        word_le_def intro!: out)
qed

theorem am_uptime_reads_clock_witness:
  "\<exists>s'. am_timer_uptime default_config desk_state = Inr (4500000000, s')"
proof -
  have "clock_at default_config desk_state rtc_map"
    using desk_mapped(1) by (simp add: clock_at_def desk_state_def rtc_map_def)
  moreover have "fst (get_time desk_state) = 4500000000"
    by (simp add: desk_state_def power_on_def get_time_def get_time_internal_def)
  ultimately show ?thesis using am_uptime_reads_clock by fastforce
qed

theorem am_keyboard_event_witness:
  "\<exists>s1 s2 s3. send_key 4 True desk_state = Inr s1 \<and>
    am_input_keybrd default_config s1 = Inr ((True, 43), s2) \<and> am_input_keybrd default_config s2 = Inr ((False, 0), s3)"
proof -
  have "keyboard_at default_config desk_state kbd_map"
    using desk_mapped(2) by (simp add: keyboard_at_def desk_state_def kbd_map_def key_invar_def power_on_def KEY_QUEUE_LEN_def)
  moreover have "key_contents desk_state = []"
    by (simp add: desk_state_def key_contents_def key_count_def power_on_def KEY_QUEUE_LEN_def)
  ultimately show ?thesis
    using am_keyboard_event [of default_config desk_state kbd_map 4 43 True] by (simp add: desk_state_def)
qed

end
