(* ===== verification/Am_Gpu_Facts.thy ===== *)
theory Am_Gpu_Facts
  imports Am_Ioe_Facts
begin

text \<open>
  Drawing: \<open>__am_gpu_fbdraw\<close> of the abstract machine on the frame buffer of the emulator.
\<close>

text \<open>A screen of \<open>w\<close> by \<open>h\<close> pixels: the frame buffer and the control register are plain
  regions in different places of the I/O buffer, and the control register holds the size.\<close>

definition display :: "config \<Rightarrow> 'a mem_scheme \<Rightarrow> IOMap \<Rightarrow> IOMap \<Rightarrow> int \<Rightarrow> int \<Rightarrow> bool" where
  "display c s fb vc w h \<longleftrightarrow>
     0 < w \<and> w < 2 ^ 15 \<and> 0 < h \<and> h < 2 ^ 15 \<and>
     mapped c s fb FB_ADDR (4 * (w * h)) \<and> map_callback fb = None \<and>
     mapped c s vc VGACTL_ADDR 8 \<and> map_callback vc = None \<and>
     (map_space vc + 8 \<le> map_space fb \<or> map_space fb + 4 * (w * h) \<le> map_space vc) \<and>
     host_read c IO_SPACE_MAX (io_space s) (map_space vc) 4 = Inr (word_of_int (w * 65536 + h))"

text \<open>The pixel of number \<open>k\<close>, and the picture in guest memory.\<close>

definition pixel :: "config \<Rightarrow> IOMap \<Rightarrow> 'a mem_scheme \<Rightarrow> int \<Rightarrow> u32 res" where
  "pixel c fb s k = host_read c IO_SPACE_MAX (io_space s) (map_space fb + 4 * k) 4"

definition picture :: "config \<Rightarrow> 'a mem_scheme \<Rightarrow> am_fbdraw \<Rightarrow> (int \<Rightarrow> u32) \<Rightarrow> bool" where
  "picture c s ctl p \<longleftrightarrow>
     (\<forall>k. 0 \<le> k \<and> k < fb_w ctl * fb_h ctl \<longrightarrow>
        (let a = fb_pixels ctl + word_of_int (4 * k) in in_pmem c a \<and> pmem_read c a 4 s = Inr (p k)))"

definition on_screen :: "am_fbdraw \<Rightarrow> int \<Rightarrow> int \<Rightarrow> bool" where
  "on_screen ctl w h \<longleftrightarrow> 0 \<le> fb_x ctl \<and> 0 < fb_w ctl \<and> fb_x ctl + fb_w ctl \<le> w \<and>
     0 \<le> fb_y ctl \<and> 0 < fb_h ctl \<and> fb_y ctl + fb_h ctl \<le> h"

lemma picture_cong: "pmem s' = pmem s \<Longrightarrow> picture c s' ctl p = picture c s ctl p"
  by (simp add: picture_def pmem_read_def)

lemma skip_mem: "pmem (difftest_skip_ref c s) = pmem s"
  by (simp add: difftest_skip_ref_def)

lemma display_cong:
  assumes "mmio_maps s' = mmio_maps s" and "p_space s' = p_space s"
    and "host_read c IO_SPACE_MAX (io_space s') (map_space vc) 4 = host_read c IO_SPACE_MAX (io_space s) (map_space vc) 4"
  shows "display c s' fb vc w h = display c s fb vc w h"
  using mapped_cong [OF assms(1,2)] assms(3) by (simp add: display_def)

lemma int_ok_nonneg: "0 \<le> v \<Longrightarrow> v < 2147483648 \<Longrightarrow> int_ok v"
  by (simp add: int_ok_def)

text \<open>One pixel is stored.\<close>

lemma store_pixel:
  assumes d: "display c s fb vc w h" and k: "0 \<le> k" "k < w * h"
  shows "\<exists>s'. outl c (FB_ADDR + word_of_int (4 * k)) v s = Inr s' \<and> display c s' fb vc w h \<and>
    pmem s' = pmem s \<and> (\<forall>k'. pixel c fb s' k' = (if k' = k then Inr v else pixel c fb s k'))"
proof -
  have m: "mapped c s fb FB_ADDR (4 * (w * h))" "map_callback fb = None" using d by (simp_all add: display_def)
  obtain bs where bs: "host_write c IO_SPACE_MAX (io_space s) (map_space fb + 4 * k) 4 v = Inr bs"
    and out: "outl c (FB_ADDR + word_of_int (4 * k)) v s = Inr ((difftest_skip_ref c s)\<lparr>io_space := bs\<rparr>)"
    using plain_store [OF m, of "4 * k" v] k by auto
  let ?s = "(difftest_skip_ref c s)\<lparr>io_space := bs\<rparr>"
  have al: "access_len 4" by (simp add: access_len_def)
  have "host_read c IO_SPACE_MAX bs (map_space vc) 4 = host_read c IO_SPACE_MAX (io_space s) (map_space vc) 4"
    by (rule host_read_write_disjoint [OF al al bs]) (use d k in \<open>auto simp: display_def\<close>)
  then have "display c ?s fb vc w h" using d display_cong [of ?s s c vc fb w h] by simp
  moreover have "pixel c fb ?s k' = (if k' = k then Inr v else pixel c fb s k')" for k'
  proof -
    have "k' = k \<or> 4 * k' + 4 \<le> 4 * k \<or> 4 * k + 4 \<le> 4 * k'" by presburger
    then show ?thesis using host_read_after_write [OF al bs] host_read_write_disjoint [OF al al bs, of "map_space fb + 4 * k'"]
      by (auto simp: pixel_def)
  qed
  ultimately show ?thesis using out by (auto simp: skip_mem)
qed

text \<open>A row, from column \<open>i\<close> on.\<close>

lemma fb_cols_spec:
  assumes "display c s fb vc w h" and "picture c s ctl p" and scr: "on_screen ctl w h"
    and "0 \<le> j" and "j < fb_h ctl" and "0 \<le> i" and "i + int n \<le> fb_w ctl"
  shows "\<exists>s'. fb_cols c ctl (word_of_int w) j i n s = Inr s' \<and> display c s' fb vc w h \<and> pmem s' = pmem s \<and>
    (\<forall>k. pixel c fb s' k =
       (let q = k - ((fb_y ctl + j) * w + fb_x ctl) in
        if i \<le> q \<and> q < i + int n then Inr (p (j * fb_w ctl + q)) else pixel c fb s k))"
  using assms(1,2,6,7)
proof (induction n arbitrary: i s)
  case (Suc n)
  let ?x = "fb_x ctl" and ?y = "fb_y ctl" and ?W = "fb_w ctl" and ?H = "fb_h ctl"
  let ?src = "j * ?W + i" and ?dst = "(?y + j) * w + (?x + i)"
  have b: "0 \<le> ?x" "?x + ?W \<le> w" "0 \<le> ?y" "?y + ?H \<le> h" "w < 2 ^ 15" "h < 2 ^ 15" "0 < w"
    using scr Suc.prems(1) by (simp_all add: on_screen_def display_def)
  have i: "i < ?W" "0 \<le> i" using Suc.prems(3,4) by simp_all
  have src: "0 \<le> ?src" "?src < ?W * ?H"
  proof -
    show "0 \<le> ?src" using assms(4) i by simp
    have "(j + 1) * ?W \<le> ?H * ?W" using assms(5) i by (intro mult_right_mono) auto
    then show "?src < ?W * ?H" using i by (simp add: algebra_simps)
  qed
  have dst: "0 \<le> ?dst" "?dst < w * h"
  proof -
    show "0 \<le> ?dst" using assms(4) b i by simp
    have "(?y + j + 1) * w \<le> h * w" using assms(5) b by (intro mult_right_mono) auto
    then show "?dst < w * h" using i b by (simp add: algebra_simps)
  qed
  have wh: "w < 32768" "h < 32768" using b(5,6) by simp_all
  have "?W * ?H \<le> 32768 * 32768" using b wh i assms(4,5) by (intro mult_mono) auto
  moreover have "0 \<le> j * ?W" using assms(4) i by simp
  ultimately have ok: "int_ok (?y + j)" "int_ok (?x + i)" "int_ok (j * ?W)" "int_ok ?src"
    using src b wh i assms(4,5) by (intro int_ok_nonneg; linarith)+
  have "inl c (fb_pixels ctl + word_of_int (4 * ?src)) s = Inr (p ?src, s)"
    using Suc.prems(2) src by (auto simp: picture_def inl_def vaddr_read_def paddr_read_def Let_def)
  moreover obtain s1 where s1: "outl c (FB_ADDR + word_of_int (4 * ?dst)) (p ?src) s = Inr s1"
    "display c s1 fb vc w h" "pmem s1 = pmem s"
    "\<And>k. pixel c fb s1 k = (if k = ?dst then Inr (p ?src) else pixel c fb s k)"
    using store_pixel [OF Suc.prems(1) dst] by blast
  moreover have "FB_ADDR + 4 * (word_of_int (?y + j) * word_of_int w + word_of_int (?x + i)) =
      FB_ADDR + word_of_int (4 * ?dst)" by simp
  ultimately have step: "fb_cols c ctl (word_of_int w) j i (Suc n) s = fb_cols c ctl (word_of_int w) j (i + 1) n s1"
    using ok by (simp add: Let_def)
  obtain s2 where "fb_cols c ctl (word_of_int w) j (i + 1) n s1 = Inr s2" "display c s2 fb vc w h" "pmem s2 = pmem s1"
    "\<And>k. pixel c fb s2 k = (let q = k - ((?y + j) * w + ?x) in
        if i + 1 \<le> q \<and> q < i + 1 + int n then Inr (p (j * ?W + q)) else pixel c fb s1 k)"
    using Suc.IH [OF s1(2), of "i + 1"] Suc.prems s1(3) picture_cong [OF s1(3)] by auto
  then show ?case using step s1(3,4) by (auto simp: Let_def)
qed (auto simp: Let_def)

text \<open>Where a number of the frame buffer lies relative to the row the rectangle has at \<open>b'\<close>.\<close>

lemma row_hit:
  fixes a b b' w x W :: int
  assumes "0 \<le> a" "a < w" "0 \<le> x" "x + W \<le> w"
  shows "0 \<le> b * w + a - (b' * w + x) \<and> b * w + a - (b' * w + x) < W \<longleftrightarrow> b = b' \<and> x \<le> a \<and> a < x + W"
proof -
  have q: "b * w + a - (b' * w + x) = (b - b') * w + (a - x)" by (simp add: algebra_simps)
  consider "b = b'" | "b' < b" | "b < b'" by linarith
  then show ?thesis
  proof cases
    case 2
    then have "1 * w \<le> (b - b') * w" using assms by (intro mult_right_mono) auto
    then have "W \<le> (b - b') * w + (a - x)" using assms by linarith
    then show ?thesis unfolding q using 2 by auto
  next
    case 3
    then have "(b - b') * w \<le> -1 * w" using assms by (intro mult_right_mono) auto
    then have "(b - b') * w + (a - x) < 0" using assms by linarith
    then show ?thesis unfolding q using 3 by auto
  qed (auto simp: q)
qed

lemma fb_rows_spec:
  assumes "display c s fb vc w h" and "picture c s ctl p" and scr: "on_screen ctl w h"
    and "0 \<le> j" and "j + int n \<le> fb_h ctl"
  shows "\<exists>s'. fb_rows c ctl (word_of_int w) j n s = Inr s' \<and> display c s' fb vc w h \<and> pmem s' = pmem s \<and>
    (\<forall>a b. 0 \<le> a \<and> a < w \<longrightarrow> pixel c fb s' (b * w + a) =
       (if fb_x ctl \<le> a \<and> a < fb_x ctl + fb_w ctl \<and> fb_y ctl + j \<le> b \<and> b < fb_y ctl + j + int n
        then Inr (p ((b - fb_y ctl) * fb_w ctl + (a - fb_x ctl))) else pixel c fb s (b * w + a)))"
  using assms(1,2,4,5)
proof (induction n arbitrary: j s)
  case (Suc n)
  let ?x = "fb_x ctl" and ?y = "fb_y ctl" and ?W = "fb_w ctl"
  have x: "0 \<le> ?x" "?x + ?W \<le> w" "0 < ?W" using scr by (simp_all add: on_screen_def)
  obtain s1 where s1: "fb_cols c ctl (word_of_int w) j 0 (nat ?W) s = Inr s1" "display c s1 fb vc w h" "pmem s1 = pmem s"
    and p1: "\<And>k. pixel c fb s1 k = (let q = k - ((?y + j) * w + ?x) in
        if 0 \<le> q \<and> q < ?W then Inr (p (j * ?W + q)) else pixel c fb s k)"
    using fb_cols_spec [OF Suc.prems(1,2) scr, of j 0 "nat ?W"] Suc.prems(3,4) x(3) by auto
  have row: "pixel c fb s1 (b * w + a) =
      (if b = ?y + j \<and> ?x \<le> a \<and> a < ?x + ?W then Inr (p (j * ?W + (a - ?x))) else pixel c fb s (b * w + a))"
    if "0 \<le> a" "a < w" for a b
    unfolding p1 Let_def row_hit [OF that x(1,2)] by (auto simp: algebra_simps)
  obtain s2 where s2: "fb_rows c ctl (word_of_int w) (j + 1) n s1 = Inr s2" "display c s2 fb vc w h" "pmem s2 = pmem s1"
    and p2: "\<And>a b. 0 \<le> a \<Longrightarrow> a < w \<Longrightarrow> pixel c fb s2 (b * w + a) =
       (if ?x \<le> a \<and> a < ?x + ?W \<and> ?y + (j + 1) \<le> b \<and> b < ?y + (j + 1) + int n
        then Inr (p ((b - ?y) * ?W + (a - ?x))) else pixel c fb s1 (b * w + a))"
    using Suc.IH [OF s1(2), of "j + 1"] Suc.prems picture_cong [OF s1(3)] by auto
  have "pixel c fb s2 (b * w + a) =
       (if ?x \<le> a \<and> a < ?x + ?W \<and> ?y + j \<le> b \<and> b < ?y + j + int (Suc n)
        then Inr (p ((b - ?y) * ?W + (a - ?x))) else pixel c fb s (b * w + a))" if "0 \<le> a" "a < w" for a b
    unfolding p2 [OF that] row [OF that] by auto
  then show ?case using s1 s2 by auto
qed auto

lemma vgactl_width:
  assumes "0 < w" and "w < 2 ^ 15" and "0 < h" and "h < 2 ^ 15"
  shows "drop_bit 16 (word_of_int (w * 65536 + h) :: u32) = word_of_int w"
proof -
  have "uint (word_of_int n :: u32) = n" if "0 \<le> n" "n < 2 ^ 32" for n using that by (simp add: uint_word_of_int)
  from this [of "w * 65536 + h"] have "uint (word_of_int (w * 65536 + h) :: u32) = w * 65536 + h" using assms by simp
  then have "uint (drop_bit 16 (word_of_int (w * 65536 + h) :: u32)) = w"
    unfolding unsigned_drop_bit_eq using assms by (simp add: take_bit_int_eq_self drop_bit_eq_div [where 'a = int] del: of_int_add)
  then show ?thesis by (metis word_of_int_uint)
qed

lemma sync_apart:
  assumes "display c s fb vc w h" and "0 \<le> a" "a < w" "0 \<le> b" "b < h"
  shows "map_space fb + 4 * (b * w + a) + 4 \<le> map_space vc + 4 \<or> map_space vc + 4 + 4 \<le> map_space fb + 4 * (b * w + a)"
proof -
  have pos: "0 \<le> b * w" using assms by simp
  have "(b + 1) * w \<le> h * w" using assms by (intro mult_right_mono) auto
  then have le: "b * w + w \<le> w * h" by (simp add: algebra_simps)
  consider "map_space vc + 8 \<le> map_space fb" | "map_space fb + 4 * (w * h) \<le> map_space vc"
    using assms(1) by (auto simp: display_def)
  then show ?thesis
  proof cases
    case 1
    then have "map_space vc + 4 + 4 \<le> map_space fb + 4 * (b * w + a)"
      using mult_nonneg_nonneg [of 4 "b * w + a"] pos assms(2) by linarith
    then show ?thesis ..
  next
    case 2
    then have "map_space fb + 4 * (b * w + a) + 4 \<le> map_space vc + 4"
      using mult_left_mono [of "b * w + a" "w * h" 4] le assms(3) by linarith
    then show ?thesis ..
  qed
qed

text \<open>C29: drawing a rectangle.  On a screen of \<open>w\<close> by \<open>h\<close> pixels, for a rectangle that lies on
  the screen and a picture that lies in guest memory, \<open>__am_gpu_fbdraw\<close> puts the pixel of
  column \<open>a - x\<close> and row \<open>b - y\<close> of the picture at column \<open>a\<close> and row \<open>b\<close> of the screen for
  every point inside the rectangle, leaves every other point of the screen as it was, leaves guest
  memory alone, and sets the synchronisation register when it is asked to.\<close>

theorem am_fbdraw_rectangle:
  assumes "display c s fb vc w h" and "picture c s ctl p" and "on_screen ctl w h"
  shows "\<exists>s'. am_gpu_fbdraw c ctl s = Inr s' \<and> pmem s' = pmem s \<and>
    (\<forall>a b. 0 \<le> a \<and> a < w \<and> 0 \<le> b \<and> b < h \<longrightarrow> pixel c fb s' (b * w + a) =
       (if fb_x ctl \<le> a \<and> a < fb_x ctl + fb_w ctl \<and> fb_y ctl \<le> b \<and> b < fb_y ctl + fb_h ctl
        then Inr (p ((b - fb_y ctl) * fb_w ctl + (a - fb_x ctl))) else pixel c fb s (b * w + a))) \<and>
    (fb_sync ctl \<longrightarrow> host_read c IO_SPACE_MAX (io_space s') (map_space vc + 4) 4 = Inr 1)"
proof -
  let ?s = "difftest_skip_ref c s"
  have wh: "0 < w" "w < 2 ^ 15" "0 < h" "h < 2 ^ 15" and vc: "mapped c s vc VGACTL_ADDR 8" "map_callback vc = None"
    using assms(1) by (simp_all add: display_def)
  have "inl c (VGACTL_ADDR + word_of_int 0) s = Inr (word_of_int (w * 65536 + h), ?s)"
    using plain_load [OF vc, of 0] assms(1) by (simp add: display_def)
  then have size: "inl c VGACTL_ADDR s = Inr (word_of_int (w * 65536 + h), ?s)" by simp
  have "display c ?s fb vc w h" "picture c ?s ctl p"
    using assms(1,2) display_cong [of ?s s] picture_cong [of ?s s, OF skip_mem] by simp_all
  from fb_rows_spec [OF this assms(3), of 0 "nat (fb_h ctl)"] obtain s1 where
    s1: "fb_rows c ctl (word_of_int w) 0 (nat (fb_h ctl)) ?s = Inr s1" "display c s1 fb vc w h" "pmem s1 = pmem s"
    and p1: "\<And>a b. 0 \<le> a \<Longrightarrow> a < w \<Longrightarrow> pixel c fb s1 (b * w + a) =
       (if fb_x ctl \<le> a \<and> a < fb_x ctl + fb_w ctl \<and> fb_y ctl \<le> b \<and> b < fb_y ctl + fb_h ctl
        then Inr (p ((b - fb_y ctl) * fb_w ctl + (a - fb_x ctl))) else pixel c fb s (b * w + a))"
    using assms(3) by (auto simp: on_screen_def skip_mem pixel_def)
  have draw: "am_gpu_fbdraw c ctl s = (if fb_sync ctl then outl c SYNC_ADDR 1 s1 else Inr s1)"
    using size s1(1) assms(3) vgactl_width [OF wh] by (simp add: am_gpu_fbdraw_def on_screen_def)
  obtain bs where bs: "host_write c IO_SPACE_MAX (io_space s1) (map_space vc + 4) 4 1 = Inr bs"
    and out: "outl c SYNC_ADDR 1 s1 = Inr ((difftest_skip_ref c s1)\<lparr>io_space := bs\<rparr>)"
    using plain_store [of c s1 vc VGACTL_ADDR 8 4 1] s1(2) by (auto simp: display_def SYNC_ADDR_def)
  have al: "access_len 4" by (simp add: access_len_def)
  have keep: "host_read c IO_SPACE_MAX bs (map_space fb + 4 * (b * w + a)) 4 = pixel c fb s1 (b * w + a)"
    if "0 \<le> a" "a < w" "0 \<le> b" "b < h" for a b
    unfolding pixel_def using sync_apart [OF assms(1) that] by (intro host_read_write_disjoint [OF al al bs]) auto
  show ?thesis
    using draw out s1(3) p1 keep host_read_after_write [OF al bs]
    by (cases "fb_sync ctl") (auto simp: skip_mem pixel_def)
qed

definition small_fb :: IOMap where
  "small_fb = \<lparr>map_name = ''vmem'', map_low = 0xa1000000, map_high = 0xa100001f, map_space = 4096,
     map_callback = None\<rparr>"

definition small_vc :: IOMap where
  "small_vc = \<lparr>map_name = ''vgactl'', map_low = 0xa0000100, map_high = 0xa0000107, map_space = 0,
     map_callback = None\<rparr>"

text \<open>A screen of four by two pixels, and guest memory filled with one colour.\<close>

definition small_screen :: nemu where
  "small_screen = power_on\<lparr>p_space := 8192, mmio_maps := [small_vc, small_fb],
     io_space := (\<lambda>_. 0)(0 := 2, 2 := 4), pmem := (\<lambda>_. 0x11)\<rparr>"

definition small_rect :: am_fbdraw where
  "small_rect = \<lparr>fb_x = 1, fb_y = 0, fb_pixels = 0x80001000, fb_w = 2, fb_h = 2, fb_sync = True\<rparr>"

lemma small_display: "display default_config small_screen small_fb small_vc 4 2"
proof -
  have "\<not> (map_inside small_vc a \<and> map_inside small_fb a)" for a
    using order_trans [of "0xa1000000" a "0xa0000107"] by (auto simp: small_vc_def small_fb_def map_inside_def)
  then have "maps_disjoint [small_vc, small_fb]" unfolding maps_disjoint_def by (auto simp: less_Suc_eq)
  then have wf: "io_wf small_screen"
    by (simp add: small_screen_def io_wf_def IO_SPACE_MAX_def NR_MAP_def map_backed_def small_vc_def small_fb_def)
  have out: "\<not> in_pmem default_config a" if "0xa0000000 \<le> a" for a
    using that by (auto simp: in_pmem_def word_less_def word_le_def uint_sub_if')
  have "mapped default_config small_screen small_fb FB_ADDR 32"
    using wf by (auto simp: mapped_def small_screen_def small_fb_def FB_ADDR_def MMIO_BASE_def map_inside_def
        word_le_def intro!: out)
  moreover have "mapped default_config small_screen small_vc VGACTL_ADDR 8"
    using wf by (auto simp: mapped_def small_screen_def small_vc_def VGACTL_ADDR_def DEVICE_BASE_def map_inside_def
        word_le_def intro!: out)
  moreover have "host_read default_config IO_SPACE_MAX (io_space small_screen) 0 4 = Inr 0x40002"
    by (simp add: host_read_def small_screen_def IO_SPACE_MAX_def in_object_def join4_def)
  ultimately show ?thesis by (simp add: display_def small_fb_def small_vc_def)
qed

lemma small_picture: "picture default_config small_screen small_rect (\<lambda>_. 0x11111111)"
proof -
  have a: "uint (0x80001000 + word_of_int (4 * k) :: u32) = 0x80001000 + 4 * k" if "0 \<le> k" "k < 4" for k
  proof -
    have "uint (word_of_int n :: u32) = n" if "0 \<le> n" "n < 2 ^ 32" for n using that by (simp add: uint_word_of_int)
    from this [of "0x80001000 + 4 * k"] show ?thesis using that by simp
  qed
  have "in_pmem default_config (0x80001000 + word_of_int (4 * k))" if "0 \<le> k" "k < 4" for k
    using a [OF that] that
    by (subst in_pmem_iff) (simp_all add: pmem_fits_def guest_to_host_def)
  moreover have "pmem_read default_config (0x80001000 + word_of_int (4 * k)) 4 small_screen = Inr 0x11111111"
    if "0 \<le> k" "k < 4" for k
    using a [OF that] that
    by (simp add: pmem_read_def guest_to_host_def host_read_def in_object_def small_screen_def join4_def)
  ultimately show ?thesis by (simp add: picture_def small_rect_def Let_def)
qed

theorem am_fbdraw_rectangle_witness:
  "\<exists>s'. am_gpu_fbdraw default_config small_rect small_screen = Inr s' \<and>
    pixel default_config small_fb s' 1 = Inr 0x11111111 \<and>
    pixel default_config small_fb s' 4 = pixel default_config small_fb small_screen 4"
proof -
  have "on_screen small_rect 4 2" by (simp add: on_screen_def small_rect_def)
  from am_fbdraw_rectangle [OF small_display small_picture this] obtain s' where
    s': "am_gpu_fbdraw default_config small_rect small_screen = Inr s'"
    and p: "\<And>a b. 0 \<le> a \<and> a < 4 \<and> 0 \<le> b \<and> b < 2 \<Longrightarrow> pixel default_config small_fb s' (b * 4 + a) =
       (if fb_x small_rect \<le> a \<and> a < fb_x small_rect + fb_w small_rect \<and> fb_y small_rect \<le> b \<and> b < fb_y small_rect + fb_h small_rect
        then Inr 0x11111111 else pixel default_config small_fb small_screen (b * 4 + a))"
    by blast
  show ?thesis using s' p [of 1 0] p [of 0 1] by (simp add: small_rect_def)
qed

end
