(* ===== verification/Am_Cte.thy ===== *)
theory Am_Cte
  imports Riscv32 Kstdlib
begin

text \<open>
  Contexts and traps of the abstract machine on NEMU: \<open>am/src/riscv/nemu/cte.c\<close> with the trap
  entry \<open>trap.S\<close> beside it, and the structures of \<open>am/include/arch/riscv.h\<close> and
  \<open>am/include/am.h\<close>.  The code runs on the emulated machine: a context is a place in guest
  memory, an access to it a load or store, \<open>ecall\<close> and \<open>mret\<close> are those of the interpreter.

  The user's handler is a function on pointers and machine states; what it leaves in the
  registers is free, as the trap exit loads every register from the context it returns.
\<close>

subsection \<open>Structures\<close>

datatype event_kind =
    EVENT_NULL | EVENT_YIELD | EVENT_SYSCALL | EVENT_PAGEFAULT | EVENT_ERROR
  | EVENT_IRQ_TIMER | EVENT_IRQ_IODEV

record Event =
  event :: event_kind
  cause :: u32
  ev_ref :: u32
  msg :: u32

type_synonym 's handler = "Event \<Rightarrow> u32 \<Rightarrow> 's \<Rightarrow> (u32 \<times> 's) res"

text \<open>\<open>struct Context\<close>: the word \<open>k\<close> of a context; the registers come first.\<close>

definition ctx_word :: "nat \<Rightarrow> u32" where
  "ctx_word k = of_nat (4 * k)"

definition OFFSET_CAUSE :: "config \<Rightarrow> u32" where
  "OFFSET_CAUSE c = ctx_word (nr_gpr c)"

definition OFFSET_STATUS :: "config \<Rightarrow> u32" where
  "OFFSET_STATUS c = ctx_word (nr_gpr c + 1)"

definition OFFSET_EPC :: "config \<Rightarrow> u32" where
  "OFFSET_EPC c = ctx_word (nr_gpr c + 2)"

text \<open>The size the assembly code uses, and \<open>sizeof(Context)\<close>, which also counts \<open>pdir\<close>.\<close>

definition CONTEXT_SIZE :: "config \<Rightarrow> u32" where
  "CONTEXT_SIZE c = ctx_word (nr_gpr c + 3)"

definition sizeof_Context :: "config \<Rightarrow> u32" where
  "sizeof_Context c = ctx_word (nr_gpr c + 4)"

subsection \<open>trap.S\<close>

text \<open>\<open>REGS\<close>: every register but \<open>x0\<close> and \<open>x2\<close>, the stack pointer.\<close>

definition REGS :: "config \<Rightarrow> nat list" where
  "REGS c = 1 # [3..<nr_gpr c]"

definition put_gpr :: "nat \<Rightarrow> u32 \<Rightarrow> 'a nemu_scheme \<Rightarrow> 'a nemu_scheme" where
  "put_gpr n v s = s\<lparr>cpu := (cpu s)\<lparr>gpr := (gpr (cpu s))[n := v]\<rparr>\<rparr>"

definition get_gpr :: "nat \<Rightarrow> 'a nemu_scheme \<Rightarrow> u32" where
  "get_gpr n s = gpr (cpu s) ! n"

text \<open>A sequence of \<open>STORE\<close> instructions: addresses and values.\<close>

fun stores :: "(u32 \<Rightarrow> int \<Rightarrow> u32 \<Rightarrow> 's \<Rightarrow> 's res) \<Rightarrow> (u32 \<times> u32) list \<Rightarrow> 's \<Rightarrow> 's res" where
  "stores wr [] s = Inr s"
| "stores wr ((a, v) # avs) s = bind_res (wr a 4 v s) (\<lambda>s1. stores wr avs s1)"

definition push_regs :: "config \<Rightarrow> 'a nemu_scheme \<Rightarrow> 'a nemu_scheme res" where
  "push_regs c s =
     stores (vaddr_write c) (map (\<lambda>n. (get_gpr 2 s + ctx_word n, get_gpr n s)) (REGS c)) s"

text \<open>The status registers go to the context by way of \<open>t0\<close>, \<open>t1\<close> and \<open>t2\<close>, which are x5, x6
  and x7.\<close>

definition push_csrs :: "config \<Rightarrow> 'a nemu_scheme \<Rightarrow> 'a nemu_scheme res" where
  "push_csrs c s =
     (let s1 = put_gpr 5 (csr (cpu s) ! mcause) s;
          s2 = put_gpr 6 (csr (cpu s1) ! mstatus) s1;
          s3 = put_gpr 7 (csr (cpu s2) ! mepc) s2
      in stores (vaddr_write c)
           [(get_gpr 2 s3 + OFFSET_CAUSE c, get_gpr 5 s3),
            (get_gpr 2 s3 + OFFSET_STATUS c, get_gpr 6 s3),
            (get_gpr 2 s3 + OFFSET_EPC c, get_gpr 7 s3)] s3)"

text \<open>The bit \<open>MPRV\<close> of \<open>mstatus\<close>, with \<open>a0\<close>, which is x10.\<close>

definition set_mprv :: "'a nemu_scheme \<Rightarrow> 'a nemu_scheme" where
  "set_mprv s =
     (let s1 = put_gpr 10 (push_bit 17 1) s;
          s2 = put_gpr 6 (get_gpr 6 s1 OR get_gpr 10 s1) s1
      in csr_put mstatus (get_gpr 6 s2) s2)"

text \<open>From the entry to the call of \<open>__am_irq_handle\<close>: the context is at the new stack pointer,
  which is the argument.  The machine code of the C handler is not modelled, thus neither is the return
  address its call leaves in \<open>ra\<close> (saved before, and restored from the context) nor the frame it
  pushes below the context.\<close>

definition trap_save :: "config \<Rightarrow> 'a nemu_scheme \<Rightarrow> (u32 \<times> 'a nemu_scheme) res" where
  "trap_save c s =
     bind_res (push_regs c (put_gpr 2 (get_gpr 2 s - CONTEXT_SIZE c) s)) (\<lambda>s1.
     bind_res (push_csrs c s1) (\<lambda>s2.
     let s3 = set_mprv s2; s4 = put_gpr 10 (get_gpr 2 s3) s3
     in Inr (get_gpr 10 s4, s4)))"

fun pop_regs :: "config \<Rightarrow> nat list \<Rightarrow> 'a nemu_scheme \<Rightarrow> 'a nemu_scheme res" where
  "pop_regs c [] s = Inr s"
| "pop_regs c (n # ns) s =
     bind_res (vaddr_read c (get_gpr 2 s + ctx_word n) 4 s) (\<lambda>(v, s1). pop_regs c ns (put_gpr n v s1))"

text \<open>From the return of \<open>__am_irq_handle\<close>, whose result is in \<open>a0\<close>, to the \<open>mret\<close>.\<close>

definition trap_restore :: "config \<Rightarrow> u32 \<Rightarrow> 'a nemu_scheme \<Rightarrow> 'a nemu_scheme res" where
  "trap_restore c a0 s =
     (let s1 = put_gpr 2 a0 (put_gpr 10 a0 s) in
      bind_res (vaddr_read c (get_gpr 2 s1 + OFFSET_STATUS c) 4 s1) (\<lambda>(t1, s2).
      bind_res (vaddr_read c (get_gpr 2 s2 + OFFSET_EPC c) 4 (put_gpr 6 t1 s2)) (\<lambda>(t2, s3).
      let s4 = put_gpr 7 t2 s3;
          s5 = csr_put mepc (get_gpr 7 s4) (csr_put mstatus (get_gpr 6 s4) s4)
      in bind_res (pop_regs c (REGS c) s5) (\<lambda>s6.
         let s7 = put_gpr 2 (get_gpr 2 s6 + CONTEXT_SIZE c) s6;
             (d, s8) = MRET \<lparr>d_pc = 0, d_snpc = 0, d_dnpc = 0, d_inst = 0x30200073\<rparr> s7
         in Inr (s8\<lparr>cpu := (cpu s8)\<lparr>pc := d_dnpc d\<rparr>\<rparr>)))))"

subsection \<open>cte.c\<close>

definition am_irq_handle ::
  "config \<Rightarrow> 'a nemu_scheme handler option \<Rightarrow> u32 \<Rightarrow> 'a nemu_scheme \<Rightarrow> (u32 \<times> 'a nemu_scheme) res" where
  "am_irq_handle c user_handler p s =
     (case user_handler of
        None \<Rightarrow> Inr (p, s)
      | Some h \<Rightarrow>
          bind_res (vaddr_read c (p + OFFSET_CAUSE c) 4 s) (\<lambda>(mcause, s1).
          bind_res
            (if mcause = 0xb then
               bind_res (vaddr_read c (p + OFFSET_EPC c) 4 s1) (\<lambda>(mepc, s2).
               bind_res (vaddr_write c (p + OFFSET_EPC c) 4 (mepc + 4) s2) (\<lambda>s3.
               Inr (EVENT_YIELD, s3)))
             else Inr (EVENT_ERROR, s1)) (\<lambda>(k, s2).
          bind_res (h \<lparr>event = k, cause = 0, ev_ref = 0, msg = 0\<rparr> p s2) (\<lambda>(q, s3).
          bind_res (assert_res Assertion (q \<noteq> NULL)) (\<lambda>_. Inr (q, s3))))))"

text \<open>\<open>cte_init\<close>: the trap vector, and the registered handler.\<close>

definition cte_init ::
  "u32 \<Rightarrow> 'a nemu_scheme handler option \<Rightarrow> 'a nemu_scheme \<Rightarrow> 'a nemu_scheme handler option \<times> 'a nemu_scheme" where
  "cte_init am_asm_trap h s = (h, csr_put mtvec am_asm_trap s)"

definition kcontext ::
  "config \<Rightarrow> Area \<Rightarrow> u32 \<Rightarrow> u32 \<Rightarrow> 'a nemu_scheme \<Rightarrow> (u32 \<times> 'a nemu_scheme) res" where
  "kcontext c kstack entry arg s =
     (let p = area_end kstack - sizeof_Context c in
      bind_res (vaddr_write c (p + OFFSET_EPC c) 4 entry s) (\<lambda>s1.
      bind_res (vaddr_write c (p + OFFSET_STATUS c) 4 0x1800 s1) (\<lambda>s2.
      bind_res (vaddr_write c (p + ctx_word 10) 4 arg s2) (\<lambda>s3.
      Inr (p, s3)))))"

definition ienabled :: bool where
  "ienabled = False"

definition iset :: "bool \<Rightarrow> 'a nemu_scheme \<Rightarrow> 'a nemu_scheme" where
  "iset enable s = s"

text \<open>\<open>yield\<close>: the event number goes to \<open>a5\<close> or \<open>a7\<close>, and \<open>ecall\<close> at address \<open>p\<close> enters the
  trap vector.\<close>

definition yield_ecall :: "config \<Rightarrow> u32 \<Rightarrow> 'a nemu_scheme \<Rightarrow> 'a nemu_scheme" where
  "yield_ecall c p s =
     (case ECALL c \<lparr>d_pc = p, d_snpc = p + 4, d_dnpc = p + 4, d_inst = 0x73\<rparr>
             (put_gpr (if CONFIG_RVE c then 15 else 17) 0xb s) of
        (d, s1) \<Rightarrow> s1\<lparr>cpu := (cpu s1)\<lparr>pc := d_dnpc d\<rparr>\<rparr>)"

text \<open>The trap vector: \<open>__am_asm_trap\<close>.\<close>

definition am_asm_trap ::
  "config \<Rightarrow> 'a nemu_scheme handler option \<Rightarrow> 'a nemu_scheme \<Rightarrow> 'a nemu_scheme res" where
  "am_asm_trap c user_handler s =
     bind_res (trap_save c s) (\<lambda>(p, s1).
     bind_res (am_irq_handle c user_handler p s1) (\<lambda>(q, s2).
     trap_restore c q s2))"

text \<open>\<open>yield\<close> with the trap it causes, when the trap vector is \<open>__am_asm_trap\<close>.\<close>

definition am_yield ::
  "config \<Rightarrow> 'a nemu_scheme handler option \<Rightarrow> u32 \<Rightarrow> 'a nemu_scheme \<Rightarrow> 'a nemu_scheme res" where
  "am_yield c user_handler p s = am_asm_trap c user_handler (yield_ecall c p s)"

end
