(* ===== verification/Am_Cte_Facts.thy ===== *)
theory Am_Cte_Facts
  imports Am_Cte Cpu_Props
begin

text \<open>
  Facts on contexts: a trap saves the registers in the context below the stack pointer and
  returning to that context brings them back; a new context starts at its entry point.
\<close>

subsection \<open>Sequences of stores\<close>

definition apart :: "u32 \<Rightarrow> u32 \<Rightarrow> bool" where
  "apart a b \<longleftrightarrow> uint b + 4 \<le> uint a \<or> uint a + 4 \<le> uint b"

context guest_memory
begin

lemma rd_kept:
  assumes "valid a 4" and "valid b 4" and "wr a 4 v s = Inr s1" and "apart a b" and "rd b 4 s = Inr (w, s)"
  shows "rd b 4 s1 = Inr (w, s1)"
proof -
  obtain w1 where "rd b 4 s1 = Inr (w1, s1)" using rd_total [OF assms(2)] by blast
  then show ?thesis using rd_wr_other [OF assms(1,2,3)] assms(4,5) by (auto simp: apart_def)
qed

lemma stores_spec:
  assumes "\<forall>av \<in> set avs. valid (fst av) 4" and "sorted_wrt (\<lambda>x y. apart (fst x) (fst y)) avs"
  shows "\<exists>s'. stores wr avs s = Inr s' \<and> (\<forall>av \<in> set avs. rd (fst av) 4 s' = Inr (snd av, s')) \<and>
    (\<forall>b w. valid b 4 \<and> (\<forall>av \<in> set avs. apart (fst av) b) \<and> rd b 4 s = Inr (w, s) \<longrightarrow> rd b 4 s' = Inr (w, s'))"
  using assms
proof (induction avs arbitrary: s)
  case (Cons av avs)
  obtain a v where av: "av = (a, v)" by fastforce
  have va: "valid a 4" using Cons.prems(1) av by simp
  obtain s1 where s1: "wr a 4 v s = Inr s1" using wr_total [OF va] by blast
  obtain s' where s': "stores wr avs s1 = Inr s'" "\<forall>av \<in> set avs. rd (fst av) 4 s' = Inr (snd av, s')"
    "\<forall>b w. valid b 4 \<and> (\<forall>av \<in> set avs. apart (fst av) b) \<and> rd b 4 s1 = Inr (w, s1) \<longrightarrow> rd b 4 s' = Inr (w, s')"
    using Cons.IH [of s1] Cons.prems by auto
  have "rd a 4 s1 = Inr (v, s1)" using rd_wr_same [OF va s1] by simp
  then have "rd a 4 s' = Inr (v, s')"
    using s'(3) va Cons.prems(2) av by (auto simp: apart_def)
  then show ?case using s' s1 av rd_kept [OF va _ s1] by auto
qed simp

end

subsection \<open>Words of guest memory\<close>

definition ld :: "config \<Rightarrow> u32 \<Rightarrow> 'a mem_scheme \<Rightarrow> u32" where
  "ld c a s = (case paddr_read c a 4 s of Inr (v, _) \<Rightarrow> v | Inl _ \<Rightarrow> 0)"

lemma paddr_read_ld: "pmem_valid c a 4 \<Longrightarrow> paddr_read c a 4 s = Inr (ld c a s, s)"
  using pm.rd_total [of c a 4 s] by (auto simp: ld_def)

lemma ld_cong:
  assumes "pmem_valid c a 4" and "pmem s' = pmem s"
  shows "ld c a s' = ld c a s"
  using paddr_read_ld [OF assms(1), of s] paddr_read_ld [OF assms(1), of s'] assms
  by (auto simp: paddr_read_pmem pmem_valid_def pmem_read_def bind_res_eq_Inr_iff)

lemma vaddr_read_ld: "pmem_valid c a 4 \<Longrightarrow> vaddr_read c a 4 s = Inr (ld c a s, s)"
  by (simp add: vaddr_read_def paddr_read_ld)

lemma stores_frame:
  assumes "stores (vaddr_write c) avs s = Inr s'" and "\<forall>av \<in> set avs. pmem_valid c (fst av) 4"
  shows "s' = s\<lparr>pmem := pmem s'\<rparr>"
  using assms
proof (induction avs arbitrary: s)
  case (Cons av avs)
  obtain a v where av: "av = (a, v)" by fastforce
  obtain s1 where s1: "vaddr_write c a 4 v s = Inr s1" "stores (vaddr_write c) avs s1 = Inr s'"
    using Cons.prems(1) av by (auto simp: bind_res_eq_Inr_iff)
  have "s1 = s\<lparr>pmem := pmem s1\<rparr>"
    using paddr_write_frame [of c a 4 v s s1] s1(1) Cons.prems(2) av by (simp add: vaddr_write_def pmem_valid_def)
  moreover have "s' = s1\<lparr>pmem := pmem s'\<rparr>" using Cons.IH [OF s1(2)] Cons.prems(2) by simp
  ultimately show ?case by (metis mem.update_convs(1) mem.surjective)
qed simp

lemma vaddr_write_eq: "vaddr_write c = paddr_write c"
  by (simp add: fun_eq_iff vaddr_write_def)

lemma stores_ld:
  assumes "\<forall>av \<in> set avs. pmem_valid c (fst av) 4" and "sorted_wrt (\<lambda>x y. apart (fst x) (fst y)) avs"
  shows "\<exists>s'. stores (vaddr_write c) avs s = Inr s' \<and> s' = s\<lparr>pmem := pmem s'\<rparr> \<and>
    (\<forall>av \<in> set avs. ld c (fst av) s' = snd av) \<and>
    (\<forall>b. pmem_valid c b 4 \<and> (\<forall>av \<in> set avs. apart (fst av) b) \<longrightarrow> ld c b s' = ld c b s)"
proof -
  obtain s' where s': "stores (paddr_write c) avs s = Inr s'"
    "\<forall>av \<in> set avs. paddr_read c (fst av) 4 s' = Inr (snd av, s')"
    "\<forall>b w. pmem_valid c b 4 \<and> (\<forall>av \<in> set avs. apart (fst av) b) \<and> paddr_read c b 4 s = Inr (w, s) \<longrightarrow>
       paddr_read c b 4 s' = Inr (w, s')"
    using pm.stores_spec [OF assms, of s] by blast
  moreover have "s' = s\<lparr>pmem := pmem s'\<rparr>"
    using stores_frame [of c avs s s'] s'(1) assms(1) by (simp add: vaddr_write_eq)
  moreover have "ld c b s' = ld c b s" if "pmem_valid c b 4" "\<forall>av \<in> set avs. apart (fst av) b" for b
    using s'(3) that paddr_read_ld [OF that(1), of s] paddr_read_ld [OF that(1), of s'] by fastforce
  moreover have "ld c (fst av) s' = snd av" if "av \<in> set avs" for av
    using s'(2) that by (simp add: ld_def)
  ultimately show ?thesis by (auto simp: vaddr_write_eq)
qed

subsection \<open>Contexts\<close>

text \<open>A place for a context: its words are guest memory and do not wrap around.\<close>

definition ctx_ok :: "config \<Rightarrow> u32 \<Rightarrow> bool" where
  "ctx_ok c p \<longleftrightarrow> uint p + 4 * int (nr_gpr c + 4) \<le> 2 ^ 32 \<and> (\<forall>k < nr_gpr c + 3. pmem_valid c (p + ctx_word k) 4)"

definition outside_ctx :: "config \<Rightarrow> u32 \<Rightarrow> u32 \<Rightarrow> bool" where
  "outside_ctx c p b \<longleftrightarrow> (\<forall>k < nr_gpr c + 3. apart (p + ctx_word k) b)"

lemma nr_gpr_range: "16 \<le> nr_gpr c" "nr_gpr c \<le> 32"
  by (simp_all add: nr_gpr_def)

lemma uint_ctx_word:
  assumes "ctx_ok c p" and "k < nr_gpr c + 4"
  shows "uint (p + ctx_word k) = uint p + 4 * int k"
proof -
  have "uint (ctx_word k) = 4 * int k"
    unfolding ctx_word_def unsigned_of_nat
    using assms(2) nr_gpr_range(2) [of c] by (simp add: take_bit_nat_eq_self)
  then show ?thesis
    using assms uint_ge_0 [of p] by (simp add: uint_plus_if_size ctx_ok_def word_size)
qed

lemma ctx_words_apart:
  assumes "ctx_ok c p" and "i < nr_gpr c + 4" and "j < nr_gpr c + 4" and "i \<noteq> j"
  shows "apart (p + ctx_word i) (p + ctx_word j)"
  using assms uint_ctx_word [OF assms(1)] by (auto simp: apart_def)

lemma REGS_iff: "n \<in> set (REGS c) \<longleftrightarrow> n < nr_gpr c \<and> n \<noteq> 0 \<and> n \<noteq> 2"
  using nr_gpr_range [of c] by (auto simp: REGS_def)

lemma distinct_REGS: "distinct (REGS c)"
  by (simp add: REGS_def)

lemma ctx_words_sorted:
  assumes "ctx_ok c p" and "distinct ns" and "\<forall>n \<in> set ns. n < nr_gpr c + 3"
  shows "sorted_wrt (\<lambda>x y. apart (fst x) (fst y)) (map (\<lambda>n. (p + ctx_word n, f n)) ns)"
  using assms(2,3) by (induction ns) (auto intro!: ctx_words_apart [OF assms(1)])

text \<open>Storing to words of a context.\<close>

lemma stores_ctx:
  assumes "ctx_ok c p" and "distinct ns" and "\<forall>n \<in> set ns. n < nr_gpr c + 3"
  shows "\<exists>s'. stores (vaddr_write c) (map (\<lambda>n. (p + ctx_word n, f n)) ns) s = Inr s' \<and> s' = s\<lparr>pmem := pmem s'\<rparr> \<and>
    (\<forall>n < nr_gpr c + 3. ld c (p + ctx_word n) s' = (if n \<in> set ns then f n else ld c (p + ctx_word n) s)) \<and>
    (\<forall>b. pmem_valid c b 4 \<and> outside_ctx c p b \<longrightarrow> ld c b s' = ld c b s)"
proof -
  have v: "\<forall>av \<in> set (map (\<lambda>n. (p + ctx_word n, f n)) ns). pmem_valid c (fst av) 4"
    using assms(1,3) by (auto simp: ctx_ok_def)
  obtain s' where s': "stores (vaddr_write c) (map (\<lambda>n. (p + ctx_word n, f n)) ns) s = Inr s'" "s' = s\<lparr>pmem := pmem s'\<rparr>"
    "\<forall>n \<in> set ns. ld c (p + ctx_word n) s' = f n"
    "\<forall>b. pmem_valid c b 4 \<and> (\<forall>n \<in> set ns. apart (p + ctx_word n) b) \<longrightarrow> ld c b s' = ld c b s"
    using stores_ld [OF v ctx_words_sorted [OF assms], of s] by auto
  moreover have "ld c (p + ctx_word n) s' = ld c (p + ctx_word n) s" if "n < nr_gpr c + 3" "n \<notin> set ns" for n
    using that assms by (intro s'(4) [rule_format]) (auto simp: ctx_ok_def intro!: ctx_words_apart [OF assms(1)])
  moreover have "ld c b s' = ld c b s" if "pmem_valid c b 4" "outside_ctx c p b" for b
    using that assms(3) by (intro s'(4) [rule_format]) (auto simp: outside_ctx_def)
  ultimately show ?thesis by auto
qed

lemma get_put_gpr:
  "n < length (gpr (cpu s)) \<Longrightarrow> get_gpr m (put_gpr n v s) = (if m = n then v else get_gpr m s)"
  by (simp add: get_gpr_def put_gpr_def)

lemma put_gpr_fields [simp]:
  "csr (cpu (put_gpr n v s)) = csr (cpu s)" "length (gpr (cpu (put_gpr n v s))) = length (gpr (cpu s))"
  "pmem (put_gpr n v s) = pmem s" "pc (cpu (put_gpr n v s)) = pc (cpu s)"
  by (simp_all add: put_gpr_def)

lemma csr_put_fields [simp]:
  "gpr (cpu (csr_put i v s)) = gpr (cpu s)" "csr (cpu (csr_put i v s)) = (csr (cpu s))[i := v]"
  "pmem (csr_put i v s) = pmem s" "pc (cpu (csr_put i v s)) = pc (cpu s)"
  by (simp_all add: csr_put_def)

lemma get_gpr_csr_put [simp]: "get_gpr n (csr_put i v s) = get_gpr n s"
  by (simp add: get_gpr_def)

lemma get_gpr_pmem [simp]: "get_gpr n (s\<lparr>pmem := m\<rparr>) = get_gpr n s"
  by (simp add: get_gpr_def)

text \<open>States that differ in the processor and in guest memory only.\<close>

definition same_rest :: "'a nemu_scheme \<Rightarrow> 'a nemu_scheme \<Rightarrow> bool" where
  "same_rest s s' \<longleftrightarrow> s' = s\<lparr>pmem := pmem s', cpu := cpu s'\<rparr>"

lemma same_restI:
  "same_rest s s" "same_rest s s' \<Longrightarrow> same_rest s (put_gpr n v s')" "same_rest s s' \<Longrightarrow> same_rest s (csr_put i v s')"
  "same_rest s s' \<Longrightarrow> same_rest s (s'\<lparr>cpu := x\<rparr>)"
  "same_rest s s' \<Longrightarrow> s2 = s'\<lparr>pmem := pmem s2\<rparr> \<Longrightarrow> same_rest s s2"
  unfolding same_rest_def put_gpr_def csr_put_def by ((cases s; cases s'; cases s2; simp)+)

lemma wf_lengths:
  assumes "cpu_wf c (cpu s)"
  shows "length (gpr (cpu s)) = nr_gpr c" "length (csr (cpu s)) = 4" "gpr (cpu s) ! 0 = 0"
  using assms by (simp_all add: cpu_wf_def cpu_shape_def csr_num_def)

lemmas ctx_offsets = OFFSET_CAUSE_def OFFSET_STATUS_def OFFSET_EPC_def

text \<open>What the two groups of stores leave: the saved words, and the rest of memory as it was.\<close>

definition ctx_kept :: "config \<Rightarrow> u32 \<Rightarrow> nat set \<Rightarrow> 'a nemu_scheme \<Rightarrow> 'a nemu_scheme \<Rightarrow> bool" where
  "ctx_kept c p N s s' \<longleftrightarrow>
     (\<forall>n < nr_gpr c + 3. n \<notin> N \<longrightarrow> ld c (p + ctx_word n) s' = ld c (p + ctx_word n) s) \<and>
     (\<forall>b. pmem_valid c b 4 \<and> outside_ctx c p b \<longrightarrow> ld c b s' = ld c b s)"

lemma push_regs_spec:
  assumes "ctx_ok c p" and "get_gpr 2 s = p"
  shows "\<exists>s'. push_regs c s = Inr s' \<and> s' = s\<lparr>pmem := pmem s'\<rparr> \<and> ctx_kept c p (set (REGS c)) s s' \<and>
    (\<forall>n \<in> set (REGS c). ld c (p + ctx_word n) s' = get_gpr n s)"
proof -
  have "\<forall>n \<in> set (REGS c). n < nr_gpr c + 3" by (simp add: REGS_iff)
  from stores_ctx [OF assms(1) distinct_REGS this, where f = "\<lambda>n. get_gpr n s" and s = s]
  obtain s' where "push_regs c s = Inr s'" "s' = s\<lparr>pmem := pmem s'\<rparr>"
    "\<forall>n < nr_gpr c + 3. ld c (p + ctx_word n) s' = (if n \<in> set (REGS c) then get_gpr n s else ld c (p + ctx_word n) s)"
    "\<forall>b. pmem_valid c b 4 \<and> outside_ctx c p b \<longrightarrow> ld c b s' = ld c b s"
    unfolding push_regs_def assms(2) by blast
  then show ?thesis by (intro exI [of _ s'] conjI) (simp_all add: ctx_kept_def REGS_iff)
qed

lemma push_csrs_spec:
  assumes "ctx_ok c p" and "get_gpr 2 s = p" and "length (gpr (cpu s)) = nr_gpr c"
  shows "\<exists>s'. push_csrs c s = Inr s' \<and> same_rest s s' \<and> ctx_kept c p {nr_gpr c..} s s' \<and>
    length (gpr (cpu s')) = nr_gpr c \<and> csr (cpu s') = csr (cpu s) \<and>
    get_gpr 2 s' = p \<and> get_gpr 0 s' = get_gpr 0 s \<and>
    ld c (p + OFFSET_CAUSE c) s' = csr (cpu s) ! mcause \<and> ld c (p + OFFSET_STATUS c) s' = csr (cpu s) ! mstatus \<and>
    ld c (p + OFFSET_EPC c) s' = csr (cpu s) ! mepc"
proof -
  let ?nr = "nr_gpr c" and ?csr = "csr (cpu s)"
  let ?f = "\<lambda>n. if n = ?nr then ?csr ! mcause else if n = ?nr + 1 then ?csr ! mstatus else ?csr ! mepc"
  define t where "t = put_gpr 7 (?csr ! mepc) (put_gpr 6 (?csr ! mstatus) (put_gpr 5 (?csr ! mcause) s))"
  have t: "get_gpr 2 t = p" "get_gpr 0 t = get_gpr 0 s" "get_gpr 5 t = ?csr ! mcause" "get_gpr 6 t = ?csr ! mstatus"
    "get_gpr 7 t = ?csr ! mepc" "pmem t = pmem s" "length (gpr (cpu t)) = ?nr" "csr (cpu t) = ?csr" "same_rest s t"
    using assms(2,3) nr_gpr_range(1) [of c] by (simp_all add: t_def get_put_gpr same_restI)
  obtain s' where s': "stores (vaddr_write c) (map (\<lambda>n. (p + ctx_word n, ?f n)) [?nr, ?nr + 1, ?nr + 2]) t = Inr s'"
    "s' = t\<lparr>pmem := pmem s'\<rparr>"
    "\<forall>n < ?nr + 3. ld c (p + ctx_word n) s' = (if n \<in> set [?nr, ?nr + 1, ?nr + 2] then ?f n else ld c (p + ctx_word n) t)"
    "\<forall>b. pmem_valid c b 4 \<and> outside_ctx c p b \<longrightarrow> ld c b s' = ld c b t"
    using stores_ctx [OF assms(1), where ns = "[?nr, ?nr + 1, ?nr + 2]" and f = ?f and s = t] by auto
  have "push_csrs c s = Inr s'"
    using s'(1) t by (simp add: push_csrs_def ctx_offsets Let_def flip: t_def)
  moreover have "ld c b t = ld c b s" if "pmem_valid c b 4" for b using ld_cong [OF that] t(6) by blast
  then have "ctx_kept c p {?nr..} s s'"
    using s'(3,4) assms(1) by (auto simp: ctx_kept_def ctx_ok_def)
  moreover have "cpu s' = cpu t" by (subst s'(2)) simp
  ultimately show ?thesis
    using s'(3) t same_restI(5) [OF t(9) s'(2)] by (intro exI [of _ s']) (simp add: ctx_offsets get_gpr_def)
qed

lemma ctx_word_valid: "ctx_ok c p \<Longrightarrow> k < nr_gpr c + 3 \<Longrightarrow> pmem_valid c (p + ctx_word k) 4"
  by (simp add: ctx_ok_def)

lemma same_rest_trans: "same_rest s s1 \<Longrightarrow> same_rest s1 s2 \<Longrightarrow> same_rest s s2"
  unfolding same_rest_def by (cases s; cases s1; cases s2; simp)

lemma get_set_mprv [simp]:
  assumes "10 < length (gpr (cpu s))"
  shows "get_gpr n (set_mprv s) = (if n = 6 then get_gpr 6 s OR push_bit 17 1 else if n = 10 then push_bit 17 1 else get_gpr n s)"
    "pmem (set_mprv s) = pmem s" "length (gpr (cpu (set_mprv s))) = length (gpr (cpu s))"
    "length (csr (cpu (set_mprv s))) = length (csr (cpu s))"
  using assms by (simp_all add: set_mprv_def Let_def get_put_gpr)

lemma trap_save_spec:
  assumes "cpu_wf c (cpu s)" and "ctx_ok c p" and "p = get_gpr 2 s - CONTEXT_SIZE c"
  shows "\<exists>s'. trap_save c s = Inr (p, s') \<and> same_rest s s' \<and> cpu_wf c (cpu s') \<and>
    (\<forall>n \<in> set (REGS c). ld c (p + ctx_word n) s' = get_gpr n s) \<and>
    ld c (p + OFFSET_CAUSE c) s' = csr (cpu s) ! mcause \<and> ld c (p + OFFSET_STATUS c) s' = csr (cpu s) ! mstatus \<and>
    ld c (p + OFFSET_EPC c) s' = csr (cpu s) ! mepc \<and>
    (\<forall>b. pmem_valid c b 4 \<and> outside_ctx c p b \<longrightarrow> ld c b s' = ld c b s)"
proof -
  note len = wf_lengths [OF assms(1)] nr_gpr_range [of c]
  define t where "t = put_gpr 2 p s"
  have t: "get_gpr n t = (if n = 2 then p else get_gpr n s)" for n
    using len by (simp add: t_def get_put_gpr)
  obtain s1 where s1: "push_regs c t = Inr s1" "s1 = t\<lparr>pmem := pmem s1\<rparr>" "ctx_kept c p (set (REGS c)) t s1"
      "\<forall>n \<in> set (REGS c). ld c (p + ctx_word n) s1 = get_gpr n t"
    using push_regs_spec [OF assms(2), of t] t [of 2] by auto
  have cpu1: "cpu s1 = cpu t" by (subst s1(2)) simp
  have "get_gpr 2 s1 = p" "length (gpr (cpu s1)) = nr_gpr c"
    using t [of 2] len by (simp_all add: get_gpr_def cpu1 t_def)
  from push_csrs_spec [OF assms(2) this] obtain s2 where
    s2: "push_csrs c s1 = Inr s2" "same_rest s1 s2" "ctx_kept c p {nr_gpr c..} s1 s2"
      "length (gpr (cpu s2)) = nr_gpr c" "csr (cpu s2) = csr (cpu s1)" "get_gpr 2 s2 = p" "get_gpr 0 s2 = get_gpr 0 s1"
      "ld c (p + OFFSET_CAUSE c) s2 = csr (cpu s1) ! mcause" "ld c (p + OFFSET_STATUS c) s2 = csr (cpu s1) ! mstatus"
      "ld c (p + OFFSET_EPC c) s2 = csr (cpu s1) ! mepc" by blast
  define s' where "s' = put_gpr 10 p (set_mprv s2)"
  have l2: "10 < length (gpr (cpu s2))" using s2(4) len by simp
  have "trap_save c s = Inr (p, s')"
    using s1(1) s2(1,6) l2
    by (simp add: trap_save_def assms(3) [symmetric] t_def [symmetric] s'_def Let_def get_put_gpr)
  moreover have "same_rest s s'"
    unfolding s'_def set_mprv_def Let_def
    by (intro same_restI(2,3) same_rest_trans [OF _ s2(2)] same_restI(5) [OF _ s1(2)]) (simp add: t_def same_restI)
  moreover have "cpu_wf c (cpu s')"
    using l2 s2(4,5,7) len t [of 0] by (simp add: cpu_wf_def cpu_shape_def csr_num_def s'_def get_put_gpr cpu1 t_def
        flip: get_gpr_def) (simp add: get_gpr_def cpu1 t_def put_gpr_def)
  moreover have ld': "ld c b s' = ld c b s2" "ld c b t = ld c b s" if "pmem_valid c b 4" for b
    using l2 ld_cong [OF that, of s' s2] ld_cong [OF that, of t s] by (simp_all add: s'_def t_def)
  moreover have "ld c (p + ctx_word n) s' = get_gpr n s" if "n \<in> set (REGS c)" for n
    using that ld'(1) [OF ctx_word_valid [OF assms(2)], of n] s2(3) s1(4) t [of n] by (simp add: ctx_kept_def REGS_iff)
  moreover have "ld c b s' = ld c b s" if "pmem_valid c b 4" "outside_ctx c p b" for b
    using ld' [OF that(1)] s2(3) s1(3) that by (simp add: ctx_kept_def)
  ultimately show ?thesis
    using s2(8,9,10) ld'(1) [OF ctx_word_valid [OF assms(2)]] by (simp add: ctx_offsets cpu1 t_def)
qed


lemma pop_regs_spec:
  assumes "\<forall>n \<in> set ns. n < length (gpr (cpu s)) \<and> n \<noteq> 2 \<and> pmem_valid c (get_gpr 2 s + ctx_word n) 4"
  shows "\<exists>s'. pop_regs c ns s = Inr s' \<and> s' = s\<lparr>cpu := cpu s'\<rparr> \<and> csr (cpu s') = csr (cpu s) \<and> pc (cpu s') = pc (cpu s) \<and>
    length (gpr (cpu s')) = length (gpr (cpu s)) \<and>
    (\<forall>m. get_gpr m s' = (if m \<in> set ns then ld c (get_gpr 2 s + ctx_word m) s else get_gpr m s))"
  using assms
proof (induction ns arbitrary: s)
  case (Cons n ns)
  define t where "t = put_gpr n (ld c (get_gpr 2 s + ctx_word n) s) s"
  have t: "get_gpr m t = (if m = n then ld c (get_gpr 2 s + ctx_word n) s else get_gpr m s)" for m
    using Cons.prems by (simp add: t_def get_put_gpr)
  have l: "length (gpr (cpu t)) = length (gpr (cpu s))" "csr (cpu t) = csr (cpu s)" "pc (cpu t) = pc (cpu s)" "pmem t = pmem s"
    by (simp_all add: t_def)
  have v: "pmem_valid c (get_gpr 2 s + ctx_word m) 4" if "m \<in> set (n # ns)" for m using Cons.prems that by auto
  obtain s' where s': "pop_regs c ns t = Inr s'" "s' = t\<lparr>cpu := cpu s'\<rparr>" "csr (cpu s') = csr (cpu t)" "pc (cpu s') = pc (cpu t)"
    "length (gpr (cpu s')) = length (gpr (cpu t))"
    "\<forall>m. get_gpr m s' = (if m \<in> set ns then ld c (get_gpr 2 t + ctx_word m) t else get_gpr m t)"
    using Cons.IH [of t] Cons.prems l(1) t [of 2] by auto
  have "ld c (get_gpr 2 s + ctx_word m) t = ld c (get_gpr 2 s + ctx_word m) s" if "m \<in> set (n # ns)" for m
    using ld_cong [OF v [OF that] l(4)] .
  moreover have "pop_regs c (n # ns) s = Inr s'" using s'(1) vaddr_read_ld [OF v [of n], of s] by (simp add: t_def)
  moreover have "s' = s\<lparr>cpu := cpu s'\<rparr>" by (subst s'(2)) (simp add: t_def put_gpr_def)
  moreover have "get_gpr 2 t = get_gpr 2 s" using t [of 2] Cons.prems by simp
  ultimately show ?case using s' t l by (intro exI [of _ s']) auto
qed simp

lemma trap_restore_spec:
  assumes "cpu_wf c (cpu s)" and "ctx_ok c q"
  shows "\<exists>s'. trap_restore c q s = Inr s' \<and> s' = s\<lparr>cpu := cpu s'\<rparr> \<and> length (gpr (cpu s')) = nr_gpr c \<and>
    (\<forall>n \<in> set (REGS c). get_gpr n s' = ld c (q + ctx_word n) s) \<and> get_gpr 2 s' = q + CONTEXT_SIZE c \<and>
    get_gpr 0 s' = 0 \<and> pc (cpu s') = ld c (q + OFFSET_EPC c) s"
proof -
  note len = wf_lengths [OF assms(1)] nr_gpr_range [of c]
  let ?status = "ld c (q + OFFSET_STATUS c) s" and ?epc = "ld c (q + OFFSET_EPC c) s"
  define s1 where "s1 = put_gpr 2 q (put_gpr 10 q s)"
  define s5 where "s5 = csr_put mepc ?epc (csr_put mstatus ?status (put_gpr 7 ?epc (put_gpr 6 ?status s1)))"
  have v: "pmem_valid c (q + OFFSET_STATUS c) 4" "pmem_valid c (q + OFFSET_EPC c) 4"
    using ctx_word_valid [OF assms(2)] by (simp_all add: ctx_offsets)
  have lds: "ld c a (put_gpr n v s1) = ld c a s" "ld c a s1 = ld c a s" "ld c a s5 = ld c a s" if "pmem_valid c a 4" for a n v
    by (rule ld_cong [OF that]; simp add: s1_def s5_def)+
  have g: "get_gpr 2 s1 = q" "get_gpr 2 s5 = q" "get_gpr 0 s5 = 0" "length (gpr (cpu s5)) = nr_gpr c"
    "csr (cpu s5) = (csr (cpu s))[mstatus := ?status, mepc := ?epc]" "length (gpr (cpu s1)) = nr_gpr c"
    using len by (simp_all add: s1_def s5_def get_put_gpr) (simp add: get_gpr_def)
  obtain s6 where s6: "pop_regs c (REGS c) s5 = Inr s6" "s6 = s5\<lparr>cpu := cpu s6\<rparr>" "csr (cpu s6) = csr (cpu s5)"
    "length (gpr (cpu s6)) = nr_gpr c"
    "\<forall>m. get_gpr m s6 = (if m \<in> set (REGS c) then ld c (q + ctx_word m) s5 else get_gpr m s5)"
    using pop_regs_spec [of "REGS c" s5 c] g ctx_word_valid [OF assms(2)] by (auto simp: REGS_iff)
  define s7 where "s7 = csr_put mstatus 0x80 (put_gpr 2 (q + CONTEXT_SIZE c) s6)"
  define s' where "s' = s7\<lparr>cpu := (cpu s7)\<lparr>pc := ?epc\<rparr>\<rparr>"
  have e: "csr (cpu s6) ! mepc = ?epc" "get_gpr 2 s6 = q"
    using s6(3,5) g len by (simp_all add: mepc_def mstatus_def REGS_iff)
  have "trap_restore c q s = Inr s'"
    unfolding trap_restore_def Let_def s1_def [symmetric]
    using g(1) v lds(1,2) s6(1) [unfolded s5_def mepc_def mstatus_def] e len g(6)
    by (simp add: vaddr_read_ld get_put_gpr MRET_def Let_def s'_def s7_def mepc_def mstatus_def)
  moreover have "s' = s\<lparr>cpu := cpu s'\<rparr>"
    unfolding s'_def s7_def put_gpr_def csr_put_def
    by (subst s6(2)) (simp add: s5_def s1_def put_gpr_def csr_put_def)
  moreover have "get_gpr m s' = (if m = 2 then q + CONTEXT_SIZE c else get_gpr m s6)" for m
    using s6(4) len by (simp add: s'_def s7_def get_gpr_def put_gpr_def csr_put_def)
  moreover have "ld c (q + ctx_word n) s5 = ld c (q + ctx_word n) s" if "n \<in> set (REGS c)" for n
    using lds(3) ctx_word_valid [OF assms(2), of n] that by (simp add: REGS_iff)
  ultimately show ?thesis
    using s6(4,5) g(3) by (intro exI [of _ s']) (auto simp: REGS_iff s'_def s7_def)
qed


lemma yield_ecall_spec:
  assumes "cpu_wf c (cpu s)"
  shows "cpu_wf c (cpu (yield_ecall c a s)) \<and> pmem (yield_ecall c a s) = pmem s \<and> same_rest s (yield_ecall c a s) \<and>
    gpr (cpu (yield_ecall c a s)) = (gpr (cpu s))[(if CONFIG_RVE c then 15 else 17) := 0xb] \<and>
    csr (cpu (yield_ecall c a s)) = (csr (cpu s))[mcause := 0xb, mepc := a, mstatus := 0x1800] \<and>
    pc (cpu (yield_ecall c a s)) = csr (cpu s) ! mtvec"
proof -
  define k :: nat where "k = (if CONFIG_RVE c then 15 else 17)"
  note len = wf_lengths [OF assms]
  have k: "k < length (gpr (cpu s))" "0 < k" "k < 32" "regs ! k = (if CONFIG_RVE c then ''a5'' else ''a7'')"
    using len by (simp_all add: k_def nr_gpr_def regs_def)
  have "find_reg (regs ! k) regs (gpr (cpu (put_gpr k 0xb s))) = Some (gpr (cpu (put_gpr k 0xb s)) ! k)"
    by (rule find_reg_nth) (use k in \<open>simp_all add: regs_def\<close>)
  then have "fst (isa_reg_str2val (if CONFIG_RVE c then ''a5'' else ''a7'') (put_gpr k 0xb s)) = 0xb"
    using k by (simp add: isa_reg_str2val_def put_gpr_def split: if_splits)
  then show ?thesis
    using len assms k(1,2)
    by (simp add: yield_ecall_def k_def [symmetric] ECALL_def isa_raise_intr_def Let_def same_restI cpu_wf_def cpu_shape_def
        mtvec_def mcause_def mepc_def mstatus_def) (simp add: put_gpr_def)
qed

text \<open>What the handler finds: the registers at the \<open>ecall\<close> and the address after it.\<close>

lemma yield_calls_handler:
  assumes "cpu_wf c (cpu s)" and "p = gpr (cpu s) ! 2 - CONTEXT_SIZE c" and "ctx_ok c p"
  shows "\<exists>s2. (\<forall>h. am_yield c (Some h) a s =
      bind_res (h \<lparr>event = EVENT_YIELD, cause = 0, ev_ref = 0, msg = 0\<rparr> p s2) (\<lambda>(q, s3).
      bind_res (assert_res Assertion (q \<noteq> NULL)) (\<lambda>_. trap_restore c q s3))) \<and>
    (\<forall>b. pmem_valid c b 4 \<and> outside_ctx c p b \<longrightarrow> ld c b s2 = ld c b s) \<and>
    (\<forall>n \<in> set (REGS c). ld c (p + ctx_word n) s2 = (gpr (cpu s))[(if CONFIG_RVE c then 15 else 17) := 0xb] ! n) \<and>
    ld c (p + OFFSET_EPC c) s2 = a + 4"
proof -
  define y where "y = yield_ecall c a s"
  let ?g = "(gpr (cpu s))[(if CONFIG_RVE c then 15 else 17) := 0xb]"
  note len = wf_lengths [OF assms(1)] nr_gpr_range [of c]
  note y = yield_ecall_spec [OF assms(1), of a, folded y_def]
  have "p = get_gpr 2 y - CONTEXT_SIZE c" using y assms(2) by (simp add: get_gpr_def)
  with trap_save_spec [of c y p] y assms(3) obtain s1 where
    s1: "trap_save c y = Inr (p, s1)" "\<forall>n \<in> set (REGS c). ld c (p + ctx_word n) s1 = ?g ! n"
      "ld c (p + OFFSET_CAUSE c) s1 = 0xb" "ld c (p + OFFSET_EPC c) s1 = a"
      "\<forall>b. pmem_valid c b 4 \<and> outside_ctx c p b \<longrightarrow> ld c b s1 = ld c b y"
    using len by (auto simp: get_gpr_def mcause_def mepc_def mstatus_def)
  let ?e = "nr_gpr c + 2"
  obtain s2 where s2: "vaddr_write c (p + OFFSET_EPC c) 4 (a + 4) s1 = Inr s2"
    "\<forall>n < nr_gpr c + 3. ld c (p + ctx_word n) s2 = (if n = ?e then a + 4 else ld c (p + ctx_word n) s1)"
    "\<forall>b. pmem_valid c b 4 \<and> outside_ctx c p b \<longrightarrow> ld c b s2 = ld c b s1"
    using stores_ctx [OF assms(3), where ns = "[?e]" and f = "\<lambda>_. a + 4" and s = s1]
    by (auto simp: OFFSET_EPC_def bind_res_eq_Inr_iff)
  have v: "pmem_valid c (p + OFFSET_CAUSE c) 4" "pmem_valid c (p + OFFSET_EPC c) 4"
    using ctx_word_valid [OF assms(3)] by (simp_all add: ctx_offsets)
  have "am_yield c (Some h) a s = bind_res (h \<lparr>event = EVENT_YIELD, cause = 0, ev_ref = 0, msg = 0\<rparr> p s2) (\<lambda>(q, s3).
      bind_res (assert_res Assertion (q \<noteq> NULL)) (\<lambda>_. trap_restore c q s3))" for h
    using s1(1,3,4) s2(1) v by (simp add: am_yield_def am_asm_trap_def am_irq_handle_def y_def vaddr_read_ld bind_res_assoc
        case_prod_beta')
  moreover have "ld c b s2 = ld c b s" if "pmem_valid c b 4" "outside_ctx c p b" for b
    using s2(3) s1(5) that ld_cong [OF that(1), of y s] y by auto
  ultimately show ?thesis using s1(2) s2(2) by (intro exI [of _ s2]) (simp add: REGS_iff OFFSET_EPC_def)
qed

text \<open>C32: yielding.  A \<open>yield\<close> at address \<open>a\<close> calls the registered handler with a yield event
  and a context \<open>p\<close> below the stack pointer, and continues with the context the handler
  returns.  The context holds the thread: in any later state in which its words are unchanged,
  returning to it gives back all registers as they were at the \<open>ecall\<close>, the stack pointer
  included, and continues after the \<open>ecall\<close>.  No other word of memory has changed when the
  handler is called.\<close>

theorem yield_resumes:
  assumes "cpu_wf c (cpu s)" and "p = gpr (cpu s) ! 2 - CONTEXT_SIZE c" and "ctx_ok c p"
  shows "\<exists>s2. (\<forall>h. am_yield c (Some h) a s =
      bind_res (h \<lparr>event = EVENT_YIELD, cause = 0, ev_ref = 0, msg = 0\<rparr> p s2) (\<lambda>(q, s3).
      bind_res (assert_res Assertion (q \<noteq> NULL)) (\<lambda>_. trap_restore c q s3))) \<and>
    (\<forall>b. pmem_valid c b 4 \<and> outside_ctx c p b \<longrightarrow> ld c b s2 = ld c b s) \<and>
    (\<forall>t. cpu_wf c (cpu t) \<and> (\<forall>k < nr_gpr c + 3. k \<noteq> 2 \<longrightarrow> ld c (p + ctx_word k) t = ld c (p + ctx_word k) s2) \<longrightarrow>
      (\<exists>t'. trap_restore c p t = Inr t' \<and> t' = t\<lparr>cpu := cpu t'\<rparr> \<and> pc (cpu t') = a + 4 \<and>
        gpr (cpu t') = (gpr (cpu s))[(if CONFIG_RVE c then 15 else 17) := 0xb]))"
proof -
  let ?g = "(gpr (cpu s))[(if CONFIG_RVE c then 15 else 17) := 0xb]"
  note len = wf_lengths [OF assms(1)]
  obtain s2 where s2: "\<forall>h. am_yield c (Some h) a s =
      bind_res (h \<lparr>event = EVENT_YIELD, cause = 0, ev_ref = 0, msg = 0\<rparr> p s2) (\<lambda>(q, s3).
      bind_res (assert_res Assertion (q \<noteq> NULL)) (\<lambda>_. trap_restore c q s3))"
    "\<forall>b. pmem_valid c b 4 \<and> outside_ctx c p b \<longrightarrow> ld c b s2 = ld c b s"
    "\<forall>n \<in> set (REGS c). ld c (p + ctx_word n) s2 = ?g ! n" "ld c (p + OFFSET_EPC c) s2 = a + 4"
    using yield_calls_handler [OF assms, of a] by auto
  have "\<exists>t'. trap_restore c p t = Inr t' \<and> t' = t\<lparr>cpu := cpu t'\<rparr> \<and> pc (cpu t') = a + 4 \<and> gpr (cpu t') = ?g"
    if t: "cpu_wf c (cpu t)" "\<forall>k < nr_gpr c + 3. k \<noteq> 2 \<longrightarrow> ld c (p + ctx_word k) t = ld c (p + ctx_word k) s2" for t
  proof -
    obtain t' where t': "trap_restore c p t = Inr t'" "t' = t\<lparr>cpu := cpu t'\<rparr>" "length (gpr (cpu t')) = nr_gpr c"
      "\<forall>n \<in> set (REGS c). get_gpr n t' = ld c (p + ctx_word n) t" "get_gpr 2 t' = p + CONTEXT_SIZE c" "get_gpr 0 t' = 0"
      "pc (cpu t') = ld c (p + OFFSET_EPC c) t"
      using trap_restore_spec [OF t(1) assms(3)] by blast
    have "get_gpr n t' = ?g ! n" if "n < nr_gpr c" for n
      using t'(4,5,6) s2(3) t(2) that len assms(2) by (cases "n = 0 \<or> n = 2") (auto simp: REGS_iff)
    then have "gpr (cpu t') = ?g" using t'(3) len by (intro nth_equalityI) (simp_all add: get_gpr_def)
    moreover have "pc (cpu t') = a + 4" using t'(7) t(2) s2(4) nr_gpr_range(1) [of c] by (simp add: OFFSET_EPC_def)
    ultimately show ?thesis using t'(1,2) by blast
  qed
  then show ?thesis using s2(1,2) by (intro exI [of _ s2]) blast
qed

text \<open>C33: new threads.  \<open>kcontext\<close> makes a context at the end of the stack, changing nothing outside it.
  When a trap returns to it, in any state that still has its words, the
  processor continues at the entry point with the argument in \<open>a0\<close> and the stack pointer one
  word below the end of the stack.\<close>

theorem kcontext_starts:
  assumes "p = area_end kstack - sizeof_Context c" and "ctx_ok c p"
  shows "\<exists>s1. kcontext c kstack entry arg s = Inr (p, s1) \<and> s1 = s\<lparr>pmem := pmem s1\<rparr> \<and>
    (\<forall>b. pmem_valid c b 4 \<and> outside_ctx c p b \<longrightarrow> ld c b s1 = ld c b s) \<and>
    (\<forall>t. cpu_wf c (cpu t) \<and> (\<forall>k < nr_gpr c + 3. ld c (p + ctx_word k) t = ld c (p + ctx_word k) s1) \<longrightarrow>
      (\<exists>t'. trap_restore c p t = Inr t' \<and> t' = t\<lparr>cpu := cpu t'\<rparr> \<and> pc (cpu t') = entry \<and>
        gpr (cpu t') ! 10 = arg \<and> gpr (cpu t') ! 2 = area_end kstack - 4))"
proof -
  let ?nr = "nr_gpr c"
  let ?f = "\<lambda>n. if n = ?nr + 2 then entry else if n = ?nr + 1 then 0x1800 else arg"
  have nr: "10 < ?nr" using nr_gpr_range(1) [of c] by simp
  obtain s1 where s1: "stores (vaddr_write c) (map (\<lambda>n. (p + ctx_word n, ?f n)) [?nr + 2, ?nr + 1, 10]) s = Inr s1"
    "s1 = s\<lparr>pmem := pmem s1\<rparr>"
    "\<forall>n < ?nr + 3. ld c (p + ctx_word n) s1 = (if n \<in> set [?nr + 2, ?nr + 1, 10] then ?f n else ld c (p + ctx_word n) s)"
    "\<forall>b. pmem_valid c b 4 \<and> outside_ctx c p b \<longrightarrow> ld c b s1 = ld c b s"
    using stores_ctx [OF assms(2), where ns = "[?nr + 2, ?nr + 1, 10]" and f = ?f and s = s] nr by auto
  have "kcontext c kstack entry arg s = Inr (p, s1)"
    using s1(1) nr by (auto simp: kcontext_def Let_def assms(1) [symmetric] ctx_offsets bind_res_eq_Inr_iff)
  moreover have "\<exists>t'. trap_restore c p t = Inr t' \<and> t' = t\<lparr>cpu := cpu t'\<rparr> \<and> pc (cpu t') = entry \<and>
      gpr (cpu t') ! 10 = arg \<and> gpr (cpu t') ! 2 = area_end kstack - 4"
    if t: "cpu_wf c (cpu t)" "\<forall>k < ?nr + 3. ld c (p + ctx_word k) t = ld c (p + ctx_word k) s1" for t
  proof -
    have "p + CONTEXT_SIZE c = area_end kstack - 4"
      by (simp add: assms(1) CONTEXT_SIZE_def sizeof_Context_def ctx_word_def algebra_simps)
    then show ?thesis
      using trap_restore_spec [OF t(1) assms(2)] t(2) s1(3) nr by (auto simp: REGS_iff OFFSET_EPC_def get_gpr_def)
  qed
  ultimately show ?thesis using s1(2,4) by (intro exI [of _ s1]) blast
qed

lemma ctx_okI:
  assumes "pmem_fits c" and "4 dvd uint p" and "4 dvd uint (CONFIG_MBASE c)" and "4 dvd uint (CONFIG_MSIZE c)"
    and "uint (CONFIG_MBASE c) \<le> uint p" and "uint p + 4 * int (nr_gpr c + 3) \<le> uint (CONFIG_MBASE c) + uint (CONFIG_MSIZE c)"
    and "uint p + 4 * int (nr_gpr c + 4) \<le> 2 ^ 32"
  shows "ctx_ok c p"
proof -
  have "pmem_valid c (p + ctx_word k) 4" if "k < nr_gpr c + 3" for k
  proof -
    have "uint (ctx_word k) = 4 * int k"
      unfolding ctx_word_def unsigned_of_nat
      using that nr_gpr_range(2) [of c] by (simp add: take_bit_nat_eq_self)
    then have u: "uint (p + ctx_word k) = uint p + 4 * int k"
      using that assms(7) uint_ge_0 [of p] by (simp add: uint_plus_if_size word_size)
    then have "in_pmem c (p + ctx_word k)"
      using assms(1,5,6) that in_pmem_iff [OF assms(1), of "p + ctx_word k"] by (simp add: guest_to_host_def)
    then show ?thesis using assms(1-4) u by (intro pmem_valid_aligned) (simp_all add: access_len_def)
  qed
  then show ?thesis using assms(7) by (simp add: ctx_ok_def)
qed


definition thread_state :: nemu where
  "thread_state = power_on\<lparr>cpu := \<lparr>gpr = (replicate 32 7)[0 := 0, 2 := 0x80001000], pc = 0x80000000, csr = replicate 4 0\<rparr>\<rparr>"

lemma thread_state_wf: "cpu_wf default_config (cpu thread_state)" "gpr (cpu thread_state) ! 2 = 0x80001000"
  by (simp_all add: thread_state_def cpu_wf_def cpu_shape_def nr_gpr_def csr_num_def)

lemma ctx_sizes: "CONTEXT_SIZE default_config = 140" "sizeof_Context default_config = 144"
  by (simp_all add: CONTEXT_SIZE_def sizeof_Context_def ctx_word_def nr_gpr_def)

lemma ctx_ok_example: "ctx_ok default_config 0x80000f74" "ctx_ok default_config 0x80000f70"
  by (rule ctx_okI; simp add: pmem_fits_def nr_gpr_def)+

text \<open>A thread that yields to itself goes on after the \<open>ecall\<close> with its registers.\<close>

theorem yield_resumes_witness:
  "\<exists>t. am_yield default_config (Some (\<lambda>ev p s. Inr (p, thread_state\<lparr>pmem := pmem s\<rparr>))) 0x80000000 thread_state = Inr t \<and>
     pc (cpu t) = 0x80000004 \<and> gpr (cpu t) ! 2 = 0x80001000"
proof -
  let ?c = default_config and ?p = "0x80000f74 :: u32"
  have p: "?p = gpr (cpu thread_state) ! 2 - CONTEXT_SIZE ?c" by (simp add: thread_state_wf ctx_sizes)
  obtain s2 where s2: "\<forall>h. am_yield ?c (Some h) 0x80000000 thread_state =
      bind_res (h \<lparr>event = EVENT_YIELD, cause = 0, ev_ref = 0, msg = 0\<rparr> ?p s2) (\<lambda>(q, s3).
      bind_res (assert_res Assertion (q \<noteq> NULL)) (\<lambda>_. trap_restore ?c q s3))"
    "\<forall>t :: nemu. cpu_wf ?c (cpu t) \<and> (\<forall>k < nr_gpr ?c + 3. k \<noteq> 2 \<longrightarrow> ld ?c (?p + ctx_word k) t = ld ?c (?p + ctx_word k) s2) \<longrightarrow>
      (\<exists>t'. trap_restore ?c ?p t = Inr t' \<and> t' = t\<lparr>cpu := cpu t'\<rparr> \<and> pc (cpu t') = 0x80000000 + 4 \<and>
        gpr (cpu t') = (gpr (cpu thread_state))[(if CONFIG_RVE ?c then 15 else 17) := 0xb])"
    using yield_resumes [OF thread_state_wf(1) p ctx_ok_example(1), of "0x80000000"] by blast
  let ?t = "thread_state\<lparr>pmem := pmem s2\<rparr>"
  have "ld ?c (?p + ctx_word k) ?t = ld ?c (?p + ctx_word k) s2" if "k < nr_gpr ?c + 3" for k
    by (rule ld_cong [OF ctx_word_valid [OF ctx_ok_example(1) that]]) simp
  then obtain t' where "trap_restore ?c ?p ?t = Inr t'" "pc (cpu t') = 0x80000004"
      "gpr (cpu t') = (gpr (cpu thread_state))[17 := 0xb]"
    using s2(2) [rule_format, of ?t] thread_state_wf(1) by auto
  then show ?thesis using s2(1) thread_state_wf(2) by (simp add: assert_res_def NULL_def)
qed

theorem kcontext_starts_witness:
  "\<exists>s1 t'. kcontext default_config \<lparr>area_start = 0x80000000, area_end = 0x80001000\<rparr> 0x80000100 42 thread_state = Inr (0x80000f70, s1) \<and>
     trap_restore default_config 0x80000f70 s1 = Inr t' \<and> pc (cpu t') = 0x80000100 \<and> gpr (cpu t') ! 10 = 42"
proof -
  let ?c = default_config
  have p: "0x80000f70 = area_end \<lparr>area_start = 0x80000000, area_end = 0x80001000\<rparr> - sizeof_Context ?c"
    by (simp add: ctx_sizes)
  obtain s1 where s1: "kcontext ?c \<lparr>area_start = 0x80000000, area_end = 0x80001000\<rparr> 0x80000100 42 thread_state = Inr (0x80000f70, s1)"
    "s1 = thread_state\<lparr>pmem := pmem s1\<rparr>"
    "\<forall>t :: nemu. cpu_wf ?c (cpu t) \<and> (\<forall>k < nr_gpr ?c + 3. ld ?c (0x80000f70 + ctx_word k) t = ld ?c (0x80000f70 + ctx_word k) s1) \<longrightarrow>
      (\<exists>t'. trap_restore ?c 0x80000f70 t = Inr t' \<and> t' = t\<lparr>cpu := cpu t'\<rparr> \<and> pc (cpu t') = 0x80000100 \<and>
        gpr (cpu t') ! 10 = 42 \<and> gpr (cpu t') ! 2 = area_end \<lparr>area_start = 0x80000000, area_end = 0x80001000\<rparr> - 4)"
    using kcontext_starts [OF p ctx_ok_example(2), of "0x80000100" 42 thread_state] by blast
  have "cpu s1 = cpu thread_state" by (subst s1(2)) simp
  then show ?thesis using s1(1) s1(3) [rule_format, of s1] thread_state_wf(1) by auto
qed


end
