(* ===== verification/Gdb.thy ===== *)
theory Gdb
  imports Config
begin

text \<open>
  The reference design QEMU, \<open>nemu/tools/qemu-diff\<close>: the client of the GDB remote protocol
  (\<open>src/protocol.c\<close>), the requests it makes (\<open>src/gdb-host.c\<close>) and the interface of
  differential testing on top of them (\<open>src/diff-test.c\<close>).

  The peer is a byte stream: \<open>conn_in\<close> holds the bytes it will send before it closes the
  connection, \<open>conn_out\<close> the bytes written so far.  The contents of freshly allocated memory
  are not determined by the program; they are the argument \<open>junk\<close>.  Allocation and writing to
  the peer succeed.
\<close>

subsection \<open>Characters\<close>

definition chars :: "string \<Rightarrow> byte list" where
  "chars s = map of_char s"

definition isdigit :: "byte \<Rightarrow> bool" where
  "isdigit c \<longleftrightarrow> 0x30 \<le> c \<and> c \<le> 0x39"

definition isxdigit :: "byte \<Rightarrow> bool" where
  "isxdigit c \<longleftrightarrow> isdigit c \<or> 0x41 \<le> c \<and> c \<le> 0x46 \<or> 0x61 \<le> c \<and> c \<le> 0x66"

definition tolower :: "byte \<Rightarrow> byte" where
  "tolower c = (if 0x41 \<le> c \<and> c \<le> 0x5a then c + 0x20 else c)"

definition hex_nibble :: "byte \<Rightarrow> byte" where
  "hex_nibble hex = (if isdigit hex then hex - 0x30 else tolower hex - 0x61 + 10)"

definition hex_encode :: "byte \<Rightarrow> byte" where
  "hex_encode digit = (if digit > 9 then 0x61 + digit - 10 else 0x30 + digit)"

definition gdb_decode_hex :: "byte \<Rightarrow> byte \<Rightarrow> u16" where
  "gdb_decode_hex msb lsb =
     (if \<not> isxdigit msb \<or> \<not> isxdigit lsb then -1
      else 16 * ucast (hex_nibble msb) + ucast (hex_nibble lsb))"

text \<open>The loop reads the bytes from a pointer on; the list is the rest of the object the pointer
  is in.\<close>

fun decode_hex_loop :: "byte list \<Rightarrow> u64 \<Rightarrow> u64 \<Rightarrow> u64 res" where
  "decode_hex_loop [] value weight = Inl Out_of_bounds"
| "decode_hex_loop [a] value weight = (if isxdigit a then Inl Out_of_bounds else Inr value)"
| "decode_hex_loop (a # b # bytes) value weight =
     (if isxdigit a \<and> isxdigit b
      then decode_hex_loop bytes (value + weight * ucast (gdb_decode_hex a b)) (weight * (16 * 16))
      else Inr value)"

definition gdb_decode_hex_str :: "byte list \<Rightarrow> u64 res" where
  "gdb_decode_hex_str bytes = decode_hex_loop bytes 0 1"

subsection \<open>Connections\<close>

record gdb_conn =
  conn_in :: "byte list"
  conn_out :: "byte list"
  ack :: bool

text \<open>\<open>gdb_begin\<close> on a connected socket: the peer's bytes, and the first acknowledgement.\<close>

definition gdb_begin :: "byte list \<Rightarrow> gdb_conn" where
  "gdb_begin peer = \<lparr>conn_in = peer, conn_out = [0x2b], ack = True\<rparr>"

definition fputc :: "byte \<Rightarrow> gdb_conn \<Rightarrow> gdb_conn" where
  "fputc b conn = conn\<lparr>conn_out := conn_out conn @ [b]\<rparr>"

definition fwrite :: "byte list \<Rightarrow> gdb_conn \<Rightarrow> gdb_conn" where
  "fwrite bs conn = conn\<lparr>conn_out := conn_out conn @ bs\<rparr>"

text \<open>The conversion \<open>%02X\<close>.\<close>

definition hex_upper :: "byte \<Rightarrow> byte" where
  "hex_upper digit = (if digit > 9 then 0x41 + digit - 10 else 0x30 + digit)"

definition fmt_02X :: "byte \<Rightarrow> byte list" where
  "fmt_02X b = [hex_upper (drop_bit 4 b), hex_upper (b AND 0xf)]"

fun checksum :: "byte list \<Rightarrow> byte \<Rightarrow> byte" where
  "checksum [] acc = acc"
| "checksum (c # cs) acc = checksum cs (acc + c)"

definition send_packet :: "byte list \<Rightarrow> gdb_conn \<Rightarrow> gdb_conn" where
  "send_packet command conn =
     fwrite (0x23 # fmt_02X (checksum command 0)) (fwrite command (fputc 0x24 conn))"

text \<open>The command is sent again until the peer answers \<open>+\<close>.  At the end of the input
  \<open>fgetc\<close> returns \<open>EOF\<close> from then on and the loop does not end.\<close>

fun gdb_send_loop :: "byte list \<Rightarrow> byte list \<Rightarrow> gdb_conn \<Rightarrow> gdb_conn res" where
  "gdb_send_loop command [] conn =
     (let conn1 = send_packet command conn in
      if \<not> ack conn1 then Inr conn1 else Inl Diverges)"
| "gdb_send_loop command (b # rest) conn =
     (let conn1 = send_packet command conn in
      if \<not> ack conn1 then Inr conn1
      else
        (let conn2 = conn1\<lparr>conn_in := rest\<rparr> in
         if b = 0x2b then Inr conn2 else gdb_send_loop command rest conn2))"

definition gdb_send :: "byte list \<Rightarrow> gdb_conn \<Rightarrow> gdb_conn res" where
  "gdb_send command conn = gdb_send_loop command (conn_in conn) conn"

subsection \<open>Receiving\<close>

text \<open>The reply buffer of \<open>recv_packet\<close>: its bytes, its allocated size and the number \<open>i\<close> of
  bytes stored.\<close>

record reply =
  rp_data :: "nat \<Rightarrow> byte"
  rp_size :: nat
  rp_i :: nat

definition rp_put :: "byte \<Rightarrow> reply \<Rightarrow> reply res" where
  "rp_put c r =
     bind_res (assert_res Out_of_bounds (rp_i r < rp_size r)) (\<lambda>_.
     Inr (r\<lparr>rp_data := (rp_data r)(rp_i r := c), rp_i := rp_i r + 1\<rparr>))"

definition rp_store :: "nat \<Rightarrow> byte \<Rightarrow> reply \<Rightarrow> reply res" where
  "rp_store k c r =
     bind_res (assert_res Out_of_bounds (k < rp_size r)) (\<lambda>_. Inr (r\<lparr>rp_data := (rp_data r)(k := c)\<rparr>))"

text \<open>One character, after the \<open>switch\<close>.\<close>

definition add_char :: "byte \<Rightarrow> bool \<Rightarrow> reply \<Rightarrow> reply res" where
  "add_char c escape r =
     rp_put (if escape then c XOR 0x20 else c)
       (if rp_i r = rp_size r then r\<lparr>rp_size := rp_size r * 2\<rparr> else r)"

text \<open>A run: the last character \<open>count\<close> times more, by \<open>memset\<close>.\<close>

definition add_run :: "nat \<Rightarrow> reply \<Rightarrow> reply res" where
  "add_run count r =
     (let r1 = (if rp_i r + count > rp_size r then r\<lparr>rp_size := rp_size r * 2\<rparr> else r) in
      bind_res (assert_res Out_of_bounds (0 < rp_i r1 \<and> rp_i r1 + count \<le> rp_size r1)) (\<lambda>_.
      Inr (r1\<lparr>rp_data := (\<lambda>k. if rp_i r1 \<le> k \<and> k < rp_i r1 + count then rp_data r1 (rp_i r1 - 1)
                               else rp_data r1 k),
              rp_i := rp_i r1 + count\<rparr>)))"

definition bad_count :: "byte \<Rightarrow> bool" where
  "bad_count c2 \<longleftrightarrow> c2 < 29 \<or> c2 > 126 \<or> c2 = 0x24 \<or> c2 = 0x23"

text \<open>\<open>uint8_t msb = fgetc(in)\<close>, where the end of the input reads as \<open>0xff\<close>.\<close>

definition fgetc_u8 :: "byte list \<Rightarrow> byte \<times> byte list" where
  "fgetc_u8 input = (case input of [] \<Rightarrow> (-1, []) | b # rest \<Rightarrow> (b, rest))"

text \<open>The end of a packet: \<open>sum\<close> no longer contains the \<open>#\<close>.\<close>

definition end_packet :: "byte \<Rightarrow> byte list \<Rightarrow> reply \<Rightarrow> (byte list \<times> reply \<times> bool) res" where
  "end_packet acc input r =
     (let (msb, input1) = fgetc_u8 input; (lsb, input2) = fgetc_u8 input1;
          sum_ok = (ucast acc = gdb_decode_hex msb lsb)
      in bind_res (rp_store (rp_i r) 0 (if rp_i r = rp_size r then r\<lparr>rp_size := rp_size r + 1\<rparr> else r))
           (\<lambda>r1. Inr (input2, r1, sum_ok)))"

function recv_loop :: "byte list \<Rightarrow> byte \<Rightarrow> bool \<Rightarrow> reply \<Rightarrow> (byte list \<times> reply \<times> bool) res" where
  "recv_loop [] acc escape r = Inl (Exit 0)"
| "recv_loop (c # input) acc escape r =
     (if c = 0x24 then recv_loop input 0 False (r\<lparr>rp_i := 0\<rparr>)
      else if c = 0x23 then end_packet acc input r
      else if c = 0x7d then recv_loop input (acc + c) True r
      else if c = 0x2a \<and> rp_i r > 0 \<and> input \<noteq> [] \<and> \<not> bad_count (hd input) then
        bind_res (add_run (unat (hd input) - 29) r) (\<lambda>r1.
        recv_loop (tl input) (acc + c + hd input) escape r1)
      else
        bind_res (add_char c escape r) (\<lambda>r1. recv_loop input (acc + c) False r1))"
  by pat_completeness auto
termination
  by (relation "measure (\<lambda>(input, _). length input)") auto

definition recv_packet :: "(nat \<Rightarrow> byte) \<Rightarrow> byte list \<Rightarrow> (byte list \<times> reply \<times> bool) res" where
  "recv_packet junk input =
     recv_loop (drop 1 (dropWhile (\<lambda>c. c \<noteq> 0x24) input)) 0 False
       \<lparr>rp_data = junk, rp_size = 4096, rp_i = 0\<rparr>"

lemma recv_loop_char:
  assumes "c \<noteq> 0x24" and "c \<noteq> 0x23" and "c \<noteq> 0x7d"
    and "\<not> (c = 0x2a \<and> rp_i r > 0 \<and> input \<noteq> [] \<and> \<not> bad_count (hd input))"
  shows "recv_loop (c # input) acc escape r =
    bind_res (add_char c escape r) (\<lambda>r1. recv_loop input (acc + c) False r1)"
  unfolding recv_loop.simps if_not_P [OF assms(1)] if_not_P [OF assms(2)] if_not_P [OF assms(3)]
    if_not_P [OF assms(4)] ..

lemma end_packet_length:
  "end_packet acc input r = Inr (rest, r', ok) \<Longrightarrow> length rest \<le> length input"
  by (auto simp: end_packet_def fgetc_u8_def bind_res_eq_Inr_iff Let_def split: list.splits)

lemma recv_loop_shorter:
  "recv_loop input acc escape r = Inr (rest, r', ok) \<Longrightarrow> length rest < length input"
proof (induction input acc escape r rule: recv_loop.induct)
  case (2 c input acc escape r)
  let ?run = "c = 0x2a \<and> rp_i r > 0 \<and> input \<noteq> [] \<and> \<not> bad_count (hd input)"
  consider "c = 0x24" | "c = 0x23" | "c = 0x7d" | "c \<noteq> 0x24" "c \<noteq> 0x23" "c \<noteq> 0x7d" ?run
    | "c \<noteq> 0x24" "c \<noteq> 0x23" "c \<noteq> 0x7d" "\<not> ?run" by blast
  then show ?case
  proof cases
    case 1
    then show ?thesis using 2 by simp
  next
    case 2
    then show ?thesis using \<open>recv_loop (c # input) acc escape r = _\<close> end_packet_length [of acc input r rest r' ok]
      by simp
  next
    case 3
    then show ?thesis using 2 by simp
  next
    case 4
    then show ?thesis using 2(3) [OF 4] 2(5) by (fastforce simp: bind_res_eq_Inr_iff)
  next
    case 5
    from 2(5) recv_loop_char [OF 5]
    show ?thesis using 2(4) [OF 5] by (fastforce simp: bind_res_eq_Inr_iff)
  qed
qed simp

lemma recv_packet_shorter:
  "recv_packet junk input = Inr (rest, r, ok) \<Longrightarrow> length rest < length input"
  using recv_loop_shorter [of "drop 1 (dropWhile (\<lambda>c. c \<noteq> 0x24) input)" 0 False _ rest r ok]
    length_dropWhile_le [of "\<lambda>c. c \<noteq> 0x24" input]
  by (fastforce simp: recv_packet_def)

function gdb_recv :: "(nat \<Rightarrow> byte) \<Rightarrow> gdb_conn \<Rightarrow> (reply \<times> gdb_conn) res" where
  "gdb_recv junk conn =
     (case recv_packet junk (conn_in conn) of
        Inl e \<Rightarrow> Inl e
      | Inr (rest, r, acked) \<Rightarrow>
          (let conn1 = conn\<lparr>conn_in := rest\<rparr> in
           if \<not> ack conn1 then Inr (r, conn1)
           else
             (let conn2 = fputc (if acked then 0x2b else 0x2d) conn1 in
              if acked then Inr (r, conn2) else gdb_recv junk conn2)))"
  by pat_completeness auto
termination
  by (relation "measure (\<lambda>(junk, conn). length (conn_in conn))") (auto simp: fputc_def recv_packet_shorter)

declare gdb_recv.simps [simp del]

text \<open>\<open>strcmp(reply, s) == 0\<close> on the terminated reply.\<close>

definition reply_is :: "byte list \<Rightarrow> reply \<Rightarrow> bool" where
  "reply_is s r \<longleftrightarrow> list_all (\<lambda>k. rp_data r k = s ! k) [0..<length s] \<and> rp_data r (length s) = 0"

definition gdb_start_noack :: "(nat \<Rightarrow> byte) \<Rightarrow> gdb_conn \<Rightarrow> (string \<times> gdb_conn) res" where
  "gdb_start_noack junk conn =
     bind_res (gdb_send (chars ''QStartNoAckMode'') conn) (\<lambda>conn1.
     bind_res (gdb_recv junk conn1) (\<lambda>(r, conn2).
     let ok = (rp_i r = 2 \<and> reply_is (chars ''OK'') r) in
     Inr (if ok then ''OK'' else '''', if ok then conn2\<lparr>ack := False\<rparr> else conn2)))"

subsection \<open>Requests\<close>

text \<open>The conversions \<open>%x\<close> and \<open>%c%c\<close> of the two halves of a byte.\<close>

fun fmt_x :: "nat \<Rightarrow> byte list" where
  "fmt_x n = (if n < 16 then [hex_encode (of_nat n)] else fmt_x (n div 16) @ [hex_encode (of_nat (n mod 16))])"

declare fmt_x.simps [simp del]

definition hex_byte :: "byte \<Rightarrow> byte list" where
  "hex_byte b = [hex_encode (drop_bit 4 b), hex_encode (b AND 0xf)]"

definition hex_bytes :: "byte list \<Rightarrow> byte list" where
  "hex_bytes bs = concat (map hex_byte bs)"

text \<open>The \<open>len\<close> bytes at \<open>src\<close> are a list.\<close>

definition memcpy_request :: "u32 \<Rightarrow> byte list \<Rightarrow> byte list" where
  "memcpy_request dest src =
     chars ''M0x'' @ fmt_x (unat dest) @ chars '','' @ fmt_x (length src) @ chars '':'' @ hex_bytes src"

definition gdb_memcpy_to_qemu_small ::
  "(nat \<Rightarrow> byte) \<Rightarrow> u32 \<Rightarrow> byte list \<Rightarrow> gdb_conn \<Rightarrow> (bool \<times> gdb_conn) res" where
  "gdb_memcpy_to_qemu_small junk dest src conn =
     bind_res (gdb_send (memcpy_request dest src) conn) (\<lambda>conn1.
     bind_res (gdb_recv junk conn1) (\<lambda>(r, conn2).
     Inr (reply_is (chars ''OK'') r, conn2)))"

definition mtu :: nat where
  "mtu = 1500"

function memcpy_loop ::
  "(nat \<Rightarrow> byte) \<Rightarrow> u32 \<Rightarrow> byte list \<Rightarrow> bool \<Rightarrow> gdb_conn \<Rightarrow> (bool \<times> gdb_conn) res" where
  "memcpy_loop junk dest src ok conn =
     (if length src > mtu then
        bind_res (gdb_memcpy_to_qemu_small junk dest (take mtu src) conn) (\<lambda>(ok1, conn1).
        memcpy_loop junk (dest + of_nat mtu) (drop mtu src) (ok \<and> ok1) conn1)
      else
        bind_res (gdb_memcpy_to_qemu_small junk dest src conn) (\<lambda>(ok1, conn1).
        Inr (ok \<and> ok1, conn1)))"
  by pat_completeness auto
termination
  by (relation "measure (\<lambda>(junk, dest, src, ok, conn). length src)") (auto simp: mtu_def)

declare memcpy_loop.simps [simp del]

definition gdb_memcpy_to_qemu ::
  "(nat \<Rightarrow> byte) \<Rightarrow> u32 \<Rightarrow> byte list \<Rightarrow> gdb_conn \<Rightarrow> (bool \<times> gdb_conn) res" where
  "gdb_memcpy_to_qemu junk dest src conn = memcpy_loop junk dest src True conn"

text \<open>The array of \<open>union isa_gdb_regs\<close>.\<close>

definition NR_ARRAY :: nat where
  "NR_ARRAY = 77"

text \<open>\<open>p\<close> points to character \<open>8 * i\<close>; \<open>p[8]\<close> is 0 while the number is read and gets its old
  value back.\<close>

definition getreg :: "reply \<Rightarrow> nat \<Rightarrow> u32 res" where
  "getreg r i =
     bind_res (assert_res Out_of_bounds (8 * i + 8 < rp_size r)) (\<lambda>_.
     bind_res (gdb_decode_hex_str (map (\<lambda>k. rp_data r (8 * i + k)) [0..<8] @ [0])) (\<lambda>v. Inr (ucast v)))"

fun getregs_loop :: "reply \<Rightarrow> nat \<Rightarrow> nat \<Rightarrow> u32 list res" where
  "getregs_loop r i 0 = Inr []"
| "getregs_loop r i (Suc n) =
     bind_res (getreg r i) (\<lambda>v. bind_res (getregs_loop r (i + 1) n) (\<lambda>vs. Inr (v # vs)))"

definition gdb_getregs :: "(nat \<Rightarrow> byte) \<Rightarrow> gdb_conn \<Rightarrow> (u32 list \<times> gdb_conn) res" where
  "gdb_getregs junk conn =
     bind_res (gdb_send (chars ''g'') conn) (\<lambda>conn1.
     bind_res (gdb_recv junk conn1) (\<lambda>(r, conn2).
     bind_res (getregs_loop r 0 NR_ARRAY) (\<lambda>vs. Inr (vs, conn2))))"

definition le_bytes :: "u32 \<Rightarrow> byte list" where
  "le_bytes w = [byte_of w 0, byte_of w 1, byte_of w 2, byte_of w 3]"

definition gdb_setregs :: "(nat \<Rightarrow> byte) \<Rightarrow> u32 list \<Rightarrow> gdb_conn \<Rightarrow> (bool \<times> gdb_conn) res" where
  "gdb_setregs junk regs conn =
     bind_res (gdb_send (chars ''G'' @ hex_bytes (concat (map le_bytes regs))) conn) (\<lambda>conn1.
     bind_res (gdb_recv junk conn1) (\<lambda>(r, conn2).
     Inr (reply_is (chars ''OK'') r, conn2)))"

definition gdb_si :: "(nat \<Rightarrow> byte) \<Rightarrow> gdb_conn \<Rightarrow> gdb_conn res" where
  "gdb_si junk conn =
     bind_res (gdb_send (chars ''vCont;s:1'') conn) (\<lambda>conn1.
     bind_res (gdb_recv junk conn1) (\<lambda>(r, conn2). Inr conn2))"

subsection \<open>The interface of differential testing\<close>

datatype direction = DIFFTEST_TO_DUT | DIFFTEST_TO_REF

definition qemu_difftest_memcpy ::
  "(nat \<Rightarrow> byte) \<Rightarrow> u32 \<Rightarrow> byte list \<Rightarrow> direction \<Rightarrow> gdb_conn \<Rightarrow> gdb_conn res" where
  "qemu_difftest_memcpy junk addr buf dir conn =
     bind_res (assert_res Assertion (dir = DIFFTEST_TO_REF)) (\<lambda>_.
     bind_res (gdb_memcpy_to_qemu junk addr buf conn) (\<lambda>(ok, conn1).
     bind_res (assert_res Assertion ok) (\<lambda>_. Inr conn1)))"

text \<open>The number of words of \<open>DIFFTEST_REG_SIZE\<close>.\<close>

definition reg_words :: "config \<Rightarrow> nat" where
  "reg_words c = (if CONFIG_RVE c then 16 else 32) + 1"

text \<open>\<open>dut\<close> are the \<open>DIFFTEST_REG_SIZE\<close> bytes of the caller as words.\<close>

definition qemu_difftest_regcpy ::
  "config \<Rightarrow> (nat \<Rightarrow> byte) \<Rightarrow> u32 list \<Rightarrow> direction \<Rightarrow> gdb_conn \<Rightarrow> (u32 list \<times> gdb_conn) res" where
  "qemu_difftest_regcpy c junk dut dir conn =
     bind_res (gdb_getregs junk conn) (\<lambda>(qemu_r, conn1).
     if dir = DIFFTEST_TO_REF then
       bind_res (gdb_setregs junk (take (reg_words c) dut @ drop (reg_words c) qemu_r) conn1) (\<lambda>(ok, conn2).
       Inr (dut, conn2))
     else Inr (take (reg_words c) qemu_r, conn1))"

fun qemu_difftest_exec :: "(nat \<Rightarrow> byte) \<Rightarrow> nat \<Rightarrow> gdb_conn \<Rightarrow> gdb_conn res" where
  "qemu_difftest_exec junk 0 conn = Inr conn"
| "qemu_difftest_exec junk (Suc n) conn =
     bind_res (gdb_si junk conn) (\<lambda>conn1. qemu_difftest_exec junk n conn1)"

definition qemu_difftest_raise_intr :: "u64 \<Rightarrow> gdb_conn \<Rightarrow> gdb_conn res" where
  "qemu_difftest_raise_intr NO conn = Inl Assertion"


end
