(* ===== verification/Gdb_Facts.thy ===== *)
theory Gdb_Facts
  imports Gdb
begin

text \<open>
  Facts on the client of the GDB protocol: a packet is received as it was meant, with its
  escapes and runs expanded and its checksum tested, inside the reply buffer; what the client
  sends it can receive; registers and memory go over the wire unchanged.
\<close>

unbundle bit_operations_syntax

subsection \<open>Hexadecimal digits\<close>

lemma nibble_cases:
  fixes n :: byte
  assumes "n < 16"
  shows "n \<in> {0, 1, 2, 3, 4, 5, 6, 7, 8, 9, 10, 11, 12, 13, 14, 15}"
proof -
  have "unat n \<in> set [0..<16]" using assms by (simp add: word_less_nat_alt)
  also have "[0..<16] = [0, 1, 2, 3, 4, 5, 6, 7, 8, 9, 10, 11, 12, 13, 14, 15 :: nat]" by code_simp
  finally show ?thesis by (simp add: word_unat_eq_iff)
qed

lemma hex_digit_decoded:
  assumes "n < 16"
  shows "isxdigit (hex_encode n)" and "hex_nibble (hex_encode n) = n"
    and "isxdigit (hex_upper n)" and "hex_nibble (hex_upper n) = n"
  using nibble_cases [OF assms]
  by (elim insertE; simp add: isxdigit_def isdigit_def hex_encode_def hex_upper_def hex_nibble_def tolower_def)+

lemma nibbles:
  fixes b :: byte
  shows "drop_bit 4 b < 16" and "b AND 0xf < 16"
    and "16 * ucast (drop_bit 4 b) + ucast (b AND 0xf) = (ucast b :: u16)"
proof -
  have "drop_bit 4 b = b div 16" by (simp add: drop_bit_eq_div)
  moreover have "b AND 0xf = b mod 16"
    using take_bit_eq_mask [of 4 b] by (simp add: take_bit_eq_mod mask_eq_exp_minus_1)
  ultimately have u: "uint (drop_bit 4 b) = uint b div 16" "uint (b AND 0xf) = uint b mod 16"
    by (simp_all add: uint_div_distrib uint_mod_distrib)
  have b: "uint b < 256" "0 \<le> uint b" using uint_bounded [of b] by simp_all
  show "drop_bit 4 b < 16" "b AND 0xf < 16" using u b by (simp_all add: word_less_def)
  have "uint (16 * ucast (drop_bit 4 b) + ucast (b AND 0xf) :: u16) = (16 * (uint b div 16) + uint b mod 16) mod 2 ^ 16"
    using u by (simp add: uint_word_ariths unsigned_ucast_eq take_bit_eq_mod mod_simps)
  also have "\<dots> = uint b mod 2 ^ 16" by simp
  finally show "16 * ucast (drop_bit 4 b) + ucast (b AND 0xf) = (ucast b :: u16)"
    by (simp add: word_uint_eq_iff unsigned_ucast_eq take_bit_eq_mod)
qed

lemma decode_hex_pair:
  "gdb_decode_hex (hex_encode (drop_bit 4 b)) (hex_encode (b AND 0xf)) = ucast b"
  "gdb_decode_hex (hex_upper (drop_bit 4 b)) (hex_upper (b AND 0xf)) = ucast b"
  by (simp_all add: gdb_decode_hex_def hex_digit_decoded nibbles)

subsection \<open>The reply buffer\<close>

definition rp_content :: "reply \<Rightarrow> byte list" where
  "rp_content r = map (rp_data r) [0..<rp_i r]"

definition rp_ok :: "reply \<Rightarrow> bool" where
  "rp_ok r \<longleftrightarrow> rp_i r \<le> rp_size r \<and> 4096 \<le> rp_size r"

lemma length_rp_content [simp]: "length (rp_content r) = rp_i r"
  by (simp add: rp_content_def)

lemma rp_content_size [simp]: "rp_content (r\<lparr>rp_size := n\<rparr>) = rp_content r"
  by (simp add: rp_content_def)

lemma rp_content_last: "0 < rp_i r \<Longrightarrow> last (rp_content r) = rp_data r (rp_i r - 1)"
  by (simp add: rp_content_def last_map)

lemma rp_ok_start [simp]: "rp_ok \<lparr>rp_data = junk, rp_size = 4096, rp_i = 0\<rparr>"
  by (simp add: rp_ok_def)

lemma rp_ok_restart [simp]: "rp_ok r \<Longrightarrow> rp_ok (r\<lparr>rp_i := 0\<rparr>)"
  by (simp add: rp_ok_def)

lemma add_char_spec:
  assumes "rp_ok r"
  shows "\<exists>r1. add_char c escape r = Inr r1 \<and> rp_ok r1 \<and>
    rp_content r1 = rp_content r @ [if escape then c XOR 0x20 else c]"
  using assms by (auto simp: add_char_def rp_put_def rp_ok_def rp_content_def)

lemma rp_content_run:
  "rp_content (r\<lparr>rp_data := \<lambda>k. if rp_i r \<le> k \<and> k < rp_i r + n then b else rp_data r k, rp_i := rp_i r + n\<rparr>) =
     rp_content r @ replicate n b"
  by (rule nth_equalityI) (auto simp: rp_content_def nth_append)

lemma add_run_spec:
  assumes "rp_ok r" and "0 < rp_i r" and "n \<le> 97"
  shows "\<exists>r1. add_run n r = Inr r1 \<and> rp_ok r1 \<and>
    rp_content r1 = rp_content r @ replicate n (last (rp_content r))"
proof -
  define r1 where "r1 = (if rp_i r + n > rp_size r then r\<lparr>rp_size := rp_size r * 2\<rparr> else r)"
  have r1: "rp_i r1 = rp_i r" "rp_data r1 = rp_data r" "rp_content r1 = rp_content r"
    "rp_i r + n \<le> rp_size r1" "4096 \<le> rp_size r1"
    using assms by (auto simp: r1_def rp_ok_def)
  let ?r2 = "r1\<lparr>rp_data := \<lambda>k. if rp_i r1 \<le> k \<and> k < rp_i r1 + n then rp_data r1 (rp_i r1 - 1) else rp_data r1 k,
    rp_i := rp_i r1 + n\<rparr>"
  have "add_run n r = Inr ?r2"
    unfolding add_run_def r1_def [symmetric] Let_def using assms(2) r1 by (simp add: assert_res_def)
  moreover have "rp_ok ?r2" using r1 by (simp add: rp_ok_def)
  ultimately show ?thesis
    using rp_content_run [of r1 n "rp_data r1 (rp_i r1 - 1)"] r1 rp_content_last [OF assms(2)] by auto
qed

lemma end_packet_spec:
  assumes "rp_ok r"
  shows "\<exists>r1. end_packet acc input r =
      Inr (drop 2 input, r1, ucast acc = gdb_decode_hex (fst (fgetc_u8 input)) (fst (fgetc_u8 (drop 1 input)))) \<and>
    4096 \<le> rp_size r1 \<and> rp_i r1 < rp_size r1 \<and> rp_i r1 = rp_i r \<and> rp_content r1 = rp_content r \<and>
    rp_data r1 (rp_i r1) = 0"
proof -
  define r1 where "r1 = (if rp_i r = rp_size r then r\<lparr>rp_size := rp_size r + 1\<rparr> else r)"
  have r1: "rp_i r1 = rp_i r" "rp_content r1 = rp_content r" "rp_i r < rp_size r1" "4096 \<le> rp_size r1"
    using assms by (auto simp: r1_def rp_ok_def)
  have "snd (fgetc_u8 input) = drop 1 input" for input
    by (cases input) (auto simp: fgetc_u8_def)
  then show ?thesis
    unfolding end_packet_def r1_def [symmetric] using r1
    by (auto simp: rp_store_def Let_def rp_content_def case_prod_beta numeral_2_eq_2)
qed

text \<open>Whatever arrives, the reply stays in its buffer: either the connection ends, or a reply with
  its terminator is returned.\<close>

lemma recv_loop_safe:
  assumes "rp_ok r"
  shows "recv_loop input acc escape r = Inl (Exit 0) \<or>
    (\<exists>rest r' ok. recv_loop input acc escape r = Inr (rest, r', ok) \<and>
       4096 \<le> rp_size r' \<and> rp_i r' < rp_size r' \<and> rp_data r' (rp_i r') = 0)"
  using assms
proof (induction input acc escape r rule: recv_loop.induct)
  case (2 c input acc escape r)
  let ?run = "c = 0x2a \<and> rp_i r > 0 \<and> input \<noteq> [] \<and> \<not> bad_count (hd input)"
  consider "c = 0x24" | "c = 0x23" | "c = 0x7d" | "c \<noteq> 0x24" "c \<noteq> 0x23" "c \<noteq> 0x7d" ?run
    | "c \<noteq> 0x24" "c \<noteq> 0x23" "c \<noteq> 0x7d" "\<not> ?run" by blast
  then show ?case
  proof cases
    case 1
    then show ?thesis using 2 by simp
  next
    case 2
    then show ?thesis using end_packet_spec [OF \<open>rp_ok r\<close>, of acc input] by auto
  next
    case 3
    then show ?thesis using 2 by simp
  next
    case run: 4
    have "hd input \<le> 126" using run by (simp add: bad_count_def not_less)
    then have "unat (hd input) - 29 \<le> 97" by (simp add: word_le_nat_alt)
    then obtain r1 where "add_run (unat (hd input) - 29) r = Inr r1" "rp_ok r1"
      using add_run_spec [OF 2(5)] run by blast
    then show ?thesis using 2(3) [OF run] run by simp
  next
    case plain: 5
    obtain r1 where "add_char c escape r = Inr r1" "rp_ok r1" using add_char_spec [OF 2(5)] by blast
    then show ?thesis using 2(4) [OF plain] recv_loop_char [OF plain, of acc escape] by simp
  qed
qed simp


subsection \<open>What a packet means\<close>

text \<open>The encoding of the protocol: a payload is sent as characters, escaped characters and runs
  that repeat the character before them.\<close>

datatype item = Lit byte | Esc byte | Run nat

definition special :: "byte \<Rightarrow> bool" where
  "special c \<longleftrightarrow> c \<in> {0x23, 0x24, 0x2a, 0x7d}"

fun item_wire :: "item \<Rightarrow> byte list" where
  "item_wire (Lit c) = [c]"
| "item_wire (Esc c) = [0x7d, c XOR 0x20]"
| "item_wire (Run n) = [0x2a, of_nat (n + 29)]"

definition wire :: "item list \<Rightarrow> byte list" where
  "wire items = concat (map item_wire items)"

fun payload :: "item list \<Rightarrow> byte list \<Rightarrow> byte list" where
  "payload [] bs = bs"
| "payload (Lit c # items) bs = payload items (bs @ [c])"
| "payload (Esc c # items) bs = payload items (bs @ [c])"
| "payload (Run n # items) bs = payload items (bs @ replicate n (last bs))"

text \<open>Characters and escaped characters are sent as something that is not special; a run has
  something to repeat, and its count is a character the protocol admits.\<close>

fun items_ok :: "bool \<Rightarrow> item list \<Rightarrow> bool" where
  "items_ok b [] = True"
| "items_ok b (Lit c # items) \<longleftrightarrow> \<not> special c \<and> items_ok True items"
| "items_ok b (Esc c # items) \<longleftrightarrow> \<not> special (c XOR 0x20) \<and> items_ok True items"
| "items_ok b (Run n # items) \<longleftrightarrow> b \<and> n \<le> 97 \<and> n \<notin> {6, 7} \<and> items_ok True items"

lemma run_count:
  assumes "n \<le> 97" and "n \<notin> {6, 7}"
  shows "\<not> bad_count (of_nat (n + 29))" and "unat (of_nat (n + 29) :: byte) - 29 = n"
proof -
  have u: "unat (of_nat (n + 29) :: byte) = n + 29"
    using assms by (simp add: unat_of_nat take_bit_eq_mod del: of_nat_add)
  then show "unat (of_nat (n + 29) :: byte) - 29 = n" by simp
  show "\<not> bad_count (of_nat (n + 29))"
    unfolding bad_count_def word_less_nat_alt word_unat_eq_iff u using assms by simp
qed

lemma checksum_append [simp]: "checksum (xs @ ys) acc = checksum ys (checksum xs acc)"
  by (induction xs arbitrary: acc) simp_all

lemma recv_loop_items:
  assumes "items_ok (0 < rp_i r) items" and "rp_ok r"
  shows "\<exists>r1. recv_loop (wire items @ input) acc False r = recv_loop input (checksum (wire items) acc) False r1 \<and>
    rp_ok r1 \<and> rp_content r1 = payload items (rp_content r)"
  using assms
proof (induction items arbitrary: r acc)
  case (Cons a items)
  have next_item: ?case if "recv_loop (item_wire a @ wire items @ input) acc False r =
      recv_loop (wire items @ input) (checksum (item_wire a) acc) False r1" "rp_ok r1" "0 < rp_i r1"
    "items_ok True items" "payload items (rp_content r1) = payload (a # items) (rp_content r)" for r1
    using Cons.IH [of r1 "checksum (item_wire a) acc"] that by (auto simp: wire_def)
  show ?case
  proof (cases a)
    case (Lit c)
    obtain r1 where r1: "add_char c False r = Inr r1" "rp_ok r1" "rp_content r1 = rp_content r @ [c]"
      using add_char_spec [OF Cons.prems(2), of c False] by auto
    then have "0 < rp_i r1" using length_rp_content [of r1] by simp
    then show ?thesis using r1 Cons.prems(1) Lit
      by (intro next_item [of r1]) (simp_all add: special_def recv_loop_char)
  next
    case (Esc c)
    obtain r1 where r1: "add_char (c XOR 0x20) True r = Inr r1" "rp_ok r1" "rp_content r1 = rp_content r @ [c]"
      using add_char_spec [OF Cons.prems(2), of "c XOR 0x20" True] by (auto simp: xor.assoc)
    then have "0 < rp_i r1" using length_rp_content [of r1] by simp
    then show ?thesis using r1 Cons.prems(1) Esc
      by (intro next_item [of r1]) (simp_all add: special_def recv_loop_char)
  next
    case (Run n)
    with Cons.prems(1) have n: "n \<le> 97" "n \<notin> {6, 7}" "0 < rp_i r" by simp_all
    obtain r1 where r1: "add_run n r = Inr r1" "rp_ok r1"
        "rp_content r1 = rp_content r @ replicate n (last (rp_content r))"
      using add_run_spec [OF Cons.prems(2) n(3,1)] by auto
    then have "0 < rp_i r1" using n(3) by (metis add_gr_0 length_append length_rp_content)
    then show ?thesis using r1 Cons.prems(1) Run n(3) run_count [OF n(1,2)]
      by (intro next_item [of r1]) (simp_all del: of_nat_add)
  qed
qed (auto simp: wire_def)


lemma drop_noise:
  fixes noise :: "byte list"
  assumes "0x24 \<notin> set noise"
  shows "drop 1 (dropWhile (\<lambda>c. c \<noteq> 0x24) (noise @ 0x24 # input)) = input"
  using assms by (induction noise) auto

lemma recv_packet_items:
  assumes "0x24 \<notin> set noise" and "items_ok False items"
  shows "\<exists>r. recv_packet junk (noise @ 0x24 # wire items @ 0x23 # msb # lsb # rest) =
      Inr (rest, r, ucast (checksum (wire items) 0) = gdb_decode_hex msb lsb) \<and>
    rp_content r = payload items [] \<and> 4096 \<le> rp_size r \<and> rp_i r < rp_size r \<and> rp_data r (rp_i r) = 0"
proof -
  let ?r = "\<lparr>rp_data = junk, rp_size = 4096, rp_i = 0\<rparr>"
  obtain r1 where r1: "recv_loop (wire items @ 0x23 # msb # lsb # rest) 0 False ?r =
      recv_loop (0x23 # msb # lsb # rest) (checksum (wire items) 0) False r1"
    "rp_ok r1" "rp_content r1 = payload items []"
    using recv_loop_items [of ?r items "0x23 # msb # lsb # rest" 0] assms(2) by (auto simp: rp_content_def)
  from end_packet_spec [OF r1(2), of "checksum (wire items) 0" "msb # lsb # rest"] r1
  show ?thesis by (auto simp: recv_packet_def drop_noise [OF assms(1), simplified] fgetc_u8_def)
qed

lemma wire_Lit: "wire (map Lit bs) = bs"
  by (induction bs) (simp_all add: wire_def)

lemma payload_Lit: "payload (map Lit bs) cs = cs @ bs"
  by (induction bs arbitrary: cs) simp_all

lemma items_ok_Lit: "items_ok b (map Lit bs) \<longleftrightarrow> list_all (\<lambda>c. \<not> special c) bs"
  by (induction bs arbitrary: b) simp_all

text \<open>A packet as the peer sends it, its checksum in upper-case digits, like the client's.\<close>

definition packet :: "byte list \<Rightarrow> byte list" where
  "packet bs = 0x24 # bs @ 0x23 # fmt_02X (checksum bs 0)"

lemma send_packet_out: "send_packet command conn = conn\<lparr>conn_out := conn_out conn @ packet command\<rparr>"
  by (simp add: send_packet_def fputc_def fwrite_def packet_def)

lemma recv_packet_plain:
  assumes "list_all (\<lambda>c. \<not> special c) bs"
  shows "\<exists>r. recv_packet junk (packet bs @ rest) = Inr (rest, r, True) \<and>
    rp_content r = bs \<and> 4096 \<le> rp_size r \<and> rp_i r < rp_size r \<and> rp_data r (rp_i r) = 0"
  using recv_packet_items [of "[]" "map Lit bs" junk "hex_upper (drop_bit 4 (checksum bs 0))"
      "hex_upper (checksum bs 0 AND 0xf)" rest] assms
  by (simp add: wire_Lit payload_Lit items_ok_Lit packet_def fmt_02X_def decode_hex_pair)

text \<open>One exchange: the command, the peer's acknowledgement and reply, and the client's
  acknowledgement.\<close>

lemma exchange:
  assumes "ack conn" and "list_all (\<lambda>c. \<not> special c) bs" and "conn_in conn = 0x2b # packet bs @ rest"
  shows "\<exists>r. gdb_send command conn =
      Inr (conn\<lparr>conn_in := packet bs @ rest, conn_out := conn_out conn @ packet command\<rparr>) \<and>
    gdb_recv junk (conn\<lparr>conn_in := packet bs @ rest, conn_out := conn_out conn @ packet command\<rparr>) =
      Inr (r, conn\<lparr>conn_in := rest, conn_out := conn_out conn @ packet command @ [0x2b]\<rparr>) \<and>
    rp_content r = bs \<and> 4096 \<le> rp_size r \<and> rp_i r < rp_size r \<and> rp_data r (rp_i r) = 0"
proof -
  obtain r where "recv_packet junk (packet bs @ rest) = Inr (rest, r, True)" "rp_content r = bs"
    "4096 \<le> rp_size r" "rp_i r < rp_size r" "rp_data r (rp_i r) = 0"
    using recv_packet_plain [OF assms(2)] by blast
  then show ?thesis using assms(1,3)
    by (simp add: gdb_send_def send_packet_out gdb_recv.simps fputc_def)
qed

text \<open>C30: receiving.  After any bytes before the start of a packet, for a payload sent as
  characters, escaped characters and runs, \<open>recv_packet\<close> returns the payload that is meant, with a
  terminating zero inside the buffer, consumes exactly the packet, and accepts it exactly when
  the two digits at its end are the sum of the bytes sent modulo 256.\<close>

theorem gdb_packet_received:
  assumes "0x24 \<notin> set noise" and "items_ok False items"
  shows "\<exists>r. recv_packet junk (noise @ 0x24 # wire items @ 0x23 # msb # lsb # rest) =
      Inr (rest, r, ucast (checksum (wire items) 0) = gdb_decode_hex msb lsb) \<and>
    map (rp_data r) [0..<rp_i r] = payload items [] \<and> rp_i r < rp_size r \<and> rp_data r (rp_i r) = 0"
  using recv_packet_items [OF assms, of junk msb lsb rest] by (auto simp: rp_content_def)

theorem gdb_packet_received_witness:
  "\<exists>r ok. recv_packet (\<lambda>_. 7) [0x2b, 0x24, 0x61, 0x2a, 0x20, 0x7d, 0x03, 0x23, 0x30, 0x30] = Inr ([], r, ok) \<and>
    map (rp_data r) [0..<rp_i r] = [0x61, 0x61, 0x61, 0x61, 0x23]"
proof -
  let ?items = "[Lit 0x61, Run 3, Esc 0x23]"
  have "wire ?items = [0x61, 0x2a, 0x20, 0x7d, 0x03]" by (simp add: wire_def)
  moreover have "payload ?items [] = [0x61, 0x61, 0x61, 0x61, 0x23]" by (simp add: numeral_3_eq_3)
  ultimately show ?thesis
    using gdb_packet_received [of "[0x2b]" ?items "\<lambda>_. 7" "0x30" "0x30" "[]"]
    by (auto simp: special_def)
qed


subsection \<open>Registers\<close>

lemma hex_digit_plain:
  assumes "n < 16"
  shows "\<not> special (hex_encode n)"
  using nibble_cases [OF assms] by (elim insertE; simp add: special_def hex_encode_def)+

lemma hex_bytes_plain: "list_all (\<lambda>c. \<not> special c) (hex_bytes bs)"
  by (induction bs) (simp_all add: hex_bytes_def hex_byte_def hex_digit_plain nibbles)

lemma length_hex_bytes [simp]: "length (hex_bytes bs) = 2 * length bs"
  by (induction bs) (simp_all add: hex_bytes_def hex_byte_def)

lemma hex_bytes_append [simp]: "hex_bytes (xs @ ys) = hex_bytes xs @ hex_bytes ys"
  by (simp add: hex_bytes_def)

lemma ucast_byte_u64: "ucast (ucast b :: u16) = (ucast b :: u64)" for b :: byte
  by (rule bit_word_eqI) (use bit_imp_le_length [of b] in \<open>fastforce simp: bit_simps\<close>)

lemma decode_hex_byte:
  "decode_hex_loop (hex_byte b @ bytes) value weight =
     decode_hex_loop bytes (value + weight * ucast b) (weight * 256)"
  by (simp add: hex_byte_def decode_hex_pair hex_digit_decoded nibbles ucast_byte_u64)

lemma word_of_bytes:
  "ucast (ucast (byte_of w 0) + 256 * ucast (byte_of w 1) + 65536 * ucast (byte_of w 2) +
     16777216 * ucast (byte_of w 3) :: u64) = w"
proof -
  let ?b = "\<lambda>k. unat (byte_of w k)"
  let ?N = "?b 0 + 256 * ?b 1 + 65536 * ?b 2 + 16777216 * ?b 3"
  have b: "?b k = unat w div 256 ^ k mod 256" for k
    by (simp add: byte_of_def unsigned_ucast_eq unat_drop_bit_eq take_bit_eq_mod)
      (simp add: drop_bit_eq_div power_mult)
  define x y z where "x = unat w div 256" and "y = x div 256" and "z = y div 256"
  have "unat w = 256 * x + unat w mod 256" "x = 256 * y + x mod 256" "y = 256 * z + y mod 256"
    by (simp_all add: x_def y_def z_def)
  then have "unat w mod 256 + 256 * (x mod 256) + 65536 * (y mod 256) + 16777216 * z = unat w" by linarith
  moreover have "z < 256"
    using unsigned_less [of w, where 'a = nat] by (simp add: x_def y_def z_def div_mult2_eq [symmetric])
  ultimately have N: "?N = unat w"
    by (simp add: b x_def y_def z_def div_mult2_eq [symmetric])
  have "(ucast (byte_of w 0) + 256 * ucast (byte_of w 1) + 65536 * ucast (byte_of w 2) +
     16777216 * ucast (byte_of w 3) :: u64) = of_nat ?N"
    by (simp add: word_unat_eq_iff)
  moreover have "ucast (ucast w :: u64) = w" by (rule bit_word_eqI) (simp add: bit_simps)
  ultimately show ?thesis unfolding N by simp
qed

lemma decode_word: "\<exists>v. gdb_decode_hex_str (hex_bytes (le_bytes w) @ [0]) = Inr v \<and> ucast v = w"
  using word_of_bytes [of w]
  by (simp add: gdb_decode_hex_str_def le_bytes_def hex_bytes_def decode_hex_byte isxdigit_def isdigit_def)

lemma decode_hex_stops: "\<exists>v. gdb_decode_hex_str (map f [0..<8] @ [0]) = Inr v"
  by (simp add: gdb_decode_hex_str_def upt_rec isxdigit_def isdigit_def)

definition hex_regs :: "u32 list \<Rightarrow> byte list" where
  "hex_regs regs = hex_bytes (concat (map le_bytes regs))"

lemma hex_regs_Cons [simp]: "hex_regs (w # regs) = hex_bytes (le_bytes w) @ hex_regs regs"
  by (simp add: hex_regs_def)

lemma hex_regs_Nil [simp]: "hex_regs [] = []"
  by (simp add: hex_regs_def hex_bytes_def)

lemma length_le_bytes [simp]: "length (le_bytes w) = 4"
  by (simp add: le_bytes_def)

lemma length_hex_regs [simp]: "length (hex_regs regs) = 8 * length regs"
  by (induction regs) simp_all

lemma hex_regs_drop: "drop (8 * i) (hex_regs regs) = hex_regs (drop i regs)"
proof (induction i arbitrary: regs)
  case (Suc i)
  then show ?case by (cases regs) simp_all
qed simp

lemma hex_regs_nth:
  assumes "i < length regs"
  shows "take 8 (drop (8 * i) (hex_regs regs)) = hex_bytes (le_bytes (regs ! i))"
  unfolding hex_regs_drop using assms by (simp add: Cons_nth_drop_Suc [symmetric])

lemma getreg_spec:
  assumes "rp_content r = hex_regs regs" and "4096 \<le> rp_size r" and "i < NR_ARRAY"
  shows "\<exists>v. getreg r i = Inr v \<and> (i < length regs \<longrightarrow> v = regs ! i)"
proof -
  let ?cs = "map (\<lambda>k. rp_data r (8 * i + k)) [0..<8]"
  have "?cs = hex_bytes (le_bytes (regs ! i))" if "i < length regs"
  proof -
    have "take 8 (drop (8 * i) (rp_content r)) = ?cs"
      using that arg_cong [OF assms(1), of length]
      by (intro nth_equalityI) (simp_all add: rp_content_def)
    then show ?thesis using hex_regs_nth [OF that] assms(1) by simp
  qed
  then show ?thesis
    using decode_word [of "regs ! i"] decode_hex_stops [of "\<lambda>k. rp_data r (8 * i + k)"] assms(2,3)
    by (fastforce simp: getreg_def NR_ARRAY_def assert_res_def)
qed

lemma getregs_loop_spec:
  assumes "rp_content r = hex_regs regs" and "4096 \<le> rp_size r" and "i + n \<le> NR_ARRAY"
  shows "\<exists>vs. getregs_loop r i n = Inr vs \<and> length vs = n \<and> (\<forall>k < n. i + k < length regs \<longrightarrow> vs ! k = regs ! (i + k))"
  using assms(3)
proof (induction n arbitrary: i)
  case (Suc n)
  obtain v where "getreg r i = Inr v" "i < length regs \<Longrightarrow> v = regs ! i"
    using getreg_spec [OF assms(1,2), of i] Suc.prems by auto
  moreover obtain vs where "getregs_loop r (i + 1) n = Inr vs" "length vs = n"
      "\<forall>k < n. i + 1 + k < length regs \<longrightarrow> vs ! k = regs ! (i + 1 + k)"
    using Suc.IH [of "i + 1"] Suc.prems by auto
  ultimately show ?case by (auto simp: nth_Cons split: nat.splits)
qed simp

lemma gdb_getregs_spec:
  assumes "ack conn" and "conn_in conn = 0x2b # packet (hex_regs regs) @ rest" and "length regs \<le> NR_ARRAY"
  shows "\<exists>vs. gdb_getregs junk conn =
      Inr (vs, conn\<lparr>conn_in := rest, conn_out := conn_out conn @ packet (chars ''g'') @ [0x2b]\<rparr>) \<and>
    length vs = NR_ARRAY \<and> take (length regs) vs = regs"
proof -
  have "list_all (\<lambda>c. \<not> special c) (hex_regs regs)" by (simp add: hex_regs_def hex_bytes_plain)
  from exchange [OF assms(1) this assms(2), of "chars ''g''" junk] obtain r where
    r: "gdb_send (chars ''g'') conn =
        Inr (conn\<lparr>conn_in := packet (hex_regs regs) @ rest, conn_out := conn_out conn @ packet (chars ''g'')\<rparr>)"
      "gdb_recv junk (conn\<lparr>conn_in := packet (hex_regs regs) @ rest, conn_out := conn_out conn @ packet (chars ''g'')\<rparr>) =
        Inr (r, conn\<lparr>conn_in := rest, conn_out := conn_out conn @ packet (chars ''g'') @ [0x2b]\<rparr>)"
      "rp_content r = hex_regs regs" "4096 \<le> rp_size r" by blast
  obtain vs where vs: "getregs_loop r 0 NR_ARRAY = Inr vs" "length vs = NR_ARRAY"
      "\<forall>k < NR_ARRAY. k < length regs \<longrightarrow> vs ! k = regs ! k"
    using getregs_loop_spec [OF r(3,4), of 0 NR_ARRAY] by auto
  then have "take (length regs) vs = regs" using assms(3) by (intro nth_equalityI) auto
  then show ?thesis using r(1,2) vs by (simp add: gdb_getregs_def)
qed

lemma chars_simps [simp]: "chars [] = []" "chars (x # xs) = of_char x # chars xs"
  by (simp_all add: chars_def)

lemma reply_isI: "rp_content r = s \<Longrightarrow> rp_data r (rp_i r) = 0 \<Longrightarrow> reply_is s r"
  by (auto simp: reply_is_def rp_content_def list_all_iff)

lemma exchange_OK:
  assumes "ack conn" and "conn_in conn = 0x2b # packet (chars ''OK'') @ rest"
  shows "bind_res (gdb_send command conn) (\<lambda>conn1. bind_res (gdb_recv junk conn1) (\<lambda>(r, conn2).
      Inr (reply_is (chars ''OK'') r, conn2))) =
    Inr (True, conn\<lparr>conn_in := rest, conn_out := conn_out conn @ packet command @ [0x2b]\<rparr>)"
proof -
  have "list_all (\<lambda>c. \<not> special c) (chars ''OK'')" by (simp add: special_def)
  from exchange [OF assms(1) this assms(2), of command junk] show ?thesis
    by (auto dest!: reply_isI simp del: chars_simps)
qed

text \<open>C31: registers over the wire.  The registers of the reference are asked for and the first
  words of the reply are returned; in the other direction the caller's registers are sent,
  followed by the words the reference had after them.  \<open>hex_regs\<close> writes each word as eight
  digits in the order of its bytes in memory.\<close>

theorem qemu_regcpy:
  assumes "reg_words c \<le> length regs" and "length regs \<le> NR_ARRAY" and "length dut = reg_words c"
  shows "qemu_difftest_regcpy c junk dut DIFFTEST_TO_DUT
      \<lparr>conn_in = 0x2b # packet (hex_regs regs) @ rest, conn_out = out, ack = True\<rparr> =
    Inr (take (reg_words c) regs, \<lparr>conn_in = rest, conn_out = out @ packet (chars ''g'') @ [0x2b], ack = True\<rparr>) \<and>
    (\<exists>others. length others = NR_ARRAY - reg_words c \<and>
      take (length regs - reg_words c) others = drop (reg_words c) regs \<and>
      qemu_difftest_regcpy c junk dut DIFFTEST_TO_REF
        \<lparr>conn_in = 0x2b # packet (hex_regs regs) @ 0x2b # packet (chars ''OK'') @ rest, conn_out = out, ack = True\<rparr> =
      Inr (dut, \<lparr>conn_in = rest,
        conn_out = out @ packet (chars ''g'') @ [0x2b] @ packet (chars ''G'' @ hex_regs (dut @ others)) @ [0x2b],
        ack = True\<rparr>))"
proof
  let ?c1 = "\<lparr>conn_in = 0x2b # packet (hex_regs regs) @ rest, conn_out = out, ack = True\<rparr>"
  obtain vs where vs: "gdb_getregs junk ?c1 =
      Inr (vs, ?c1\<lparr>conn_in := rest, conn_out := conn_out ?c1 @ packet (chars ''g'') @ [0x2b]\<rparr>)" "take (length regs) vs = regs"
    using gdb_getregs_spec [OF _ _ assms(2), of ?c1 rest junk] by auto
  then have "take (reg_words c) vs = take (reg_words c) regs"
    using assms(1) by (metis min.absorb1 take_take)
  then show "qemu_difftest_regcpy c junk dut DIFFTEST_TO_DUT ?c1 =
      Inr (take (reg_words c) regs, \<lparr>conn_in = rest, conn_out = out @ packet (chars ''g'') @ [0x2b], ack = True\<rparr>)"
    using vs by (simp add: qemu_difftest_regcpy_def)
next
  let ?rest = "0x2b # packet (chars ''OK'') @ rest"
  let ?c1 = "\<lparr>conn_in = 0x2b # packet (hex_regs regs) @ ?rest, conn_out = out, ack = True\<rparr>"
  let ?c2 = "?c1\<lparr>conn_in := ?rest, conn_out := conn_out ?c1 @ packet (chars ''g'') @ [0x2b]\<rparr>"
  obtain vs where vs: "gdb_getregs junk ?c1 = Inr (vs, ?c2)" "length vs = NR_ARRAY" "take (length regs) vs = regs"
    using gdb_getregs_spec [OF _ _ assms(2), of ?c1 ?rest junk] by auto
  let ?others = "drop (reg_words c) vs"
  have "take (length regs - reg_words c) ?others = drop (reg_words c) regs"
    using vs(3) by (metis drop_take)
  moreover have "qemu_difftest_regcpy c junk dut DIFFTEST_TO_REF ?c1 = Inr (dut, \<lparr>conn_in = rest,
      conn_out = out @ packet (chars ''g'') @ [0x2b] @ packet (chars ''G'' @ hex_regs (dut @ ?others)) @ [0x2b], ack = True\<rparr>)"
    using vs(1) assms(3) exchange_OK [of ?c2 rest "chars ''G'' @ hex_regs (dut @ ?others)" junk]
    by (simp add: qemu_difftest_regcpy_def gdb_setregs_def hex_regs_def del: chars_simps)
  ultimately show "\<exists>others. length others = NR_ARRAY - reg_words c \<and>
      take (length regs - reg_words c) others = drop (reg_words c) regs \<and>
      qemu_difftest_regcpy c junk dut DIFFTEST_TO_REF ?c1 = Inr (dut, \<lparr>conn_in = rest,
        conn_out = out @ packet (chars ''g'') @ [0x2b] @ packet (chars ''G'' @ hex_regs (dut @ others)) @ [0x2b],
        ack = True\<rparr>)"
    using vs(2) by (intro exI [of _ ?others]) simp
qed

theorem qemu_regcpy_witness:
  "qemu_difftest_regcpy default_config (\<lambda>_. 0) (replicate 33 0) DIFFTEST_TO_DUT
      \<lparr>conn_in = 0x2b # packet (hex_regs (replicate 33 0x80000000)), conn_out = [], ack = True\<rparr> =
    Inr (replicate 33 0x80000000, \<lparr>conn_in = [], conn_out = packet (chars ''g'') @ [0x2b], ack = True\<rparr>)"
  using qemu_regcpy [of default_config "replicate 33 0x80000000" "replicate 33 0" "\<lambda>_. 0" "[]" "[]", THEN conjunct1]
  by (simp add: reg_words_def NR_ARRAY_def del: chars_simps)


subsection \<open>Memory\<close>

text \<open>The meaning of a request \<open>M\<close>\<^emph>\<open>address\<close>\<open>,\<close>\<^emph>\<open>length\<close>\<open>:\<close>\<^emph>\<open>bytes\<close> in the
  protocol: the numbers are hexadecimal, the bytes pairs of digits, and they are stored from the
  address on.\<close>

definition hex_value :: "byte list \<Rightarrow> nat" where
  "hex_value cs = foldl (\<lambda>v c. 16 * v + unat (hex_nibble c)) 0 cs"

fun read_pairs :: "byte list \<Rightarrow> byte list" where
  "read_pairs (a # b # cs) = ucast (gdb_decode_hex a b) # read_pairs cs"
| "read_pairs _ = []"

fun write_bytes :: "(u32 \<Rightarrow> byte) \<Rightarrow> u32 \<Rightarrow> byte list \<Rightarrow> u32 \<Rightarrow> byte" where
  "write_bytes m a [] = m"
| "write_bytes m a (b # bs) = write_bytes (m(a := b)) (a + 1) bs"

definition apply_request :: "byte list \<Rightarrow> (u32 \<Rightarrow> byte) \<Rightarrow> u32 \<Rightarrow> byte" where
  "apply_request p m =
     (let q = drop 3 p; q1 = drop 1 (dropWhile isxdigit q); q2 = drop 1 (dropWhile isxdigit q1)
      in write_bytes m (of_nat (hex_value (takeWhile isxdigit q)))
           (take (hex_value (takeWhile isxdigit q1)) (read_pairs q2)))"

lemma of_nat_nibble: "n < 16 \<Longrightarrow> (of_nat n :: byte) < 16 \<and> unat (of_nat n :: byte) = n"
  by (simp add: word_less_nat_alt unat_of_nat take_bit_eq_mod)

lemma fmt_x_digits: "list_all isxdigit (fmt_x n)"
proof (induction n rule: fmt_x.induct)
  case (1 n)
  then show ?case using of_nat_nibble [of n] of_nat_nibble [of "n mod 16"] hex_digit_decoded
    by (subst fmt_x.simps) auto
qed

lemma hex_value_fmt_x: "hex_value (fmt_x n) = n"
proof (induction n rule: fmt_x.induct)
  case (1 n)
  have "unat (hex_nibble (hex_encode (of_nat k))) = k" if "k < 16" for k
    using of_nat_nibble [OF that] hex_digit_decoded by auto
  then show ?case using 1 by (subst fmt_x.simps) (auto simp: hex_value_def)
qed

lemma read_pairs_hex: "read_pairs (hex_bytes bs) = bs"
proof -
  have "ucast (ucast b :: u16) = b" for b :: byte
    by (rule bit_word_eqI) (simp add: bit_simps)
  then show ?thesis
    by (induction bs) (simp_all add: hex_bytes_def hex_byte_def decode_hex_pair)
qed

lemma take_digits:
  assumes "list_all isxdigit ds" and "\<not> isxdigit c"
  shows "takeWhile isxdigit (ds @ c # cs) = ds" and "dropWhile isxdigit (ds @ c # cs) = c # cs"
  using assms by (induction ds) simp_all

lemma apply_memcpy_request: "apply_request (memcpy_request dest src) m = write_bytes m dest src"
proof -
  have "\<not> isxdigit 0x2c" "\<not> isxdigit 0x3a" by (simp_all add: isxdigit_def isdigit_def)
  note digits = take_digits [OF fmt_x_digits this(1)] take_digits [OF fmt_x_digits this(2)]
  show ?thesis
    by (simp add: apply_request_def memcpy_request_def Let_def digits hex_value_fmt_x read_pairs_hex)
qed

lemma write_bytes_append:
  "write_bytes m a (xs @ ys) = write_bytes (write_bytes m a xs) (a + of_nat (length xs)) ys"
  by (induction xs arbitrary: m a) (simp_all add: ac_simps)

abbreviation ok_reply :: "byte list" where
  "ok_reply \<equiv> 0x2b # packet (chars ''OK'')"

lemma memcpy_loop_spec:
  "\<exists>reqs. (\<forall>m. fold apply_request reqs m = write_bytes m dest src) \<and>
     (\<forall>rest out. memcpy_loop junk dest src ok
         \<lparr>conn_in = concat (replicate (length reqs) ok_reply) @ rest, conn_out = out, ack = True\<rparr> =
       Inr (ok, \<lparr>conn_in = rest, conn_out = out @ concat (map (\<lambda>p. packet p @ [0x2b]) reqs), ack = True\<rparr>))"
proof (induction "length src" arbitrary: dest src rule: less_induct)
  case less
  have small: "gdb_memcpy_to_qemu_small junk d bs \<lparr>conn_in = ok_reply @ rest, conn_out = out, ack = True\<rparr> =
      Inr (True, \<lparr>conn_in = rest, conn_out = out @ packet (memcpy_request d bs) @ [0x2b], ack = True\<rparr>)" for d bs rest out
    using exchange_OK [of "\<lparr>conn_in = ok_reply @ rest, conn_out = out, ack = True\<rparr>" rest "memcpy_request d bs" junk]
    by (simp add: gdb_memcpy_to_qemu_small_def del: chars_simps)
  show ?case
  proof (cases "length src > mtu")
    case True
    have "length (drop mtu src) < length src" using True by (simp add: mtu_def)
    from less [OF this, of "dest + of_nat mtu"] obtain reqs where
      reqs: "\<forall>m. fold apply_request reqs m = write_bytes m (dest + of_nat mtu) (drop mtu src)"
        "\<forall>rest out. memcpy_loop junk (dest + of_nat mtu) (drop mtu src) ok
            \<lparr>conn_in = concat (replicate (length reqs) ok_reply) @ rest, conn_out = out, ack = True\<rparr> =
          Inr (ok, \<lparr>conn_in = rest, conn_out = out @ concat (map (\<lambda>p. packet p @ [0x2b]) reqs), ack = True\<rparr>)"
      by blast
    have "write_bytes (write_bytes m dest (take mtu src)) (dest + of_nat mtu) (drop mtu src) = write_bytes m dest src" for m
      using write_bytes_append [of m dest "take mtu src" "drop mtu src"] True by simp
    then show ?thesis using True reqs small [of dest "take mtu src"]
      by (intro exI [of _ "memcpy_request dest (take mtu src) # reqs"])
        (simp add: memcpy_loop.simps [of junk dest src] apply_memcpy_request del: chars_simps append_Cons)
  next
    case False
    then show ?thesis using small [of dest src]
      by (intro exI [of _ "[memcpy_request dest src]"])
        (simp add: memcpy_loop.simps [of junk dest src] apply_memcpy_request del: chars_simps append_Cons)
  qed
qed

text \<open>Copying to the reference.  When the peer accepts every request,
  \<open>difftest_memcpy\<close> returns, and the requests it has sent, taken in order with the meaning the
  protocol gives them, store exactly the bytes of the buffer from the address on, however long
  the buffer is.\<close>

theorem qemu_memcpy:
  "\<exists>reqs. (\<forall>m. fold apply_request reqs m = write_bytes m addr buf) \<and>
     (\<forall>rest out. qemu_difftest_memcpy junk addr buf DIFFTEST_TO_REF
         \<lparr>conn_in = concat (replicate (length reqs) ok_reply) @ rest, conn_out = out, ack = True\<rparr> =
       Inr \<lparr>conn_in = rest, conn_out = out @ concat (map (\<lambda>p. packet p @ [0x2b]) reqs), ack = True\<rparr>)"
  using memcpy_loop_spec [of addr buf junk True]
  by (auto simp: qemu_difftest_memcpy_def gdb_memcpy_to_qemu_def assert_res_def simp del: chars_simps)


end
