(* ===== verification/Guests.thy ===== *)
theory Guests
  imports Riscv32
begin

text \<open>
  The two small guests of NEMU: \<open>nemu/src/isa/mips32\<close> and \<open>nemu/src/isa/loongarch32r\<close>.  They use
  the machine state of the riscv32 guest without its status registers: the thirty-two registers
  and the program counter.
\<close>

subsection \<open>Registers of both guests\<close>

definition guest_reg_idx :: "config \<Rightarrow> nat \<Rightarrow> nat res" where
  "guest_reg_idx c idx = (if CONFIG_RT_CHECK c \<and> \<not> idx < 32 then Inl Assertion else Inr idx)"

definition reg_get :: "config \<Rightarrow> nat \<Rightarrow> 'a nemu_scheme \<Rightarrow> u32 res" where
  "reg_get c idx s =
     bind_res (guest_reg_idx c idx) (\<lambda>i.
     if i < length (gpr (cpu s)) then Inr (gpr (cpu s) ! i) else Inl Out_of_bounds)"

definition reg_set :: "config \<Rightarrow> nat \<Rightarrow> u32 \<Rightarrow> 'a nemu_scheme \<Rightarrow> 'a nemu_scheme res" where
  "reg_set c idx v s =
     bind_res (guest_reg_idx c idx) (\<lambda>i.
     if i < length (gpr (cpu s)) then Inr (s\<lparr>cpu := (cpu s)\<lparr>gpr := (gpr (cpu s))[i := v]\<rparr>\<rparr>) else Inl Out_of_bounds)"

text \<open>\<open>R(rd) = Mr(a, 4)\<close>, \<open>Mw(a, 4, R(rd))\<close>, \<open>NEMUTRAP(s->pc, R(n))\<close> and \<open>INV(s->pc)\<close>.\<close>

definition guest_load :: "config \<Rightarrow> nat \<Rightarrow> u32 \<Rightarrow> 'a nemu_scheme \<Rightarrow> 'a nemu_scheme res" where
  "guest_load c rd a s = bind_res (vaddr_read c a 4 s) (\<lambda>(v, s1). reg_set c rd v s1)"

definition guest_store :: "config \<Rightarrow> nat \<Rightarrow> u32 \<Rightarrow> 'a nemu_scheme \<Rightarrow> 'a nemu_scheme res" where
  "guest_store c rd a s = bind_res (reg_get c rd s) (\<lambda>v. vaddr_write c a 4 v s)"

definition guest_trap :: "config \<Rightarrow> nat \<Rightarrow> u32 \<Rightarrow> 'a nemu_scheme \<Rightarrow> 'a nemu_scheme res" where
  "guest_trap c n p s = bind_res (reg_get c n s) (\<lambda>v. Inr (set_nemu_state c NEMU_END p v s))"

subsection \<open>mips32\<close>

datatype mips_type = MIPS_I | MIPS_U | MIPS_N
datatype mips_op = Mips_lui | Mips_lw | Mips_sw | Mips_sdbbp | Mips_inv

definition mips_immI :: "u32 \<Rightarrow> u32" where
  "mips_immI i = ucast (SEXT (BITS i 15 0) 16)"

definition mips_immU :: "u32 \<Rightarrow> u32" where
  "mips_immU i = ucast (BITS i 15 0)"

definition mips_decode_operand :: "config \<Rightarrow> u32 \<Rightarrow> mips_type \<Rightarrow> 'a nemu_scheme \<Rightarrow> (nat \<times> u32 \<times> u32) res" where
  "mips_decode_operand c i ty s =
     (let rt = unat (BITS i 20 16); rs = unat (BITS i 25 21);
          rd = (if ty = MIPS_U \<or> ty = MIPS_I then rt else unat (BITS i 15 11))
      in case ty of
           MIPS_I \<Rightarrow> bind_res (reg_get c rs s) (\<lambda>v. Inr (rd, v, mips_immI i))
         | MIPS_U \<Rightarrow> bind_res (reg_get c rs s) (\<lambda>v. Inr (rd, v, mips_immU i))
         | MIPS_N \<Rightarrow> Inr (rd, 0, 0))"

definition mips_instpat_table :: "(string \<times> (mips_op \<times> mips_type)) list" where
  "mips_instpat_table =
    [(''001111 ????? ????? ????? ????? ??????'', (Mips_lui, MIPS_U)),
     (''100011 ????? ????? ????? ????? ??????'', (Mips_lw, MIPS_I)),
     (''101011 ????? ????? ????? ????? ??????'', (Mips_sw, MIPS_I)),
     (''011100 ????? ????? ????? ????? 111111'', (Mips_sdbbp, MIPS_N)),
     (''?????? ????? ????? ????? ????? ??????'', (Mips_inv, MIPS_N))]"

fun mips_exec_body :: "config \<Rightarrow> mips_op \<Rightarrow> nat \<Rightarrow> u32 \<Rightarrow> u32 \<Rightarrow> u32 \<Rightarrow> 'a nemu_scheme \<Rightarrow> 'a nemu_scheme res" where
  "mips_exec_body c Mips_lui rd src1 imm p s = reg_set c rd (push_bit 16 imm) s"
| "mips_exec_body c Mips_lw rd src1 imm p s = guest_load c rd (src1 + imm) s"
| "mips_exec_body c Mips_sw rd src1 imm p s = guest_store c rd (src1 + imm) s"
| "mips_exec_body c Mips_sdbbp rd src1 imm p s = guest_trap c 2 p s"
| "mips_exec_body c Mips_inv rd src1 imm p s = invalid_inst c p s"

definition mips_decode_exec :: "config \<Rightarrow> Decode \<Rightarrow> 'a nemu_scheme \<Rightarrow> (Decode \<times> 'a nemu_scheme) res" where
  "mips_decode_exec c d0 s =
     (let d = d0\<lparr>d_dnpc := d_snpc d0\<rparr> in
      bind_res (instpat_dispatch mips_instpat_table (d_inst d)) (\<lambda>r.
      bind_res
        (case r of
           None \<Rightarrow> Inr s
         | Some (nm, ty) \<Rightarrow>
             bind_res (mips_decode_operand c (d_inst d) ty s) (\<lambda>(rd, src1, imm).
             mips_exec_body c nm rd src1 imm (d_pc d) s))
        (\<lambda>s1. bind_res (reg_set c 0 0 s1) (\<lambda>s2. Inr (d, s2)))))"

definition mips_isa_exec_once :: "config \<Rightarrow> Decode \<Rightarrow> 'a nemu_scheme \<Rightarrow> (Decode \<times> 'a nemu_scheme) res" where
  "mips_isa_exec_once c d s =
     bind_res (inst_fetch c (d_snpc d) 4 s) (\<lambda>(inst, snpc, s1).
     mips_decode_exec c (d\<lparr>d_inst := inst, d_snpc := snpc\<rparr>) s1)"

definition mips_img :: "u32 list" where
  "mips_img = [0x3c048000, 0xac800000, 0x8c820000, 0x7000003f]"

definition guest_restart :: "config \<Rightarrow> 'a nemu_scheme \<Rightarrow> 'a nemu_scheme" where
  "guest_restart c s = s\<lparr>cpu := (cpu s)\<lparr>pc := RESET_VECTOR c, gpr := (gpr (cpu s))[0 := 0]\<rparr>\<rparr>"

definition guest_init_isa :: "u32 list \<Rightarrow> config \<Rightarrow> 'a nemu_scheme \<Rightarrow> 'a nemu_scheme res" where
  "guest_init_isa prog c s =
     bind_res (assert_res Out_of_bounds
        (in_object (uint (CONFIG_MSIZE c)) (guest_to_host c (RESET_VECTOR c)) (4 * int (length prog))))
       (\<lambda>_. Inr (guest_restart c (s\<lparr>pmem := copy_words prog (guest_to_host c (RESET_VECTOR c)) (pmem s)\<rparr>)))"

definition mips_init_isa :: "config \<Rightarrow> 'a nemu_scheme \<Rightarrow> 'a nemu_scheme res" where
  "mips_init_isa = guest_init_isa mips_img"

definition mips_isa_raise_intr :: "u32 \<Rightarrow> u32 \<Rightarrow> u32" where
  "mips_isa_raise_intr NO epc = 0"

definition mips_isa_difftest_checkregs :: "cpu_state \<Rightarrow> 'a nemu_scheme \<Rightarrow> bool" where
  "mips_isa_difftest_checkregs ref_r s = False"

subsection \<open>loongarch32r\<close>

datatype la_type = TYPE_2RI12 | TYPE_1RI20 | LA_N
datatype la_op = La_pcaddu12i | La_ld_w | La_st_w | La_break | La_inv

definition simm12 :: "u32 \<Rightarrow> u32" where
  "simm12 i = ucast (SEXT (BITS i 21 10) 12)"

definition simm20 :: "u32 \<Rightarrow> u32" where
  "simm20 i = ucast (push_bit 12 (SEXT (BITS i 24 5) 20))"

definition la_decode_operand :: "config \<Rightarrow> u32 \<Rightarrow> la_type \<Rightarrow> 'a nemu_scheme \<Rightarrow> (nat \<times> u32 \<times> u32) res" where
  "la_decode_operand c i ty s =
     (let rj = unat (BITS i 9 5); rd = unat (BITS i 4 0) in
      case ty of
        TYPE_1RI20 \<Rightarrow> bind_res (reg_get c rj s) (\<lambda>v. Inr (rd, v, simm20 i))
      | TYPE_2RI12 \<Rightarrow> bind_res (reg_get c rj s) (\<lambda>v. Inr (rd, v, simm12 i))
      | LA_N \<Rightarrow> Inr (rd, 0, 0))"

definition la_instpat_table :: "(string \<times> (la_op \<times> la_type)) list" where
  "la_instpat_table =
    [(''0001110 ????? ????? ????? ????? ?????'', (La_pcaddu12i, TYPE_1RI20)),
     (''0010100010 ???????????? ????? ?????'', (La_ld_w, TYPE_2RI12)),
     (''0010100110 ???????????? ????? ?????'', (La_st_w, TYPE_2RI12)),
     (''0000 0000 0010 10100 ????? ????? ?????'', (La_break, LA_N)),
     (''????????????????? ????? ????? ?????'', (La_inv, LA_N))]"

fun la_exec_body :: "config \<Rightarrow> la_op \<Rightarrow> nat \<Rightarrow> u32 \<Rightarrow> u32 \<Rightarrow> u32 \<Rightarrow> 'a nemu_scheme \<Rightarrow> 'a nemu_scheme res" where
  "la_exec_body c La_pcaddu12i rd src1 imm p s = reg_set c rd (p + imm) s"
| "la_exec_body c La_ld_w rd src1 imm p s = guest_load c rd (src1 + imm) s"
| "la_exec_body c La_st_w rd src1 imm p s = guest_store c rd (src1 + imm) s"
| "la_exec_body c La_break rd src1 imm p s = guest_trap c 4 p s"
| "la_exec_body c La_inv rd src1 imm p s = invalid_inst c p s"

definition la_decode_exec :: "config \<Rightarrow> Decode \<Rightarrow> 'a nemu_scheme \<Rightarrow> (Decode \<times> 'a nemu_scheme) res" where
  "la_decode_exec c d0 s =
     (let d = d0\<lparr>d_dnpc := d_snpc d0\<rparr> in
      bind_res (instpat_dispatch la_instpat_table (d_inst d)) (\<lambda>r.
      bind_res
        (case r of
           None \<Rightarrow> Inr s
         | Some (nm, ty) \<Rightarrow>
             bind_res (la_decode_operand c (d_inst d) ty s) (\<lambda>(rd, src1, imm).
             la_exec_body c nm rd src1 imm (d_pc d) s))
        (\<lambda>s1. bind_res (reg_set c 0 0 s1) (\<lambda>s2. Inr (d, s2)))))"

definition la_isa_exec_once :: "config \<Rightarrow> Decode \<Rightarrow> 'a nemu_scheme \<Rightarrow> (Decode \<times> 'a nemu_scheme) res" where
  "la_isa_exec_once c d s =
     bind_res (inst_fetch c (d_snpc d) 4 s) (\<lambda>(inst, snpc, s1).
     la_decode_exec c (d\<lparr>d_inst := inst, d_snpc := snpc\<rparr>) s1)"

definition la_img :: "u32 list" where
  "la_img = [0x1c00000c, 0x29804180, 0x28804184, 0x002a0000, 0xdeadbeef]"

definition la_init_isa :: "config \<Rightarrow> 'a nemu_scheme \<Rightarrow> 'a nemu_scheme res" where
  "la_init_isa = guest_init_isa la_img"

definition la_isa_raise_intr :: "u32 \<Rightarrow> u32 \<Rightarrow> u32" where
  "la_isa_raise_intr NO epc = 0"

definition la_isa_difftest_checkregs :: "cpu_state \<Rightarrow> 'a nemu_scheme \<Rightarrow> bool" where
  "la_isa_difftest_checkregs ref_r s = False"

subsection \<open>Running a guest\<close>

text \<open>\<open>exec_once\<close> of \<open>cpu-exec.c\<close>, for a guest given by its \<open>isa_exec_once\<close>; and, to state what
  programs do, \<open>n\<close> instructions one after the other, fewer when the machine stops running.\<close>

definition guest_exec_once ::
  "(Decode \<Rightarrow> 'a nemu_scheme \<Rightarrow> (Decode \<times> 'a nemu_scheme) res) \<Rightarrow> 'a nemu_scheme \<Rightarrow> 'a nemu_scheme res" where
  "guest_exec_once isa s =
     bind_res (isa \<lparr>d_pc = pc (cpu s), d_snpc = pc (cpu s), d_dnpc = 0, d_inst = 0\<rparr> s) (\<lambda>(d, s1).
     Inr (s1\<lparr>cpu := (cpu s1)\<lparr>pc := d_dnpc d\<rparr>\<rparr>))"

fun guest_run ::
  "(Decode \<Rightarrow> 'a nemu_scheme \<Rightarrow> (Decode \<times> 'a nemu_scheme) res) \<Rightarrow> nat \<Rightarrow> 'a nemu_scheme \<Rightarrow> 'a nemu_scheme res" where
  "guest_run isa 0 s = Inr s"
| "guest_run isa (Suc n) s =
     bind_res (guest_exec_once isa s) (\<lambda>s1.
     if st_state (nemu_state s1) \<noteq> NEMU_RUNNING then Inr s1 else guest_run isa n s1)"

end
