(* ===== verification/Guests_Facts.thy ===== *)
theory Guests_Facts
  imports Guests Poweron
begin

text \<open>
  Facts on the guests: a guest promises to keep its zero register, and every run then keeps it;
  the built-in programs of the small guests end in the good trap; their decoders select the
  instruction by the opcode field.
\<close>

subsection \<open>The promise of a guest\<close>

locale guest_isa =
  fixes isa :: "Decode \<Rightarrow> 'a nemu_scheme \<Rightarrow> (Decode \<times> 'a nemu_scheme) res"
    and regs_ok :: "cpu_state \<Rightarrow> bool"
  assumes isa_keeps: "regs_ok (cpu s) \<Longrightarrow> isa d s = Inr (d', s') \<Longrightarrow> regs_ok (cpu s')"
    and pc_free: "regs_ok r \<Longrightarrow> regs_ok (r\<lparr>pc := a\<rparr>)"
begin

lemma exec_once_keeps: "regs_ok (cpu s) \<Longrightarrow> guest_exec_once isa s = Inr s' \<Longrightarrow> regs_ok (cpu s')"
  by (auto simp: guest_exec_once_def bind_res_eq_Inr_iff intro!: pc_free dest: isa_keeps)

lemma run_keeps: "regs_ok (cpu s) \<Longrightarrow> guest_run isa n s = Inr s' \<Longrightarrow> regs_ok (cpu s')"
proof (induction n arbitrary: s)
  case (Suc n)
  then show ?case by (auto simp: bind_res_eq_Inr_iff split: if_splits dest: exec_once_keeps)
qed simp

end

definition guest_wf :: "cpu_state \<Rightarrow> bool" where
  "guest_wf r \<longleftrightarrow> length (gpr r) = 32 \<and> gpr r ! 0 = 0"

lemma reg_set_gpr:
  "reg_set c n v s = Inr s' \<Longrightarrow> gpr (cpu s') = (gpr (cpu s))[n := v]"
  by (auto simp: reg_set_def guest_reg_idx_def bind_res_eq_Inr_iff split: if_splits)

lemma guest_ops_length:
  "guest_load c n a s = Inr s' \<Longrightarrow> length (gpr (cpu s')) = length (gpr (cpu s))"
  "guest_store c n a s = Inr s' \<Longrightarrow> length (gpr (cpu s')) = length (gpr (cpu s))"
  "guest_trap c n p s = Inr s' \<Longrightarrow> length (gpr (cpu s')) = length (gpr (cpu s))"
  by (auto simp: guest_load_def guest_store_def guest_trap_def set_nemu_state_cpu bind_res_eq_Inr_iff
      dest!: reg_set_gpr vaddr_read_cpu vaddr_write_cpu)

lemma mips_body_length:
  "mips_exec_body c nm rd src1 imm p s = Inr s' \<Longrightarrow> length (gpr (cpu s')) = length (gpr (cpu s))"
  by (cases nm) (auto dest: guest_ops_length reg_set_gpr invalid_inst_cpu)

lemma la_body_length:
  "la_exec_body c nm rd src1 imm p s = Inr s' \<Longrightarrow> length (gpr (cpu s')) = length (gpr (cpu s))"
  by (cases nm) (auto dest: guest_ops_length reg_set_gpr invalid_inst_cpu)

interpretation rv: guest_isa "isa_exec_once c" "cpu_wf c" for c
  by unfold_locales (auto dest: isa_exec_once_wf simp: cpu_wf_def cpu_shape_def)

lemma mips_decode_exec_wf:
  assumes "guest_wf (cpu s)" and "mips_decode_exec c d s = Inr (d', s')"
  shows "guest_wf (cpu s')"
proof -
  obtain r s1 where r: "(case r of None \<Rightarrow> Inr s | Some (nm, ty) \<Rightarrow>
        bind_res (mips_decode_operand c (d_inst d) ty s) (\<lambda>(rd, src1, imm). mips_exec_body c nm rd src1 imm (d_pc d) s)) = Inr s1"
      "reg_set c 0 0 s1 = Inr s'"
    using assms(2) by (auto simp: mips_decode_exec_def bind_res_eq_Inr_iff Let_def cong: option.case_cong)
  then have "length (gpr (cpu s1)) = length (gpr (cpu s))"
    by (cases r) (auto simp: bind_res_eq_Inr_iff dest: mips_body_length)
  then show ?thesis using assms(1) reg_set_gpr [OF r(2)] by (simp add: guest_wf_def)
qed

interpretation mips: guest_isa "mips_isa_exec_once c" guest_wf for c
proof unfold_locales
  fix s s' :: "'a nemu_scheme" and d d'
  assume wf: "guest_wf (cpu s)" and "mips_isa_exec_once c d s = Inr (d', s')"
  then obtain i p s1 where "inst_fetch c (d_snpc d) 4 s = Inr (i, p, s1)"
      "mips_decode_exec c (d\<lparr>d_inst := i, d_snpc := p\<rparr>) s1 = Inr (d', s')"
    by (auto simp: mips_isa_exec_once_def bind_res_eq_Inr_iff)
  then show "guest_wf (cpu s')" using wf inst_fetch_cpu mips_decode_exec_wf by metis
qed (simp add: guest_wf_def)

lemma la_decode_exec_wf:
  assumes "guest_wf (cpu s)" and "la_decode_exec c d s = Inr (d', s')"
  shows "guest_wf (cpu s')"
proof -
  obtain r s1 where r: "(case r of None \<Rightarrow> Inr s | Some (nm, ty) \<Rightarrow>
        bind_res (la_decode_operand c (d_inst d) ty s) (\<lambda>(rd, src1, imm). la_exec_body c nm rd src1 imm (d_pc d) s)) = Inr s1"
      "reg_set c 0 0 s1 = Inr s'"
    using assms(2) by (auto simp: la_decode_exec_def bind_res_eq_Inr_iff Let_def cong: option.case_cong)
  then have "length (gpr (cpu s1)) = length (gpr (cpu s))"
    by (cases r) (auto simp: bind_res_eq_Inr_iff dest: la_body_length)
  then show ?thesis using assms(1) reg_set_gpr [OF r(2)] by (simp add: guest_wf_def)
qed

interpretation la: guest_isa "la_isa_exec_once c" guest_wf for c
proof unfold_locales
  fix s s' :: "'a nemu_scheme" and d d'
  assume wf: "guest_wf (cpu s)" and "la_isa_exec_once c d s = Inr (d', s')"
  then obtain i p s1 where "inst_fetch c (d_snpc d) 4 s = Inr (i, p, s1)"
      "la_decode_exec c (d\<lparr>d_inst := i, d_snpc := p\<rparr>) s1 = Inr (d', s')"
    by (auto simp: la_isa_exec_once_def bind_res_eq_Inr_iff)
  then show "guest_wf (cpu s')" using wf inst_fetch_cpu la_decode_exec_wf by metis
qed (simp add: guest_wf_def)

subsection \<open>Decoding\<close>

lemma mips_patterns:
  "pattern_decode ''001111 ????? ????? ????? ????? ??????'' = Inr (0xf, 0x3f, 26)"
  "pattern_decode ''100011 ????? ????? ????? ????? ??????'' = Inr (0x23, 0x3f, 26)"
  "pattern_decode ''101011 ????? ????? ????? ????? ??????'' = Inr (0x2b, 0x3f, 26)"
  "pattern_decode ''011100 ????? ????? ????? ????? 111111'' = Inr (0x7000003f, 0xfc00003f, 0)"
  "pattern_decode ''?????? ????? ????? ????? ????? ??????'' = Inr (0, 0, 32)"
  by (simp_all add: pattern_decode_def pattern_char_def)

lemma la_patterns:
  "pattern_decode ''0001110 ????? ????? ????? ????? ?????'' = Inr (0xe, 0x7f, 25)"
  "pattern_decode ''0010100010 ???????????? ????? ?????'' = Inr (0xa2, 0x3ff, 22)"
  "pattern_decode ''0010100110 ???????????? ????? ?????'' = Inr (0xa6, 0x3ff, 22)"
  "pattern_decode ''0000 0000 0010 10100 ????? ????? ?????'' = Inr (0x54, 0x1ffff, 15)"
  "pattern_decode ''????????????????? ????? ????? ?????'' = Inr (0, 0, 32)"
  by (simp_all add: pattern_decode_def pattern_char_def)

subsection \<open>The built-in programs\<close>

definition guest_cfg :: "config \<Rightarrow> bool" where
  "guest_cfg c \<longleftrightarrow> CONFIG_MBASE c = 0x80000000 \<and> CONFIG_MSIZE c = 0x8000000 \<and> RESET_VECTOR c = 0x80000000"

lemma guest_mem:
  assumes "guest_cfg c"
  shows "paddr_read c 0x80000000 4 s = Inr (join4 (pmem s 0) (pmem s 1) (pmem s 2) (pmem s 3), s)"
    "paddr_read c 0x80000004 4 s = Inr (join4 (pmem s 4) (pmem s 5) (pmem s 6) (pmem s 7), s)"
    "paddr_read c 0x80000008 4 s = Inr (join4 (pmem s 8) (pmem s 9) (pmem s 10) (pmem s 11), s)"
    "paddr_read c 0x8000000c 4 s = Inr (join4 (pmem s 12) (pmem s 13) (pmem s 14) (pmem s 15), s)"
    "paddr_read c 0x80000010 4 s = Inr (join4 (pmem s 16) (pmem s 17) (pmem s 18) (pmem s 19), s)"
  using assms
  by (simp_all add: guest_cfg_def paddr_read_def in_pmem_def pmem_read_def guest_to_host_def host_read_def in_object_def)


lemma zero_again:
  assumes "guest_wf r" and "n \<noteq> 0"
  shows "(gpr r)[n := v, 0 := 0] = (gpr r)[n := v]" "(gpr r)[0 := 0] = gpr r" "gpr r \<noteq> []"
  using assms list_update_id [of "(gpr r)[n := v]" 0] list_update_id [of "gpr r" 0] by (auto simp: guest_wf_def)

lemmas guest_defs = guest_exec_once_def inst_fetch_def vaddr_ifetch_def instpat_match_def reg_get_def reg_set_def
  guest_reg_idx_def guest_load_def guest_store_def guest_trap_def vaddr_read_def vaddr_write_def BITS_def BITMASK_def SEXT_def

lemmas mips_defs = mips_isa_exec_once_def mips_decode_exec_def mips_instpat_table_def mips_patterns
  mips_decode_operand_def mips_immI_def mips_immU_def guest_defs

lemma mips_lui:
  assumes "guest_wf (cpu s)" and "pc (cpu s) = 0x80000000" and "paddr_read c 0x80000000 4 s = Inr (0x3c048000, s)"
  shows "guest_exec_once (mips_isa_exec_once c) s =
    Inr (s\<lparr>cpu := (cpu s)\<lparr>gpr := (gpr (cpu s))[4 := 0x80000000], pc := 0x80000004\<rparr>\<rparr>)"
  using assms zero_again [OF assms(1), of 4] by (simp add: mips_defs guest_wf_def)

lemma mips_sw:
  assumes "guest_wf (cpu s)" and "pc (cpu s) = 0x80000004" and "paddr_read c 0x80000004 4 s = Inr (0xac800000, s)"
    and "gpr (cpu s) ! 4 = 0x80000000" and "guest_cfg c"
  shows "guest_exec_once (mips_isa_exec_once c) s =
    Inr (s\<lparr>pmem := (pmem s)(0 := 0, 1 := 0, 2 := 0, 3 := 0), cpu := (cpu s)\<lparr>pc := 0x80000008\<rparr>\<rparr>)"
  using assms zero_again [OF assms(1), of 4] by (simp add: mips_defs guest_wf_def guest_cfg_def paddr_write_def in_pmem_def pmem_write_def
     guest_to_host_def host_write_def in_object_def byte_of_def)

lemma mips_lw:
  assumes "guest_wf (cpu s)" and "pc (cpu s) = 0x80000008" and "paddr_read c 0x80000008 4 s = Inr (0x8c820000, s)"
    and "gpr (cpu s) ! 4 = 0x80000000" and "paddr_read c 0x80000000 4 s = Inr (0, s)"
  shows "guest_exec_once (mips_isa_exec_once c) s =
    Inr (s\<lparr>cpu := (cpu s)\<lparr>gpr := (gpr (cpu s))[2 := 0], pc := 0x8000000c\<rparr>\<rparr>)"
  using assms zero_again [OF assms(1), of 2] by (simp add: mips_defs guest_wf_def)

lemma mips_sdbbp:
  assumes "guest_wf (cpu s)" and "pc (cpu s) = 0x8000000c" and "paddr_read c 0x8000000c 4 s = Inr (0x7000003f, s)"
    and "gpr (cpu s) ! 2 = 0"
  shows "\<exists>s'. guest_exec_once (mips_isa_exec_once c) s = Inr s' \<and>
    nemu_state s' = \<lparr>st_state = NEMU_END, halt_pc = 0x8000000c, halt_ret = 0\<rparr>"
  using assms zero_again [OF assms(1), of 2] by (simp add: mips_defs guest_wf_def set_nemu_state_def difftest_skip_ref_def)


lemmas la_defs = la_isa_exec_once_def la_decode_exec_def la_instpat_table_def la_patterns
  la_decode_operand_def simm12_def simm20_def guest_defs

lemma la_pcaddu12i:
  assumes "guest_wf (cpu s)" and "pc (cpu s) = 0x80000000" and "paddr_read c 0x80000000 4 s = Inr (0x1c00000c, s)"
  shows "guest_exec_once (la_isa_exec_once c) s =
    Inr (s\<lparr>cpu := (cpu s)\<lparr>gpr := (gpr (cpu s))[12 := 0x80000000], pc := 0x80000004\<rparr>\<rparr>)"
  using assms zero_again [OF assms(1), of 12] by (simp add: la_defs guest_wf_def)

lemma la_st_w:
  assumes "guest_wf (cpu s)" and "pc (cpu s) = 0x80000004" and "paddr_read c 0x80000004 4 s = Inr (0x29804180, s)"
    and "gpr (cpu s) ! 12 = 0x80000000" and "guest_cfg c"
  shows "guest_exec_once (la_isa_exec_once c) s =
    Inr (s\<lparr>pmem := (pmem s)(16 := 0, 17 := 0, 18 := 0, 19 := 0), cpu := (cpu s)\<lparr>pc := 0x80000008\<rparr>\<rparr>)"
  using assms zero_again [OF assms(1), of 12]
  by (simp add: la_defs guest_wf_def guest_cfg_def paddr_write_def in_pmem_def pmem_write_def
      guest_to_host_def host_write_def in_object_def byte_of_def)

lemma la_ld_w:
  assumes "guest_wf (cpu s)" and "pc (cpu s) = 0x80000008" and "paddr_read c 0x80000008 4 s = Inr (0x28804184, s)"
    and "gpr (cpu s) ! 12 = 0x80000000" and "paddr_read c 0x80000010 4 s = Inr (0, s)"
  shows "guest_exec_once (la_isa_exec_once c) s =
    Inr (s\<lparr>cpu := (cpu s)\<lparr>gpr := (gpr (cpu s))[4 := 0], pc := 0x8000000c\<rparr>\<rparr>)"
  using assms zero_again [OF assms(1), of 4] by (simp add: la_defs guest_wf_def)

lemma la_break:
  assumes "guest_wf (cpu s)" and "pc (cpu s) = 0x8000000c" and "paddr_read c 0x8000000c 4 s = Inr (0x002a0000, s)"
    and "gpr (cpu s) ! 4 = 0"
  shows "\<exists>s'. guest_exec_once (la_isa_exec_once c) s = Inr s' \<and>
    nemu_state s' = \<lparr>st_state = NEMU_END, halt_pc = 0x8000000c, halt_ret = 0\<rparr>"
  using assms zero_again [OF assms(1), of 4] by (simp add: la_defs guest_wf_def set_nemu_state_def difftest_skip_ref_def)

text \<open>Four steps, the first three of which leave the machine running.\<close>

lemma guest_run_4:
  assumes "guest_exec_once isa s = Inr s1" and "guest_exec_once isa s1 = Inr s2" and "guest_exec_once isa s2 = Inr s3"
    and "guest_exec_once isa s3 = Inr s4" and "st_state (nemu_state s4) \<noteq> NEMU_RUNNING"
    and "st_state (nemu_state s1) = NEMU_RUNNING" and "st_state (nemu_state s2) = NEMU_RUNNING"
    and "st_state (nemu_state s3) = NEMU_RUNNING"
  shows "guest_run isa 4 s = Inr s4"
  using assms by (simp add: eval_nat_numeral)

lemma join4_zero: "join4 0 0 0 0 = 0"
  by (simp add: join4_def)

lemma mips_image_run:
  assumes "guest_cfg c" and "length (gpr (cpu s)) = 32" and "st_state (nemu_state s) = NEMU_RUNNING"
  shows "\<exists>s0 s'. mips_init_isa c s = Inr s0 \<and> guest_run (mips_isa_exec_once c) 4 s0 = Inr s' \<and>
    nemu_state s' = \<lparr>st_state = NEMU_END, halt_pc = 0x8000000c, halt_ret = 0\<rparr>"
proof -
  let ?r = "(cpu s)\<lparr>pc := 0x80000000, gpr := (gpr (cpu s))[0 := 0]\<rparr>" and ?m = "copy_words mips_img 0 (pmem s)"
  define s0 where "s0 = s\<lparr>pmem := ?m, cpu := ?r\<rparr>"
  define s1 where "s1 = s0\<lparr>cpu := ?r\<lparr>gpr := (gpr ?r)[4 := 0x80000000], pc := 0x80000004\<rparr>\<rparr>"
  define s2 where "s2 = s1\<lparr>pmem := ?m(0 := 0, 1 := 0, 2 := 0, 3 := 0), cpu := (cpu s1)\<lparr>pc := 0x80000008\<rparr>\<rparr>"
  define s3 where "s3 = s2\<lparr>cpu := (cpu s2)\<lparr>gpr := (gpr (cpu s2))[2 := 0], pc := 0x8000000c\<rparr>\<rparr>"
  have "mips_init_isa c s = Inr s0"
    using assms(1) by (simp add: mips_init_isa_def guest_init_isa_def guest_restart_def s0_def guest_cfg_def in_object_def
        guest_to_host_def mips_img_def)
  moreover have "guest_exec_once (mips_isa_exec_once c) s0 = Inr s1"
    unfolding s1_def
    by (subst mips_lui) (use assms(1,2) in \<open>simp_all add: guest_wf_def s0_def guest_mem mips_img_def\<close>)
  moreover have "guest_exec_once (mips_isa_exec_once c) s1 = Inr s2"
    unfolding s2_def
    by (subst mips_sw) (use assms(1,2) in \<open>simp_all add: guest_wf_def s0_def s1_def guest_mem mips_img_def\<close>)
  moreover have "guest_exec_once (mips_isa_exec_once c) s2 = Inr s3"
    unfolding s3_def
    by (subst mips_lw) (use assms(1,2) in \<open>simp_all add: guest_wf_def s0_def s1_def s2_def guest_mem mips_img_def join4_zero\<close>)
  moreover obtain s4 where "guest_exec_once (mips_isa_exec_once c) s3 = Inr s4"
      "nemu_state s4 = \<lparr>st_state = NEMU_END, halt_pc = 0x8000000c, halt_ret = 0\<rparr>"
    using mips_sdbbp [of s3 c] assms(1,2)
    by (auto simp: guest_wf_def s0_def s1_def s2_def s3_def guest_mem mips_img_def)
  ultimately show ?thesis
    using guest_run_4 [of "mips_isa_exec_once c" s0 s1 s2 s3 s4] assms(3)
    by (auto simp: s0_def s1_def s2_def s3_def)
qed

lemma la_image_run:
  assumes "guest_cfg c" and "length (gpr (cpu s)) = 32" and "st_state (nemu_state s) = NEMU_RUNNING"
  shows "\<exists>s0 s'. la_init_isa c s = Inr s0 \<and> guest_run (la_isa_exec_once c) 4 s0 = Inr s' \<and>
    nemu_state s' = \<lparr>st_state = NEMU_END, halt_pc = 0x8000000c, halt_ret = 0\<rparr>"
proof -
  let ?r = "(cpu s)\<lparr>pc := 0x80000000, gpr := (gpr (cpu s))[0 := 0]\<rparr>" and ?m = "copy_words la_img 0 (pmem s)"
  define s0 where "s0 = s\<lparr>pmem := ?m, cpu := ?r\<rparr>"
  define s1 where "s1 = s0\<lparr>cpu := ?r\<lparr>gpr := (gpr ?r)[12 := 0x80000000], pc := 0x80000004\<rparr>\<rparr>"
  define s2 where "s2 = s1\<lparr>pmem := ?m(16 := 0, 17 := 0, 18 := 0, 19 := 0), cpu := (cpu s1)\<lparr>pc := 0x80000008\<rparr>\<rparr>"
  define s3 where "s3 = s2\<lparr>cpu := (cpu s2)\<lparr>gpr := (gpr (cpu s2))[4 := 0], pc := 0x8000000c\<rparr>\<rparr>"
  have "la_init_isa c s = Inr s0"
    using assms(1) by (simp add: la_init_isa_def guest_init_isa_def guest_restart_def s0_def guest_cfg_def in_object_def
        guest_to_host_def la_img_def)
  moreover have "guest_exec_once (la_isa_exec_once c) s0 = Inr s1"
    unfolding s1_def
    by (subst la_pcaddu12i) (use assms(1,2) in \<open>simp_all add: guest_wf_def s0_def guest_mem la_img_def\<close>)
  moreover have "guest_exec_once (la_isa_exec_once c) s1 = Inr s2"
    unfolding s2_def
    by (subst la_st_w) (use assms(1,2) in \<open>simp_all add: guest_wf_def s0_def s1_def guest_mem la_img_def\<close>)
  moreover have "guest_exec_once (la_isa_exec_once c) s2 = Inr s3"
    unfolding s3_def
    by (subst la_ld_w) (use assms(1,2) in \<open>simp_all add: guest_wf_def s0_def s1_def s2_def guest_mem la_img_def join4_zero\<close>)
  moreover obtain s4 where "guest_exec_once (la_isa_exec_once c) s3 = Inr s4"
      "nemu_state s4 = \<lparr>st_state = NEMU_END, halt_pc = 0x8000000c, halt_ret = 0\<rparr>"
    using la_break [of s3 c] assms(1,2)
    by (auto simp: guest_wf_def s0_def s1_def s2_def s3_def guest_mem la_img_def)
  ultimately show ?thesis
    using guest_run_4 [of "la_isa_exec_once c" s0 s1 s2 s3 s4] assms(3)
    by (auto simp: s0_def s1_def s2_def s3_def)
qed

text \<open>The built-in programs.  On the mips32 and the loongarch32r guest, initialisation
  followed by four instructions of the built-in image (an address, a store of zero, a load of
  it, the trap) ends the emulation in the good trap: the result is 0.\<close>

theorem guest_images_good_trap:
  assumes "guest_cfg c" and "length (gpr (cpu s)) = 32" and "st_state (nemu_state s) = NEMU_RUNNING"
  shows "(\<exists>s0 s'. mips_init_isa c s = Inr s0 \<and> guest_run (mips_isa_exec_once c) 4 s0 = Inr s' \<and>
      nemu_state s' = \<lparr>st_state = NEMU_END, halt_pc = 0x8000000c, halt_ret = 0\<rparr>) \<and>
    (\<exists>s0 s'. la_init_isa c s = Inr s0 \<and> guest_run (la_isa_exec_once c) 4 s0 = Inr s' \<and>
      nemu_state s' = \<lparr>st_state = NEMU_END, halt_pc = 0x8000000c, halt_ret = 0\<rparr>)"
  using mips_image_run [OF assms] la_image_run [OF assms] by blast

theorem guest_images_good_trap_witness:
  "\<exists>s'. bind_res (mips_init_isa default_config (power_on\<lparr>nemu_state := \<lparr>st_state = NEMU_RUNNING, halt_pc = 0, halt_ret = 0\<rparr>\<rparr>))
      (guest_run (mips_isa_exec_once default_config) 4) = Inr s' \<and> halt_ret (nemu_state s') = 0"
proof -
  have "guest_cfg default_config" by (simp add: guest_cfg_def RESET_VECTOR_def PMEM_LEFT_def)
  then show ?thesis
    using guest_images_good_trap [of default_config "power_on\<lparr>nemu_state := \<lparr>st_state = NEMU_RUNNING, halt_pc = 0, halt_ret = 0\<rparr>\<rparr>"]
    by (auto simp: power_on_def)
qed

text \<open>Every run of any of the three guests keeps the register file at its size and the zero
  register at zero.\<close>

theorem guests_keep_zero:
  "cpu_wf c (cpu s) \<Longrightarrow> guest_run (isa_exec_once c) n s = Inr s' \<Longrightarrow> cpu_wf c (cpu s')"
  "guest_wf (cpu s) \<Longrightarrow> guest_run (mips_isa_exec_once c) n s = Inr s' \<Longrightarrow> guest_wf (cpu s')"
  "guest_wf (cpu s) \<Longrightarrow> guest_run (la_isa_exec_once c) n s = Inr s' \<Longrightarrow> guest_wf (cpu s')"
  using rv.run_keeps mips.run_keeps la.run_keeps by blast+


end
