(* ===== verification/Gen_Expr.thy ===== *)
theory Gen_Expr
  imports Prelude
begin

text \<open>
  The generator of random expressions for testing the debugger,
  \<open>nemu/tools/gen-expr/gen-expr.c\<close>: the text it builds in its buffer.  \<open>rand\<close> is a stream of
  numbers, an argument of the model; compiling and running the generated program is left out.
\<close>

subsection \<open>The buffer and the random numbers\<close>

record gen =
  buf :: string
  rand_stream :: "nat \<Rightarrow> nat"
  rand_calls :: nat

definition MAX_DEPTH :: nat where "MAX_DEPTH = 10"
definition MAX_NUM :: nat where "MAX_NUM = 1000"
definition SIZEOF_BUF :: nat where "SIZEOF_BUF = 65536"

definition rand_next :: "gen \<Rightarrow> nat \<times> gen" where
  "rand_next g = (rand_stream g (rand_calls g), g\<lparr>rand_calls := rand_calls g + 1\<rparr>)"

definition choose_rand :: "nat \<Rightarrow> gen \<Rightarrow> nat \<times> gen" where
  "choose_rand n g = (case rand_next g of (r, g1) \<Rightarrow> (r mod n, g1))"

text \<open>\<open>strncat(buf, s, sizeof(buf) - strlen(buf) - 1)\<close>.\<close>

definition cat_buf :: "string \<Rightarrow> gen \<Rightarrow> gen" where
  "cat_buf s g = g\<lparr>buf := buf g @ take (SIZEOF_BUF - length (buf g) - 1) s\<rparr>"

fun decimal_digits :: "nat \<Rightarrow> string" where
  "decimal_digits n =
     (if n < 10 then [char_of (48 + n)] else decimal_digits (n div 10) @ [char_of (48 + n mod 10)])"

declare decimal_digits.simps [simp del]

text \<open>\<open>snprintf\<close> at the end of the buffer stores one character less than the size it is given,
  which is one less than the room there is.\<close>

definition gen_rand_nums :: "gen \<Rightarrow> gen" where
  "gen_rand_nums g =
     (case choose_rand MAX_NUM g of (v, g1) \<Rightarrow>
      g1\<lparr>buf := buf g1 @ take (SIZEOF_BUF - length (buf g1) - 1 - 1) (decimal_digits v)\<rparr>)"

definition gen_rand_space :: "gen \<Rightarrow> gen" where
  "gen_rand_space g = (case choose_rand 4 g of (r, g1) \<Rightarrow> if r \<noteq> 0 then cat_buf '' '' g1 else g1)"

definition gen_rand_operator :: "gen \<Rightarrow> gen" where
  "gen_rand_operator g =
     (case choose_rand 4 (gen_rand_space g) of (r, g1) \<Rightarrow>
      gen_rand_space
        (if r = 0 then cat_buf ''+'' g1
         else if r = 1 then cat_buf ''-'' g1
         else if r = 2 then cat_buf ''*'' g1
         else if r = 3 then cat_buf ''/'' g1
         else g1))"

function gen_rand_expr :: "nat \<Rightarrow> gen \<Rightarrow> gen" where
  "gen_rand_expr depth g =
     (if depth > MAX_DEPTH \<or> length (buf g) > 65535 then g
      else
        (case rand_next g of (v, g1) \<Rightarrow>
         let r = v mod (if depth = 0 then 2 else 3) in
         if r = 0 then gen_rand_nums g1
         else if r = 1 then cat_buf '')'' (gen_rand_expr (depth + 1) (cat_buf ''('' g1))
         else gen_rand_expr (depth + 1) (gen_rand_operator (gen_rand_expr (depth + 1) g1))))"
  by pat_completeness auto
termination
  by (relation "measure (\<lambda>(depth, g). Suc MAX_DEPTH - depth)") auto

declare gen_rand_expr.simps [simp del]

text \<open>One turn of the loop of \<open>main\<close>, up to the finished buffer.\<close>

definition gen_one :: "gen \<Rightarrow> gen" where
  "gen_one g = gen_rand_expr 0 (g\<lparr>buf := []\<rparr>)"

subsection \<open>What it generates\<close>

text \<open>The shapes of generated texts; \<open>Hole\<close> is the empty text that is left where the depth is
  exhausted.\<close>

datatype shape = Hole | Num nat | Paren shape | Bin shape string shape

fun shape_text :: "shape \<Rightarrow> string" where
  "shape_text Hole = []"
| "shape_text (Num n) = decimal_digits n"
| "shape_text (Paren t) = ''('' @ shape_text t @ '')''"
| "shape_text (Bin t s u) = shape_text t @ s @ shape_text u"

text \<open>An operator with or without a blank on either side.\<close>

definition operator_text :: "string \<Rightarrow> bool" where
  "operator_text s \<longleftrightarrow> (\<exists>a b c. s = a @ [c] @ b \<and> a \<in> {'''', '' ''} \<and> b \<in> {'''', '' ''} \<and> c \<in> set ''+-*/'')"

text \<open>Holes are exactly at the depth where the generator gives up.\<close>

fun shape_ok :: "nat \<Rightarrow> shape \<Rightarrow> bool" where
  "shape_ok d Hole \<longleftrightarrow> d = MAX_DEPTH + 1"
| "shape_ok d (Num n) \<longleftrightarrow> d \<le> MAX_DEPTH \<and> n < MAX_NUM"
| "shape_ok d (Paren t) \<longleftrightarrow> d \<le> MAX_DEPTH \<and> shape_ok (d + 1) t"
| "shape_ok d (Bin t s u) \<longleftrightarrow> 0 < d \<and> d \<le> MAX_DEPTH \<and> shape_ok (d + 1) t \<and> operator_text s \<and> shape_ok (d + 1) u"

lemma length_digits:
  assumes "n < 1000"
  shows "1 \<le> length (decimal_digits n) \<and> length (decimal_digits n) \<le> 3"
proof -
  have "n div 10 < 100" "n div 10 div 10 < 10" using assms by (simp_all add: div_mult2_eq [symmetric] less_mult_imp_div_less)
  then show ?thesis
    by (simp add: decimal_digits.simps [of n] decimal_digits.simps [of "n div 10"] decimal_digits.simps [of "n div 10 div 10"])
qed

lemma operator_length: "operator_text s \<Longrightarrow> length s \<le> 3"
  by (auto simp: operator_text_def)

lemma shape_length: "shape_ok d t \<Longrightarrow> d \<le> MAX_DEPTH + 1 \<Longrightarrow> length (shape_text t) + 3 \<le> 3 * 2 ^ (MAX_DEPTH + 1 - d)"
proof (induction t arbitrary: d)
  case (Num n)
  then obtain k where "MAX_DEPTH + 1 - d = Suc k" by (cases "MAX_DEPTH + 1 - d") auto
  moreover have "length (decimal_digits n) \<le> 3" using length_digits [of n] Num by (simp add: MAX_NUM_def)
  moreover have "(1 :: nat) \<le> 2 ^ k" by simp
  ultimately show ?case unfolding shape_text.simps by (simp only: power_Suc)
next
  case (Paren t)
  have d: "d \<le> MAX_DEPTH" "shape_ok (d + 1) t" using Paren.prems(1) by simp_all
  then have "length (shape_text t) + 3 \<le> 3 * 2 ^ (MAX_DEPTH - d)" using Paren.IH [of "d + 1"] by simp
  then show ?case using d(1) by (simp add: Suc_diff_le)
next
  case (Bin t s u)
  have d: "d \<le> MAX_DEPTH" "shape_ok (d + 1) t" "shape_ok (d + 1) u" "operator_text s" using Bin.prems(1) by simp_all
  then have "length (shape_text t) + 3 \<le> 3 * 2 ^ (MAX_DEPTH - d)" "length (shape_text u) + 3 \<le> 3 * 2 ^ (MAX_DEPTH - d)"
    using Bin.IH(1) [of "d + 1"] Bin.IH(2) [of "d + 1"] by simp_all
  then show ?case using d(1) operator_length [OF d(4)] by (simp add: Suc_diff_le)
qed simp

lemma cat_buf_room: "length (buf g) + length s < SIZEOF_BUF \<Longrightarrow> cat_buf s g = g\<lparr>buf := buf g @ s\<rparr>"
  by (simp add: cat_buf_def)

lemma choose_rand_spec: "choose_rand n g = (v, g1) \<Longrightarrow> 0 < n \<Longrightarrow> v < n \<and> buf g1 = buf g"
  by (auto simp: choose_rand_def rand_next_def)

lemma gen_rand_nums_spec:
  assumes "length (buf g) + 3 \<le> 65534"
  shows "\<exists>n < MAX_NUM. buf (gen_rand_nums g) = buf g @ decimal_digits n"
proof -
  obtain v g1 where v: "choose_rand MAX_NUM g = (v, g1)" by fastforce
  then have "v < MAX_NUM" "buf g1 = buf g" using choose_rand_spec [OF v] by (simp_all add: MAX_NUM_def)
  moreover from this have "length (decimal_digits v) \<le> SIZEOF_BUF - length (buf g) - 1 - 1"
    using assms length_digits [of v] unfolding SIZEOF_BUF_def MAX_NUM_def by linarith
  ultimately show ?thesis by (intro exI [of _ v]) (simp add: gen_rand_nums_def v)
qed

lemma gen_rand_space_spec:
  assumes "length (buf g) + 1 < SIZEOF_BUF"
  shows "\<exists>a \<in> {'''', '' ''}. buf (gen_rand_space g) = buf g @ a"
proof -
  obtain r g1 where r: "choose_rand 4 g = (r, g1)" by fastforce
  then show ?thesis using choose_rand_spec [OF r] assms by (auto simp: gen_rand_space_def cat_buf_room)
qed

lemma gen_rand_operator_spec:
  assumes "length (buf g) + 3 < SIZEOF_BUF"
  shows "\<exists>s. operator_text s \<and> buf (gen_rand_operator g) = buf g @ s"
proof -
  have "length (buf g) + 1 < SIZEOF_BUF" using assms by linarith
  then obtain a where a: "a \<in> {'''', '' ''}" "buf (gen_rand_space g) = buf g @ a"
    using gen_rand_space_spec [of g] by blast
  obtain r g1 where r: "choose_rand 4 (gen_rand_space g) = (r, g1)" by fastforce
  note r' = choose_rand_spec [OF r]
  define ch where "ch = (if r = 0 then CHR ''+'' else if r = 1 then CHR ''-'' else if r = 2 then CHR ''*'' else CHR ''/'')"
  have ch: "ch \<in> set ''+-*/''" by (simp add: ch_def)
  define g2 where "g2 = cat_buf [ch] g1"
  have la: "length a \<le> 1" using a(1) by auto
  then have "length (buf g1) + 1 < SIZEOF_BUF" using r' a(2) assms by simp
  then have g2: "buf g2 = buf g @ a @ [ch]" using r' a(2) by (simp add: g2_def cat_buf_room)
  have o: "gen_rand_operator g = gen_rand_space g2"
  proof -
    have "r = 0 \<or> r = 1 \<or> r = 2 \<or> r = 3" using r' by linarith
    then show ?thesis by (elim disjE) (simp_all add: gen_rand_operator_def g2_def ch_def r)
  qed
  have "length (buf g2) + 1 < SIZEOF_BUF" using g2 la assms by simp
  then obtain b where b: "b \<in> {'''', '' ''}" "buf (gen_rand_space g2) = buf g2 @ b"
    using gen_rand_space_spec [of g2] by blast
  have "operator_text (a @ [ch] @ b)"
    unfolding operator_text_def using a(1) b(1) ch by blast
  then show ?thesis using o b(2) g2 by (intro exI [of _ "a @ [ch] @ b"]) simp
qed

lemma gen_rand_expr_spec:
  assumes "d \<le> MAX_DEPTH + 1" and "length (buf g) + 3 * 2 ^ (MAX_DEPTH + 1 - d) \<le> 65534"
  shows "\<exists>t. shape_ok d t \<and> buf (gen_rand_expr d g) = buf g @ shape_text t"
  using assms
proof (induction "MAX_DEPTH + 1 - d" arbitrary: d g)
  case 0
  then show ?case by (intro exI [of _ Hole]) (simp add: gen_rand_expr.simps)
next
  case (Suc k)
  have d: "d \<le> MAX_DEPTH" and k: "k = MAX_DEPTH + 1 - (d + 1)" "MAX_DEPTH + 1 - d = Suc k" using Suc.hyps(2) by simp_all
  have room: "length (buf g) + 3 * 2 ^ k + 3 * 2 ^ k \<le> 65534" and one: "(1 :: nat) \<le> 2 ^ k"
    using Suc.prems(2) k(2) by simp_all
  note IH = Suc.hyps(1) [OF k(1), unfolded k(1) [symmetric]]
  have short: "length (shape_text t) + 3 \<le> 3 * 2 ^ k" if "shape_ok (d + 1) t" for t
    using shape_length [OF that] d k(1) by simp
  obtain v g1 where v: "rand_next g = (v, g1)" and g1: "buf g1 = buf g" by (auto simp: rand_next_def)
  let ?r = "v mod (if d = 0 then 2 else 3)"
  have e: "gen_rand_expr d g = (if ?r = 0 then gen_rand_nums g1
      else if ?r = 1 then cat_buf '')'' (gen_rand_expr (d + 1) (cat_buf ''('' g1))
      else gen_rand_expr (d + 1) (gen_rand_operator (gen_rand_expr (d + 1) g1)))"
    using d room by (subst gen_rand_expr.simps) (simp add: v Let_def)
  consider "?r = 0" | "?r = 1" | "?r \<noteq> 0" "?r \<noteq> 1" by blast
  then show ?case
  proof cases
    case 1
    have "length (buf g1) + 3 \<le> 65534" unfolding g1 using room one by linarith
    then obtain n where "n < MAX_NUM" "buf (gen_rand_nums g1) = buf g @ decimal_digits n"
      using gen_rand_nums_spec [of g1] g1 by auto
    then show ?thesis using 1 e d by (intro exI [of _ "Num n"]) simp
  next
    case 2
    have "length (buf g) + 1 < SIZEOF_BUF" using room one by (simp add: SIZEOF_BUF_def)
    then have c: "buf (cat_buf ''('' g1) = buf g @ ''(''" using g1 by (simp add: cat_buf_room)
    moreover have "length (buf (cat_buf ''('' g1)) + 3 * 2 ^ k \<le> 65534" unfolding c length_append list.size using room one by linarith
    ultimately obtain t where t: "shape_ok (d + 1) t" "buf (gen_rand_expr (d + 1) (cat_buf ''('' g1)) = buf g @ ''('' @ shape_text t"
      using IH [of "cat_buf ''('' g1"] d by auto
    then show ?thesis using short [OF t(1)] 2 e d room
      by (intro exI [of _ "Paren t"]) (simp add: cat_buf_room SIZEOF_BUF_def)
  next
    case 3
    then have "0 < d" by (auto intro: gr0I)
    obtain t where t: "shape_ok (d + 1) t" "buf (gen_rand_expr (d + 1) g1) = buf g @ shape_text t"
      using IH [of g1] g1 d room by auto
    note lt = short [OF t(1)]
    obtain s where s: "operator_text s" "buf (gen_rand_operator (gen_rand_expr (d + 1) g1)) = buf g @ shape_text t @ s"
      using gen_rand_operator_spec [of "gen_rand_expr (d + 1) g1"] t(2) lt room by (auto simp: SIZEOF_BUF_def)
    obtain u where "shape_ok (d + 1) u"
        "buf (gen_rand_expr (d + 1) (gen_rand_operator (gen_rand_expr (d + 1) g1))) = buf g @ shape_text t @ s @ shape_text u"
      using IH [of "gen_rand_operator (gen_rand_expr (d + 1) g1)"] s lt operator_length [OF s(1)] d room by auto
    then show ?thesis using t s 3 e d \<open>0 < d\<close> by (intro exI [of _ "Bin t s u"]) simp
  qed
qed

text \<open>Generated expressions.  Whatever the random numbers are, one turn of the generator
  leaves in the buffer a text built from numbers below 1000, parentheses and the four operators,
  nested at most to the depth limit and shorter than the buffer, so that nothing is cut off;
  where the limit is reached a part of the expression is empty.\<close>

theorem gen_expr_bounded:
  "\<exists>t. shape_ok 0 t \<and> buf (gen_one g) = shape_text t \<and> length (buf (gen_one g)) < SIZEOF_BUF"
proof -
  obtain t where t: "shape_ok 0 t" "buf (gen_one g) = shape_text t"
    using gen_rand_expr_spec [of 0 "g\<lparr>buf := []\<rparr>"] by (auto simp: gen_one_def MAX_DEPTH_def)
  then show ?thesis using shape_length [OF t(1)] by (auto simp: MAX_DEPTH_def SIZEOF_BUF_def)
qed


end
