(* ===== verification/Decode_Hex.thy ===== *)
theory Decode_Hex
  imports Decode
begin

text \<open>
  Patterns in hexadecimal: \<open>pattern_decode_hex\<close> of \<open>nemu/include/cpu/decode.h\<close>, and that it means
  the binary pattern with four characters for each digit.
\<close>

definition hex_pattern_char :: "char \<Rightarrow> bool" where
  "hex_pattern_char ch \<longleftrightarrow> ch \<in> set ''0123456789abcdef?''"

text \<open>\<open>c - '0'\<close> and \<open>c - 'a' + 10\<close>.\<close>

definition hex_pattern_value :: "char \<Rightarrow> u64" where
  "hex_pattern_value ch =
     (if ch = CHR ''?'' then 0
      else if ch \<in> set ''0123456789'' then of_char ch - 48
      else of_char ch - 97 + 10)"

definition pattern_hex_char :: "char \<Rightarrow> u64 \<times> u64 \<times> nat \<Rightarrow> (u64 \<times> u64 \<times> nat) res" where
  "pattern_hex_char ch acc =
     (case acc of (key, msk, shift) \<Rightarrow>
        if ch \<noteq> CHR '' '' then
          bind_res (assert_res (Panic ''invalid character in pattern string'') (hex_pattern_char ch))
            (\<lambda>_. Inr (push_bit 4 key OR hex_pattern_value ch,
                      push_bit 4 msk OR (if ch = CHR ''?'' then 0 else 0xf),
                      (if ch = CHR ''?'' then shift + 4 else 0)))
        else Inr acc)"

fun pattern_hex_loop :: "string \<Rightarrow> u64 \<times> u64 \<times> nat \<Rightarrow> (u64 \<times> u64 \<times> nat) res" where
  "pattern_hex_loop [] acc = Inr acc"
| "pattern_hex_loop (ch # cs) acc = bind_res (pattern_hex_char ch acc) (pattern_hex_loop cs)"

definition pattern_decode_hex :: "string \<Rightarrow> (u64 \<times> u64 \<times> nat) res" where
  "pattern_decode_hex str =
     bind_res (pattern_hex_loop (take 16 str) (0, 0, 0)) (\<lambda>(key, msk, shift).
     if 16 \<le> length str then Inl (Panic ''pattern too long'')
     else Inr (drop_bit shift key, drop_bit shift msk, shift))"

subsection \<open>The binary pattern of a hexadecimal one\<close>

definition bit_char :: "bool \<Rightarrow> char" where
  "bit_char b = (if b then CHR ''1'' else CHR ''0'')"

definition hex_to_bits :: "char \<Rightarrow> string" where
  "hex_to_bits ch =
     (if ch = CHR '' '' then '' ''
      else if ch = CHR ''?'' then ''????''
      else map (\<lambda>k. bit_char (bit (hex_pattern_value ch) k)) [3, 2, 1, 0])"

lemma hex_to_bits_table:
  "hex_to_bits CHR '' '' = '' ''" "hex_to_bits CHR ''?'' = ''????''"
  "hex_to_bits CHR ''0'' = ''0000''" "hex_to_bits CHR ''1'' = ''0001''" "hex_to_bits CHR ''2'' = ''0010''"
  "hex_to_bits CHR ''3'' = ''0011''" "hex_to_bits CHR ''4'' = ''0100''" "hex_to_bits CHR ''5'' = ''0101''"
  "hex_to_bits CHR ''6'' = ''0110''" "hex_to_bits CHR ''7'' = ''0111''" "hex_to_bits CHR ''8'' = ''1000''"
  "hex_to_bits CHR ''9'' = ''1001''" "hex_to_bits CHR ''a'' = ''1010''" "hex_to_bits CHR ''b'' = ''1011''"
  "hex_to_bits CHR ''c'' = ''1100''" "hex_to_bits CHR ''d'' = ''1101''" "hex_to_bits CHR ''e'' = ''1110''"
  "hex_to_bits CHR ''f'' = ''1111''"
  by (simp_all add: hex_to_bits_def hex_pattern_value_def bit_char_def)

lemma shift_one:
  "push_bit 1 (numeral k :: u64) = numeral (Num.Bit0 k)" "push_bit 1 (1 :: u64) = 2" "push_bit 1 (0 :: u64) = 0"
proof -
  have p: "push_bit 1 x = x + x" for x :: u64 by (simp add: mult_2_right)
  show "push_bit 1 (numeral k :: u64) = numeral (Num.Bit0 k)" by (simp only: p numeral_Bit0)
  show "push_bit 1 (1 :: u64) = 2" "push_bit 1 (0 :: u64) = 0" by (simp_all only: p one_add_one add_0)
qed

lemma pattern_hex_char_bits:
  assumes "hex_pattern_char ch \<or> ch = CHR '' ''"
  shows "pattern_hex_char ch acc = pattern_loop (hex_to_bits ch) acc"
proof -
  obtain key msk shift where acc: "acc = (key, msk, shift)" by (cases acc)
  have "ch \<in> set ''0123456789abcdef? ''" using assms by (auto simp: hex_pattern_char_def)
  then show ?thesis unfolding acc
    by (simp, elim disjE) (simp_all add: pattern_hex_char_def hex_pattern_char_def hex_to_bits_table hex_pattern_value_def
        pattern_char_def push_bit_or or.assoc shift_one del: push_bit_Suc One_nat_def)
qed

text \<open>A hexadecimal pattern, whatever blanks it has, is decoded to the key, mask and shift of its
  binary form.\<close>

theorem pattern_decode_hex_bits:
  assumes "list_all (\<lambda>ch. hex_pattern_char ch \<or> ch = CHR '' '') str" and "length str < 16"
  shows "pattern_decode_hex str = pattern_decode (concat (map hex_to_bits str))"
proof -
  have loop: "pattern_hex_loop cs = pattern_loop (concat (map hex_to_bits cs))"
    if "list_all (\<lambda>ch. hex_pattern_char ch \<or> ch = CHR '' '') cs" for cs
    using that
  proof (induction cs)
    case (Cons ch cs)
    then have "pattern_hex_loop cs = pattern_loop (concat (map hex_to_bits cs))" by simp
    then show ?case using Cons.prems by (intro ext) (simp add: pattern_loop_append pattern_hex_char_bits)
  qed (rule ext, simp)
  have "length (hex_to_bits ch) \<le> 4" for ch by (simp add: hex_to_bits_def)
  then have len: "length (concat (map hex_to_bits cs)) \<le> 4 * length cs" for cs
    by (induction cs) (simp_all add: add_mono)
  have "length (concat (map hex_to_bits str)) < 64" using len [of str] assms(2) by linarith
  then show ?thesis using loop [OF assms(1)] assms(2) by (simp add: pattern_decode_hex_def pattern_decode_def)
qed

theorem pattern_decode_hex_bits_witness: "pattern_decode_hex ''0? f3'' = pattern_decode ''0000???? 11110011''"
  using pattern_decode_hex_bits [of "''0? f3''"]
  by (simp add: hex_pattern_char_def hex_to_bits_def hex_pattern_value_def bit_char_def)

end
