(* ===== verification/Npc.thy ===== *)
theory Npc
  imports Paddr
begin

text \<open>
  The memory side of the npc simulator (\<open>npc/csrc\<close>): the memory of the guest
  (\<open>memory/memory.cpp\<close>, \<open>memory/paddr.cpp\<close>, \<open>memory/vaddr.cpp\<close>,
  \<open>1nclude/memory/host.h\<close>), its I/O maps (\<open>device/io/map.cpp\<close>, \<open>device/io/mmio.cpp\<close>),
  the serial port, the clock and the alarm (\<open>device/peripherals\<close>), and the functions the
  hardware calls through the DPI (\<open>emulator/dpic.cpp\<close>).

  The switches of \<open>1nclude/config.h\<close> are constants of the build and the definitions are those
  the preprocessor leaves: \<open>CONFIG_DEVICE\<close>, \<open>CONFIG_DIFFTEST\<close>, \<open>CONFIG_ETRACE\<close>,
  \<open>CONFIG_HAS_SERIAL\<close> and \<open>CONFIG_HAS_RTC\<close> are on; the other tracers and the screen are off.
  A pointer into \<open>io_space\<close> is its offset there.  The host is in the state: the
  characters \<open>getchar\<close> returns and the readings of \<open>gettimeofday\<close> are functions of the
  number of the call, what the functions of the interface print goes to \<open>npc_stdout\<close>.  Lines of
  \<open>Log\<close> are not modelled.
\<close>

subsection \<open>State\<close>

datatype sim_run = SIM_RUNNING | SIM_STOP | SIM_END | SIM_ABORT | SIM_QUIT

record SIM_state =
  sim_st :: sim_run
  sim_halt_pc :: u32
  sim_halt_ret :: u32

record CORE_state =
  core_gpr :: "u32 list"
  core_pc :: u32
  core_csr :: "u32 list"
  core_inst :: u32

datatype npc_callback = rtc_io_cb | serial_io_cb

record npc_IOMap =
  nmap_name :: string
  nmap_low :: u32
  nmap_high :: u32
  nmap_space :: int
  nmap_callback :: "npc_callback option"

datatype npc_alarm = timer_intr_alarm

datatype npc_output =
    Put_char byte
  | Msg_ebreak
  | Msg_invalid u32
  | Msg_ecall "u32 list"
  | Msg_word u32 u32
  | Msg_bad_expr u32
  | Msg_ended

record npc =
  sim_state :: SIM_state
  core :: CORE_state
  npc_pmem :: bytes
  npc_io_space :: bytes
  npc_p_space :: int
  npc_maps :: "npc_IOMap list"
  rtc_port_base :: int
  npc_serial_base :: int
  npc_handlers :: "npc_alarm list"
  npc_skip_ref :: bool
  fetch_addr_prev :: u32
  fetch_inst_prev :: u32
  npc_stdin :: "nat \<Rightarrow> int"
  npc_stdin_reads :: nat
  npc_stdout :: "npc_output list"
  npc_stderr :: "byte list"
  npc_clock :: "nat \<Rightarrow> u64 \<times> u64"
  npc_clock_reads :: nat
  npc_boot_time :: u64

text \<open>The values the globals and statics start with.  The arguments are what the host will
  deliver.\<close>

definition core_zero :: CORE_state where
  "core_zero = \<lparr>core_gpr = replicate 16 0, core_pc = 0, core_csr = replicate 4 0, core_inst = 0\<rparr>"

definition sim_state_init :: SIM_state where
  "sim_state_init = \<lparr>sim_st = SIM_STOP, sim_halt_pc = 0, sim_halt_ret = 1\<rparr>"

definition npc_poweron :: "(nat \<Rightarrow> int) \<Rightarrow> (nat \<Rightarrow> u64 \<times> u64) \<Rightarrow> npc" where
  "npc_poweron inp clk =
     \<lparr>sim_state = sim_state_init, core = core_zero, npc_pmem = (\<lambda>_. 0),
      npc_io_space = (\<lambda>_. 0), npc_p_space = 0, npc_maps = [], rtc_port_base = 0, npc_serial_base = 0,
      npc_handlers = [], npc_skip_ref = False, fetch_addr_prev = 0, fetch_inst_prev = 0,
      npc_stdin = inp, npc_stdin_reads = 0, npc_stdout = [], npc_stderr = [],
      npc_clock = clk, npc_clock_reads = 0, npc_boot_time = 0\<rparr>"

definition npc_MBASE :: u32 where
  "npc_MBASE = 0x80000000"

definition npc_MSIZE :: u32 where
  "npc_MSIZE = 0x8000000"

definition npc_PMEM_LEFT :: u32 where
  "npc_PMEM_LEFT = npc_MBASE"

definition npc_RESET_VECTOR :: u32 where
  "npc_RESET_VECTOR = npc_PMEM_LEFT + 0"

definition npc_DEVICE_BASE :: u32 where
  "npc_DEVICE_BASE = 0xa0000000"

definition npc_SERIAL_ADDR :: u32 where
  "npc_SERIAL_ADDR = npc_DEVICE_BASE + 0x3f8"

definition npc_RTC_ADDR :: u32 where
  "npc_RTC_ADDR = npc_DEVICE_BASE + 0x48"

definition npc_difftest_skip_ref :: "'a npc_scheme \<Rightarrow> 'a npc_scheme" where
  "npc_difftest_skip_ref s = s\<lparr>npc_skip_ref := True\<rparr>"

subsection \<open>The host clock\<close>

definition npc_get_time_internal :: "'a npc_scheme \<Rightarrow> u64 \<times> 'a npc_scheme" where
  "npc_get_time_internal s =
     (case npc_clock s (npc_clock_reads s) of (tv_sec, tv_usec) \<Rightarrow>
        (tv_sec * 1000000 + tv_usec, s\<lparr>npc_clock_reads := npc_clock_reads s + 1\<rparr>))"

definition npc_get_time :: "'a npc_scheme \<Rightarrow> u64 \<times> 'a npc_scheme" where
  "npc_get_time s =
     (let s1 = (if npc_boot_time s = 0
                then (case npc_get_time_internal s of (t, s') \<Rightarrow> s'\<lparr>npc_boot_time := t\<rparr>)
                else s)
      in (case npc_get_time_internal s1 of (now, s2) \<Rightarrow> (now - npc_boot_time s2, s2)))"

subsection \<open>Host accesses\<close>

definition npc_host_read :: "int \<Rightarrow> bytes \<Rightarrow> int \<Rightarrow> int \<Rightarrow> u32 res" where
  "npc_host_read sz m a len =
     (if len = 1 then
        bind_res (assert_res Out_of_bounds (in_object sz a 1)) (\<lambda>_. Inr (ucast (m a)))
      else if len = 2 then
        bind_res (assert_res Out_of_bounds (in_object sz a 2))
          (\<lambda>_. Inr (join2 (m a) (m (a + 1))))
      else if len = 4 then
        bind_res (assert_res Out_of_bounds (in_object sz a 4))
          (\<lambda>_. Inr (join4 (m a) (m (a + 1)) (m (a + 2)) (m (a + 3))))
      else Inr 0)"

definition npc_host_write :: "int \<Rightarrow> bytes \<Rightarrow> int \<Rightarrow> int \<Rightarrow> u32 \<Rightarrow> bytes res" where
  "npc_host_write sz m a len data =
     (if len = 1 then
        bind_res (assert_res Out_of_bounds (in_object sz a 1))
          (\<lambda>_. Inr (m(a := byte_of data 0)))
      else if len = 2 then
        bind_res (assert_res Out_of_bounds (in_object sz a 2))
          (\<lambda>_. Inr (m(a := byte_of data 0, a + 1 := byte_of data 1)))
      else if len = 4 then
        bind_res (assert_res Out_of_bounds (in_object sz a 4))
          (\<lambda>_. Inr (m(a := byte_of data 0, a + 1 := byte_of data 1,
                      a + 2 := byte_of data 2, a + 3 := byte_of data 3)))
      else Inr m)"

subsection \<open>I/O maps\<close>

definition npc_map_inside :: "npc_IOMap \<Rightarrow> u32 \<Rightarrow> bool" where
  "npc_map_inside m a \<longleftrightarrow> a \<ge> nmap_low m \<and> a \<le> nmap_high m"

fun npc_find_from :: "npc_IOMap list \<Rightarrow> int \<Rightarrow> u32 \<Rightarrow> int" where
  "npc_find_from [] i a = -1"
| "npc_find_from (m # ms) i a = (if npc_map_inside m a then i else npc_find_from ms (i + 1) a)"

definition npc_find_mapid_by_addr :: "u32 \<Rightarrow> 'a npc_scheme \<Rightarrow> int \<times> 'a npc_scheme" where
  "npc_find_mapid_by_addr a s =
     (let i = npc_find_from (npc_maps s) 0 a
      in (i, if i = -1 then s else npc_difftest_skip_ref s))"

definition npc_new_space :: "int \<Rightarrow> 'a npc_scheme \<Rightarrow> (int \<times> 'a npc_scheme) res" where
  "npc_new_space sz s =
     (let p = npc_p_space s; p' = p + page_round sz
      in bind_res (assert_res Assertion (p' < IO_SPACE_MAX))
           (\<lambda>_. Inr (p, s\<lparr>npc_p_space := p'\<rparr>)))"

definition npc_check_bound :: "npc_IOMap option \<Rightarrow> u32 \<Rightarrow> npc_IOMap res" where
  "npc_check_bound mo a =
     (case mo of
        None \<Rightarrow> Inl (Panic ''address is out of bound'')
      | Some m \<Rightarrow>
          if a \<le> nmap_high m \<and> a \<ge> nmap_low m then Inr m
          else Inl (Panic ''address is out of bound''))"

text \<open>The handlers of the two devices.  A store to the clock's registers goes through
  \<open>rtc_port_base\<close>.\<close>

definition npc_rtc_io_handler :: "u32 \<Rightarrow> int \<Rightarrow> bool \<Rightarrow> 'a npc_scheme \<Rightarrow> 'a npc_scheme res" where
  "npc_rtc_io_handler offset len is_write s =
     bind_res (assert_res Assertion (offset = 0 \<or> offset = 4)) (\<lambda>_.
     if \<not> is_write \<and> offset = 4 then
       (case npc_get_time s of (us, s1) \<Rightarrow>
          bind_res (npc_host_write IO_SPACE_MAX (npc_io_space s1) (rtc_port_base s1) 4 (ucast us)) (\<lambda>b1.
          bind_res (npc_host_write IO_SPACE_MAX b1 (rtc_port_base s1 + 4) 4 (ucast (drop_bit 32 us))) (\<lambda>b2.
          Inr (s1\<lparr>npc_io_space := b2\<rparr>))))
     else Inr s)"

definition npc_serial_putc :: "byte \<Rightarrow> 'a npc_scheme \<Rightarrow> 'a npc_scheme" where
  "npc_serial_putc ch s = s\<lparr>npc_stderr := npc_stderr s @ [ch]\<rparr>"

definition npc_serial_io_handler :: "u32 \<Rightarrow> int \<Rightarrow> bool \<Rightarrow> 'a npc_scheme \<Rightarrow> 'a npc_scheme res" where
  "npc_serial_io_handler offset len is_write s =
     bind_res (assert_res Assertion (len = 1)) (\<lambda>_.
     if offset = 0 then
       (if is_write then
          bind_res (npc_host_read IO_SPACE_MAX (npc_io_space s) (npc_serial_base s) 1) (\<lambda>ch.
          Inr (npc_serial_putc (ucast ch) s))
        else Inl (Panic ''do not support read''))
     else Inl (Panic ''do not support offset''))"

definition npc_invoke_callback ::
  "npc_callback option \<Rightarrow> u32 \<Rightarrow> int \<Rightarrow> bool \<Rightarrow> 'a npc_scheme \<Rightarrow> 'a npc_scheme res" where
  "npc_invoke_callback c offset len is_write s =
     (case c of
        None \<Rightarrow> Inr s
      | Some rtc_io_cb \<Rightarrow> npc_rtc_io_handler offset len is_write s
      | Some serial_io_cb \<Rightarrow> npc_serial_io_handler offset len is_write s)"

definition npc_map_read ::
  "u32 \<Rightarrow> int \<Rightarrow> npc_IOMap option \<Rightarrow> 'a npc_scheme \<Rightarrow> (u32 \<times> 'a npc_scheme) res" where
  "npc_map_read a len mo s =
     bind_res (assert_res Assertion (len \<ge> 1 \<and> len \<le> 8)) (\<lambda>_.
     bind_res (npc_check_bound mo a) (\<lambda>m.
     let offset = a - nmap_low m in
     bind_res (npc_invoke_callback (nmap_callback m) offset len False s) (\<lambda>s'.
     bind_res (npc_host_read IO_SPACE_MAX (npc_io_space s') (nmap_space m + uint offset) len) (\<lambda>v.
     Inr (v, s')))))"

definition npc_map_write ::
  "u32 \<Rightarrow> int \<Rightarrow> u32 \<Rightarrow> npc_IOMap option \<Rightarrow> 'a npc_scheme \<Rightarrow> 'a npc_scheme res" where
  "npc_map_write a len data mo s =
     bind_res (assert_res Assertion (len \<ge> 1 \<and> len \<le> 8)) (\<lambda>_.
     bind_res (npc_check_bound mo a) (\<lambda>m.
     let offset = a - nmap_low m in
     bind_res (npc_host_write IO_SPACE_MAX (npc_io_space s) (nmap_space m + uint offset) len data) (\<lambda>b.
     npc_invoke_callback (nmap_callback m) offset len True (s\<lparr>npc_io_space := b\<rparr>))))"

text \<open>\<open>map_init\<close>: the bytes of the fresh buffer are arbitrary.\<close>

definition npc_map_init :: "bytes \<Rightarrow> 'a npc_scheme \<Rightarrow> 'a npc_scheme" where
  "npc_map_init fresh s = s\<lparr>npc_io_space := fresh, npc_p_space := 0\<rparr>"

definition npc_fetch_mmio_map :: "u32 \<Rightarrow> 'a npc_scheme \<Rightarrow> npc_IOMap option \<times> 'a npc_scheme" where
  "npc_fetch_mmio_map a s =
     (case npc_find_mapid_by_addr a s of
        (mapid, s') \<Rightarrow> (if mapid = -1 then None else Some (npc_maps s ! nat mapid), s'))"

definition npc_in_pmem :: "u32 \<Rightarrow> bool" where
  "npc_in_pmem a \<longleftrightarrow> a - npc_MBASE < npc_MSIZE"

definition npc_overlaps :: "u32 \<Rightarrow> u32 \<Rightarrow> npc_IOMap \<Rightarrow> bool" where
  "npc_overlaps left right m \<longleftrightarrow> left \<le> nmap_high m \<and> right \<ge> nmap_low m"

definition npc_add_mmio_map ::
  "string \<Rightarrow> u32 \<Rightarrow> int \<Rightarrow> u32 \<Rightarrow> npc_callback option \<Rightarrow> 'a npc_scheme \<Rightarrow> 'a npc_scheme res" where
  "npc_add_mmio_map name a space len callback s =
     bind_res (assert_res Assertion (length (npc_maps s) < NR_MAP)) (\<lambda>_.
     let left = a; right = a + len - 1 in
     if npc_in_pmem left \<or> npc_in_pmem right then Inl (Panic ''MMIO region is overlapped with pmem'')
     else if list_ex (npc_overlaps left right) (npc_maps s)
     then Inl (Panic ''MMIO region is overlapped'')
     else Inr (s\<lparr>npc_maps := npc_maps s @
            [\<lparr>nmap_name = name, nmap_low = a, nmap_high = a + len - 1,
              nmap_space = space, nmap_callback = callback\<rparr>]\<rparr>))"

definition npc_mmio_read :: "u32 \<Rightarrow> int \<Rightarrow> 'a npc_scheme \<Rightarrow> (u32 \<times> 'a npc_scheme) res" where
  "npc_mmio_read a len s = (case npc_fetch_mmio_map a s of (m, s') \<Rightarrow> npc_map_read a len m s')"

definition npc_mmio_write :: "u32 \<Rightarrow> int \<Rightarrow> u32 \<Rightarrow> 'a npc_scheme \<Rightarrow> 'a npc_scheme res" where
  "npc_mmio_write a len data s =
     (case npc_fetch_mmio_map a s of (m, s') \<Rightarrow> npc_map_write a len data m s')"

subsection \<open>Physical and virtual memory\<close>

definition npc_guest_to_host :: "u32 \<Rightarrow> int" where
  "npc_guest_to_host paddr = uint paddr - uint npc_MBASE"

definition npc_host_to_guest :: "int \<Rightarrow> u32" where
  "npc_host_to_guest haddr = word_of_int (haddr + uint npc_MBASE)"

definition npc_pmem_read :: "u32 \<Rightarrow> int \<Rightarrow> 'a npc_scheme \<Rightarrow> u32 res" where
  "npc_pmem_read a len s = npc_host_read (uint npc_MSIZE) (npc_pmem s) (npc_guest_to_host a) len"

definition npc_pmem_write :: "u32 \<Rightarrow> int \<Rightarrow> u32 \<Rightarrow> 'a npc_scheme \<Rightarrow> 'a npc_scheme res" where
  "npc_pmem_write a len data s =
     bind_res (npc_host_write (uint npc_MSIZE) (npc_pmem s) (npc_guest_to_host a) len data)
       (\<lambda>b. Inr (s\<lparr>npc_pmem := b\<rparr>))"

definition npc_paddr_read :: "u32 \<Rightarrow> int \<Rightarrow> 'a npc_scheme \<Rightarrow> (u32 \<times> 'a npc_scheme) res" where
  "npc_paddr_read a len s =
     (if npc_in_pmem a then bind_res (npc_pmem_read a len s) (\<lambda>v. Inr (v, s))
      else npc_mmio_read a len s)"

definition npc_paddr_write :: "u32 \<Rightarrow> int \<Rightarrow> u32 \<Rightarrow> 'a npc_scheme \<Rightarrow> 'a npc_scheme res" where
  "npc_paddr_write a len data s =
     (if npc_in_pmem a then npc_pmem_write a len data s
      else npc_mmio_write a len data s)"

definition npc_vaddr_read :: "u32 \<Rightarrow> int \<Rightarrow> 'a npc_scheme \<Rightarrow> (u32 \<times> 'a npc_scheme) res" where
  "npc_vaddr_read a len s = npc_paddr_read a len s"

definition npc_vaddr_write :: "u32 \<Rightarrow> int \<Rightarrow> u32 \<Rightarrow> 'a npc_scheme \<Rightarrow> 'a npc_scheme res" where
  "npc_vaddr_write a len data s = npc_paddr_write a len data s"

text \<open>\<open>mem_init\<close>: \<open>fill\<close> is what \<open>rand()\<close> returned, narrowed to a byte by
  \<open>memset\<close>; then the built-in program is copied to the reset vector.\<close>

definition img_default :: "u32 list" where
  "img_default = [0x00000013, 0x01600093, 0x00b08093, 0x00100073, 0x06308093]"

fun npc_memcpy_words :: "bytes \<Rightarrow> int \<Rightarrow> u32 list \<Rightarrow> bytes" where
  "npc_memcpy_words m a [] = m"
| "npc_memcpy_words m a (w # ws) =
     npc_memcpy_words
       (m(a := byte_of w 0, a + 1 := byte_of w 1, a + 2 := byte_of w 2, a + 3 := byte_of w 3)) (a + 4) ws"

definition mem_init :: "byte \<Rightarrow> 'a npc_scheme \<Rightarrow> 'a npc_scheme" where
  "mem_init fill s =
     s\<lparr>npc_pmem := npc_memcpy_words (\<lambda>_. fill) (npc_guest_to_host npc_RESET_VECTOR) img_default,
       core := (core s)\<lparr>core_pc := npc_RESET_VECTOR\<rparr>\<rparr>"

subsection \<open>Alarm and device initialisation\<close>

definition npc_MAX_HANDLER :: nat where
  "npc_MAX_HANDLER = 8"

definition npc_add_alarm_handle :: "npc_alarm \<Rightarrow> 'a npc_scheme \<Rightarrow> 'a npc_scheme res" where
  "npc_add_alarm_handle h s =
     bind_res (assert_res Assertion (length (npc_handlers s) < npc_MAX_HANDLER)) (\<lambda>_.
     Inr (s\<lparr>npc_handlers := npc_handlers s @ [h]\<rparr>))"

definition npc_serial_init :: "'a npc_scheme \<Rightarrow> 'a npc_scheme res" where
  "npc_serial_init s =
     bind_res (npc_new_space 8 s) (\<lambda>(p, s1).
     npc_add_mmio_map ''serial'' npc_SERIAL_ADDR p 8 (Some serial_io_cb) (s1\<lparr>npc_serial_base := p\<rparr>))"

definition npc_rtc_init :: "'a npc_scheme \<Rightarrow> 'a npc_scheme res" where
  "npc_rtc_init s =
     bind_res (npc_new_space 8 s) (\<lambda>(p, s1).
     bind_res (npc_add_mmio_map ''rtc'' npc_RTC_ADDR p 8 (Some rtc_io_cb) (s1\<lparr>rtc_port_base := p\<rparr>)) (\<lambda>s2.
     npc_add_alarm_handle timer_intr_alarm s2))"

text \<open>\<open>alarm_init\<close> only talks to the host (\<open>sigaction\<close>, \<open>setitimer\<close>), whose two calls
  succeed or not.\<close>

definition npc_device_init :: "bytes \<Rightarrow> bool \<Rightarrow> 'a npc_scheme \<Rightarrow> 'a npc_scheme res" where
  "npc_device_init fresh alarm_ok s =
     bind_res (npc_serial_init (npc_map_init fresh s)) (\<lambda>s1.
     bind_res (npc_rtc_init s1) (\<lambda>s2.
     bind_res (assert_res (Panic ''Can not set signal handler'') alarm_ok) (\<lambda>_. Inr s2)))"

subsection \<open>The functions the hardware calls\<close>

definition ebreak_exit :: "'a npc_scheme \<Rightarrow> 'a npc_scheme" where
  "ebreak_exit s =
     s\<lparr>npc_stdout := npc_stdout s @ [Msg_ebreak],
       sim_state := \<lparr>sim_st = SIM_END, sim_halt_pc = core_pc (core s), sim_halt_ret = 0\<rparr>\<rparr>"

definition inst_invalid :: "'a npc_scheme \<Rightarrow> 'a npc_scheme" where
  "inst_invalid s =
     s\<lparr>npc_stdout := npc_stdout s @ [Msg_invalid (core_pc (core s))],
       sim_state := \<lparr>sim_st = SIM_ABORT, sim_halt_pc = core_pc (core s), sim_halt_ret = 1\<rparr>\<rparr>"

definition npc_inst_fetch :: "'a npc_scheme \<Rightarrow> (u32 \<times> 'a npc_scheme) res" where
  "npc_inst_fetch s =
     (if core_pc (core s) = fetch_addr_prev s then Inr (fetch_inst_prev s, s)
      else bind_res (npc_vaddr_read (core_pc (core s)) 4 s) (\<lambda>(inst, s').
           Inr (inst, s'\<lparr>fetch_addr_prev := core_pc (core s'), fetch_inst_prev := inst\<rparr>)))"

definition inst_display :: "u32 \<Rightarrow> 'a npc_scheme \<Rightarrow> 'a npc_scheme" where
  "inst_display inst s = s\<lparr>core := (core s)\<lparr>core_inst := inst\<rparr>\<rparr>"

definition pc_display :: "u32 \<Rightarrow> 'a npc_scheme \<Rightarrow> 'a npc_scheme" where
  "pc_display p s = s\<lparr>core := (core s)\<lparr>core_pc := p\<rparr>\<rparr>"

definition npc_getchar :: "'a npc_scheme \<Rightarrow> int \<times> 'a npc_scheme" where
  "npc_getchar s = (npc_stdin s (npc_stdin_reads s), s\<lparr>npc_stdin_reads := npc_stdin_reads s + 1\<rparr>)"

definition mem_read :: "u32 \<Rightarrow> 'a npc_scheme \<Rightarrow> (u32 \<times> 'a npc_scheme) res" where
  "mem_read addr s =
     (let addr_aligned = addr AND NOT 3; offset = unat (addr AND 3) in
      if addr = npc_SERIAL_ADDR then
        (case npc_getchar (npc_difftest_skip_ref s) of (ch, s') \<Rightarrow> Inr (word_of_int ch, s'))
      else if addr = npc_RTC_ADDR then
        (case npc_get_time (npc_difftest_skip_ref s) of (us, s') \<Rightarrow> Inr (ucast us, s'))
      else if addr = npc_RTC_ADDR + 4 then
        (case npc_get_time (npc_difftest_skip_ref s) of (us, s') \<Rightarrow> Inr (ucast (drop_bit 32 us), s'))
      else
        bind_res (npc_vaddr_read addr_aligned 4 s) (\<lambda>(data, s').
        Inr (if offset \<noteq> 0 then drop_bit (offset * 8) data AND 0xFFFFFFFF else data, s')))"

text \<open>One round of the loop of \<open>mem_write\<close>, on the pair of \<open>mask_shift\<close> and
  \<open>data_shift\<close>.\<close>

definition mem_write_round :: "nat \<Rightarrow> byte \<Rightarrow> u32 \<Rightarrow> nat \<Rightarrow> u32 \<times> u32 \<Rightarrow> u32 \<times> u32" where
  "mem_write_round offset msk data i acc =
     (case acc of (mask_shift, data_shift) \<Rightarrow>
        if msk AND push_bit i 1 \<noteq> 0 then
          (let b = drop_bit (i * 8) data AND 0xFF in
           (mask_shift OR push_bit (((i + offset) mod 4) * 8) 0xFF,
            data_shift OR push_bit (((i + offset) mod 4) * 8) b))
        else (mask_shift, data_shift))"

definition mem_write_merge :: "nat \<Rightarrow> byte \<Rightarrow> u32 \<Rightarrow> u32 \<Rightarrow> u32" where
  "mem_write_merge offset msk data data_origin =
     (case fold (mem_write_round offset msk data) [0, 1, 2, 3] (0, 0) of
        (mask_shift, data_shift) \<Rightarrow>
          (data_origin AND NOT mask_shift) OR (data_shift AND mask_shift))"

definition mem_write :: "u32 \<Rightarrow> byte \<Rightarrow> u32 \<Rightarrow> 'a npc_scheme \<Rightarrow> 'a npc_scheme res" where
  "mem_write addr msk data s =
     (let addr_aligned = addr AND NOT 3; offset = unat (addr AND 3) in
      if addr = npc_SERIAL_ADDR then
        Inr ((npc_difftest_skip_ref s)\<lparr>npc_stdout := npc_stdout s @ [Put_char (ucast data)]\<rparr>)
      else
        bind_res (npc_paddr_read addr_aligned 4 s) (\<lambda>(data_origin, s1).
        npc_vaddr_write addr_aligned 4 (mem_write_merge offset msk data data_origin) s1))"

definition exception_display :: "'a npc_scheme \<Rightarrow> 'a npc_scheme" where
  "exception_display s = s\<lparr>npc_stdout := npc_stdout s @ [Msg_ecall (core_csr (core s))]\<rparr>"

definition gprfile_update :: "(nat \<Rightarrow> u32) \<Rightarrow> 'a npc_scheme \<Rightarrow> 'a npc_scheme" where
  "gprfile_update gprfile s =
     s\<lparr>core := (core s)\<lparr>core_gpr := fold (\<lambda>i g. g[i := gprfile i]) [0..<16] (core_gpr (core s))\<rparr>\<rparr>"

definition csrfile_update :: "u32 \<Rightarrow> u32 \<Rightarrow> u32 \<Rightarrow> u32 \<Rightarrow> 'a npc_scheme \<Rightarrow> 'a npc_scheme" where
  "csrfile_update mstatus mtvec mepc mcause s =
     s\<lparr>core := (core s)\<lparr>core_csr := (core_csr (core s))[0 := mstatus, 1 := mtvec, 2 := mepc, 3 := mcause]\<rparr>\<rparr>"

end
