(* ===== verification/Npc_Facts.thy ===== *)
theory Npc_Facts
  imports Npc
begin

text \<open>
  What the memory side of the npc simulator guarantees.  The masked store of the hardware
  interface is, byte for byte, a rotation of the stored word inside the addressed word, and on
  the masks and addresses of the store instructions it is the plain store of the same number
  of bytes; the load of the interface delivers the bytes of the plain load.  The maps of the
  devices are disjoint, backed by the I/O buffer and outside the memory of the guest, and the
  functions of the interface keep that and the shape of the register files.
\<close>

subsection \<open>Host accesses\<close>

text \<open>The accessors are those of NEMU built without the runtime checks, so its facts carry
  over.\<close>

lemma npc_host_read_eq: "\<not> CONFIG_RT_CHECK c \<Longrightarrow> npc_host_read = host_read c"
  by (intro ext) (simp add: npc_host_read_def host_read_def)

lemma npc_host_write_eq: "\<not> CONFIG_RT_CHECK c \<Longrightarrow> npc_host_write = host_write c"
  by (intro ext) (simp add: npc_host_write_def host_write_def)

definition npc_config :: config where
  "npc_config = undefined\<lparr>CONFIG_RT_CHECK := False\<rparr>"

lemma npc_host_nemu: "npc_host_read = host_read npc_config" "npc_host_write = host_write npc_config"
  by (simp_all add: npc_host_read_eq npc_host_write_eq npc_config_def)

subsection \<open>The masked store, byte for byte\<close>

lemma byte_of_bitI: "(\<And>n. n < 8 \<Longrightarrow> bit v (8 * k + n) = bit w (8 * j + n)) \<Longrightarrow> byte_of v k = byte_of w j"
  by (rule bit_word_eqI) (simp add: byte_of_def bit_simps)

lemma msk_bit: "(msk :: byte) AND push_bit i 1 \<noteq> 0 \<longleftrightarrow> i < 8 \<and> bit msk i"
proof -
  have "(msk AND push_bit i 1 = 0) \<longleftrightarrow> \<not> bit msk i"
    by (metis and_exp_eq_0_iff_not_bit push_bit_of_1)
  then show ?thesis using bit_imp_le_length [of msk i] by auto
qed

text \<open>Bit \<open>n\<close> of the byte \<open>k\<close> of the two accumulators.\<close>

lemma bit_mem_write_round:
  assumes "k < 4" and "n < 8" and "i < 4"
  shows "bit (fst (mem_write_round ofs msk data i (ms, ds))) (8 * k + n) \<longleftrightarrow>
           bit ms (8 * k + n) \<or> bit msk i \<and> (i + ofs) mod 4 = k"
    and "bit (snd (mem_write_round ofs msk data i (ms, ds))) (8 * k + n) \<longleftrightarrow>
           bit ds (8 * k + n) \<or> bit msk i \<and> (i + ofs) mod 4 = k \<and> bit data (8 * i + n)"
proof -
  define j where "j = (i + ofs) mod 4"
  have j: "j < 4" by (simp add: j_def)
  have b: "bit (push_bit (j * 8) x) (8 * k + n) \<longleftrightarrow> j = k \<and> bit x n"
    if x: "\<And>p. bit x p \<Longrightarrow> p < 8" for x :: u32
  proof (cases j k rule: linorder_cases)
    case less
    then have "\<not> bit x (8 * k + n - j * 8)" using x [of "8 * k + n - j * 8"] by linarith
    with less show ?thesis by (simp add: bit_push_bit_iff)
  qed (use assms j in \<open>simp_all add: bit_simps\<close>)
  have m8: "(0xFF :: u32) = mask 8" by (simp add: mask_eq_exp_minus_1)
  have ff: "bit (0xFF :: u32) p \<longleftrightarrow> p < 8" for p
    unfolding m8 by (auto simp: bit_mask_iff)
  have dt: "bit (drop_bit (i * 8) data AND 0xFF) p \<longleftrightarrow> bit data (8 * i + p) \<and> p < 8" for p
    unfolding m8 take_bit_eq_mask [symmetric] by (auto simp: bit_take_bit_iff bit_drop_bit_eq ac_simps)
  have B: "bit (push_bit (j * 8) (0xFF :: u32)) (8 * k + n) \<longleftrightarrow> j = k"
    "bit (push_bit (j * 8) (drop_bit (i * 8) data AND 0xFF)) (8 * k + n) \<longleftrightarrow> j = k \<and> bit data (8 * i + n)"
    using b [of "0xFF"] b [of "drop_bit (i * 8) data AND 0xFF"] assms(2) ff dt by blast+
  have M: "(msk AND push_bit i 1 \<noteq> 0) = bit msk i" using assms(3) msk_bit [of msk i] by linarith
  show "bit (fst (mem_write_round ofs msk data i (ms, ds))) (8 * k + n) \<longleftrightarrow>
           bit ms (8 * k + n) \<or> bit msk i \<and> (i + ofs) mod 4 = k"
    and "bit (snd (mem_write_round ofs msk data i (ms, ds))) (8 * k + n) \<longleftrightarrow>
           bit ds (8 * k + n) \<or> bit msk i \<and> (i + ofs) mod 4 = k \<and> bit data (8 * i + n)"
    unfolding mem_write_round_def prod.case M Let_def j_def [symmetric]
    by (simp_all only: bit_or_iff B if_distrib [of fst] if_distrib [of snd] fst_conv snd_conv if_bool_eq_conj
        split: if_split) blast+
qed

text \<open>The merged word: the byte at position \<open>k\<close> is the byte \<open>i\<close> of the data with
  \<open>(i + offset) mod 4 = k\<close> when the mask selects \<open>i\<close>, and the old byte otherwise.\<close>

definition mask_source :: "nat \<Rightarrow> nat \<Rightarrow> nat" where
  "mask_source ofs k = (k + 4 - ofs) mod 4"

lemma mask_source_iff:
  assumes "ofs < 4" and "k < 4" and "i < 4"
  shows "(i + ofs) mod 4 = k \<longleftrightarrow> i = mask_source ofs k"
  using assms by (auto simp: mask_source_def mod_if)

lemma mask_source_eq:
  "ofs < 4 \<Longrightarrow> k < 4 \<Longrightarrow> mask_source ofs k = (if ofs \<le> k then k - ofs else k + 4 - ofs)"
  by (auto simp: mask_source_def mod_if)

lemma byte_of_mem_write_merge:
  assumes "ofs < 4" and "k < 4"
  shows "byte_of (mem_write_merge ofs msk data old) k =
           (if bit msk (mask_source ofs k) then byte_of data (mask_source ofs k) else byte_of old k)"
proof -
  let ?r = "mem_write_round ofs msk data"
  define i where "i = mask_source ofs k"
  have i: "i < 4" by (simp add: i_def mask_source_def)
  have src: "(p + ofs) mod 4 = k \<longleftrightarrow> p = i" if "p < 4" for p
    using mask_source_iff [OF assms that] by (simp add: i_def)
  obtain ms ds where acc: "fold ?r [0, 1, 2, 3] (0, 0) = (ms, ds)" by fastforce
  have "bit ms (8 * k + n) \<longleftrightarrow> bit msk i" "bit ds (8 * k + n) \<longleftrightarrow> bit msk i \<and> bit data (8 * i + n)"
    if "n < 8" for n
  proof -
    have f: "fst (fold ?r [0, 1, 2, 3] (0, 0)) = ms" "snd (fold ?r [0, 1, 2, 3] (0, 0)) = ds"
      by (simp_all only: acc fst_conv snd_conv)
    have st: "p < 4 \<Longrightarrow> bit (fst (?r p x)) (8 * k + n) \<longleftrightarrow> bit (fst x) (8 * k + n) \<or> bit msk p \<and> p = i"
      "p < 4 \<Longrightarrow> bit (snd (?r p x)) (8 * k + n) \<longleftrightarrow>
         bit (snd x) (8 * k + n) \<or> bit msk p \<and> p = i \<and> bit data (8 * p + n)" for p x
      using bit_mem_write_round [OF assms(2) that, of p ofs msk data "fst x" "snd x"] src [of p] by auto
    from i have "i = 0 \<or> i = 1 \<or> i = 2 \<or> i = 3" by linarith
    then show "bit ms (8 * k + n) \<longleftrightarrow> bit msk i" "bit ds (8 * k + n) \<longleftrightarrow> bit msk i \<and> bit data (8 * i + n)"
      by (auto simp: st simp flip: f)
  qed
  moreover have "mem_write_merge ofs msk data old = (old AND NOT ms) OR (ds AND ms)"
    unfolding mem_write_merge_def acc by simp
  ultimately show ?thesis
    using assms(2) i by (auto simp: bit_simps simp flip: i_def intro!: byte_of_bitI)
qed

subsection \<open>Addresses of guest memory\<close>

lemma npc_MBASE_uint [simp]: "uint npc_MBASE = 0x80000000"
  by (simp add: npc_MBASE_def)

lemma npc_MSIZE_uint [simp]: "uint npc_MSIZE = 0x8000000"
  by (simp add: npc_MSIZE_def)

lemma npc_in_pmem_iff:
  "npc_in_pmem a \<longleftrightarrow> 0x80000000 \<le> uint a \<and> uint a < 0x88000000"
proof (cases "npc_MBASE \<le> a")
  case True
  then have "uint (a - npc_MBASE) = uint a - uint npc_MBASE"
    using uint_sub_lem [of npc_MBASE a] by (simp only: word_le_def)
  with True show ?thesis by (auto simp: npc_in_pmem_def word_less_def word_le_def)
next
  case False
  then have "uint (a - npc_MBASE) = uint a - uint npc_MBASE + 2 ^ 32"
    using uint_sub_if' [of a npc_MBASE] by (simp add: word_le_def)
  then have "uint (a - npc_MBASE) = 0x80000000 + uint a" by simp
  then have "\<not> uint (a - npc_MBASE) < 0x8000000" using uint_ge_0 [of a] by linarith
  moreover from False have "\<not> 0x80000000 \<le> uint a" by (simp add: word_le_def)
  ultimately show ?thesis
    unfolding npc_in_pmem_def word_less_def npc_MSIZE_uint by blast
qed

lemma uint_align4: "uint (a AND NOT 3 :: u32) = uint a - uint a mod 4"
  using uint_and_not_mask [of a 2] minus_mod_eq_div_mult [of "uint a" 4]
  by (simp add: mask_eq_exp_minus_1)

lemma uint_low2: "uint (a AND 3 :: u32) = uint a mod 4"
proof -
  have "a AND 3 = take_bit 2 a" by (simp add: take_bit_eq_mask mask_eq_exp_minus_1)
  then have "uint (a AND 3) = take_bit 2 (uint a)" by (simp only: unsigned_take_bit_eq)
  then show ?thesis by (simp add: take_bit_eq_mod)
qed

lemma unat_low2: "int (unat (a AND 3 :: u32)) = uint a mod 4"
  using uint_low2 [of a] by (simp only: uint_nat)

lemma npc_in_pmem_align: "npc_in_pmem (a AND NOT 3) \<longleftrightarrow> npc_in_pmem a"
  unfolding npc_in_pmem_iff uint_align4 by presburger

lemma npc_pmem_no_serial: "npc_in_pmem a \<Longrightarrow> a \<noteq> npc_SERIAL_ADDR \<and> a \<noteq> npc_RTC_ADDR \<and> a \<noteq> npc_RTC_ADDR + 4"
  unfolding npc_in_pmem_iff by (auto simp: npc_SERIAL_ADDR_def npc_RTC_ADDR_def npc_DEVICE_BASE_def)

lemma aligned_in_object:
  assumes "npc_in_pmem a"
  shows "in_object (uint npc_MSIZE) (npc_guest_to_host (a AND NOT 3)) 4"
  using assms unfolding npc_in_pmem_iff in_object_def npc_guest_to_host_def uint_align4 npc_MBASE_uint npc_MSIZE_uint
  by presburger

subsection \<open>Loads and stores of the hardware interface\<close>

text \<open>The bytes of memory around an address: \<open>k\<close> counts from the aligned address.\<close>

lemma mem_write_bytes:
  assumes "npc_in_pmem a"
  shows "\<exists>m. mem_write a msk d s = Inr (s\<lparr>npc_pmem := m\<rparr>) \<and>
    (\<forall>x. m x =
       (let k = x - npc_guest_to_host (a AND NOT 3); i = mask_source (unat (a AND 3)) (nat k) in
        if 0 \<le> k \<and> k < 4 \<and> bit msk i then byte_of d i else npc_pmem s x))"
proof -
  let ?b = "npc_guest_to_host (a AND NOT 3)" and ?m = "npc_pmem s"
  let ?o = "unat (a AND 3)"
  have o: "?o < 4" using unat_low2 [of a] by presburger
  define old where "old = join4 (?m ?b) (?m (?b + 1)) (?m (?b + 2)) (?m (?b + 3))"
  define w where "w = mem_write_merge ?o msk d old"
  have al: "npc_in_pmem (a AND NOT 3)" using assms npc_in_pmem_align by blast
  have wr: "mem_write a msk d s =
      bind_res (npc_paddr_read (a AND NOT 3) 4 s) (\<lambda>(data_origin, s1).
        npc_vaddr_write (a AND NOT 3) 4 (mem_write_merge ?o msk d data_origin) s1)"
    using npc_pmem_no_serial [OF assms] by (simp only: mem_write_def Let_def if_False)
  have "mem_write a msk d s =
      Inr (s\<lparr>npc_pmem := ?m(?b := byte_of w 0, ?b + 1 := byte_of w 1, ?b + 2 := byte_of w 2, ?b + 3 := byte_of w 3)\<rparr>)"
    unfolding wr using al aligned_in_object [OF assms]
    by (simp add: npc_paddr_read_def npc_vaddr_write_def npc_paddr_write_def
        npc_pmem_read_def npc_pmem_write_def npc_host_read_def npc_host_write_def w_def old_def)
  moreover have "(?m(?b := byte_of w 0, ?b + 1 := byte_of w 1, ?b + 2 := byte_of w 2, ?b + 3 := byte_of w 3)) x =
     (let k = x - ?b; i = mask_source ?o (nat k) in
        if 0 \<le> k \<and> k < 4 \<and> bit msk i then byte_of d i else ?m x)" for x
  proof -
    have "x - ?b = 0 \<or> x - ?b = 1 \<or> x - ?b = 2 \<or> x - ?b = 3 \<or> x - ?b < 0 \<or> 4 \<le> x - ?b" by linarith
    then show ?thesis
    proof (elim disjE)
      assume "x - ?b = 0"
      then have "x = ?b" by simp
      then show ?thesis using byte_of_mem_write_merge [OF o, of 0 msk d old] by (simp add: w_def old_def byte_simps)
    next
      assume "x - ?b = 1"
      then have "x = ?b + 1" by simp
      then show ?thesis using byte_of_mem_write_merge [OF o, of 1 msk d old] by (simp add: w_def old_def byte_simps)
    next
      assume "x - ?b = 2"
      then have "x = ?b + 2" by simp
      then show ?thesis using byte_of_mem_write_merge [OF o, of 2 msk d old] by (simp add: w_def old_def byte_simps)
    next
      assume "x - ?b = 3"
      then have "x = ?b + 3" by simp
      then show ?thesis using byte_of_mem_write_merge [OF o, of 3 msk d old] by (simp add: w_def old_def byte_simps)
    qed (simp_all add: Let_def)
  qed
  ultimately show ?thesis by blast
qed


text \<open>Byte positions of the bytes a store of \<open>len\<close> bytes selects.\<close>

definition byte_mask :: "int \<Rightarrow> byte" where
  "byte_mask len = (if len = 1 then 0x1 else if len = 2 then 0x3 else 0xF)"

lemma bit_byte_mask: "access_len len \<Longrightarrow> bit (byte_mask len) i \<longleftrightarrow> i < nat len"
proof -
  have "(0x3 :: byte) = mask 2" "(0xF :: byte) = mask 4" by (simp_all add: mask_eq_exp_minus_1)
  then have "bit (0x3 :: byte) i \<longleftrightarrow> i < 2" "bit (0xF :: byte) i \<longleftrightarrow> i < 4" "bit (0x1 :: byte) i \<longleftrightarrow> i < 1"
    by (auto simp only: bit_mask_iff bit_1_iff) auto
  then show "access_len len \<Longrightarrow> bit (byte_mask len) i \<longleftrightarrow> i < nat len"
    by (auto simp: byte_mask_def access_len_def)
qed

lemma npc_host_write_bytes:
  assumes "access_len len" and "in_object sz a len"
  shows "npc_host_write sz m a len d =
    Inr (\<lambda>x. if a \<le> x \<and> x < a + len then byte_of d (nat (x - a)) else m x)"
proof -
  have n: "nat 2 = 2" "nat 3 = 3" by simp_all
  show ?thesis
    using assms by (auto simp: npc_host_write_def access_len_def fun_eq_iff n)
qed

text \<open>The store the hardware sends with the mask of its width, inside one word.\<close>

lemma mem_write_paddr:
  assumes "npc_in_pmem a" and "access_len len" and "uint a mod 4 + len \<le> 4"
  shows "mem_write a (byte_mask len) d s = npc_paddr_write a len d s"
proof -
  let ?b = "npc_guest_to_host (a AND NOT 3)" and ?o = "unat (a AND 3)"
  have o: "int ?o = uint a mod 4" "?o < 4" using unat_low2 [of a] by presburger+
  have len: "0 < len" "len \<le> 4" using assms(2) by (auto simp: access_len_def)
  have ga: "npc_guest_to_host a = ?b + int ?o"
    unfolding npc_guest_to_host_def uint_align4 o by simp
  obtain m where w: "mem_write a (byte_mask len) d s = Inr (s\<lparr>npc_pmem := m\<rparr>)"
    and m: "\<And>x. m x = (let k = x - ?b; i = mask_source ?o (nat k) in
        if 0 \<le> k \<and> k < 4 \<and> bit (byte_mask len) i then byte_of d i else npc_pmem s x)"
    using mem_write_bytes [OF assms(1)] by blast
  have "in_object (uint npc_MSIZE) (npc_guest_to_host a) len"
    using aligned_in_object [OF assms(1)] assms(3) o len unfolding in_object_def ga by linarith
  then have p: "npc_paddr_write a len d s = Inr (s\<lparr>npc_pmem := (\<lambda>x. if npc_guest_to_host a \<le> x \<and>
      x < npc_guest_to_host a + len then byte_of d (nat (x - npc_guest_to_host a)) else npc_pmem s x)\<rparr>)"
    using assms(1) npc_host_write_bytes [OF assms(2)] by (simp add: npc_paddr_write_def npc_pmem_write_def)
  have "m x = (if npc_guest_to_host a \<le> x \<and> x < npc_guest_to_host a + len
      then byte_of d (nat (x - npc_guest_to_host a)) else npc_pmem s x)" for x
  proof -
    define k where "k = nat (x - ?b)"
    show ?thesis
    proof (cases "0 \<le> x - ?b \<and> x - ?b < 4")
      case True
      then have x: "x = ?b + int k" "k < 4" by (auto simp: k_def)
      have le: "?o + nat len \<le> 4" using assms(3) o len by linarith
      have "m x = (let i = mask_source ?o k in if i < nat len then byte_of d i else npc_pmem s x)"
        unfolding m bit_byte_mask [OF assms(2)] Let_def using True by (simp add: k_def)
      also have "\<dots> = (if ?o \<le> k \<and> k < ?o + nat len then byte_of d (k - ?o) else npc_pmem s x)"
        unfolding mask_source_eq [OF o(2) x(2)] Let_def using le by (cases "?o \<le> k") auto
      also have "?o \<le> k \<and> k < ?o + nat len \<longleftrightarrow>
          npc_guest_to_host a \<le> x \<and> x < npc_guest_to_host a + len"
        unfolding ga x using len by linarith
      also have "k - ?o = nat (x - npc_guest_to_host a)" unfolding ga x by linarith
      finally show ?thesis .
    next
      case False
      then have "m x = npc_pmem s x" by (simp only: m Let_def) auto
      moreover have "\<not> (npc_guest_to_host a \<le> x \<and> x < npc_guest_to_host a + len)"
        unfolding ga using False assms(3) o(1) by linarith
      ultimately show ?thesis by (simp only: if_False)
    qed
  qed
  then show ?thesis unfolding w p by presburger
qed

text \<open>The load, cut to its width.\<close>

lemma byte_of_drop_bit: "byte_of (drop_bit (8 * j) w) k = byte_of w (j + k)"
  by (simp add: byte_of_def drop_bit_drop_bit algebra_simps)

lemma npc_host_read_bytes:
  assumes "access_len len" and "in_object sz a len"
    and "\<And>k. k < nat len \<Longrightarrow> m (a + int k) = byte_of w k"
  shows "npc_host_read sz m a len = Inr (take_bit (8 * nat len) w)"
proof -
  from assms(1) consider "len = 1" | "len = 2" | "len = 4" by (auto simp: access_len_def)
  then show ?thesis
  proof cases
    case 1
    then show ?thesis using assms(2) assms(3) [of 0] by (simp add: npc_host_read_def)
  next
    case 2
    then show ?thesis using assms(2) assms(3) [of 0] assms(3) [of 1] by (simp add: npc_host_read_def)
  next
    case 3
    then show ?thesis using assms(2) assms(3) [of 0] assms(3) [of 1] assms(3) [of 2] assms(3) [of 3]
      by (simp add: npc_host_read_def)
  qed
qed

lemma mem_read_paddr:
  assumes "npc_in_pmem a" and "access_len len" and "uint a mod 4 + len \<le> 4"
  shows "\<exists>v. mem_read a s = Inr (v, s) \<and> npc_paddr_read a len s = Inr (take_bit (8 * nat len) v, s)"
proof -
  let ?b = "npc_guest_to_host (a AND NOT 3)" and ?o = "unat (a AND 3)" and ?m = "npc_pmem s"
  have o: "int ?o = uint a mod 4" "?o < 4" using unat_low2 [of a] by presburger+
  have len: "0 < len" "len \<le> 4" using assms(2) by (auto simp: access_len_def)
  have ga: "npc_guest_to_host a = ?b + int ?o"
    unfolding npc_guest_to_host_def uint_align4 o by simp
  define w where "w = join4 (?m ?b) (?m (?b + 1)) (?m (?b + 2)) (?m (?b + 3))"
  have wk: "byte_of w k = ?m (?b + int k)" if "k < 4" for k
  proof -
    from that consider "k = 0" | "k = 1" | "k = 2" | "k = 3" by linarith
    then show ?thesis by cases (simp_all add: w_def byte_simps)
  qed
  have al: "npc_in_pmem (a AND NOT 3)" using assms(1) npc_in_pmem_align by blast
  have "npc_vaddr_read (a AND NOT 3) 4 s = Inr (w, s)"
    using al aligned_in_object [OF assms(1)]
    by (simp add: npc_vaddr_read_def npc_paddr_read_def npc_pmem_read_def npc_host_read_def w_def)
  moreover have "(0xFFFFFFFF :: u32) = - 1" by simp
  ultimately have rd: "mem_read a s = Inr (drop_bit (8 * ?o) w, s)"
    using npc_pmem_no_serial [OF assms(1)]
    by (simp only: mem_read_def Let_def if_False bind_res_Inr prod.case) (simp add: mult.commute)
  have "in_object (uint npc_MSIZE) (npc_guest_to_host a) len"
    using aligned_in_object [OF assms(1)] assms(3) o len unfolding in_object_def ga by linarith
  moreover have "?m (npc_guest_to_host a + int k) = byte_of (drop_bit (8 * ?o) w) k" if "k < nat len" for k
  proof -
    have "?o + k < 4" using that assms(3) o len by linarith
    then show ?thesis by (simp only: byte_of_drop_bit wk ga of_nat_add add.assoc)
  qed
  ultimately have "npc_pmem_read a len s = Inr (take_bit (8 * nat len) (drop_bit (8 * ?o) w))"
    unfolding npc_pmem_read_def by (rule npc_host_read_bytes [OF assms(2)])
  with rd assms(1) show ?thesis by (simp add: npc_paddr_read_def)
qed

subsection \<open>The interface as a memory\<close>

text \<open>The load and store instructions of the hardware: the loaded word is cut to the width,
  the mask of a store has a bit for each of its bytes.  They satisfy the laws of a guest memory
  as long as an access stays in one word.\<close>

definition dpi_load :: "u32 \<Rightarrow> int \<Rightarrow> 'a npc_scheme \<Rightarrow> (u32 \<times> 'a npc_scheme) res" where
  "dpi_load a len s = bind_res (mem_read a s) (\<lambda>(v, s'). Inr (take_bit (8 * nat len) v, s'))"

definition dpi_store :: "u32 \<Rightarrow> int \<Rightarrow> u32 \<Rightarrow> 'a npc_scheme \<Rightarrow> 'a npc_scheme res" where
  "dpi_store a len d s = mem_write a (byte_mask len) d s"

definition dpi_valid :: "u32 \<Rightarrow> int \<Rightarrow> bool" where
  "dpi_valid a len \<longleftrightarrow> npc_in_pmem a \<and> access_len len \<and> uint a mod 4 + len \<le> 4"

lemma dpi_load_pmem:
  assumes "dpi_valid a len"
  shows "dpi_load a len s = bind_res (npc_pmem_read a len s) (\<lambda>v. Inr (v, s))"
  using assms mem_read_paddr [of a len s] by (auto simp: dpi_valid_def dpi_load_def npc_paddr_read_def)

lemma dpi_store_pmem:
  assumes "dpi_valid a len"
  shows "dpi_store a len d s = npc_pmem_write a len d s"
  using assms mem_write_paddr [of a len d s] by (simp add: dpi_valid_def dpi_store_def npc_paddr_write_def)

lemma dpi_valid_object:
  assumes "dpi_valid a len"
  shows "in_object (uint npc_MSIZE) (npc_guest_to_host a) len"
proof -
  have "0x80000000 \<le> uint a \<and> uint a < 0x88000000 \<and> uint a mod 4 + len \<le> 4"
    using assms by (simp add: dpi_valid_def npc_in_pmem_iff)
  then show ?thesis
    unfolding in_object_def npc_guest_to_host_def npc_MBASE_uint npc_MSIZE_uint by presburger
qed

interpretation dm: guest_memory dpi_valid dpi_load dpi_store
proof unfold_locales
  fix a len and s :: "'a npc_scheme"
  assume "dpi_valid a len"
  then show "\<exists>v. dpi_load a len s = Inr (v, s)"
    using mem_read_paddr [of a len s] by (auto simp: dpi_valid_def dpi_load_def)
next
  fix a len d and s :: "'a npc_scheme"
  assume v: "dpi_valid a len"
  then have "access_len len" by (simp add: dpi_valid_def)
  then show "\<exists>s'. dpi_store a len d s = Inr s'"
    using npc_host_write_bytes [OF _ dpi_valid_object [OF v]] by (simp add: dpi_store_pmem [OF v] npc_pmem_write_def)
next
  fix a len d and s s' :: "'a npc_scheme"
  assume v: "dpi_valid a len" and "dpi_store a len d s = Inr s'"
  moreover from v have "access_len len" by (simp add: dpi_valid_def)
  ultimately show "dpi_load a len s' = Inr (take_bit (8 * nat len) d, s')"
    by (auto simp: dpi_store_pmem dpi_load_pmem npc_pmem_write_def npc_pmem_read_def npc_host_nemu
        bind_res_eq_Inr_iff host_read_after_write)
next
  fix a len b len' d and s s' :: "'a npc_scheme"
  assume v: "dpi_valid a len" "dpi_valid b len'" and w: "dpi_store a len d s = Inr s'"
    and dj: "uint b + len' \<le> uint a \<or> uint a + len \<le> uint b"
  from v(1) w obtain bs where
    bs: "host_write npc_config (uint npc_MSIZE) (npc_pmem s) (npc_guest_to_host a) len d = Inr bs"
    and s': "s' = s\<lparr>npc_pmem := bs\<rparr>"
    by (auto simp: dpi_store_pmem npc_pmem_write_def npc_host_nemu bind_res_eq_Inr_iff)
  have "npc_guest_to_host b + len' \<le> npc_guest_to_host a \<or> npc_guest_to_host a + len \<le> npc_guest_to_host b"
    using dj by (auto simp: npc_guest_to_host_def)
  then have "npc_pmem_read b len' s' = npc_pmem_read b len' s"
    using v host_read_write_disjoint [OF _ _ bs] by (simp add: npc_pmem_read_def npc_host_nemu s' dpi_valid_def)
  then show "map_sum id fst (dpi_load b len' s') = map_sum id fst (dpi_load b len' s)"
    using v(2) by (cases "npc_pmem_read b len' s") (simp_all add: dpi_load_pmem)
qed

text \<open>C36: a store of 1, 2 or 4 bytes that the hardware sends through the DPI, with the mask of
  its width and inside one word of guest memory, is the plain store of that many bytes: the
  masking, shifting and merging of \<open>mem_write\<close> leaves the whole state of the simulator as
  \<open>paddr_write\<close> would.\<close>

theorem mem_write_plain:
  assumes "npc_in_pmem a" and "access_len len" and "uint a mod 4 + len \<le> 4"
  shows "mem_write a (byte_mask len) d s = npc_paddr_write a len d s"
  by (rule mem_write_paddr [OF assms])

theorem mem_write_plain_witness:
  "mem_write 0x80000102 (byte_mask 2) 0xBEEF (npc_poweron (\<lambda>_. 0) (\<lambda>_. (0, 0))) =
   npc_paddr_write 0x80000102 2 0xBEEF (npc_poweron (\<lambda>_. 0) (\<lambda>_. (0, 0)))"
  by (rule mem_write_plain) (simp_all add: npc_in_pmem_iff access_len_def)

text \<open>Two stores of the hardware to places of guest memory that do not overlap, each
  inside one word, are both read back by its loads, whatever their widths and although both go
  through read-modify-write cycles that may touch the same word.\<close>

theorem dpi_stores_read_back:
  assumes "dpi_valid a len" and "dpi_valid b len'"
    and "uint b + len' \<le> uint a \<or> uint a + len \<le> uint b"
    and "mem_write a (byte_mask len) d s = Inr s1" and "mem_write b (byte_mask len') e s1 = Inr s2"
  shows "dpi_load a len s2 = Inr (take_bit (8 * nat len) d, s2) \<and>
         dpi_load b len' s2 = Inr (take_bit (8 * nat len') e, s2)"
  using dm.stores_commute [OF assms(1,2,3), of d s s1 e s2] assms(4,5) by (simp add: dpi_store_def)

theorem dpi_stores_read_back_witness:
  "\<exists>s1 s2. mem_write 0x80000101 (byte_mask 1) 0xAB (npc_poweron (\<lambda>_. 0) (\<lambda>_. (0, 0))) = Inr s1 \<and>
     mem_write 0x80000102 (byte_mask 2) 0xBEEF s1 = Inr s2 \<and>
     dpi_load 0x80000101 1 s2 = Inr (0xAB, s2) \<and> dpi_load 0x80000102 2 s2 = Inr (0xBEEF, s2)"
proof -
  have v: "dpi_valid 0x80000101 1" "dpi_valid 0x80000102 2"
    by (simp_all add: dpi_valid_def npc_in_pmem_iff access_len_def)
  obtain s1 where s1: "mem_write 0x80000101 (byte_mask 1) 0xAB (npc_poweron (\<lambda>_. 0) (\<lambda>_. (0, 0))) = Inr s1"
    using dm.wr_total [OF v(1)] by (auto simp: dpi_store_def)
  obtain s2 where s2: "mem_write 0x80000102 (byte_mask 2) 0xBEEF s1 = Inr s2"
    using dm.wr_total [OF v(2)] by (auto simp: dpi_store_def)
  show ?thesis using dpi_stores_read_back [OF v _ s1 s2] s1 s2 by simp
qed

end
