(* ===== verification/Npc_Inv.thy ===== *)
theory Npc_Inv
  imports Npc_Facts
begin

text \<open>
  The invariant of the npc simulator's devices and registers: the maps do not overlap, each is
  backed by allocated bytes of the I/O buffer, and so are the registers the handlers write
  through their own pointers; the register files have their sizes.  Initialisation establishes
  it, every function of the hardware interface keeps it, and under it no load or store of the
  hardware, at any address and with any mask, leaves the host arrays.
\<close>

subsection \<open>The invariant\<close>

definition npc_map_backed :: "int \<Rightarrow> npc_IOMap \<Rightarrow> bool" where
  "npc_map_backed lim m \<longleftrightarrow>
     0 \<le> nmap_space m \<and> nmap_space m + uint (nmap_high m - nmap_low m) < lim"

definition npc_maps_disjoint :: "npc_IOMap list \<Rightarrow> bool" where
  "npc_maps_disjoint ms \<longleftrightarrow>
     (\<forall>i < length ms. \<forall>j < length ms. \<forall>a.
        npc_map_inside (ms ! i) a \<and> npc_map_inside (ms ! j) a \<longrightarrow> i = j)"

definition npc_base_ok :: "'a npc_scheme \<Rightarrow> npc_IOMap \<Rightarrow> bool" where
  "npc_base_ok s m \<longleftrightarrow>
     (nmap_callback m = Some rtc_io_cb \<longrightarrow> 0 \<le> rtc_port_base s \<and> rtc_port_base s + 8 \<le> npc_p_space s) \<and>
     (nmap_callback m = Some serial_io_cb \<longrightarrow> 0 \<le> npc_serial_base s \<and> npc_serial_base s + 8 \<le> npc_p_space s)"

definition npc_io_wf :: "'a npc_scheme \<Rightarrow> bool" where
  "npc_io_wf s \<longleftrightarrow>
     0 \<le> npc_p_space s \<and> npc_p_space s < IO_SPACE_MAX \<and> 4096 dvd npc_p_space s \<and>
     length (npc_maps s) \<le> NR_MAP \<and> npc_maps_disjoint (npc_maps s) \<and>
     (\<forall>m \<in> set (npc_maps s). npc_map_backed (npc_p_space s) m \<and> npc_base_ok s m)"

definition npc_wf :: "'a npc_scheme \<Rightarrow> bool" where
  "npc_wf s \<longleftrightarrow> npc_io_wf s \<and> length (core_gpr (core s)) = 16 \<and> length (core_csr (core s)) = 4"

text \<open>The message by which the hardware last stopped the simulation.\<close>

fun is_verdict :: "npc_output \<Rightarrow> bool" where
  "is_verdict Msg_ebreak \<longleftrightarrow> True"
| "is_verdict (Msg_invalid p) \<longleftrightarrow> True"
| "is_verdict _ \<longleftrightarrow> False"

definition npc_verdict :: "'a npc_scheme \<Rightarrow> npc_output option" where
  "npc_verdict s = (let ms = filter is_verdict (npc_stdout s) in if ms = [] then None else Some (last ms))"

lemma npc_verdict_cong: "npc_stdout s' = npc_stdout s \<Longrightarrow> npc_verdict s' = npc_verdict s"
  by (simp add: npc_verdict_def)

lemma npc_verdict_append:
  "npc_stdout s' = npc_stdout s @ [m] \<Longrightarrow> npc_verdict s' = (if is_verdict m then Some m else npc_verdict s)"
  by (simp add: npc_verdict_def)

text \<open>What accesses leave alone.\<close>

definition npc_same :: "'a npc_scheme \<Rightarrow> 'a npc_scheme \<Rightarrow> bool" where
  "npc_same s s' \<longleftrightarrow>
     core s' = core s \<and> sim_state s' = sim_state s \<and> npc_maps s' = npc_maps s \<and>
     npc_p_space s' = npc_p_space s \<and> rtc_port_base s' = rtc_port_base s \<and>
     npc_serial_base s' = npc_serial_base s \<and> npc_handlers s' = npc_handlers s \<and>
     npc.more s' = npc.more s \<and> npc_verdict s' = npc_verdict s"

lemma npc_same_refl [simp]: "npc_same s s"
  by (simp add: npc_same_def)

lemma npc_same_trans: "npc_same s s1 \<Longrightarrow> npc_same s1 s2 \<Longrightarrow> npc_same s s2"
  by (simp add: npc_same_def)

lemma npc_same_upd [simp]:
  "npc_same s (s'\<lparr>npc_pmem := x\<rparr>) = npc_same s s'"
  "npc_same s (s'\<lparr>npc_io_space := y\<rparr>) = npc_same s s'"
  "npc_same s (s'\<lparr>npc_stderr := o2\<rparr>) = npc_same s s'"
  "npc_same s (s'\<lparr>npc_stdin_reads := k\<rparr>) = npc_same s s'"
  "npc_same s (s'\<lparr>npc_clock_reads := k\<rparr>) = npc_same s s'"
  "npc_same s (s'\<lparr>npc_boot_time := t\<rparr>) = npc_same s s'"
  "npc_same s (s'\<lparr>npc_skip_ref := b\<rparr>) = npc_same s s'"
  "npc_same s (s'\<lparr>fetch_addr_prev := p\<rparr>) = npc_same s s'"
  "npc_same s (s'\<lparr>fetch_inst_prev := p\<rparr>) = npc_same s s'"
  by (auto simp: npc_same_def npc_verdict_def)

lemma npc_same_print [simp]:
  "\<not> is_verdict m \<Longrightarrow> npc_stdout s' = o1 \<Longrightarrow> npc_same s (s'\<lparr>npc_stdout := o1 @ [m]\<rparr>) = npc_same s s'"
  by (auto simp: npc_same_def npc_verdict_def)

lemma npc_base_ok_same: "npc_same s s' \<Longrightarrow> npc_base_ok s' m = npc_base_ok s m"
  by (simp add: npc_same_def npc_base_ok_def)

lemma npc_io_wf_same: "npc_same s s' \<Longrightarrow> npc_io_wf s' = npc_io_wf s"
  using npc_base_ok_same [of s s'] by (simp add: npc_same_def npc_io_wf_def)

lemma npc_wf_same: "npc_same s s' \<Longrightarrow> npc_wf s' = npc_wf s"
  using npc_io_wf_same [of s s'] by (simp add: npc_same_def npc_wf_def)

subsection \<open>Frames\<close>

lemma npc_get_time_same: "npc_get_time s = (t, s') \<Longrightarrow> npc_same s s'"
  by (auto simp: npc_get_time_def npc_get_time_internal_def Let_def split: prod.splits if_splits)

lemma npc_callback_same:
  assumes "npc_invoke_callback c ofs len wr s = Inr s'"
  shows "npc_same s s'"
  using assms
  by (auto simp: npc_invoke_callback_def npc_rtc_io_handler_def npc_serial_io_handler_def npc_serial_putc_def
      bind_res_eq_Inr_iff split: option.splits npc_callback.splits if_splits prod.splits dest: npc_get_time_same)

lemma npc_map_read_same: "npc_map_read a len m s = Inr (v, s') \<Longrightarrow> npc_same s s'"
  by (auto simp: npc_map_read_def Let_def bind_res_eq_Inr_iff dest: npc_callback_same)

lemma npc_map_write_same: "npc_map_write a len d m s = Inr s' \<Longrightarrow> npc_same s s'"
  by (auto simp: npc_map_write_def Let_def bind_res_eq_Inr_iff dest!: npc_callback_same)
    (simp add: npc_same_def npc_verdict_def)

lemma npc_fetch_map_same: "npc_fetch_mmio_map a s = (m, s') \<Longrightarrow> npc_same s s'"
  by (auto simp: npc_fetch_mmio_map_def npc_find_mapid_by_addr_def npc_difftest_skip_ref_def Let_def
      split: if_splits)

lemma npc_paddr_read_same: "npc_paddr_read a len s = Inr (v, s') \<Longrightarrow> npc_same s s'"
  by (auto simp: npc_paddr_read_def npc_mmio_read_def bind_res_eq_Inr_iff split: if_splits prod.splits
      dest!: npc_map_read_same npc_fetch_map_same intro: npc_same_trans)

lemma npc_paddr_write_same: "npc_paddr_write a len d s = Inr s' \<Longrightarrow> npc_same s s'"
  by (auto simp: npc_paddr_write_def npc_pmem_write_def npc_mmio_write_def bind_res_eq_Inr_iff
      split: if_splits prod.splits dest!: npc_map_write_same npc_fetch_map_same intro: npc_same_trans)

lemma npc_inst_fetch_same: "npc_inst_fetch s = Inr (v, s') \<Longrightarrow> npc_same s s'"
  by (auto simp: npc_inst_fetch_def npc_vaddr_read_def bind_res_eq_Inr_iff split: if_splits
      dest: npc_paddr_read_same)

lemma skip_ref_same [simp]: "npc_same (npc_difftest_skip_ref s) s' = npc_same s s'"
  "npc_same s (npc_difftest_skip_ref s') = npc_same s s'"
  by (auto simp: npc_difftest_skip_ref_def npc_same_def npc_verdict_def)

lemma skip_ref_stdout [simp]: "npc_stdout (npc_difftest_skip_ref s) = npc_stdout s"
  by (simp add: npc_difftest_skip_ref_def)

lemma mem_read_same: "mem_read a s = Inr (v, s') \<Longrightarrow> npc_same s s'"
  by (auto simp: mem_read_def npc_vaddr_read_def npc_getchar_def Let_def bind_res_eq_Inr_iff
      split: if_splits prod.splits dest: npc_paddr_read_same npc_get_time_same)

lemma mem_write_same: "mem_write a msk d s = Inr s' \<Longrightarrow> npc_same s s'"
  by (auto simp: mem_write_def npc_vaddr_write_def Let_def bind_res_eq_Inr_iff
      split: if_splits dest!: npc_paddr_read_same npc_paddr_write_same intro: npc_same_trans)

subsection \<open>Lookup\<close>

lemma npc_find_from_bounds:
  assumes "npc_find_from ms i a = k" and "k \<noteq> -1" and "0 \<le> i"
  shows "i \<le> k \<and> nat (k - i) < length ms \<and> npc_map_inside (ms ! nat (k - i)) a"
  using assms
proof (induction ms i a rule: npc_find_from.induct)
  case 1
  then show ?case by simp
next
  case hyp: 2
  case (2 m ms i a)
  show ?case
  proof (cases "npc_map_inside m a")
    case False
    with 2 have "i + 1 \<le> k \<and> nat (k - (i + 1)) < length ms \<and> npc_map_inside (ms ! nat (k - (i + 1))) a"
      by simp
    moreover from this have "nat (k - i) = Suc (nat (k - (i + 1)))" by linarith
    ultimately show ?thesis by simp
  qed (use 2 in simp)
qed

lemma npc_fetch_map_Some:
  assumes "npc_fetch_mmio_map a s = (Some m, s')"
  shows "m \<in> set (npc_maps s) \<and> npc_map_inside m a"
proof -
  define k where "k = npc_find_from (npc_maps s) 0 a"
  have m: "m = npc_maps s ! nat k" and k: "k \<noteq> -1"
    using assms by (auto simp: npc_fetch_mmio_map_def npc_find_mapid_by_addr_def Let_def k_def split: if_splits)
  from npc_find_from_bounds [OF _ k, of "npc_maps s" 0 a] show ?thesis
    by (auto simp: m k_def)
qed

subsection \<open>Initialisation\<close>

lemma npc_new_space_wf:
  assumes "npc_io_wf s" and "npc_new_space 8 s = Inr (p, s')"
  shows "npc_io_wf s' \<and> p = npc_p_space s \<and> npc_p_space s' = p + 4096 \<and>
         s' = s\<lparr>npc_p_space := p + 4096\<rparr>"
proof -
  have "page_round 8 = 4096" by (simp add: page_round_eq)
  then have s': "p = npc_p_space s" "s' = s\<lparr>npc_p_space := p + 4096\<rparr>" "p + 4096 < IO_SPACE_MAX"
    using assms(2) by (auto simp: npc_new_space_def Let_def bind_res_eq_Inr_iff)
  then show ?thesis
    using assms(1) by (auto simp: npc_io_wf_def npc_map_backed_def npc_base_ok_def)
qed

lemma npc_maps_disjoint_snoc:
  assumes "npc_maps_disjoint ms" and "\<And>m' a. m' \<in> set ms \<Longrightarrow> npc_map_inside m' a \<Longrightarrow> \<not> npc_map_inside m a"
  shows "npc_maps_disjoint (ms @ [m])"
  using assms(1) unfolding npc_maps_disjoint_def
  by (auto simp: nth_append less_Suc_eq dest: assms(2) [OF nth_mem])

lemma npc_add_mmio_map_wf:
  assumes "npc_io_wf s" and "npc_add_mmio_map name a p 8 cb s = Inr s'"
    and "0 \<le> p" and "p + 8 \<le> npc_p_space s"
    and "cb = Some rtc_io_cb \<Longrightarrow> rtc_port_base s = p"
    and "cb = Some serial_io_cb \<Longrightarrow> npc_serial_base s = p"
  shows "npc_io_wf s'"
proof -
  let ?m = "\<lparr>nmap_name = name, nmap_low = a, nmap_high = a + 8 - 1, nmap_space = p, nmap_callback = cb\<rparr>"
  have s': "s' = s\<lparr>npc_maps := npc_maps s @ [?m]\<rparr>" and n: "length (npc_maps s) < NR_MAP"
    and no: "\<not> list_ex (npc_overlaps a (a + 8 - 1)) (npc_maps s)"
    using assms(2) by (auto simp: npc_add_mmio_map_def Let_def bind_res_eq_Inr_iff split: if_splits)
  have "npc_maps_disjoint (npc_maps s @ [?m])"
  proof (rule npc_maps_disjoint_snoc)
    fix m' b assume "m' \<in> set (npc_maps s)" "npc_map_inside m' b"
    with no show "\<not> npc_map_inside ?m b"
      by (auto simp: list_ex_iff npc_overlaps_def npc_map_inside_def)
  qed (use assms(1) in \<open>simp add: npc_io_wf_def\<close>)
  then show ?thesis
    using assms n by (auto simp: s' npc_io_wf_def npc_map_backed_def npc_base_ok_def)
qed

lemma npc_serial_init_wf:
  assumes "npc_io_wf s" and "npc_serial_init s = Inr s'" and "npc_maps s = []"
  shows "npc_io_wf s'"
proof -
  obtain p s1 where n: "npc_new_space 8 s = Inr (p, s1)"
    and a: "npc_add_mmio_map ''serial'' npc_SERIAL_ADDR p 8 (Some serial_io_cb) (s1\<lparr>npc_serial_base := p\<rparr>) = Inr s'"
    using assms(2) by (auto simp: npc_serial_init_def bind_res_eq_Inr_iff)
  note w = npc_new_space_wf [OF assms(1) n]
  have "npc_io_wf (s1\<lparr>npc_serial_base := p\<rparr>)"
    using w assms(3) by (auto simp: npc_io_wf_def)
  then show ?thesis
    using npc_add_mmio_map_wf [OF _ a] w assms(1) by (auto simp: npc_io_wf_def)
qed

lemma npc_rtc_init_wf:
  assumes "npc_io_wf s" and "npc_rtc_init s = Inr s'"
    and "\<forall>m \<in> set (npc_maps s). nmap_callback m \<noteq> Some rtc_io_cb"
  shows "npc_io_wf s'"
proof -
  obtain p s1 s2 where n: "npc_new_space 8 s = Inr (p, s1)"
    and a: "npc_add_mmio_map ''rtc'' npc_RTC_ADDR p 8 (Some rtc_io_cb) (s1\<lparr>rtc_port_base := p\<rparr>) = Inr s2"
    and h: "npc_add_alarm_handle timer_intr_alarm s2 = Inr s'"
    using assms(2) by (auto simp: npc_rtc_init_def bind_res_eq_Inr_iff)
  note w = npc_new_space_wf [OF assms(1) n]
  have "npc_io_wf (s1\<lparr>rtc_port_base := p\<rparr>)"
    using w assms(3) by (auto simp: npc_io_wf_def npc_base_ok_def)
  then have "npc_io_wf s2"
    using npc_add_mmio_map_wf [OF _ a] w assms(1) by (auto simp: npc_io_wf_def)
  then show ?thesis
    using h by (auto simp: npc_add_alarm_handle_def npc_io_wf_def npc_base_ok_def bind_res_eq_Inr_iff)
qed

lemma npc_io_wf_core [simp]: "npc_io_wf (s\<lparr>core := c\<rparr>) = npc_io_wf s"
  "npc_io_wf (s\<lparr>sim_state := x\<rparr>) = npc_io_wf s" "npc_io_wf (s\<lparr>npc_stdout := o1\<rparr>) = npc_io_wf s"
  by (auto simp: npc_io_wf_def npc_base_ok_def)

text \<open>From a state with no maps the two devices can always be registered.\<close>

lemma npc_device_init_ok:
  assumes "npc_maps s = []" and "npc_handlers s = []"
  shows "\<exists>s'. npc_device_init fresh True s = Inr s' \<and> npc_io_wf s' \<and> core s' = core s \<and> sim_state s' = sim_state s"
proof -
  have r: "page_round 8 = 4096" by (simp add: page_round_eq)
  have e: "\<exists>s1. npc_serial_init (npc_map_init fresh s) = Inr s1 \<and>
      npc_maps s1 = [\<lparr>nmap_name = ''serial'', nmap_low = npc_SERIAL_ADDR, nmap_high = npc_SERIAL_ADDR + 8 - 1,
        nmap_space = 0, nmap_callback = Some serial_io_cb\<rparr>] \<and> npc_p_space s1 = 4096 \<and> npc_handlers s1 = [] \<and>
      core s1 = core s \<and> sim_state s1 = sim_state s"
    using assms
    by (simp add: npc_serial_init_def npc_map_init_def npc_new_space_def r Let_def IO_SPACE_MAX_def
        npc_add_mmio_map_def NR_MAP_def npc_in_pmem_def npc_SERIAL_ADDR_def npc_DEVICE_BASE_def npc_MBASE_def npc_MSIZE_def)
  then obtain s1 where s1: "npc_serial_init (npc_map_init fresh s) = Inr s1"
      "npc_maps s1 = [\<lparr>nmap_name = ''serial'', nmap_low = npc_SERIAL_ADDR, nmap_high = npc_SERIAL_ADDR + 8 - 1,
        nmap_space = 0, nmap_callback = Some serial_io_cb\<rparr>]" "npc_p_space s1 = 4096" "npc_handlers s1 = []"
      "core s1 = core s" "sim_state s1 = sim_state s" by blast
  have "\<exists>s2. npc_rtc_init s1 = Inr s2 \<and> core s2 = core s1 \<and> sim_state s2 = sim_state s1"
    using s1
    by (simp add: npc_rtc_init_def npc_new_space_def r Let_def IO_SPACE_MAX_def npc_add_alarm_handle_def npc_MAX_HANDLER_def
        npc_add_mmio_map_def NR_MAP_def npc_in_pmem_def npc_overlaps_def npc_RTC_ADDR_def npc_SERIAL_ADDR_def
        npc_DEVICE_BASE_def npc_MBASE_def npc_MSIZE_def)
  then obtain s2 where s2: "npc_rtc_init s1 = Inr s2" "core s2 = core s1" "sim_state s2 = sim_state s1" by blast
  have "npc_io_wf (npc_map_init fresh s)"
    using assms by (simp add: npc_map_init_def npc_io_wf_def IO_SPACE_MAX_def npc_maps_disjoint_def)
  then have "npc_io_wf s1" using npc_serial_init_wf s1(1) assms(1) by (fastforce simp: npc_map_init_def)
  then have "npc_io_wf s2" using npc_rtc_init_wf s1(2) s2(1) by fastforce
  then show ?thesis using s1 s2 by (simp add: npc_device_init_def)
qed

subsection \<open>No access leaves the host arrays\<close>

lemma npc_host_read_safe: "in_object sz a 4 \<Longrightarrow> len = 4 \<or> len = 1 \<Longrightarrow> npc_host_read sz m a len \<noteq> Inl Out_of_bounds"
  by (auto simp: npc_host_read_def in_object_def)

lemma npc_host_write_safe: "in_object sz a 4 \<Longrightarrow> npc_host_write sz m a 4 d \<noteq> Inl Out_of_bounds"
  by (auto simp: npc_host_write_def in_object_def)

lemma p_space_room:
  assumes "npc_io_wf s"
  shows "npc_p_space s + 4096 \<le> IO_SPACE_MAX"
proof -
  have "4096 dvd npc_p_space s" "npc_p_space s < IO_SPACE_MAX" using assms by (auto simp: npc_io_wf_def)
  moreover have "4096 dvd IO_SPACE_MAX" by (simp add: IO_SPACE_MAX_def)
  ultimately show ?thesis using aligned_fits by simp
qed

lemma npc_callback_safe:
  assumes "npc_io_wf s" and "m \<in> set (npc_maps s)"
  shows "npc_invoke_callback (nmap_callback m) ofs len wr s \<noteq> Inl Out_of_bounds"
proof (cases "nmap_callback m")
  case (Some cb)
  have b: "npc_base_ok s m" using assms by (auto simp: npc_io_wf_def)
  note room = p_space_room [OF assms(1)]
  show ?thesis
  proof (cases cb)
    case rtc_io_cb
    then have o: "in_object IO_SPACE_MAX (rtc_port_base s) 4" "in_object IO_SPACE_MAX (rtc_port_base s + 4) 4"
      using b Some room by (auto simp: npc_base_ok_def in_object_def)
    obtain us s1 where t: "npc_get_time s = (us, s1)" by fastforce
    then have "rtc_port_base s1 = rtc_port_base s" using npc_get_time_same by (auto simp: npc_same_def)
    with rtc_io_cb Some o t show ?thesis
      by (auto simp: npc_invoke_callback_def npc_rtc_io_handler_def bind_res_eq_Inl_iff npc_host_write_safe)
  next
    case serial_io_cb
    then have "in_object IO_SPACE_MAX (npc_serial_base s) 4"
      using b Some room by (auto simp: npc_base_ok_def in_object_def)
    with serial_io_cb Some show ?thesis
      by (auto simp: npc_invoke_callback_def npc_serial_io_handler_def bind_res_eq_Inl_iff npc_host_read_safe)
  qed
qed (simp add: npc_invoke_callback_def)

lemma npc_map_access_object:
  assumes "npc_io_wf s" and "m \<in> set (npc_maps s)" and "npc_map_inside m a"
  shows "in_object IO_SPACE_MAX (nmap_space m + uint (a - nmap_low m)) 4"
proof -
  have b: "0 \<le> nmap_space m" "nmap_space m + uint (nmap_high m - nmap_low m) < npc_p_space s"
    using assms(1,2) by (auto simp: npc_io_wf_def npc_map_backed_def)
  have i: "nmap_low m \<le> a" "a \<le> nmap_high m" using assms(3) by (auto simp: npc_map_inside_def)
  then have "nmap_low m \<le> nmap_high m" by simp
  then have "uint (nmap_high m - nmap_low m) = uint (nmap_high m) - uint (nmap_low m)"
    using uint_sub_lem [of "nmap_low m" "nmap_high m"] by (simp add: word_le_def)
  moreover have "uint (a - nmap_low m) = uint a - uint (nmap_low m)"
    using i(1) uint_sub_lem [of "nmap_low m" a] by (simp add: word_le_def)
  moreover have "uint a \<le> uint (nmap_high m)" using i(2) by (simp add: word_le_def)
  ultimately have "uint (a - nmap_low m) \<le> uint (nmap_high m - nmap_low m)" by linarith
  then show ?thesis
    using b p_space_room [OF assms(1)] uint_ge_0 [of "a - nmap_low m"] unfolding in_object_def by linarith
qed

lemma npc_mmio_read_safe:
  assumes "npc_io_wf s"
  shows "npc_mmio_read a 4 s \<noteq> Inl Out_of_bounds"
proof -
  obtain mo s1 where f: "npc_fetch_mmio_map a s = (mo, s1)" by fastforce
  have same: "npc_same s s1" by (rule npc_fetch_map_same [OF f])
  show ?thesis
  proof (cases mo)
    case None
    then show ?thesis by (simp add: npc_mmio_read_def f npc_map_read_def npc_check_bound_def)
  next
    case (Some m)
    with f have m: "m \<in> set (npc_maps s)" "npc_map_inside m a" using npc_fetch_map_Some by blast+
    then have m1: "m \<in> set (npc_maps s1)" using same by (simp add: npc_same_def)
    have w1: "npc_io_wf s1" using npc_io_wf_same [OF same] assms by blast
    show ?thesis
      using npc_callback_safe [OF w1 m1] npc_map_access_object [OF assms m]
      by (auto simp: npc_mmio_read_def f Some npc_map_read_def npc_check_bound_def Let_def bind_res_eq_Inl_iff
          npc_host_read_safe)
  qed
qed

lemma npc_mmio_write_safe:
  assumes "npc_io_wf s"
  shows "npc_mmio_write a 4 d s \<noteq> Inl Out_of_bounds"
proof -
  obtain mo s1 where f: "npc_fetch_mmio_map a s = (mo, s1)" by fastforce
  have same: "npc_same s s1" by (rule npc_fetch_map_same [OF f])
  show ?thesis
  proof (cases mo)
    case None
    then show ?thesis by (simp add: npc_mmio_write_def f npc_map_write_def npc_check_bound_def)
  next
    case (Some m)
    with f have m: "m \<in> set (npc_maps s)" "npc_map_inside m a" using npc_fetch_map_Some by blast+
    have "npc_invoke_callback (nmap_callback m) ofs len wr (s1\<lparr>npc_io_space := b\<rparr>) \<noteq> Inl Out_of_bounds" for ofs len wr b
    proof (rule npc_callback_safe)
      have "npc_same s (s1\<lparr>npc_io_space := b\<rparr>)" using same by simp
      then show "npc_io_wf (s1\<lparr>npc_io_space := b\<rparr>)" using npc_io_wf_same assms by blast
      show "m \<in> set (npc_maps (s1\<lparr>npc_io_space := b\<rparr>))" using m(1) same by (simp add: npc_same_def)
    qed
    then show ?thesis
      using npc_map_access_object [OF assms m]
      by (auto simp: npc_mmio_write_def f Some npc_map_write_def npc_check_bound_def Let_def bind_res_eq_Inl_iff
          npc_host_write_safe)
  qed
qed

lemma npc_aligned_read_safe:
  "npc_io_wf s \<Longrightarrow> npc_paddr_read (a AND NOT 3) 4 s \<noteq> Inl Out_of_bounds"
  unfolding npc_paddr_read_def npc_in_pmem_align
  using aligned_in_object [of a] npc_mmio_read_safe [of s]
  by (auto simp: npc_pmem_read_def bind_res_eq_Inl_iff npc_host_read_safe)

lemma npc_aligned_write_safe:
  "npc_io_wf s \<Longrightarrow> npc_paddr_write (a AND NOT 3) 4 d s \<noteq> Inl Out_of_bounds"
  unfolding npc_paddr_write_def npc_in_pmem_align
  using aligned_in_object [of a] npc_mmio_write_safe [of s]
  by (auto simp: npc_pmem_write_def bind_res_eq_Inl_iff npc_host_write_safe)

lemma mem_read_safe: "npc_io_wf s \<Longrightarrow> mem_read a s \<noteq> Inl Out_of_bounds"
  using npc_aligned_read_safe [of s a]
  by (simp only: mem_read_def npc_vaddr_read_def Let_def) (auto simp: bind_res_eq_Inl_iff split: prod.splits)

lemma mem_write_safe: "npc_io_wf s \<Longrightarrow> mem_write a msk d s \<noteq> Inl Out_of_bounds"
proof -
  assume w: "npc_io_wf s"
  have "npc_paddr_write (a AND NOT 3) 4 x s1 \<noteq> Inl Out_of_bounds" if "npc_paddr_read (a AND NOT 3) 4 s = Inr (v, s1)" for v s1 x
    using npc_aligned_write_safe npc_io_wf_same [OF npc_paddr_read_same [OF that]] w by blast
  then show ?thesis
    using npc_aligned_read_safe [OF w, of a]
    by (simp only: mem_write_def npc_vaddr_write_def Let_def) (auto simp: bind_res_eq_Inl_iff)
qed

end
