(* ===== verification/Npc_Sim.thy ===== *)
theory Npc_Sim
  imports Npc
begin

text \<open>
  The npc simulator's control (\<open>npc/csrc/emulator/simulate.cpp\<close>, \<open>emulator/difftest.cpp\<close>,
  \<open>emulator/reg.cpp\<close>, \<open>device/device.cpp\<close>, \<open>utils/state.cpp\<close>,
  \<open>monitor/monitor.cpp\<close>, \<open>main.cpp\<close> and the commands of \<open>monitor/sdb/sdb.cpp\<close> that
  run the simulation or examine memory).

  The hardware (the class \<open>VCore\<close> that Verilator generates) and the reference of the
  differential test (a shared library) are parameters.  A call of \<open>dut->eval()\<close> is a tree of
  type \<open>dpi\<close>: the calls it makes through the DPI, each with the continuation that receives the
  answer, and the new state of the hardware at the leaf.  A \<open>design\<close> gives the tree for the
  inputs \<open>clock\<close>, \<open>reset\<close> and \<open>io_enable\<close> and the state.
\<close>

datatype 'd dpi =
    Dpi_done 'd
  | Dpi_ebreak_exit "'d dpi"
  | Dpi_inst_invalid "'d dpi"
  | Dpi_inst_fetch "u32 \<Rightarrow> 'd dpi"
  | Dpi_inst_display u32 "'d dpi"
  | Dpi_pc_display u32 "'d dpi"
  | Dpi_func_check int u32 u32 u32 "'d dpi"
  | Dpi_mem_read u32 "u32 \<Rightarrow> 'd dpi"
  | Dpi_mem_write u32 byte u32 "'d dpi"
  | Dpi_exception_display "'d dpi"
  | Dpi_gprfile_update "nat \<Rightarrow> u32" "'d dpi"
  | Dpi_csrfile_update u32 u32 u32 u32 "'d dpi"

text \<open>\<open>func_check\<close> has an empty body without the function tracer.\<close>

definition func_check :: "int \<Rightarrow> u32 \<Rightarrow> u32 \<Rightarrow> u32 \<Rightarrow> 'a npc_scheme \<Rightarrow> 'a npc_scheme" where
  "func_check rdest addr_curr addr_jump data_rsrc1 s = s"

primrec run_dpi :: "'d dpi \<Rightarrow> 'a npc_scheme \<Rightarrow> ('d \<times> 'a npc_scheme) res" where
  "run_dpi (Dpi_done d) s = Inr (d, s)"
| "run_dpi (Dpi_ebreak_exit t) s = run_dpi t (ebreak_exit s)"
| "run_dpi (Dpi_inst_invalid t) s = run_dpi t (inst_invalid s)"
| "run_dpi (Dpi_inst_fetch k) s = bind_res (npc_inst_fetch s) (\<lambda>(v, s'). run_dpi (k v) s')"
| "run_dpi (Dpi_inst_display i t) s = run_dpi t (inst_display i s)"
| "run_dpi (Dpi_pc_display p t) s = run_dpi t (pc_display p s)"
| "run_dpi (Dpi_func_check rd c j d t) s = run_dpi t (func_check rd c j d s)"
| "run_dpi (Dpi_mem_read a k) s = bind_res (mem_read a s) (\<lambda>(v, s'). run_dpi (k v) s')"
| "run_dpi (Dpi_mem_write a m d t) s = bind_res (mem_write a m d s) (run_dpi t)"
| "run_dpi (Dpi_exception_display t) s = run_dpi t (exception_display s)"
| "run_dpi (Dpi_gprfile_update g t) s = run_dpi t (gprfile_update g s)"
| "run_dpi (Dpi_csrfile_update c0 c1 c2 c3 t) s = run_dpi t (csrfile_update c0 c1 c2 c3 s)"

type_synonym 'd design = "bool \<Rightarrow> bool \<Rightarrow> bool \<Rightarrow> 'd \<Rightarrow> 'd dpi"

record 'd vcore =
  v_clock :: bool
  v_reset :: bool
  v_io_enable :: bool
  v_inner :: 'd

text \<open>The functions of the reference's shared library.\<close>

record 'r npc_ref =
  nref_init :: "int \<Rightarrow> 'r \<Rightarrow> 'r"
  nref_memcpy :: "u32 \<Rightarrow> byte list \<Rightarrow> 'r \<Rightarrow> 'r"
  nref_regcpy_to_ref :: "CORE_state \<Rightarrow> 'r \<Rightarrow> 'r"
  nref_regcpy_to_dut :: "'r \<Rightarrow> CORE_state \<Rightarrow> CORE_state"
  nref_exec :: "u64 \<Rightarrow> 'r \<Rightarrow> 'r"

datatype npc_event = Ev_SDL_QUIT | Ev_other

record ('d, 'r) simulator = npc +
  dut :: "'d vcore"
  nref :: 'r
  nref_core :: CORE_state
  sim_count :: u64
  guest_inst :: u64
  sim_time :: u64
  update_last :: u64
  sdl_events :: "nat \<Rightarrow> npc_event list"
  sdl_polls :: nat
  npc_batch_mode :: bool

subsection \<open>Clocking the hardware\<close>

definition npc_single_step :: "'d design \<Rightarrow> ('d, 'r) simulator \<Rightarrow> ('d, 'r) simulator res" where
  "npc_single_step ev s =
     (let d = (dut s)\<lparr>v_clock := \<not> v_clock (dut s)\<rparr> in
      bind_res (run_dpi (ev (v_clock d) (v_reset d) (v_io_enable d) (v_inner d)) (s\<lparr>dut := d\<rparr>)) (\<lambda>(i, s').
      Inr (s'\<lparr>dut := (dut s')\<lparr>v_inner := i\<rparr>, sim_count := sim_count s' + 1\<rparr>)))"

definition one_cycle :: "'d design \<Rightarrow> ('d, 'r) simulator \<Rightarrow> ('d, 'r) simulator res" where
  "one_cycle ev s = bind_res (npc_single_step ev s) (npc_single_step ev)"

definition enable_update :: "'d design \<Rightarrow> ('d, 'r) simulator \<Rightarrow> ('d, 'r) simulator res" where
  "enable_update ev s =
     bind_res (one_cycle ev (s\<lparr>dut := (dut s)\<lparr>v_io_enable := True\<rparr>\<rparr>)) (\<lambda>s1.
     bind_res (one_cycle ev s1) (\<lambda>s2.
     Inr (s2\<lparr>dut := (dut s2)\<lparr>v_io_enable := False\<rparr>\<rparr>)))"

subsection \<open>Differential testing\<close>

definition npc_regs_differ :: "nat \<Rightarrow> u32 list \<Rightarrow> u32 list \<Rightarrow> bool" where
  "npc_regs_differ n xs ys \<longleftrightarrow> list_ex (\<lambda>i. xs ! i \<noteq> ys ! i) [0..<n]"

definition npc_checkregs :: "CORE_state \<Rightarrow> u32 \<Rightarrow> ('d, 'r) simulator \<Rightarrow> ('d, 'r) simulator" where
  "npc_checkregs ref_r p s =
     (let fail = s\<lparr>sim_state := (sim_state s)\<lparr>sim_st := SIM_ABORT, sim_halt_pc := core_pc (core s)\<rparr>\<rparr> in
      if npc_regs_differ 16 (core_gpr (core s)) (core_gpr ref_r) then fail
      else if npc_regs_differ 4 (core_csr (core s)) (core_csr ref_r) then fail
      else s)"

definition npc_difftest_step :: "'r npc_ref \<Rightarrow> u32 \<Rightarrow> ('d, 'r) simulator \<Rightarrow> ('d, 'r) simulator" where
  "npc_difftest_step R p s =
     (if npc_skip_ref s then
        s\<lparr>nref := nref_regcpy_to_ref R (core s) (nref s), npc_skip_ref := False\<rparr>
      else
        (let r = nref_exec R 1 (nref s); c = nref_regcpy_to_dut R r (nref_core s)
         in npc_checkregs c p (s\<lparr>nref := r, nref_core := c\<rparr>)))"

definition npc_exec_once :: "'d design \<Rightarrow> 'r npc_ref \<Rightarrow> ('d, 'r) simulator \<Rightarrow> ('d, 'r) simulator res" where
  "npc_exec_once ev R s =
     (let pc_curr = core_pc (core s) in
      bind_res (enable_update ev s) (\<lambda>s1.
      bind_res (one_cycle ev s1) (\<lambda>s2.
      bind_res (one_cycle ev s2) (\<lambda>s3.
      Inr (npc_difftest_step R pc_curr s3)))))"

subsection \<open>Running\<close>

definition npc_TIMER_HZ :: u64 where
  "npc_TIMER_HZ = 60"

fun npc_poll_events :: "npc_event list \<Rightarrow> ('d, 'r) simulator \<Rightarrow> ('d, 'r) simulator" where
  "npc_poll_events [] s = s"
| "npc_poll_events (Ev_SDL_QUIT # es) s =
     npc_poll_events es (s\<lparr>sim_state := (sim_state s)\<lparr>sim_st := SIM_QUIT\<rparr>\<rparr>)"
| "npc_poll_events (Ev_other # es) s = npc_poll_events es s"

definition npc_device_update :: "('d, 'r) simulator \<Rightarrow> ('d, 'r) simulator" where
  "npc_device_update s =
     (case npc_get_time s of (now, s1) \<Rightarrow>
        if now - update_last s1 < 1000000 div npc_TIMER_HZ then s1
        else npc_poll_events (sdl_events s1 (sdl_polls s1))
               (s1\<lparr>update_last := now, sdl_polls := sdl_polls s1 + 1\<rparr>))"

fun npc_sim_loop :: "'d design \<Rightarrow> 'r npc_ref \<Rightarrow> nat \<Rightarrow> ('d, 'r) simulator \<Rightarrow> ('d, 'r) simulator res" where
  "npc_sim_loop ev R 0 s = Inr s"
| "npc_sim_loop ev R (Suc n) s =
     bind_res (npc_exec_once ev R s) (\<lambda>s1.
     let s2 = s1\<lparr>guest_inst := guest_inst s1 + 1\<rparr> in
     if sim_st (sim_state s2) \<noteq> SIM_RUNNING then Inr s2
     else npc_sim_loop ev R n (npc_device_update s2))"

definition npc_sim_finish :: "('d, 'r) simulator \<Rightarrow> ('d, 'r) simulator" where
  "npc_sim_finish s =
     (if sim_st (sim_state s) = SIM_RUNNING
      then s\<lparr>sim_state := (sim_state s)\<lparr>sim_st := SIM_STOP\<rparr>\<rparr> else s)"

definition sim_exec :: "'d design \<Rightarrow> 'r npc_ref \<Rightarrow> u64 \<Rightarrow> ('d, 'r) simulator \<Rightarrow> ('d, 'r) simulator res" where
  "sim_exec ev R n s =
     (if sim_st (sim_state s) = SIM_END \<or> sim_st (sim_state s) = SIM_ABORT
      then Inr (s\<lparr>npc_stdout := npc_stdout s @ [Msg_ended]\<rparr>)
      else
        (case npc_get_time (s\<lparr>sim_state := (sim_state s)\<lparr>sim_st := SIM_RUNNING\<rparr>\<rparr>) of (timer_start, s1) \<Rightarrow>
           bind_res (npc_sim_loop ev R (unat n) s1) (\<lambda>s2.
           case npc_get_time s2 of (timer_end, s3) \<Rightarrow>
             Inr (npc_sim_finish (s3\<lparr>sim_time := sim_time s3 + (timer_end - timer_start)\<rparr>)))))"

definition sim_reset :: "'d design \<Rightarrow> ('d, 'r) simulator \<Rightarrow> ('d, 'r) simulator res" where
  "sim_reset ev s =
     bind_res (npc_single_step ev (s\<lparr>dut := (dut s)\<lparr>v_reset := True\<rparr>\<rparr>)) (\<lambda>s1.
     bind_res (npc_single_step ev s1) (\<lambda>s2.
     bind_res (npc_single_step ev (s2\<lparr>dut := (dut s2)\<lparr>v_reset := False\<rparr>\<rparr>)) (\<lambda>s3.
     npc_single_step ev s3)))"

text \<open>\<open>sim_init\<close>: \<open>d0\<close> is the hardware as \<open>new VCore\<close> delivers it, its inputs zero.\<close>

definition sim_init :: "'d design \<Rightarrow> 'd \<Rightarrow> ('d, 'r) simulator \<Rightarrow> ('d, 'r) simulator res" where
  "sim_init ev d0 s =
     sim_reset ev (s\<lparr>dut := \<lparr>v_clock = True, v_reset = False, v_io_enable = False, v_inner = d0\<rparr>\<rparr>)"

subsection \<open>Registers by name\<close>

definition npc_regs :: "string list" where
  "npc_regs = [''$0'', ''ra'', ''sp'', ''gp'', ''tp'', ''t0'', ''t1'', ''t2'',
     ''s0'', ''s1'', ''a0'', ''a1'', ''a2'', ''a3'', ''a4'', ''a5'']"

fun npc_reg_index :: "string \<Rightarrow> string list \<Rightarrow> nat \<Rightarrow> nat option" where
  "npc_reg_index n [] i = None"
| "npc_reg_index n (r # rs) i = (if n = r then Some i else npc_reg_index n rs (Suc i))"

definition npc_reg_str2val :: "string \<Rightarrow> 'a npc_scheme \<Rightarrow> bool \<times> u32" where
  "npc_reg_str2val str s =
     (let n = (if str \<noteq> [] \<and> hd str = CHR ''$'' then tl str else str) in
      case npc_reg_index n npc_regs 0 of
        Some i \<Rightarrow> (True, core_gpr (core s) ! i)
      | None \<Rightarrow> if n = ''pc'' then (True, core_pc (core s)) else (False, 0))"

subsection \<open>Start and exit\<close>

definition npc_is_exit_status_bad :: "'a npc_scheme \<Rightarrow> int" where
  "npc_is_exit_status_bad s =
     (let good = (sim_st (sim_state s) = SIM_END \<and> sim_halt_ret (sim_state s) = 0) \<or>
                 (sim_st (sim_state s) = SIM_QUIT \<and> sim_halt_ret (sim_state s) = 0)
      in if good then 0 else 1)"

text \<open>\<open>load_img\<close>: \<open>img\<close> is the contents of the image file, if one was given.\<close>

definition npc_load_img :: "byte list option \<Rightarrow> ('d, 'r) simulator \<Rightarrow> (int \<times> ('d, 'r) simulator) res" where
  "npc_load_img img s =
     (case img of
        None \<Rightarrow> Inr (4096, s)
      | Some bs \<Rightarrow>
          bind_res (assert_res Assertion (bs \<noteq> [])) (\<lambda>_.
          bind_res (assert_res Out_of_bounds
            (in_object (uint npc_MSIZE) (npc_guest_to_host npc_RESET_VECTOR) (int (length bs)))) (\<lambda>_.
          let a = npc_guest_to_host npc_RESET_VECTOR in
          Inr (int (length bs),
               s\<lparr>npc_pmem := (\<lambda>x. if a \<le> x \<and> x < a + int (length bs) then bs ! nat (x - a)
                                   else npc_pmem s x)\<rparr>))))"

text \<open>\<open>so\<close> says whether a library was named and provides every function.\<close>

definition npc_difftest_init ::
  "'r npc_ref \<Rightarrow> bool \<Rightarrow> int \<Rightarrow> int \<Rightarrow> ('d, 'r) simulator \<Rightarrow> ('d, 'r) simulator res" where
  "npc_difftest_init R so img_size port s =
     bind_res (assert_res Assertion so) (\<lambda>_.
     let a = npc_guest_to_host npc_RESET_VECTOR; r1 = nref_init R port (nref s) in
     bind_res (assert_res Out_of_bounds (in_object (uint npc_MSIZE) a img_size)) (\<lambda>_.
     let r2 = nref_memcpy R npc_RESET_VECTOR (map (\<lambda>i. npc_pmem s (a + int i)) [0..<nat img_size]) r1 in
     Inr (s\<lparr>nref := nref_regcpy_to_ref R (core s) r2\<rparr>)))"

text \<open>What the process is given: its options and what the host answers.\<close>

record npc_args =
  opt_batch :: bool
  opt_img :: "byte list option"
  opt_so :: bool
  host_fill :: byte
  host_fresh :: bytes
  host_alarm_ok :: bool

definition npc_difftest_port :: int where
  "npc_difftest_port = 3614"

definition monitor_init :: "npc_args \<Rightarrow> 'r npc_ref \<Rightarrow> ('d, 'r) simulator \<Rightarrow> ('d, 'r) simulator res" where
  "monitor_init args R s =
     bind_res (npc_load_img (opt_img args) (mem_init (host_fill args) (s\<lparr>npc_batch_mode := opt_batch args\<rparr>))) (\<lambda>(img_size, s1).
     bind_res (npc_difftest_init R (opt_so args) img_size npc_difftest_port s1) (\<lambda>s2.
     npc_device_init (host_fresh args) (host_alarm_ok args) s2))"

text \<open>The commands that run the simulation.\<close>

definition npc_cmd_c :: "'d design \<Rightarrow> 'r npc_ref \<Rightarrow> ('d, 'r) simulator \<Rightarrow> (int \<times> ('d, 'r) simulator) res" where
  "npc_cmd_c ev R s = bind_res (sim_exec ev R (- 1) s) (\<lambda>s'. Inr (0, s'))"

definition npc_cmd_q :: "('d, 'r) simulator \<Rightarrow> int \<times> ('d, 'r) simulator" where
  "npc_cmd_q s = (-1, s\<lparr>sim_state := (sim_state s)\<lparr>sim_st := SIM_QUIT\<rparr>\<rparr>)"

text \<open>The command loop: in batch mode one \<open>c\<close>; otherwise the lines of the user, here the
  sequence of the commands that run or end the simulation or examine memory (\<open>si\<close> with its
  parsed number, \<open>x\<close> with its parsed number and the value of its expression, if it has one);
  the end of the input ends the loop.\<close>

datatype npc_command = Cmd_c | Cmd_q | Cmd_si "int option" | Cmd_x u32 "u32 option"

definition npc_cmd_si :: "'d design \<Rightarrow> 'r npc_ref \<Rightarrow> int option \<Rightarrow> ('d, 'r) simulator \<Rightarrow> (int \<times> ('d, 'r) simulator) res" where
  "npc_cmd_si ev R arg s =
     (let N = (case arg of None \<Rightarrow> 1 | Some n \<Rightarrow> n)
      in bind_res (sim_exec ev R (word_of_int N) s) (\<lambda>s'. Inr (0, s')))"

text \<open>The loop of \<open>x\<close> over the words that are left.  Its counter is an \<open>int\<close>, and so is
  \<open>i * 4\<close>.\<close>

fun npc_x_words :: "nat \<Rightarrow> int \<Rightarrow> u32 \<Rightarrow> ('d, 'r) simulator \<Rightarrow> ('d, 'r) simulator res" where
  "npc_x_words 0 i start s = Inr s"
| "npc_x_words (Suc k) i start s =
     bind_res (assert_res Signed_overflow (i * 4 < 2 ^ 31)) (\<lambda>_.
     let address = start + word_of_int (i * 4) in
     bind_res (npc_vaddr_read address 4 s) (\<lambda>(data, s1).
     npc_x_words k (i + 1) start (s1\<lparr>npc_stdout := npc_stdout s1 @ [Msg_word address data]\<rparr>)))"

definition npc_cmd_x :: "u32 \<Rightarrow> u32 option \<Rightarrow> ('d, 'r) simulator \<Rightarrow> (int \<times> ('d, 'r) simulator) res" where
  "npc_cmd_x N expr s =
     (case expr of
        None \<Rightarrow> Inr (0, s\<lparr>npc_stdout := npc_stdout s @ [Msg_bad_expr N]\<rparr>)
      | Some start_address \<Rightarrow> bind_res (npc_x_words (unat N) 0 start_address s) (\<lambda>s'. Inr (0, s')))"

fun npc_commands ::
  "'d design \<Rightarrow> 'r npc_ref \<Rightarrow> npc_command list \<Rightarrow> ('d, 'r) simulator \<Rightarrow> ('d, 'r) simulator res" where
  "npc_commands ev R [] s = Inr s"
| "npc_commands ev R (c # cs) s =
     bind_res (case c of
         Cmd_c \<Rightarrow> npc_cmd_c ev R s
       | Cmd_q \<Rightarrow> Inr (npc_cmd_q s)
       | Cmd_si n \<Rightarrow> npc_cmd_si ev R n s
       | Cmd_x n a \<Rightarrow> npc_cmd_x n a s)
       (\<lambda>(ret, s'). if ret < 0 then Inr s' else npc_commands ev R cs s')"

definition npc_sdb_mainloop ::
  "'d design \<Rightarrow> 'r npc_ref \<Rightarrow> npc_command list \<Rightarrow> ('d, 'r) simulator \<Rightarrow> ('d, 'r) simulator res" where
  "npc_sdb_mainloop ev R cs s =
     (if npc_batch_mode s then bind_res (npc_cmd_c ev R s) (\<lambda>(ret, s'). Inr s')
      else npc_commands ev R cs s)"

definition npc_main ::
  "npc_args \<Rightarrow> 'd design \<Rightarrow> 'd \<Rightarrow> 'r npc_ref \<Rightarrow> npc_command list \<Rightarrow> ('d, 'r) simulator \<Rightarrow> (int \<times> ('d, 'r) simulator) res" where
  "npc_main args ev d0 R cs s =
     bind_res (monitor_init args R s) (\<lambda>s1.
     bind_res (sim_init ev d0 s1) (\<lambda>s2.
     bind_res (npc_sdb_mainloop ev R cs s2) (\<lambda>s3.
     Inr (npc_is_exit_status_bad s3, s3))))"

definition simulator_poweron ::
  "(nat \<Rightarrow> int) \<Rightarrow> (nat \<Rightarrow> u64 \<times> u64) \<Rightarrow> (nat \<Rightarrow> npc_event list) \<Rightarrow> 'd \<Rightarrow> 'r \<Rightarrow> ('d, 'r) simulator" where
  "simulator_poweron inp clk evs d r =
     npc.extend (npc_poweron inp clk)
       \<lparr>dut = \<lparr>v_clock = False, v_reset = False, v_io_enable = False, v_inner = d\<rparr>, nref = r,
        nref_core = core_zero, sim_count = 0, guest_inst = 0, sim_time = 0, update_last = 0,
        sdl_events = evs, sdl_polls = 0, npc_batch_mode = False\<rparr>"

end
