(* ===== verification/Npc_Sim_Facts.thy ===== *)
theory Npc_Sim_Facts
  imports Npc_Inv Npc_Sim
begin

text \<open>
  What the npc simulator guarantees for every design and every reference: an invariant that
  each half cycle of the hardware keeps holds along every run (the locale
  \<open>npc_invariant\<close>).  It is interpreted for the safety of the host arrays and for the
  meaning of the exit status; differential testing is treated on its own.
\<close>

subsection \<open>Results that keep a predicate\<close>

definition runs_to :: "(error \<Rightarrow> bool) \<Rightarrow> ('a \<Rightarrow> bool) \<Rightarrow> 'a res \<Rightarrow> bool" where
  "runs_to E P r = (case r of Inl e \<Rightarrow> E e | Inr x \<Rightarrow> P x)"

lemma runs_to_Inr [simp]: "runs_to E P (Inr x) = P x"
  by (simp add: runs_to_def)

lemma runs_to_Inl [simp]: "runs_to E P (Inl e) = E e"
  by (simp add: runs_to_def)

lemma runs_to_bind:
  assumes "runs_to E P r" and "\<And>x. P x \<Longrightarrow> runs_to E Q (f x)"
  shows "runs_to E Q (bind_res r f)"
  using assms by (cases r) auto

lemma runs_toI: "(\<And>e. r = Inl e \<Longrightarrow> E e) \<Longrightarrow> (\<And>x. r = Inr x \<Longrightarrow> P x) \<Longrightarrow> runs_to E P r"
  by (cases r) auto

subsection \<open>Runs keep what half cycles keep\<close>

locale npc_step_invariant =
  fixes ev :: "'d design" and E :: "error \<Rightarrow> bool" and I :: "('d, 'r) simulator \<Rightarrow> bool"
  assumes step: "I s \<Longrightarrow> runs_to E I (npc_single_step ev s)"
    and inputs: "I s \<Longrightarrow> I (s\<lparr>dut := d\<rparr>)"
begin

lemma one_cycle_inv: "I s \<Longrightarrow> runs_to E I (one_cycle ev s)"
  unfolding one_cycle_def by (rule runs_to_bind [OF step step])

lemma enable_update_inv: "I s \<Longrightarrow> runs_to E I (enable_update ev s)"
  unfolding enable_update_def
  by (rule runs_to_bind [OF one_cycle_inv], erule inputs, rule runs_to_bind [OF one_cycle_inv], assumption)
    (simp add: inputs)

lemma sim_init_inv: "I s \<Longrightarrow> runs_to E I (sim_init ev d0 s)"
  unfolding sim_init_def sim_reset_def
  by (intro runs_to_bind [OF step] step inputs)

end

locale npc_cycle_invariant = npc_step_invariant ev E I
  for ev :: "'d design" and R :: "'r npc_ref" and E :: "error \<Rightarrow> bool" and I :: "('d, 'r) simulator \<Rightarrow> bool" +
  assumes compare: "I s \<Longrightarrow> I (npc_difftest_step R p s)"
begin

lemma exec_once_inv: "I s \<Longrightarrow> runs_to E I (npc_exec_once ev R s)"
  unfolding npc_exec_once_def Let_def
  by (rule runs_to_bind [OF enable_update_inv], assumption, rule runs_to_bind [OF one_cycle_inv], assumption,
      rule runs_to_bind [OF one_cycle_inv], assumption) (simp add: compare)

end

locale npc_loop_invariant = npc_cycle_invariant +
  assumes update: "I s \<Longrightarrow> sim_st (sim_state s) = SIM_RUNNING \<Longrightarrow> I (npc_device_update s)"
    and counts: "I s \<Longrightarrow> I (s\<lparr>guest_inst := k\<rparr>)"
begin

lemma sim_loop_inv: "I s \<Longrightarrow> runs_to E I (npc_sim_loop ev R n s)"
proof (induction n arbitrary: s)
  case (Suc n)
  show ?case
    unfolding npc_sim_loop.simps
  proof (rule runs_to_bind [OF exec_once_inv [OF Suc.prems]])
    fix x assume "I x"
    then show "runs_to E I (let s2 = x\<lparr>guest_inst := guest_inst x + 1\<rparr> in
        if sim_st (sim_state s2) \<noteq> SIM_RUNNING then Inr s2 else npc_sim_loop ev R n (npc_device_update s2))"
      using counts [of x] update [OF counts, of x] Suc.IH by (auto simp: Let_def)
  qed
qed simp

end

locale npc_invariant = npc_loop_invariant +
  assumes clocks: "I s \<Longrightarrow> npc_get_time s = (t, s') \<Longrightarrow> I s'"
    and start: "I s \<Longrightarrow> sim_st (sim_state s) \<noteq> SIM_END \<Longrightarrow> sim_st (sim_state s) \<noteq> SIM_ABORT \<Longrightarrow>
      I (s\<lparr>sim_state := (sim_state s)\<lparr>sim_st := SIM_RUNNING\<rparr>\<rparr>)"
    and finish: "I s \<Longrightarrow> I (npc_sim_finish (s\<lparr>sim_time := t'\<rparr>))"
    and print: "I s \<Longrightarrow> I (s\<lparr>npc_stdout := m\<rparr>)"
begin

lemma sim_exec_inv:
  assumes "I s"
  shows "runs_to E I (sim_exec ev R n s)"
proof (cases "sim_st (sim_state s) = SIM_END \<or> sim_st (sim_state s) = SIM_ABORT")
  case True
  then show ?thesis using print [OF assms] by (simp add: sim_exec_def)
next
  case False
  obtain t s1 where g: "npc_get_time (s\<lparr>sim_state := (sim_state s)\<lparr>sim_st := SIM_RUNNING\<rparr>\<rparr>) = (t, s1)"
    by fastforce
  have "I s1" using start [OF assms] False clocks [OF _ g] by blast
  moreover have "runs_to E I (case npc_get_time s2 of (timer_end, s3) \<Rightarrow>
      Inr (npc_sim_finish (s3\<lparr>sim_time := sim_time s3 + (timer_end - t)\<rparr>)))" if "I s2" for s2
    using that finish clocks by (auto split: prod.splits)
  ultimately have "runs_to E I (bind_res (npc_sim_loop ev R (unat n) s1) (\<lambda>s2. case npc_get_time s2 of (timer_end, s3) \<Rightarrow>
      Inr (npc_sim_finish (s3\<lparr>sim_time := sim_time s3 + (timer_end - t)\<rparr>))))"
    by (rule runs_to_bind [OF sim_loop_inv])
  then show ?thesis using False g by (simp add: sim_exec_def)
qed

end

subsection \<open>Half cycles\<close>

text \<open>A half cycle only runs functions of the hardware interface.\<close>

lemma single_step_runs:
  assumes "\<And>i s'. run_dpi (ev (\<not> v_clock (dut s)) (v_reset (dut s)) (v_io_enable (dut s)) (v_inner (dut s)))
        (s\<lparr>dut := (dut s)\<lparr>v_clock := \<not> v_clock (dut s)\<rparr>\<rparr>) = Inr (i, s') \<Longrightarrow> P s'"
    and "\<And>e. run_dpi (ev (\<not> v_clock (dut s)) (v_reset (dut s)) (v_io_enable (dut s)) (v_inner (dut s)))
        (s\<lparr>dut := (dut s)\<lparr>v_clock := \<not> v_clock (dut s)\<rparr>\<rparr>) = Inl e \<Longrightarrow> E e"
    and "\<And>s' d k. P s' \<Longrightarrow> P (s'\<lparr>dut := d, sim_count := k\<rparr>)"
  shows "runs_to E P (npc_single_step ev s)"
  unfolding npc_single_step_def Let_def
  by (rule runs_to_bind [where P = "\<lambda>(i, s'). P s'"], rule runs_toI) (use assms in auto)

text \<open>What the accesses and the displays keep, an evaluation of the hardware keeps.\<close>

lemma run_dpi_keeps:
  fixes I :: "'a npc_scheme \<Rightarrow> bool"
  assumes acc: "\<And>s s'. npc_same s s' \<Longrightarrow> I s \<Longrightarrow> I s'"
    and stops: "\<And>s. I s \<Longrightarrow> I (ebreak_exit s)" "\<And>s. I s \<Longrightarrow> I (inst_invalid s)"
    and cores: "\<And>s i. I s \<Longrightarrow> I (inst_display i s)" "\<And>s p. I s \<Longrightarrow> I (pc_display p s)"
      "\<And>s g. I s \<Longrightarrow> I (gprfile_update g s)" "\<And>s c0 c1 c2 c3. I s \<Longrightarrow> I (csrfile_update c0 c1 c2 c3 s)"
  shows "I s \<Longrightarrow> run_dpi t s = Inr (d, s') \<Longrightarrow> I s'"
proof (induction t arbitrary: s)
  case (Dpi_exception_display t)
  have "I (exception_display s)" by (rule acc [OF _ Dpi_exception_display.prems(1)]) (simp add: exception_display_def)
  with Dpi_exception_display show ?case by simp
next
  case (Dpi_inst_fetch k)
  then obtain v s1 where s1: "npc_inst_fetch s = Inr (v, s1)" "run_dpi (k v) s1 = Inr (d, s')"
    by (auto simp: bind_res_eq_Inr_iff)
  show ?case by (rule Dpi_inst_fetch.IH [OF rangeI acc [OF npc_inst_fetch_same [OF s1(1)] Dpi_inst_fetch.prems(1)] s1(2)])
next
  case (Dpi_mem_read a k)
  then obtain v s1 where s1: "mem_read a s = Inr (v, s1)" "run_dpi (k v) s1 = Inr (d, s')"
    by (auto simp: bind_res_eq_Inr_iff)
  show ?case by (rule Dpi_mem_read.IH [OF rangeI acc [OF mem_read_same [OF s1(1)] Dpi_mem_read.prems(1)] s1(2)])
qed (auto simp: bind_res_eq_Inr_iff func_check_def intro: stops cores acc
    dest: mem_write_same)

lemma single_step_keeps:
  fixes I :: "('d, 'r) simulator \<Rightarrow> bool"
  assumes "\<And>s s' t d. I s \<Longrightarrow> run_dpi (t :: 'd dpi) s = Inr (d, s') \<Longrightarrow> I s'"
    and "\<And>s d. I s \<Longrightarrow> I (s\<lparr>dut := d\<rparr>)" and "\<And>s k. I s \<Longrightarrow> I (s\<lparr>sim_count := k\<rparr>)"
  shows "I s \<Longrightarrow> runs_to (\<lambda>_. True) I (npc_single_step ev s)"
proof (rule single_step_runs)
  assume I: "I s"
  show "I s'" if "run_dpi (ev (\<not> v_clock (dut s)) (v_reset (dut s)) (v_io_enable (dut s)) (v_inner (dut s)))
        (s\<lparr>dut := (dut s)\<lparr>v_clock := \<not> v_clock (dut s)\<rparr>\<rparr>) = Inr (i, s')" for i s'
    by (rule assms(1) [OF assms(2) [OF I] that])
  show "I (s'\<lparr>dut := d, sim_count := k\<rparr>)" if "I s'" for s' d k
    by (rule assms(3) [OF assms(2) [OF that]])
qed simp

subsection \<open>Safety of the host arrays\<close>

text \<open>A design that shows only multiples of four as its program counter.\<close>

primrec aligned_dpi :: "'d dpi \<Rightarrow> bool" where
  "aligned_dpi (Dpi_done d) \<longleftrightarrow> True"
| "aligned_dpi (Dpi_ebreak_exit t) \<longleftrightarrow> aligned_dpi t"
| "aligned_dpi (Dpi_inst_invalid t) \<longleftrightarrow> aligned_dpi t"
| "aligned_dpi (Dpi_inst_fetch k) \<longleftrightarrow> (\<forall>v. aligned_dpi (k v))"
| "aligned_dpi (Dpi_inst_display i t) \<longleftrightarrow> aligned_dpi t"
| "aligned_dpi (Dpi_pc_display p t) \<longleftrightarrow> 4 dvd uint p \<and> aligned_dpi t"
| "aligned_dpi (Dpi_func_check rd c j d t) \<longleftrightarrow> aligned_dpi t"
| "aligned_dpi (Dpi_mem_read a k) \<longleftrightarrow> (\<forall>v. aligned_dpi (k v))"
| "aligned_dpi (Dpi_mem_write a m d t) \<longleftrightarrow> aligned_dpi t"
| "aligned_dpi (Dpi_exception_display t) \<longleftrightarrow> aligned_dpi t"
| "aligned_dpi (Dpi_gprfile_update g t) \<longleftrightarrow> aligned_dpi t"
| "aligned_dpi (Dpi_csrfile_update c0 c1 c2 c3 t) \<longleftrightarrow> aligned_dpi t"

definition aligned_design :: "'d design \<Rightarrow> bool" where
  "aligned_design ev \<longleftrightarrow> (\<forall>c r e d. aligned_dpi (ev c r e d))"

definition npc_good :: "'a npc_scheme \<Rightarrow> bool" where
  "npc_good s \<longleftrightarrow> npc_wf s \<and> 4 dvd uint (core_pc (core s))"

lemma npc_good_io: "npc_good s \<Longrightarrow> npc_io_wf s"
  by (simp add: npc_good_def npc_wf_def)

lemma npc_good_same: "npc_same s s' \<Longrightarrow> npc_good s' = npc_good s"
  using npc_wf_same [of s s'] by (simp add: npc_good_def npc_same_def)

lemma npc_good_base [simp]:
  "npc_good (s\<lparr>sim_state := x\<rparr>) = npc_good s"
  "npc_good (s\<lparr>npc_stdout := o1\<rparr>) = npc_good s"
  "npc_good (s\<lparr>npc_skip_ref := b\<rparr>) = npc_good s"
  by (simp_all add: npc_good_def npc_wf_def) (auto simp: npc_io_wf_def npc_base_ok_def)

lemma npc_good_sim [simp]:
  fixes s :: "('d, 'r) simulator"
  shows "npc_good (s\<lparr>dut := d\<rparr>) = npc_good s" "npc_good (s\<lparr>nref := r\<rparr>) = npc_good s"
    "npc_good (s\<lparr>nref_core := c\<rparr>) = npc_good s" "npc_good (s\<lparr>sim_count := k\<rparr>) = npc_good s"
    "npc_good (s\<lparr>guest_inst := k\<rparr>) = npc_good s" "npc_good (s\<lparr>sim_time := k\<rparr>) = npc_good s"
    "npc_good (s\<lparr>update_last := k\<rparr>) = npc_good s" "npc_good (s\<lparr>sdl_polls := n\<rparr>) = npc_good s"
  by (simp_all add: npc_good_def npc_wf_def npc_io_wf_def npc_base_ok_def)

lemma length_fold_upd: "length (fold (\<lambda>i g. g[i := f i]) is g) = length g"
  by (induction "is" arbitrary: g) simp_all

lemma npc_good_dpi:
  assumes "npc_good s"
  shows "npc_good (ebreak_exit s)" "npc_good (inst_invalid s)" "npc_good (exception_display s)"
    "npc_good (inst_display i s)" "npc_good (gprfile_update g s)" "npc_good (csrfile_update c0 c1 c2 c3 s)"
    "4 dvd uint p \<Longrightarrow> npc_good (pc_display p s)" "npc_good (func_check rd c j d s)"
  using assms
  by (simp_all add: ebreak_exit_def inst_invalid_def exception_display_def inst_display_def gprfile_update_def
      csrfile_update_def pc_display_def func_check_def npc_good_def npc_wf_def length_fold_upd del: upt_Suc)

lemma aligned_and: "4 dvd uint a \<Longrightarrow> a AND NOT 3 = (a :: u32)"
proof -
  assume "4 dvd uint a"
  then have "uint (a AND NOT 3) = uint a" unfolding uint_align4 by presburger
  then show ?thesis by (rule word_uint_eqI)
qed

lemma npc_inst_fetch_safe: "npc_good s \<Longrightarrow> npc_inst_fetch s \<noteq> Inl Out_of_bounds"
  using npc_aligned_read_safe [of s "core_pc (core s)"] aligned_and [of "core_pc (core s)"]
  by (auto simp: npc_inst_fetch_def npc_vaddr_read_def npc_good_def npc_wf_def bind_res_eq_Inl_iff)

lemma run_dpi_good:
  "npc_good s \<Longrightarrow> aligned_dpi t \<Longrightarrow> runs_to (\<lambda>e. e \<noteq> Out_of_bounds) (\<lambda>(d, s'). npc_good s') (run_dpi t s)"
proof (induction t arbitrary: s)
  case (Dpi_inst_fetch k)
  have "runs_to (\<lambda>e. e \<noteq> Out_of_bounds) (\<lambda>(v, s'). npc_good s') (npc_inst_fetch s)"
    using npc_inst_fetch_safe [OF Dpi_inst_fetch.prems(1)] Dpi_inst_fetch.prems(1)
    by (intro runs_toI) (auto dest!: npc_inst_fetch_same simp: npc_good_same)
  then show ?case
    unfolding run_dpi.simps by (rule runs_to_bind) (use Dpi_inst_fetch in auto)
next
  case (Dpi_mem_read a k)
  have "runs_to (\<lambda>e. e \<noteq> Out_of_bounds) (\<lambda>(v, s'). npc_good s') (mem_read a s)"
    using mem_read_safe [OF npc_good_io [OF Dpi_mem_read.prems(1)]] Dpi_mem_read.prems(1)
    by (intro runs_toI) (auto dest!: mem_read_same simp: npc_good_same)
  then show ?case
    unfolding run_dpi.simps by (rule runs_to_bind) (use Dpi_mem_read in auto)
next
  case (Dpi_mem_write a m d t)
  have "runs_to (\<lambda>e. e \<noteq> Out_of_bounds) npc_good (mem_write a m d s)"
    using mem_write_safe [OF npc_good_io [OF Dpi_mem_write.prems(1)]] Dpi_mem_write.prems(1)
    by (intro runs_toI) (auto dest!: mem_write_same simp: npc_good_same)
  then show ?case
    unfolding run_dpi.simps by (rule runs_to_bind) (use Dpi_mem_write in auto)
qed (simp_all add: npc_good_dpi)

lemma npc_get_time_good: "npc_get_time s = (t, s') \<Longrightarrow> npc_good s' = npc_good s"
  by (rule npc_good_same [OF npc_get_time_same])

lemma npc_checkregs_good [simp]: "npc_good (npc_checkregs c p s) = npc_good s"
  by (simp add: npc_checkregs_def Let_def)

lemma npc_poll_good [simp]: "npc_good (npc_poll_events es s) = npc_good s"
  by (induction es s rule: npc_poll_events.induct) simp_all

lemma npc_update_good: "npc_good (npc_device_update s) = npc_good s"
  by (auto simp: npc_device_update_def split: prod.splits dest: npc_get_time_good)

interpretation safe: npc_invariant ev R "\<lambda>e. e \<noteq> Out_of_bounds" "\<lambda>s. npc_good s \<and> aligned_design ev"
  for ev :: "'d design" and R :: "'r npc_ref"
proof (unfold_locales, goal_cases)
  case (1 s)
  let ?t = "ev (\<not> v_clock (dut s)) (v_reset (dut s)) (v_io_enable (dut s)) (v_inner (dut s))"
  let ?s = "s\<lparr>dut := (dut s)\<lparr>v_clock := \<not> v_clock (dut s)\<rparr>\<rparr>"
  have "runs_to (\<lambda>e. e \<noteq> Out_of_bounds) (\<lambda>(d, s'). npc_good s') (run_dpi ?t ?s)"
    using 1 by (intro run_dpi_good) (simp_all add: aligned_design_def)
  then show ?case
    using 1 by (intro single_step_runs) (auto simp: runs_to_def)
qed (auto simp: npc_difftest_step_def Let_def npc_update_good npc_sim_finish_def dest: npc_get_time_good)

subsection \<open>The exit status\<close>

text \<open>The return value belongs to the state of the run: the static \<open>1\<close> until the program ends,
  \<open>0\<close> once \<open>ebreak\<close> ended it.\<close>

definition npc_status :: "'a npc_scheme \<Rightarrow> bool" where
  "npc_status s \<longleftrightarrow>
     (sim_st (sim_state s) = SIM_END \<longrightarrow> sim_halt_ret (sim_state s) = 0) \<and>
     (sim_st (sim_state s) \<in> {SIM_RUNNING, SIM_STOP, SIM_QUIT} \<longrightarrow> sim_halt_ret (sim_state s) = 1)"

lemma npc_status_same: "npc_same s s' \<Longrightarrow> npc_status s' = npc_status s"
  by (simp add: npc_same_def npc_status_def)

lemma npc_status_cong: "sim_state s' = sim_state s \<Longrightarrow> npc_status s' = npc_status s"
  by (simp add: npc_status_def)

lemma run_dpi_status: "npc_status s \<Longrightarrow> run_dpi t s = Inr (d, s') \<Longrightarrow> npc_status s'"
  by (rule run_dpi_keeps [of npc_status])
    (simp_all add: npc_status_same, simp_all add: npc_status_def ebreak_exit_def inst_invalid_def
      inst_display_def gprfile_update_def csrfile_update_def pc_display_def del: upt_Suc)

lemma npc_poll_status:
  "npc_status s \<Longrightarrow> sim_st (sim_state s) \<in> {SIM_RUNNING, SIM_QUIT} \<Longrightarrow> npc_status (npc_poll_events es s)"
  by (induction es s rule: npc_poll_events.induct) (auto simp: npc_status_def)

interpretation status: npc_invariant ev R "\<lambda>_. True" npc_status
  for ev :: "'d design" and R :: "'r npc_ref"
proof (unfold_locales, goal_cases)
  case (1 s)
  then show ?case
    by (intro single_step_keeps [where I = npc_status]) (blast intro: run_dpi_status, simp_all add: npc_status_def)
next
  case (3 s p)
  then show ?case
    by (auto simp: npc_difftest_step_def npc_checkregs_def Let_def npc_status_def)
next
  case (4 s)
  obtain now s1 where g: "npc_get_time s = (now, s1)" by fastforce
  then have "sim_state s1 = sim_state s" using npc_get_time_same by (auto simp: npc_same_def)
  with 4 have "npc_status s1" "npc_status (s1\<lparr>update_last := u, sdl_polls := k\<rparr>)"
    and "sim_st (sim_state (s1\<lparr>update_last := u, sdl_polls := k\<rparr>)) = SIM_RUNNING" for u k
    by (simp_all add: npc_status_def)
  then show ?case
    unfolding npc_device_update_def g prod.case by (simp split: if_split) (auto intro!: npc_poll_status)
next
  case (6 s t s')
  then show ?case using npc_status_same npc_get_time_same by blast
next
  case (7 s)
  then show ?case by (cases "sim_st (sim_state s)") (simp_all add: npc_status_def)
qed (auto simp: npc_status_def npc_sim_finish_def)

subsection \<open>Differential testing\<close>

text \<open>The registers the test compares, of the simulated hardware and of the reference.\<close>

definition npc_agrees :: "'r npc_ref \<Rightarrow> ('d, 'r) simulator \<Rightarrow> bool" where
  "npc_agrees R s \<longleftrightarrow>
     (\<forall>c. core_gpr (nref_regcpy_to_dut R (nref s) c) = core_gpr (core s) \<and>
          core_csr (nref_regcpy_to_dut R (nref s) c) = core_csr (core s))"

text \<open>What the reference's \<open>difftest_regcpy\<close> is documented to do: what is copied out is the
  reference's register file, whatever the buffer held, and it is what was copied in.\<close>

definition npc_ref_copies :: "'r npc_ref \<Rightarrow> bool" where
  "npc_ref_copies R \<longleftrightarrow>
     (\<forall>r c. length (core_gpr (nref_regcpy_to_dut R r c)) = 16 \<and> length (core_csr (nref_regcpy_to_dut R r c)) = 4) \<and>
     (\<forall>r c c'. core_gpr (nref_regcpy_to_dut R r c) = core_gpr (nref_regcpy_to_dut R r c') \<and>
                core_csr (nref_regcpy_to_dut R r c) = core_csr (nref_regcpy_to_dut R r c')) \<and>
     (\<forall>r c x. length (core_gpr x) = 16 \<and> length (core_csr x) = 4 \<longrightarrow>
        core_gpr (nref_regcpy_to_dut R (nref_regcpy_to_ref R x r) c) = core_gpr x \<and>
        core_csr (nref_regcpy_to_dut R (nref_regcpy_to_ref R x r) c) = core_csr x)"

lemma npc_regs_differ_iff:
  assumes "length xs = n" and "length ys = n"
  shows "npc_regs_differ n xs ys \<longleftrightarrow> xs \<noteq> ys"
proof -
  have "npc_regs_differ n xs ys \<longleftrightarrow> \<not> (\<forall>i < n. xs ! i = ys ! i)" by (auto simp: npc_regs_differ_def list_ex_iff)
  moreover have "(\<forall>i < n. xs ! i = ys ! i) \<longleftrightarrow> xs = ys" using assms list_eq_iff_nth_eq [of xs ys] by simp
  ultimately show ?thesis by blast
qed

text \<open>A step of the test either aborts or leaves the two in agreement.\<close>

lemma npc_difftest_step_agrees:
  assumes "npc_ref_copies R" and "npc_wf s"
    and "sim_st (sim_state (npc_difftest_step R p s)) \<noteq> SIM_ABORT"
  shows "npc_agrees R (npc_difftest_step R p s)"
proof (cases "npc_skip_ref s")
  case True
  then have "npc_difftest_step R p s = s\<lparr>nref := nref_regcpy_to_ref R (core s) (nref s), npc_skip_ref := False\<rparr>"
    by (simp add: npc_difftest_step_def)
  moreover have "core_gpr (nref_regcpy_to_dut R (nref_regcpy_to_ref R (core s) (nref s)) c) = core_gpr (core s) \<and>
      core_csr (nref_regcpy_to_dut R (nref_regcpy_to_ref R (core s) (nref s)) c) = core_csr (core s)" for c
    using assms(1,2) unfolding npc_ref_copies_def npc_wf_def by blast
  ultimately show ?thesis by (simp add: npc_agrees_def)
next
  case False
  let ?r = "nref_exec R 1 (nref s)"
  let ?c = "nref_regcpy_to_dut R ?r (nref_core s)"
  have l: "length (core_gpr ?c) = 16" "length (core_csr ?c) = 4" "length (core_gpr (core s)) = 16"
    "length (core_csr (core s)) = 4"
    using assms(1,2) by (simp_all add: npc_ref_copies_def npc_wf_def)
  have eq: "core_gpr (core s) = core_gpr ?c" "core_csr (core s) = core_csr ?c"
    using assms(3) False l
    by (auto simp: npc_difftest_step_def npc_checkregs_def Let_def npc_regs_differ_iff split: if_splits)
  then have "npc_difftest_step R p s = s\<lparr>nref := ?r, nref_core := ?c\<rparr>"
    using False l by (simp add: npc_difftest_step_def npc_checkregs_def Let_def npc_regs_differ_iff)
  moreover have "core_gpr (nref_regcpy_to_dut R ?r c) = core_gpr ?c \<and> core_csr (nref_regcpy_to_dut R ?r c) = core_csr ?c" for c
    using assms(1) unfolding npc_ref_copies_def by blast
  ultimately show ?thesis using eq by (simp add: npc_agrees_def)
qed

text \<open>A half cycle keeps the invariant of the devices, does not count instructions, and never
  leaves the state \<open>SIM_STOP\<close>.\<close>

lemma npc_wf_sim [simp]:
  fixes s :: "('d, 'r) simulator"
  shows "npc_wf (s\<lparr>dut := d\<rparr>) = npc_wf s" "npc_wf (s\<lparr>nref := r\<rparr>) = npc_wf s"
    "npc_wf (s\<lparr>nref_core := c\<rparr>) = npc_wf s" "npc_wf (s\<lparr>sim_count := k\<rparr>) = npc_wf s"
    "npc_wf (s\<lparr>guest_inst := k\<rparr>) = npc_wf s" "npc_wf (s\<lparr>sim_state := x\<rparr>) = npc_wf s"
    "npc_wf (s\<lparr>npc_skip_ref := b\<rparr>) = npc_wf s" "npc_wf (s\<lparr>update_last := k\<rparr>) = npc_wf s"
    "npc_wf (s\<lparr>sdl_polls := n\<rparr>) = npc_wf s"
  by (simp_all add: npc_wf_def npc_io_wf_def npc_base_ok_def)

lemma run_dpi_wf: "npc_wf s \<Longrightarrow> run_dpi t s = Inr (d, s') \<Longrightarrow> npc_wf s'"
  by (rule run_dpi_keeps [of npc_wf])
    (simp_all add: npc_wf_same, simp_all add: npc_wf_def ebreak_exit_def inst_invalid_def length_fold_upd
      inst_display_def gprfile_update_def csrfile_update_def pc_display_def del: upt_Suc)

lemma npc_poll_frame [simp]:
  "core (npc_poll_events es s) = core s" "nref (npc_poll_events es s) = nref s"
  "guest_inst (npc_poll_events es s) = guest_inst s" "npc_wf (npc_poll_events es s) = npc_wf s"
  by (induction es s rule: npc_poll_events.induct) simp_all

lemma npc_update_frame:
  "core (npc_device_update s) = core s" "nref (npc_device_update s) = nref s"
  "guest_inst (npc_device_update s) = guest_inst s" "npc_wf (npc_device_update s) = npc_wf s"
proof -
  obtain now s1 where g: "npc_get_time s = (now, s1)" by fastforce
  have "npc_same s s1" by (rule npc_get_time_same [OF g])
  then have m: "npc.more s1 = npc.more s" "core s1 = core s" "npc_wf s1 = npc_wf s"
    using npc_wf_same [of s s1] by (simp_all add: npc_same_def)
  from m(1) have "nref s1 = nref s" "guest_inst s1 = guest_inst s" by (cases s; cases s1; simp)+
  note m = this m(2,3)
  show "core (npc_device_update s) = core s" "nref (npc_device_update s) = nref s"
    "guest_inst (npc_device_update s) = guest_inst s" "npc_wf (npc_device_update s) = npc_wf s"
    by (simp_all add: npc_device_update_def g m)
qed

interpretation wf: npc_loop_invariant ev R "\<lambda>_. True" npc_wf
  for ev :: "'d design" and R :: "'r npc_ref"
proof (unfold_locales, goal_cases)
  case (1 s)
  then show ?case by (intro single_step_keeps [where I = npc_wf]) (blast intro: run_dpi_wf, simp_all)
qed (simp_all add: npc_difftest_step_def npc_checkregs_def Let_def npc_update_frame)

lemma run_dpi_more: "run_dpi t s = Inr (d, s') \<Longrightarrow> npc.more s' = npc.more s"
  by (rule run_dpi_keeps [of "\<lambda>s'. npc.more s' = npc.more s"])
    (simp_all add: npc_same_def ebreak_exit_def inst_invalid_def
      inst_display_def gprfile_update_def csrfile_update_def pc_display_def del: upt_Suc)

lemma run_dpi_guest: "guest_inst s = g \<Longrightarrow> run_dpi t s = Inr (d, s') \<Longrightarrow> guest_inst s' = g"
proof -
  assume g: "guest_inst s = g" and r: "run_dpi t s = Inr (d, s')"
  have "npc.more s' = npc.more s" by (rule run_dpi_more [OF r])
  with g show "guest_inst s' = g" by (cases s; cases s') simp
qed

interpretation count: npc_cycle_invariant ev R "\<lambda>_. True" "\<lambda>s. guest_inst s = g"
  for ev :: "'d design" and R :: "'r npc_ref" and g
proof (unfold_locales, goal_cases)
  case (1 s)
  then show ?case
    by (intro single_step_keeps [where I = "\<lambda>s. guest_inst s = g"]) (erule (1) run_dpi_guest, simp_all)
qed (simp_all add: npc_difftest_step_def npc_checkregs_def Let_def)

lemma run_dpi_not_stop:
  "sim_st (sim_state s) \<noteq> SIM_STOP \<Longrightarrow> run_dpi t s = Inr (d, s') \<Longrightarrow> sim_st (sim_state s') \<noteq> SIM_STOP"
  by (rule run_dpi_keeps [of "\<lambda>s. sim_st (sim_state s) \<noteq> SIM_STOP"])
    (simp_all add: npc_same_def ebreak_exit_def inst_invalid_def
      inst_display_def gprfile_update_def csrfile_update_def pc_display_def del: upt_Suc)

lemma npc_poll_not_stop:
  "sim_st (sim_state s) \<noteq> SIM_STOP \<Longrightarrow> sim_st (sim_state (npc_poll_events es s)) \<noteq> SIM_STOP"
  by (induction es s rule: npc_poll_events.induct) simp_all

interpretation unstopped: npc_loop_invariant ev R "\<lambda>_. True" "\<lambda>s. sim_st (sim_state s) \<noteq> SIM_STOP"
  for ev :: "'d design" and R :: "'r npc_ref"
proof (unfold_locales, goal_cases)
  case (1 s)
  then show ?case
    by (intro single_step_keeps [where I = "\<lambda>s. sim_st (sim_state s) \<noteq> SIM_STOP"])
      (erule (1) run_dpi_not_stop, simp_all)
next
  case (4 s)
  obtain now s1 where g: "npc_get_time s = (now, s1)" by fastforce
  then have "sim_state s1 = sim_state s" using npc_get_time_same by (auto simp: npc_same_def)
  with 4 show ?case by (simp add: npc_device_update_def g npc_poll_not_stop)
qed (simp_all add: npc_difftest_step_def npc_checkregs_def Let_def)

text \<open>A step of the test leaves the state of the run alone when the registers agree, and aborts
  it when they do not.\<close>

lemma npc_difftest_step_cases:
  assumes "npc_ref_copies R" and "npc_wf s" and t: "t = npc_difftest_step R p s"
  shows "npc_stdout t = npc_stdout s"
    and "sim_state t = sim_state s \<and> npc_agrees R t \<or> sim_st (sim_state t) = SIM_ABORT \<and> \<not> npc_agrees R t"
proof -
  show "npc_stdout t = npc_stdout s" by (simp add: t npc_difftest_step_def npc_checkregs_def Let_def)
  let ?r = "nref_exec R 1 (nref s)"
  let ?c = "nref_regcpy_to_dut R ?r (nref_core s)"
  have l: "length (core_gpr ?c) = 16" "length (core_csr ?c) = 4" "length (core_gpr (core s)) = 16"
    "length (core_csr (core s)) = 4"
    using assms(1,2) by (simp_all add: npc_ref_copies_def npc_wf_def)
  show "sim_state t = sim_state s \<and> npc_agrees R t \<or> sim_st (sim_state t) = SIM_ABORT \<and> \<not> npc_agrees R t"
  proof (cases "\<not> npc_skip_ref s \<and> (core_gpr (core s) \<noteq> core_gpr ?c \<or> core_csr (core s) \<noteq> core_csr ?c)")
    case True
    then have "sim_st (sim_state t) = SIM_ABORT" "nref t = ?r" "core t = core s"
      using l by (auto simp: t npc_difftest_step_def npc_checkregs_def Let_def npc_regs_differ_iff)
    moreover from this have "\<not> npc_agrees R t" using True unfolding npc_agrees_def by metis
    ultimately show ?thesis by blast
  next
    case False
    then have st: "sim_state t = sim_state s"
      using l by (auto simp: t npc_difftest_step_def npc_checkregs_def Let_def npc_regs_differ_iff)
    have "npc_agrees R t"
    proof (cases "sim_st (sim_state s) = SIM_ABORT")
      case ab: True
      let ?s = "s\<lparr>sim_state := (sim_state s)\<lparr>sim_st := SIM_STOP\<rparr>\<rparr>"
      have "sim_st (sim_state (npc_difftest_step R p ?s)) = SIM_STOP"
        using False l by (auto simp: npc_difftest_step_def npc_checkregs_def Let_def npc_regs_differ_iff)
      then have "npc_agrees R (npc_difftest_step R p ?s)"
        using npc_difftest_step_agrees [OF assms(1), of ?s p] assms(2) by simp
      moreover have "core (npc_difftest_step R p ?s) = core t" "nref (npc_difftest_step R p ?s) = nref t"
        by (simp_all add: t npc_difftest_step_def npc_checkregs_def Let_def)
      ultimately show ?thesis by (simp add: npc_agrees_def)
    qed (use npc_difftest_step_agrees [OF assms(1,2), of p] st t in simp)
    with st show ?thesis by blast
  qed
qed

text \<open>Until registers are compared, the run has ended exactly if the last message of the
  hardware was that of \<open>ebreak\<close>.\<close>

definition npc_strict :: "'a npc_scheme \<Rightarrow> bool" where
  "npc_strict s \<longleftrightarrow> (sim_st (sim_state s) = SIM_END \<longleftrightarrow> npc_verdict s = Some Msg_ebreak)"

lemma npc_verdict_sim [simp]:
  fixes s :: "('d, 'r) simulator"
  shows "npc_verdict (s\<lparr>dut := d\<rparr>) = npc_verdict s" "npc_verdict (s\<lparr>nref := r\<rparr>) = npc_verdict s"
    "npc_verdict (s\<lparr>sim_count := k\<rparr>) = npc_verdict s" "npc_verdict (s\<lparr>guest_inst := k\<rparr>) = npc_verdict s"
    "npc_verdict (s\<lparr>sim_time := k\<rparr>) = npc_verdict s" "npc_verdict (s\<lparr>update_last := k\<rparr>) = npc_verdict s"
    "npc_verdict (s\<lparr>sdl_polls := n\<rparr>) = npc_verdict s" "npc_verdict (s\<lparr>sim_state := x\<rparr>) = npc_verdict s"
  by (simp_all add: npc_verdict_def)

lemma run_dpi_strict: "npc_strict s \<Longrightarrow> run_dpi t s = Inr (d, s') \<Longrightarrow> npc_strict s'"
proof (rule run_dpi_keeps [of npc_strict])
  show "npc_strict (ebreak_exit s)" "npc_strict (inst_invalid s)" for s :: "'a npc_scheme"
    by (simp_all add: npc_strict_def ebreak_exit_def inst_invalid_def npc_verdict_def)
qed (simp_all add: npc_strict_def npc_same_def inst_display_def gprfile_update_def csrfile_update_def pc_display_def
    npc_verdict_def del: upt_Suc)

interpretation strict: npc_step_invariant ev "\<lambda>_. True" npc_strict
  for ev :: "'d design"
proof (unfold_locales, goal_cases)
  case (1 s)
  then show ?case
    by (intro single_step_keeps [where I = npc_strict]) (blast intro: run_dpi_strict, simp_all add: npc_strict_def)
qed (simp add: npc_strict_def)

lemma npc_poll_verdict [simp]: "npc_verdict (npc_poll_events es s) = npc_verdict s"
  by (induction es s rule: npc_poll_events.induct) simp_all

lemma npc_poll_not_end:
  "sim_st (sim_state s) \<noteq> SIM_END \<Longrightarrow> sim_st (sim_state (npc_poll_events es s)) \<noteq> SIM_END"
  by (induction es s rule: npc_poll_events.induct) simp_all

lemma npc_update_not_end:
  assumes "sim_st (sim_state s) \<noteq> SIM_END"
  shows "sim_st (sim_state (npc_device_update s)) \<noteq> SIM_END" and "npc_verdict (npc_device_update s) = npc_verdict s"
proof -
  obtain now s1 where g: "npc_get_time s = (now, s1)" by fastforce
  then have "sim_state s1 = sim_state s" "npc_verdict s1 = npc_verdict s"
    using npc_get_time_same [OF g] by (simp_all add: npc_same_def)
  then show "sim_st (sim_state (npc_device_update s)) \<noteq> SIM_END" "npc_verdict (npc_device_update s) = npc_verdict s"
    using assms by (simp_all add: npc_device_update_def g npc_poll_not_end)
qed

end
