(* ===== verification/Npc_Props.thy ===== *)
theory Npc_Props
  imports Npc_Sim_Facts
begin

text \<open>
  The properties of the npc simulator as a whole, for every reference: with a hardware that
  keeps its program counter aligned the host arrays are never left, a run that stops after its
  number of instructions was checked against the reference at each of them, and the exit status
  of a batch run says whether \<open>ebreak\<close> ended it with the registers of the reference.
\<close>

subsection \<open>The loop and the reference\<close>

lemma npc_agrees_frame:
  "core s' = core s \<Longrightarrow> nref s' = nref s \<Longrightarrow> npc_agrees R s' = npc_agrees R s"
  by (simp add: npc_agrees_def)

lemma npc_exec_once_agrees:
  assumes "npc_ref_copies R" and "npc_wf s" and "npc_exec_once ev R s = Inr s'"
    and "sim_st (sim_state s') \<noteq> SIM_ABORT"
  shows "npc_agrees R s' \<and> npc_wf s' \<and> guest_inst s' = guest_inst s"
proof -
  obtain s1 s2 s3 where r: "enable_update ev s = Inr s1" "one_cycle ev s1 = Inr s2" "one_cycle ev s2 = Inr s3"
    and s': "s' = npc_difftest_step R (core_pc (core s)) s3"
    using assms(3) by (auto simp: npc_exec_once_def Let_def bind_res_eq_Inr_iff)
  have "npc_wf s1" using wf.enable_update_inv [OF assms(2), of ev] r(1) by simp
  then have "npc_wf s2" using wf.one_cycle_inv [of s1 ev] r(2) by simp
  then have "npc_wf s3" using wf.one_cycle_inv [of s2 ev] r(3) by simp
  then have "npc_agrees R s'" using npc_difftest_step_agrees assms(1,4) s' by blast
  moreover have "npc_wf s'" using wf.exec_once_inv [OF assms(2), of ev R] assms(3) by simp
  moreover have "guest_inst s' = guest_inst s"
    using count.exec_once_inv [of s "guest_inst s" ev R] assms(3) by simp
  ultimately show ?thesis by blast
qed

lemma npc_sim_loop_agrees:
  assumes "npc_ref_copies R" and "npc_wf s" and "npc_sim_loop ev R n s = Inr s'"
    and "sim_st (sim_state s') = SIM_RUNNING" and "npc_agrees R s \<or> 0 < n"
  shows "npc_agrees R s' \<and> guest_inst s' = guest_inst s + of_nat n"
  using assms(2-5)
proof (induction n arbitrary: s)
  case (Suc n)
  then obtain s1 where e: "npc_exec_once ev R s = Inr s1"
    and l: "(if sim_st (sim_state s1) \<noteq> SIM_RUNNING then Inr (s1\<lparr>guest_inst := guest_inst s1 + 1\<rparr>)
      else npc_sim_loop ev R n (npc_device_update (s1\<lparr>guest_inst := guest_inst s1 + 1\<rparr>))) = Inr s'"
    by (auto simp: bind_res_eq_Inr_iff Let_def)
  have run: "sim_st (sim_state s1) = SIM_RUNNING" using l Suc.prems(3) by (auto split: if_splits)
  then have s1: "npc_agrees R s1" "npc_wf s1" "guest_inst s1 = guest_inst s"
    using npc_exec_once_agrees [OF assms(1) Suc.prems(1) e] by auto
  let ?s = "npc_device_update (s1\<lparr>guest_inst := guest_inst s1 + 1\<rparr>)"
  have "npc_agrees R ?s = npc_agrees R s1" by (rule npc_agrees_frame) (simp_all add: npc_update_frame)
  then have "npc_agrees R s' \<and> guest_inst s' = guest_inst ?s + of_nat n"
    using Suc.IH [of ?s] s1 l run Suc.prems(3) by (simp add: npc_update_frame)
  then show ?case using s1(3) by (simp add: npc_update_frame algebra_simps)
qed simp

text \<open>C35: a call of \<open>sim_exec\<close> that returns with the state \<open>SIM_STOP\<close> ran exactly the requested
  number of instructions, and the general and control registers of the simulated hardware
  are then those of the reference, whatever the design; here the reference is only assumed to
  copy registers in and out as documented.\<close>

theorem npc_difftest_agrees:
  fixes s s' :: "('d, 'r) simulator"
  assumes "npc_ref_copies R" and "npc_wf s" and "sim_exec ev R n s = Inr s'"
    and "sim_st (sim_state s') = SIM_STOP" and "0 < n"
  shows "npc_agrees R s' \<and> guest_inst s' = guest_inst s + n"
proof -
  let ?s0 = "s\<lparr>sim_state := (sim_state s)\<lparr>sim_st := SIM_RUNNING\<rparr>\<rparr>"
  have live: "sim_st (sim_state s) \<noteq> SIM_END \<and> sim_st (sim_state s) \<noteq> SIM_ABORT"
    using assms(3,4) by (auto simp: sim_exec_def split: if_splits)
  obtain t0 s1 where g1: "npc_get_time ?s0 = (t0, s1)" by fastforce
  then obtain s2 where l: "npc_sim_loop ev R (unat n) s1 = Inr s2"
    and f: "(case npc_get_time s2 of (t1, s3) \<Rightarrow>
      Inr (npc_sim_finish (s3\<lparr>sim_time := sim_time s3 + (t1 - t0)\<rparr>))) = (Inr s' :: ('d, 'r) simulator res)"
    using assms(3) live by (auto simp: sim_exec_def bind_res_eq_Inr_iff)
  obtain t1 s3 where g3: "npc_get_time s2 = (t1, s3)" by fastforce
  have s': "s' = npc_sim_finish (s3\<lparr>sim_time := sim_time s3 + (t1 - t0)\<rparr>)" using f g3 by simp
  note same = npc_get_time_same [OF g1] npc_get_time_same [OF g3]
  have st: "sim_state s1 = sim_state ?s0" "npc.more s1 = npc.more ?s0" "npc_wf s1 = npc_wf s"
    using same(1) npc_wf_same [OF same(1)] by (simp_all add: npc_same_def)
  have m3: "sim_state s3 = sim_state s2" "core s3 = core s2" "npc.more s3 = npc.more s2"
    using same(2) by (simp_all add: npc_same_def)
  have "sim_st (sim_state s2) \<noteq> SIM_STOP"
    using unstopped.sim_loop_inv [of s1 ev R "unat n"] l st(1) by simp
  then have "sim_st (sim_state s2) = SIM_RUNNING"
    using assms(4) s' m3(1) by (auto simp: npc_sim_finish_def split: if_splits)
  moreover have "0 < unat n" using assms(5) by (simp add: word_less_nat_alt)
  ultimately have a: "npc_agrees R s2" "guest_inst s2 = guest_inst s1 + n"
    using npc_sim_loop_agrees [OF assms(1) _ l] st(3) assms(2) by simp_all
  have "guest_inst s1 = guest_inst s" using st(2) by (cases s; cases s1) simp
  moreover have "guest_inst s3 = guest_inst s2" "nref s3 = nref s2" using m3(3) by (cases s2; cases s3; simp)+
  moreover have "npc_agrees R s' = npc_agrees R s2"
    using m3(2) \<open>nref s3 = nref s2\<close> by (intro npc_agrees_frame) (simp_all add: s' npc_sim_finish_def)
  ultimately show ?thesis using a by (simp add: s' npc_sim_finish_def)
qed

text \<open>A hardware that rests and a reference that is a copy of the registers.\<close>

definition idle_design :: "unit design" where
  "idle_design c r e d = Dpi_done d"

definition copy_ref :: "CORE_state npc_ref" where
  "copy_ref =
     \<lparr>nref_init = (\<lambda>port r. r), nref_memcpy = (\<lambda>a bs r. r),
      nref_regcpy_to_ref = (\<lambda>c r. c\<lparr>core_gpr := take 16 (core_gpr c @ replicate 16 0),
                                core_csr := take 4 (core_csr c @ replicate 4 0)\<rparr>),
      nref_regcpy_to_dut = (\<lambda>r c. r\<lparr>core_gpr := take 16 (core_gpr r @ replicate 16 0),
                                core_csr := take 4 (core_csr r @ replicate 4 0)\<rparr>),
      nref_exec = (\<lambda>n r. r)\<rparr>"

definition idle_simulator :: "(unit, CORE_state) simulator" where
  "idle_simulator = simulator_poweron (\<lambda>_. 0) (\<lambda>_. (0, 1)) (\<lambda>_. []) () core_zero"

lemma copy_ref_copies: "npc_ref_copies copy_ref"
  by (auto simp: npc_ref_copies_def copy_ref_def min_def)

lemma idle_simulator_wf: "npc_wf idle_simulator"
  by (simp add: idle_simulator_def simulator_poweron_def npc.defs npc_poweron_def core_zero_def npc_wf_def
      npc_io_wf_def npc_maps_disjoint_def IO_SPACE_MAX_def)

definition idle_inv :: "(unit, CORE_state) simulator \<Rightarrow> bool" where
  "idle_inv s \<longleftrightarrow>
     sim_st (sim_state s) = SIM_RUNNING \<and> \<not> npc_skip_ref s \<and> nref s = core_zero \<and>
     core_gpr (core s) = replicate 16 0 \<and> core_csr (core s) = replicate 4 0 \<and> simulator.sdl_events s = (\<lambda>_. [])"

lemma idle_exec_once:
  assumes "idle_inv s"
  shows "\<exists>s'. npc_exec_once idle_design copy_ref s = Inr s' \<and> idle_inv s'"
proof -
  have ss: "npc_single_step idle_design s = Inr (s\<lparr>dut := (dut s)\<lparr>v_clock := \<not> v_clock (dut s), v_inner := v_inner (dut s)\<rparr>,
      sim_count := sim_count s + 1\<rparr>)" for s :: "(unit, CORE_state) simulator"
    by (simp add: npc_single_step_def idle_design_def Let_def)
  have ok: "\<not> npc_regs_differ k (replicate k 0) (replicate k 0)" for k
    by (simp add: npc_regs_differ_def list_ex_iff)
  obtain d k where "npc_exec_once idle_design copy_ref s =
      Inr (npc_difftest_step copy_ref (core_pc (core s)) (s\<lparr>dut := d, sim_count := k\<rparr>))"
    by (simp add: npc_exec_once_def enable_update_def one_cycle_def ss Let_def)
  then show ?thesis
    using assms ok [of 16] ok [of 4]
    by (simp add: npc_difftest_step_def npc_checkregs_def copy_ref_def core_zero_def idle_inv_def Let_def)
qed

lemma idle_update: "idle_inv s \<Longrightarrow> idle_inv (npc_device_update s)"
  by (auto simp: idle_inv_def npc_device_update_def npc_get_time_def npc_get_time_internal_def Let_def
      split: prod.splits)

lemma idle_loop: "idle_inv s \<Longrightarrow> \<exists>s'. npc_sim_loop idle_design copy_ref n s = Inr s' \<and> idle_inv s'"
proof (induction n arbitrary: s)
  case (Suc n)
  obtain s1 where s1: "npc_exec_once idle_design copy_ref s = Inr s1" "idle_inv s1"
    using idle_exec_once [OF Suc.prems] by blast
  then have "idle_inv (npc_device_update (s1\<lparr>guest_inst := guest_inst s1 + 1\<rparr>))"
    by (intro idle_update) (simp add: idle_inv_def)
  with Suc.IH s1 show ?case by (simp add: Let_def idle_inv_def)
qed simp

theorem npc_difftest_agrees_witness:
  "\<exists>s'. sim_exec idle_design copy_ref 2 idle_simulator = Inr s' \<and> sim_st (sim_state s') = SIM_STOP \<and>
        npc_agrees copy_ref s' \<and> guest_inst s' = 2"
proof -
  obtain t s1 where g: "npc_get_time (idle_simulator\<lparr>sim_state := (sim_state idle_simulator)\<lparr>sim_st := SIM_RUNNING\<rparr>\<rparr>) = (t, s1)"
    by fastforce
  then have "idle_inv s1"
    by (auto simp: idle_inv_def idle_simulator_def simulator_poweron_def npc.defs npc_poweron_def core_zero_def
        npc_get_time_def npc_get_time_internal_def)
  then obtain s2 where s2: "npc_sim_loop idle_design copy_ref (unat (2 :: u64)) s1 = Inr s2" "idle_inv s2"
    using idle_loop by blast
  moreover obtain t3 s3 where g3: "npc_get_time s2 = (t3, s3)" by fastforce
  moreover from this have "sim_state s3 = sim_state s2" using npc_get_time_same by (auto simp: npc_same_def)
  moreover have "sim_st (sim_state idle_simulator) = SIM_STOP"
    by (simp add: idle_simulator_def simulator_poweron_def npc.defs npc_poweron_def sim_state_init_def)
  ultimately obtain s' where s': "sim_exec idle_design copy_ref 2 idle_simulator = Inr s'" "sim_st (sim_state s') = SIM_STOP"
    using g by (simp add: sim_exec_def npc_sim_finish_def idle_inv_def)
  have "guest_inst idle_simulator = 0"
    by (simp add: idle_simulator_def simulator_poweron_def npc.defs)
  then show ?thesis
    using npc_difftest_agrees [OF copy_ref_copies idle_simulator_wf s'] s' by auto
qed

subsection \<open>Whole runs\<close>

lemma npc_load_img_keeps:
  assumes "npc_load_img img s = Inr (k, s')"
  shows "\<exists>m. s' = s\<lparr>npc_pmem := m\<rparr>"
proof (cases img)
  case None
  then have "s' = s\<lparr>npc_pmem := npc_pmem s\<rparr>" using assms by (simp add: npc_load_img_def)
  then show ?thesis by blast
qed (use assms in \<open>auto simp: npc_load_img_def Let_def bind_res_eq_Inr_iff\<close>)

lemma monitor_init_keeps:
  assumes "npc_maps s = []" and "npc_handlers s = []" and "monitor_init args R s = Inr s'"
  shows "npc_io_wf s' \<and> core s' = (core s)\<lparr>core_pc := npc_RESET_VECTOR\<rparr> \<and> sim_state s' = sim_state s"
proof -
  obtain k s1 s2 where l: "npc_load_img (opt_img args) (mem_init (host_fill args) (s\<lparr>npc_batch_mode := opt_batch args\<rparr>)) = Inr (k, s1)"
    and d: "npc_difftest_init R (opt_so args) k npc_difftest_port s1 = Inr s2"
    and v: "npc_device_init (host_fresh args) (host_alarm_ok args) s2 = Inr s'"
    using assms(3) by (auto simp: monitor_init_def bind_res_eq_Inr_iff)
  from npc_load_img_keeps [OF l] have s1: "npc_maps s1 = []" "npc_handlers s1 = []"
    "core s1 = (core s)\<lparr>core_pc := npc_RESET_VECTOR\<rparr>" "sim_state s1 = sim_state s"
    using assms(1,2) by (auto simp: mem_init_def)
  have s2: "npc_maps s2 = []" "npc_handlers s2 = []" "core s2 = core s1" "sim_state s2 = sim_state s1"
    using d s1 by (auto simp: npc_difftest_init_def Let_def bind_res_eq_Inr_iff)
  have "host_alarm_ok args" using v by (auto simp: npc_device_init_def bind_res_eq_Inr_iff)
  then show ?thesis using npc_device_init_ok [OF s2(1,2), of "host_fresh args"] v s1 s2 by auto
qed

lemma reset_vector_aligned: "4 dvd uint npc_RESET_VECTOR"
  by (simp add: npc_RESET_VECTOR_def npc_PMEM_LEFT_def npc_MBASE_def)

lemma bind_res_Inr_id: "bind_res r Inr = r"
  by (cases r) simp_all

lemma runs_to_bind_ret: "runs_to E P r \<Longrightarrow> runs_to E (\<lambda>(ret, s'). P s') (bind_res r (\<lambda>s'. Inr (k, s')))"
  by (cases r) simp_all

lemma safe_exec:
  "aligned_design ev \<Longrightarrow> npc_good s \<Longrightarrow> runs_to (\<lambda>e. e \<noteq> Out_of_bounds) npc_good (sim_exec ev R n s)"
  using safe.sim_exec_inv [of s ev R n] by (auto simp: runs_to_def split: sum.splits)

text \<open>The command \<open>x\<close>, at an address of a word.\<close>

lemma aligned_add: "4 dvd uint a \<Longrightarrow> 4 dvd uint (a + word_of_int (i * 4))" for a :: u32
proof -
  assume a: "4 dvd uint a"
  have "a + word_of_int (i * 4) = word_of_int (uint a + i * 4)" by simp
  then have "uint (a + word_of_int (i * 4)) = (uint a + i * 4) mod 2 ^ 32"
    by (simp only: uint_word_of_int) (simp add: take_bit_eq_mod)
  moreover have "4 dvd (uint a + i * 4) mod 2 ^ 32" using a by (intro dvd_mod) simp_all
  ultimately show ?thesis by (simp only:)
qed

lemma npc_x_words_good:
  "4 dvd uint start \<Longrightarrow> npc_good s \<Longrightarrow> runs_to (\<lambda>e. e \<noteq> Out_of_bounds) npc_good (npc_x_words k i start s)"
proof (induction k arbitrary: i s)
  case (Suc k)
  let ?a = "start + word_of_int (i * 4)"
  have "?a AND NOT 3 = ?a" using aligned_and [OF aligned_add [OF Suc.prems(1)]] .
  then have "npc_vaddr_read ?a 4 s \<noteq> Inl Out_of_bounds"
    using npc_aligned_read_safe [OF npc_good_io [OF Suc.prems(2)], of ?a] by (simp add: npc_vaddr_read_def)
  moreover have "npc_good s1" if "npc_vaddr_read ?a 4 s = Inr (v, s1)" for v s1
    using that npc_good_same npc_paddr_read_same Suc.prems(2) unfolding npc_vaddr_read_def by blast
  ultimately have r: "runs_to (\<lambda>e. e \<noteq> Out_of_bounds) (\<lambda>(v, s1). npc_good s1) (npc_vaddr_read ?a 4 s)"
    by (intro runs_toI) auto
  have "runs_to (\<lambda>e. e \<noteq> Out_of_bounds) npc_good (bind_res (npc_vaddr_read ?a 4 s) (\<lambda>(data, s1).
      npc_x_words k (i + 1) start (s1\<lparr>npc_stdout := npc_stdout s1 @ [Msg_word ?a data]\<rparr>)))"
    by (rule runs_to_bind [OF r]) (use Suc in auto)
  then show ?case by (simp add: Let_def assert_res_def)
qed simp

text \<open>At the last bytes of guest memory an unaligned \<open>x\<close> runs past the array.\<close>

lemma x_past_end: "npc_cmd_x 1 (Some 0x87fffffd) s = Inl Out_of_bounds"
  by (simp add: npc_cmd_x_def npc_vaddr_read_def npc_paddr_read_def npc_in_pmem_def npc_MBASE_def npc_MSIZE_def
      npc_pmem_read_def npc_host_read_def npc_guest_to_host_def in_object_def assert_res_def Let_def)

definition aligned_commands :: "npc_command list \<Rightarrow> bool" where
  "aligned_commands cs \<longleftrightarrow> (\<forall>n a. Cmd_x n (Some a) \<in> set cs \<longrightarrow> 4 dvd uint a)"

lemma npc_commands_good:
  assumes "aligned_design ev"
  shows "aligned_commands cs \<Longrightarrow> npc_good s \<Longrightarrow> runs_to (\<lambda>e. e \<noteq> Out_of_bounds) npc_good (npc_commands ev R cs s)"
proof (induction cs arbitrary: s)
  case (Cons c cs)
  have x: "runs_to (\<lambda>e. e \<noteq> Out_of_bounds) (\<lambda>(ret, s'). npc_good s') (npc_cmd_x n a s)" if "c = Cmd_x n a" for n a
  proof (cases a)
    case (Some start)
    then have "4 dvd uint start" using Cons.prems(1) that by (simp add: aligned_commands_def)
    then show ?thesis
      using runs_to_bind_ret [OF npc_x_words_good [OF _ Cons.prems(2)]] by (simp add: npc_cmd_x_def Some)
  qed (simp add: npc_cmd_x_def Cons.prems(2))
  have r: "runs_to (\<lambda>e. e \<noteq> Out_of_bounds) (\<lambda>(ret, s'). npc_good s')
      (case c of Cmd_c \<Rightarrow> npc_cmd_c ev R s | Cmd_q \<Rightarrow> Inr (npc_cmd_q s) | Cmd_si n \<Rightarrow> npc_cmd_si ev R n s
        | Cmd_x n a \<Rightarrow> npc_cmd_x n a s)"
    using Cons.prems x runs_to_bind_ret [OF safe_exec [OF assms Cons.prems(2)]]
    by (cases c) (simp_all add: npc_cmd_c_def npc_cmd_q_def npc_cmd_si_def Let_def)
  have cs: "aligned_commands cs" using Cons.prems(1) by (simp add: aligned_commands_def)
  show ?case
    unfolding npc_commands.simps by (rule runs_to_bind [OF r]) (use Cons.IH [OF cs] in auto)
qed simp

lemma monitor_init_good:
  assumes "\<And>bs. opt_img args = Some bs \<Longrightarrow> length bs \<le> 0x8000000"
  shows "runs_to (\<lambda>e. e \<noteq> Out_of_bounds) npc_good (monitor_init args R (simulator_poweron inp clk evs d r))"
proof -
  let ?p = "simulator_poweron inp clk evs d r"
  have p: "npc_maps ?p = []" "npc_handlers ?p = []" "core ?p = core_zero"
    by (simp_all add: simulator_poweron_def npc.defs npc_poweron_def)
  have rv: "npc_guest_to_host npc_RESET_VECTOR = 0"
    by (simp add: npc_guest_to_host_def npc_RESET_VECTOR_def npc_PMEM_LEFT_def)
  have load: "runs_to (\<lambda>e. e \<noteq> Out_of_bounds) (\<lambda>(k, s'). 0 \<le> k \<and> k \<le> 0x8000000) (npc_load_img (opt_img args) s)" for s
    using assms by (cases "opt_img args") (simp_all add: npc_load_img_def Let_def assert_res_def in_object_def rv)
  have diff: "npc_difftest_init R so k port s \<noteq> Inl Out_of_bounds" if "0 \<le> k \<and> k \<le> 0x8000000" for so k port s
    using that by (simp add: npc_difftest_init_def Let_def assert_res_def in_object_def rv)
  have dev: "npc_device_init fresh ok s \<noteq> Inl Out_of_bounds" for fresh ok s
    by (auto simp: npc_device_init_def npc_serial_init_def npc_rtc_init_def npc_new_space_def npc_add_mmio_map_def
        npc_add_alarm_handle_def Let_def bind_res_eq_Inl_iff split: if_splits)
  have "runs_to (\<lambda>e. e \<noteq> Out_of_bounds) (\<lambda>_. True) (monitor_init args R ?p)"
    unfolding monitor_init_def
  proof (rule runs_to_bind [OF load], clarify)
    fix k :: int and s :: "('a, 'b) simulator"
    assume "0 \<le> k" "k \<le> 0x8000000"
    then have "runs_to (\<lambda>e. e \<noteq> Out_of_bounds) (\<lambda>_. True) (npc_difftest_init R (opt_so args) k npc_difftest_port s)"
      using diff by (intro runs_toI) auto
    then show "runs_to (\<lambda>e. e \<noteq> Out_of_bounds) (\<lambda>_. True) (bind_res (npc_difftest_init R (opt_so args) k npc_difftest_port s)
        (npc_device_init (host_fresh args) (host_alarm_ok args)))"
      by (rule runs_to_bind) (use dev in \<open>auto intro: runs_toI\<close>)
  qed
  then have "monitor_init args R ?p \<noteq> Inl Out_of_bounds" by auto
  moreover have "npc_good s1" if "monitor_init args R ?p = Inr s1" for s1
    using monitor_init_keeps [OF p(1,2) that] p(3) reset_vector_aligned
    by (simp add: npc_good_def npc_wf_def core_zero_def)
  ultimately show ?thesis by (intro runs_toI) auto
qed

text \<open>C34: with a hardware that only shows multiples of four as program counter and an image of
  at most 128 MiB, and with the commands \<open>c\<close>, \<open>si\<close>, \<open>q\<close> and \<open>x\<close>, the last only at multiples of
  four, a run of the simulator never reads or writes outside the arrays of guest memory and of
  the I/O space: every load, store and fetch of the hardware, at any address and with any mask,
  is either inside or stopped by a check.  The reference, the other options, the keyboard, the
  clock and the events of the host are arbitrary.  (At other addresses \<open>x\<close> may run past the
  array, see \<open>x_past_end\<close>.)\<close>

theorem npc_main_safe:
  assumes "aligned_design ev" and "\<And>bs. opt_img args = Some bs \<Longrightarrow> length bs \<le> 0x8000000"
    and "aligned_commands cs"
  shows "npc_main args ev d0 R cs (simulator_poweron inp clk evs d r) \<noteq> Inl Out_of_bounds"
proof -
  let ?p = "simulator_poweron inp clk evs d r"
  have m: "runs_to (\<lambda>e. e \<noteq> Out_of_bounds) npc_good (monitor_init args R ?p)"
    by (rule monitor_init_good [OF assms(2)])
  have i: "runs_to (\<lambda>e. e \<noteq> Out_of_bounds) npc_good (sim_init ev d0 s)" if "npc_good s" for s
    using safe.sim_init_inv [of s ev d0] assms(1) that by (auto simp: runs_to_def split: sum.splits)
  have l: "runs_to (\<lambda>e. e \<noteq> Out_of_bounds) npc_good (npc_sdb_mainloop ev R cs s)" if "npc_good s" for s
    using safe_exec [OF assms(1) that] npc_commands_good [OF assms(1,3) that]
    by (simp add: npc_sdb_mainloop_def npc_cmd_c_def bind_res_assoc bind_res_Inr_id)
  have "runs_to (\<lambda>e. e \<noteq> Out_of_bounds) (\<lambda>_. True) (npc_main args ev d0 R cs ?p)"
    unfolding npc_main_def
    by (rule runs_to_bind [OF m], rule runs_to_bind [OF i], assumption, rule runs_to_bind [OF l], assumption) simp
  then show ?thesis by (auto simp: runs_to_def)
qed

theorem npc_main_safe_witness:
  "npc_main \<lparr>opt_batch = False, opt_img = None, opt_so = True, host_fill = 0, host_fresh = (\<lambda>_. 0), host_alarm_ok = True\<rparr>
     idle_design () copy_ref [Cmd_x 4 (Some 0x80000010), Cmd_si None, Cmd_q]
     (simulator_poweron (\<lambda>_. 0) (\<lambda>_. (0, 1)) (\<lambda>_. []) () core_zero) \<noteq> Inl Out_of_bounds"
  by (rule npc_main_safe) (simp_all add: aligned_design_def idle_design_def aligned_commands_def)

lemma run_dpi_batch: "npc_batch_mode s = b \<Longrightarrow> run_dpi t s = Inr (d, s') \<Longrightarrow> npc_batch_mode s' = b"
proof -
  assume g: "npc_batch_mode s = b" and r: "run_dpi t s = Inr (d, s')"
  have "npc.more s' = npc.more s" by (rule run_dpi_more [OF r])
  with g show "npc_batch_mode s' = b" by (cases s; cases s') simp
qed

interpretation batch: npc_cycle_invariant ev R "\<lambda>_. True" "\<lambda>s. npc_batch_mode s = b"
  for ev :: "'d design" and R :: "'r npc_ref" and b
proof (unfold_locales, goal_cases)
  case (1 s)
  then show ?case
    by (intro single_step_keeps [where I = "\<lambda>s. npc_batch_mode s = b"]) (erule (1) run_dpi_batch, simp_all)
qed (simp_all add: npc_difftest_step_def npc_checkregs_def Let_def)

lemma monitor_init_batch:
  assumes "monitor_init args R s = Inr s'"
  shows "npc_batch_mode s' = opt_batch args \<and> guest_inst s' = guest_inst s \<and> npc_verdict s' = npc_verdict s"
proof -
  obtain k s1 s2 where l: "npc_load_img (opt_img args) (mem_init (host_fill args) (s\<lparr>npc_batch_mode := opt_batch args\<rparr>)) = Inr (k, s1)"
    and d: "npc_difftest_init R (opt_so args) k npc_difftest_port s1 = Inr s2"
    and v: "npc_device_init (host_fresh args) (host_alarm_ok args) s2 = Inr s'"
    using assms by (auto simp: monitor_init_def bind_res_eq_Inr_iff)
  have "npc_batch_mode s1 = opt_batch args \<and> guest_inst s1 = guest_inst s \<and> npc_stdout s1 = npc_stdout s"
    using npc_load_img_keeps [OF l] by (auto simp: mem_init_def)
  moreover have "npc_batch_mode s2 = npc_batch_mode s1 \<and> guest_inst s2 = guest_inst s1 \<and> npc_stdout s2 = npc_stdout s1"
    using d by (auto simp: npc_difftest_init_def Let_def bind_res_eq_Inr_iff)
  moreover have "npc_batch_mode s' = npc_batch_mode s2 \<and> guest_inst s' = guest_inst s2 \<and> npc_stdout s' = npc_stdout s2"
    using v by (auto simp: npc_device_init_def npc_serial_init_def npc_rtc_init_def npc_new_space_def npc_map_init_def
        npc_add_mmio_map_def npc_add_alarm_handle_def Let_def bind_res_eq_Inr_iff split: if_splits)
  ultimately show ?thesis using npc_verdict_cong [of s' s] by simp
qed

text \<open>The end of a run: \<open>SIM_END\<close> says that \<open>ebreak\<close> stopped the hardware and the registers agree.\<close>

definition npc_settled :: "'r npc_ref \<Rightarrow> ('d, 'r) simulator \<Rightarrow> bool" where
  "npc_settled R s \<longleftrightarrow> (sim_st (sim_state s) = SIM_END \<longleftrightarrow> npc_verdict s = Some Msg_ebreak \<and> npc_agrees R s)"

lemma npc_exec_once_settles:
  assumes "npc_ref_copies R" and "npc_wf s" and "npc_strict s" and "npc_exec_once ev R s = Inr s'"
  shows "npc_settled R s'" and "sim_st (sim_state s') = SIM_RUNNING \<Longrightarrow> npc_strict s'"
proof -
  obtain s1 s2 s3 where r: "enable_update ev s = Inr s1" "one_cycle ev s1 = Inr s2" "one_cycle ev s2 = Inr s3"
    and s': "s' = npc_difftest_step R (core_pc (core s)) s3"
    using assms(4) by (auto simp: npc_exec_once_def Let_def bind_res_eq_Inr_iff)
  have "npc_wf s1" "npc_strict s1"
    using wf.enable_update_inv [OF assms(2), of ev] strict.enable_update_inv [OF assms(3), of ev] r(1) by simp_all
  then have "npc_wf s2" "npc_strict s2"
    using wf.one_cycle_inv [of s1 ev] strict.one_cycle_inv [of s1 ev] r(2) by simp_all
  then have s3: "npc_wf s3" "npc_strict s3"
    using wf.one_cycle_inv [of s2 ev] strict.one_cycle_inv [of s2 ev] r(3) by simp_all
  note c = npc_difftest_step_cases [OF assms(1) s3(1) s']
  have v: "npc_verdict s' = npc_verdict s3" by (rule npc_verdict_cong [OF c(1)])
  show "npc_settled R s'" using c(2) s3(2) v by (auto simp: npc_settled_def npc_strict_def)
  show "npc_strict s'" if "sim_st (sim_state s') = SIM_RUNNING"
    using c(2) s3(2) v that by (auto simp: npc_strict_def)
qed

lemma npc_sim_loop_settles:
  assumes "npc_ref_copies R"
  shows "npc_wf s \<Longrightarrow> npc_strict s \<Longrightarrow> sim_st (sim_state s) \<noteq> SIM_END \<Longrightarrow> npc_sim_loop ev R n s = Inr s' \<Longrightarrow> npc_settled R s'"
proof (induction n arbitrary: s)
  case 0
  then show ?case by (simp add: npc_settled_def npc_strict_def)
next
  case (Suc n)
  then obtain s1 where e: "npc_exec_once ev R s = Inr s1"
    and l: "(if sim_st (sim_state s1) \<noteq> SIM_RUNNING then Inr (s1\<lparr>guest_inst := guest_inst s1 + 1\<rparr>)
      else npc_sim_loop ev R n (npc_device_update (s1\<lparr>guest_inst := guest_inst s1 + 1\<rparr>))) = Inr s'"
    by (auto simp: bind_res_eq_Inr_iff Let_def)
  note x = npc_exec_once_settles [OF assms Suc.prems(1,2) e]
  show ?case
  proof (cases "sim_st (sim_state s1) = SIM_RUNNING")
    case False
    then have "s' = s1\<lparr>guest_inst := guest_inst s1 + 1\<rparr>" using l by simp
    then show ?thesis using x(1) by (simp add: npc_settled_def npc_agrees_def)
  next
    case True
    let ?s = "s1\<lparr>guest_inst := guest_inst s1 + 1\<rparr>"
    have ne: "sim_st (sim_state ?s) \<noteq> SIM_END" using True by simp
    have "npc_wf s1" using wf.exec_once_inv [OF Suc.prems(1), of ev R] e by simp
    then have "npc_wf (npc_device_update ?s)" by (simp add: npc_update_frame)
    moreover have "npc_verdict s1 \<noteq> Some Msg_ebreak" using x(2) [OF True] True by (simp add: npc_strict_def)
    then have "npc_strict (npc_device_update ?s)"
      using npc_update_not_end [OF ne] by (simp add: npc_strict_def)
    ultimately show ?thesis using Suc.IH [of "npc_device_update ?s"] npc_update_not_end(1) [OF ne] l True by simp
  qed
qed

lemma npc_sim_loop_counts:
  "npc_sim_loop ev R n s = Inr s' \<Longrightarrow> \<exists>k \<le> n. (0 < n \<longrightarrow> 0 < k) \<and> guest_inst s' = guest_inst s + of_nat k"
proof (induction n arbitrary: s)
  case (Suc n)
  then obtain s1 where e: "npc_exec_once ev R s = Inr s1"
    and l: "(if sim_st (sim_state s1) \<noteq> SIM_RUNNING then Inr (s1\<lparr>guest_inst := guest_inst s1 + 1\<rparr>)
      else npc_sim_loop ev R n (npc_device_update (s1\<lparr>guest_inst := guest_inst s1 + 1\<rparr>))) = Inr s'"
    by (auto simp: bind_res_eq_Inr_iff Let_def)
  have g: "guest_inst s1 = guest_inst s" using count.exec_once_inv [of s "guest_inst s" ev R] e by simp
  show ?case
  proof (cases "sim_st (sim_state s1) = SIM_RUNNING")
    case False
    then have "guest_inst s' = guest_inst s + of_nat 1" using l g by auto
    then show ?thesis by (intro exI [of _ 1]) simp
  next
    case True
    then obtain k where k: "k \<le> n" "guest_inst s' = guest_inst s + 1 + of_nat k"
      using Suc.IH [of "npc_device_update (s1\<lparr>guest_inst := guest_inst s1 + 1\<rparr>)"] l g by (auto simp: npc_update_frame)
    then show ?thesis by (intro exI [of _ "Suc k"]) (simp add: algebra_simps)
  qed
qed simp

lemma sim_exec_settles:
  fixes s s' :: "('d, 'r) simulator"
  assumes "npc_ref_copies R" and "npc_wf s" and "npc_strict s" and "guest_inst s = 0" and "sim_exec ev R (- 1) s = Inr s'"
  shows "sim_st (sim_state s') = SIM_END \<longleftrightarrow> npc_verdict s' = Some Msg_ebreak \<and> (guest_inst s' = 0 \<or> npc_agrees R s')"
proof (cases "sim_st (sim_state s) = SIM_END \<or> sim_st (sim_state s) = SIM_ABORT")
  case True
  then have "s' = s\<lparr>npc_stdout := npc_stdout s @ [Msg_ended]\<rparr>" using assms(5) by (simp add: sim_exec_def)
  moreover from this have "npc_verdict s' = npc_verdict s" using npc_verdict_append [of s' s Msg_ended] by simp
  ultimately show ?thesis using assms(3,4) by (simp add: npc_strict_def)
next
  case False
  let ?s0 = "s\<lparr>sim_state := (sim_state s)\<lparr>sim_st := SIM_RUNNING\<rparr>\<rparr>"
  obtain t0 s1 where g1: "npc_get_time ?s0 = (t0, s1)" by fastforce
  then obtain s2 where l: "npc_sim_loop ev R (unat (- 1 :: u64)) s1 = Inr s2"
    and f: "(case npc_get_time s2 of (t1, s3) \<Rightarrow>
      Inr (npc_sim_finish (s3\<lparr>sim_time := sim_time s3 + (t1 - t0)\<rparr>))) = (Inr s' :: ('d, 'r) simulator res)"
    using assms(5) False by (auto simp: sim_exec_def bind_res_eq_Inr_iff simp del: unsigned_minus_1_eq_mask)
  obtain t1 s3 where g3: "npc_get_time s2 = (t1, s3)" by fastforce
  have s': "s' = npc_sim_finish (s3\<lparr>sim_time := sim_time s3 + (t1 - t0)\<rparr>)" using f g3 by simp
  note same = npc_get_time_same [OF g1] npc_get_time_same [OF g3]
  have a1: "npc_wf s1" "sim_st (sim_state s1) = SIM_RUNNING" "npc_verdict s1 = npc_verdict s" "npc.more s1 = npc.more ?s0"
    using same(1) npc_wf_same [OF same(1)] assms(2) by (simp_all add: npc_same_def)
  have "npc_strict s1" using a1 assms(3) False by (simp add: npc_strict_def)
  then have st: "npc_settled R s2" using npc_sim_loop_settles [OF assms(1) a1(1) _ _ l] a1(2) by simp
  have "guest_inst s1 = 0" using a1(4) assms(4) by (cases s; cases s1) simp
  then obtain k where k: "k \<le> unat (- 1 :: u64)" "0 < k" "guest_inst s2 = of_nat k"
    using npc_sim_loop_counts [OF l] unat_eq_zero [of "- 1 :: u64"] by (auto simp del: unsigned_minus_1_eq_mask)
  have "guest_inst s2 \<noteq> 0"
  proof
    assume "guest_inst s2 = 0"
    then have "unat (of_nat k :: u64) = 0" using k(3) by simp
    moreover have "k < 2 ^ 64" using order_le_less_trans [OF k(1) unsigned_less] by simp
    then have "unat (of_nat k :: u64) = k" by (simp add: unat_of_nat take_bit_nat_eq_self)
    ultimately show False using k(2) by simp
  qed
  moreover have m3: "sim_state s3 = sim_state s2" "core s3 = core s2" "npc.more s3 = npc.more s2" "npc_verdict s3 = npc_verdict s2"
    using same(2) by (simp_all add: npc_same_def)
  moreover from m3(3) have "guest_inst s3 = guest_inst s2" "nref s3 = nref s2" by (cases s2; cases s3; simp)+
  ultimately show ?thesis
    using st by (auto simp: s' npc_settled_def npc_sim_finish_def npc_agrees_def)
qed

text \<open>C37: in batch mode the process returns 0 exactly when the last message by which the hardware
  stopped is that of \<open>ebreak\<close> and the general and control registers are then those of the
  reference (which no one has looked at when no instruction was run, because \<open>ebreak\<close> came during
  the reset).  An invalid instruction, a mismatch and also a closed window give 1, although a
  comment in \<open>state.cpp\<close> counts a quit as a good end.\<close>

theorem npc_batch_status:
  assumes "opt_batch args" and "npc_ref_copies R"
    and "npc_main args ev d0 R cs (simulator_poweron inp clk evs d r) = Inr (ret, s')"
  shows "ret = (if npc_verdict s' = Some Msg_ebreak \<and> (guest_inst s' = 0 \<or> npc_agrees R s') then 0 else 1)"
proof -
  let ?p = "simulator_poweron inp clk evs d r"
  obtain s1 s2 where r: "monitor_init args R ?p = Inr s1" "sim_init ev d0 s1 = Inr s2"
    "npc_sdb_mainloop ev R cs s2 = Inr s'" and ret: "ret = npc_is_exit_status_bad s'"
    using assms(3) by (auto simp: npc_main_def bind_res_eq_Inr_iff)
  have p: "npc_maps ?p = []" "npc_handlers ?p = []" "core ?p = core_zero" "sim_state ?p = sim_state_init"
    "guest_inst ?p = 0" "npc_stdout ?p = []"
    by (simp_all add: simulator_poweron_def npc.defs npc_poweron_def)
  note keeps = monitor_init_keeps [OF p(1,2) r(1)] and sim = monitor_init_batch [OF r(1)]
  have v0: "npc_verdict ?p = None" by (simp add: npc_verdict_def p(6))
  have s1: "npc_status s1" "npc_strict s1" "npc_wf s1"
    using keeps sim v0 p by (simp_all add: npc_status_def npc_strict_def npc_wf_def sim_state_init_def core_zero_def)
  then have s2: "npc_status s2" "npc_strict s2" "npc_wf s2"
    using status.sim_init_inv [of s1 ev d0] strict.sim_init_inv [of s1 ev d0] wf.sim_init_inv [of s1 ev d0] r(2) by simp_all
  have "npc_batch_mode s1" "guest_inst s1 = 0" using sim assms(1) p(5) by simp_all
  then have b: "npc_batch_mode s2" "guest_inst s2 = 0"
    using batch.sim_init_inv [of s1 True ev d0] count.sim_init_inv [of s1 0 ev d0] r(2) by simp_all
  then have e: "sim_exec ev R (- 1) s2 = Inr s'"
    using r(3) by (auto simp: npc_sdb_mainloop_def npc_cmd_c_def bind_res_eq_Inr_iff)
  have "npc_status s'" using status.sim_exec_inv [of s2 ev R "- 1"] s2(1) e by simp
  then have "ret = (if sim_st (sim_state s') = SIM_END then 0 else 1)"
    by (cases "sim_st (sim_state s')") (simp_all add: ret npc_is_exit_status_bad_def npc_status_def)
  then show ?thesis using sim_exec_settles [OF assms(2) s2(3,2) b(2) e] by simp
qed

text \<open>A hardware that executes \<open>ebreak\<close> as soon as it is enabled.\<close>

definition halt_design :: "unit design" where
  "halt_design c r e d = (if e then Dpi_ebreak_exit (Dpi_done d) else Dpi_done d)"

definition halt_ready :: "(unit, CORE_state) simulator \<Rightarrow> bool" where
  "halt_ready s \<longleftrightarrow>
     \<not> npc_skip_ref s \<and> npc_batch_mode s \<and> core_gpr (core s) = replicate 16 0 \<and> core_csr (core s) = replicate 4 0 \<and>
     core_gpr (nref s) = replicate 16 0 \<and> core_csr (nref s) = replicate 4 0"

lemma halt_single:
  "npc_single_step halt_design s =
     Inr ((if v_io_enable (dut s) then ebreak_exit s else s)
       \<lparr>dut := (dut s)\<lparr>v_clock := \<not> v_clock (dut s)\<rparr>, sim_count := sim_count s + 1\<rparr>)"
  by (simp add: npc_single_step_def halt_design_def ebreak_exit_def Let_def)

lemma halt_init:
  "halt_ready s \<Longrightarrow> sim_st (sim_state s) = SIM_STOP \<Longrightarrow>
   \<exists>s'. sim_init halt_design () s = Inr s' \<and> halt_ready s' \<and> sim_st (sim_state s') = SIM_STOP"
  by (simp add: sim_init_def sim_reset_def halt_single halt_ready_def)

lemma halt_exec_once:
  assumes "halt_ready s"
  shows "\<exists>s'. npc_exec_once halt_design copy_ref s = Inr s' \<and> sim_st (sim_state s') = SIM_END \<and> sim_halt_ret (sim_state s') = 0"
proof -
  have ok: "\<not> npc_regs_differ k (replicate k 0) (replicate k 0)" for k
    by (simp add: npc_regs_differ_def list_ex_iff)
  obtain d k o1 p where "npc_exec_once halt_design copy_ref s =
      Inr (npc_difftest_step copy_ref (core_pc (core s))
        (s\<lparr>npc_stdout := o1, sim_state := \<lparr>sim_st = SIM_END, sim_halt_pc = p, sim_halt_ret = 0\<rparr>, dut := d, sim_count := k\<rparr>))"
    by (simp add: npc_exec_once_def enable_update_def one_cycle_def halt_single ebreak_exit_def Let_def)
  then show ?thesis
    using assms ok [of 16] ok [of 4]
    by (simp add: npc_difftest_step_def npc_checkregs_def copy_ref_def halt_ready_def Let_def)
qed

lemma npc_get_time_skip: "npc_get_time s = (t, s') \<Longrightarrow> npc_skip_ref s' = npc_skip_ref s"
  by (auto simp: npc_get_time_def npc_get_time_internal_def Let_def split: prod.splits if_splits)

lemma halt_ready_frame:
  assumes "halt_ready s" and "npc_same s s'" and "npc_skip_ref s' = npc_skip_ref s"
  shows "halt_ready s'"
proof -
  have "npc.more s' = npc.more s" using assms(2) by (simp add: npc_same_def)
  then have "nref s' = nref s" "npc_batch_mode s' = npc_batch_mode s" by (cases s; cases s'; simp)+
  with assms show ?thesis by (simp add: halt_ready_def npc_same_def)
qed

lemma halt_exec:
  assumes "halt_ready s" and "sim_st (sim_state s) = SIM_STOP"
  shows "\<exists>s'. sim_exec halt_design copy_ref (- 1) s = Inr s' \<and> sim_st (sim_state s') = SIM_END \<and> sim_halt_ret (sim_state s') = 0"
proof -
  obtain t s1 where g: "npc_get_time (s\<lparr>sim_state := (sim_state s)\<lparr>sim_st := SIM_RUNNING\<rparr>\<rparr>) = (t, s1)"
    by fastforce
  moreover have "halt_ready (s\<lparr>sim_state := (sim_state s)\<lparr>sim_st := SIM_RUNNING\<rparr>\<rparr>)"
    using assms(1) by (simp add: halt_ready_def)
  ultimately have "halt_ready s1"
    using halt_ready_frame npc_get_time_same npc_get_time_skip by blast
  then obtain s2 where s2: "npc_exec_once halt_design copy_ref s1 = Inr s2" "sim_st (sim_state s2) = SIM_END" "sim_halt_ret (sim_state s2) = 0"
    using halt_exec_once by blast
  obtain m where n: "unat (- 1 :: u64) = Suc m"
    using unat_eq_zero [of "- 1 :: u64"] by (cases "unat (- 1 :: u64)") simp_all
  have l: "npc_sim_loop halt_design copy_ref (unat (- 1 :: u64)) s1 = Inr (s2\<lparr>guest_inst := guest_inst s2 + 1\<rparr>)"
    unfolding n using s2 by (simp add: Let_def)
  obtain t3 s3 where g3: "npc_get_time (s2\<lparr>guest_inst := guest_inst s2 + 1\<rparr>) = (t3, s3)" by fastforce
  have "sim_state s3 = sim_state s2" using npc_get_time_same [OF g3] by (simp add: npc_same_def)
  then show ?thesis
    using assms(2) g l g3 s2(2,3) unfolding sim_exec_def npc_sim_finish_def by (simp del: unsigned_minus_1_eq_mask)
qed

definition batch_args :: npc_args where
  "batch_args = \<lparr>opt_batch = True, opt_img = None, opt_so = True, host_fill = 0, host_fresh = (\<lambda>_. 0), host_alarm_ok = True\<rparr>"

lemma npc_device_init_frame:
  "npc_device_init fresh ok s = Inr s' \<Longrightarrow> npc.more s' = npc.more s \<and> npc_skip_ref s' = npc_skip_ref s"
  by (auto simp: npc_device_init_def npc_serial_init_def npc_rtc_init_def npc_new_space_def npc_map_init_def
      npc_add_mmio_map_def npc_add_alarm_handle_def Let_def bind_res_eq_Inr_iff split: if_splits)

lemma batch_monitor:
  "\<exists>s. monitor_init batch_args copy_ref (simulator_poweron (\<lambda>_. 0) (\<lambda>_. (0, 1)) (\<lambda>_. []) () core_zero) = Inr s \<and>
       halt_ready s \<and> sim_st (sim_state s) = SIM_STOP"
proof -
  let ?p = "simulator_poweron (\<lambda>_. 0) (\<lambda>_. (0, 1)) (\<lambda>_. []) () core_zero :: (unit, CORE_state) simulator"
  let ?m = "mem_init 0 (?p\<lparr>npc_batch_mode := True\<rparr>)"
  obtain s2 where s2: "npc_difftest_init copy_ref True 4096 npc_difftest_port ?m = Inr s2" and h: "halt_ready s2"
    and st: "sim_st (sim_state s2) = SIM_STOP" "npc_maps s2 = []" "npc_handlers s2 = []"
    by (simp add: npc_difftest_init_def Let_def in_object_def npc_guest_to_host_def npc_RESET_VECTOR_def
        npc_PMEM_LEFT_def mem_init_def simulator_poweron_def npc.defs npc_poweron_def core_zero_def sim_state_init_def
        copy_ref_def halt_ready_def)
  obtain s3 where s3: "npc_device_init (\<lambda>_. 0) True s2 = Inr s3" "sim_state s3 = sim_state s2" "core s3 = core s2"
    using npc_device_init_ok [OF st(2,3)] by blast
  then have "npc.more s3 = npc.more s2" "npc_skip_ref s3 = npc_skip_ref s2"
    using npc_device_init_frame [OF s3(1)] by blast+
  then have "nref s3 = nref s2" "npc_batch_mode s3 = npc_batch_mode s2" "npc_skip_ref s3 = npc_skip_ref s2"
    by (cases s2; cases s3; simp)+
  then have "halt_ready s3" using h s3(3) by (simp add: halt_ready_def)
  then show ?thesis
    using s2 s3 st(1) by (simp add: monitor_init_def batch_args_def npc_load_img_def)
qed

theorem npc_batch_status_witness:
  "\<exists>s'. npc_main batch_args halt_design () copy_ref []
          (simulator_poweron (\<lambda>_. 0) (\<lambda>_. (0, 1)) (\<lambda>_. []) () core_zero) = Inr (0, s') \<and>
        npc_verdict s' = Some Msg_ebreak \<and> (guest_inst s' = 0 \<or> npc_agrees copy_ref s')"
proof -
  let ?p = "simulator_poweron (\<lambda>_. 0) (\<lambda>_. (0, 1)) (\<lambda>_. []) () core_zero :: (unit, CORE_state) simulator"
  obtain s1 where s1: "monitor_init batch_args copy_ref ?p = Inr s1" "halt_ready s1" "sim_st (sim_state s1) = SIM_STOP"
    using batch_monitor by blast
  obtain s2 where s2: "sim_init halt_design () s1 = Inr s2" "halt_ready s2" "sim_st (sim_state s2) = SIM_STOP"
    using halt_init [OF s1(2,3)] by blast
  obtain s3 where s3: "sim_exec halt_design copy_ref (- 1) s2 = Inr s3" "sim_st (sim_state s3) = SIM_END"
    "sim_halt_ret (sim_state s3) = 0"
    using halt_exec [OF s2(2,3)] by blast
  have "npc_sdb_mainloop halt_design copy_ref [] s2 = Inr s3"
    using s2(2) s3(1) by (simp add: npc_sdb_mainloop_def npc_cmd_c_def halt_ready_def)
  then have m: "npc_main batch_args halt_design () copy_ref [] ?p = Inr (0, s3)"
    using s1(1) s2(1) s3(2,3) by (simp add: npc_main_def npc_is_exit_status_bad_def)
  have "opt_batch batch_args" by (simp add: batch_args_def)
  from npc_batch_status [OF this copy_ref_copies m]
  have "npc_verdict s3 = Some Msg_ebreak \<and> (guest_inst s3 = 0 \<or> npc_agrees copy_ref s3)" by (simp split: if_splits)
  then show ?thesis using m by blast
qed

end
