(* ===== verification/Am_Vme.thy ===== *)
theory Am_Vme
  imports Prelude
begin

text \<open>
  Virtual memory of the abstract machine on x86 (\<open>am/src/x86/qemu/vme.c\<close>): page tables of two
  levels (32 bits) or four (64 bits), built, changed and taken down.  The width of a machine
  word is a type variable; \<open>mmu32\<close> and \<open>mmu64\<close> are the two configurations between which the
  source chooses with \<open>__x86_64__\<close>, and \<open>boot_tables\<close> are the tables that
  \<open>start64.S\<close> leaves for the kernel.

  Memory is a store of arrays of words: \<open>vmem s pt index\<close> is \<open>pt[index]\<close>.  The field
  \<open>ptr\<close> of the \<open>AddrSpace\<close> at address \<open>asp\<close> is the array at \<open>asp\<close> with the one entry 0,
  which is how \<open>ptwalk\<close> uses it.  The allocator is the caller's: \<open>vpages\<close> are the pages
  \<open>pgalloc\<close> is going to return (a null pointer when there is none left) and \<open>vfreed\<close> those
  given to \<open>pgfree\<close>, oldest first.
\<close>

record 'a ptinfo =
  pt_name :: string
  pt_mask :: "'a"
  pt_shift :: nat
  pt_bits :: nat

record 'a vm_area =
  area_start :: "'a"
  area_end :: "'a"
  area_kernel :: bool

record 'a mmu_config =
  mmu_pgsize :: "'a"
  mmu_pgtables :: "'a ptinfo list"
  mmu_areas :: "'a vm_area list"

definition mmu64 :: "64 word mmu_config" where
  "mmu64 =
     \<lparr>mmu_pgsize = 4096,
      mmu_pgtables =
        [\<lparr>pt_name = ''CR3'', pt_mask = 0x000000000000, pt_shift = 0, pt_bits = 0\<rparr>,
         \<lparr>pt_name = ''PML4'', pt_mask = 0xff8000000000, pt_shift = 39, pt_bits = 9\<rparr>,
         \<lparr>pt_name = ''PDPT'', pt_mask = 0x007fc0000000, pt_shift = 30, pt_bits = 9\<rparr>,
         \<lparr>pt_name = ''PD'', pt_mask = 0x00003fe00000, pt_shift = 21, pt_bits = 9\<rparr>,
         \<lparr>pt_name = ''PT'', pt_mask = 0x0000001ff000, pt_shift = 12, pt_bits = 9\<rparr>],
      mmu_areas =
        [\<lparr>area_start = 0x100000000000, area_end = 0x108000000000, area_kernel = False\<rparr>,
         \<lparr>area_start = 0x000000000000, area_end = 0x008000000000, area_kernel = True\<rparr>]\<rparr>"

definition mmu32 :: "32 word mmu_config" where
  "mmu32 =
     \<lparr>mmu_pgsize = 4096,
      mmu_pgtables =
        [\<lparr>pt_name = ''CR3'', pt_mask = 0x00000000, pt_shift = 0, pt_bits = 0\<rparr>,
         \<lparr>pt_name = ''PD'', pt_mask = 0xffc00000, pt_shift = 22, pt_bits = 10\<rparr>,
         \<lparr>pt_name = ''PT'', pt_mask = 0x003ff000, pt_shift = 12, pt_bits = 10\<rparr>],
      mmu_areas =
        [\<lparr>area_start = 0x40000000, area_end = 0x80000000, area_kernel = False\<rparr>,
         \<lparr>area_start = 0x00000000, area_end = 0x40000000, area_kernel = True\<rparr>,
         \<lparr>area_start = 0xfd000000, area_end = 0x00000000, area_kernel = True\<rparr>]\<rparr>"

definition uvm_area :: "'w::len word mmu_config \<Rightarrow> 'w word vm_area" where
  "uvm_area c = mmu_areas c ! 0"

definition PTE_P :: "'w::len word" where
  "PTE_P = 0x001"

definition PTE_W :: "'w::len word" where
  "PTE_W = 0x002"

definition PTE_U :: "'w::len word" where
  "PTE_U = 0x004"

definition PTE_PS :: "'w::len word" where
  "PTE_PS = 0x080"

definition MMAP_NONE :: int where
  "MMAP_NONE = 0"

definition MMAP_WRITE :: int where
  "MMAP_WRITE = 2"

text \<open>The state: memory, the allocator, the kernel's table, the two control registers, and the
  fields \<open>pgsize\<close> and \<open>area\<close> of the address spaces.\<close>

record 'a vme =
  vmem :: "'a \<Rightarrow> nat \<Rightarrow> 'a"
  vpages :: "'a list"
  vfreed :: "'a list"
  vkpt :: "'a"
  vcr3 :: "'a"
  vpaging :: bool
  vas :: "'a \<Rightarrow> 'a \<times> 'a \<times> 'a"

definition pt_store :: "('w word \<Rightarrow> nat \<Rightarrow> 'w word) \<Rightarrow> 'w word \<Rightarrow> nat \<Rightarrow> 'w word \<Rightarrow> 'w word \<Rightarrow> nat \<Rightarrow> 'w::len word" where
  "pt_store m pt index v = m(pt := (m pt)(index := v))"

definition page_words :: "'w::len word mmu_config \<Rightarrow> nat" where
  "page_words c = unat (mmu_pgsize c) div (LENGTH('w) div 8)"

definition pgallocz :: "'w::len word mmu_config \<Rightarrow> 'w word vme \<Rightarrow> ('w word \<times> 'w word vme) res" where
  "pgallocz c s =
     (case vpages s of
        [] \<Rightarrow> Inl (Panic ''cannot allocate page'')
      | base # ps \<Rightarrow>
          if base = 0 then Inl (Panic ''cannot allocate page'')
          else Inr (base, s\<lparr>vpages := ps,
            vmem := (vmem s)(base := (\<lambda>i. if i < page_words c then 0 else vmem s base i))\<rparr>))"

definition indexof :: "'w::len word \<Rightarrow> 'w word ptinfo \<Rightarrow> nat" where
  "indexof addr info = unat (drop_bit (pt_shift info) (addr AND pt_mask info))"

definition baseof :: "'w::len word mmu_config \<Rightarrow> 'w word \<Rightarrow> 'w word" where
  "baseof c addr = addr AND NOT (mmu_pgsize c - 1)"

text \<open>The loop of \<open>ptwalk\<close> over the levels that are left; the result is the pair for
  \<open>&pt[index]\<close>.\<close>

fun ptwalk_levels ::
  "'w::len word mmu_config \<Rightarrow> 'w word ptinfo list \<Rightarrow> 'w word \<Rightarrow> 'w word \<Rightarrow> 'w word \<Rightarrow> 'w word vme \<Rightarrow>
   (('w word \<times> nat) \<times> 'w word vme) res" where
  "ptwalk_levels c [] cur addr flags s = Inl (Panic ''internal error (likely a bug in AM)'')"
| "ptwalk_levels c [info] cur addr flags s = Inr ((cur, indexof addr info), s)"
| "ptwalk_levels c (info # info' # rest) cur addr flags s =
     (let index = indexof addr info in
      if vmem s cur index AND PTE_P = 0 then
        bind_res (pgallocz c s) (\<lambda>(next_page, s1).
        ptwalk_levels c (info' # rest) next_page addr flags
          (s1\<lparr>vmem := pt_store (vmem s1) cur index (next_page OR PTE_P OR flags)\<rparr>))
      else ptwalk_levels c (info' # rest) (baseof c (vmem s cur index)) addr flags s)"

definition ptwalk ::
  "'w::len word mmu_config \<Rightarrow> 'w word \<Rightarrow> 'w word \<Rightarrow> 'w word \<Rightarrow> 'w word vme \<Rightarrow> (('w word \<times> nat) \<times> 'w word vme) res" where
  "ptwalk c asp addr flags s = ptwalk_levels c (mmu_pgtables c) asp addr flags s"

text \<open>\<open>teardown\<close> on the levels that are left.\<close>

fun teardown :: "'w::len word mmu_config \<Rightarrow> nat \<Rightarrow> 'w word ptinfo list \<Rightarrow> 'w word \<Rightarrow> 'w word vme \<Rightarrow> 'w word vme" where
  "teardown c level [] pt s = s"
| "teardown c level (info # rest) pt s =
     (let s' = fold (\<lambda>index s.
          if vmem s pt index AND PTE_P \<noteq> 0 \<and> vmem s pt index AND PTE_U \<noteq> 0
          then teardown c (Suc level) rest (baseof c (vmem s pt index)) s
          else s) [0..<2 ^ pt_bits info] s
      in if level \<ge> 1 then s'\<lparr>vfreed := vfreed s' @ [pt]\<rparr> else s')"

text \<open>\<open>vme_init\<close>.  On 64 bits the kernel's table is the one of the boot code; on 32 bits it is
  built by walking every page of the kernel areas.  A loop \<open>cur != end\<close> that steps over the
  end would go on; it carries the number of steps that reach the end.\<close>

definition PML4_ADDR :: "64 word" where
  "PML4_ADDR = 0x1000"

definition PDPT_ADDR :: "64 word" where
  "PDPT_ADDR = 0x2000"

definition vme_init64 :: "int \<Rightarrow> 64 word vme \<Rightarrow> 64 word vme res" where
  "vme_init64 cpu s =
     (if cpu \<noteq> 0 then Inl (Panic ''init VME in non-bootstrap CPU'')
      else Inr (s\<lparr>vkpt := PML4_ADDR, vcr3 := PML4_ADDR, vpaging := True\<rparr>))"

fun map_kernel_pages :: "nat \<Rightarrow> 32 word \<Rightarrow> 32 word \<Rightarrow> 32 word \<Rightarrow> 32 word vme \<Rightarrow> 32 word vme res" where
  "map_kernel_pages fuel asp cur stop s =
     (if cur = stop then Inr s
      else (case fuel of
        0 \<Rightarrow> Inl Diverges
      | Suc fuel' \<Rightarrow>
          bind_res (ptwalk mmu32 asp cur PTE_W s) (\<lambda>((pt, index), s1).
          map_kernel_pages fuel' asp (cur + mmu_pgsize mmu32) stop
            (s1\<lparr>vmem := pt_store (vmem s1) pt index (cur OR PTE_P OR PTE_W)\<rparr>))))"

fun map_kernel_areas :: "32 word \<Rightarrow> 32 word vm_area list \<Rightarrow> 32 word vme \<Rightarrow> 32 word vme res" where
  "map_kernel_areas asp [] s = Inr s"
| "map_kernel_areas asp (vma # vmas) s =
     bind_res
       (if area_kernel vma
        then map_kernel_pages (unat (area_end vma - area_start vma) div 4096) asp (area_start vma) (area_end vma) s
        else Inr s)
       (map_kernel_areas asp vmas)"

definition vme_init32 :: "int \<Rightarrow> 32 word \<Rightarrow> 32 word vme \<Rightarrow> 32 word vme res" where
  "vme_init32 cpu asp s =
     (if cpu \<noteq> 0 then Inl (Panic ''init VME in non-bootstrap CPU'')
      else bind_res (map_kernel_areas asp (mmu_areas mmu32) (s\<lparr>vmem := pt_store (vmem s) asp 0 0\<rparr>)) (\<lambda>s1.
        let kpt = baseof mmu32 (vmem s1 asp 0)
        in Inr (s1\<lparr>vkpt := kpt, vcr3 := kpt, vpaging := True\<rparr>)))"

text \<open>\<open>protect\<close>: a root table with the kernel's entries of level 1.\<close>

fun copy_kernel_entries ::
  "nat \<Rightarrow> 'w::len word ptinfo \<Rightarrow> 'w word \<Rightarrow> 'w word \<Rightarrow> 'w word \<Rightarrow> 'w word vme \<Rightarrow> 'w word vme res" where
  "copy_kernel_entries fuel info utab cur stop s =
     (if cur = stop then Inr s
      else (case fuel of
        0 \<Rightarrow> Inl Diverges
      | Suc fuel' \<Rightarrow>
          let index = indexof cur info in
          copy_kernel_entries fuel' info utab (cur + push_bit (pt_shift info) 1) stop
            (s\<lparr>vmem := pt_store (vmem s) utab index (vmem s (vkpt s) index)\<rparr>)))"

declare copy_kernel_entries.simps [simp del] map_kernel_pages.simps [simp del]

fun copy_kernel_areas :: "'w::len word ptinfo \<Rightarrow> 'w word \<Rightarrow> 'w word vm_area list \<Rightarrow> 'w word vme \<Rightarrow> 'w word vme res" where
  "copy_kernel_areas info utab [] s = Inr s"
| "copy_kernel_areas info utab (vma # vmas) s =
     bind_res
       (if area_kernel vma
        then copy_kernel_entries (2 ^ pt_bits info) info utab (area_start vma) (area_end vma) s
        else Inr s)
       (copy_kernel_areas info utab vmas)"

definition protect :: "'w::len word mmu_config \<Rightarrow> 'w word \<Rightarrow> 'w word vme \<Rightarrow> 'w word vme res" where
  "protect c asp s =
     bind_res (pgallocz c s) (\<lambda>(utab, s1).
     bind_res (copy_kernel_areas (mmu_pgtables c ! 1) utab (mmu_areas c) s1) (\<lambda>s2.
     Inr (s2\<lparr>vas := (vas s2)(asp := (mmu_pgsize c, area_start (uvm_area c), area_end (uvm_area c))),
             vmem := pt_store (vmem s2) asp 0 (utab OR PTE_P OR PTE_U)\<rparr>)))"

definition unprotect :: "'w::len word mmu_config \<Rightarrow> 'w word \<Rightarrow> 'w word vme \<Rightarrow> 'w word vme" where
  "unprotect c asp s = teardown c 0 (mmu_pgtables c) asp s"

definition vm_in_range :: "'w::len word \<Rightarrow> 'w word vm_area \<Rightarrow> bool" where
  "vm_in_range va a \<longleftrightarrow> area_start a \<le> va \<and> va < area_end a"

definition vme_map :: "'w::len word mmu_config \<Rightarrow> 'w word \<Rightarrow> 'w word \<Rightarrow> 'w word \<Rightarrow> int \<Rightarrow> 'w word vme \<Rightarrow> 'w word vme res" where
  "vme_map c asp va pa prot s =
     (if \<not> vm_in_range va (uvm_area c) then Inl (Panic ''mapping an invalid address'')
      else if va \<noteq> baseof c va \<or> pa \<noteq> baseof c pa then Inl (Panic ''non-page-boundary address'')
      else bind_res (ptwalk c asp va (PTE_W OR PTE_U) s) (\<lambda>((pt, index), s1).
        bind_res
          (if prot = MMAP_NONE then
             if vmem s1 pt index AND PTE_P = 0 then Inl (Panic ''unmapping a non-mapped page'')
             else Inr (s1\<lparr>vmem := pt_store (vmem s1) pt index 0\<rparr>)
           else if vmem s1 pt index AND PTE_P \<noteq> 0 then Inl (Panic ''remapping a mapped page'')
           else Inr (s1\<lparr>vmem := pt_store (vmem s1) pt index
               (pa OR PTE_P OR PTE_U OR (if (word_of_int prot :: 32 word) AND word_of_int MMAP_WRITE \<noteq> 0 then PTE_W else 0))\<rparr>))
          (\<lambda>s2. bind_res (ptwalk c asp va (PTE_W OR PTE_U) s2) (\<lambda>(_, s3). Inr s3))))"

text \<open>\<open>start64.S\<close>: the kernel's first entry leads to a table of 512 large pages of 1 GiB.\<close>

definition boot_tables :: "(64 word \<Rightarrow> nat \<Rightarrow> 64 word) \<Rightarrow> 64 word \<Rightarrow> nat \<Rightarrow> 64 word" where
  "boot_tables m =
     pt_store (m(PDPT_ADDR := (\<lambda>i. if i < 512 then push_bit 30 (of_nat i) OR PTE_P OR PTE_W OR PTE_PS
                                   else m PDPT_ADDR i)))
       PML4_ADDR 0 (PDPT_ADDR OR PTE_P OR PTE_W)"

end
