(* ===== verification/Am_Vme_Facts.thy ===== *)
theory Am_Vme_Facts
  imports Am_Vme "HOL-Library.Multiset"
begin

text \<open>
  Facts about the page tables of \<open>Am_Vme\<close>.  \<open>mmu_walk\<close> is what the processor does with the
  tables; \<open>pt_pages\<close> lists the tables of the user part in the order a traversal meets them, and
  that this list has no duplicates says that they form a tree; \<open>k_pages\<close> are the tables of the
  kernel that entries without the user bit lead to.
\<close>

subsection \<open>The processor\<close>

text \<open>The entry the walk ends with, the number of levels below it (not 0 for a large page) and
  the conjunction of the rights of the entries on the way.\<close>

fun mmu_walk ::
  "'w::len word mmu_config \<Rightarrow> ('w word \<Rightarrow> nat \<Rightarrow> 'w word) \<Rightarrow> 'w word ptinfo list \<Rightarrow> 'w word \<Rightarrow> 'w word \<Rightarrow>
   (nat \<times> 'w word \<times> 'w word) option" where
  "mmu_walk c m [] cur va = None"
| "mmu_walk c m (info # rest) cur va =
     (let e = m cur (indexof va info) in
      if e AND PTE_P = 0 then None
      else if rest = [] \<or> e AND PTE_PS \<noteq> 0 then Some (length rest, e, e AND (PTE_W OR PTE_U))
      else map_option (\<lambda>(n, f, r). (n, f, r AND e)) (mmu_walk c m rest (baseof c e) va))"

subsection \<open>The tables\<close>

definition user_entry :: "'w::len word \<Rightarrow> bool" where
  "user_entry e \<longleftrightarrow> e AND PTE_P \<noteq> 0 \<and> e AND PTE_U \<noteq> 0"

fun pt_pages :: "'w::len word mmu_config \<Rightarrow> ('w word \<Rightarrow> nat \<Rightarrow> 'w word) \<Rightarrow> 'w word ptinfo list \<Rightarrow> 'w word \<Rightarrow> 'w word list" where
  "pt_pages c m [] cur = []"
| "pt_pages c m (info # rest) cur =
     cur # concat (map (\<lambda>i. if user_entry (m cur i) then pt_pages c m rest (baseof c (m cur i)) else [])
                       [0..<2 ^ pt_bits info])"

fun all_pages :: "'w::len word mmu_config \<Rightarrow> ('w word \<Rightarrow> nat \<Rightarrow> 'w word) \<Rightarrow> 'w word ptinfo list \<Rightarrow> 'w word \<Rightarrow> 'w word set" where
  "all_pages c m [] cur = {}"
| "all_pages c m (info # rest) cur =
     insert cur (\<Union>i < 2 ^ pt_bits info.
       if m cur i AND PTE_P \<noteq> 0 \<and> m cur i AND PTE_PS = 0 then all_pages c m rest (baseof c (m cur i)) else {})"

fun k_pages :: "'w::len word mmu_config \<Rightarrow> ('w word \<Rightarrow> nat \<Rightarrow> 'w word) \<Rightarrow> 'w word ptinfo list \<Rightarrow> 'w word \<Rightarrow> 'w word set" where
  "k_pages c m [] cur = {}"
| "k_pages c m (info # rest) cur =
     (\<Union>i < 2 ^ pt_bits info.
        if user_entry (m cur i) then k_pages c m rest (baseof c (m cur i))
        else if m cur i AND PTE_P \<noteq> 0 \<and> m cur i AND PTE_PS = 0 then all_pages c m rest (baseof c (m cur i))
        else {})"

text \<open>The way to an address goes through entries that \<open>ptwalk\<close> made for the user, as far as
  it goes; \<open>pt_slot\<close> is where it ends when it is complete.\<close>

definition table_entry :: "'w::len word \<Rightarrow> bool" where
  "table_entry e \<longleftrightarrow> e AND PTE_P \<noteq> 0 \<and> e AND PTE_U \<noteq> 0 \<and> e AND PTE_W \<noteq> 0 \<and> e AND PTE_PS = 0"

fun user_path :: "'w::len word mmu_config \<Rightarrow> ('w word \<Rightarrow> nat \<Rightarrow> 'w word) \<Rightarrow> 'w word ptinfo list \<Rightarrow> 'w word \<Rightarrow> 'w word \<Rightarrow> bool" where
  "user_path c m [] cur va = True"
| "user_path c m (info # rest) cur va =
     (let e = m cur (indexof va info) in
      rest = [] \<or> e AND PTE_P = 0 \<or> table_entry e \<and> user_path c m rest (baseof c e) va)"

fun pt_slot :: "'w::len word mmu_config \<Rightarrow> ('w word \<Rightarrow> nat \<Rightarrow> 'w word) \<Rightarrow> 'w word ptinfo list \<Rightarrow> 'w word \<Rightarrow> 'w word \<Rightarrow> ('w word \<times> nat) option" where
  "pt_slot c m [] cur va = None"
| "pt_slot c m (info # rest) cur va =
     (let e = m cur (indexof va info) in
      if rest = [] then Some (cur, indexof va info)
      else if table_entry e then pt_slot c m rest (baseof c e) va
      else None)"

lemma table_user: "table_entry e \<Longrightarrow> user_entry e"
  by (simp add: table_entry_def user_entry_def)

subsection \<open>Locality\<close>

text \<open>A walk, and everything said of the tables, depends on the tables of the user part and of
  the kernel part only.\<close>

definition pt_agree :: "'w word set \<Rightarrow> ('w word \<Rightarrow> nat \<Rightarrow> 'w word) \<Rightarrow> ('w::len word \<Rightarrow> nat \<Rightarrow> 'w word) \<Rightarrow> bool" where
  "pt_agree A m m' \<longleftrightarrow> (\<forall>q \<in> A. m' q = m q)"

lemma pt_agree_mono: "pt_agree A m m' \<Longrightarrow> B \<subseteq> A \<Longrightarrow> pt_agree B m m'"
  by (auto simp: pt_agree_def)

lemma all_pages_cong:
  "pt_agree (all_pages c m infos cur) m m' \<Longrightarrow>
   all_pages c m' infos cur = all_pages c m infos cur \<and> mmu_walk c m' infos cur va = mmu_walk c m infos cur va"
  if "\<And>info. info \<in> set infos \<Longrightarrow> indexof va info < 2 ^ pt_bits info"
  using that
proof (induction infos arbitrary: cur)
  case (Cons info rest)
  have cur: "m' cur = m cur" using Cons.prems(1) by (simp add: pt_agree_def)
  have sub: "all_pages c m' rest (baseof c (m cur i)) = all_pages c m rest (baseof c (m cur i)) \<and>
      mmu_walk c m' rest (baseof c (m cur i)) va = mmu_walk c m rest (baseof c (m cur i)) va"
    if "i < 2 ^ pt_bits info" "m cur i AND PTE_P \<noteq> 0" "m cur i AND PTE_PS = 0" for i
  proof (rule Cons.IH)
    have "all_pages c m rest (baseof c (m cur i)) \<subseteq> all_pages c m (info # rest) cur"
      using that by (auto intro!: bexI [of _ i])
    then show "pt_agree (all_pages c m rest (baseof c (m cur i))) m m'"
      using Cons.prems(1) pt_agree_mono by blast
  qed (use Cons.prems(2) in simp)
  have "indexof va info < 2 ^ pt_bits info" using Cons.prems(2) by simp
  then show ?case using cur sub by (auto simp: Let_def)
qed simp

lemma pt_cong:
  assumes "\<And>info va. info \<in> set infos \<Longrightarrow> indexof va info < 2 ^ pt_bits info"
  shows "pt_agree (set (pt_pages c m infos cur) \<union> k_pages c m infos cur) m m' \<Longrightarrow>
    pt_pages c m' infos cur = pt_pages c m infos cur \<and> k_pages c m' infos cur = k_pages c m infos cur \<and>
    mmu_walk c m' infos cur va = mmu_walk c m infos cur va \<and>
    user_path c m' infos cur va = user_path c m infos cur va \<and>
    pt_slot c m' infos cur va = pt_slot c m infos cur va"
  using assms
proof (induction infos arbitrary: cur)
  case (Cons info rest)
  have cur: "m' cur = m cur" using Cons.prems(1) by (simp add: pt_agree_def)
  have idx: "indexof va info < 2 ^ pt_bits info" using Cons.prems(2) by simp
  let ?b = "\<lambda>i. baseof c (m cur i)"
  have sub: "pt_pages c m' rest (?b i) = pt_pages c m rest (?b i) \<and> k_pages c m' rest (?b i) = k_pages c m rest (?b i) \<and>
      mmu_walk c m' rest (?b i) va = mmu_walk c m rest (?b i) va \<and>
      user_path c m' rest (?b i) va = user_path c m rest (?b i) va \<and>
      pt_slot c m' rest (?b i) va = pt_slot c m rest (?b i) va"
    if "i < 2 ^ pt_bits info" "user_entry (m cur i)" for i
  proof (rule Cons.IH)
    have "set (pt_pages c m rest (?b i)) \<union> k_pages c m rest (?b i) \<subseteq>
        set (pt_pages c m (info # rest) cur) \<union> k_pages c m (info # rest) cur"
      using that by (auto intro!: bexI [of _ i])
    then show "pt_agree (set (pt_pages c m rest (?b i)) \<union> k_pages c m rest (?b i)) m m'"
      using Cons.prems(1) pt_agree_mono by blast
  qed (use Cons.prems(2) in simp)
  have ksub: "all_pages c m' rest (?b i) = all_pages c m rest (?b i) \<and> mmu_walk c m' rest (?b i) va = mmu_walk c m rest (?b i) va"
    if "i < 2 ^ pt_bits info" "\<not> user_entry (m cur i)" "m cur i AND PTE_P \<noteq> 0" "m cur i AND PTE_PS = 0" for i
  proof (rule all_pages_cong)
    have "all_pages c m rest (?b i) \<subseteq> k_pages c m (info # rest) cur"
      using that by (auto intro!: bexI [of _ i])
    then show "pt_agree (all_pages c m rest (?b i)) m m'"
      using Cons.prems(1) pt_agree_mono by blast
  qed (use Cons.prems(2) in simp)
  have "mmu_walk c m' (info # rest) cur va = mmu_walk c m (info # rest) cur va"
    using cur sub [OF idx] ksub [OF idx] by (cases "user_entry (m cur (indexof va info))") (auto simp: Let_def)
  moreover have "user_path c m' (info # rest) cur va = user_path c m (info # rest) cur va"
    "pt_slot c m' (info # rest) cur va = pt_slot c m (info # rest) cur va"
    using cur sub [OF idx] table_user by (auto simp: Let_def)
  moreover have "pt_pages c m' (info # rest) cur = pt_pages c m (info # rest) cur"
    using cur sub by (auto intro!: arg_cong [where f = concat] map_cong)
  moreover have "k_pages c m' (info # rest) cur = k_pages c m (info # rest) cur"
    using cur sub ksub by (auto intro!: SUP_cong)
  ultimately show ?case by blast
qed simp

subsection \<open>Entries\<close>

lemma pte_bits:
  "e AND PTE_P = 0 \<longleftrightarrow> \<not> bit e 0" "e AND PTE_W = 0 \<longleftrightarrow> \<not> bit e 1" "e AND PTE_U = 0 \<longleftrightarrow> \<not> bit e 2"
  "e AND PTE_PS = 0 \<longleftrightarrow> \<not> bit e 7"
  for e :: "'w::len word"
proof -
  have eqs: "PTE_P = (2 ^ 0 :: 'w word)" "PTE_W = (2 ^ 1 :: 'w word)" "PTE_U = (2 ^ 2 :: 'w word)" "PTE_PS = (2 ^ 7 :: 'w word)"
    by (simp_all add: PTE_P_def PTE_W_def PTE_U_def PTE_PS_def)
  show "e AND PTE_P = 0 \<longleftrightarrow> \<not> bit e 0" "e AND PTE_W = 0 \<longleftrightarrow> \<not> bit e 1" "e AND PTE_U = 0 \<longleftrightarrow> \<not> bit e 2"
    "e AND PTE_PS = 0 \<longleftrightarrow> \<not> bit e 7"
    unfolding eqs and_exp_eq_0_iff_not_bit by (rule refl)+
qed

lemma bit_pte:
  assumes "12 < LENGTH('w::len)"
  shows "bit (PTE_P :: 'w word) n \<longleftrightarrow> n = 0" "bit (PTE_W :: 'w word) n \<longleftrightarrow> n = 1"
    "bit (PTE_U :: 'w word) n \<longleftrightarrow> n = 2"
proof -
  have eqs: "PTE_P = (2 ^ 0 :: 'w word)" "PTE_W = (2 ^ 1 :: 'w word)" "PTE_U = (2 ^ 2 :: 'w word)"
    by (simp_all add: PTE_P_def PTE_W_def PTE_U_def)
  show "bit (PTE_P :: 'w word) n \<longleftrightarrow> n = 0" "bit (PTE_W :: 'w word) n \<longleftrightarrow> n = 1"
    "bit (PTE_U :: 'w word) n \<longleftrightarrow> n = 2"
    unfolding eqs bit_exp_iff using assms by (auto simp: possible_bit_word)
qed

subsection \<open>Lists of tables\<close>

lemma mset_concat_update:
  assumes "k < n" and "\<And>i. i < n \<Longrightarrow> i \<noteq> k \<Longrightarrow> f' i = f i"
  shows "mset (concat (map f' [0..<n])) + mset (f k) = mset (concat (map f [0..<n])) + mset (f' k)"
proof -
  have s: "[0..<n] = [0..<k] @ k # [Suc k..<n]"
    using assms(1) upt_add_eq_append [of 0 k "n - k"] by (simp add: upt_conv_Cons)
  have "map f' [0..<k] = map f [0..<k]" "map f' [Suc k..<n] = map f [Suc k..<n]"
    using assms by auto
  then show ?thesis unfolding s map_append list.map concat_append concat.simps by (simp del: map_eq_conv)
qed

lemma mset_move: "A + F = B + F' \<Longrightarrow> F' = F + U \<Longrightarrow> A = B + U" for A :: "'a multiset"
proof -
  assume "A + F = B + F'" and "F' = F + U"
  then have "A + F = (B + U) + F" by (simp add: ac_simps)
  then show "A = B + U" by (rule add_right_imp_eq)
qed

lemma distinct_concat_part:
  assumes "distinct (x # concat (map f [0..<n]) @ ys)" and "k < n"
  shows "distinct (f k @ ys)" and "x \<notin> set (f k)" and "\<And>i. i < n \<Longrightarrow> i \<noteq> k \<Longrightarrow> set (f i) \<inter> set (f k) = {}"
proof -
  have s: "[0..<n] = [0..<k] @ k # [Suc k..<n]"
    using assms(2) upt_add_eq_append [of 0 k "n - k"] by (simp add: upt_conv_Cons)
  show "distinct (f k @ ys)" "x \<notin> set (f k)" using assms(1) unfolding s by auto
  show "set (f i) \<inter> set (f k) = {}" if "i < n" "i \<noteq> k" for i
    using that assms(1) unfolding s by (cases "i < k") force+
qed

subsection \<open>Walking and growing\<close>

definition grown ::
  "'w::len word mmu_config \<Rightarrow> 'w word ptinfo list \<Rightarrow> 'w word \<Rightarrow> 'w word list \<Rightarrow>
   ('w word \<Rightarrow> nat \<Rightarrow> 'w word) \<Rightarrow> ('w word \<Rightarrow> nat \<Rightarrow> 'w word) \<Rightarrow> bool" where
  "grown c infos cur used m m' \<longleftrightarrow>
     mset (pt_pages c m' infos cur) = mset (pt_pages c m infos cur) + mset used \<and>
     k_pages c m' infos cur = k_pages c m infos cur \<and>
     pt_agree (- (set (pt_pages c m infos cur) \<union> set used)) m m' \<and>
     (\<forall>vb. mmu_walk c m' infos cur vb = mmu_walk c m infos cur vb) \<and>
     (\<forall>vb. user_path c m infos cur vb \<longrightarrow> user_path c m' infos cur vb)"

locale paging =
  fixes c :: "'w::len word mmu_config"
  assumes pgsize: "mmu_pgsize c = 4096" and width: "12 < LENGTH('w)"
    and index_bound: "info \<in> set (tl (mmu_pgtables c)) \<Longrightarrow> indexof a info < 2 ^ pt_bits info"
    and table_fits: "info \<in> set (tl (mmu_pgtables c)) \<Longrightarrow> 2 ^ pt_bits info \<le> page_words c"
begin

lemma baseof_mask: "baseof c w = w AND NOT (mask 12)"
  by (simp add: baseof_def pgsize mask_eq_exp_minus_1)

lemma aligned_bits: "baseof c p = p \<Longrightarrow> n < 12 \<Longrightarrow> \<not> bit p n"
proof -
  assume "baseof c p = p" and "n < 12"
  then have "bit p n = bit (p AND NOT (mask 12)) n" by (simp add: baseof_mask)
  then show "\<not> bit p n" using \<open>n < 12\<close> width by (simp add: bit_simps)
qed

lemma baseof_flags:
  assumes "baseof c p = p" and "\<And>n. bit x n \<Longrightarrow> n < 12"
  shows "baseof c (p OR x) = p"
proof (rule bit_word_eqI)
  fix n assume "n < LENGTH('w)"
  then show "bit (baseof c (p OR x)) n = bit p n"
    using aligned_bits [OF assms(1), of n] assms(2) [of n] by (auto simp: baseof_mask bit_simps)
qed

lemma new_table_entry:
  assumes "baseof c p = p"
  shows "table_entry (p OR PTE_P OR (PTE_W OR PTE_U))" and "baseof c (p OR PTE_P OR (PTE_W OR PTE_U)) = p"
proof -
  note b = bit_pte [OF width]
  show "table_entry (p OR PTE_P OR (PTE_W OR PTE_U))"
    using aligned_bits [OF assms, of 7] by (simp add: table_entry_def pte_bits bit_or_iff b)
  show "baseof c (p OR PTE_P OR (PTE_W OR PTE_U)) = p"
    unfolding or.assoc by (rule baseof_flags [OF assms]) (auto simp: bit_or_iff b)
qed

text \<open>A fresh table is empty.\<close>

lemma empty_table:
  assumes "info \<in> set (tl (mmu_pgtables c))" and "\<And>i. i < page_words c \<Longrightarrow> m p i = 0"
  shows "pt_pages c m (info # rest) p = [p]" and "k_pages c m (info # rest) p = {}"
    and "mmu_walk c m (info # rest) p va = None" and "user_path c m (info # rest) p va"
proof -
  have z: "m p i = 0" if "i < 2 ^ pt_bits info" for i using assms table_fits [OF assms(1)] that by simp
  then show "pt_pages c m (info # rest) p = [p]" by (auto simp: user_entry_def)
  show "k_pages c m (info # rest) p = {}" using z by (auto simp: user_entry_def)
  show "mmu_walk c m (info # rest) p va = None" "user_path c m (info # rest) p va"
    using z [OF index_bound [OF assms(1)]] by simp_all
qed

text \<open>What lies below two different entries of a table.\<close>

lemma pages_below:
  assumes "i < 2 ^ pt_bits info" and "user_entry (m cur i)"
  shows "set (pt_pages c m rest (baseof c (m cur i))) \<subseteq> set (pt_pages c m (info # rest) cur)"
    and "k_pages c m rest (baseof c (m cur i)) \<subseteq> k_pages c m (info # rest) cur"
  using assms by (auto intro!: bexI [of _ i])

lemma all_below:
  assumes "i < 2 ^ pt_bits info" and "\<not> user_entry (m cur i)" and "m cur i AND PTE_P \<noteq> 0" and "m cur i AND PTE_PS = 0"
  shows "all_pages c m rest (baseof c (m cur i)) \<subseteq> k_pages c m (info # rest) cur"
  using assms by (auto intro!: bexI [of _ i])

text \<open>A change that leaves alone everything below the other entries of a table \<open>cur\<close> and changes
  only the entry \<open>k\<close> of the table itself.\<close>

lemma entry_change:
  assumes infos: "set (info # rest) \<subseteq> set (tl (mmu_pgtables c))"
    and same: "\<And>i. i \<noteq> k \<Longrightarrow> m' cur i = m cur i"
    and rest: "\<And>i. i < 2 ^ pt_bits info \<Longrightarrow> i \<noteq> k \<Longrightarrow> user_entry (m cur i) \<Longrightarrow>
      pt_agree (set (pt_pages c m rest (baseof c (m cur i))) \<union> k_pages c m rest (baseof c (m cur i))) m m'"
    and kern: "\<And>i. i < 2 ^ pt_bits info \<Longrightarrow> i \<noteq> k \<Longrightarrow> \<not> user_entry (m cur i) \<Longrightarrow> m cur i AND PTE_P \<noteq> 0 \<Longrightarrow>
      m cur i AND PTE_PS = 0 \<Longrightarrow> pt_agree (all_pages c m rest (baseof c (m cur i))) m m'"
    and i: "i < 2 ^ pt_bits info" "i \<noteq> k"
  shows "(if user_entry (m' cur i) then pt_pages c m' rest (baseof c (m' cur i)) else []) =
         (if user_entry (m cur i) then pt_pages c m rest (baseof c (m cur i)) else [])"
    and "(if user_entry (m' cur i) then k_pages c m' rest (baseof c (m' cur i))
          else if m' cur i AND PTE_P \<noteq> 0 \<and> m' cur i AND PTE_PS = 0 then all_pages c m' rest (baseof c (m' cur i)) else {}) =
         (if user_entry (m cur i) then k_pages c m rest (baseof c (m cur i))
          else if m cur i AND PTE_P \<noteq> 0 \<and> m cur i AND PTE_PS = 0 then all_pages c m rest (baseof c (m cur i)) else {})"
    and "indexof va info = i \<Longrightarrow> mmu_walk c m' (info # rest) cur va = mmu_walk c m (info # rest) cur va"
    and "indexof va info = i \<Longrightarrow> user_path c m' (info # rest) cur va = user_path c m (info # rest) cur va"
    and "indexof va info = i \<Longrightarrow> pt_slot c m' (info # rest) cur va = pt_slot c m (info # rest) cur va"
proof -
  have b: "info' \<in> set rest \<Longrightarrow> indexof va info' < 2 ^ pt_bits info'" for info' va using infos index_bound by auto
  have u: "pt_pages c m' rest (baseof c (m cur i)) = pt_pages c m rest (baseof c (m cur i)) \<and>
      k_pages c m' rest (baseof c (m cur i)) = k_pages c m rest (baseof c (m cur i)) \<and>
      mmu_walk c m' rest (baseof c (m cur i)) va = mmu_walk c m rest (baseof c (m cur i)) va \<and>
      user_path c m' rest (baseof c (m cur i)) va = user_path c m rest (baseof c (m cur i)) va \<and>
      pt_slot c m' rest (baseof c (m cur i)) va = pt_slot c m rest (baseof c (m cur i)) va"
    if "user_entry (m cur i)" for va
    by (rule pt_cong [OF b rest [OF i that]])
  have n: "all_pages c m' rest (baseof c (m cur i)) = all_pages c m rest (baseof c (m cur i)) \<and>
      mmu_walk c m' rest (baseof c (m cur i)) va = mmu_walk c m rest (baseof c (m cur i)) va"
    if "\<not> user_entry (m cur i)" "m cur i AND PTE_P \<noteq> 0" "m cur i AND PTE_PS = 0" for va
    by (rule all_pages_cong [OF b kern [OF i that]])
  note e = same [OF i(2)]
  show "(if user_entry (m' cur i) then pt_pages c m' rest (baseof c (m' cur i)) else []) =
         (if user_entry (m cur i) then pt_pages c m rest (baseof c (m cur i)) else [])"
    using u e by simp
  show "(if user_entry (m' cur i) then k_pages c m' rest (baseof c (m' cur i))
          else if m' cur i AND PTE_P \<noteq> 0 \<and> m' cur i AND PTE_PS = 0 then all_pages c m' rest (baseof c (m' cur i)) else {}) =
         (if user_entry (m cur i) then k_pages c m rest (baseof c (m cur i))
          else if m cur i AND PTE_P \<noteq> 0 \<and> m cur i AND PTE_PS = 0 then all_pages c m rest (baseof c (m cur i)) else {})"
    using u n e by simp
  show "mmu_walk c m' (info # rest) cur va = mmu_walk c m (info # rest) cur va" if "indexof va info = i"
    using u [of va] n [of va] e that by (cases "user_entry (m cur i)") (auto simp: Let_def)
  show "user_path c m' (info # rest) cur va = user_path c m (info # rest) cur va" if "indexof va info = i"
    using u [of va] e that table_user by (auto simp: Let_def)
  show "pt_slot c m' (info # rest) cur va = pt_slot c m (info # rest) cur va" if "indexof va info = i"
    using u [of va] e that table_user by (auto simp: Let_def)
qed

text \<open>A change below the entry \<open>k\<close> leaves the table and everything below its other entries
  alone.\<close>

lemma child_frame:
  assumes infos: "set (info # rest) \<subseteq> set (tl (mmu_pgtables c))"
    and k: "k < 2 ^ pt_bits info" and ue: "user_entry (m cur k)"
    and D: "distinct (pt_pages c m (info # rest) cur @ used)"
    and K: "k_pages c m (info # rest) cur \<inter> (set (pt_pages c m (info # rest) cur) \<union> set used) = {}"
    and agree: "pt_agree (- (set (pt_pages c m rest (baseof c (m cur k))) \<union> set used)) m m'"
  shows "m' cur = m cur"
    and "\<And>i. i < 2 ^ pt_bits info \<Longrightarrow> i \<noteq> k \<Longrightarrow>
      (if user_entry (m' cur i) then pt_pages c m' rest (baseof c (m' cur i)) else []) =
      (if user_entry (m cur i) then pt_pages c m rest (baseof c (m cur i)) else [])"
    and "\<And>i. i < 2 ^ pt_bits info \<Longrightarrow> i \<noteq> k \<Longrightarrow>
      (if user_entry (m' cur i) then k_pages c m' rest (baseof c (m' cur i))
       else if m' cur i AND PTE_P \<noteq> 0 \<and> m' cur i AND PTE_PS = 0 then all_pages c m' rest (baseof c (m' cur i)) else {}) =
      (if user_entry (m cur i) then k_pages c m rest (baseof c (m cur i))
       else if m cur i AND PTE_P \<noteq> 0 \<and> m cur i AND PTE_PS = 0 then all_pages c m rest (baseof c (m cur i)) else {})"
    and "\<And>va. indexof va info \<noteq> k \<Longrightarrow> mmu_walk c m' (info # rest) cur va = mmu_walk c m (info # rest) cur va"
    and "\<And>va. indexof va info \<noteq> k \<Longrightarrow> user_path c m' (info # rest) cur va = user_path c m (info # rest) cur va"
    and "\<And>va. indexof va info \<noteq> k \<Longrightarrow> pt_slot c m' (info # rest) cur va = pt_slot c m (info # rest) cur va"
proof -
  let ?n = "2 ^ pt_bits info :: nat"
  let ?f = "\<lambda>i. if user_entry (m cur i) then pt_pages c m rest (baseof c (m cur i)) else []"
  have D': "distinct (cur # concat (map ?f [0..<?n]) @ used)" using D by simp
  note part = distinct_concat_part [OF D' k, simplified ue if_True]
  show cur: "m' cur = m cur" using agree part(2) D' by (simp add: pt_agree_def)
  have rst: "pt_agree (set (pt_pages c m rest (baseof c (m cur i))) \<union> k_pages c m rest (baseof c (m cur i))) m m'"
    if "i < ?n" "i \<noteq> k" "user_entry (m cur i)" for i
  proof (rule pt_agree_mono [OF agree])
    have "set (pt_pages c m rest (baseof c (m cur i))) \<inter> set (pt_pages c m rest (baseof c (m cur k))) = {}"
      using part(3) [OF that(1,2)] that(3) by simp
    moreover have "set (pt_pages c m rest (baseof c (m cur i))) \<inter> set used = {}"
      using pages_below(1) [where m = m and cur = cur, OF that(1,3), of rest] D by auto
    moreover have "k_pages c m rest (baseof c (m cur i)) \<inter> (set (pt_pages c m rest (baseof c (m cur k))) \<union> set used) = {}"
      using pages_below(2) [where m = m and cur = cur, OF that(1,3), of rest]
        pages_below(1) [where m = m and cur = cur, OF k ue, of rest] K by blast
    ultimately show "set (pt_pages c m rest (baseof c (m cur i))) \<union> k_pages c m rest (baseof c (m cur i))
        \<subseteq> - (set (pt_pages c m rest (baseof c (m cur k))) \<union> set used)" by blast
  qed
  have krn: "pt_agree (all_pages c m rest (baseof c (m cur i))) m m'"
    if "i < ?n" "\<not> user_entry (m cur i)" "m cur i AND PTE_P \<noteq> 0" "m cur i AND PTE_PS = 0" for i
  proof (rule pt_agree_mono [OF agree])
    show "all_pages c m rest (baseof c (m cur i)) \<subseteq> - (set (pt_pages c m rest (baseof c (m cur k))) \<union> set used)"
      using all_below [where m = m and cur = cur, OF that, of rest]
        pages_below(1) [where m = m and cur = cur, OF k ue, of rest] K by blast
  qed
  note ec = entry_change [where k = k and m = m and m' = m' and cur = cur, OF infos]
  show "\<And>i. i < ?n \<Longrightarrow> i \<noteq> k \<Longrightarrow>
      (if user_entry (m' cur i) then pt_pages c m' rest (baseof c (m' cur i)) else []) = ?f i"
    by (rule ec(1); simp add: cur rst krn)
  show "\<And>i. i < ?n \<Longrightarrow> i \<noteq> k \<Longrightarrow>
      (if user_entry (m' cur i) then k_pages c m' rest (baseof c (m' cur i))
       else if m' cur i AND PTE_P \<noteq> 0 \<and> m' cur i AND PTE_PS = 0 then all_pages c m' rest (baseof c (m' cur i)) else {}) =
      (if user_entry (m cur i) then k_pages c m rest (baseof c (m cur i))
       else if m cur i AND PTE_P \<noteq> 0 \<and> m cur i AND PTE_PS = 0 then all_pages c m rest (baseof c (m cur i)) else {})"
    by (rule ec(2); simp add: cur rst krn)
  have b: "indexof va info < ?n" for va using index_bound infos by simp
  show "mmu_walk c m' (info # rest) cur va = mmu_walk c m (info # rest) cur va"
    "user_path c m' (info # rest) cur va = user_path c m (info # rest) cur va"
    "pt_slot c m' (info # rest) cur va = pt_slot c m (info # rest) cur va" if i: "indexof va info \<noteq> k" for va
    using b [of va]
    by (intro ec(3) [OF _ _ _ _ i refl] ec(4) [OF _ _ _ _ i refl] ec(5) [OF _ _ _ _ i refl]; simp add: cur rst krn)+
qed

text \<open>Growth below an entry is growth of the table.\<close>

lemma grown_child:
  assumes infos: "set (info # rest) \<subseteq> set (tl (mmu_pgtables c))" and ne: "rest \<noteq> []"
    and k: "k < 2 ^ pt_bits info" and e: "table_entry (m cur k)"
    and D: "distinct (pt_pages c m (info # rest) cur @ used)"
    and K: "k_pages c m (info # rest) cur \<inter> (set (pt_pages c m (info # rest) cur) \<union> set used) = {}"
    and G: "grown c rest (baseof c (m cur k)) used m m'"
  shows "grown c (info # rest) cur used m m'"
    and "indexof va info = k \<Longrightarrow> pt_slot c m' (info # rest) cur va = pt_slot c m' rest (baseof c (m cur k)) va"
proof -
  let ?n = "2 ^ pt_bits info :: nat"
  let ?f = "\<lambda>m i. if user_entry (m cur i) then pt_pages c m rest (baseof c (m cur i)) else []"
  let ?g = "\<lambda>m i. if user_entry (m cur i) then k_pages c m rest (baseof c (m cur i))
      else if m cur i AND PTE_P \<noteq> 0 \<and> m cur i AND PTE_PS = 0 then all_pages c m rest (baseof c (m cur i)) else {}"
  have ue: "user_entry (m cur k)" by (rule table_user [OF e])
  have fk: "?f m k = pt_pages c m rest (baseof c (m cur k))" using ue by simp
  have agree: "pt_agree (- (set (pt_pages c m rest (baseof c (m cur k))) \<union> set used)) m m'"
    using G by (simp add: grown_def)
  note fr = child_frame [OF infos k ue D K agree]
  note cur = fr(1) and f = fr(2,3) and w = fr(4,5)
  have f'k: "?f m' k = pt_pages c m' rest (baseof c (m cur k))" using ue cur by simp
  have "mset (concat (map (?f m') [0..<?n])) + mset (?f m k) = mset (concat (map (?f m) [0..<?n])) + mset (?f m' k)"
    by (rule mset_concat_update [OF k f(1)])
  moreover have "mset (?f m' k) = mset (?f m k) + mset used"
    using G unfolding f'k fk by (simp add: grown_def)
  ultimately have "mset (concat (map (?f m') [0..<?n])) = mset (concat (map (?f m) [0..<?n])) + mset used"
    by (rule mset_move)
  then have 1: "mset (pt_pages c m' (info # rest) cur) = mset (pt_pages c m (info # rest) cur) + mset used" by simp
  have "?g m' i = ?g m i" if "i < ?n" for i
  proof (cases "i = k")
    case True
    then show ?thesis using G ue cur by (simp add: grown_def)
  qed (use f(2) [OF that] in simp)
  then have 2: "k_pages c m' (info # rest) cur = k_pages c m (info # rest) cur" by (auto intro!: SUP_cong)
  have 3: "pt_agree (- (set (pt_pages c m (info # rest) cur) \<union> set used)) m m'"
    using agree pages_below(1) [where m = m and cur = cur, OF k ue, of rest] by (auto simp: pt_agree_def)
  have 4: "mmu_walk c m' (info # rest) cur vb = mmu_walk c m (info # rest) cur vb" for vb
  proof (cases "indexof vb info = k")
    case True
    then show ?thesis using G cur e ne by (simp add: grown_def table_entry_def Let_def)
  next
    case False
    then show ?thesis by (rule w(1))
  qed
  have 5: "user_path c m' (info # rest) cur vb" if "user_path c m (info # rest) cur vb" for vb
  proof (cases "indexof vb info = k")
    case True
    then show ?thesis using G cur e ne that by (simp add: grown_def Let_def table_entry_def)
  next
    case False
    then show ?thesis using w(2) that by blast
  qed
  show "grown c (info # rest) cur used m m'" unfolding grown_def using 1 2 3 4 5 by blast
  show "indexof va info = k \<Longrightarrow> pt_slot c m' (info # rest) cur va = pt_slot c m' rest (baseof c (m cur k)) va"
    using cur e ne by (simp add: Let_def)
qed

lemma grown_refl: "grown c infos cur [] m m"
  by (simp add: grown_def pt_agree_def)

lemma grown_sets:
  assumes "grown c infos cur used m m'"
  shows "set (pt_pages c m' infos cur) = set (pt_pages c m infos cur) \<union> set used"
    and "k_pages c m' infos cur = k_pages c m infos cur"
    and "distinct (pt_pages c m infos cur @ used @ ps) \<Longrightarrow> distinct (pt_pages c m' infos cur @ ps)"
proof -
  have ms: "mset (pt_pages c m' infos cur) = mset (pt_pages c m infos cur @ used)"
    using assms by (simp add: grown_def)
  then show "set (pt_pages c m' infos cur) = set (pt_pages c m infos cur) \<union> set used"
    using mset_eq_setD [OF ms] by simp
  show "k_pages c m' infos cur = k_pages c m infos cur" using assms by (simp add: grown_def)
  have "mset (pt_pages c m' infos cur @ ps) = mset (pt_pages c m infos cur @ used @ ps)"
    using ms by simp
  then show "distinct (pt_pages c m infos cur @ used @ ps) \<Longrightarrow> distinct (pt_pages c m' infos cur @ ps)"
    by (metis mset_eq_imp_distinct_iff)
qed

lemma grown_trans:
  assumes "grown c infos cur us m m1" and "grown c infos cur vs m1 m2"
  shows "grown c infos cur (us @ vs) m m2"
proof -
  have "set (pt_pages c m1 infos cur) = set (pt_pages c m infos cur) \<union> set us"
    by (rule grown_sets(1) [OF assms(1)])
  then have "pt_agree (- (set (pt_pages c m infos cur) \<union> set (us @ vs))) m m2"
    using assms by (auto simp: grown_def pt_agree_def)
  then show ?thesis using assms by (simp add: grown_def ac_simps)
qed

text \<open>A new, empty table below an entry that was absent.\<close>

lemma grown_alloc:
  assumes infos: "set (info # rest) \<subseteq> set (tl (mmu_pgtables c))"
    and ne: "rest \<noteq> []" and k: "k < 2 ^ pt_bits info" and absent: "m cur k AND PTE_P = 0"
    and p: "baseof c p = p" "p \<notin> set (pt_pages c m (info # rest) cur)" "p \<notin> k_pages c m (info # rest) cur"
    and zero: "\<And>i. i < page_words c \<Longrightarrow> z i = 0"
    and m1: "m1 = pt_store (m(p := z)) cur k (p OR PTE_P OR (PTE_W OR PTE_U))"
    and D: "distinct (pt_pages c m (info # rest) cur)"
    and K: "k_pages c m (info # rest) cur \<inter> set (pt_pages c m (info # rest) cur) = {}"
  shows "grown c (info # rest) cur [p] m m1" and "table_entry (m1 cur k)" and "baseof c (m1 cur k) = p"
proof -
  let ?n = "2 ^ pt_bits info :: nat"
  let ?f = "\<lambda>m i. if user_entry (m cur i) then pt_pages c m rest (baseof c (m cur i)) else []"
  let ?g = "\<lambda>m i. if user_entry (m cur i) then k_pages c m rest (baseof c (m cur i))
      else if m cur i AND PTE_P \<noteq> 0 \<and> m cur i AND PTE_PS = 0 then all_pages c m rest (baseof c (m cur i)) else {}"
  have pc: "p \<noteq> cur" using p(2) by auto
  have cur: "m1 cur i = m cur i" if "i \<noteq> k" for i using that pc by (simp add: m1 pt_store_def)
  have mk: "m1 cur k = p OR PTE_P OR (PTE_W OR PTE_U)" using pc by (simp add: m1 pt_store_def)
  have mp: "m1 p i = 0" if "i < page_words c" for i using that pc zero by (simp add: m1 pt_store_def)
  show te: "table_entry (m1 cur k)" and bk: "baseof c (m1 cur k) = p"
    unfolding mk by (rule new_table_entry [OF p(1)])+
  have agree: "pt_agree (- {p, cur}) m m1" by (simp add: pt_agree_def m1 pt_store_def)
  have empty: "pt_pages c m1 rest p = [p]" "k_pages c m1 rest p = {}" "mmu_walk c m1 rest p vb = None" "user_path c m1 rest p vb" for vb
  proof -
    obtain info' rest' where r: "rest = info' # rest'" using ne by (cases rest) auto
    then have "info' \<in> set (tl (mmu_pgtables c))" using infos by simp
    from empty_table [where m = m1 and p = p, OF this mp]
    show "pt_pages c m1 rest p = [p]" "k_pages c m1 rest p = {}" "mmu_walk c m1 rest p vb = None" "user_path c m1 rest p vb"
      unfolding r by blast+
  qed
  have nu: "\<not> user_entry (m cur k)" using absent by (simp add: user_entry_def)
  have D': "distinct (cur # concat (map (?f m) [0..<?n]) @ [])" using D by simp
  have rst: "pt_agree (set (pt_pages c m rest (baseof c (m cur i))) \<union> k_pages c m rest (baseof c (m cur i))) m m1"
    if "i < ?n" "user_entry (m cur i)" for i
  proof (rule pt_agree_mono [OF agree])
    have "cur \<notin> set (pt_pages c m rest (baseof c (m cur i)))"
      using distinct_concat_part(2) [OF D' that(1)] that(2) by simp
    moreover have "cur \<notin> k_pages c m rest (baseof c (m cur i))"
      using pages_below(2) [where m = m and cur = cur, OF that, of rest] K by auto
    ultimately show "set (pt_pages c m rest (baseof c (m cur i))) \<union> k_pages c m rest (baseof c (m cur i)) \<subseteq> - {p, cur}"
      using pages_below [where m = m and cur = cur, OF that, of rest] p(2,3) by blast
  qed
  have krn: "pt_agree (all_pages c m rest (baseof c (m cur i))) m m1"
    if "i < ?n" "\<not> user_entry (m cur i)" "m cur i AND PTE_P \<noteq> 0" "m cur i AND PTE_PS = 0" for i
  proof (rule pt_agree_mono [OF agree])
    have "cur \<notin> k_pages c m (info # rest) cur" using K by auto
    then show "all_pages c m rest (baseof c (m cur i)) \<subseteq> - {p, cur}"
      using all_below [where m = m and cur = cur, OF that, of rest] p(3) by blast
  qed
  note ec = entry_change [where k = k and m = m and m' = m1 and cur = cur, OF infos]
  have f: "?f m1 i = ?f m i" "?g m1 i = ?g m i" if i: "i < ?n" "i \<noteq> k" for i
    by (rule ec(1) [OF _ _ _ i] ec(2) [OF _ _ _ i]; simp add: cur rst krn)+
  have w: "mmu_walk c m1 (info # rest) cur vb = mmu_walk c m (info # rest) cur vb"
    "user_path c m1 (info # rest) cur vb = user_path c m (info # rest) cur vb" if i: "indexof vb info \<noteq> k" for vb
    using index_bound [of info vb] infos
    by (intro ec(3) [OF _ _ _ _ i refl] ec(4) [OF _ _ _ _ i refl]; simp add: cur rst krn)+
  have f1k: "?f m1 k = [p]" using table_user [OF te] bk empty(1) by simp
  have fk: "?f m k = []" using nu by simp
  have "mset (concat (map (?f m1) [0..<?n])) + mset (?f m k) = mset (concat (map (?f m) [0..<?n])) + mset (?f m1 k)"
    by (rule mset_concat_update [OF k f(1)])
  then have 1: "mset (pt_pages c m1 (info # rest) cur) = mset (pt_pages c m (info # rest) cur) + mset [p]"
    unfolding fk f1k by simp
  have "?g m1 i = ?g m i" if "i < ?n" for i
  proof (cases "i = k")
    case True
    then show ?thesis using table_user [OF te] bk empty(2) nu absent by simp
  qed (use f(2) [OF that] in simp)
  then have 2: "k_pages c m1 (info # rest) cur = k_pages c m (info # rest) cur"
    unfolding k_pages.simps(2) [of c _ info] by (intro SUP_cong) simp_all
  have 3: "pt_agree (- (set (pt_pages c m (info # rest) cur) \<union> set [p])) m m1"
    by (rule pt_agree_mono [OF agree]) auto
  have 4: "mmu_walk c m1 (info # rest) cur vb = mmu_walk c m (info # rest) cur vb" for vb
  proof (cases "indexof vb info = k")
    case True
    have "mmu_walk c m1 (info # rest) cur vb = None"
      unfolding mmu_walk.simps(2) [of c m1 info] True Let_def bk empty(3) using te ne by (simp add: table_entry_def)
    moreover have "mmu_walk c m (info # rest) cur vb = None" using absent True by simp
    ultimately show ?thesis by simp
  next
    case False
    then show ?thesis by (rule w(1))
  qed
  have 5: "user_path c m1 (info # rest) cur vb" if "user_path c m (info # rest) cur vb" for vb
  proof (cases "indexof vb info = k")
    case True
    show ?thesis unfolding user_path.simps(2) [of c m1 info] True Let_def bk using te empty(4) by blast
  next
    case False
    then show ?thesis using w(2) that by blast
  qed
  show "grown c (info # rest) cur [p] m m1" unfolding grown_def using 1 2 3 4 5 by blast
qed

text \<open>The walk of \<open>ptwalk\<close>: it ends at the slot of the address; what it allocated has become
  part of the tree and no translation has changed.\<close>

lemma ptwalk_grows:
  assumes "infos \<noteq> []" and "set infos \<subseteq> set (tl (mmu_pgtables c))"
    and "distinct (pt_pages c (vmem s) infos cur @ vpages s)"
    and "k_pages c (vmem s) infos cur \<inter> (set (pt_pages c (vmem s) infos cur) \<union> set (vpages s)) = {}"
    and "\<forall>p \<in> set (vpages s). baseof c p = p \<and> p \<noteq> 0"
    and "length infos \<le> Suc (length (vpages s))"
    and "user_path c (vmem s) infos cur va"
  shows "\<exists>used ps m' pt i. ptwalk_levels c infos cur va (PTE_W OR PTE_U) s = Inr ((pt, i), s\<lparr>vmem := m', vpages := ps\<rparr>) \<and>
    vpages s = used @ ps \<and> grown c infos cur used (vmem s) m' \<and> pt_slot c m' infos cur va = Some (pt, i)"
  using assms
proof (induction infos arbitrary: cur s)
  case (Cons info rest)
  let ?k = "indexof va info"
  let ?m = "vmem s"
  have k: "?k < 2 ^ pt_bits info" using index_bound Cons.prems(2) by simp
  have sub: "set rest \<subseteq> set (tl (mmu_pgtables c))" using Cons.prems(2) by simp
  show ?case
  proof (cases "rest = []")
    case True
    have "ptwalk_levels c (info # rest) cur va (PTE_W OR PTE_U) s = Inr ((cur, ?k), s\<lparr>vmem := ?m, vpages := vpages s\<rparr>)"
      using True by simp
    then show ?thesis using True grown_refl by fastforce
  next
    case ne: False
    then obtain info' rest' where r: "rest = info' # rest'" by (cases rest) auto
    show ?thesis
    proof (cases "?m cur ?k AND PTE_P = 0")
      case False
      then have te: "table_entry (?m cur ?k)" and up: "user_path c ?m rest (baseof c (?m cur ?k)) va"
        using Cons.prems(7) ne by (auto simp: Let_def)
      let ?b = "baseof c (?m cur ?k)"
      note below = pages_below [where m = ?m and cur = cur, OF k table_user [OF te], of rest]
      have D': "distinct (cur # concat (map (\<lambda>i. if user_entry (?m cur i) then pt_pages c ?m rest (baseof c (?m cur i)) else [])
          [0..<2 ^ pt_bits info]) @ vpages s)"
        using Cons.prems(3) by simp
      have "distinct (pt_pages c ?m rest ?b @ vpages s)"
        using distinct_concat_part(1) [OF D' k] table_user [OF te] by simp
      moreover have "k_pages c ?m rest ?b \<inter> (set (pt_pages c ?m rest ?b) \<union> set (vpages s)) = {}"
        using below Cons.prems(4) by blast
      ultimately obtain used ps m' pt i where ih: "ptwalk_levels c rest ?b va (PTE_W OR PTE_U) s = Inr ((pt, i), s\<lparr>vmem := m', vpages := ps\<rparr>)"
        "vpages s = used @ ps" "grown c rest ?b used ?m m'" "pt_slot c m' rest ?b va = Some (pt, i)"
        using Cons.IH [OF ne sub, of s ?b] Cons.prems(5,6) up by auto
      have D: "distinct (pt_pages c ?m (info # rest) cur @ used)"
        and K: "k_pages c ?m (info # rest) cur \<inter> (set (pt_pages c ?m (info # rest) cur) \<union> set used) = {}"
        using Cons.prems(3,4) unfolding ih(2) by auto
      note g = grown_child [OF Cons.prems(2) ne k te D K ih(3)]
      have "ptwalk_levels c (info # rest) cur va (PTE_W OR PTE_U) s = Inr ((pt, i), s\<lparr>vmem := m', vpages := ps\<rparr>)"
        using ih(1) False unfolding r by (simp add: Let_def)
      then show ?thesis using ih(2,4) g by metis
    next
      case True
      then obtain p ps0 where ps0: "vpages s = p # ps0" using Cons.prems(6) ne by (cases "vpages s") (auto simp: Suc_le_eq)
      then have p: "baseof c p = p" "p \<noteq> 0" using Cons.prems(5) by auto
      let ?z = "\<lambda>i. if i < page_words c then 0 else ?m p i"
      define m1 where "m1 = pt_store (?m(p := ?z)) cur ?k (p OR PTE_P OR (PTE_W OR PTE_U))"
      let ?s1 = "s\<lparr>vpages := ps0, vmem := m1\<rparr>"
      have D1: "distinct (pt_pages c ?m (info # rest) cur)"
        and K1: "k_pages c ?m (info # rest) cur \<inter> set (pt_pages c ?m (info # rest) cur) = {}"
        and p1: "p \<notin> set (pt_pages c ?m (info # rest) cur)" "p \<notin> k_pages c ?m (info # rest) cur"
        using Cons.prems(3,4) unfolding ps0 by auto
      note ga = grown_alloc [where m = ?m and k = ?k and p = p and z = ?z and cur = cur, OF Cons.prems(2) ne k True p(1) p1 _ m1_def D1 K1, simplified]
      have g1: "grown c (info # rest) cur [p] ?m m1" and te: "table_entry (m1 cur ?k)" and b: "baseof c (m1 cur ?k) = p"
        by (rule ga; simp)+
      note pg1 = grown_sets(1) [OF g1] and k1 = grown_sets(2) [OF g1]
      have D2: "distinct (pt_pages c m1 (info # rest) cur @ ps0)"
        using grown_sets(3) [OF g1, of ps0] Cons.prems(3) unfolding ps0 by simp
      have K2: "k_pages c m1 (info # rest) cur \<inter> (set (pt_pages c m1 (info # rest) cur) \<union> set ps0) = {}"
        using Cons.prems(4) p1 K1 unfolding pg1 k1 ps0 by auto
      note below = pages_below [where m = m1 and cur = cur, OF k table_user [OF te], of rest, unfolded b]
      have D': "distinct (cur # concat (map (\<lambda>i. if user_entry (m1 cur i) then pt_pages c m1 rest (baseof c (m1 cur i)) else [])
          [0..<2 ^ pt_bits info]) @ ps0)"
        using D2 by simp
      have "distinct (pt_pages c m1 rest p @ ps0)"
        using distinct_concat_part(1) [OF D' k] table_user [OF te] b by simp
      moreover have "k_pages c m1 rest p \<inter> (set (pt_pages c m1 rest p) \<union> set ps0) = {}"
        using below K2 by blast
      moreover have "user_path c m1 rest p va"
      proof -
        have "user_path c m1 (info # rest) cur va" using g1 Cons.prems(7) unfolding grown_def by blast
        then show ?thesis
          unfolding user_path.simps(2) [of c m1 info] Let_def b using te ne by (simp add: table_entry_def)
      qed
      ultimately obtain used ps m' pt i where ih: "ptwalk_levels c rest p va (PTE_W OR PTE_U) ?s1 = Inr ((pt, i), s\<lparr>vmem := m', vpages := ps\<rparr>)"
        "ps0 = used @ ps" "grown c rest p used m1 m'" "pt_slot c m' rest p va = Some (pt, i)"
        using Cons.IH [OF ne sub, of ?s1 p] Cons.prems(5,6) by (auto simp: ps0)
      have D3: "distinct (pt_pages c m1 (info # rest) cur @ used)"
        and K3: "k_pages c m1 (info # rest) cur \<inter> (set (pt_pages c m1 (info # rest) cur) \<union> set used) = {}"
        using D2 K2 unfolding ih(2) by auto
      note g = grown_child [OF Cons.prems(2) ne k te D3 K3, unfolded b, OF ih(3)]
      have "ptwalk_levels c (info # rest) cur va (PTE_W OR PTE_U) s = Inr ((pt, i), s\<lparr>vmem := m', vpages := ps\<rparr>)"
        using ih(1) True p(2) unfolding r m1_def by (simp add: Let_def pgallocz_def ps0)
      moreover have "vpages s = (p # used) @ ps" by (simp add: ps0 ih(2))
      moreover have "grown c (info # rest) cur (p # used) ?m m'" using grown_trans [OF g1 g(1)] by simp
      ultimately show ?thesis using g(2) ih(4) by metis
    qed
  qed
qed simp

end

end
