(* ===== verification/Am_Vme_Map.thy ===== *)
theory Am_Vme_Map
  imports Am_Vme_Facts
begin

text \<open>
  What \<open>map\<close>, \<open>protect\<close> and \<open>unprotect\<close> of \<open>Am_Vme\<close> do to an address space.  \<open>as_walk\<close> is the
  translation the processor makes of it and \<open>as_map\<close> what a caller of \<open>map\<close> is promised, on
  that translation alone; \<open>vm_inv\<close> is the invariant under which the tables keep the promise.
\<close>

subsection \<open>Writing a slot\<close>

definition vpn :: "'w::len word ptinfo list \<Rightarrow> 'w word \<Rightarrow> nat list" where
  "vpn infos va = map (indexof va) infos"

definition leaf_walk :: "'w::len word \<Rightarrow> (nat \<times> 'w word \<times> 'w word) option" where
  "leaf_walk e = (if e AND PTE_P = 0 then None else Some (0, e, e AND (PTE_W OR PTE_U)))"

lemma leaf_none: "leaf_walk e = None \<longleftrightarrow> e AND PTE_P = 0"
  by (simp add: leaf_walk_def)

lemma walk_vpn: "vpn infos va = vpn infos vb \<Longrightarrow> mmu_walk c m infos cur va = mmu_walk c m infos cur vb"
  by (induction infos arbitrary: cur) (simp_all add: vpn_def Let_def)

lemma path_vpn: "vpn infos va = vpn infos vb \<Longrightarrow> user_path c m infos cur va = user_path c m infos cur vb"
  by (induction infos arbitrary: cur) (simp_all add: vpn_def Let_def)

text \<open>The rights of the entries that \<open>ptwalk\<close> makes do not restrict those of a page.\<close>

lemma leaf_rights: "table_entry e \<Longrightarrow> map_option (\<lambda>(n, f, r). (n, f, r AND e)) (leaf_walk v) = leaf_walk v"
  for e :: "'w::len word"
proof -
  assume "table_entry e"
  then have e: "bit e 1" "bit e 2" by (simp_all add: table_entry_def pte_bits)
  have eqs: "PTE_W = (2 ^ 1 :: 'w word)" "PTE_U = (2 ^ 2 :: 'w word)" by (simp_all add: PTE_W_def PTE_U_def)
  have b: "bit (PTE_W :: 'w word) n \<Longrightarrow> n = 1" "bit (PTE_U :: 'w word) n \<Longrightarrow> n = 2" for n
    unfolding eqs bit_exp_iff by simp_all
  have "v AND (PTE_W OR PTE_U) AND e = v AND (PTE_W OR PTE_U)"
    by (rule bit_word_eqI) (use e b in \<open>auto simp: bit_and_iff bit_or_iff\<close>)
  then show ?thesis by (simp add: leaf_walk_def and.assoc)
qed

lemma table_walk:
  assumes "table_entry (m cur (indexof va info))" and "rest \<noteq> []"
  shows "mmu_walk c m (info # rest) cur va =
    map_option (\<lambda>(n, f, r). (n, f, r AND m cur (indexof va info))) (mmu_walk c m rest (baseof c (m cur (indexof va info))) va)"
    and "pt_slot c m (info # rest) cur va = pt_slot c m rest (baseof c (m cur (indexof va info))) va"
    and "user_path c m (info # rest) cur va = user_path c m rest (baseof c (m cur (indexof va info))) va"
  using assms by (simp_all add: table_entry_def Let_def)

lemma leaf_walk_one: "mmu_walk c m [info] cur va = leaf_walk (m cur (indexof va info))"
  by (simp add: leaf_walk_def Let_def)

lemma pages_one: "pt_pages c m [info] cur = [cur]" "k_pages c m [info] cur = {}"
proof -
  have e: "concat (map (\<lambda>i. []) is) = []" for "is" :: "nat list" by (induction "is") simp_all
  show "pt_pages c m [info] cur = [cur]" by (simp only: pt_pages.simps if_cancel e)
qed simp

text \<open>What \<open>pt_slot\<close> finds is where the processor's walk ends.\<close>

lemma slot_walk: "pt_slot c m infos cur va = Some (p, i) \<Longrightarrow> mmu_walk c m infos cur va = leaf_walk (m p i)"
proof (induction infos arbitrary: cur)
  case (Cons info rest)
  show ?case
  proof (cases "rest = []")
    case True
    then show ?thesis using Cons.prems by (simp add: leaf_walk_one del: mmu_walk.simps)
  next
    case ne: False
    then have te: "table_entry (m cur (indexof va info))"
      using Cons.prems by (simp add: Let_def split: if_splits)
    then show ?thesis
      using Cons.IH Cons.prems leaf_rights [OF te] unfolding table_walk [where m = m and cur = cur, OF te ne] by simp
  qed
qed simp

lemma slot_ptwalk: "pt_slot c (vmem s) infos cur va = Some (p, i) \<Longrightarrow> ptwalk_levels c infos cur va flags s = Inr ((p, i), s)"
proof (induction infos arbitrary: cur)
  case (Cons info rest)
  show ?case
  proof (cases rest)
    case Nil
    then show ?thesis using Cons.prems by simp
  next
    case r: (Cons info' rest')
    then have ne: "rest \<noteq> []" by simp
    then have te: "table_entry (vmem s cur (indexof va info))"
      using Cons.prems by (simp add: Let_def split: if_splits)
    have "ptwalk_levels c rest (baseof c (vmem s cur (indexof va info))) va flags s = Inr ((p, i), s)"
      using Cons.IH Cons.prems unfolding table_walk [where m = "vmem s" and cur = cur, OF te ne] .
    then show ?thesis using te unfolding r by (simp add: table_entry_def Let_def)
  qed
qed simp

lemma slot_path: "pt_slot c m infos cur va = Some (p, i) \<Longrightarrow> user_path c m infos cur va"
proof (induction infos arbitrary: cur)
  case (Cons info rest)
  then show ?case by (auto simp: Let_def split: if_splits)
qed simp

lemma walk_slot:
  assumes "user_path c m infos cur va" and "mmu_walk c m infos cur va \<noteq> None"
  shows "\<exists>p i. pt_slot c m infos cur va = Some (p, i)"
  using assms
proof (induction infos arbitrary: cur)
  case (Cons info rest)
  then show ?case by (auto simp: Let_def table_entry_def split: if_splits)
qed simp

context paging
begin

text \<open>The table of a slot is one of the tree, and two pages have different slots.\<close>

lemma slot_table: "pt_slot c m infos cur va = Some (p, i) \<Longrightarrow> set infos \<subseteq> set (tl (mmu_pgtables c)) \<Longrightarrow> p \<in> set (pt_pages c m infos cur)"
proof (induction infos arbitrary: cur)
  case (Cons info rest)
  show ?case
  proof (cases "rest = []")
    case True
    then show ?thesis using Cons.prems by simp
  next
    case ne: False
    let ?k = "indexof va info"
    have te: "table_entry (m cur ?k)" using Cons.prems(1) ne by (simp add: Let_def split: if_splits)
    have k: "?k < 2 ^ pt_bits info" using index_bound Cons.prems(2) by simp
    have "p \<in> set (pt_pages c m rest (baseof c (m cur ?k)))"
      using Cons.IH Cons.prems unfolding table_walk [where m = m and cur = cur, OF te ne] by simp
    then show ?thesis using pages_below(1) [where m = m and cur = cur, OF k table_user [OF te]] by blast
  qed
qed simp

lemma slot_vpn:
  assumes "distinct (pt_pages c m infos cur)" and "set infos \<subseteq> set (tl (mmu_pgtables c))"
    and "pt_slot c m infos cur va = Some (p, i)" and "pt_slot c m infos cur vb = Some (p, i)"
  shows "vpn infos va = vpn infos vb"
  using assms
proof (induction infos arbitrary: cur)
  case (Cons info rest)
  show ?case
  proof (cases "rest = []")
    case True
    then show ?thesis using Cons.prems by (simp add: vpn_def)
  next
    case ne: False
    let ?k = "\<lambda>va. indexof va info"
    let ?f = "\<lambda>i. if user_entry (m cur i) then pt_pages c m rest (baseof c (m cur i)) else []"
    have te: "table_entry (m cur (?k va))" "table_entry (m cur (?k vb))"
      using Cons.prems(3,4) ne by (simp_all add: Let_def split: if_splits)
    have k: "?k va < 2 ^ pt_bits info" "?k vb < 2 ^ pt_bits info" using index_bound Cons.prems(2) by simp_all
    have sub: "set rest \<subseteq> set (tl (mmu_pgtables c))" using Cons.prems(2) by simp
    note slots = Cons.prems(3,4) [unfolded table_walk(2) [where m = m and cur = cur, OF te(1) ne]
      table_walk(2) [where m = m and cur = cur, OF te(2) ne]]
    have D: "distinct (cur # concat (map ?f [0..<2 ^ pt_bits info]) @ [])" using Cons.prems(1) by simp
    have "p \<in> set (?f (?k va))" "p \<in> set (?f (?k vb))"
      using slot_table [OF slots(1) sub] slot_table [OF slots(2) sub] te table_user by auto
    then have "set (?f (?k vb)) \<inter> set (?f (?k va)) \<noteq> {}" by (simp only: disjoint_iff) blast
    then have eq: "?k va = ?k vb" using distinct_concat_part(3) [OF D k(1) k(2)] by fastforce
    have "distinct (pt_pages c m rest (baseof c (m cur (?k va))))"
      using distinct_concat_part(1) [OF D k(1)] table_user [OF te(1)] by simp
    then have "vpn rest va = vpn rest vb" using Cons.IH sub slots eq by simp
    then show ?thesis using eq by (simp add: vpn_def)
  qed
qed simp

text \<open>Writing an entry of a slot changes the translation of that page and nothing else.\<close>

lemma slot_store:
  assumes "distinct (pt_pages c m infos cur)" and "k_pages c m infos cur \<inter> set (pt_pages c m infos cur) = {}"
    and "set infos \<subseteq> set (tl (mmu_pgtables c))" and "pt_slot c m infos cur va = Some (p, i)"
    and m': "m' = pt_store m p i v"
  shows "pt_pages c m' infos cur = pt_pages c m infos cur \<and> k_pages c m' infos cur = k_pages c m infos cur \<and>
    (\<forall>vb. user_path c m' infos cur vb = user_path c m infos cur vb) \<and>
    pt_slot c m' infos cur va = Some (p, i) \<and>
    (\<forall>vb. vpn infos vb \<noteq> vpn infos va \<longrightarrow> mmu_walk c m' infos cur vb = mmu_walk c m infos cur vb)"
  using assms(1-4)
proof (induction infos arbitrary: cur)
  case (Cons info rest)
  show ?case
  proof (cases "rest = []")
    case True
    have "p = cur" "i = indexof va info" using Cons.prems(4) True by simp_all
    then have cur: "m' cur = (m cur)(indexof va info := v)" by (simp add: m' pt_store_def)
    then show ?thesis using Cons.prems(4) unfolding True
      by (auto simp: leaf_walk_one pages_one vpn_def simp del: mmu_walk.simps pt_pages.simps k_pages.simps)
  next
    case ne: False
    let ?k = "indexof va info"
    have te: "table_entry (m cur ?k)" using Cons.prems(4) ne by (simp add: Let_def split: if_splits)
    note ue = table_user [OF te]
    have k: "?k < 2 ^ pt_bits info" using index_bound Cons.prems(3) by simp
    have sub: "set rest \<subseteq> set (tl (mmu_pgtables c))" using Cons.prems(3) by simp
    let ?b = "baseof c (m cur ?k)"
    have slot: "pt_slot c m rest ?b va = Some (p, i)"
      using Cons.prems(4) unfolding table_walk(2) [where m = m and cur = cur, OF te ne] .
    have D: "distinct (cur # concat (map (\<lambda>i. if user_entry (m cur i) then pt_pages c m rest (baseof c (m cur i)) else [])
        [0..<2 ^ pt_bits info]) @ [])" using Cons.prems(1) by simp
    have "distinct (pt_pages c m rest ?b)" using distinct_concat_part(1) [OF D k] ue by simp
    moreover have "k_pages c m rest ?b \<inter> set (pt_pages c m rest ?b) = {}"
      using pages_below [where m = m and cur = cur, OF k ue] Cons.prems(2) by blast
    ultimately have ih: "pt_pages c m' rest ?b = pt_pages c m rest ?b" "k_pages c m' rest ?b = k_pages c m rest ?b"
      "user_path c m' rest ?b vb = user_path c m rest ?b vb" "pt_slot c m' rest ?b va = Some (p, i)"
      "vpn rest vb \<noteq> vpn rest va \<Longrightarrow> mmu_walk c m' rest ?b vb = mmu_walk c m rest ?b vb" for vb
      using Cons.IH [OF _ _ sub slot] by blast+
    have "p \<in> set (pt_pages c m rest ?b)" by (rule slot_table [OF slot sub])
    then have agree: "pt_agree (- (set (pt_pages c m rest ?b) \<union> set [])) m m'"
      by (auto simp: pt_agree_def m' pt_store_def)
    have "distinct (pt_pages c m (info # rest) cur @ [])"
      "k_pages c m (info # rest) cur \<inter> (set (pt_pages c m (info # rest) cur) \<union> set []) = {}"
      using Cons.prems(1,2) by simp_all
    note fr = child_frame [OF Cons.prems(3) k ue this agree]
    have te': "table_entry (m' cur ?k)" using te by (simp add: fr(1))
    note tw = table_walk [where m = m and cur = cur, OF _ ne] and tw' = table_walk [where m = m' and cur = cur, OF _ ne, unfolded fr(1)]
    have "(if user_entry (m' cur j) then pt_pages c m' rest (baseof c (m' cur j)) else []) =
      (if user_entry (m cur j) then pt_pages c m rest (baseof c (m cur j)) else [])" if "j < 2 ^ pt_bits info" for j
      using fr(2) [OF that] ih(1) by (cases "j = ?k") (simp_all add: fr(1))
    then have 1: "pt_pages c m' (info # rest) cur = pt_pages c m (info # rest) cur"
      unfolding pt_pages.simps(2) [of c _ info] by (intro arg_cong [where f = "(#) cur"] arg_cong [where f = concat] map_cong) auto
    have "(if user_entry (m' cur j) then k_pages c m' rest (baseof c (m' cur j))
          else if m' cur j AND PTE_P \<noteq> 0 \<and> m' cur j AND PTE_PS = 0 then all_pages c m' rest (baseof c (m' cur j)) else {}) =
         (if user_entry (m cur j) then k_pages c m rest (baseof c (m cur j))
          else if m cur j AND PTE_P \<noteq> 0 \<and> m cur j AND PTE_PS = 0 then all_pages c m rest (baseof c (m cur j)) else {})"
      if "j < 2 ^ pt_bits info" for j
      using fr(3) [OF that] ih(2) ue by (cases "j = ?k") (simp_all add: fr(1))
    then have 2: "k_pages c m' (info # rest) cur = k_pages c m (info # rest) cur"
      unfolding k_pages.simps(2) [of c _ info] by (intro SUP_cong) auto
    have 3: "user_path c m' (info # rest) cur vb = user_path c m (info # rest) cur vb" for vb
      using fr(5) [of vb] ih(3) [of vb] tw(3) [of vb] tw'(3) [of vb] te
      by (cases "indexof vb info = ?k") (simp_all del: user_path.simps)
    have 4: "pt_slot c m' (info # rest) cur va = Some (p, i)" using tw'(2) [OF te] ih(4) by (simp del: pt_slot.simps)
    have "mmu_walk c m' (info # rest) cur vb = mmu_walk c m (info # rest) cur vb" if "vpn (info # rest) vb \<noteq> vpn (info # rest) va" for vb
    proof (cases "indexof vb info = ?k")
      case True
      then have "vpn rest vb \<noteq> vpn rest va" using that by (simp add: vpn_def)
      then show ?thesis using ih(5) tw(1) [of vb] tw'(1) [of vb] te True by (simp del: mmu_walk.simps)
    qed (rule fr(4))
    then show ?thesis using 1 2 3 4 by blast
  qed
qed simp

end

subsection \<open>Address spaces\<close>

definition as_root :: "'w::len word mmu_config \<Rightarrow> 'w word \<Rightarrow> 'w word vme \<Rightarrow> 'w word" where
  "as_root c asp s = baseof c (vmem s asp 0)"

definition as_walk :: "'w::len word mmu_config \<Rightarrow> 'w word \<Rightarrow> 'w word vme \<Rightarrow> 'w word \<Rightarrow> (nat \<times> 'w word \<times> 'w word) option" where
  "as_walk c asp s va = mmu_walk c (vmem s) (tl (mmu_pgtables c)) (as_root c asp s) va"

definition as_pages :: "'w::len word mmu_config \<Rightarrow> 'w word \<Rightarrow> 'w word vme \<Rightarrow> 'w word list" where
  "as_pages c asp s = pt_pages c (vmem s) (tl (mmu_pgtables c)) (as_root c asp s)"

definition as_kernel :: "'w::len word mmu_config \<Rightarrow> 'w word \<Rightarrow> 'w word vme \<Rightarrow> 'w word set" where
  "as_kernel c asp s = k_pages c (vmem s) (tl (mmu_pgtables c)) (as_root c asp s)"

text \<open>The bits of an address that select its page.\<close>

definition page_mask :: "'w::len word ptinfo list \<Rightarrow> 'w word" where
  "page_mask infos = fold (\<lambda>info w. w OR pt_mask info) infos 0"

definition same_page :: "'w::len word mmu_config \<Rightarrow> 'w word \<Rightarrow> 'w word \<Rightarrow> bool" where
  "same_page c va vb \<longleftrightarrow> va AND page_mask (mmu_pgtables c) = vb AND page_mask (mmu_pgtables c)"

text \<open>What a caller of \<open>map\<close> is promised.\<close>

definition map_entry :: "'w::len word \<Rightarrow> int \<Rightarrow> 'w word" where
  "map_entry pa prot = pa OR PTE_P OR PTE_U OR
     (if (word_of_int prot :: 32 word) AND word_of_int MMAP_WRITE \<noteq> 0 then PTE_W else 0)"

definition map_rights :: "int \<Rightarrow> 'w::len word" where
  "map_rights prot = (if (word_of_int prot :: 32 word) AND word_of_int MMAP_WRITE \<noteq> 0 then PTE_W OR PTE_U else PTE_U)"

definition as_map ::
  "'w::len word mmu_config \<Rightarrow> 'w word \<Rightarrow> 'w word \<Rightarrow> int \<Rightarrow> ('w word \<Rightarrow> (nat \<times> 'w word \<times> 'w word) option) \<Rightarrow>
   ('w word \<Rightarrow> (nat \<times> 'w word \<times> 'w word) option) res" where
  "as_map c va pa prot A =
     (if \<not> vm_in_range va (uvm_area c) then Inl (Panic ''mapping an invalid address'')
      else if va \<noteq> baseof c va \<or> pa \<noteq> baseof c pa then Inl (Panic ''non-page-boundary address'')
      else if prot = MMAP_NONE then
        if A va = None then Inl (Panic ''unmapping a non-mapped page'')
        else Inr (\<lambda>vb. if same_page c vb va then None else A vb)
      else if A va \<noteq> None then Inl (Panic ''remapping a mapped page'')
      else Inr (\<lambda>vb. if same_page c vb va then Some (0, map_entry pa prot, map_rights prot) else A vb))"

text \<open>The tables of the address space form a tree, apart from the kernel's tables, from the
  pages the allocator still has and from the object \<open>asp\<close>; the way to a page of the user area
  goes through entries that grant every right.\<close>

definition vm_inv :: "'w::len word mmu_config \<Rightarrow> 'w word \<Rightarrow> 'w word vme \<Rightarrow> bool" where
  "vm_inv c asp s \<longleftrightarrow>
     user_entry (vmem s asp 0) \<and>
     distinct (as_pages c asp s @ vpages s) \<and>
     as_kernel c asp s \<inter> (set (as_pages c asp s) \<union> set (vpages s)) = {} \<and>
     asp \<notin> set (as_pages c asp s) \<union> as_kernel c asp s \<union> set (vpages s) \<and>
     (\<forall>p \<in> set (vpages s). baseof c p = p \<and> p \<noteq> 0) \<and>
     (\<forall>va. vm_in_range va (uvm_area c) \<longrightarrow> user_path c (vmem s) (tl (mmu_pgtables c)) (as_root c asp s) va)"

lemma leaf_map_entry:
  assumes "12 < LENGTH('w::len)" and "\<And>n. n < 12 \<Longrightarrow> \<not> bit (pa :: 'w word) n"
  shows "leaf_walk (map_entry pa prot) = Some (0, map_entry pa prot, map_rights prot)"
proof -
  note b = bit_pte [OF assms(1)]
  have "map_entry pa prot AND PTE_P \<noteq> 0" by (simp add: map_entry_def pte_bits bit_or_iff b)
  moreover have "map_entry pa prot AND (PTE_W OR PTE_U) = map_rights prot"
    by (rule bit_word_eqI) (use assms(2) in \<open>auto simp: map_entry_def map_rights_def bit_and_iff bit_or_iff b\<close>)
  ultimately show ?thesis by (simp add: leaf_walk_def)
qed

lemma and_or_eq: "a AND (x OR y) = b AND (x OR y) \<longleftrightarrow> a AND x = b AND x \<and> a AND y = b AND y" for a :: "'w::len word"
  by (auto simp: bit_eq_iff bit_and_iff bit_or_iff)

lemma drop_and_eq:
  assumes "m = push_bit sh (mask n)"
  shows "drop_bit sh ((a :: 'w::len word) AND m) = drop_bit sh (b AND m) \<longleftrightarrow> a AND m = b AND m"
proof
  assume eq: "drop_bit sh (a AND m) = drop_bit sh (b AND m)"
  show "a AND m = b AND m"
  proof (rule bit_word_eqI)
    fix i assume "i < LENGTH('w)"
    have "bit (drop_bit sh (a AND m)) (i - sh) = bit (drop_bit sh (b AND m)) (i - sh)" using eq by simp
    then show "bit (a AND m) i = bit (b AND m) i"
      by (cases "i < sh") (simp_all add: assms bit_drop_bit_eq bit_and_iff bit_push_bit_iff)
  qed
qed simp

lemma fold_mask_eq:
  "a AND fold (\<lambda>info w. w OR pt_mask info) infos w = b AND fold (\<lambda>info w. w OR pt_mask info) infos w \<longleftrightarrow>
   a AND w = b AND w \<and> (\<forall>info \<in> set infos. a AND pt_mask info = b AND pt_mask info)" for a :: "'w::len word"
  by (induction infos arbitrary: w) (auto simp: and_or_eq)

locale address_space = paging c for c :: "'w::len word mmu_config" +
  assumes levels: "mmu_pgtables c = \<lparr>pt_name = ''CR3'', pt_mask = 0, pt_shift = 0, pt_bits = 0\<rparr> # tl (mmu_pgtables c)"
    and levels_below: "tl (mmu_pgtables c) \<noteq> []"
    and masks: "info \<in> set (tl (mmu_pgtables c)) \<Longrightarrow> pt_mask info = push_bit (pt_shift info) (mask (pt_bits info))"
begin

lemma same_page_vpn: "same_page c va vb \<longleftrightarrow> vpn (tl (mmu_pgtables c)) va = vpn (tl (mmu_pgtables c)) vb"
proof -
  have "indexof va info = indexof vb info \<longleftrightarrow> va AND pt_mask info = vb AND pt_mask info"
    if "info \<in> set (tl (mmu_pgtables c))" for info
    using drop_and_eq [OF masks [OF that]] by (simp add: indexof_def word_unat_eq_iff [symmetric])
  then have "vpn (tl (mmu_pgtables c)) va = vpn (tl (mmu_pgtables c)) vb \<longleftrightarrow>
      (\<forall>info \<in> set (tl (mmu_pgtables c)). va AND pt_mask info = vb AND pt_mask info)"
    by (simp add: vpn_def)
  also have "\<dots> \<longleftrightarrow> same_page c va vb"
    unfolding same_page_def page_mask_def by (subst (1 2) levels) (simp add: fold_mask_eq)
  finally show ?thesis by (rule sym)
qed

lemma ptwalk_root:
  assumes "user_entry (vmem s asp 0)"
  shows "ptwalk c asp va flags s = ptwalk_levels c (tl (mmu_pgtables c)) (as_root c asp s) va flags s"
proof -
  obtain info rest where r: "tl (mmu_pgtables c) = info # rest" using levels_below by (cases "tl (mmu_pgtables c)") auto
  have "vmem s asp 0 AND PTE_P \<noteq> 0" using assms by (simp add: user_entry_def)
  then show ?thesis
    unfolding ptwalk_def by (subst levels) (simp add: r as_root_def indexof_def Let_def)
qed

text \<open>Growing the tables and writing a slot keep the invariant.\<close>

lemma inv_grown:
  assumes inv: "vm_inv c asp s" and ps: "vpages s = used @ ps"
    and g: "grown c (tl (mmu_pgtables c)) (as_root c asp s) used (vmem s) m'"
  shows "vm_inv c asp (s\<lparr>vmem := m', vpages := ps\<rparr>)" and "as_walk c asp (s\<lparr>vmem := m', vpages := ps\<rparr>) = as_walk c asp s"
    and "as_root c asp (s\<lparr>vmem := m', vpages := ps\<rparr>) = as_root c asp s"
    and "mset (as_pages c asp (s\<lparr>vmem := m', vpages := ps\<rparr>)) = mset (as_pages c asp s) + mset used"
    and "as_kernel c asp (s\<lparr>vmem := m', vpages := ps\<rparr>) = as_kernel c asp s"
proof -
  let ?s = "s\<lparr>vmem := m', vpages := ps\<rparr>"
  have "asp \<notin> set (as_pages c asp s) \<union> set used" using inv by (simp add: vm_inv_def ps)
  then have a: "m' asp = vmem s asp" using g by (simp add: grown_def pt_agree_def as_pages_def)
  then show root: "as_root c asp ?s = as_root c asp s" by (simp add: as_root_def)
  show k: "as_kernel c asp ?s = as_kernel c asp s" using grown_sets(2) [OF g] by (simp add: as_kernel_def root)
  show ms: "mset (as_pages c asp ?s) = mset (as_pages c asp s) + mset used"
    using g by (simp add: as_pages_def root grown_def)
  show "as_walk c asp ?s = as_walk c asp s" using g by (simp add: as_walk_def root grown_def fun_eq_iff)
  have p: "set (as_pages c asp ?s) = set (as_pages c asp s) \<union> set used"
    using grown_sets(1) [OF g] by (simp add: as_pages_def root)
  have "distinct (as_pages c asp s @ used @ ps)" using inv by (simp add: vm_inv_def ps)
  then have d: "distinct (as_pages c asp ?s @ vpages ?s)"
    using grown_sets(3) [OF g, of ps] by (simp add: as_pages_def root)
  have up: "user_path c m' (tl (mmu_pgtables c)) (as_root c asp ?s) va" if "vm_in_range va (uvm_area c)" for va
    using inv that g by (simp add: vm_inv_def grown_def root)
  show "vm_inv c asp ?s" unfolding vm_inv_def k p using inv d up by (auto simp: vm_inv_def a ps)
qed

lemma inv_slot:
  assumes inv: "vm_inv c asp s"
    and slot: "pt_slot c (vmem s) (tl (mmu_pgtables c)) (as_root c asp s) va = Some (p, i)"
  shows "vm_inv c asp (s\<lparr>vmem := pt_store (vmem s) p i v\<rparr>)"
    and "as_walk c asp (s\<lparr>vmem := pt_store (vmem s) p i v\<rparr>) = (\<lambda>vb. if same_page c vb va then leaf_walk v else as_walk c asp s vb)"
    and "as_pages c asp (s\<lparr>vmem := pt_store (vmem s) p i v\<rparr>) = as_pages c asp s"
    and "as_kernel c asp (s\<lparr>vmem := pt_store (vmem s) p i v\<rparr>) = as_kernel c asp s"
    and "ptwalk c asp va flags (s\<lparr>vmem := pt_store (vmem s) p i v\<rparr>) = Inr ((p, i), s\<lparr>vmem := pt_store (vmem s) p i v\<rparr>)"
proof -
  let ?L = "tl (mmu_pgtables c)"
  let ?s = "s\<lparr>vmem := pt_store (vmem s) p i v\<rparr>"
  have "p \<in> set (as_pages c asp s)" using slot_table [OF slot] by (simp add: as_pages_def)
  then have a: "vmem ?s asp = vmem s asp" using inv by (auto simp: vm_inv_def pt_store_def)
  then have root: "as_root c asp ?s = as_root c asp s" by (simp add: as_root_def)
  have "distinct (pt_pages c (vmem s) ?L (as_root c asp s))"
    "k_pages c (vmem s) ?L (as_root c asp s) \<inter> set (pt_pages c (vmem s) ?L (as_root c asp s)) = {}"
    using inv by (auto simp: vm_inv_def as_pages_def as_kernel_def)
  note st = slot_store [OF this order_refl slot refl, of v]
  show p: "as_pages c asp ?s = as_pages c asp s" and k: "as_kernel c asp ?s = as_kernel c asp s"
    using st by (simp_all add: as_pages_def as_kernel_def root)
  show "vm_inv c asp ?s"
    using inv st unfolding vm_inv_def p k a root by simp
  have slot': "pt_slot c (vmem ?s) ?L (as_root c asp ?s) va = Some (p, i)" using st root by simp
  have "as_walk c asp ?s vb = (if same_page c vb va then leaf_walk v else as_walk c asp s vb)" for vb
  proof (cases "same_page c vb va")
    case True
    then have "vpn ?L vb = vpn ?L va" by (simp add: same_page_vpn)
    from walk_vpn [OF this, of c "vmem ?s" "as_root c asp ?s"] show ?thesis
      unfolding as_walk_def slot_walk [OF slot'] using True by (simp add: pt_store_def)
  next
    case False
    then show ?thesis using st root by (simp add: as_walk_def same_page_vpn)
  qed
  then show "as_walk c asp ?s = (\<lambda>vb. if same_page c vb va then leaf_walk v else as_walk c asp s vb)" ..
  have "user_entry (vmem ?s asp 0)" using inv a by (simp add: vm_inv_def)
  then show "ptwalk c asp va flags ?s = Inr ((p, i), ?s)"
    using slot_ptwalk [OF slot'] by (simp add: ptwalk_root)
qed

text \<open>\<open>map\<close> keeps the promise; its tables are pages the allocator had.\<close>

lemma vme_map_implements:
  assumes inv: "vm_inv c asp s" and pages: "length (mmu_pgtables c) \<le> Suc (Suc (length (vpages s)))"
  shows "bind_res (vme_map c asp va pa prot s) (\<lambda>s. Inr (as_walk c asp s)) = as_map c va pa prot (as_walk c asp s)"
    and "vme_map c asp va pa prot s = Inr s' \<Longrightarrow> vm_inv c asp s' \<and> as_kernel c asp s' = as_kernel c asp s \<and>
      vfreed s' = vfreed s \<and> vkpt s' = vkpt s \<and>
      (\<exists>used. vpages s = used @ vpages s' \<and> mset (as_pages c asp s') = mset (as_pages c asp s) + mset used)"
proof -
  let ?L = "tl (mmu_pgtables c)"
  have "bind_res (vme_map c asp va pa prot s) (\<lambda>s. Inr (as_walk c asp s)) = as_map c va pa prot (as_walk c asp s) \<and>
    (vme_map c asp va pa prot s = Inr s' \<longrightarrow> vm_inv c asp s' \<and> as_kernel c asp s' = as_kernel c asp s \<and>
      vfreed s' = vfreed s \<and> vkpt s' = vkpt s \<and>
      (\<exists>used. vpages s = used @ vpages s' \<and> mset (as_pages c asp s') = mset (as_pages c asp s) + mset used))"
  proof (cases "vm_in_range va (uvm_area c) \<and> va = baseof c va \<and> pa = baseof c pa")
    case False
    then show ?thesis by (auto simp: vme_map_def as_map_def)
  next
    case True
    have ue: "user_entry (vmem s asp 0)" using inv by (simp add: vm_inv_def)
    have len: "length ?L \<le> Suc (length (vpages s))" using pages by (subst (asm) levels) simp
    have "\<exists>used ps m' pt i. ptwalk_levels c ?L (as_root c asp s) va (PTE_W OR PTE_U) s = Inr ((pt, i), s\<lparr>vmem := m', vpages := ps\<rparr>) \<and>
        vpages s = used @ ps \<and> grown c ?L (as_root c asp s) used (vmem s) m' \<and> pt_slot c m' ?L (as_root c asp s) va = Some (pt, i)"
      using inv True len levels_below
      by (intro ptwalk_grows) (auto simp: vm_inv_def as_pages_def as_kernel_def)
    then obtain used ps m' pt i where w: "ptwalk c asp va (PTE_W OR PTE_U) s = Inr ((pt, i), s\<lparr>vmem := m', vpages := ps\<rparr>)"
      "vpages s = used @ ps" "grown c ?L (as_root c asp s) used (vmem s) m'" "pt_slot c m' ?L (as_root c asp s) va = Some (pt, i)"
      using ptwalk_root [where va = va, OF ue] by auto
    define s1 where "s1 = s\<lparr>vmem := m', vpages := ps\<rparr>"
    note g = inv_grown [OF inv w(2,3), folded s1_def]
    have slot: "pt_slot c (vmem s1) ?L (as_root c asp s1) va = Some (pt, i)" using w(4) g(3) by (simp add: s1_def)
    note sl = inv_slot [OF g(1) slot]
    have walk: "as_walk c asp s va = leaf_walk (vmem s1 pt i)"
      using slot_walk [OF slot] unfolding g(2) [symmetric] by (simp add: as_walk_def)
    have rest: "vfreed s1 = vfreed s" "vkpt s1 = vkpt s" "vpages s = used @ vpages s1" by (simp_all add: s1_def w(2))
    have entry: "leaf_walk (map_entry pa prot) = Some (0, map_entry pa prot, map_rights prot)"
      using True aligned_bits [of pa] by (intro leaf_map_entry [OF width]) simp
    have zero: "leaf_walk (0 :: 'w word) = None" by (simp add: leaf_walk_def)
    have step: "bind_res (Inr (s1\<lparr>vmem := pt_store (vmem s1) pt i v\<rparr>)) (\<lambda>s. Inr (as_walk c asp s)) =
        Inr (\<lambda>vb. if same_page c vb va then leaf_walk v else as_walk c asp s vb) \<and>
      (s' = s1\<lparr>vmem := pt_store (vmem s1) pt i v\<rparr> \<longrightarrow> vm_inv c asp s' \<and> as_kernel c asp s' = as_kernel c asp s \<and>
        vfreed s' = vfreed s \<and> vkpt s' = vkpt s \<and>
        (\<exists>used. vpages s = used @ vpages s' \<and> mset (as_pages c asp s') = mset (as_pages c asp s) + mset used))" for v
      using sl(1-4) [of v] g(2,4,5) rest by auto
    have run: "vme_map c asp va pa prot s =
      (if prot = MMAP_NONE then
         if as_walk c asp s va = None then Inl (Panic ''unmapping a non-mapped page'')
         else Inr (s1\<lparr>vmem := pt_store (vmem s1) pt i 0\<rparr>)
       else if as_walk c asp s va \<noteq> None then Inl (Panic ''remapping a mapped page'')
       else Inr (s1\<lparr>vmem := pt_store (vmem s1) pt i (map_entry pa prot)\<rparr>))"
      using True w(1) sl(5) unfolding vme_map_def walk
      by (simp add: s1_def [symmetric] leaf_none map_entry_def [symmetric] del: not_None_eq)
    show ?thesis
      using True step [of 0] step [of "map_entry pa prot"] unfolding run as_map_def entry zero
      by (auto simp: zero)
  qed
  then show "bind_res (vme_map c asp va pa prot s) (\<lambda>s. Inr (as_walk c asp s)) = as_map c va pa prot (as_walk c asp s)"
    and "vme_map c asp va pa prot s = Inr s' \<Longrightarrow> vm_inv c asp s' \<and> as_kernel c asp s' = as_kernel c asp s \<and>
      vfreed s' = vfreed s \<and> vkpt s' = vkpt s \<and>
      (\<exists>used. vpages s = used @ vpages s' \<and> mset (as_pages c asp s') = mset (as_pages c asp s) + mset used)"
    by blast+
qed

end

end
