(* ===== verification/Am_Vme_Props.thy ===== *)
theory Am_Vme_Props
  imports Am_Vme_Map
begin

text \<open>
  The address spaces of \<open>am/src/x86/qemu/vme.c\<close> from \<open>vme_init\<close> and \<open>protect\<close> over any
  sequence of \<open>map\<close> to \<open>unprotect\<close>: \<open>map\<close> on 64 and on 32 bits is the promise \<open>as_map\<close>, the
  kernel's part of the translation is the identity without the user's right whatever the program
  maps, and every page taken from the allocator goes back exactly once.
\<close>

subsection \<open>Taking the tables down\<close>

lemma teardown_frees:
  assumes "level \<ge> 1"
  shows "\<exists>fs. teardown c level infos pt s = s\<lparr>vfreed := vfreed s @ fs\<rparr> \<and> mset fs = mset (pt_pages c (vmem s) infos pt)"
  using assms
proof (induction infos arbitrary: level pt s)
  case Nil
  then show ?case by simp
next
  case (Cons info rest)
  let ?m = "vmem s"
  let ?t = "\<lambda>index s. if vmem s pt index AND PTE_P \<noteq> 0 \<and> vmem s pt index AND PTE_U \<noteq> 0
      then teardown c (Suc level) rest (baseof c (vmem s pt index)) s else s"
  let ?f = "\<lambda>i. if user_entry (?m pt i) then pt_pages c ?m rest (baseof c (?m pt i)) else []"
  have outer: "\<exists>fs. teardown c (Suc level) rest pt' s' = s'\<lparr>vfreed := vfreed s' @ fs\<rparr> \<and>
      mset fs = mset (pt_pages c (vmem s') rest pt')" for s' pt'
    by (rule Cons.IH) simp
  have loop: "\<exists>fs. fold ?t is s' = s'\<lparr>vfreed := vfreed s' @ fs\<rparr> \<and> mset fs = mset (concat (map ?f is))"
    if "vmem s' = ?m" for "is" s'
    using that
  proof (induction "is" arbitrary: s')
    case Nil
    then show ?case by simp
  next
    case (Cons i "is")
    have step: "\<exists>fs. ?t i s' = s'\<lparr>vfreed := vfreed s' @ fs\<rparr> \<and> mset fs = mset (?f i)"
    proof (cases "user_entry (?m pt i)")
      case True
      then show ?thesis
        using outer [of "baseof c (?m pt i)" s'] Cons.prems by (simp add: user_entry_def)
    qed (use Cons.prems in \<open>auto simp: user_entry_def\<close>)
    then obtain fs where fs: "?t i s' = s'\<lparr>vfreed := vfreed s' @ fs\<rparr>" "mset fs = mset (?f i)" by blast
    have "vmem (?t i s') = ?m" unfolding fs(1) using Cons.prems by simp
    then obtain gs where gs: "fold ?t is (?t i s') = (?t i s')\<lparr>vfreed := vfreed (?t i s') @ gs\<rparr>"
      "mset gs = mset (concat (map ?f is))"
      using Cons.IH by blast
    have "fold ?t (i # is) s' = s'\<lparr>vfreed := vfreed s' @ fs @ gs\<rparr>"
      using gs(1) unfolding fold_simps fs(1) by simp
    moreover have "mset (fs @ gs) = mset (concat (map ?f (i # is)))"
      unfolding list.map concat.simps mset_append fs(2) gs(2) ..
    ultimately show ?case by blast
  qed
  from loop [OF refl] obtain fs where fs: "fold ?t [0..<2 ^ pt_bits info] s = s\<lparr>vfreed := vfreed s @ fs\<rparr>"
    "mset fs = mset (concat (map ?f [0..<2 ^ pt_bits info]))" by blast
  have "teardown c level (info # rest) pt s = s\<lparr>vfreed := vfreed s @ fs @ [pt]\<rparr>"
    using Cons.prems unfolding teardown.simps fs(1) by simp
  moreover have "mset (fs @ [pt]) = mset (pt_pages c ?m (info # rest) pt)" using fs(2) by simp
  ultimately show ?case by blast
qed

subsection \<open>Sequences of calls\<close>

text \<open>A program that calls \<open>map\<close> on one address space, and the promise for it.\<close>

fun vme_maps :: "'w::len word mmu_config \<Rightarrow> 'w word \<Rightarrow> ('w word \<times> 'w word \<times> int) list \<Rightarrow> 'w word vme \<Rightarrow> 'w word vme res" where
  "vme_maps c asp [] s = Inr s"
| "vme_maps c asp ((va, pa, prot) # ops) s = bind_res (vme_map c asp va pa prot s) (vme_maps c asp ops)"

fun as_maps ::
  "'w::len word mmu_config \<Rightarrow> ('w word \<times> 'w word \<times> int) list \<Rightarrow> ('w word \<Rightarrow> (nat \<times> 'w word \<times> 'w word) option) \<Rightarrow>
   ('w word \<Rightarrow> (nat \<times> 'w word \<times> 'w word) option) res" where
  "as_maps c [] A = Inr A"
| "as_maps c ((va, pa, prot) # ops) A = bind_res (as_map c va pa prot A) (as_maps c ops)"

lemma pgallocz_takes: "pgallocz c s = Inr (p, s') \<Longrightarrow> vpages s = p # vpages s'"
  by (auto simp: pgallocz_def split: list.splits if_splits)

lemma ptwalk_takes: "ptwalk_levels c infos cur va flags s = Inr (slot, s') \<Longrightarrow> \<exists>used. vpages s = used @ vpages s' \<and> length used < length infos"
proof (induction c infos cur va flags s rule: ptwalk_levels.induct)
  case (3 c info info' rest cur addr flags s)
  show ?case
  proof (cases "vmem s cur (indexof addr info) AND PTE_P = 0")
    case True
    then obtain p s1 where p: "pgallocz c s = Inr (p, s1)"
      "ptwalk_levels c (info' # rest) p addr flags
        (s1\<lparr>vmem := pt_store (vmem s1) cur (indexof addr info) (p OR PTE_P OR flags)\<rparr>) = Inr (slot, s')"
      using "3.prems" by (auto simp: bind_res_eq_Inr_iff Let_def)
    from "3.IH"(1) [OF refl True p(1) refl p(2)] obtain used where "vpages s1 = used @ vpages s'" "length used < length (info' # rest)"
      by auto
    then have "vpages s = (p # used) @ vpages s' \<and> length (p # used) < length (info # info' # rest)"
      using pgallocz_takes [OF p(1)] by simp
    then show ?thesis by blast
  next
    case False
    from "3.IH"(2) [OF refl False] obtain used where "vpages s = used @ vpages s'" "length used < length (info' # rest)"
      using "3.prems" False by (auto simp: Let_def)
    then have "vpages s = used @ vpages s' \<and> length used < length (info # info' # rest)" by simp
    then show ?thesis by blast
  qed
qed auto

lemma vme_map_takes: "vme_map c asp va pa prot s = Inr s' \<Longrightarrow>
    \<exists>used. vpages s = used @ vpages s' \<and> length used < 2 * length (mmu_pgtables c)"
proof -
  assume m: "vme_map c asp va pa prot s = Inr s'"
  then obtain pt i s1 where w: "ptwalk c asp va (PTE_W OR PTE_U) s = Inr ((pt, i), s1)"
    by (auto simp: vme_map_def bind_res_eq_Inr_iff split: if_splits)
  have "\<exists>m pt i. ptwalk c asp va (PTE_W OR PTE_U) (s1\<lparr>vmem := m\<rparr>) = Inr ((pt, i), s')"
    using m unfolding vme_map_def w by (auto simp: bind_res_eq_Inr_iff split: if_splits)
  then obtain m pt' i' where w': "ptwalk c asp va (PTE_W OR PTE_U) (s1\<lparr>vmem := m\<rparr>) = Inr ((pt', i'), s')" by blast
  obtain us vs where "vpages s = us @ vpages s1" "vpages s1 = vs @ vpages s'"
    "length us < length (mmu_pgtables c)" "length vs < length (mmu_pgtables c)"
    using ptwalk_takes [OF w [unfolded ptwalk_def]] ptwalk_takes [OF w' [unfolded ptwalk_def]] by auto
  then have "vpages s = (us @ vs) @ vpages s' \<and> length (us @ vs) < 2 * length (mmu_pgtables c)" by simp
  then show ?thesis by blast
qed

lemma vme_maps_takes: "vme_maps c asp ops s = Inr s' \<Longrightarrow> \<exists>used. vpages s = used @ vpages s'"
proof (induction ops arbitrary: s)
  case (Cons x ops)
  obtain va pa prot where x: "x = (va, pa, prot)" by (cases x)
  then obtain s1 where "vme_map c asp va pa prot s = Inr s1" "vme_maps c asp ops s1 = Inr s'"
    using Cons.prems by (auto simp: bind_res_eq_Inr_iff)
  then show ?case using Cons.IH vme_map_takes by (metis append.assoc)
qed simp

text \<open>What a run of \<open>map\<close> does to the address space: \<open>vm_run\<close> relates the states before and
  after.\<close>

definition vm_run :: "'w::len word mmu_config \<Rightarrow> 'w word \<Rightarrow> 'w word vme \<Rightarrow> 'w word vme \<Rightarrow> bool" where
  "vm_run c asp s s' \<longleftrightarrow>
     vm_inv c asp s' \<and> as_kernel c asp s' = as_kernel c asp s \<and> vfreed s' = vfreed s \<and> vkpt s' = vkpt s \<and>
     (\<exists>used. vpages s = used @ vpages s' \<and> mset (as_pages c asp s') = mset (as_pages c asp s) + mset used)"

lemma vm_run_refl: "vm_inv c asp s \<Longrightarrow> vm_run c asp s s"
  by (simp add: vm_run_def)

lemma vm_run_trans: "vm_run c asp s1 s2 \<Longrightarrow> vm_run c asp s2 s3 \<Longrightarrow> vm_run c asp s1 s3"
proof -
  assume "vm_run c asp s1 s2" and "vm_run c asp s2 s3"
  moreover from this obtain us vs where "vpages s1 = us @ vpages s2" "vpages s2 = vs @ vpages s3"
    "mset (as_pages c asp s2) = mset (as_pages c asp s1) + mset us"
    "mset (as_pages c asp s3) = mset (as_pages c asp s2) + mset vs" by (auto simp: vm_run_def)
  then have "vpages s1 = (us @ vs) @ vpages s3" "mset (as_pages c asp s3) = mset (as_pages c asp s1) + mset (us @ vs)"
    by simp_all
  ultimately show ?thesis unfolding vm_run_def by metis
qed

context address_space
begin

lemma vme_maps_implements:
  assumes "vm_inv c asp s" and "vme_maps c asp ops s = Inr s'"
    and "length (mmu_pgtables c) \<le> Suc (Suc (length (vpages s')))"
  shows "vm_run c asp s s' \<and> as_maps c ops (as_walk c asp s) = Inr (as_walk c asp s')"
  using assms(1,2)
proof (induction ops arbitrary: s)
  case Nil
  then show ?case using vm_run_refl by simp
next
  case (Cons x ops)
  obtain va pa prot where x: "x = (va, pa, prot)" by (cases x)
  then obtain s1 where s1: "vme_map c asp va pa prot s = Inr s1" "vme_maps c asp ops s1 = Inr s'"
    using Cons.prems by (auto simp: bind_res_eq_Inr_iff)
  obtain us vs where "vpages s1 = us @ vpages s'" "vpages s = vs @ vpages s1"
    using vme_maps_takes [OF s1(2)] vme_map_takes [OF s1(1)] by blast
  then have len: "length (mmu_pgtables c) \<le> Suc (Suc (length (vpages s)))" using assms(3) by simp
  note m = vme_map_implements [OF Cons.prems(1) len, of va pa prot]
  have r: "vm_run c asp s s1" using m(2) [OF s1(1)] by (simp add: vm_run_def)
  then have "vm_inv c asp s1" by (simp add: vm_run_def)
  then have "vm_run c asp s1 s' \<and> as_maps c ops (as_walk c asp s1) = Inr (as_walk c asp s')"
    using Cons.IH s1(2) by blast
  then show ?case using vm_run_trans [OF r] m(1) [symmetric] s1(1) by (simp add: x)
qed

lemma unprotect_frees:
  assumes "vm_inv c asp s"
  shows "\<exists>fs. unprotect c asp s = s\<lparr>vfreed := vfreed s @ fs\<rparr> \<and> mset fs = mset (as_pages c asp s)"
proof -
  have "user_entry (vmem s asp 0)" using assms by (simp add: vm_inv_def)
  then have "unprotect c asp s = teardown c 1 (tl (mmu_pgtables c)) (as_root c asp s) s"
    unfolding unprotect_def by (subst levels) (simp add: user_entry_def as_root_def)
  then show ?thesis using teardown_frees [of 1 c "tl (mmu_pgtables c)" "as_root c asp s" s] by (simp add: as_pages_def)
qed

end

text \<open>A translation that no page of the user area covers stays.\<close>

lemma as_map_outside:
  assumes "as_map c va pa prot A = Inr A'" and "\<And>va. vm_in_range va (uvm_area c) \<Longrightarrow> \<not> same_page c vb va"
  shows "A' vb = A vb"
  using assms by (auto simp: as_map_def split: if_splits)

lemma as_maps_outside:
  assumes "as_maps c ops A = Inr A'" and "\<And>va. vm_in_range va (uvm_area c) \<Longrightarrow> \<not> same_page c vb va"
  shows "A' vb = A vb"
  using assms(1)
proof (induction ops arbitrary: A)
  case (Cons x ops)
  obtain va pa prot where x: "x = (va, pa, prot)" by (cases x)
  then obtain A1 where "as_map c va pa prot A = Inr A1" "as_maps c ops A1 = Inr A'"
    using Cons.prems by (auto simp: bind_res_eq_Inr_iff)
  then show ?case using Cons.IH as_map_outside [OF _ assms(2)] by metis
qed simp

subsection \<open>A new address space\<close>

text \<open>What \<open>protect\<close> relies on: the kernel's table has no entry for the user, and its tables
  are apart from the pages of the allocator and the object \<open>asp\<close>.\<close>

definition kernel_ok :: "'w::len word mmu_config \<Rightarrow> 'w word \<Rightarrow> 'w word vme \<Rightarrow> bool" where
  "kernel_ok c asp s \<longleftrightarrow>
     vkpt s \<notin> insert asp (set (vpages s)) \<and>
     (\<forall>i < 2 ^ pt_bits (mmu_pgtables c ! 1). \<not> user_entry (vmem s (vkpt s) i)) \<and>
     k_pages c (vmem s) (tl (mmu_pgtables c)) (vkpt s) \<inter> insert asp (set (vpages s)) = {}"

definition allocator_ok :: "'w::len word mmu_config \<Rightarrow> 'w word \<Rightarrow> 'w word vme \<Rightarrow> bool" where
  "allocator_ok c asp s \<longleftrightarrow>
     vpages s \<noteq> [] \<and> distinct (vpages s) \<and> asp \<notin> set (vpages s) \<and> (\<forall>p \<in> set (vpages s). baseof c p = p \<and> p \<noteq> 0)"

locale kernel_area = address_space c for c :: "'w::len word mmu_config" +
  fixes K :: "nat set"
  assumes copies: "utab \<noteq> vkpt s \<Longrightarrow> copy_kernel_areas (mmu_pgtables c ! 1) utab (mmu_areas c) s =
      Inr (s\<lparr>vmem := (vmem s)(utab := (\<lambda>i. if i \<in> K then vmem s (vkpt s) i else vmem s utab i))\<rparr>)"
    and user_index: "vm_in_range va (uvm_area c) \<Longrightarrow> indexof va (mmu_pgtables c ! 1) \<notin> K"
begin

text \<open>The root table that \<open>protect\<close> fills.\<close>

lemma root_table:
  assumes agree: "pt_agree (- {utab, asp}) m m1"
    and old: "kpt \<notin> {utab, asp}" "k_pages c m (info # rest) kpt \<inter> {utab, asp} = {}"
      "\<And>i. i < 2 ^ pt_bits info \<Longrightarrow> \<not> user_entry (m kpt i)"
    and new: "\<And>i. i < 2 ^ pt_bits info \<Longrightarrow> m1 utab i = (if i \<in> K then m kpt i else 0)"
    and infos: "set (info # rest) \<subseteq> set (tl (mmu_pgtables c))"
  shows "pt_pages c m1 (info # rest) utab = [utab]"
    and "k_pages c m1 (info # rest) utab \<subseteq> k_pages c m (info # rest) kpt"
    and "mmu_walk c m1 (info # rest) utab va = (if indexof va info \<in> K then mmu_walk c m (info # rest) kpt va else None)"
    and "indexof va info \<notin> K \<Longrightarrow> user_path c m1 (info # rest) utab va"
proof -
  have nu: "\<not> user_entry (m1 utab i)" if "i < 2 ^ pt_bits info" for i
    using new [OF that] old(3) [OF that] by (simp add: user_entry_def)
  have "concat (map (\<lambda>i. if user_entry (m1 utab i) then pt_pages c m1 rest (baseof c (m1 utab i)) else []) [0..<2 ^ pt_bits info]) = []"
    using nu by auto
  then show "pt_pages c m1 (info # rest) utab = [utab]" by (simp only: pt_pages.simps)
  have b: "indexof va info < 2 ^ pt_bits info" for va using index_bound infos by simp
  have below: "all_pages c m1 rest (baseof c (m kpt i)) = all_pages c m rest (baseof c (m kpt i)) \<and>
      mmu_walk c m1 rest (baseof c (m kpt i)) va = mmu_walk c m rest (baseof c (m kpt i)) va"
    if "i < 2 ^ pt_bits info" "m kpt i AND PTE_P \<noteq> 0" "m kpt i AND PTE_PS = 0" for i
  proof (rule all_pages_cong)
    show "pt_agree (all_pages c m rest (baseof c (m kpt i))) m m1"
      using all_below [where m = m and cur = kpt, OF that(1) old(3) that(2,3), OF that(1), of rest] old(2)
      by (intro pt_agree_mono [OF agree]) blast
  qed (use infos index_bound in auto)
  show "k_pages c m1 (info # rest) utab \<subseteq> k_pages c m (info # rest) kpt"
    using nu new old(3) below by (auto split: if_splits intro!: bexI)
  show "mmu_walk c m1 (info # rest) utab va = (if indexof va info \<in> K then mmu_walk c m (info # rest) kpt va else None)"
    using new [OF b [of va]] below [OF b [of va]] by (simp add: Let_def)
  show "user_path c m1 (info # rest) utab va" if "indexof va info \<notin> K"
    using new [OF b [of va]] that by simp
qed

lemma protect_inv:
  assumes ker: "kernel_ok c asp s" and alloc: "allocator_ok c asp s"
  shows "\<exists>s1. protect c asp s = Inr s1 \<and> vm_inv c asp s1 \<and> vkpt s1 = vkpt s \<and> vfreed s1 = vfreed s \<and>
    vpages s = as_pages c asp s1 @ vpages s1 \<and> length (as_pages c asp s1) = 1 \<and>
    (\<forall>va. as_walk c asp s1 va =
      (if indexof va (mmu_pgtables c ! 1) \<in> K then mmu_walk c (vmem s) (tl (mmu_pgtables c)) (vkpt s) va else None))"
proof -
  obtain info rest where L: "tl (mmu_pgtables c) = info # rest" using levels_below by (cases "tl (mmu_pgtables c)") auto
  then have T1: "mmu_pgtables c ! 1 = info" by (subst levels) simp
  obtain utab ps where ps: "vpages s = utab # ps" using alloc by (cases "vpages s") (auto simp: allocator_ok_def)
  have utab: "baseof c utab = utab" "utab \<noteq> 0" "utab \<noteq> asp" "utab \<noteq> vkpt s" "vkpt s \<noteq> asp"
    using ker alloc by (auto simp: kernel_ok_def allocator_ok_def ps)
  let ?z = "\<lambda>i. if i < page_words c then 0 else vmem s utab i"
  let ?e = "utab OR PTE_P OR PTE_U"
  define m1 where "m1 = pt_store ((vmem s)(utab := (\<lambda>i. if i \<in> K then vmem s (vkpt s) i else ?z i))) asp 0 ?e"
  define s1 where "s1 = s\<lparr>vpages := ps, vas := (vas s)(asp := (mmu_pgsize c, area_start (uvm_area c), area_end (uvm_area c))),
      vmem := m1\<rparr>"
  have "copy_kernel_areas info utab (mmu_areas c) (s\<lparr>vpages := ps, vmem := (vmem s)(utab := ?z)\<rparr>) =
      Inr (s\<lparr>vpages := ps, vmem := (vmem s)(utab := (\<lambda>i. if i \<in> K then vmem s (vkpt s) i else ?z i))\<rparr>)"
    using copies [of utab "s\<lparr>vpages := ps, vmem := (vmem s)(utab := ?z)\<rparr>", unfolded T1] utab by (simp cong: if_cong)
  then have run: "protect c asp s = Inr s1"
    using utab unfolding protect_def T1 by (simp add: pgallocz_def ps s1_def m1_def)
  have a0: "m1 asp 0 = ?e" by (simp add: m1_def pt_store_def)
  have ue: "user_entry ?e" using bit_pte [OF width] by (simp add: user_entry_def pte_bits bit_or_iff)
  have root: "as_root c asp s1 = utab"
  proof -
    have "baseof c (utab OR (PTE_P OR PTE_U)) = utab"
      by (rule baseof_flags [OF utab(1)]) (auto simp: bit_or_iff bit_pte [OF width])
    then show ?thesis by (simp add: as_root_def s1_def a0 or.assoc)
  qed
  have agree: "pt_agree (- {utab, asp}) (vmem s) m1" by (simp add: pt_agree_def m1_def pt_store_def)
  have old: "vkpt s \<notin> {utab, asp}" "k_pages c (vmem s) (info # rest) (vkpt s) \<inter> {utab, asp} = {}"
    "\<And>i. i < 2 ^ pt_bits info \<Longrightarrow> \<not> user_entry (vmem s (vkpt s) i)"
    using ker utab unfolding kernel_ok_def L T1 ps by auto
  have new: "m1 utab i = (if i \<in> K then vmem s (vkpt s) i else 0)" if "i < 2 ^ pt_bits info" for i
    using that utab table_fits [of info] by (simp add: m1_def pt_store_def L)
  note rt = root_table [OF agree old(1,2)]
  have ms1: "vmem s1 = m1" "vpages s1 = ps" by (simp_all add: s1_def)
  have pages: "as_pages c asp s1 = [utab]" unfolding as_pages_def root ms1 L by (rule rt(1)) (simp_all add: old(3) new L)
  have kern: "as_kernel c asp s1 \<subseteq> k_pages c (vmem s) (info # rest) (vkpt s)"
    unfolding as_kernel_def root ms1 L by (rule rt(2)) (simp_all add: old(3) new L)
  have walk: "as_walk c asp s1 va = (if indexof va info \<in> K then mmu_walk c (vmem s) (info # rest) (vkpt s) va else None)" for va
    unfolding as_walk_def root ms1 L by (rule rt(3)) (simp_all add: old(3) new L)
  have path: "user_path c m1 (info # rest) utab va" if "vm_in_range va (uvm_area c)" for va
    using user_index [OF that] by (intro rt(4)) (simp_all add: old(3) new L T1 [symmetric])
  have kd: "k_pages c (vmem s) (info # rest) (vkpt s) \<inter> insert asp (insert utab (set ps)) = {}"
    using ker unfolding kernel_ok_def L ps by simp
  have "vm_inv c asp s1"
  proof -
    have "as_kernel c asp s1 \<inter> insert asp (insert utab (set ps)) = {}" using kern kd by blast
    then show ?thesis
      unfolding vm_inv_def pages ms1 root L a0
      using ue alloc path by (auto simp: allocator_ok_def ps simp del: user_path.simps)
  qed
  moreover have "vkpt s1 = vkpt s" "vfreed s1 = vfreed s" "vpages s = as_pages c asp s1 @ vpages s1"
    "length (as_pages c asp s1) = 1"
    by (simp_all add: pages ms1 ps) (simp_all add: s1_def)
  ultimately show ?thesis using run walk unfolding T1 L by blast
qed

text \<open>From \<open>protect\<close> over any calls of \<open>map\<close> to \<open>unprotect\<close>.\<close>

lemma lifecycle:
  assumes "kernel_ok c asp s" and "allocator_ok c asp s" and "protect c asp s = Inr s1"
    and "vme_maps c asp ops s1 = Inr s2" and "length (mmu_pgtables c) \<le> Suc (Suc (length (vpages s2)))"
  shows "\<exists>taken. vpages s = taken @ vpages s2 \<and> vpages (unprotect c asp s2) = vpages s2 \<and>
      mset (vfreed (unprotect c asp s2)) = mset (vfreed s) + mset taken"
    and "indexof va (mmu_pgtables c ! 1) \<in> K \<Longrightarrow>
      as_walk c asp s2 va = mmu_walk c (vmem s) (tl (mmu_pgtables c)) (vkpt s) va"
proof -
  have p: "vm_inv c asp s1" "vfreed s1 = vfreed s" "vpages s = as_pages c asp s1 @ vpages s1"
    "as_walk c asp s1 va =
      (if indexof va (mmu_pgtables c ! 1) \<in> K then mmu_walk c (vmem s) (tl (mmu_pgtables c)) (vkpt s) va else None)" for va
    using protect_inv [OF assms(1,2)] assms(3) by auto
  note run = vme_maps_implements [OF p(1) assms(4,5)]
  then obtain used where u: "vm_inv c asp s2" "vfreed s2 = vfreed s1" "vpages s1 = used @ vpages s2"
    "mset (as_pages c asp s2) = mset (as_pages c asp s1) + mset used" by (auto simp: vm_run_def)
  obtain fs where fs: "unprotect c asp s2 = s2\<lparr>vfreed := vfreed s2 @ fs\<rparr>" "mset fs = mset (as_pages c asp s2)"
    using unprotect_frees [OF u(1)] by blast
  have "vpages s = (as_pages c asp s1 @ used) @ vpages s2" using p(3) u(3) by simp
  moreover have "mset (vfreed (unprotect c asp s2)) = mset (vfreed s) + mset (as_pages c asp s1 @ used)"
    by (simp add: fs u(2,4) p(2))
  ultimately show "\<exists>taken. vpages s = taken @ vpages s2 \<and> vpages (unprotect c asp s2) = vpages s2 \<and>
      mset (vfreed (unprotect c asp s2)) = mset (vfreed s) + mset taken"
    using fs(1) by auto
  show "as_walk c asp s2 va = mmu_walk c (vmem s) (tl (mmu_pgtables c)) (vkpt s) va"
    if ker: "indexof va (mmu_pgtables c ! 1) \<in> K"
  proof -
    have "\<not> same_page c va vb" if vb: "vm_in_range vb (uvm_area c)" for vb
    proof
      assume "same_page c va vb"
      then have "vpn (tl (mmu_pgtables c)) va = vpn (tl (mmu_pgtables c)) vb" by (simp add: same_page_vpn)
      moreover obtain info rest where "tl (mmu_pgtables c) = info # rest" using levels_below by (cases "tl (mmu_pgtables c)") auto
      moreover from this have "mmu_pgtables c ! 1 = info" by (subst levels) simp
      ultimately have "indexof va (mmu_pgtables c ! 1) = indexof vb (mmu_pgtables c ! 1)" by (simp add: vpn_def)
      then show False using user_index [OF vb] ker by simp
    qed
    then have "as_walk c asp s2 va = as_walk c asp s1 va" using run as_maps_outside by blast
    then show ?thesis using p(4) ker by simp
  qed
qed

end

subsection \<open>The two configurations\<close>

lemma index_bits:
  assumes "pt_mask info = push_bit (pt_shift info) (mask (pt_bits info))"
  shows "indexof (a :: 'w::len word) info = unat a div 2 ^ pt_shift info mod 2 ^ pt_bits info"
proof -
  have "drop_bit (pt_shift info) (a AND pt_mask info) = take_bit (pt_bits info) (drop_bit (pt_shift info) a)"
    by (rule bit_word_eqI) (auto simp: assms bit_simps possible_bit_word dest: bit_imp_le_length)
  then have "indexof a info = take_bit (pt_bits info) (drop_bit (pt_shift info) (unat a))"
    by (simp only: indexof_def unsigned_take_bit_eq unat_drop_bit_eq)
  then show ?thesis by (simp only: take_bit_eq_mod drop_bit_eq_div)
qed

text \<open>The loop of \<open>protect\<close> over one area, in closed form.\<close>

lemma copy_entries:
  assumes "stop = cur + of_nat n * push_bit (pt_shift info) 1" and "n \<le> fuel"
    and "\<And>j. j < n \<Longrightarrow> cur + of_nat j * push_bit (pt_shift info) 1 \<noteq> stop" and "utab \<noteq> vkpt s"
  shows "copy_kernel_entries fuel info utab cur stop s =
    Inr (s\<lparr>vmem := (vmem s)(utab := (\<lambda>i. if \<exists>j < n. i = indexof (cur + of_nat j * push_bit (pt_shift info) 1) info
      then vmem s (vkpt s) i else vmem s utab i))\<rparr>)"
  using assms
proof (induction n arbitrary: cur fuel s)
  case 0
  then show ?case by (subst copy_kernel_entries.simps) simp
next
  case (Suc n)
  let ?st = "push_bit (pt_shift info) 1 :: 'a word"
  obtain f where f: "fuel = Suc f" using Suc.prems(2) by (cases fuel) auto
  have ne: "cur \<noteq> stop" using Suc.prems(3) [of 0] by simp
  let ?k = "indexof cur info"
  let ?s = "s\<lparr>vmem := pt_store (vmem s) utab ?k (vmem s (vkpt s) ?k)\<rparr>"
  have "copy_kernel_entries fuel info utab cur stop s = copy_kernel_entries f info utab (cur + ?st) stop ?s"
    using ne f by (subst copy_kernel_entries.simps) (simp add: Let_def)
  also have "\<dots> = Inr (?s\<lparr>vmem := (vmem ?s)(utab := (\<lambda>i. if \<exists>j < n. i = indexof (cur + ?st + of_nat j * ?st) info
      then vmem ?s (vkpt ?s) i else vmem ?s utab i))\<rparr>)"
  proof (rule Suc.IH)
    show "stop = cur + ?st + of_nat n * ?st" using Suc.prems(1) by (simp add: algebra_simps)
    show "cur + ?st + of_nat j * ?st \<noteq> stop" if "j < n" for j
      using Suc.prems(3) [of "Suc j"] that by (simp add: algebra_simps)
  qed (use Suc.prems f in auto)
  also have "(\<lambda>i. if \<exists>j < n. i = indexof (cur + ?st + of_nat j * ?st) info then vmem ?s (vkpt ?s) i else vmem ?s utab i) =
      (\<lambda>i. if \<exists>j < Suc n. i = indexof (cur + of_nat j * ?st) info then vmem s (vkpt s) i else vmem s utab i)"
  proof
    fix i
    have "(\<exists>j < Suc n. i = indexof (cur + of_nat j * ?st) info) \<longleftrightarrow>
        i = ?k \<or> (\<exists>j < n. i = indexof (cur + ?st + of_nat j * ?st) info)"
      by (auto simp: less_Suc_eq_0_disj algebra_simps)
    then show "(if \<exists>j < n. i = indexof (cur + ?st + of_nat j * ?st) info then vmem ?s (vkpt ?s) i else vmem ?s utab i) =
        (if \<exists>j < Suc n. i = indexof (cur + of_nat j * ?st) info then vmem s (vkpt s) i else vmem s utab i)"
      using Suc.prems(4) by (auto simp: pt_store_def)
  qed
  finally show ?case by (simp add: pt_store_def cong: if_cong)
qed

lemma levels64: "mmu_pgtables mmu64 ! 1 = \<lparr>pt_name = ''PML4'', pt_mask = 0xff8000000000, pt_shift = 39, pt_bits = 9\<rparr>"
  by (simp add: mmu64_def)

lemma levels32: "mmu_pgtables mmu32 ! 1 = \<lparr>pt_name = ''PD'', pt_mask = 0xffc00000, pt_shift = 22, pt_bits = 10\<rparr>"
  by (simp add: mmu32_def)

lemma index64: "indexof a (mmu_pgtables mmu64 ! 1) = unat a div 2 ^ 39 mod 2 ^ 9"
  unfolding levels64 by (subst index_bits) (simp_all add: mask_eq_exp_minus_1 push_bit_eq_mult)

lemma index32: "indexof a (mmu_pgtables mmu32 ! 1) = unat a div 2 ^ 22 mod 2 ^ 10"
  unfolding levels32 by (subst index_bits) (simp_all add: mask_eq_exp_minus_1 push_bit_eq_mult)

interpretation m64: paging mmu64
proof unfold_locales
  have m: "info \<in> set (tl (mmu_pgtables mmu64)) \<Longrightarrow>
      pt_mask info = push_bit (pt_shift info) (mask (pt_bits info)) \<and> pt_bits info = 9" for info
    by (auto simp: mmu64_def mask_eq_exp_minus_1 push_bit_eq_mult)
  show "indexof a info < 2 ^ pt_bits info" if "info \<in> set (tl (mmu_pgtables mmu64))" for info a
    using m [OF that] by (simp add: index_bits)
  show "2 ^ pt_bits info \<le> page_words mmu64" if "info \<in> set (tl (mmu_pgtables mmu64))" for info
    using m [OF that] by (simp add: page_words_def mmu64_def)
qed (simp_all add: mmu64_def)

interpretation m32: paging mmu32
proof unfold_locales
  have m: "info \<in> set (tl (mmu_pgtables mmu32)) \<Longrightarrow>
      pt_mask info = push_bit (pt_shift info) (mask (pt_bits info)) \<and> pt_bits info = 10" for info
    by (auto simp: mmu32_def mask_eq_exp_minus_1 push_bit_eq_mult)
  show "indexof a info < 2 ^ pt_bits info" if "info \<in> set (tl (mmu_pgtables mmu32))" for info a
    using m [OF that] by (simp add: index_bits)
  show "2 ^ pt_bits info \<le> page_words mmu32" if "info \<in> set (tl (mmu_pgtables mmu32))" for info
    using m [OF that] by (simp add: page_words_def mmu32_def)
qed (simp_all add: mmu32_def)

interpretation s64: address_space mmu64
  by unfold_locales (auto simp: mmu64_def mask_eq_exp_minus_1 push_bit_eq_mult)

interpretation s32: address_space mmu32
  by unfold_locales (auto simp: mmu32_def mask_eq_exp_minus_1 push_bit_eq_mult)

interpretation k64: kernel_area mmu64 "{0}"
proof unfold_locales
  show "copy_kernel_areas (mmu_pgtables mmu64 ! 1) utab (mmu_areas mmu64) s =
      Inr (s\<lparr>vmem := (vmem s)(utab := (\<lambda>i. if i \<in> {0} then vmem s (vkpt s) i else vmem s utab i))\<rparr>)"
    if "utab \<noteq> vkpt s" for utab :: "64 word" and s
  proof -
    have st: "push_bit (pt_shift (mmu_pgtables mmu64 ! 1)) 1 = (0x8000000000 :: 64 word)"
      unfolding levels64 by (simp add: push_bit_eq_mult)
    have "copy_kernel_entries (2 ^ 9) (mmu_pgtables mmu64 ! 1) utab 0 0x008000000000 s =
        Inr (s\<lparr>vmem := (vmem s)(utab := (\<lambda>i. if i = 0 then vmem s (vkpt s) i else vmem s utab i))\<rparr>)"
      using copy_entries [where stop = "0x008000000000" and cur = "0" and n = "1" and info = "mmu_pgtables mmu64 ! 1" and fuel = "2 ^ 9"] that index64 [of 0]
      unfolding st by simp
    then show ?thesis by (simp add: levels64) (simp add: mmu64_def)
  qed
  show "vm_in_range va (uvm_area mmu64) \<Longrightarrow> indexof va (mmu_pgtables mmu64 ! 1) \<notin> {0}" for va
  proof -
    assume "vm_in_range va (uvm_area mmu64)"
    then have "0x100000000000 \<le> unat va" "unat va < 0x108000000000"
      by (simp_all add: vm_in_range_def uvm_area_def mmu64_def word_le_nat_alt word_less_nat_alt)
    then have "unat va div 2 ^ 39 = 32" by (simp add: div_nat_eqI)
    then show ?thesis unfolding index64 by simp
  qed
qed

text \<open>On 32 bits the kernel has the entries of its first GiB and of the devices at the top.\<close>

lemma copy_area32:
  assumes "stop = cur + of_nat n * 0x400000" and "n \<le> 1024" and "\<And>j. j < n \<Longrightarrow> cur + of_nat j * 0x400000 \<noteq> stop"
    and "\<And>j. j < n \<Longrightarrow> indexof (cur + of_nat j * 0x400000) (mmu_pgtables mmu32 ! 1) = first + j" and "utab \<noteq> vkpt s"
  shows "copy_kernel_entries (2 ^ 10) (mmu_pgtables mmu32 ! 1) utab cur stop s =
    Inr (s\<lparr>vmem := (vmem s)(utab := (\<lambda>i. if i \<in> {first..<first + n} then vmem s (vkpt s) i else vmem s utab i))\<rparr>)"
proof -
  have st: "push_bit (pt_shift (mmu_pgtables mmu32 ! 1)) 1 = (0x400000 :: 32 word)"
    unfolding levels32 by (simp add: push_bit_eq_mult)
  have "(\<exists>j < n. i = first + j) \<longleftrightarrow> i \<in> {first..<first + n}" for i
    using le_Suc_ex [of first i] by auto
  moreover have "(\<exists>j < n. i = indexof (cur + of_nat j * 0x400000) (mmu_pgtables mmu32 ! 1)) \<longleftrightarrow> (\<exists>j < n. i = first + j)" for i
    using assms(4) by metis
  ultimately have "(\<exists>j < n. i = indexof (cur + of_nat j * 0x400000) (mmu_pgtables mmu32 ! 1)) \<longleftrightarrow> i \<in> {first..<first + n}" for i
    by blast
  then show ?thesis
    using copy_entries [where stop = stop and cur = cur and n = n and info = "mmu_pgtables mmu32 ! 1" and fuel = "2 ^ 10" and utab = utab and s = s]
      assms unfolding st by simp
qed

lemma step32:
  assumes "b + j * 0x400000 < 2 ^ 32"
  shows "unat (of_nat b + of_nat j * 0x400000 :: 32 word) = b + j * 0x400000"
proof -
  have "(of_nat b + of_nat j * 0x400000 :: 32 word) = of_nat (b + j * 0x400000)" by simp
  then show ?thesis using assms by (simp only: unat_of_nat) simp
qed

interpretation k32: kernel_area mmu32 "{0..<256} \<union> {1012..<1024}"
proof unfold_locales
  show "copy_kernel_areas (mmu_pgtables mmu32 ! 1) utab (mmu_areas mmu32) s =
      Inr (s\<lparr>vmem := (vmem s)(utab := (\<lambda>i. if i \<in> {0..<256} \<union> {1012..<1024} then vmem s (vkpt s) i else vmem s utab i))\<rparr>)"
    if ne: "utab \<noteq> vkpt s" for utab :: "32 word" and s
  proof -
    let ?s = "s\<lparr>vmem := (vmem s)(utab := (\<lambda>i. if i \<in> {0..<0 + 256} then vmem s (vkpt s) i else vmem s utab i))\<rparr>"
    have "copy_kernel_entries (2 ^ 10) (mmu_pgtables mmu32 ! 1) utab 0 0x40000000 s = Inr ?s"
    proof (rule copy_area32)
      show "(0 :: 32 word) + of_nat j * 0x400000 \<noteq> 0x40000000" if "j < 256" for j
        using step32 [of 0 j] that by (auto simp: word_unat_eq_iff)
      show "indexof (0 + of_nat j * 0x400000) (mmu_pgtables mmu32 ! 1) = 0 + j" if "j < 256" for j
        using step32 [of 0 j] that by (simp add: index32 del: One_nat_def)
    qed (use ne in simp_all)
    moreover have "copy_kernel_entries (2 ^ 10) (mmu_pgtables mmu32 ! 1) utab 0xfd000000 0 ?s =
        Inr (?s\<lparr>vmem := (vmem ?s)(utab := (\<lambda>i. if i \<in> {1012..<1012 + 12} then vmem ?s (vkpt ?s) i else vmem ?s utab i))\<rparr>)"
    proof (rule copy_area32)
      have w: "unat ((0xfd000000 :: 32 word) + of_nat j * 0x400000) = 0xfd000000 + j * 0x400000" if "j < 12" for j
        using step32 [of "0xfd000000" j] that by simp
      show "(0xfd000000 :: 32 word) + of_nat j * 0x400000 \<noteq> 0" if "j < 12" for j
        using w [OF that] by (auto simp: word_unat_eq_iff)
      show "indexof (0xfd000000 + of_nat j * 0x400000) (mmu_pgtables mmu32 ! 1) = 1012 + j" if "j < 12" for j
        unfolding index32 w [OF that] using that by simp
    qed (use ne in simp_all)
    moreover have "?s\<lparr>vmem := (vmem ?s)(utab := (\<lambda>i. if i \<in> {1012..<1012 + 12} then vmem ?s (vkpt ?s) i else vmem ?s utab i))\<rparr> =
        s\<lparr>vmem := (vmem s)(utab := (\<lambda>i. if i \<in> {0..<256} \<union> {1012..<1024} then vmem s (vkpt s) i else vmem s utab i))\<rparr>"
      using ne by (auto simp: fun_eq_iff)
    ultimately show ?thesis
      by (simp add: levels32) (simp add: mmu32_def)
  qed
  show "vm_in_range va (uvm_area mmu32) \<Longrightarrow> indexof va (mmu_pgtables mmu32 ! 1) \<notin> {0..<256} \<union> {1012..<1024}" for va
  proof -
    assume "vm_in_range va (uvm_area mmu32)"
    then have "0x40000000 \<le> unat va" "unat va < 0x80000000"
      by (simp_all add: vm_in_range_def uvm_area_def mmu32_def word_le_nat_alt word_less_nat_alt)
    then have "256 \<le> unat va div 2 ^ 22" "unat va div 2 ^ 22 < 512"
      by (simp_all add: div_less_iff_less_mult less_eq_div_iff_mult_less_eq)
    then show ?thesis unfolding index32 by simp
  qed
qed

subsection \<open>The kernel's tables after booting\<close>

definition mmu_phys :: "'w::len word mmu_config \<Rightarrow> nat \<Rightarrow> 'w word \<Rightarrow> 'w word \<Rightarrow> 'w word" where
  "mmu_phys c n e va =
     (let sh = pt_shift (rev (mmu_pgtables c) ! n) in (e AND NOT (mask sh)) OR (va AND mask sh))"

lemma boot_entries:
  assumes "\<And>i. i < 512 \<Longrightarrow> m PML4_ADDR i = 0" and "i < 512"
  shows "boot_tables m PML4_ADDR i = (if i = 0 then PDPT_ADDR OR PTE_P OR PTE_W else 0)"
    and "boot_tables m PDPT_ADDR i = push_bit 30 (of_nat i) OR PTE_P OR PTE_W OR PTE_PS"
  using assms by (simp_all add: boot_tables_def pt_store_def PML4_ADDR_def PDPT_ADDR_def)

lemma boot_bits:
  "baseof mmu64 (PDPT_ADDR OR PTE_P OR PTE_W) = PDPT_ADDR" "(PDPT_ADDR OR PTE_P OR PTE_W) AND PTE_P \<noteq> 0"
  "(PDPT_ADDR OR PTE_P OR PTE_W) AND PTE_U = 0" "(PDPT_ADDR OR PTE_P OR PTE_W) AND PTE_PS = 0"
  by (simp_all add: baseof_def mmu64_def PDPT_ADDR_def PTE_P_def PTE_W_def PTE_U_def PTE_PS_def)

lemma big_page:
  fixes w :: "64 word"
  shows "(push_bit 30 w OR PTE_P OR PTE_W OR PTE_PS) AND PTE_P \<noteq> 0" "(push_bit 30 w OR PTE_P OR PTE_W OR PTE_PS) AND PTE_PS \<noteq> 0"
    and "(push_bit 30 w OR PTE_P OR PTE_W OR PTE_PS) AND (PTE_W OR PTE_U) AND (PDPT_ADDR OR PTE_P OR PTE_W) = PTE_W"
    and "(push_bit 30 w OR PTE_P OR PTE_W OR PTE_PS) AND NOT (mask 30) = push_bit 30 w"
proof -
  have b: "bit (PTE_P :: 64 word) n \<longleftrightarrow> n = 0" "bit (PTE_W :: 64 word) n \<longleftrightarrow> n = 1" "bit (PTE_U :: 64 word) n \<longleftrightarrow> n = 2" for n
    by (rule bit_pte; simp)+
  have e: "PTE_PS = (2 ^ 7 :: 64 word)" "PDPT_ADDR = (2 ^ 13 :: 64 word)" by (simp_all add: PTE_PS_def PDPT_ADDR_def)
  have b': "bit (PTE_PS :: 64 word) n \<longleftrightarrow> n = 7" "bit PDPT_ADDR n \<longleftrightarrow> n = 13" for n
    unfolding e bit_exp_iff by (auto simp: possible_bit_word)
  note bits = bit_and_iff bit_or_iff bit_not_iff bit_push_bit_iff bit_mask_iff b b'
  show "(push_bit 30 w OR PTE_P OR PTE_W OR PTE_PS) AND PTE_P \<noteq> 0" "(push_bit 30 w OR PTE_P OR PTE_W OR PTE_PS) AND PTE_PS \<noteq> 0"
    by (simp_all add: pte_bits bits)
  show "(push_bit 30 w OR PTE_P OR PTE_W OR PTE_PS) AND (PTE_W OR PTE_U) AND (PDPT_ADDR OR PTE_P OR PTE_W) = PTE_W"
    by (rule bit_word_eqI) (auto simp: bits)
  show "(push_bit 30 w OR PTE_P OR PTE_W OR PTE_PS) AND NOT (mask 30) = push_bit 30 w"
    by (rule bit_word_eqI) (auto simp: bits possible_bit_word)
qed

lemma tables64: "\<exists>i2 i3 i4. tl (mmu_pgtables mmu64) = [mmu_pgtables mmu64 ! 1, i2, i3, i4] \<and> pt_bits i2 = 9 \<and>
    pt_shift i2 = 30 \<and> pt_mask i2 = 0x007fc0000000"
  by (simp add: mmu64_def)

lemma boot_kernel_ok:
  assumes z: "\<And>i. i < 512 \<Longrightarrow> m PML4_ADDR i = 0" and s: "vmem s = boot_tables m" "vkpt s = PML4_ADDR"
    and free: "{PML4_ADDR, PDPT_ADDR} \<inter> insert asp (set (vpages s)) = {}"
  shows "kernel_ok mmu64 asp s"
proof -
  obtain i2 i3 i4 where L: "tl (mmu_pgtables mmu64) = [mmu_pgtables mmu64 ! 1, i2, i3, i4]" "pt_bits i2 = 9"
    using tables64 by blast
  have n: "(2 ^ pt_bits (mmu_pgtables mmu64 ! 1) :: nat) = 512" unfolding levels64 by simp
  have "all_pages mmu64 (boot_tables m) [i2, i3, i4] PDPT_ADDR = {PDPT_ADDR}"
    unfolding all_pages.simps(2) [of _ _ i2] L(2) using boot_entries(2) [of m, OF z] big_page(2) by auto
  then have "k_pages mmu64 (boot_tables m) (tl (mmu_pgtables mmu64)) PML4_ADDR \<subseteq> {PDPT_ADDR}"
    unfolding L(1) k_pages.simps(2) [of _ _ "mmu_pgtables mmu64 ! 1"] n
    using boot_entries(1) [of m, OF z] boot_bits by (auto simp: user_entry_def simp del: all_pages.simps k_pages.simps split: if_splits)
  moreover have "\<not> user_entry (boot_tables m PML4_ADDR i)" if "i < 512" for i
    using boot_entries(1) [of m, OF z that] boot_bits by (simp add: user_entry_def)
  ultimately show ?thesis using free unfolding kernel_ok_def s n by auto
qed

text \<open>The processor's walk of the boot tables is the identity on the kernel's area.\<close>

lemma boot_walk:
  assumes z: "\<And>i. i < 512 \<Longrightarrow> m PML4_ADDR i = 0" and va: "unat va < 2 ^ 39"
  shows "\<exists>e. mmu_walk mmu64 (boot_tables m) (tl (mmu_pgtables mmu64)) PML4_ADDR va = Some (2, e, PTE_W) \<and> mmu_phys mmu64 2 e va = va"
proof -
  obtain i2 i3 i4 where L: "tl (mmu_pgtables mmu64) = [mmu_pgtables mmu64 ! 1, i2, i3, i4]" "pt_bits i2 = 9"
    "pt_shift i2 = 30" "pt_mask i2 = 0x007fc0000000"
    using tables64 by blast
  have k1: "indexof va (mmu_pgtables mmu64 ! 1) = 0" using va unfolding index64 by simp
  let ?k = "unat va div 2 ^ 30"
  have k: "?k < 512" using va by (simp add: div_less_iff_less_mult)
  have k2: "indexof va i2 = ?k"
    using k by (subst index_bits) (simp_all add: L mask_eq_exp_minus_1 push_bit_eq_mult)
  let ?e = "push_bit 30 (of_nat ?k) OR PTE_P OR PTE_W OR PTE_PS :: 64 word"
  have e1: "boot_tables m PML4_ADDR 0 = PDPT_ADDR OR PTE_P OR PTE_W" and e2: "boot_tables m PDPT_ADDR ?k = ?e"
    using boot_entries(1) [of m 0] boot_entries(2) [of m ?k] z k by simp_all
  have w: "mmu_walk mmu64 (boot_tables m) [i2, i3, i4] PDPT_ADDR va = Some (2, ?e, ?e AND (PTE_W OR PTE_U))"
    unfolding mmu_walk.simps(2) [of _ _ i2] k2 e2 Let_def using big_page(1,2) by simp
  have "mmu_walk mmu64 (boot_tables m) (tl (mmu_pgtables mmu64)) PML4_ADDR va = Some (2, ?e, PTE_W)"
    unfolding L(1) mmu_walk.simps(2) [of _ _ "mmu_pgtables mmu64 ! 1"] k1 Let_def e1
    using boot_bits w big_page(3) by (simp add: and.assoc del: mmu_walk.simps)
  moreover have "mmu_phys mmu64 2 ?e va = va"
  proof -
    have "?k = unat (drop_bit 30 va)" by (simp only: unat_drop_bit_eq) (simp only: drop_bit_eq_div)
    then have "(of_nat ?k :: 64 word) = of_nat (unat (drop_bit 30 va))" by (rule arg_cong)
    then have "(of_nat ?k :: 64 word) = drop_bit 30 va" by (simp only: of_nat_unat ucast_id)
    moreover have "push_bit 30 (drop_bit 30 va) OR (va AND mask 30) = va"
      by (rule bit_word_eqI) (auto simp: bit_simps possible_bit_word)
    moreover have "pt_shift (rev (mmu_pgtables mmu64) ! 2) = 30" by (simp add: mmu64_def)
    ultimately show ?thesis unfolding mmu_phys_def by (simp add: big_page(4))
  qed
  ultimately show ?thesis by blast
qed

subsection \<open>Properties\<close>

text \<open>A machine that has just started, with fourteen pages for its tables.\<close>

definition start64 :: "64 word vme" where
  "start64 =
     \<lparr>vmem = boot_tables (\<lambda>_ _. 0), vpages = [0x100000, 0x101000, 0x102000, 0x103000, 0x104000, 0x105000, 0x106000,
        0x107000, 0x108000, 0x109000, 0x10a000, 0x10b000, 0x10c000, 0x10d000],
      vfreed = [], vkpt = 0, vcr3 = 0, vpaging = False, vas = (\<lambda>_. (0, 0, 0))\<rparr>"

definition started64 :: "(64 word \<Rightarrow> nat \<Rightarrow> 64 word) \<Rightarrow> 64 word \<Rightarrow> 64 word vme \<Rightarrow> bool" where
  "started64 m asp s \<longleftrightarrow>
     vmem s = boot_tables m \<and> (\<forall>i < 512. m PML4_ADDR i = 0) \<and> allocator_ok mmu64 asp s \<and>
     PML4_ADDR \<notin> insert asp (set (vpages s)) \<and> PDPT_ADDR \<notin> insert asp (set (vpages s))"

lemma start64_ok: "started64 (\<lambda>_ _. 0) 0x9000 start64"
  by (simp add: started64_def start64_def allocator_ok_def PML4_ADDR_def PDPT_ADDR_def baseof_def) (simp add: mmu64_def)

definition vme_session64 ::
  "64 word \<Rightarrow> (64 word \<times> 64 word \<times> int) list \<Rightarrow> 64 word vme \<Rightarrow> 64 word vme res" where
  "vme_session64 asp ops s =
     bind_res (vme_init64 0 s) (\<lambda>s0. bind_res (protect mmu64 asp s0) (vme_maps mmu64 asp ops))"

lemma session64:
  assumes "started64 m asp s" and "vme_session64 asp ops s = Inr s2"
  obtains s0 s1 where "vme_init64 0 s = Inr s0" "kernel_ok mmu64 asp s0" "allocator_ok mmu64 asp s0"
    "protect mmu64 asp s0 = Inr s1" "vme_maps mmu64 asp ops s1 = Inr s2"
    "vmem s0 = boot_tables m" "vkpt s0 = PML4_ADDR" "vfreed s0 = vfreed s" "vpages s0 = vpages s"
proof -
  define s0 where "s0 = s\<lparr>vkpt := PML4_ADDR, vcr3 := PML4_ADDR, vpaging := True\<rparr>"
  have i: "vme_init64 0 s = Inr s0" by (simp add: vme_init64_def s0_def)
  have f: "vmem s0 = boot_tables m" "vkpt s0 = PML4_ADDR" "vfreed s0 = vfreed s" "vpages s0 = vpages s"
    using assms(1) by (simp_all add: s0_def started64_def)
  have "kernel_ok mmu64 asp s0"
    using assms(1) f by (intro boot_kernel_ok [of m]) (auto simp: started64_def)
  moreover have "allocator_ok mmu64 asp s0" using assms(1) f by (simp add: started64_def allocator_ok_def)
  moreover obtain s1 where "protect mmu64 asp s0 = Inr s1" "vme_maps mmu64 asp ops s1 = Inr s2"
    using assms(2) i by (auto simp: vme_session64_def bind_res_eq_Inr_iff)
  ultimately show thesis using that i f by blast
qed

text \<open>The first page that its program maps.\<close>

lemma sample64:
  "\<exists>s1 s2. vme_session64 0x9000 [] start64 = Inr s1 \<and> vm_inv mmu64 0x9000 s1 \<and> 3 \<le> length (vpages s1) \<and>
    vme_session64 0x9000 [(0x100000000000, 0x5000, MMAP_WRITE)] start64 = Inr s2 \<and> 3 \<le> length (vpages s2) \<and>
    as_map mmu64 0x100000000000 0x5000 MMAP_WRITE (as_walk mmu64 0x9000 s1) =
      Inr (\<lambda>vb. if same_page mmu64 vb 0x100000000000 then Some (0, 0x5007, 6) else as_walk mmu64 0x9000 s1 vb)"
proof -
  let ?asp = "0x9000 :: 64 word" and ?va = "0x100000000000 :: 64 word" and ?pa = "0x5000 :: 64 word"
  define s0 where "s0 = start64\<lparr>vkpt := PML4_ADDR, vcr3 := PML4_ADDR, vpaging := True\<rparr>"
  have i: "vme_init64 0 start64 = Inr s0" by (simp add: vme_init64_def s0_def)
  have f: "vmem s0 = boot_tables (\<lambda>_ _. 0)" "vkpt s0 = PML4_ADDR" "vpages s0 = vpages start64"
    by (simp_all add: s0_def start64_def)
  have "kernel_ok mmu64 ?asp s0"
    using start64_ok f by (intro boot_kernel_ok [of "\<lambda>_ _. 0"]) (auto simp: started64_def)
  moreover have "allocator_ok mmu64 ?asp s0" using start64_ok f by (simp add: started64_def allocator_ok_def)
  ultimately obtain s1 where s1: "protect mmu64 ?asp s0 = Inr s1" "vm_inv mmu64 ?asp s1" "vpages s0 = as_pages mmu64 ?asp s1 @ vpages s1"
    "length (as_pages mmu64 ?asp s1) = 1"
    "as_walk mmu64 ?asp s1 va =
      (if indexof va (mmu_pgtables mmu64 ! 1) \<in> {0} then mmu_walk mmu64 (vmem s0) (tl (mmu_pgtables mmu64)) (vkpt s0) va else None)" for va
    using k64.protect_inv [of ?asp s0] by blast
  have len: "length (vpages s1) = 13" using arg_cong [OF s1(3), of length] s1(4) f(3) by (simp add: start64_def)
  have none: "as_walk mmu64 ?asp s1 ?va = None" using s1(5) [of ?va] by (simp add: index64 del: One_nat_def)
  have range: "vm_in_range ?va (uvm_area mmu64)" "baseof mmu64 ?va = ?va" "baseof mmu64 ?pa = ?pa"
    by (simp_all add: vm_in_range_def uvm_area_def baseof_def mmu64_def)
  have entry: "map_entry ?pa MMAP_WRITE = 0x5007" "map_rights MMAP_WRITE = (6 :: 64 word)"
    by (simp_all add: map_entry_def map_rights_def MMAP_WRITE_def PTE_P_def PTE_W_def PTE_U_def)
  have m: "as_map mmu64 ?va ?pa MMAP_WRITE (as_walk mmu64 ?asp s1) =
      Inr (\<lambda>vb. if same_page mmu64 vb ?va then Some (0, 0x5007, 6) else as_walk mmu64 ?asp s1 vb)"
    unfolding as_map_def entry none using range by (simp add: MMAP_WRITE_def MMAP_NONE_def)
  have "length (mmu_pgtables mmu64) = 5" by (simp add: mmu64_def)
  then have "length (mmu_pgtables mmu64) \<le> Suc (Suc (length (vpages s1)))" using len by simp
  from s64.vme_map_implements(1) [OF s1(2) this, of ?va ?pa MMAP_WRITE] obtain s2
    where s2: "vme_map mmu64 ?asp ?va ?pa MMAP_WRITE s1 = Inr s2"
    unfolding m by (auto simp: bind_res_eq_Inr_iff)
  obtain used where "vpages s1 = used @ vpages s2" "length used < 2 * length (mmu_pgtables mmu64)"
    using vme_map_takes [OF s2] by blast
  then have "3 \<le> length (vpages s2)" using len by (simp add: mmu64_def)
  moreover have "vme_session64 ?asp [] start64 = Inr s1" "vme_session64 ?asp [(?va, ?pa, MMAP_WRITE)] start64 = Inr s2"
    by (simp_all add: vme_session64_def i s1(1) s2)
  ultimately show ?thesis using s1(2) len m by auto
qed

text \<open>C38: On x86-64, \<open>map\<close> on an address space whose tables satisfy the invariant, with three
  pages left for new tables, does to the translation what it promises: it refuses an address
  outside the user area, an unaligned one, a second mapping of a page and the unmapping of a page
  that is not mapped; otherwise exactly the page asked for is mapped with the rights asked for (or
  unmapped), and every other address translates as before.\<close>

theorem vme_map_refines:
  assumes "vm_inv mmu64 asp s" and "3 \<le> length (vpages s)"
  shows "bind_res (vme_map mmu64 asp va pa prot s) (\<lambda>s'. Inr (as_walk mmu64 asp s')) = as_map mmu64 va pa prot (as_walk mmu64 asp s)"
  by (rule s64.vme_map_implements(1) [OF assms(1)]) (use assms(2) in \<open>simp add: mmu64_def\<close>)

theorem vme_map_refines_witness:
  "\<exists>s. bind_res (vme_map mmu64 0x9000 0x100000000000 0x5000 MMAP_WRITE s) (\<lambda>s'. Inr (as_walk mmu64 0x9000 s')) =
    Inr (\<lambda>vb. if same_page mmu64 vb 0x100000000000 then Some (0, 0x5007, 6) else as_walk mmu64 0x9000 s vb)"
proof -
  obtain s1 where "vm_inv mmu64 0x9000 s1" "3 \<le> length (vpages s1)" and
    m: "as_map mmu64 0x100000000000 0x5000 MMAP_WRITE (as_walk mmu64 0x9000 s1) =
      Inr (\<lambda>vb. if same_page mmu64 vb 0x100000000000 then Some (0, 0x5007, 6) else as_walk mmu64 0x9000 s1 vb)"
    using sample64 by blast
  from vme_map_refines [OF this(1,2), of "0x100000000000" "0x5000" MMAP_WRITE] show ?thesis unfolding m by (rule exI)
qed

text \<open>C39: On x86-64, from the boot tables over \<open>vme_init\<close>, \<open>protect\<close> and any sequence of
  successful calls of \<open>map\<close> that leaves three pages, \<open>unprotect\<close> gives back exactly the pages
  that were taken from the allocator, each of them once.\<close>

theorem vme_pages_freed:
  assumes "started64 m asp s" and "vme_session64 asp ops s = Inr s2" and "3 \<le> length (vpages s2)"
  shows "\<exists>taken. vpages s = taken @ vpages (unprotect mmu64 asp s2) \<and>
    mset (vfreed (unprotect mmu64 asp s2)) = mset (vfreed s) + mset taken"
proof (rule session64 [OF assms(1,2)])
  fix s0 s1
  assume k: "kernel_ok mmu64 asp s0" "allocator_ok mmu64 asp s0" "protect mmu64 asp s0 = Inr s1" "vme_maps mmu64 asp ops s1 = Inr s2"
    and f: "vfreed s0 = vfreed s" "vpages s0 = vpages s"
  have "length (mmu_pgtables mmu64) \<le> Suc (Suc (length (vpages s2)))" using assms(3) by (simp add: mmu64_def)
  from k64.lifecycle(1) [OF k this] show ?thesis using f by auto
qed

theorem vme_pages_freed_witness:
  "\<exists>s2 taken. vme_session64 0x9000 [(0x100000000000, 0x5000, MMAP_WRITE)] start64 = Inr s2 \<and>
    vpages start64 = taken @ vpages (unprotect mmu64 0x9000 s2) \<and>
    mset (vfreed (unprotect mmu64 0x9000 s2)) = mset (vfreed start64) + mset taken"
proof -
  obtain s2 where s2: "vme_session64 0x9000 [(0x100000000000, 0x5000, MMAP_WRITE)] start64 = Inr s2" "3 \<le> length (vpages s2)"
    using sample64 by blast
  show ?thesis using vme_pages_freed [OF start64_ok s2] s2(1) by (intro exI [of _ s2]) simp
qed

text \<open>C40: On x86-64, whatever a program has been given by \<open>map\<close>, an address of the kernel's area
  is translated to itself, by a large page that is writable for the kernel and closed to the
  user.\<close>

theorem vme_kernel_identity:
  assumes "started64 m asp s" and "vme_session64 asp ops s = Inr s2" and "3 \<le> length (vpages s2)"
    and "vm_in_range va (mmu_areas mmu64 ! 1)"
  shows "\<exists>e. as_walk mmu64 asp s2 va = Some (2, e, PTE_W) \<and> mmu_phys mmu64 2 e va = va"
proof (rule session64 [OF assms(1,2)])
  fix s0 s1
  assume k: "kernel_ok mmu64 asp s0" "allocator_ok mmu64 asp s0" "protect mmu64 asp s0 = Inr s1" "vme_maps mmu64 asp ops s1 = Inr s2"
    and f: "vmem s0 = boot_tables m" "vkpt s0 = PML4_ADDR"
  have len: "length (mmu_pgtables mmu64) \<le> Suc (Suc (length (vpages s2)))" using assms(3) by (simp add: mmu64_def)
  have va: "unat va < 2 ^ 39" using assms(4) by (simp add: vm_in_range_def mmu64_def word_less_nat_alt)
  then have "indexof va (mmu_pgtables mmu64 ! 1) \<in> {0}" unfolding index64 by simp
  from k64.lifecycle(2) [OF k len this] have "as_walk mmu64 asp s2 va = mmu_walk mmu64 (boot_tables m) (tl (mmu_pgtables mmu64)) PML4_ADDR va"
    unfolding f .
  then show ?thesis using boot_walk [of m va, OF _ va] assms(1) by (simp add: started64_def)
qed

theorem vme_kernel_identity_witness:
  "\<exists>s2 e. vme_session64 0x9000 [(0x100000000000, 0x5000, MMAP_WRITE)] start64 = Inr s2 \<and>
    as_walk mmu64 0x9000 s2 0xb8000 = Some (2, e, PTE_W) \<and> mmu_phys mmu64 2 e 0xb8000 = 0xb8000"
proof -
  have "vm_in_range 0xb8000 (mmu_areas mmu64 ! 1)" by (simp add: vm_in_range_def mmu64_def)
  moreover obtain s2 where s2: "vme_session64 0x9000 [(0x100000000000, 0x5000, MMAP_WRITE)] start64 = Inr s2" "3 \<le> length (vpages s2)"
    using sample64 by blast
  ultimately show ?thesis using vme_kernel_identity [OF start64_ok s2] s2(1) by (intro exI [of _ s2]) simp
qed

end
