(* ===== verification/Spec2Isabelle.thy ===== *)
theory Spec2Isabelle
  imports Memory_Props Cpu_Props Expr_Facts Watchpoint_Facts Cpu_Exec_Props Sdb_Facts Tracer_Facts Monitor_Facts
    Kstring_Facts Kstdlib_Facts Kstdio_Facts Int64_Signed Libgcc Am_Gpu_Facts Am_Cte_Facts Gdb_Facts Guests_Facts Gen_Expr Decode_Hex Npc_Props Am_Vme_Props
begin

text \<open>
  Verification of myOSCPU: the emulator NEMU for riscv32 (\<open>nemu/\<close>) and the runtime of the
  programs that run on it (\<open>abstract-machine/\<close>).

  \<^bold>\<open>The program.\<close>  \<open>nemu_main\<close> parses the command line, initialises memory, devices,
  the processor, the debugger and the optional reference design (\<open>monitor.c\<close>), and starts the
  debugger's command loop (\<open>sdb.c\<close>).  Commands run instructions through \<open>cpu_exec\<close>
  (\<open>cpu-exec.c\<close>); each instruction is fetched, matched against the patterns of
  \<open>isa/riscv32/inst.c\<close> and executed on the registers and on guest memory
  (\<open>memory/paddr.c\<close>); addresses outside guest memory go to the maps of
  \<open>device/io/*.c\<close> and from there to the devices.  After each instruction the tracers, the
  watchpoints and differential testing look at the state, and the devices are polled.  On the
  guest side the abstract machine offers programs a C library (\<open>klib/src\<close>), 64-bit
  arithmetic, and drivers that reach the devices by loads and stores.

  \<^bold>\<open>Conventions.\<close>  A C function that may fail returns \<open>'a res\<close>, a sum whose left
  summand is a value of \<open>error\<close>: a failed assertion, a panic, an access outside an object, a
  null dereference, a host trap, or \<open>Diverges\<close> for a loop that does not end.  Machine integers
  are words; C's \<open>int\<close> is a mathematical integer together with the check that it is in range where overflow
  is undefined.  State is a chain of extensible records, one per layer (\<open>io\<close>, \<open>dev\<close>,
  \<open>mem\<close>, \<open>nemu\<close>, \<open>wpst\<close>, \<open>sim\<close>, \<open>sdb\<close>, \<open>emu\<close>), so that each operation is
  typed by the layer that owns it.  Build options are the record \<open>config\<close>.  Code outside the
  repository is a parameter: the host clock and window events, \<open>readline\<close>, files and the
  command line, the reference design of differential testing, the disassembler.

  \<^bold>\<open>Theories.\<close>
  \<^item> \<^bold>\<open>Foundations\<close>.  \<open>Prelude\<close> (results, words, shared lemmas), \<open>Config\<close>
    (\<open>autoconf.h\<close>, \<open>Kconfig\<close>).
  \<^item> \<^bold>\<open>Memory and devices\<close>.  \<open>Hostmem\<close> (\<open>include/memory/host.h\<close>), \<open>Iomap\<close>
    (\<open>device/io/map.c\<close>, \<open>mmio.c\<close>, \<open>port-io.c\<close>), \<open>Devices\<close>
    (\<open>device/*.c\<close>: serial port, timer, alarm, keyboard, screen, audio, SD card), \<open>Paddr\<close>
    (\<open>memory/paddr.c\<close>, \<open>vaddr.c\<close>), \<open>Poweron\<close> (static initial state).  \<open>Memory_Props\<close>:
    stores are read back, accesses stay inside the arrays they name, MMIO reaches the one map
    that holds the address, initialisation leaves disjoint and backed maps, the key queue is a
    bounded FIFO.
  \<^item> \<^bold>\<open>Processor\<close>.  \<open>Decode\<close> and \<open>Decode_Hex\<close> (\<open>include/cpu/decode.h\<close>), \<open>Riscv32\<close>
    (\<open>isa/riscv32/*.c\<close>), \<open>Riscv32_Decode\<close>, \<open>Cpu_Props\<close>: decoding against the fields of the
    manual for every word, immediates, the computations of \<open>inst.c\<close> (with the overflow of \<open>mulhu\<close>;
    \<open>mulhsu\<close> is not in the code), branches, jumps, traps, loads after stores, division with its traps.
  \<^item> \<^bold>\<open>Debugger\<close>.  \<open>Expr\<close> and \<open>Expr_Facts\<close> (\<open>monitor/sdb/expr.c\<close>: evaluation of
    the tokens of a tree gives the tree's value; printing and tokenizing are inverse),
    \<open>Watchpoint\<close> and \<open>Watchpoint_Facts\<close> (\<open>watchpoint.c\<close>: the two chains partition the
    pool and implement a list), \<open>Sdb\<close> and \<open>Sdb_Facts\<close> (\<open>sdb.c\<close>: every session keeps the
    invariant of the machine).
  \<^item> \<^bold>\<open>Execution\<close>.  \<open>Cpu_Exec\<close>, \<open>Cpu_Exec_Facts\<close>, \<open>Difftest_Facts\<close>,
    \<open>Cpu_Exec_Props\<close> (\<open>cpu/cpu-exec.c\<close>, \<open>cpu/difftest/dut.c\<close>, \<open>ref.c\<close>): the
    invariant of the machine, the states of execution, counting, differential testing as a
    simulation against a reference design.
  \<^item> \<^bold>\<open>Tracing and start\<close>.  \<open>Tracer\<close>, \<open>Tracer_Facts\<close> (\<open>utils/tracer.c\<close>),
    \<open>Monitor\<close>, \<open>Monitor_Facts\<close> (\<open>monitor/monitor.c\<close>, \<open>nemu-main.c\<close>): the state after
    start-up, and a whole batch run of the built-in program to exit status 0.
  \<^item> \<^bold>\<open>klib\<close>.  \<open>Kstring\<close>, \<open>Kstdlib\<close>, \<open>Kstdio\<close>, \<open>Int64\<close> and their
    \<open>_Facts\<close> (\<open>klib/src/string.c\<close>, \<open>stdlib.c\<close>, \<open>stdio.c\<close>, \<open>int64.c\<close>),
    \<open>Int64_Signed\<close>, \<open>Libgcc\<close> (\<open>am/src/riscv/npc/libgcc\<close>): memory and strings,
    allocation, formatting (of numbers other than 0, which the code prints as nothing), division
    and multiplication against their mathematical meaning.
  \<^item> \<^bold>\<open>Other guests and references\<close>.  \<open>Guests\<close>, \<open>Guests_Facts\<close> (\<open>isa/mips32\<close>,
    \<open>isa/loongarch32r\<close>): every run of a guest keeps its zero register, the built-in programs end in
    the good trap.  \<open>Gdb\<close>, \<open>Gdb_Facts\<close> (\<open>nemu/tools/qemu-diff\<close>): the GDB remote protocol with its
    escapes, runs and checksums, and registers and memory of a QEMU reference over it.  \<open>Gen_Expr\<close>
    (\<open>nemu/tools/gen-expr\<close>): the shape and length of the generated test expressions.
  \<^item> \<^bold>\<open>Contexts\<close>.  \<open>Am_Cte\<close>, \<open>Am_Cte_Facts\<close> (\<open>am/src/riscv/nemu/cte.c\<close>, \<open>trap.S\<close>) run on the
    interpreter's \<open>ecall\<close> and \<open>mret\<close> and on guest memory: a context is saved, restored and created.
  \<^item> \<^bold>\<open>Virtual memory\<close> (\<open>am/src/x86/qemu/vme.c\<close>).  \<open>Am_Vme\<close>: page tables of two and of four
    levels in one model over the width of a word; \<open>Am_Vme_Facts\<close>: the processor's walk, the tables as
    a tree and how \<open>ptwalk\<close> grows it; \<open>Am_Vme_Map\<close>: \<open>map\<close> implements an update of the abstract
    translation \<open>as_map\<close>; \<open>Am_Vme_Props\<close>: \<open>protect\<close>, sequences of \<open>map\<close> and \<open>unprotect\<close> from
    the boot tables on, with every page given back once and the kernel's part kept.
  \<^item> \<^bold>\<open>Drivers\<close>.  \<open>Am_Ioe\<close>, \<open>Am_Ioe_Facts\<close>, \<open>Am_Gpu_Facts\<close>
    (\<open>am/src/platform/nemu/ioe\<close>) run against the device models of \<open>Devices\<close>: the clock, the
    keyboard and drawing from the host event to the value the program sees.
  \<^item> \<^bold>\<open>The npc simulator\<close> (\<open>npc/csrc\<close>).  \<open>Npc\<close>: memory, I/O maps, serial port and clock and the
    functions the hardware calls (\<open>emulator/dpic.cpp\<close>); \<open>Npc_Sim\<close>: clocking, differential testing,
    the run loop, start and exit (\<open>emulator/simulate.cpp\<close>, \<open>difftest.cpp\<close>, \<open>monitor.cpp\<close>,
    \<open>main.cpp\<close>), with the hardware and the reference as parameters; an evaluation of the hardware is
    a tree of the calls it makes.  \<open>Npc_Facts\<close>: the masked loads and stores are plain ones and form a
    guest memory; \<open>Npc_Inv\<close>, \<open>Npc_Sim_Facts\<close>, \<open>Npc_Props\<close>: with a hardware that shows only aligned
    program counters, an image that fits and the debugger commands \<open>c\<close>, \<open>si\<close>, \<open>q\<close> and \<open>x\<close> at word
    addresses, the host's arrays are never left (at other addresses \<open>x\<close> leaves them:
    \<open>x_past_end\<close>); a run that stops agrees with the reference; the exit status tells whether it
    ended by \<open>ebreak\<close> in agreement with the reference.

  \<^bold>\<open>Interfaces.\<close>  The locales state what one component promises another and are
  interpreted on the model: byte memory (\<open>pm\<close>), registered devices (\<open>devs\<close>), the key queue
  (\<open>keyq\<close>), the registry of watchpoints (\<open>wp\<close>), a reference design that is in step (\<open>nref\<close>), the
  bump allocator (\<open>km\<close>), the promise of a guest to keep its registers (\<open>rv\<close>, \<open>mips\<close>, \<open>la\<close>),
  the hardware interface as a guest memory (\<open>dm\<close>), what half cycles of the hardware keep and thus runs
  keep (\<open>strict\<close>, \<open>safe\<close>, \<open>status\<close>, \<open>wf\<close>, \<open>count\<close>, \<open>unstopped\<close>, \<open>batch\<close>), and the page tables of a configuration
  of the x86 MMU (\<open>m64\<close>, \<open>m32\<close>, with its address spaces \<open>s64\<close>, \<open>s32\<close> and the kernel's part of them
  \<open>k64\<close>, \<open>k32\<close>).

  \<^bold>\<open>Bounds.\<close>  Loops over linked lists of watchpoints carry the bound of one more than the
  size of the pool, which the pool invariant shows to suffice; string scans carry the size of
  the address space and fail with \<open>Diverges\<close> exactly when no zero byte exists; the GDB client's loops
  end with the bytes the peer sends, and waiting for an acknowledgement after them is \<open>Diverges\<close>; the audio
  driver's wait for room in the ring carries a number of polls as a parameter.  The run of
  instructions is a function of the requested number, which \<open>cpu_exec\<close> has in the code, too.

  \<^bold>\<open>Not modelled.\<close>  The vendored tools (kconfig, fixdep), the foreign interfaces (SDL,
  LLVM, sockets, \<open>dlopen\<close>, forking QEMU), the npc hardware itself (Chisel), the screen and the
  debugger's evaluator and remaining commands of its simulator (near copies of NEMU's; \<open>x\<close> takes the
  value of its expression), and of the
  abstract machine its native, mips, loongarch, spike and npc platforms and, on x86, everything but
  virtual memory.  The boot code of x86 is modelled by the tables it leaves in zeroed memory.
\<close>

end
